(* ===== verification/Prelude.thy ===== *)
theory Prelude
  imports Main "HOL-Library.Word"
begin

text \<open>
  What every theory of the library shares: the machine types of the code, the little-endian byte
  codec of x86/ARM memory (\<open>memcpy\<close>, \<open>WRITEDATA\<close>, \<open>READDATA\<close>), signed wrap-around, the result
  type of code that can return early, and the generic lemmas on lists and bytes the component
  proofs are made of.
\<close>

unbundle bit_operations_syntax

section \<open>Types of the code\<close>

type_synonym byte = "8 word"
type_synonym u16 = "16 word"
type_synonym u32 = "32 word"
type_synonym u64 = "64 word"
type_synonym uint160 = "160 word"
type_synonym uint256 = "256 word"
type_synonym valtype = "byte list"

text \<open>Facts used to unfold byte codecs, and facts that discharge the laws of a codec.\<close>

named_theorems byte_codec
named_theorems codec_laws

section \<open>Signed integers\<close>

text \<open>
  A signed integer of the code is an \<open>int\<close>; \<open>s32\<close> and \<open>s64\<close> reduce a result to the two's
  complement range (the conversion from an unsigned type, and what the compilers this code is
  built with do on overflow).
\<close>

definition s32 :: "int \<Rightarrow> int" where
  "s32 x = (x + 2 ^ 31) mod 2 ^ 32 - 2 ^ 31"

definition s64 :: "int \<Rightarrow> int" where
  "s64 x = (x + 2 ^ 63) mod 2 ^ 64 - 2 ^ 63"

lemma s32_id [simp]: "- (2 ^ 31) \<le> x \<Longrightarrow> x < 2 ^ 31 \<Longrightarrow> s32 x = x"
  by (simp add: s32_def)

lemma s64_id [simp]: "- (2 ^ 63) \<le> x \<Longrightarrow> x < 2 ^ 63 \<Longrightarrow> s64 x = x"
  by (simp add: s64_def)

lemma s64_bounds: "- (2 ^ 63) \<le> s64 x" "s64 x < 2 ^ 63"
  by (simp_all add: s64_def)

lemma s32_bounds: "- (2 ^ 31) \<le> s32 x" "s32 x < 2 ^ 31"
  by (simp_all add: s32_def)

lemma s32_mod: "s32 (x mod 2 ^ 32) = s32 x"
  unfolding s32_def by (simp add: mod_add_left_eq)

lemma s64_mod: "s64 (x mod 2 ^ 64) = s64 x"
  unfolding s64_def by (simp add: mod_add_left_eq)

section \<open>Little-endian bytes\<close>

fun le_bytes :: "nat \<Rightarrow> nat \<Rightarrow> byte list" where
  "le_bytes 0 n = []"
| "le_bytes (Suc k) n = of_nat (n mod 256) # le_bytes k (n div 256)"

fun le_val :: "byte list \<Rightarrow> nat" where
  "le_val [] = 0"
| "le_val (b # bs) = unat b + 256 * le_val bs"

lemma length_le_bytes [simp]: "length (le_bytes k n) = k"
  by (induction k arbitrary: n) auto

lemma unat_byte_lt [simp]: "unat (b :: byte) < 256"
  using unsigned_less [of b] by simp

lemma unat_byte_of_nat [simp]: "unat (of_nat (n mod 256) :: byte) = n mod 256"
  by (simp add: unat_of_nat)

lemma byte_of_nat_unat [simp]: "(of_nat (unat b) :: byte) = b"
  by simp

lemma le_val_le_bytes [simp]: "le_val (le_bytes k n) = n mod 256 ^ k"
proof (induction k arbitrary: n)
  case 0
  then show ?case by simp
next
  case (Suc k)
  have "n mod 256 + 256 * (n div 256 mod 256 ^ k) = n mod (256 * 256 ^ k)"
    by (simp add: mod_mult2_eq)
  with Suc show ?case by simp
qed

lemma le_val_bound: "le_val bs < 256 ^ length bs"
proof (induction bs)
  case Nil
  then show ?case by simp
next
  case (Cons b bs)
  have "unat b < 256" by (rule unat_byte_lt)
  moreover have "256 * le_val bs + 256 \<le> 256 * 256 ^ length bs"
    using Cons by simp
  ultimately have "unat b + 256 * le_val bs < 256 * 256 ^ length bs" by linarith
  then show ?case by simp
qed

lemma le_bytes_le_val [simp]: "le_bytes (length bs) (le_val bs) = bs"
proof (induction bs)
  case Nil
  then show ?case by simp
next
  case (Cons b bs)
  have "unat b < 256" by simp
  then have "(unat b + 256 * le_val bs) mod 256 = unat b"
    and "(unat b + 256 * le_val bs) div 256 = le_val bs" by simp_all
  with Cons show ?case by simp
qed

lemma le_val_append: "le_val (xs @ ys) = le_val xs + 256 ^ length xs * le_val ys"
  by (induction xs) (auto simp: algebra_simps)

lemma le_val_inj: "length xs = length ys \<Longrightarrow> le_val xs = le_val ys \<Longrightarrow> xs = ys"
  by (metis le_bytes_le_val)

lemma le_bytes_inj: "le_bytes k m = le_bytes k n \<Longrightarrow> m < 256 ^ k \<Longrightarrow> n < 256 ^ k \<Longrightarrow> m = n"
  by (metis le_val_le_bytes mod_less)

text \<open>The bytes of an unsigned word and of a two's complement integer in memory.\<close>

definition bytes_of_u16 :: "u16 \<Rightarrow> byte list" where "bytes_of_u16 w = le_bytes 2 (unat w)"
definition bytes_of_u32 :: "u32 \<Rightarrow> byte list" where "bytes_of_u32 w = le_bytes 4 (unat w)"
definition bytes_of_u64 :: "u64 \<Rightarrow> byte list" where "bytes_of_u64 w = le_bytes 8 (unat w)"
definition bytes_of_uint160 :: "uint160 \<Rightarrow> byte list" where "bytes_of_uint160 w = le_bytes 20 (unat w)"
definition bytes_of_uint256 :: "uint256 \<Rightarrow> byte list" where "bytes_of_uint256 w = le_bytes 32 (unat w)"
definition bytes_of_int32 :: "int \<Rightarrow> byte list" where "bytes_of_int32 x = le_bytes 4 (nat (x mod 2 ^ 32))"
definition bytes_of_int64 :: "int \<Rightarrow> byte list" where "bytes_of_int64 x = le_bytes 8 (nat (x mod 2 ^ 64))"

lemmas bytes_of_defs [byte_codec] = bytes_of_u16_def bytes_of_u32_def bytes_of_u64_def
  bytes_of_uint160_def bytes_of_uint256_def bytes_of_int32_def bytes_of_int64_def

lemma length_bytes_of [simp]:
  "length (bytes_of_u16 a) = 2" "length (bytes_of_u32 b) = 4" "length (bytes_of_u64 c) = 8"
  "length (bytes_of_uint160 d) = 20" "length (bytes_of_uint256 e) = 32"
  "length (bytes_of_int32 x) = 4" "length (bytes_of_int64 x) = 8"
  by (simp_all add: bytes_of_defs)

lemma of_nat_le_val_word:
  assumes "2 ^ LENGTH('a) = (256 :: nat) ^ k"
  shows "of_nat (le_val (le_bytes k (unat (w :: 'a::len word)))) = w"
proof -
  have "unat w < 2 ^ LENGTH('a)" by (rule unsigned_less)
  with assms have "unat w < 256 ^ k" by simp
  then show ?thesis by simp
qed

lemma word_of_bytes_of [simp]:
  "of_nat (le_val (bytes_of_u16 a)) = a" "of_nat (le_val (bytes_of_u32 b)) = b"
  "of_nat (le_val (bytes_of_u64 c)) = c" "of_nat (le_val (bytes_of_uint160 d)) = d"
  "of_nat (le_val (bytes_of_uint256 e)) = e"
  unfolding bytes_of_defs by (rule of_nat_le_val_word; simp)+

lemma bytes_of_uint160_inj [simp]: "bytes_of_uint160 a = bytes_of_uint160 b \<longleftrightarrow> a = b"
  by (metis word_of_bytes_of(4))

lemma bytes_of_uint256_inj [simp]: "bytes_of_uint256 a = bytes_of_uint256 b \<longleftrightarrow> a = b"
  by (metis word_of_bytes_of(5))

section \<open>Results of code that can return early\<close>

text \<open>
  \<open>Inl s\<close>: the function returned (an error, \<open>false\<close>) with state \<open>s\<close>; \<open>Inr s\<close>: it goes on.
\<close>

type_synonym 's flow = "'s + 's"

fun flow_state :: "'s flow \<Rightarrow> 's" where
  "flow_state (Inl s) = s"
| "flow_state (Inr s) = s"

section \<open>Lists\<close>

lemma take_append_exact [simp]: "length xs = n \<Longrightarrow> take n (xs @ ys) = xs"
  by simp

lemma drop_append_exact [simp]: "length xs = n \<Longrightarrow> drop n (xs @ ys) = ys"
  by simp

lemma length_ge_Suc: "Suc n \<le> length xs \<longleftrightarrow> (\<exists>y ys. xs = y # ys \<and> n \<le> length ys)"
  by (cases xs) auto

lemma lt_length_Cons: "n < length xs \<longleftrightarrow> (\<exists>y ys. xs = y # ys \<and> n \<le> length ys)"
  by (cases xs) auto

end
