(* ===== verification/External.thy ===== *)
theory External
  imports Prelude
begin

text \<open>
  The code outside the repository that the modelled part calls, as one record of functions that
  every definition using it takes as its argument \<open>E\<close>: OpenSSL's BIGNUM routines (a BIGNUM is
  represented by the integer it denotes), its hash functions and its elliptic-curve routines (\<open>EC_set_pubkey\<close>: \<open>o2i_ECPublicKey\<close> accepts the
  bytes; \<open>EC_get_pubkey\<close>, \<open>EC_secret_pubkey\<close>: \<open>i2o_ECPublicKey\<close> of the point of a public or a
  secret key, compressed or not; \<open>EC_order\<close>: \<open>EC_GROUP_get_order\<close> of secp256k1).
  \<open>bn_ok\<close> and \<open>hash_ok\<close> state the documented behaviour proofs rely on; \<open>openssl_ref\<close> is a concrete
  instance of them, used to run the definitions on concrete inputs.
\<close>

record external =
  BN_mpi2bn :: "byte list \<Rightarrow> int"
  BN_bn2mpi :: "int \<Rightarrow> byte list"
  BN_set_word :: "nat \<Rightarrow> int"
  BN_get_word :: "int \<Rightarrow> nat"
  BN_is_negative :: "int \<Rightarrow> bool"
  BN_set_negative :: "int \<Rightarrow> bool \<Rightarrow> int"
  BN_add :: "int \<Rightarrow> int \<Rightarrow> int"
  BN_sub :: "int \<Rightarrow> int \<Rightarrow> int"
  BN_mul :: "int \<Rightarrow> int \<Rightarrow> int"
  BN_div :: "int \<Rightarrow> int \<Rightarrow> (int \<times> int) option"
  BN_nnmod :: "int \<Rightarrow> int \<Rightarrow> int option"
  BN_lshift :: "int \<Rightarrow> nat \<Rightarrow> int"
  BN_rshift :: "int \<Rightarrow> nat \<Rightarrow> int"
  BN_cmp :: "int \<Rightarrow> int \<Rightarrow> int"
  SSL_SHA256 :: "byte list \<Rightarrow> byte list"
  SSL_RIPEMD160 :: "byte list \<Rightarrow> byte list"
  SSL_SHA1 :: "byte list \<Rightarrow> byte list"
  EC_set_pubkey :: "byte list \<Rightarrow> bool"
  EC_get_pubkey :: "byte list \<Rightarrow> bool \<Rightarrow> byte list"
  EC_secret_pubkey :: "byte list \<Rightarrow> bool \<Rightarrow> byte list"
  ECDSA_verify :: "byte list \<Rightarrow> byte list \<Rightarrow> byte list \<Rightarrow> int"
  ECDSA_do_sign :: "byte list \<Rightarrow> byte list \<Rightarrow> (int \<times> int) option"
  i2d_ECDSA_SIG :: "int \<Rightarrow> int \<Rightarrow> byte list"
  d2i_ECDSA_SIG :: "byte list \<Rightarrow> (int \<times> int) option"
  EC_order :: int

section \<open>The MPI format\<close>

text \<open>
  OpenSSL documents the MPI format as a 4-byte big-endian length and the number in big-endian
  form, where the most significant bit of the first byte is the sign.
\<close>

definition be_val :: "byte list \<Rightarrow> nat" where
  "be_val bs = le_val (rev bs)"

fun le_min :: "nat \<Rightarrow> byte list" where
  "le_min n = (if n = 0 then [] else of_nat (n mod 256) # le_min (n div 256))"

declare le_min.simps [simp del]

fun mpi_val :: "byte list \<Rightarrow> int" where
  "mpi_val [] = 0"
| "mpi_val (b # bs) =
     (if b AND 0x80 \<noteq> 0 then - int (be_val ((b AND 0x7f) # bs)) else int (be_val (b # bs)))"

fun mpi_sign :: "bool \<Rightarrow> byte list \<Rightarrow> byte list" where
  "mpi_sign neg [] = []"
| "mpi_sign neg (b # bs) =
     (if b AND 0x80 \<noteq> 0 then (if neg then 0x80 else 0) # b # bs
      else (if neg then b OR 0x80 else b) # bs)"

definition mpi_bytes :: "int \<Rightarrow> byte list" where
  "mpi_bytes v = mpi_sign (v < 0) (rev (le_min (nat \<bar>v\<bar>)))"

definition be4 :: "nat \<Rightarrow> byte list" where
  "be4 n = rev (le_bytes 4 n)"

definition bn_ok :: "external \<Rightarrow> bool" where
  "bn_ok E \<longleftrightarrow>
     (\<forall>bs. length bs < 2 ^ 32 \<longrightarrow> BN_mpi2bn E (be4 (length bs) @ bs) = mpi_val bs) \<and>
     (\<forall>v. BN_bn2mpi E v = be4 (length (mpi_bytes v)) @ mpi_bytes v) \<and>
     (\<forall>n. BN_set_word E n = int n) \<and>
     (\<forall>v. BN_get_word E v = (if nat \<bar>v\<bar> < 2 ^ 64 then nat \<bar>v\<bar> else 2 ^ 64 - 1)) \<and>
     (\<forall>v. BN_is_negative E v \<longleftrightarrow> v < 0) \<and>
     (\<forall>v b. BN_set_negative E v b = (if b then - \<bar>v\<bar> else \<bar>v\<bar>)) \<and>
     (\<forall>a b. BN_add E a b = a + b) \<and> (\<forall>a b. BN_sub E a b = a - b) \<and>
     (\<forall>a b. BN_mul E a b = a * b) \<and>
     (\<forall>a b. BN_div E a b = (if b = 0 then None else
         Some (sgn a * sgn b * (\<bar>a\<bar> div \<bar>b\<bar>), sgn a * (\<bar>a\<bar> mod \<bar>b\<bar>)))) \<and>
     (\<forall>a b. BN_nnmod E a b = (if b = 0 then None else Some (a mod \<bar>b\<bar>))) \<and>
     (\<forall>a k. BN_lshift E a k = a * 2 ^ k) \<and>
     (\<forall>a k. BN_rshift E a k = sgn a * (\<bar>a\<bar> div 2 ^ k)) \<and>
     (\<forall>a b. BN_cmp E a b = sgn (a - b))"

definition hash_ok :: "external \<Rightarrow> bool" where
  "hash_ok E \<longleftrightarrow> (\<forall>bs. length (SSL_SHA256 E bs) = 32) \<and>
     (\<forall>bs. length (SSL_RIPEMD160 E bs) = 20) \<and> (\<forall>bs. length (SSL_SHA1 E bs) = 20)"

text \<open>
  SEC 1 point encoding, as \<open>o2i_ECPublicKey\<close> and \<open>i2o_ECPublicKey\<close> implement it: the compressed form
  of an uncompressed point names the same point.
\<close>

definition ec_ok :: "external \<Rightarrow> bool" where
  "ec_ok E \<longleftrightarrow> (\<forall>x y. length x = 32 \<and> length y = 32 \<and> EC_set_pubkey E (4 # x @ y) \<longrightarrow>
     EC_set_pubkey E ((2 + (last y AND 1)) # x) \<and>
     EC_get_pubkey E ((2 + (last y AND 1)) # x) False = 4 # x @ y)"

text \<open>
  A concrete instance: the BIGNUM routines as documented, a checksum in place of the hash
  functions and a signature scheme in which a signature carries the first byte of the key.
\<close>

definition toy_digest :: "nat \<Rightarrow> byte list \<Rightarrow> byte list" where
  "toy_digest k bs = le_bytes k (foldl (\<lambda>a b. (a * 257 + unat b + 1) mod 2 ^ 61) (length bs) bs)"

definition toy_y :: "byte list \<Rightarrow> byte \<Rightarrow> byte list" where
  "toy_y x parity = butlast x @ [(last x AND 0xFE) OR parity]"

definition toy_point :: "bool \<Rightarrow> byte list \<Rightarrow> byte \<Rightarrow> byte list" where
  "toy_point compressed x parity = (if compressed then (2 OR parity) # x else 4 # x @ toy_y x parity)"

definition toy_parity :: "byte list \<Rightarrow> byte" where
  "toy_parity k = (if length k = 33 then hd k else last k) AND 1"

definition toy_valid :: "byte list \<Rightarrow> bool" where
  "toy_valid k \<longleftrightarrow> length k = 33 \<and> (hd k = 2 \<or> hd k = 3) \<or>
     length k = 65 \<and> hd k = 4 \<and> drop 33 k = toy_y (take 32 (tl k)) (last k AND 1)"

definition toy_der :: "int \<Rightarrow> int \<Rightarrow> byte list" where
  "toy_der r s = (let R = mpi_bytes r; S = mpi_bytes s in
     [0x30, of_nat (length R + length S + 4), 2, of_nat (length R)] @ R @ [2, of_nat (length S)] @ S)"

definition toy_parse :: "byte list \<Rightarrow> (int \<times> int) option" where
  "toy_parse bs =
     (if length bs < 6 then None
      else let n = unat (bs ! 3) in Some (mpi_val (take n (drop 4 bs)), mpi_val (drop (n + 6) bs)))"

definition openssl_ref :: external where
  "openssl_ref = \<lparr>
     BN_mpi2bn = (\<lambda>bs. mpi_val (drop 4 bs)),
     BN_bn2mpi = (\<lambda>v. be4 (length (mpi_bytes v)) @ mpi_bytes v),
     BN_set_word = int,
     BN_get_word = (\<lambda>v. if nat \<bar>v\<bar> < 2 ^ 64 then nat \<bar>v\<bar> else 2 ^ 64 - 1),
     BN_is_negative = (\<lambda>v. v < 0),
     BN_set_negative = (\<lambda>v b. if b then - \<bar>v\<bar> else \<bar>v\<bar>),
     BN_add = (+), BN_sub = (-), BN_mul = (*),
     BN_div = (\<lambda>a b. if b = 0 then None else
         Some (sgn a * sgn b * (\<bar>a\<bar> div \<bar>b\<bar>), sgn a * (\<bar>a\<bar> mod \<bar>b\<bar>))),
     BN_nnmod = (\<lambda>a b. if b = 0 then None else Some (a mod \<bar>b\<bar>)),
     BN_lshift = (\<lambda>a k. a * 2 ^ k),
     BN_rshift = (\<lambda>a k. sgn a * (\<bar>a\<bar> div 2 ^ k)),
     BN_cmp = (\<lambda>a b. sgn (a - b)),
     SSL_SHA256 = toy_digest 32, SSL_RIPEMD160 = toy_digest 20, SSL_SHA1 = toy_digest 20,
     EC_set_pubkey = toy_valid,
     EC_get_pubkey = (\<lambda>k c. toy_point c (take 32 (tl k)) (toy_parity k)),
     EC_secret_pubkey = (\<lambda>d c. toy_point c d 0),
     ECDSA_verify = (\<lambda>k h s. if 5 < length s \<and> s ! 5 = hd (tl k) then 1 else 0),
     ECDSA_do_sign = (\<lambda>d h. Some (256 + int (unat (hd d)), int (le_val h mod 2 ^ 200) + 1)),
     i2d_ECDSA_SIG = toy_der, d2i_ECDSA_SIG = toy_parse,
     EC_order = 2 ^ 256 - 432420386565659656852420866394968145599 \<rparr>"

section \<open>Facts\<close>

lemma length_be4 [simp]: "length (be4 n) = 4"
  by (simp add: be4_def)

lemma length_toy_digest [simp]: "length (toy_digest k bs) = k"
  by (simp add: toy_digest_def)

lemma openssl_ref_bn_ok: "bn_ok openssl_ref"
  unfolding bn_ok_def openssl_ref_def by simp

lemma openssl_ref_hash_ok: "hash_ok openssl_ref"
  unfolding hash_ok_def openssl_ref_def by simp

lemma toy_parity_cases: "(b :: byte) AND 1 = 0 \<or> b AND 1 = 1"
  by (simp add: and_one_eq mod_2_eq_odd)

lemma openssl_ref_ec_ok: "ec_ok openssl_ref"
proof -
  have "toy_valid ((2 + (last y AND 1)) # x) \<and>
      toy_point False (take 32 x) (toy_parity ((2 + (last y AND 1)) # x)) = 4 # x @ y"
    if "length x = 32" "length y = 32" "toy_valid (4 # x @ y)" for x y
  proof -
    have "toy_parity ((2 + (last y AND 1)) # x) = last y AND 1"
      using that(1) toy_parity_cases [of "last y"] by (auto simp: toy_parity_def)
    moreover have "y \<noteq> []" using that(2) by auto
    then have "y = toy_y x (last y AND 1)" using that by (auto simp: toy_valid_def)
    ultimately show ?thesis
      using that toy_parity_cases [of "last y"] by (auto simp: toy_valid_def toy_point_def)
  qed
  then show ?thesis unfolding ec_ok_def openssl_ref_def by simp
qed

lemma bn_okD:
  assumes "bn_ok E"
  shows "length bs < 2 ^ 32 \<Longrightarrow> BN_mpi2bn E (be4 (length bs) @ bs) = mpi_val bs"
    "BN_bn2mpi E v = be4 (length (mpi_bytes v)) @ mpi_bytes v"
    "BN_set_word E n = int n"
    "BN_get_word E v = (if nat \<bar>v\<bar> < 2 ^ 64 then nat \<bar>v\<bar> else 2 ^ 64 - 1)"
    "BN_is_negative E v \<longleftrightarrow> v < 0"
    "BN_set_negative E v c = (if c then - \<bar>v\<bar> else \<bar>v\<bar>)"
    "BN_add E a b = a + b" "BN_sub E a b = a - b" "BN_mul E a b = a * b"
    "BN_div E a b = (if b = 0 then None else
         Some (sgn a * sgn b * (\<bar>a\<bar> div \<bar>b\<bar>), sgn a * (\<bar>a\<bar> mod \<bar>b\<bar>)))"
    "BN_nnmod E a b = (if b = 0 then None else Some (a mod \<bar>b\<bar>))"
    "BN_lshift E a k = a * 2 ^ k"
    "BN_rshift E a k = sgn a * (\<bar>a\<bar> div 2 ^ k)"
    "BN_cmp E a b = sgn (a - b)"
  using assms unfolding bn_ok_def by simp_all

lemma hash_okD:
  assumes "hash_ok E"
  shows "length (SSL_SHA256 E bs) = 32" "length (SSL_RIPEMD160 E bs) = 20"
    "length (SSL_SHA1 E bs) = 20"
  using assms unfolding hash_ok_def by simp_all

lemma le_min_0 [simp]: "le_min 0 = []"
  by (simp add: le_min.simps)

lemma le_min_eq_Nil [simp]: "le_min n = [] \<longleftrightarrow> n = 0"
  by (subst le_min.simps) simp

lemma le_val_le_min [simp]: "le_val (le_min n) = n"
proof (induction n rule: le_min.induct)
  case (1 n)
  then show ?case by (cases "n = 0") (simp_all add: le_min.simps [of n])
qed

lemma last_le_min: "n \<noteq> 0 \<Longrightarrow> last (le_min n) \<noteq> 0"
proof (induction n rule: le_min.induct)
  case (1 n)
  have "(of_nat (n mod 256) :: byte) \<noteq> 0" if "n div 256 = 0"
    using 1(2) that by (simp add: word_of_nat_eq_0_iff dvd_eq_mod_eq_0)
  then show ?case using 1 by (subst le_min.simps) simp
qed

lemma le_val_pos: "bs \<noteq> [] \<Longrightarrow> last bs \<noteq> 0 \<Longrightarrow> 0 < le_val bs"
proof (induction bs)
  case (Cons b bs)
  then show ?case by (cases "bs = []") (auto simp: unat_eq_0 word_greater_zero_iff unat_gt_0)
qed simp

lemma le_min_le_val: "bs = [] \<or> last bs \<noteq> 0 \<Longrightarrow> le_min (le_val bs) = bs"
proof (induction bs)
  case (Cons b bs)
  have "0 < le_val (b # bs)" using Cons.prems by (intro le_val_pos) auto
  moreover have "(unat b + 256 * le_val bs) mod 256 = unat b"
    and "(unat b + 256 * le_val bs) div 256 = le_val bs" by simp_all
  moreover have "le_min (le_val bs) = bs" using Cons by (cases "bs = []") auto
  ultimately show ?case by (subst le_min.simps) simp
qed simp

lemma bit7_iff: "(b :: byte) AND 0x80 \<noteq> 0 \<longleftrightarrow> bit b 7"
proof -
  have "(0x80 :: byte) = 2 ^ 7" by simp
  then show ?thesis by (simp only: and_exp_eq_0_iff_not_bit) simp
qed

lemma byte_low: "(b :: byte) AND 0x7f = take_bit 7 b"
proof -
  have "(0x7f :: byte) = mask 7" by (simp add: mask_eq_exp_minus_1)
  then show ?thesis by (simp only: take_bit_eq_mask)
qed

lemma unat_byte_low: "unat ((b :: byte) AND 0x7f) = unat b mod 128"
  unfolding byte_low unsigned_take_bit_eq take_bit_eq_mod [where 'a = nat] by simp

lemma half_byte: "128 \<le> m \<Longrightarrow> m < 256 \<Longrightarrow> m mod 128 = m - 128 \<and> m div 128 = 1" for m :: nat
  by (simp add: le_mod_geq le_div_geq)

lemma bit7_unat: "bit (b :: byte) 7 \<longleftrightarrow> 128 \<le> unat b"
proof -
  have "bit b 7 \<longleftrightarrow> odd (unat b div 128)"
    using bit_unsigned_iff [of b 7, where 'a = nat] by (simp add: bit_iff_odd [of "unat b"])
  then show ?thesis using half_byte [of "unat b"] by (cases "128 \<le> unat b") auto
qed

lemma byte_sign_low: "bit (b :: byte) 7 \<Longrightarrow> unat b = 128 + unat (b AND 0x7f)"
  using half_byte [of "unat b"] by (simp add: bit7_unat unat_byte_low)

lemma byte_or_sign: "(b :: byte) OR 0x80 = set_bit 7 b"
  by (simp add: set_bit_eq_or)

lemma byte_set_sign:
  assumes "\<not> bit (b :: byte) 7"
  shows "(b OR 0x80) AND 0x7f = b"
  unfolding byte_or_sign byte_low
proof (rule bit_word_eqI)
  fix n assume "n < LENGTH(8)"
  then have "n < 7 \<or> n = 7" by auto
  then show "bit (take_bit 7 (set_bit 7 b)) n = bit b n"
    using assms by (auto simp: bit_simps)
qed

lemma byte_set_sign_bit: "bit ((b :: byte) OR 0x80) 7"
  unfolding byte_or_sign by (simp add: bit_simps)

end
