(* ===== verification/BigNum.thy ===== *)
theory BigNum
  imports External
begin

text \<open>
  \<open>CBigNum\<close> (src/bignum.h): the conversions between integers, byte vectors, 256-bit numbers, the
  compact target format and OpenSSL's MPI byte format, and the arithmetic operators, over the
  BIGNUM routines of \<open>E\<close>. A \<open>CBigNum\<close> is the integer it denotes.
\<close>

section \<open>Conversions\<close>

definition setulong :: "external \<Rightarrow> nat \<Rightarrow> int" where
  "setulong E n = BN_set_word E n"

definition getulong :: "external \<Rightarrow> int \<Rightarrow> nat" where
  "getulong E bn = BN_get_word E bn"

definition getuint :: "external \<Rightarrow> int \<Rightarrow> u32" where
  "getuint E bn = of_nat (BN_get_word E bn)"

definition getint :: "external \<Rightarrow> int \<Rightarrow> int" where
  "getint E bn = (let n = BN_get_word E bn in
     if \<not> BN_is_negative E bn then (if n > 2147483647 then 2147483647 else int n)
     else (if n > 2147483647 then - 2147483648 else - int n))"

text \<open>
  The loop of the three setters: leading zero bytes are skipped; before the first byte that is
  kept a sign byte is written when its top bit is taken, and otherwise the sign goes into it.
\<close>

fun mpi_loop :: "bool \<Rightarrow> bool \<Rightarrow> byte list \<Rightarrow> byte list" where
  "mpi_loop fNegative fLeadingZeroes [] = []"
| "mpi_loop fNegative fLeadingZeroes (c # cs) =
     (if fLeadingZeroes then
        if c = 0 then mpi_loop fNegative True cs
        else if c AND 0x80 \<noteq> 0 then
          (if fNegative then 0x80 else 0) # c # mpi_loop fNegative False cs
        else (if fNegative then c OR 0x80 else c) # mpi_loop fNegative False cs
      else c # mpi_loop fNegative False cs)"

text \<open>\<open>c = (n >> 56) & 0xff; n <<= 8;\<close> for the iterations that are left.\<close>

fun high_bytes :: "nat \<Rightarrow> u64 \<Rightarrow> byte list" where
  "high_bytes 0 n = []"
| "high_bytes (Suc i) n = ucast (drop_bit 56 n AND 0xff) # high_bytes i (push_bit 8 n)"

definition setint64 :: "external \<Rightarrow> int \<Rightarrow> int" where
  "setint64 E sn =
     (let fNegative = sn < 0;
          n = (if fNegative then word_of_int (- (sn + 1)) + 1 else word_of_int sn) :: u64;
          p = mpi_loop fNegative True (high_bytes 8 n)
      in BN_mpi2bn E (be4 (length p) @ p))"

definition setuint64 :: "external \<Rightarrow> u64 \<Rightarrow> int" where
  "setuint64 E n =
     (let p = mpi_loop False True (high_bytes 8 n) in BN_mpi2bn E (be4 (length p) @ p))"

definition setuint256 :: "external \<Rightarrow> uint256 \<Rightarrow> int" where
  "setuint256 E n =
     (let p = mpi_loop False True (rev (bytes_of_uint256 n)) in BN_mpi2bn E (be4 (length p) @ p))"

text \<open>The magnitude bytes of the MPI form, least significant first, sign bit cleared.\<close>

definition mpi_magnitude :: "external \<Rightarrow> int \<Rightarrow> byte list" where
  "mpi_magnitude E bn =
     (let vch = BN_bn2mpi E bn;
          vch' = (if length vch > 4 then vch[4 := (vch ! 4) AND 0x7f] else vch)
      in rev (drop 4 vch'))"

definition getuint64 :: "external \<Rightarrow> int \<Rightarrow> u64" where
  "getuint64 E bn = (if length (BN_bn2mpi E bn) < 4 then 0
     else of_nat (le_val (take 8 (mpi_magnitude E bn))))"

definition getuint256 :: "external \<Rightarrow> int \<Rightarrow> uint256" where
  "getuint256 E bn = (if length (BN_bn2mpi E bn) < 4 then 0
     else of_nat (le_val (take 32 (mpi_magnitude E bn))))"

definition setvch :: "external \<Rightarrow> valtype \<Rightarrow> int" where
  "setvch E vch = BN_mpi2bn E (be4 (length vch) @ rev vch)"

definition getvch :: "external \<Rightarrow> int \<Rightarrow> valtype" where
  "getvch E bn = (let vch = BN_bn2mpi E bn in
     if length vch \<le> 4 then [] else rev (drop 4 vch))"

definition SetCompact :: "external \<Rightarrow> u32 \<Rightarrow> int" where
  "SetCompact E nCompact =
     (let nSize = unat (drop_bit 24 nCompact);
          body = take nSize ([ucast (drop_bit 16 nCompact AND 0xff),
                              ucast (drop_bit 8 nCompact AND 0xff),
                              ucast (nCompact AND 0xff)] @ replicate (nSize - 3) 0)
      in BN_mpi2bn E ([0, 0, 0, of_nat nSize] @ body))"

definition GetCompact :: "external \<Rightarrow> int \<Rightarrow> u32" where
  "GetCompact E bn =
     (let vch = BN_bn2mpi E bn; nSize = length vch - 4;
          c0 = push_bit 24 (of_nat nSize) :: u32;
          c1 = (if nSize \<ge> 1 then c0 OR push_bit 16 (ucast (vch ! 4)) else c0);
          c2 = (if nSize \<ge> 2 then c1 OR push_bit 8 (ucast (vch ! 5)) else c1)
      in if nSize \<ge> 3 then c2 OR ucast (vch ! 6) else c2)"

section \<open>Operators\<close>

text \<open>\<open>CBigNum(int n)\<close>; the other signed and unsigned integer constructors use the same two setters.\<close>

definition bn_of_int :: "external \<Rightarrow> int \<Rightarrow> int" where
  "bn_of_int E n = (if n \<ge> 0 then setulong E (nat n) else setint64 E n)"

definition bn_add :: "external \<Rightarrow> int \<Rightarrow> int \<Rightarrow> int" where "bn_add E a b = BN_add E a b"
definition bn_sub :: "external \<Rightarrow> int \<Rightarrow> int \<Rightarrow> int" where "bn_sub E a b = BN_sub E a b"
definition bn_mul :: "external \<Rightarrow> int \<Rightarrow> int \<Rightarrow> int" where "bn_mul E a b = BN_mul E a b"

definition bn_neg :: "external \<Rightarrow> int \<Rightarrow> int" where
  "bn_neg E a = BN_set_negative E a (\<not> BN_is_negative E a)"

text \<open>Division and remainder throw \<open>bignum_error\<close> for a zero divisor: \<open>None\<close>.\<close>

definition bn_div :: "external \<Rightarrow> int \<Rightarrow> int \<Rightarrow> int option" where
  "bn_div E a b = map_option fst (BN_div E a b)"

definition bn_mod :: "external \<Rightarrow> int \<Rightarrow> int \<Rightarrow> int option" where
  "bn_mod E a b = BN_nnmod E a b"

definition bn_shl :: "external \<Rightarrow> int \<Rightarrow> nat \<Rightarrow> int" where
  "bn_shl E a shift = BN_lshift E a shift"

definition bn_shr :: "external \<Rightarrow> int \<Rightarrow> nat \<Rightarrow> int" where
  "bn_shr E this shift =
     (let a = BN_lshift E (bn_of_int E 1) shift in
      if BN_cmp E a this > 0 then bn_of_int E 0 else BN_rshift E this shift)"

definition bn_eq :: "external \<Rightarrow> int \<Rightarrow> int \<Rightarrow> bool" where "bn_eq E a b \<longleftrightarrow> BN_cmp E a b = 0"
definition bn_le :: "external \<Rightarrow> int \<Rightarrow> int \<Rightarrow> bool" where "bn_le E a b \<longleftrightarrow> BN_cmp E a b \<le> 0"
definition bn_lt :: "external \<Rightarrow> int \<Rightarrow> int \<Rightarrow> bool" where "bn_lt E a b \<longleftrightarrow> BN_cmp E a b < 0"

section \<open>The MPI format\<close>

lemma le_val_append_0 [simp]: "le_val (bs @ [0]) = le_val bs"
  by (simp add: le_val_append)

lemma le_min_strip: "le_min (le_val bs) = rev (dropWhile (\<lambda>b. b = 0) (rev bs))"
  by (induction bs rule: rev_induct) (auto simp: le_min_le_val)

lemma le_min_be_val: "rev (le_min (be_val bs)) = dropWhile (\<lambda>b. b = 0) bs"
  by (simp add: be_val_def le_min_strip)

lemma be_val_Cons: "be_val (b # bs) = 256 ^ length bs * unat b + be_val bs"
  by (simp add: be_val_def le_val_append)

lemma be_val_rev [simp]: "be_val (rev bs) = le_val bs"
  by (simp add: be_val_def)

lemma hd_rev_le_min: "n \<noteq> 0 \<Longrightarrow> hd (rev (le_min n)) \<noteq> 0"
  using last_le_min [of n] by (simp add: hd_rev)

lemma mpi_val_sign:
  assumes "bs = [] \<or> hd bs \<noteq> 0"
  shows "mpi_val (mpi_sign neg bs) = (if neg then - int (be_val bs) else int (be_val bs))"
proof (cases bs)
  case Nil
  then show ?thesis by (simp add: be_val_def)
next
  case (Cons b cs)
  have [simp]: "(128 :: byte) AND 127 = 0" "(128 :: byte) AND 128 \<noteq> 0" "(0 :: byte) AND 128 = 0"
    by simp_all
  show ?thesis unfolding Cons
    by (auto simp: bit7_iff byte_set_sign byte_set_sign_bit be_val_Cons)
qed

lemma mpi_val_mpi_bytes [simp]: "mpi_val (mpi_bytes v) = v"
proof -
  have "rev (le_min (nat \<bar>v\<bar>)) = [] \<or> hd (rev (le_min (nat \<bar>v\<bar>))) \<noteq> 0"
    using hd_rev_le_min [of "nat \<bar>v\<bar>"] by (cases "nat \<bar>v\<bar> = 0") auto
  from mpi_val_sign [OF this, of "v < 0"] show ?thesis by (simp add: mpi_bytes_def)
qed

lemma mpi_loop_sign:
  "mpi_loop neg False bs = bs"
  "mpi_loop neg True bs = mpi_sign neg (dropWhile (\<lambda>b. b = 0) bs)"
  by (induction bs) auto

lemma mpi_val_mpi_loop:
  "mpi_val (mpi_loop neg True bs) = (if neg then - int (be_val bs) else int (be_val bs))"
proof -
  let ?d = "dropWhile (\<lambda>b. b = 0) bs"
  have "?d = [] \<or> hd ?d \<noteq> 0" using hd_dropWhile [of "\<lambda>b. b = 0" bs] by blast
  moreover have "be_val ?d = be_val bs" by (induction bs) (auto simp: be_val_Cons)
  ultimately show ?thesis by (simp add: mpi_loop_sign mpi_val_sign)
qed

lemma length_mpi_loop: "length (mpi_loop neg lz bs) \<le> Suc (length bs)"
proof (induction bs arbitrary: lz)
  case Nil
  then show ?case by simp
next
  case (Cons b bs)
  from Cons [of True] show ?case by (auto simp: mpi_loop_sign(1))
qed

lemma length_high_bytes [simp]: "length (high_bytes i n) = i"
  by (induction i arbitrary: n) auto

lemma word_ff_take_bit: "(w :: 'a::len word) AND 0xff = take_bit 8 w"
proof -
  have "(0xff :: 'a word) = mask 8" by (simp add: mask_eq_exp_minus_1)
  then show ?thesis by (simp only: take_bit_eq_mask)
qed

lemma be_val_high_bytes:
  "i \<le> 8 \<Longrightarrow> be_val (high_bytes i n) = unat n div 256 ^ (8 - i)"
proof (induction i arbitrary: n)
  case 0
  have "unat n < 2 ^ 64" using unsigned_less [of n] by simp
  then show ?case by (simp add: be_val_def)
next
  case (Suc j)
  let ?N = "unat n" and ?R = "unat n mod 256 ^ 7"
  have le: "?N < 256 ^ 8" using unsigned_less [of n] by simp
  have "?N div 2 ^ 56 < 256" using le by (simp add: less_mult_imp_div_less)
  then have "take_bit 8 (?N div 2 ^ 56) = ?N div 256 ^ 7" by (simp add: take_bit_eq_mod)
  then have b: "unat (ucast (drop_bit 56 n AND 0xff) :: byte) = ?N div 256 ^ 7"
    by (simp add: word_ff_take_bit unsigned_ucast_eq unsigned_take_bit_eq unat_drop_bit_eq
        drop_bit_eq_div [where 'a = nat])
  have k: "(256 :: nat) ^ 7 = 256 ^ (7 - j) * 256 ^ j" using Suc.prems by (simp flip: power_add)
  have "unat (push_bit 8 n) = ?R * 256"
    using mult_mod_left [of ?N "256 ^ 7" 256]
    by (simp add: push_bit_eq_mult unat_word_ariths)
  then have "be_val (high_bytes j (push_bit 8 n)) = ?R * 256 div 256 ^ (8 - j)"
    using Suc by simp
  also have "8 - j = Suc (7 - j)" using Suc.prems by simp
  also have "?R * 256 div 256 ^ Suc (7 - j) = ?R div 256 ^ (7 - j)" by simp
  finally have r: "be_val (high_bytes j (push_bit 8 n)) = ?R div 256 ^ (7 - j)" .
  have "?N = ?R + 256 ^ (7 - j) * (256 ^ j * (?N div 256 ^ 7))"
    by (metis k mod_mult_div_eq mult.assoc)
  then have "?N div 256 ^ (7 - j) = 256 ^ j * (?N div 256 ^ 7) + ?R div 256 ^ (7 - j)"
    by (metis div_mult_self2 add.commute power_not_zero zero_neq_numeral)
  then show ?case using r b by (simp add: be_val_Cons)
qed

section \<open>What the conversions compute\<close>

lemma mpi_read_loop:
  assumes "bn_ok E" "length bs < 1000"
  shows "BN_mpi2bn E (be4 (length (mpi_loop neg True bs)) @ mpi_loop neg True bs) =
    (if neg then - int (be_val bs) else int (be_val bs))"
proof -
  have "length (mpi_loop neg True bs) < 2 ^ 32"
    using length_mpi_loop [of neg True bs] assms(2) by simp
  with assms(1) show ?thesis by (simp only: bn_okD(1) mpi_val_mpi_loop)
qed

lemma setuint64_eq [simp]: "bn_ok E \<Longrightarrow> setuint64 E n = int (unat n)"
  by (simp add: setuint64_def Let_def mpi_read_loop be_val_high_bytes del: of_nat_unat)

lemma setint64_eq [simp]:
  assumes "bn_ok E" "- (2 ^ 63) \<le> sn" "sn < 2 ^ 63"
  shows "setint64 E sn = sn"
proof -
  have u: "int (unat (word_of_int x :: u64)) = x" if "0 \<le> x" "x < 2 ^ 64" for x
    using that by (simp add: unsigned_of_int take_bit_eq_mod)
  have "(word_of_int (- (sn + 1)) + 1 :: u64) = word_of_int (- sn)" by simp
  then have "setint64 E sn = (if sn < 0 then - int (unat (word_of_int (- sn) :: u64))
      else int (unat (word_of_int sn :: u64)))"
    by (simp only: setint64_def Let_def mpi_read_loop assms(1) length_high_bytes
        be_val_high_bytes) simp
  then show ?thesis using assms(2,3) u [of sn] u [of "- sn"] by auto
qed

lemma setuint256_eq [simp]: "bn_ok E \<Longrightarrow> setuint256 E n = int (unat n)"
  using unsigned_less [of n, where 'a = nat]
  by (simp add: setuint256_def Let_def mpi_read_loop bytes_of_uint256_def del: of_nat_unat)

lemma bn_of_int_eq [simp]:
  "bn_ok E \<Longrightarrow> - (2 ^ 63) \<le> n \<Longrightarrow> n < 2 ^ 63 \<Longrightarrow> bn_of_int E n = n"
  by (simp add: bn_of_int_def setulong_def bn_okD(3))

lemma bn_ops [simp]:
  assumes "bn_ok E"
  shows "bn_add E a b = a + b" "bn_sub E a b = a - b" "bn_mul E a b = a * b"
    "bn_neg E a = - a" "bn_eq E a b \<longleftrightarrow> a = b" "bn_le E a b \<longleftrightarrow> a \<le> b" "bn_lt E a b \<longleftrightarrow> a < b"
    "bn_shl E a k = a * 2 ^ k"
    "bn_mod E a b = (if b = 0 then None else Some (a mod \<bar>b\<bar>))"
  using assms
  by (auto simp: bn_add_def bn_sub_def bn_mul_def bn_neg_def bn_eq_def bn_le_def bn_lt_def
      bn_shl_def bn_mod_def bn_okD sgn_if)

lemma bn_div_eq: "bn_ok E \<Longrightarrow> 0 \<le> a \<Longrightarrow> 0 < b \<Longrightarrow> bn_div E a b = Some (a div b)"
  by (auto simp: bn_div_def bn_okD sgn_if)

lemma bn_shr_eq: "bn_ok E \<Longrightarrow> 0 \<le> a \<Longrightarrow> bn_shr E a k = a div 2 ^ k"
  by (auto simp: bn_shr_def bn_okD sgn_if Let_def zdiv_eq_0_iff)

lemma mpi_sign_length: "bs \<noteq> [] \<Longrightarrow> mpi_sign neg bs \<noteq> []"
  by (cases bs) auto

text \<open>\<open>setvch\<close> and \<open>getvch\<close> are inverse on numbers; \<open>getvch\<close> is \<open>mpi_bytes\<close> reversed.\<close>

lemma getvch_eq: "bn_ok E \<Longrightarrow> getvch E bn = rev (mpi_bytes bn)"
  by (auto simp: getvch_def bn_okD Let_def)

lemma setvch_eq: "bn_ok E \<Longrightarrow> length vch < 2 ^ 32 \<Longrightarrow> setvch E vch = mpi_val (rev vch)"
  using bn_okD(1) [of E "rev vch"] by (simp add: setvch_def)

lemma setvch_getvch [simp]:
  "bn_ok E \<Longrightarrow> length (mpi_bytes bn) < 2 ^ 32 \<Longrightarrow> setvch E (getvch E bn) = bn"
  by (simp add: getvch_eq setvch_eq)

lemma le_val_take: "le_val (take k bs) = le_val bs mod 256 ^ k"
proof (induction bs arbitrary: k)
  case (Cons b bs)
  show ?case
  proof (cases k)
    case (Suc j)
    have "(unat b + 256 * le_val bs) mod (256 * 256 ^ j) =
        unat b + 256 * (le_val bs mod 256 ^ j)"
      by (simp add: mod_mult2_eq)
    then show ?thesis using Suc Cons by simp
  qed simp
qed simp

lemma mpi_sign_clear:
  assumes "bs = [] \<or> hd bs \<noteq> 0"
  shows "be_val (case mpi_sign neg bs of [] \<Rightarrow> [] | c # cs \<Rightarrow> (c AND 0x7f) # cs) = be_val bs"
proof (cases bs)
  case (Cons b cs)
  have [simp]: "(128 :: byte) AND 127 = 0" by simp
  have "\<not> bit b 7 \<Longrightarrow> b AND 127 = b"
    by (metis bit7_unat byte_low mod_less not_le unat_byte_low word_unat_eq_iff numeral_eq_iff)
  then show ?thesis unfolding Cons
    by (auto simp: bit7_iff byte_set_sign be_val_Cons)
qed simp

lemma mpi_magnitude_val: "bn_ok E \<Longrightarrow> le_val (mpi_magnitude E bn) = nat \<bar>bn\<bar>"
proof -
  assume ok: "bn_ok E"
  let ?bs = "rev (le_min (nat \<bar>bn\<bar>))"
  have "?bs = [] \<or> hd ?bs \<noteq> 0"
    using hd_rev_le_min [of "nat \<bar>bn\<bar>"] by (cases "nat \<bar>bn\<bar> = 0") auto
  then have *: "be_val (case mpi_bytes bn of [] \<Rightarrow> [] | c # cs \<Rightarrow> (c AND 0x7f) # cs) = nat \<bar>bn\<bar>"
    unfolding mpi_bytes_def by (subst mpi_sign_clear) auto
  have "mpi_magnitude E bn = rev (case mpi_bytes bn of [] \<Rightarrow> [] | c # cs \<Rightarrow> (c AND 0x7f) # cs)"
    by (cases "mpi_bytes bn")
       (simp_all add: mpi_magnitude_def Let_def bn_okD [OF ok] list_update_append nth_append)
  then show ?thesis using * by (simp add: be_val_def)
qed

lemma getuint256_eq: "bn_ok E \<Longrightarrow> getuint256 E bn = of_nat (nat \<bar>bn\<bar>)"
proof -
  assume ok: "bn_ok E"
  have "getuint256 E bn = of_nat (le_val (mpi_magnitude E bn) mod 256 ^ 32)"
    using ok by (simp add: getuint256_def bn_okD(2) le_val_take)
  also have "\<dots> = of_nat (le_val (mpi_magnitude E bn))"
    by (rule word_unat_eq_iff [THEN iffD2]) (simp add: unat_of_nat)
  finally show ?thesis using ok by (simp add: mpi_magnitude_val)
qed

lemma getuint64_eq: "bn_ok E \<Longrightarrow> getuint64 E bn = of_nat (nat \<bar>bn\<bar>)"
proof -
  assume ok: "bn_ok E"
  have "getuint64 E bn = of_nat (le_val (mpi_magnitude E bn) mod 256 ^ 8)"
    using ok by (simp add: getuint64_def bn_okD(2) le_val_take)
  also have "\<dots> = of_nat (le_val (mpi_magnitude E bn))"
    by (rule word_unat_eq_iff [THEN iffD2]) (simp add: unat_of_nat)
  finally show ?thesis using ok by (simp add: mpi_magnitude_val)
qed

lemma getuint256_setuint256 [simp]: "bn_ok E \<Longrightarrow> getuint256 E (setuint256 E n) = n"
  by (simp add: getuint256_eq)

section \<open>The compact target format\<close>

definition compact_val :: "u32 \<Rightarrow> int" where
  "compact_val c =
     (let s = unat (drop_bit 24 c); m = unat (take_bit 23 c);
          v = (if s \<le> 3 then m div 256 ^ (3 - s) else m * 256 ^ (s - 3))
      in if bit c 23 \<and> s \<noteq> 0 then - int v else int v)"

lemma be_val_append: "be_val (xs @ ys) = be_val xs * 256 ^ length ys + be_val ys"
  by (simp add: be_val_def le_val_append)

lemma be_val_zeros [simp]: "be_val (replicate k 0) = 0"
  by (induction k) (simp_all add: be_val_Cons, simp add: be_val_def)

lemma be_val_take: "s \<le> length bs \<Longrightarrow> be_val (take s bs) = be_val bs div 256 ^ (length bs - s)"
proof -
  assume s: "s \<le> length bs"
  have "be_val bs = be_val (take s bs) * 256 ^ (length bs - s) + be_val (drop s bs)"
    using be_val_append [of "take s bs" "drop s bs"] by simp
  moreover have "be_val (drop s bs) < 256 ^ (length bs - s)"
    using le_val_bound [of "rev (drop s bs)"] by (simp add: be_val_def)
  ultimately show ?thesis by simp
qed

lemma be_val_take3:
  "be_val (take s ([a, b, c] @ replicate (s - 3) 0)) =
     (if s \<le> 3 then be_val [a, b, c] div 256 ^ (3 - s) else be_val [a, b, c] * 256 ^ (s - 3))"
proof (cases "s \<le> 3")
  case True
  then show ?thesis using be_val_take [of s "[a, b, c]"] by (simp add: numeral_3_eq_3)
next
  case False
  then have "take s ([a, b, c] @ replicate (s - 3) 0) = [a, b, c] @ replicate (s - 3) 0" by simp
  then show ?thesis using False by (simp only: be_val_append) simp
qed

lemma be4_small: "n < 256 \<Longrightarrow> be4 n = [0, 0, 0, of_nat n]"
proof -
  assume n: "n < 256"
  have "(4 :: nat) = Suc (Suc (Suc (Suc 0)))" by simp
  then have "le_bytes 4 n = le_bytes (Suc (Suc (Suc (Suc 0)))) n" by (rule arg_cong)
  then show ?thesis using n by (simp add: be4_def)
qed

lemma compact_bytes:
  fixes c :: u32
  shows "be_val [ucast (drop_bit 16 c AND 0xff) AND 0x7f, ucast (drop_bit 8 c AND 0xff),
    ucast (c AND 0xff)] = unat (take_bit 23 c)"
    "bit (ucast (drop_bit 16 c AND 0xff) :: byte) 7 \<longleftrightarrow> bit c 23"
proof -
  let ?n = "unat c"
  have "be_val [ucast (drop_bit 16 c AND 0xff) AND 0x7f, ucast (drop_bit 8 c AND 0xff),
    ucast (c AND 0xff)] = ?n div 65536 mod 128 * 65536 + ?n div 256 mod 256 * 256 + ?n mod 256"
    by (simp add: be_val_def unat_byte_low word_ff_take_bit unsigned_ucast_eq
        unsigned_take_bit_eq unat_drop_bit_eq drop_bit_eq_div [where 'a = nat]
        take_bit_eq_mod [where 'a = nat] mod_mod_cancel)
  also have "\<dots> = ?n mod 2 ^ 23"
  proof -
    have "?n mod (256 * (256 * 128)) = 256 * (?n div 256 mod (256 * 128)) + ?n mod 256"
      by (rule mod_mult2_eq)
    moreover have "?n div 256 mod (256 * 128) = 256 * (?n div 256 div 256 mod 128) + ?n div 256 mod 256"
      by (rule mod_mult2_eq)
    ultimately show ?thesis by (simp add: div_mult2_eq [symmetric])
  qed
  finally show "be_val [ucast (drop_bit 16 c AND 0xff) AND 0x7f, ucast (drop_bit 8 c AND 0xff),
    ucast (c AND 0xff)] = unat (take_bit 23 c)"
    by (simp add: unsigned_take_bit_eq take_bit_eq_mod [where 'a = nat])
  show "bit (ucast (drop_bit 16 c AND 0xff) :: byte) 7 \<longleftrightarrow> bit c 23"
    by (simp add: word_ff_take_bit bit_simps)
qed

lemma mpi_val_take3:
  "mpi_val (take s ([a, b, c] @ replicate (s - 3) 0)) =
     (let v = be_val (take s ([a AND 0x7f, b, c] @ replicate (s - 3) 0))
      in if bit a 7 \<and> s \<noteq> 0 then - int v else int v)"
proof (cases s)
  case (Suc k)
  have "\<not> bit a 7 \<Longrightarrow> a AND 127 = a"
    by (metis bit7_unat byte_low mod_less not_le unat_byte_low word_unat_eq_iff numeral_eq_iff)
  then show ?thesis using Suc by (auto simp: bit7_iff Let_def)
qed (simp add: be_val_def)

text \<open>\<open>SetCompact\<close> is sign, 23-bit mantissa and base-256 exponent.\<close>

lemma SetCompact_eq: "bn_ok E \<Longrightarrow> SetCompact E c = compact_val c"
proof -
  assume ok: "bn_ok E"
  let ?s = "unat (drop_bit 24 c)"
  let ?b = "take ?s ([ucast (drop_bit 16 c AND 0xff), ucast (drop_bit 8 c AND 0xff),
      ucast (c AND 0xff)] @ replicate (?s - 3) 0) :: byte list"
  have s: "?s < 256"
    using unsigned_less [of c, where 'a = nat]
    by (simp add: unat_drop_bit_eq drop_bit_eq_div [where 'a = nat] less_mult_imp_div_less)
  then have "[0, 0, 0, of_nat ?s] = be4 ?s" by (simp add: be4_small)
  moreover have "length ?b = ?s" by auto
  ultimately have "SetCompact E c = BN_mpi2bn E (be4 (length ?b) @ ?b)"
    unfolding SetCompact_def Let_def by metis
  also have "\<dots> = mpi_val ?b" using s by (intro bn_okD(1) [OF ok]) simp
  finally show ?thesis
    unfolding mpi_val_take3 be_val_take3 compact_bytes compact_val_def Let_def .
qed

lemma compact_word:
  fixes k a b c :: byte
  defines "w \<equiv> push_bit 24 (ucast k) OR push_bit 16 (ucast a) OR push_bit 8 (ucast b) OR (ucast c :: u32)"
  shows "drop_bit 24 w = ucast k" "ucast (drop_bit 16 w AND 0xff) = a"
    "ucast (drop_bit 8 w AND 0xff) = b" "ucast (w AND 0xff) = c"
  unfolding w_def word_ff_take_bit
  by (rule bit_word_eqI; auto simp: bit_simps dest: bit_imp_le_length)+

lemma GetCompact_bytes:
  assumes "bn_ok E" "length (mpi_bytes bn) \<le> 255"
  defines "m \<equiv> mpi_bytes bn" and "p \<equiv> mpi_bytes bn @ [0, 0, 0]"
  shows "GetCompact E bn = push_bit 24 (ucast (of_nat (length m) :: byte)) OR
    push_bit 16 (ucast (if 1 \<le> length m then p ! 0 else 0)) OR
    push_bit 8 (ucast (if 2 \<le> length m then p ! 1 else 0)) OR
    ucast (if 3 \<le> length m then p ! 2 else 0)"
proof -
  have k: "(of_nat (length m) :: u32) = ucast (of_nat (length m) :: byte)"
    using assms(2) by (simp add: m_def word_unat_eq_iff unat_of_nat unsigned_ucast_eq take_bit_eq_mod)
  show ?thesis
    unfolding GetCompact_def bn_okD [OF assms(1)] Let_def m_def p_def
    using k by (auto simp: m_def nth_append or.assoc)
qed

lemma pad3_nth:
  "(if 1 \<le> length m then (m @ [0, 0, 0]) ! 0 else 0) = (m @ [0, 0, 0 :: byte]) ! 0"
  "(if 2 \<le> length m then (m @ [0, 0, 0]) ! 1 else 0) = (m @ [0, 0, 0 :: byte]) ! 1"
  "(if 3 \<le> length m then (m @ [0, 0, 0]) ! 2 else 0) = (m @ [0, 0, 0 :: byte]) ! 2"
  by (auto simp: nth_append nth_Cons Suc_le_eq split: nat.splits)

lemma pad3_take:
  "take (length m) (take 3 (m @ [0, 0, 0 :: byte]) @ replicate (length m - 3) 0) =
     take 3 m @ replicate (length m - 3) 0"
  by (cases "length m \<le> 3") (auto simp: take_Cons' min_def)

lemma take3_nth: "3 \<le> length p \<Longrightarrow> take 3 p = [p ! 0, p ! 1, p ! 2]"
  by (auto simp: numeral_3_eq_3 length_ge_Suc numeral_2_eq_2)

lemma SetCompact_GetCompact_bytes:
  assumes "bn_ok E" "length (mpi_bytes bn) \<le> 255"
  shows "SetCompact E (GetCompact E bn) =
    mpi_val (take 3 (mpi_bytes bn) @ replicate (length (mpi_bytes bn) - 3) 0)"
proof -
  let ?m = "mpi_bytes bn" let ?p = "?m @ [0, 0, 0]"
  let ?c = "push_bit 24 (ucast (of_nat (length ?m) :: byte)) OR push_bit 16 (ucast (?p ! 0)) OR
    push_bit 8 (ucast (?p ! 1)) OR ucast (?p ! 2) :: u32"
  have c: "GetCompact E bn = ?c"
    using GetCompact_bytes [OF assms] by (simp only: pad3_nth)
  have k: "unat (drop_bit 24 ?c) = length ?m"
    using assms(2) by (simp only: compact_word) (simp add: unsigned_ucast_eq unat_of_nat take_bit_eq_mod)
  let ?b = "take 3 ?m @ replicate (length ?m - 3) 0"
  have p3: "3 \<le> length ?p" by simp
  have "take (length ?m) ([?p ! 0, ?p ! 1, ?p ! 2] @ replicate (length ?m - 3) 0) = ?b"
    using pad3_take [of ?m] unfolding take3_nth [OF p3] .
  then have "SetCompact E ?c = BN_mpi2bn E ([0, 0, 0, of_nat (length ?m)] @ ?b)"
    unfolding SetCompact_def Let_def k by (simp only: compact_word)
  also have "[0, 0, 0, of_nat (length ?m)] = be4 (length ?b)"
    using assms(2) by (simp add: be4_small min_def)
  also have "BN_mpi2bn E (be4 (length ?b) @ ?b) = mpi_val ?b"
    using assms(2) by (intro bn_okD(1) [OF assms(1)]) simp
  finally show ?thesis unfolding c .
qed

lemma mpi_bytes_nonneg:
  assumes "0 \<le> bn"
  shows "mpi_bytes bn = [] \<or> \<not> bit (hd (mpi_bytes bn)) 7" "be_val (mpi_bytes bn) = nat bn"
proof -
  let ?bs = "rev (le_min (nat \<bar>bn\<bar>))"
  have m: "mpi_bytes bn = mpi_sign False ?bs" using assms by (simp add: mpi_bytes_def)
  show "mpi_bytes bn = [] \<or> \<not> bit (hd (mpi_bytes bn)) 7"
    unfolding m by (cases ?bs) (auto simp: bit7_iff)
  have "be_val (mpi_sign False ?bs) = be_val ?bs" by (cases ?bs) (auto simp: be_val_Cons)
  then show "be_val (mpi_bytes bn) = nat bn" unfolding m using assms by simp
qed

text \<open>
  Packing a non-negative number into the compact form and unpacking it again keeps its three
  leading MPI bytes and clears the others.
\<close>

lemma SetCompact_GetCompact:
  assumes "bn_ok E" "0 \<le> bn" "length (mpi_bytes bn) \<le> 255"
  shows "SetCompact E (GetCompact E bn) = bn - bn mod 256 ^ (length (mpi_bytes bn) - 3)"
proof -
  let ?m = "mpi_bytes bn" let ?k = "length ?m - 3"
  have "mpi_val (take 3 ?m @ replicate ?k 0) = int (be_val (take 3 ?m @ replicate ?k 0))"
    using mpi_bytes_nonneg(1) [OF assms(2)] by (cases ?m) (auto simp: be_val_def bit7_iff)
  then have "SetCompact E (GetCompact E bn) = int (be_val (take 3 ?m) * 256 ^ ?k)"
    using SetCompact_GetCompact_bytes [OF assms(1,3)] by (simp add: be_val_append)
  also have "be_val (take 3 ?m) = be_val ?m div 256 ^ ?k"
    by (cases "3 \<le> length ?m") (simp_all add: be_val_take)
  also have "int (be_val ?m div 256 ^ ?k * 256 ^ ?k) = bn div 256 ^ ?k * 256 ^ ?k"
    using assms(2) by (simp add: mpi_bytes_nonneg(2) zdiv_int)
  also have "\<dots> = bn - bn mod 256 ^ ?k" by (simp add: minus_mod_eq_div_mult)
  finally show ?thesis .
qed

end
