(* ===== verification/Keys.thy ===== *)
theory Keys
  imports BigNum
begin

text \<open>
  Hashing (src/hash.h), public and private keys (src/key.h, src/key.cpp) and the encodings of
  signatures and public keys that the script interpreter checks (src/script.cpp). The
  elliptic-curve operations are OpenSSL's and come from \<open>E\<close>; the byte-level checks around them
  are modelled. A \<open>CPubKey\<close> is the list of its \<open>vch[0..size)\<close> bytes, and \<open>[0xFF]\<close> when invalid.
\<close>

section \<open>Hashing\<close>

definition Hash :: "external \<Rightarrow> byte list \<Rightarrow> uint256" where
  "Hash E bs = of_nat (le_val (SSL_SHA256 E (SSL_SHA256 E bs)))"

definition Hash160 :: "external \<Rightarrow> byte list \<Rightarrow> uint160" where
  "Hash160 E bs = of_nat (le_val (SSL_RIPEMD160 E (SSL_SHA256 E bs)))"

lemma bytes_of_Hash [simp]:
  "hash_ok E \<Longrightarrow> bytes_of_uint256 (Hash E bs) = SSL_SHA256 E (SSL_SHA256 E bs)"
  using le_val_bound [of "SSL_SHA256 E (SSL_SHA256 E bs)"]
    le_bytes_le_val [of "SSL_SHA256 E (SSL_SHA256 E bs)"]
  by (simp add: Hash_def bytes_of_uint256_def hash_okD unat_of_nat)

lemma bytes_of_Hash160 [simp]:
  "hash_ok E \<Longrightarrow> bytes_of_uint160 (Hash160 E bs) = SSL_RIPEMD160 E (SSL_SHA256 E bs)"
  using le_val_bound [of "SSL_RIPEMD160 E (SSL_SHA256 E bs)"]
    le_bytes_le_val [of "SSL_RIPEMD160 E (SSL_SHA256 E bs)"]
  by (simp add: Hash160_def bytes_of_uint160_def hash_okD unat_of_nat)

section \<open>Public keys\<close>

type_synonym pubkey = "byte list"

definition GetLen :: "byte \<Rightarrow> nat" where
  "GetLen chHeader =
     (if chHeader = 2 \<or> chHeader = 3 then 33
      else if chHeader = 4 \<or> chHeader = 6 \<or> chHeader = 7 then 65 else 0)"

definition invalid_pubkey :: pubkey where "invalid_pubkey = [0xFF]"

definition CPubKey :: "byte list \<Rightarrow> pubkey" where
  "CPubKey bs =
     (let len = (case bs of [] \<Rightarrow> 0 | b # _ \<Rightarrow> GetLen b) in
      if len \<noteq> 0 \<and> len = length bs then bs else invalid_pubkey)"

definition pk_size :: "pubkey \<Rightarrow> nat" where "pk_size pk = GetLen (hd pk)"
definition pk_bytes :: "pubkey \<Rightarrow> byte list" where "pk_bytes pk = take (pk_size pk) pk"
definition pk_IsValid :: "pubkey \<Rightarrow> bool" where "pk_IsValid pk \<longleftrightarrow> pk_size pk > 0"
definition pk_IsCompressed :: "pubkey \<Rightarrow> bool" where "pk_IsCompressed pk \<longleftrightarrow> pk_size pk = 33"

definition pk_GetID :: "external \<Rightarrow> pubkey \<Rightarrow> uint160" where
  "pk_GetID E pk = Hash160 E (pk_bytes pk)"

definition pk_Verify :: "external \<Rightarrow> pubkey \<Rightarrow> uint256 \<Rightarrow> byte list \<Rightarrow> bool" where
  "pk_Verify E pk hash vchSig =
     (if \<not> pk_IsValid pk then False
      else if \<not> EC_set_pubkey E (pk_bytes pk) then False
      else ECDSA_verify E (pk_bytes pk) (bytes_of_uint256 hash) vchSig = 1)"

definition pk_IsFullyValid :: "external \<Rightarrow> pubkey \<Rightarrow> bool" where
  "pk_IsFullyValid E pk =
     (if \<not> pk_IsValid pk then False else EC_set_pubkey E (pk_bytes pk))"

definition pk_Decompress :: "external \<Rightarrow> pubkey \<Rightarrow> bool \<times> pubkey" where
  "pk_Decompress E pk =
     (if \<not> pk_IsValid pk then (False, pk)
      else if \<not> EC_set_pubkey E (pk_bytes pk) then (False, pk)
      else (True, CPubKey (EC_get_pubkey E (pk_bytes pk) False)))"

text \<open>The data type invariant of \<open>CPubKey\<close>: every constructor and \<open>Set\<close> establish it.\<close>

definition pubkey_ok :: "pubkey \<Rightarrow> bool" where
  "pubkey_ok pk \<longleftrightarrow> pk = invalid_pubkey \<or> (pk \<noteq> [] \<and> length pk = GetLen (hd pk))"

section \<open>Private keys\<close>

fun CompareBigEndian :: "byte list \<Rightarrow> byte list \<Rightarrow> int" where
  "CompareBigEndian c1 c2 =
     (if length c1 > length c2 then
        if hd c1 \<noteq> 0 then 1 else CompareBigEndian (tl c1) c2
      else if length c2 > length c1 then
        if hd c2 \<noteq> 0 then -1 else CompareBigEndian c1 (tl c2)
      else if length c1 > 0 then
        if hd c1 > hd c2 then 1 else if hd c2 > hd c1 then -1
        else CompareBigEndian (tl c1) (tl c2)
      else 0)"

declare CompareBigEndian.simps [simp del]

definition vchMaxModOrder :: "byte list" where
  "vchMaxModOrder =
     [0xFF,0xFF,0xFF,0xFF,0xFF,0xFF,0xFF,0xFF, 0xFF,0xFF,0xFF,0xFF,0xFF,0xFF,0xFF,0xFE,
      0xBA,0xAE,0xDC,0xE6,0xAF,0x48,0xA0,0x3B, 0xBF,0xD2,0x5E,0x8C,0xD0,0x36,0x41,0x40]"

definition vchMaxModHalfOrder :: "byte list" where
  "vchMaxModHalfOrder =
     [0x7F,0xFF,0xFF,0xFF,0xFF,0xFF,0xFF,0xFF, 0xFF,0xFF,0xFF,0xFF,0xFF,0xFF,0xFF,0xFF,
      0x5D,0x57,0x6E,0x73,0x57,0xA4,0x50,0x1D, 0xDF,0xE9,0x2F,0x46,0x68,0x1B,0x20,0xA0]"

fun check_loop :: "byte list \<Rightarrow> byte list \<Rightarrow> bool" where
  "check_loop (v # vch) (m # vchMax) =
     (if v < m then True else if v > m then False else check_loop vch vchMax)"
| "check_loop _ _ = True"

definition CKey_Check :: "byte list \<Rightarrow> bool" where
  "CKey_Check vch =
     (if list_all (\<lambda>b. b = 0) (take 32 vch) then False else check_loop (take 32 vch) vchMaxModOrder)"

definition CheckSignatureElement :: "byte list \<Rightarrow> bool \<Rightarrow> bool" where
  "CheckSignatureElement vch half \<longleftrightarrow>
     CompareBigEndian vch [] > 0 \<and>
     CompareBigEndian vch (if half then vchMaxModHalfOrder else vchMaxModOrder) \<le> 0"

record key =
  fValid :: bool
  fCompressed :: bool
  key_vch :: "byte list"

definition CKey_Set :: "key \<Rightarrow> byte list \<Rightarrow> bool \<Rightarrow> key" where
  "CKey_Set k bs fCompressedIn =
     (if length bs \<noteq> 32 then k\<lparr>fValid := False\<rparr>
      else if CKey_Check bs then k\<lparr>key_vch := bs, fValid := True, fCompressed := fCompressedIn\<rparr>
      else k\<lparr>fValid := False\<rparr>)"

text \<open>\<open>GetPubKey\<close> asserts that the key is valid: \<open>None\<close>.\<close>

definition GetPubKey :: "external \<Rightarrow> key \<Rightarrow> pubkey option" where
  "GetPubKey E k =
     (if \<not> fValid k then None
      else Some (CPubKey (EC_secret_pubkey E (key_vch k) (fCompressed k))))"

definition CKey_Sign :: "external \<Rightarrow> key \<Rightarrow> uint256 \<Rightarrow> byte list option" where
  "CKey_Sign E k hash =
     (if \<not> fValid k then None
      else case ECDSA_do_sign E (key_vch k) (bytes_of_uint256 hash) of
        None \<Rightarrow> None
      | Some (r, s) \<Rightarrow>
          let halforder = BN_rshift E (EC_order E) 1;
              s' = (if BN_cmp E s halforder > 0 then BN_sub E (EC_order E) s else s)
          in Some (i2d_ECDSA_SIG E r s'))"

definition vchOrder :: "byte list" where
  "vchOrder =
     [0xff,0xff,0xff,0xff,0xff,0xff,0xff,0xff, 0xff,0xff,0xff,0xff,0xff,0xff,0xff,0xfe,
      0xba,0xae,0xdc,0xe6,0xaf,0x48,0xa0,0x3b, 0xbf,0xd2,0x5e,0x8c,0xd0,0x36,0x41,0x41]"

definition vchHalfOrder :: "byte list" where
  "vchHalfOrder =
     [0x7f,0xff,0xff,0xff,0xff,0xff,0xff,0xff, 0xff,0xff,0xff,0xff,0xff,0xff,0xff,0xff,
      0x5d,0x57,0x6e,0x73,0x57,0xa4,0x50,0x1d, 0xdf,0xe9,0x2f,0x46,0x68,0x1b,0x20,0xa0]"

text \<open>\<open>BN_bin2bn\<close> of the two arrays is the number they denote, most significant byte first. The result
  replaces the signature; \<open>None\<close> when the function returns \<open>false\<close>.\<close>

definition EnsureLowS :: "external \<Rightarrow> byte list \<Rightarrow> byte list option" where
  "EnsureLowS E vchSig =
     (if vchSig = [] then None
      else case d2i_ECDSA_SIG E vchSig of
        None \<Rightarrow> None
      | Some (r, s) \<Rightarrow>
          let s' = (if BN_cmp E s (int (be_val vchHalfOrder)) > 0 then BN_sub E (int (be_val vchOrder)) s else s)
          in Some (i2d_ECDSA_SIG E r s'))"

section \<open>Encodings checked by the interpreter\<close>

definition IsCompressedOrUncompressedPubKey :: "valtype \<Rightarrow> bool" where
  "IsCompressedOrUncompressedPubKey vchPubKey =
     (if length vchPubKey < 33 then False
      else if vchPubKey ! 0 = 0x04 then (if length vchPubKey \<noteq> 65 then False else True)
      else if vchPubKey ! 0 = 0x02 \<or> vchPubKey ! 0 = 0x03 then
        (if length vchPubKey \<noteq> 33 then False else True)
      else False)"

definition IsDERSignature :: "valtype \<Rightarrow> bool \<Rightarrow> bool" where
  "IsDERSignature vchSig haveHashType =
     (let size = length vchSig; nLenR = unat (vchSig ! 3); nLenS = unat (vchSig ! (5 + nLenR)) in
      if size < 9 then False
      else if size > 73 then False
      else if vchSig ! 0 \<noteq> 0x30 then False
      else if unat (vchSig ! 1) \<noteq> size - (if haveHashType then 3 else 2) then False
      else if 5 + nLenR \<ge> size then False
      else if nLenR + nLenS + (if haveHashType then 7 else 6) \<noteq> size then False
      else if vchSig ! 2 \<noteq> 0x02 then False
      else if nLenR = 0 then False
      else if vchSig ! 4 AND 0x80 \<noteq> 0 then False
      else if nLenR > 1 \<and> vchSig ! 4 = 0 \<and> \<not> (vchSig ! 5 AND 0x80 \<noteq> 0) then False
      else if vchSig ! (4 + nLenR) \<noteq> 0x02 then False
      else if nLenS = 0 then False
      else if vchSig ! (6 + nLenR) AND 0x80 \<noteq> 0 then False
      else if nLenS > 1 \<and> vchSig ! (6 + nLenR) = 0 \<and> \<not> (vchSig ! (7 + nLenR) AND 0x80 \<noteq> 0) then False
      else True)"

definition IsLowDERSignature :: "valtype \<Rightarrow> bool \<Rightarrow> bool" where
  "IsLowDERSignature vchSig haveHashType =
     (if \<not> IsDERSignature vchSig haveHashType then False
      else let nLenR = unat (vchSig ! 3); nLenS = unat (vchSig ! (5 + nLenR));
               S = take nLenS (drop (6 + nLenR) vchSig)
           in CheckSignatureElement S True)"

definition IsDefinedHashtypeSignature :: "valtype \<Rightarrow> bool" where
  "IsDefinedHashtypeSignature vchSig =
     (if length vchSig = 0 then False
      else let nHashType = vchSig ! (length vchSig - 1) AND NOT 0x80 in
           if nHashType < 1 \<or> nHashType > 3 then False else True)"

text \<open>Script verification flags, as the bits of an unsigned integer.\<close>

abbreviation (input) SCRIPT_VERIFY_NONE :: u32 where "SCRIPT_VERIFY_NONE \<equiv> 0"
abbreviation (input) SCRIPT_VERIFY_NOCACHE :: u32 where "SCRIPT_VERIFY_NOCACHE \<equiv> 1"
abbreviation (input) SCRIPT_VERIFY_NULLDUMMY :: u32 where "SCRIPT_VERIFY_NULLDUMMY \<equiv> 2"
abbreviation (input) SCRIPT_VERIFY_DISCOURAGE_UPGRADABLE_NOPS :: u32
  where "SCRIPT_VERIFY_DISCOURAGE_UPGRADABLE_NOPS \<equiv> 4"
abbreviation (input) SCRIPT_VERIFY_STRICTENC :: u32 where "SCRIPT_VERIFY_STRICTENC \<equiv> 8"
abbreviation (input) SCRIPT_VERIFY_ALLOW_EMPTY_SIG :: u32 where "SCRIPT_VERIFY_ALLOW_EMPTY_SIG \<equiv> 16"
abbreviation (input) SCRIPT_VERIFY_FIX_HASHTYPE :: u32 where "SCRIPT_VERIFY_FIX_HASHTYPE \<equiv> 32"

abbreviation (input) SCRIPT_VERIFY_CHECKLOCKTIMEVERIFY :: u32
  where "SCRIPT_VERIFY_CHECKLOCKTIMEVERIFY \<equiv> 64"

definition MANDATORY_SCRIPT_VERIFY_FLAGS :: u32 where
  "MANDATORY_SCRIPT_VERIFY_FLAGS = SCRIPT_VERIFY_NULLDUMMY OR SCRIPT_VERIFY_STRICTENC OR
     SCRIPT_VERIFY_ALLOW_EMPTY_SIG OR SCRIPT_VERIFY_FIX_HASHTYPE OR SCRIPT_VERIFY_CHECKLOCKTIMEVERIFY"

definition STANDARD_SCRIPT_VERIFY_FLAGS :: u32 where
  "STANDARD_SCRIPT_VERIFY_FLAGS =
     MANDATORY_SCRIPT_VERIFY_FLAGS OR SCRIPT_VERIFY_DISCOURAGE_UPGRADABLE_NOPS"

definition has_flag :: "u32 \<Rightarrow> u32 \<Rightarrow> bool" where "has_flag flags f \<longleftrightarrow> flags AND f \<noteq> 0"

definition CheckSignatureEncoding :: "valtype \<Rightarrow> u32 \<Rightarrow> bool" where
  "CheckSignatureEncoding vchSig flags =
     (if has_flag flags SCRIPT_VERIFY_ALLOW_EMPTY_SIG \<and> length vchSig = 0 then True
      else if \<not> IsLowDERSignature vchSig True then False
      else if \<not> has_flag flags SCRIPT_VERIFY_FIX_HASHTYPE \<and> \<not> IsDefinedHashtypeSignature vchSig
      then False else True)"

definition CheckPubKeyEncoding :: "valtype \<Rightarrow> bool" where
  "CheckPubKeyEncoding vchSig = (if \<not> IsCompressedOrUncompressedPubKey vchSig then False else True)"

section \<open>What the checks decide\<close>

lemma CPubKey_ok: "pubkey_ok (CPubKey bs)"
  by (auto simp: pubkey_ok_def CPubKey_def Let_def split: list.splits if_splits)

lemma pk_bytes_CPubKey: "pk_IsValid (CPubKey bs) \<Longrightarrow> pk_bytes (CPubKey bs) = bs"
  by (auto simp: pk_IsValid_def pk_size_def pk_bytes_def CPubKey_def invalid_pubkey_def GetLen_def
      Let_def split: list.splits if_splits)

lemma be_val_bound: "be_val bs < 256 ^ length bs"
  using le_val_bound [of "rev bs"] by (simp add: be_val_def)

lemma be_val_Cons_less:
  assumes "length xs = length ys" "x < (y :: byte)"
  shows "be_val (x # xs) < be_val (y # ys)"
proof -
  have "unat x + 1 \<le> unat y" using assms(2) by (simp add: word_less_nat_alt)
  then have "256 ^ length xs * (unat x + 1) \<le> 256 ^ length xs * unat y" by (rule mult_le_mono2)
  then show ?thesis using be_val_bound [of xs] assms(1) by (simp add: be_val_Cons)
qed

lemma be_val_pos_hd: "bs \<noteq> [] \<Longrightarrow> hd bs \<noteq> 0 \<Longrightarrow> 256 ^ (length bs - 1) \<le> be_val bs"
proof (cases bs)
  case (Cons b cs)
  moreover assume "bs \<noteq> []" "hd bs \<noteq> 0"
  ultimately have "1 \<le> unat b" using unat_gt_0 [of b] by (simp add: Suc_le_eq)
  then have "256 ^ length cs * 1 \<le> 256 ^ length cs * unat b" by (rule mult_le_mono2)
  then have "256 ^ length cs * 1 \<le> 256 ^ length cs * unat b + be_val cs" by linarith
  then show ?thesis using Cons by (simp only: be_val_Cons length_Cons diff_Suc_1 mult_1_right)
qed simp

lemma be_val_tl: "bs \<noteq> [] \<Longrightarrow> hd bs = 0 \<Longrightarrow> be_val (tl bs) = be_val bs"
  by (cases bs) (auto simp: be_val_Cons)

lemma be_val_less_length:
  "length ys < length xs \<Longrightarrow> hd xs \<noteq> 0 \<Longrightarrow> be_val ys < be_val xs"
proof -
  assume a: "length ys < length xs" "hd xs \<noteq> 0"
  have "be_val ys < 256 ^ length ys" by (rule be_val_bound)
  also have "\<dots> \<le> 256 ^ (length xs - 1)" using a(1) by (intro power_increasing) auto
  also have "\<dots> \<le> be_val xs" using a by (intro be_val_pos_hd) auto
  finally show ?thesis .
qed

text \<open>\<open>CompareBigEndian\<close> compares the numbers, whatever their leading zeros.\<close>

lemma CompareBigEndian_eq:
  "CompareBigEndian c1 c2 = sgn (int (be_val c1) - int (be_val c2))"
proof (induction c1 c2 rule: CompareBigEndian.induct)
  case (1 c1 c2)
  consider "length c1 > length c2" "hd c1 \<noteq> 0" | "length c1 > length c2" "hd c1 = 0"
    | "length c2 > length c1" "hd c2 \<noteq> 0" | "length c2 > length c1" "hd c2 = 0"
    | "c1 = []" "c2 = []"
    | x xs y ys where "c1 = x # xs" "c2 = y # ys" "length xs = length ys"
    by (cases c1; cases c2) (auto, meson linorder_less_linear)
  then show ?case
  proof cases
    case 1
    then show ?thesis using be_val_less_length [of c2 c1] by (subst CompareBigEndian.simps) simp
  next
    case 2
    then have "c1 \<noteq> []" by auto
    with 2 show ?thesis using 1 be_val_tl [of c1] by (subst CompareBigEndian.simps) simp
  next
    case 3
    then show ?thesis using be_val_less_length [of c1 c2] by (subst CompareBigEndian.simps) simp
  next
    case 4
    then have "c2 \<noteq> []" by auto
    with 4 show ?thesis using 1 be_val_tl [of c2] by (subst CompareBigEndian.simps) simp
  next
    case 5
    then show ?thesis by (simp add: CompareBigEndian.simps)
  next
    case (6 x xs y ys)
    have IH: "x = y \<Longrightarrow> CompareBigEndian xs ys = sgn (int (be_val xs) - int (be_val ys))"
      using "1.IH"(3) 6 by simp
    have step: "CompareBigEndian c1 c2 =
        (if x > y then 1 else if y > x then -1 else CompareBigEndian xs ys)"
      using 6 by (subst CompareBigEndian.simps) simp
    consider "x < y" | "y < x" | "x = y" by (rule linorder_cases)
    then show ?thesis
    proof cases
      case 1
      then show ?thesis using 6 step be_val_Cons_less [of xs ys x y] by simp
    next
      case 2
      then show ?thesis using 6 step be_val_Cons_less [of ys xs y x] by simp
    next
      case 3
      then show ?thesis using 6 step IH by (simp add: be_val_Cons)
    qed
  qed
qed

definition secp256k1_n :: nat where
  "secp256k1_n = 0xfffffffffffffffffffffffffffffffebaaedce6af48a03bbfd25e8cd0364141"

lemma be_val_orders:
  "be_val vchMaxModOrder = secp256k1_n - 1" "be_val vchMaxModHalfOrder = secp256k1_n div 2"
  by (simp_all add: vchMaxModOrder_def vchMaxModHalfOrder_def secp256k1_n_def be_val_def)

lemma CheckSignatureElement_iff:
  "CheckSignatureElement vch half \<longleftrightarrow>
     0 < be_val vch \<and> be_val vch \<le> (if half then secp256k1_n div 2 else secp256k1_n - 1)"
  by (auto simp: CheckSignatureElement_def CompareBigEndian_eq be_val_orders sgn_if be_val_def
      [of "[]"] split: if_splits)

lemma check_loop_iff:
  "length xs = length ys \<Longrightarrow> check_loop xs ys \<longleftrightarrow> be_val xs \<le> be_val ys"
proof (induction xs ys rule: list_induct2)
  case (Cons x xs y ys)
  then show ?case using be_val_Cons_less [of xs ys x y] be_val_Cons_less [of ys xs y x]
    by (auto simp: be_val_Cons not_less_iff_gr_or_eq)
qed (simp add: be_val_def)

lemma be_val_0_iff: "be_val bs = 0 \<longleftrightarrow> list_all (\<lambda>b. b = 0) bs"
  by (induction bs) (auto simp: be_val_Cons unat_eq_0, simp add: be_val_def)

text \<open>\<open>CKey::Check\<close> accepts exactly the secret keys between 1 and the group order minus 1.\<close>

lemma CKey_Check_iff:
  "length vch = 32 \<Longrightarrow> CKey_Check vch \<longleftrightarrow> 0 < be_val vch \<and> be_val vch < secp256k1_n"
proof -
  assume l: "length vch = 32"
  then have "check_loop vch vchMaxModOrder \<longleftrightarrow> be_val vch \<le> secp256k1_n - 1"
    by (subst check_loop_iff) (simp_all only: be_val_orders, simp add: vchMaxModOrder_def)
  then show ?thesis using l be_val_0_iff [of vch]
    by (auto simp: CKey_Check_def secp256k1_n_def)
qed

section \<open>DER signatures\<close>

text \<open>
  The specification in the comment of \<open>IsDERSignature\<close>: R and S are not negative and not
  excessively padded, and the signature is the byte string below.
\<close>

definition der_int :: "byte list \<Rightarrow> bool" where
  "der_int R \<longleftrightarrow> R \<noteq> [] \<and> \<not> bit (hd R) 7 \<and> (1 < length R \<longrightarrow> hd R = 0 \<longrightarrow> bit (R ! 1) 7)"

definition der_sig :: "byte list \<Rightarrow> byte list \<Rightarrow> byte list" where
  "der_sig R S = [0x30, of_nat (length R + length S + 4), 2, of_nat (length R)] @ R @
     [2, of_nat (length S)] @ S"

lemma unat_of_nat_byte [simp]: "n < 256 \<Longrightarrow> unat (of_nat n :: byte) = n"
  by (simp add: unat_of_nat)

lemma der_shape:
  assumes "length v = 7 + nR + nS"
  obtains a0 a1 a2 a3 R x y S h
  where "v = [a0, a1, a2, a3] @ R @ [x, y] @ S @ [h]" "length R = nR" "length S = nS"
proof -
  obtain a0 a1 a2 a3 w where w: "v = a0 # a1 # a2 # a3 # w" "length w = 3 + nR + nS"
    using assms by (auto simp: numeral_eq_Suc length_Suc_conv)
  obtain R w2 where r: "w = R @ w2" "length R = nR" "length w2 = 3 + nS"
    using w(2) that [of "take nR w" "drop nR w"] by simp
  obtain x y w3 where xy: "w2 = x # y # w3" "length w3 = nS + 1"
    using r(3) by (auto simp: numeral_eq_Suc length_Suc_conv)
  obtain S h where "w3 = S @ [h]" "length S = nS"
    using xy(2) by (cases w3 rule: rev_cases) auto
  with w r xy show thesis using that by simp
qed

lemma der_nth:
  fixes R S :: "byte list" and a0 a1 a2 a3 x y h :: byte
  defines "v \<equiv> [a0, a1, a2, a3] @ R @ [x, y] @ S @ [h]"
  shows "v ! 0 = a0" "v ! 1 = a1" "v ! 2 = a2" "v ! 3 = a3" "length v = 7 + length R + length S"
    "R \<noteq> [] \<Longrightarrow> v ! 4 = hd R" "1 < length R \<Longrightarrow> v ! 5 = R ! 1"
    "v ! (4 + length R) = x" "v ! (5 + length R) = y"
    "S \<noteq> [] \<Longrightarrow> v ! (6 + length R) = hd S" "1 < length S \<Longrightarrow> v ! (7 + length R) = S ! 1"
  unfolding v_def
  by (auto simp: nth_append hd_conv_nth numeral_eq_Suc nth_Cons split: nat.splits)

lemma IsDER_iff:
  "IsDERSignature v True \<longleftrightarrow>
     (\<exists>R S h. v = der_sig R S @ [h] \<and> der_int R \<and> der_int S \<and> length R + length S \<le> 66)"
proof
  assume der: "IsDERSignature v True"
  define nR where "nR = unat (v ! 3)"
  define nS where "nS = unat (v ! (5 + nR))"
  have a: "length v \<le> 73" "v ! 0 = 0x30" "unat (v ! 1) = length v - 3" "length v = 7 + nR + nS"
      "v ! 2 = 2" "nR \<noteq> 0" "\<not> bit (v ! 4) 7" "1 < nR \<Longrightarrow> v ! 4 = 0 \<Longrightarrow> bit (v ! 5) 7"
      "v ! (4 + nR) = 2" "nS \<noteq> 0" "\<not> bit (v ! (6 + nR)) 7"
      "1 < nS \<Longrightarrow> v ! (6 + nR) = 0 \<Longrightarrow> bit (v ! (7 + nR)) 7"
    using der unfolding IsDERSignature_def Let_def bit7_iff nR_def [symmetric] nS_def [symmetric]
    by (simp_all split: if_splits)
  obtain a0 a1 a2 a3 R x y S h where
    v: "v = [a0, a1, a2, a3] @ R @ [x, y] @ S @ [h]" "length R = nR" "length S = nS"
    using der_shape [OF a(4)] by blast
  note n = der_nth [where ?a0.0 = a0 and ?a1.0 = a1 and ?a2.0 = a2 and ?a3.0 = a3 and R = R and x = x
      and y = y and S = S and h = h, folded v(1), unfolded v(2,3)]
  have ne: "R \<noteq> []" "S \<noteq> []" using a(6,10) v(2,3) by auto
  have eqs: "a0 = 0x30" "a2 = 2" "x = 2" "unat a1 = nR + nS + 4" "unat a3 = nR" "unat y = nS"
    using a n(1-4,8,9) nR_def nS_def by auto
  then have "a1 = of_nat (nR + nS + 4)" "a3 = of_nat nR" "y = of_nat nS"
    by (metis byte_of_nat_unat)+
  with eqs v have "v = der_sig R S @ [h]" by (simp add: der_sig_def)
  moreover have "der_int R" "der_int S"
    using a n ne v(2,3) by (auto simp: der_int_def)
  moreover have "length R + length S \<le> 66" using a v by simp
  ultimately show "\<exists>R S h. v = der_sig R S @ [h] \<and> der_int R \<and> der_int S \<and> length R + length S \<le> 66"
    by blast
next
  assume "\<exists>R S h. v = der_sig R S @ [h] \<and> der_int R \<and> der_int S \<and> length R + length S \<le> 66"
  then obtain R S h where v: "v = der_sig R S @ [h]" and d: "der_int R" "der_int S"
    and l: "length R + length S \<le> 66" by blast
  let ?a1 = "of_nat (length R + length S + 4) :: byte"
  have "v = [0x30, ?a1, 2, of_nat (length R)] @ R @ [2, of_nat (length S)] @ S @ [h]"
    using v by (simp add: der_sig_def)
  note n = der_nth [where ?a0.0 = "0x30" and ?a1.0 = ?a1 and ?a2.0 = 2 and ?a3.0 = "of_nat (length R)"
      and R = R and x = 2 and y = "of_nat (length S)" and S = S and h = h, folded this]
  have ne: "R \<noteq> []" "S \<noteq> []" using d by (auto simp: der_int_def)
  then have "0 < length R" "0 < length S" by auto
  then have ne2: "2 \<le> length R + length S" "length R \<noteq> 0" "length S \<noteq> 0" by linarith+
  have u: "unat ?a1 = length R + length S + 4" "unat (v ! 3) = length R"
      "unat (v ! (5 + length R)) = length S"
    using l n by (simp_all del: of_nat_add)
  show "IsDERSignature v True"
    unfolding IsDERSignature_def Let_def bit7_iff u(2,3) n(1,2,3) u(1) n(5) n(8)
    using n(4-) ne d l unfolding der_int_def
    by (cases "1 < length R"; cases "1 < length S") (simp_all add: ne2(1) not_less)
qed

text \<open>A signing key's signature has the lower of the two possible S values.\<close>

lemma CKey_Sign_low:
  assumes "bn_ok E" "0 \<le> EC_order E"
    and "CKey_Sign E k hash = Some sig"
  shows "\<exists>r s s'. ECDSA_do_sign E (key_vch k) (bytes_of_uint256 hash) = Some (r, s) \<and>
    sig = i2d_ECDSA_SIG E r s' \<and> (s' = s \<or> s' = EC_order E - s) \<and>
    (s \<le> EC_order E \<longrightarrow> s' \<le> (EC_order E + 1) div 2)"
  using assms(3)
proof (cases "ECDSA_do_sign E (key_vch k) (bytes_of_uint256 hash)")
  case (Some p)
  obtain r s where p: "p = (r, s)" by (cases p)
  let ?h = "EC_order E div 2" let ?s = "if s > ?h then EC_order E - s else s"
  have h: "BN_rshift E (EC_order E) 1 = ?h"
    using assms(2) by (auto simp: bn_okD [OF assms(1)] sgn_if)
  have "sig = i2d_ECDSA_SIG E r ?s"
    using assms(3) Some p unfolding CKey_Sign_def h
    by (auto simp: Let_def bn_okD [OF assms(1)] sgn_if split: if_splits)
  moreover have "s \<le> EC_order E \<longrightarrow> ?s \<le> (EC_order E + 1) div 2" by auto
  ultimately show ?thesis using Some p by (intro exI [of _ r] exI [of _ s] exI [of _ ?s]) auto
qed (auto simp: CKey_Sign_def split: if_splits)

end
