(* ===== verification/Serialize.thy ===== *)
theory Serialize
  imports Prelude
begin

text \<open>
  src/serialize.h: reading from a \<open>CDataStream\<close>, compact sizes, variable-length integers, strings
  and vectors. A writer is the list of bytes it appends to the stream; a reader takes the bytes
  left in the stream and returns the object and the bytes after it, or \<open>None\<close> where the code
  throws \<open>std::ios_base::failure\<close>. The locale \<open>codec\<close> is the contract of a pair of them.
\<close>

type_synonym 'a reader = "byte list \<Rightarrow> ('a \<times> byte list) option"

section \<open>Streams and basic types\<close>

definition stream_read :: "nat \<Rightarrow> byte list reader" where
  "stream_read nSize s =
     (if nSize \<ge> length s then
        if nSize > length s then None else Some (s, [])
      else Some (take nSize s, drop nSize s))"

definition read_le :: "nat \<Rightarrow> nat reader" where
  "read_le k s = map_option (\<lambda>(bs, r). (le_val bs, r)) (stream_read k s)"

definition read_u8 :: "byte reader" where
  "read_u8 s = map_option (\<lambda>(n, r). (of_nat n, r)) (read_le 1 s)"

definition read_u32 :: "u32 reader" where
  "read_u32 s = map_option (\<lambda>(n, r). (of_nat n, r)) (read_le 4 s)"

definition read_u64 :: "u64 reader" where
  "read_u64 s = map_option (\<lambda>(n, r). (of_nat n, r)) (read_le 8 s)"

definition read_int32 :: "int reader" where
  "read_int32 s = map_option (\<lambda>(n, r). (s32 (int n), r)) (read_le 4 s)"

definition read_int64 :: "int reader" where
  "read_int64 s = map_option (\<lambda>(n, r). (s64 (int n), r)) (read_le 8 s)"

definition read_uint256 :: "uint256 reader" where
  "read_uint256 s = map_option (\<lambda>(n, r). (of_nat n, r)) (read_le 32 s)"

section \<open>Compact sizes\<close>

definition MAX_SIZE :: nat where "MAX_SIZE = 0x02000000"

definition GetSizeOfCompactSize :: "nat \<Rightarrow> nat" where
  "GetSizeOfCompactSize nSize =
     (if nSize < 253 then 1 else if nSize \<le> 0xffff then 3 else if nSize \<le> 0xffffffff then 5 else 9)"

definition WriteCompactSize :: "nat \<Rightarrow> byte list" where
  "WriteCompactSize nSize =
     (if nSize < 253 then le_bytes 1 nSize
      else if nSize \<le> 0xffff then 253 # le_bytes 2 nSize
      else if nSize \<le> 0xffffffff then 254 # le_bytes 4 nSize
      else 255 # le_bytes 8 nSize)"

definition ReadCompactSize :: "nat reader" where
  "ReadCompactSize is =
     (case read_le 1 is of None \<Rightarrow> None
      | Some (chSize, r) \<Rightarrow>
          let check = (\<lambda>n r. if n > MAX_SIZE then None else Some (n, r)) in
          if chSize < 253 then check chSize r
          else if chSize = 253 then
            (case read_le 2 r of None \<Rightarrow> None
             | Some (n, r) \<Rightarrow> if n < 253 then None else check n r)
          else if chSize = 254 then
            (case read_le 4 r of None \<Rightarrow> None
             | Some (n, r) \<Rightarrow> if n < 0x10000 then None else check n r)
          else
            (case read_le 8 r of None \<Rightarrow> None
             | Some (n, r) \<Rightarrow> if n < 0x100000000 then None else check n r))"

section \<open>Variable-length integers\<close>

text \<open>\<open>tmp\<close> is filled least significant group first and written backwards.\<close>

lemma varint_step: "\<not> n \<le> 0x7f \<Longrightarrow> unat (drop_bit 7 n - 1) < unat (n :: u64) div 128"
proof -
  assume n: "\<not> n \<le> 0x7f"
  then have m: "127 < unat n" by (simp add: word_le_nat_alt)
  have d: "unat (drop_bit 7 n) = unat n div 128"
    by (simp add: unat_drop_bit_eq drop_bit_eq_div [where 'a = nat])
  then have "drop_bit 7 n \<noteq> 0" using m by (auto simp: word_unat_eq_iff)
  then have "unat (drop_bit 7 n - 1) < unat (drop_bit 7 n)" by (metis measure_unat)
  then show ?thesis using d by simp
qed

lemma varint_less: "\<not> n \<le> 0x7f \<Longrightarrow> unat (drop_bit 7 n - 1) < unat (n :: u64)"
  using varint_step [of n] by (meson div_le_dividend less_le_trans)

function varint_tmp :: "nat \<Rightarrow> u64 \<Rightarrow> byte list" where
  "varint_tmp len n =
     (ucast (n AND 0x7f) OR (if len \<noteq> 0 then 0x80 else 0)) #
     (if n \<le> 0x7f then [] else varint_tmp (len + 1) (drop_bit 7 n - 1))"
  by pat_completeness auto
termination
  by (relation "measure (\<lambda>(len, n). unat n)") (auto simp: varint_less)

declare varint_tmp.simps [simp del]

definition WriteVarInt :: "u64 \<Rightarrow> byte list" where
  "WriteVarInt n = rev (varint_tmp 0 n)"

function GetSizeOfVarInt :: "u64 \<Rightarrow> nat" where
  "GetSizeOfVarInt n = Suc (if n \<le> 0x7f then 0 else GetSizeOfVarInt (drop_bit 7 n - 1))"
  by pat_completeness auto
termination
  by (relation "measure unat") (auto simp: varint_less)

declare GetSizeOfVarInt.simps [simp del]

fun varint_read :: "u64 \<Rightarrow> u64 reader" where
  "varint_read n [] = None"
| "varint_read n (chData # s) =
     (let n' = push_bit 7 n OR ucast (chData AND 0x7f) in
      if chData AND 0x80 \<noteq> 0 then varint_read (n' + 1) s else Some (n', s))"

definition ReadVarInt :: "u64 reader" where
  "ReadVarInt = varint_read 0"

section \<open>Strings and vectors\<close>

definition ser_bytes :: "byte list \<Rightarrow> byte list" where
  "ser_bytes v = WriteCompactSize (length v) @ v"

definition unser_string :: "byte list reader" where
  "unser_string is =
     (case ReadCompactSize is of None \<Rightarrow> None
      | Some (nSize, r) \<Rightarrow> if nSize \<noteq> 0 then stream_read nSize r else Some ([], r))"

text \<open>A vector of bytes is read in blocks of at most five million.\<close>

function bytes_loop :: "nat \<Rightarrow> nat \<Rightarrow> byte list reader" where
  "bytes_loop nSize i is =
     (if i < nSize then
        let blk = min (nSize - i) (1 + 4999999 div 1) in
        (case stream_read blk is of None \<Rightarrow> None
         | Some (bs, r) \<Rightarrow>
             (case bytes_loop nSize (i + blk) r of None \<Rightarrow> None
              | Some (v, r') \<Rightarrow> Some (bs @ v, r')))
      else Some ([], is))"
  by pat_completeness auto
termination by (relation "measure (\<lambda>(nSize, i, is). nSize - i)") auto

declare bytes_loop.simps [simp del]

definition unser_bytes :: "byte list reader" where
  "unser_bytes is =
     (case ReadCompactSize is of None \<Rightarrow> None | Some (nSize, r) \<Rightarrow> bytes_loop nSize 0 r)"

definition ser_vector :: "('a \<Rightarrow> byte list) \<Rightarrow> 'a list \<Rightarrow> byte list" where
  "ser_vector enc v = WriteCompactSize (length v) @ concat (map enc v)"

fun read_items :: "'a reader \<Rightarrow> nat \<Rightarrow> 'a list reader" where
  "read_items dec 0 s = Some ([], s)"
| "read_items dec (Suc k) s =
     (case dec s of None \<Rightarrow> None
      | Some (x, r) \<Rightarrow> (case read_items dec k r of None \<Rightarrow> None
                         | Some (xs, r') \<Rightarrow> Some (x # xs, r')))"

text \<open>
  A vector of objects grows by \<open>5000000 / sizeof(T)\<close> elements at a time (\<open>chunk\<close>; a zero chunk,
  which would not terminate, needs an object of more than five million bytes).
\<close>

function vector_loop :: "nat \<Rightarrow> 'a reader \<Rightarrow> nat \<Rightarrow> nat \<Rightarrow> 'a list reader" where
  "vector_loop chunk dec nSize nMid is =
     (if chunk = 0 then None
      else if nMid < nSize then
        let nMid' = (if nMid + chunk > nSize then nSize else nMid + chunk) in
        (case read_items dec (nMid' - nMid) is of None \<Rightarrow> None
         | Some (xs, r) \<Rightarrow>
             (case vector_loop chunk dec nSize nMid' r of None \<Rightarrow> None
              | Some (ys, r') \<Rightarrow> Some (xs @ ys, r')))
      else Some ([], is))"
  by pat_completeness auto
termination by (relation "measure (\<lambda>(chunk, dec, nSize, nMid, is). nSize - nMid)") auto

declare vector_loop.simps [simp del]

definition unser_vector :: "nat \<Rightarrow> 'a reader \<Rightarrow> 'a list reader" where
  "unser_vector sizeof dec is =
     (case ReadCompactSize is of None \<Rightarrow> None
      | Some (nSize, r) \<Rightarrow> vector_loop (5000000 div sizeof) dec nSize 0 r)"

lemma read_items_add:
  "read_items dec (a + b) s =
     (case read_items dec a s of None \<Rightarrow> None
      | Some (xs, r) \<Rightarrow> (case read_items dec b r of None \<Rightarrow> None
                          | Some (ys, r') \<Rightarrow> Some (xs @ ys, r')))"
  by (induction a arbitrary: s) (auto split: option.splits)

text \<open>Reading a vector chunk by chunk is reading its elements one by one.\<close>

lemma vector_loop_items:
  "0 < chunk \<Longrightarrow> nMid \<le> nSize \<Longrightarrow>
     vector_loop chunk dec nSize nMid s = read_items dec (nSize - nMid) s"
proof (induction "nSize - nMid" arbitrary: nMid s rule: less_induct)
  case less
  show ?case
  proof (cases "nMid < nSize")
    case True
    let ?m = "if nMid + chunk > nSize then nSize else nMid + chunk"
    have m: "nSize - ?m < nSize - nMid" "?m \<le> nSize" "nSize - nMid = (?m - nMid) + (nSize - ?m)"
      using True less.prems by auto
    have "vector_loop chunk dec nSize nMid s =
        (case read_items dec (?m - nMid) s of None \<Rightarrow> None
         | Some (xs, r) \<Rightarrow> (case vector_loop chunk dec nSize ?m r of None \<Rightarrow> None
                             | Some (ys, r') \<Rightarrow> Some (xs @ ys, r')))"
      using True less.prems by (subst vector_loop.simps) (simp only: Let_def if_True if_False, simp)
    also have "\<dots> = read_items dec (nSize - nMid) s"
      using less.hyps [OF m(1) less.prems(1) m(2)]
      by (subst m(3)) (simp only: read_items_add)
    finally show ?thesis .
  qed (use less.prems in \<open>simp add: vector_loop.simps\<close>)
qed

section \<open>The contract of a writer and its reader\<close>

locale codec =
  fixes enc :: "'a \<Rightarrow> byte list" and dec :: "'a reader" and valid :: "'a \<Rightarrow> bool"
  assumes dec_enc: "valid x \<Longrightarrow> dec (enc x @ s) = Some (x, s)"
    and dec_sound: "dec s = Some (x, r) \<Longrightarrow> valid x \<and> s = enc x @ r"
begin

lemma dec_iff: "dec s = Some (x, r) \<longleftrightarrow> valid x \<and> s = enc x @ r"
  using dec_enc dec_sound by auto

lemma enc_prefix_free: "valid x \<Longrightarrow> valid y \<Longrightarrow> enc x @ s = enc y @ t \<Longrightarrow> x = y \<and> s = t"
  by (metis dec_enc option.inject prod.inject)

lemma enc_inj: "valid x \<Longrightarrow> valid y \<Longrightarrow> enc x = enc y \<Longrightarrow> x = y"
  using enc_prefix_free by blast

lemma read_items_iff:
  "read_items dec k s = Some (xs, r) \<longleftrightarrow>
     length xs = k \<and> list_all valid xs \<and> s = concat (map enc xs) @ r"
proof (induction k arbitrary: s xs)
  case 0
  then show ?case by auto
next
  case (Suc k)
  show ?case
  proof (cases xs)
    case Nil
    then show ?thesis by (auto split: option.splits)
  next
    case (Cons y ys)
    show ?thesis unfolding Cons using Suc
      by (auto simp: dec_iff split: option.splits)
        (metis Suc append.assoc dec_enc option.inject prod.inject option.distinct(1))+
  qed
qed

end

lemma codec_read_le: "codec (le_bytes k) (read_le k) (\<lambda>n. n < 256 ^ k)"
proof
  fix n :: nat and s assume "n < 256 ^ k"
  then show "read_le k (le_bytes k n @ s) = Some (n, s)"
    by (auto simp: read_le_def stream_read_def)
next
  fix s n r assume "read_le k s = Some (n, r)"
  then obtain bs where bs: "stream_read k s = Some (bs, r)" "n = le_val bs"
    by (auto simp: read_le_def)
  then have "length bs = k" "s = bs @ r" by (auto simp: stream_read_def split: if_splits)
  with bs(2) show "n < 256 ^ k \<and> s = le_bytes k n @ r"
    using le_val_bound [of bs] le_bytes_le_val [of bs] by auto
qed

interpretation le: codec "le_bytes k" "read_le k" "\<lambda>n. n < 256 ^ k" for k
  by (rule codec_read_le)

lemma read_le_iff: "read_le k s = Some (n, r) \<longleftrightarrow> n < 256 ^ k \<and> s = le_bytes k n @ r"
  by (rule le.dec_iff)

lemma le_bytes_1: "n < 256 \<Longrightarrow> le_bytes 1 n = [of_nat n]"
  by simp

lemma read_u8_Cons: "read_le 1 (b # t) = Some (unat b, t)"
  using le.dec_enc [of "unat b" 1 t] le_bytes_1 [of "unat b"] by simp

lemma ReadCompactSize_enc:
  assumes "n \<le> MAX_SIZE"
  shows "ReadCompactSize (WriteCompactSize n @ s) = Some (n, s)"
proof -
  consider "n < 253" | "253 \<le> n" "n < 0x10000" | "0x10000 \<le> n" "n < 0x100000000"
    using assms by (fastforce simp: MAX_SIZE_def)
  then show ?thesis
  proof cases
    case 1
    then have "WriteCompactSize n @ s = of_nat n # s" "unat (of_nat n :: byte) = n"
      by (simp_all only: WriteCompactSize_def le_bytes_1) (simp_all add: unat_of_nat)
    then show ?thesis using 1 assms unfolding ReadCompactSize_def Let_def
      by (simp only: read_u8_Cons) simp
  next
    case 2
    then have "WriteCompactSize n @ s = 253 # le_bytes 2 n @ s" "unat (253 :: byte) = 253"
      by (simp_all add: WriteCompactSize_def)
    then show ?thesis using 2 assms le.dec_enc [of n 2 s] unfolding ReadCompactSize_def Let_def
      by (simp only: read_u8_Cons) simp
  next
    case 3
    then have "WriteCompactSize n @ s = 254 # le_bytes 4 n @ s" "unat (254 :: byte) = 254"
      by (simp_all add: WriteCompactSize_def)
    then show ?thesis using 3 assms le.dec_enc [of n 4 s] unfolding ReadCompactSize_def Let_def
      by (simp only: read_u8_Cons) simp
  qed
qed

lemma ReadCompactSize_sound:
  assumes "ReadCompactSize s = Some (n, r)"
  shows "n \<le> MAX_SIZE \<and> s = WriteCompactSize n @ r"
proof -
  obtain k t where k: "read_le 1 s = Some (k, t)"
    using assms by (auto simp: ReadCompactSize_def split: option.splits)
  then have s: "s = of_nat k # t" "k < 256" using le_bytes_1 [of k] by (auto simp: read_le_iff)
  consider "k < 253" | "k = 253" | "k = 254" | "k = 255" using s(2) by linarith
  then show ?thesis
  proof cases
    case 1
    then have "n = k" "r = t" "n \<le> MAX_SIZE"
      using assms by (simp_all add: ReadCompactSize_def k Let_def del: One_nat_def split: if_splits)
    then show ?thesis using 1 s le_bytes_1 [of k] by (simp add: WriteCompactSize_def)
  next
    case 2
    then have "253 \<le> n" "n < 256 ^ 2" "t = le_bytes 2 n @ r" "n \<le> MAX_SIZE"
      using assms by (simp_all add: ReadCompactSize_def k Let_def read_le_iff del: One_nat_def
          split: option.splits prod.splits if_splits)
    then show ?thesis using 2 s by (simp add: WriteCompactSize_def)
  next
    case 3
    then have "0x10000 \<le> n" "n < 256 ^ 4" "t = le_bytes 4 n @ r" "n \<le> MAX_SIZE"
      using assms by (simp_all add: ReadCompactSize_def k Let_def read_le_iff del: One_nat_def
          split: option.splits prod.splits if_splits)
    then show ?thesis using 3 s by (simp add: WriteCompactSize_def)
  next
    case 4
    then have "0x100000000 \<le> n" "n \<le> MAX_SIZE"
      using assms by (simp_all add: ReadCompactSize_def k Let_def read_le_iff del: One_nat_def
          split: option.splits prod.splits if_splits)
    then show ?thesis by (simp add: MAX_SIZE_def)
  qed
qed

interpretation compact: codec WriteCompactSize ReadCompactSize "\<lambda>n. n \<le> MAX_SIZE"
  by unfold_locales (simp_all add: ReadCompactSize_enc ReadCompactSize_sound)

lemma length_WriteCompactSize [simp]: "length (WriteCompactSize n) = GetSizeOfCompactSize n"
  by (simp add: WriteCompactSize_def GetSizeOfCompactSize_def)

section \<open>The codecs of the basic types\<close>

lemma stream_read_eq:
  "stream_read k s = (if length s < k then None else Some (take k s, drop k s))"
  by (simp add: stream_read_def)

lemma stream_read_append [simp]: "length bs = k \<Longrightarrow> stream_read k (bs @ r) = Some (bs, r)"
  by (simp add: stream_read_eq)

lemma stream_readD: "stream_read k s = Some (bs, r) \<Longrightarrow> length bs = k \<and> s = bs @ r"
proof -
  assume "stream_read k s = Some (bs, r)"
  then have "\<not> length s < k" "take k s = bs" "drop k s = r"
    by (simp_all add: stream_read_eq split: if_splits)
  then show ?thesis by auto
qed

lemma codec_map:
  assumes "codec enc dec valid"
    and "\<And>x. valid' x \<Longrightarrow> valid (f x) \<and> g (f x) = x"
    and "\<And>y. valid y \<Longrightarrow> valid' (g y) \<and> f (g y) = y"
  shows "codec (\<lambda>x. enc (f x)) (\<lambda>s. map_option (\<lambda>(y, r). (g y, r)) (dec s)) valid'"
proof
  fix x s assume "valid' x"
  then show "map_option (\<lambda>(y, r). (g y, r)) (dec (enc (f x) @ s)) = Some (x, s)"
    by (simp add: assms(2) codec.dec_enc [OF assms(1)])
next
  fix s x r assume "map_option (\<lambda>(y, r). (g y, r)) (dec s) = Some (x, r)"
  then obtain y where "dec s = Some (y, r)" "x = g y" by auto
  then show "valid' x \<and> s = enc (f x) @ r"
    using codec.dec_sound [OF assms(1)] assms(3) by auto
qed

lemma word_codec:
  assumes "2 ^ LENGTH('a::len) = (256 :: nat) ^ k"
  shows "codec (\<lambda>w :: 'a word. le_bytes k (unat w))
    (\<lambda>s. map_option (\<lambda>(n, r). (of_nat n, r)) (read_le k s)) (\<lambda>_. True)"
proof (rule codec_map [OF codec_read_le])
  fix w :: "'a word"
  show "unat w < 256 ^ k \<and> of_nat (unat w) = w"
    using unsigned_less [of w, where 'a = nat] assms by simp
next
  fix n :: nat assume "n < 256 ^ k"
  then show "True \<and> unat (of_nat n :: 'a word) = n"
    using assms by (simp add: unat_of_nat)
qed

lemma codec_u8: "codec (\<lambda>w. le_bytes 1 (unat w)) read_u8 (\<lambda>_. True)"
  unfolding read_u8_def by (rule word_codec) simp

lemma codec_u32: "codec bytes_of_u32 read_u32 (\<lambda>_. True)"
  unfolding bytes_of_u32_def read_u32_def by (rule word_codec) simp

lemma codec_u64: "codec bytes_of_u64 read_u64 (\<lambda>_. True)"
  unfolding bytes_of_u64_def read_u64_def by (rule word_codec) simp

lemma codec_uint256: "codec bytes_of_uint256 read_uint256 (\<lambda>_. True)"
  unfolding bytes_of_uint256_def read_uint256_def by (rule word_codec) simp

definition is_int32 :: "int \<Rightarrow> bool" where "is_int32 x \<longleftrightarrow> - (2 ^ 31) \<le> x \<and> x < 2 ^ 31"
definition is_int64 :: "int \<Rightarrow> bool" where "is_int64 x \<longleftrightarrow> - (2 ^ 63) \<le> x \<and> x < 2 ^ 63"

lemma is_int_s [simp]: "is_int32 (s32 x)" "is_int64 (s64 x)"
  using s32_bounds [of x] s64_bounds [of x] by (simp_all add: is_int32_def is_int64_def)

lemma codec_int32: "codec bytes_of_int32 read_int32 is_int32"
  unfolding bytes_of_int32_def read_int32_def
proof (rule codec_map [OF codec_read_le])
  fix x assume "is_int32 x"
  then show "nat (x mod 2 ^ 32) < 256 ^ 4 \<and> s32 (int (nat (x mod 2 ^ 32))) = x"
    by (simp add: is_int32_def s32_mod [simplified] nat_less_iff)
next
  fix n :: nat assume "n < 256 ^ 4"
  then show "is_int32 (s32 (int n)) \<and> nat (s32 (int n) mod 2 ^ 32) = n"
    by (intro conjI is_int_s) (simp add: s32_def mod_diff_left_eq)
qed

lemma codec_int64: "codec bytes_of_int64 read_int64 is_int64"
  unfolding bytes_of_int64_def read_int64_def
proof (rule codec_map [OF codec_read_le])
  fix x assume "is_int64 x"
  then show "nat (x mod 2 ^ 64) < 256 ^ 8 \<and> s64 (int (nat (x mod 2 ^ 64))) = x"
    by (simp add: is_int64_def s64_mod [simplified] nat_less_iff)
next
  fix n :: nat assume "n < 256 ^ 8"
  then show "is_int64 (s64 (int n)) \<and> nat (s64 (int n) mod 2 ^ 64) = n"
    by (intro conjI is_int_s) (simp add: s64_def mod_diff_left_eq)
qed

interpretation u32: codec bytes_of_u32 read_u32 "\<lambda>_. True" by (rule codec_u32)
interpretation u64: codec bytes_of_u64 read_u64 "\<lambda>_. True" by (rule codec_u64)
interpretation uint256: codec bytes_of_uint256 read_uint256 "\<lambda>_. True" by (rule codec_uint256)
interpretation int32: codec bytes_of_int32 read_int32 is_int32 by (rule codec_int32)
interpretation int64: codec bytes_of_int64 read_int64 is_int64 by (rule codec_int64)

section \<open>The codecs of strings and vectors\<close>

lemma bytes_loop_read: "i \<le> nSize \<Longrightarrow> bytes_loop nSize i s = stream_read (nSize - i) s"
proof (induction "nSize - i" arbitrary: i s rule: less_induct)
  case less
  show ?case
  proof (cases "i < nSize")
    case True
    define blk where "blk = min (nSize - i) 5000000"
    have b: "0 < blk" "blk \<le> nSize - i" using True by (simp_all add: blk_def)
    have IH: "bytes_loop nSize (i + blk) t = stream_read (nSize - (i + blk)) t" for t
      using b less.prems by (intro less.hyps) auto
    have "bytes_loop nSize i s = (case stream_read blk s of None \<Rightarrow> None
         | Some (bs, r) \<Rightarrow> (case stream_read (nSize - (i + blk)) r of None \<Rightarrow> None
              | Some (v, r') \<Rightarrow> Some (bs @ v, r')))"
      using True by (subst bytes_loop.simps) (simp only: IH Let_def if_True div_by_1 flip: blk_def, simp only: IH blk_def [symmetric] semiring_norm numeral_plus_one add_numeral_special)
    also have "\<dots> = stream_read (nSize - i) s"
      using b by (cases "i + blk < nSize")
        (auto simp: stream_read_eq take_add [symmetric] diff_diff_left le_less)
    finally show ?thesis .
  qed (use less.prems in \<open>simp add: bytes_loop.simps stream_read_eq\<close>)
qed

lemma codec_bytes: "codec ser_bytes unser_bytes (\<lambda>v. length v \<le> MAX_SIZE)"
proof
  fix x s assume "length (x :: byte list) \<le> MAX_SIZE"
  then show "unser_bytes (ser_bytes x @ s) = Some (x, s)"
    by (simp add: unser_bytes_def ser_bytes_def compact.dec_enc bytes_loop_read)
next
  fix s x r assume "unser_bytes s = Some (x, r)"
  then show "length x \<le> MAX_SIZE \<and> s = ser_bytes x @ r"
    by (auto simp: unser_bytes_def ser_bytes_def bytes_loop_read
        dest!: compact.dec_sound stream_readD split: option.splits)
qed

lemma codec_string: "codec ser_bytes unser_string (\<lambda>v. length v \<le> MAX_SIZE)"
proof
  fix x s assume "length (x :: byte list) \<le> MAX_SIZE"
  then show "unser_string (ser_bytes x @ s) = Some (x, s)"
    by (simp add: unser_string_def ser_bytes_def compact.dec_enc)
next
  fix s x r assume "unser_string s = Some (x, r)"
  then show "length x \<le> MAX_SIZE \<and> s = ser_bytes x @ r"
    by (auto simp: unser_string_def ser_bytes_def dest!: compact.dec_sound stream_readD
        split: option.splits if_splits)
qed

interpretation bytes: codec ser_bytes unser_bytes "\<lambda>v. length v \<le> MAX_SIZE" by (rule codec_bytes)

lemma codec_vector:
  assumes "codec enc dec valid" "0 < sizeof" "sizeof \<le> 5000000"
  shows "codec (ser_vector enc) (unser_vector sizeof dec)
    (\<lambda>v. length v \<le> MAX_SIZE \<and> list_all valid v)"
proof -
  have c: "0 < 5000000 div sizeof" using assms(2,3) by (simp add: div_greater_zero_iff)
  note items = codec.read_items_iff [OF assms(1)]
  show ?thesis
  proof
    fix x s assume "length x \<le> MAX_SIZE \<and> list_all valid x"
    then show "unser_vector sizeof dec (ser_vector enc x @ s) = Some (x, s)"
      by (simp add: unser_vector_def ser_vector_def compact.dec_enc vector_loop_items [OF c] items)
  next
    fix s x r assume "unser_vector sizeof dec s = Some (x, r)"
    then show "(length x \<le> MAX_SIZE \<and> list_all valid x) \<and> s = ser_vector enc x @ r"
      by (auto simp: unser_vector_def ser_vector_def vector_loop_items [OF c] items
          dest!: compact.dec_sound split: option.splits)
  qed
qed

text \<open>Two fields in sequence (\<open>READWRITE(a); READWRITE(b);\<close>).\<close>

definition read_pair :: "'a reader \<Rightarrow> 'b reader \<Rightarrow> ('a \<times> 'b) reader" where
  "read_pair da db s =
     (case da s of None \<Rightarrow> None
      | Some (a, r) \<Rightarrow> (case db r of None \<Rightarrow> None | Some (b, r') \<Rightarrow> Some ((a, b), r')))"

lemma codec_pair:
  assumes "codec ea da va" "codec eb db vb"
  shows "codec (\<lambda>(a, b). ea a @ eb b) (read_pair da db) (\<lambda>(a, b). va a \<and> vb b)"
proof
  fix x s assume "case x of (a, b) \<Rightarrow> va a \<and> vb b"
  then show "read_pair da db ((case x of (a, b) \<Rightarrow> ea a @ eb b) @ s) = Some (x, s)"
    by (auto simp: read_pair_def codec.dec_enc [OF assms(1)] codec.dec_enc [OF assms(2)])
next
  fix s x r assume "read_pair da db s = Some (x, r)"
  then show "(case x of (a, b) \<Rightarrow> va a \<and> vb b) \<and> s = (case x of (a, b) \<Rightarrow> ea a @ eb b) @ r"
    by (auto simp: read_pair_def dest!: codec.dec_sound [OF assms(1)] codec.dec_sound [OF assms(2)]
        split: option.splits)
qed

section \<open>Variable-length integers\<close>

lemma varint_tmp_step:
  "n \<le> 0x7f \<Longrightarrow> varint_tmp len n = [ucast (n AND 0x7f) OR (if len \<noteq> 0 then 0x80 else 0)]"
  "\<not> n \<le> 0x7f \<Longrightarrow> varint_tmp len n =
     (ucast (n AND 0x7f) OR (if len \<noteq> 0 then 0x80 else 0)) # varint_tmp (len + 1) (drop_bit 7 n - 1)"
  by (subst varint_tmp.simps, simp)+

lemma word_7f_take_bit: "(w :: 'a::len word) AND 0x7f = take_bit 7 w"
proof -
  have "(0x7f :: 'a word) = mask 7" by (simp add: mask_eq_exp_minus_1)
  then show ?thesis by (simp only: take_bit_eq_mask)
qed

lemma byte_80: "(x :: byte) AND 0x80 \<noteq> 0 \<longleftrightarrow> bit x 7"
proof -
  have "(0x80 :: byte) = 2 ^ 7" by simp
  then show ?thesis by (simp only: and_exp_eq_0_iff_not_bit) simp
qed

lemma byte_or_80: "(x :: byte) OR 0x80 = set_bit 7 x"
  by (simp add: set_bit_eq_or)

lemma varint_digit:
  "(ucast (n AND 0x7f) OR (0x80 :: byte)) AND 0x80 \<noteq> 0"
  "(ucast (n AND 0x7f) OR (0 :: byte)) AND 0x80 = 0"
  "(ucast ((ucast (n AND 0x7f) OR 0x80) AND 0x7f :: byte) :: u64) = n AND 0x7f"
  "(ucast ((ucast (n AND 0x7f) OR 0) AND 0x7f :: byte) :: u64) = n AND 0x7f"
  for n :: u64
proof -
  show "(ucast (n AND 0x7f) OR (0x80 :: byte)) AND 0x80 \<noteq> 0"
    by (simp only: byte_80 byte_or_80) (simp add: bit_simps)
  show "(ucast (n AND 0x7f) OR (0 :: byte)) AND 0x80 = 0"
    using byte_80 [of "ucast (n AND 0x7f)"] by (simp add: word_7f_take_bit bit_simps)
  show "(ucast ((ucast (n AND 0x7f) OR 0x80) AND 0x7f :: byte) :: u64) = n AND 0x7f"
    unfolding byte_or_80 word_7f_take_bit by (rule bit_word_eqI) (auto simp: bit_simps)
  show "(ucast ((ucast (n AND 0x7f) OR 0) AND 0x7f :: byte) :: u64) = n AND 0x7f"
    unfolding word_7f_take_bit by (rule bit_word_eqI) (auto simp: bit_simps)
qed

lemma varint_join: "push_bit 7 (drop_bit 7 n) OR (n AND 0x7f) = (n :: u64)"
  unfolding word_7f_take_bit by (rule bit_word_eqI) (auto simp: bit_simps)

lemma varint_read_high:
  "0 < len \<Longrightarrow> varint_read 0 (rev (varint_tmp len n) @ s) = varint_read (n + 1) s"
proof (induction len n arbitrary: s rule: varint_tmp.induct)
  case (1 len n)
  show ?case
  proof (cases "n \<le> 0x7f")
    case True
    then have "n AND 0x7f = n"
      by (simp add: word_7f_take_bit word_le_nat_alt word_unat_eq_iff unsigned_take_bit_eq
          take_bit_eq_mod [where 'a = nat])
    with True 1(2) varint_digit(1,3) [of n] show ?thesis by (simp add: varint_tmp_step Let_def)
  next
    case False
    with 1 varint_digit(1,3) [of n] show ?thesis
      by (simp add: varint_tmp_step Let_def varint_join)
  qed
qed

lemma ReadVarInt_WriteVarInt: "ReadVarInt (WriteVarInt n @ s) = Some (n, s)"
proof (cases "n \<le> 0x7f")
  case True
  then have "n AND 0x7f = n"
    by (simp add: word_7f_take_bit word_le_nat_alt word_unat_eq_iff unsigned_take_bit_eq
        take_bit_eq_mod [where 'a = nat])
  with True varint_digit(2,4) [of n] show ?thesis
    by (simp add: ReadVarInt_def WriteVarInt_def varint_tmp_step Let_def)
next
  case False
  with varint_digit(2,4) [of n] show ?thesis
    by (simp add: ReadVarInt_def WriteVarInt_def varint_tmp_step Let_def varint_read_high varint_join)
qed

lemma length_WriteVarInt: "length (WriteVarInt n) = GetSizeOfVarInt n"
proof -
  have "length (varint_tmp len n) = GetSizeOfVarInt n" for len
    by (induction n arbitrary: len rule: GetSizeOfVarInt.induct)
       (subst varint_tmp.simps, subst GetSizeOfVarInt.simps, simp)
  then show ?thesis by (simp add: WriteVarInt_def)
qed

text \<open>The temporary array of \<open>WriteVarInt\<close> has \<open>(sizeof(n)*8+6)/7\<close> = 10 bytes for a 64-bit number.\<close>

lemma GetSizeOfVarInt_bound: "unat n < 128 ^ k \<Longrightarrow> 0 < k \<Longrightarrow> GetSizeOfVarInt n \<le> k"
proof (induction n arbitrary: k rule: GetSizeOfVarInt.induct)
  case (1 n)
  show ?case
  proof (cases "n \<le> 0x7f")
    case False
    then have m: "127 < unat n" by (simp add: word_le_nat_alt)
    then have k: "1 < k" using "1.prems" by (cases k; cases "k - 1") auto
    from varint_step [OF False] have "unat (drop_bit 7 n - 1) < unat n div 128" .
    also have "\<dots> < 128 ^ (k - 1)"
      using "1.prems" k by (cases k) (auto simp: less_mult_imp_div_less mult.commute)
    finally have "GetSizeOfVarInt (drop_bit 7 n - 1) \<le> k - 1" using 1(1) False k by simp
    then show ?thesis using False k by (subst GetSizeOfVarInt.simps) simp
  qed (use 1 in \<open>subst GetSizeOfVarInt.simps; simp\<close>)
qed

end
