(* ===== verification/ScriptOps.thy ===== *)
theory ScriptOps
  imports Keys Serialize
begin

text \<open>
  \<open>CScript\<close> (src/script.h, src/script.cpp): the opcodes, the pushes of \<open>operator<<\<close>, the decoder
  \<open>GetOp2\<close> and everything that walks over a script with it, and the compact script serializer.
  A script is a byte list and a program counter the bytes from there to the end of the script.
\<close>

type_synonym script = "byte list"
type_synonym opcodetype = nat

section \<open>Opcodes\<close>

abbreviation (input) OP_0 :: opcodetype where "OP_0 \<equiv> 0x00"
abbreviation (input) OP_PUSHDATA1 :: opcodetype where "OP_PUSHDATA1 \<equiv> 0x4c"
abbreviation (input) OP_PUSHDATA2 :: opcodetype where "OP_PUSHDATA2 \<equiv> 0x4d"
abbreviation (input) OP_PUSHDATA4 :: opcodetype where "OP_PUSHDATA4 \<equiv> 0x4e"
abbreviation (input) OP_1NEGATE :: opcodetype where "OP_1NEGATE \<equiv> 0x4f"
abbreviation (input) OP_RESERVED :: opcodetype where "OP_RESERVED \<equiv> 0x50"
abbreviation (input) OP_1 :: opcodetype where "OP_1 \<equiv> 0x51"
abbreviation (input) OP_16 :: opcodetype where "OP_16 \<equiv> 0x60"
abbreviation (input) OP_IF :: opcodetype where "OP_IF \<equiv> 0x63"
abbreviation (input) OP_ENDIF :: opcodetype where "OP_ENDIF \<equiv> 0x68"
abbreviation (input) OP_RETURN :: opcodetype where "OP_RETURN \<equiv> 0x6a"
abbreviation (input) OP_DUP :: opcodetype where "OP_DUP \<equiv> 0x76"
abbreviation (input) OP_EQUAL :: opcodetype where "OP_EQUAL \<equiv> 0x87"
abbreviation (input) OP_EQUALVERIFY :: opcodetype where "OP_EQUALVERIFY \<equiv> 0x88"
abbreviation (input) OP_HASH160 :: opcodetype where "OP_HASH160 \<equiv> 0xa9"
abbreviation (input) OP_CODESEPARATOR :: opcodetype where "OP_CODESEPARATOR \<equiv> 0xab"
abbreviation (input) OP_CHECKSIG :: opcodetype where "OP_CHECKSIG \<equiv> 0xac"
abbreviation (input) OP_CHECKSIGVERIFY :: opcodetype where "OP_CHECKSIGVERIFY \<equiv> 0xad"
abbreviation (input) OP_CHECKMULTISIG :: opcodetype where "OP_CHECKMULTISIG \<equiv> 0xae"
abbreviation (input) OP_CHECKMULTISIGVERIFY :: opcodetype where "OP_CHECKMULTISIGVERIFY \<equiv> 0xaf"
abbreviation (input) OP_BURN :: opcodetype where "OP_BURN \<equiv> 0xd0"
abbreviation (input) OP_SMALLDATA :: opcodetype where "OP_SMALLDATA \<equiv> 0xf9"
abbreviation (input) OP_SMALLINTEGER :: opcodetype where "OP_SMALLINTEGER \<equiv> 0xfa"
abbreviation (input) OP_PUBKEYS :: opcodetype where "OP_PUBKEYS \<equiv> 0xfb"
abbreviation (input) OP_PUBKEYHASH :: opcodetype where "OP_PUBKEYHASH \<equiv> 0xfd"
abbreviation (input) OP_PUBKEY :: opcodetype where "OP_PUBKEY \<equiv> 0xfe"
abbreviation (input) OP_INVALIDOPCODE :: opcodetype where "OP_INVALIDOPCODE \<equiv> 0xff"

section \<open>Appending to a script\<close>

definition push_opcode :: "script \<Rightarrow> opcodetype \<Rightarrow> script" where
  "push_opcode s opcode = s @ [of_nat opcode]"

definition push_data :: "script \<Rightarrow> valtype \<Rightarrow> script" where
  "push_data s b =
     (if length b < OP_PUSHDATA1 then s @ [of_nat (length b)]
      else if length b \<le> 0xff then s @ [of_nat OP_PUSHDATA1, of_nat (length b)]
      else if length b \<le> 0xffff then s @ [of_nat OP_PUSHDATA2] @ le_bytes 2 (length b)
      else s @ [of_nat OP_PUSHDATA4] @ le_bytes 4 (length b)) @ b"

definition push_int64 :: "external \<Rightarrow> script \<Rightarrow> int \<Rightarrow> script" where
  "push_int64 E s n =
     (if n = -1 \<or> (n \<ge> 1 \<and> n \<le> 16) then s @ [word_of_int (n + (int OP_1 - 1))]
      else push_data s (getvch E (bn_of_int E n)))"

definition push_uint64 :: "external \<Rightarrow> script \<Rightarrow> u64 \<Rightarrow> script" where
  "push_uint64 E s n =
     (if n \<ge> 1 \<and> n \<le> 16 then s @ [of_nat (unat n + (OP_1 - 1))]
      else push_data s (getvch E (setulong E (unat n))))"

definition push_uint160 :: "script \<Rightarrow> uint160 \<Rightarrow> script" where
  "push_uint160 s b = s @ [20] @ bytes_of_uint160 b"

definition push_uint256 :: "script \<Rightarrow> uint256 \<Rightarrow> script" where
  "push_uint256 s b = s @ [32] @ bytes_of_uint256 b"

definition push_key :: "script \<Rightarrow> pubkey \<Rightarrow> script" where
  "push_key s k = s @ [of_nat (pk_size k)] @ pk_bytes k"

section \<open>Reading a script\<close>

text \<open>The opcode, its operand and the script after it; \<open>None\<close> where \<open>GetOp\<close> returns false.\<close>

definition GetOp2 :: "script \<Rightarrow> (opcodetype \<times> valtype \<times> script) option" where
  "GetOp2 pc =
     (case pc of [] \<Rightarrow> None
      | b # pc \<Rightarrow>
          let opcode = unat b in
          if opcode \<le> OP_PUSHDATA4 then
            let operand = (\<lambda>nSize pc. if length pc < nSize then None
                              else Some (opcode, take nSize pc, drop nSize pc)) in
            if opcode < OP_PUSHDATA1 then operand opcode pc
            else if opcode = OP_PUSHDATA1 then
              if length pc < 1 then None else operand (unat (hd pc)) (tl pc)
            else if opcode = OP_PUSHDATA2 then
              if length pc < 2 then None else operand (le_val (take 2 pc)) (drop 2 pc)
            else
              if length pc < 4 then None else operand (le_val (take 4 pc)) (drop 4 pc)
          else Some (opcode, [], pc))"

lemma GetOp2_shorter: "GetOp2 pc = Some (opcode, vch, pc') \<Longrightarrow> length pc' < length pc"
  by (auto simp: GetOp2_def Let_def split: list.splits if_splits)

text \<open>The two asserts are \<open>None\<close>.\<close>

definition DecodeOP_N :: "opcodetype \<Rightarrow> nat option" where
  "DecodeOP_N opcode =
     (if opcode = OP_0 then Some 0
      else if \<not> (opcode \<ge> OP_1 \<and> opcode \<le> OP_16) then None
      else Some (opcode - (OP_1 - 1)))"

definition EncodeOP_N :: "int \<Rightarrow> opcodetype option" where
  "EncodeOP_N n =
     (if \<not> (n \<ge> 0 \<and> n \<le> 16) then None
      else if n = 0 then Some OP_0 else Some (OP_1 + nat n - 1))"

text \<open>The inner loop of \<open>FindAndDelete\<close>: how often \<open>b\<close> is erased at \<open>pc\<close>, and what is left.\<close>

function erase_at :: "script \<Rightarrow> script \<Rightarrow> nat \<times> script" where
  "erase_at b pc =
     (if b \<noteq> [] \<and> length pc \<ge> length b \<and> take (length b) pc = b
      then (let (n, r) = erase_at b (drop (length b) pc) in (Suc n, r))
      else (0, pc))"
  by pat_completeness auto
termination
  by (relation "measure (\<lambda>(b, pc). length pc)") (auto simp: length_greater_0_conv [symmetric]
      simp del: length_greater_0_conv, linarith?)

declare erase_at.simps [simp del]

lemma erase_at_le: "length (snd (erase_at b pc)) \<le> length pc"
proof (induction b pc rule: erase_at.induct)
  case (1 b pc)
  then show ?case by (subst erase_at.simps) (auto split: prod.splits)
qed

function fad_loop :: "script \<Rightarrow> script \<Rightarrow> nat \<times> script" where
  "fad_loop b pc =
     (let (n, r) = erase_at b pc in
      case GetOp2 r of
        None \<Rightarrow> (n, r)
      | Some (_, _, r') \<Rightarrow>
          let (n', r'') = fad_loop b r' in (n + n', take (length r - length r') r @ r''))"
  by pat_completeness auto
termination
proof (relation "measure (\<lambda>(b, pc). length pc)", goal_cases)
  case (2 b pc x n r p opc y vch r')
  then have "length r \<le> length pc" using erase_at_le [of b pc] by (metis snd_conv)
  moreover have "length r' < length r" using 2 by (auto intro: GetOp2_shorter)
  ultimately show ?case by simp
qed simp

declare fad_loop.simps [simp del]

text \<open>The number of occurrences found, and the script without them.\<close>

definition FindAndDelete :: "script \<Rightarrow> script \<Rightarrow> nat \<times> script" where
  "FindAndDelete b s = (if b = [] then (0, s) else fad_loop b s)"

text \<open>
  The operations of a script up to its end, or up to where \<open>GetOp\<close> first fails; the flag tells
  which. Every loop \<open>while (pc < end()) { if (!GetOp(pc, opcode, data)) ... }\<close> goes over them.
\<close>

function script_ops :: "script \<Rightarrow> (opcodetype \<times> valtype) list \<times> bool" where
  "script_ops pc =
     (if pc = [] then ([], True)
      else case GetOp2 pc of
        None \<Rightarrow> ([], False)
      | Some (opcode, vch, pc') \<Rightarrow> (let (ops, ok) = script_ops pc' in ((opcode, vch) # ops, ok)))"
  by pat_completeness auto
termination by (relation "measure length") (auto simp: GetOp2_shorter)

declare script_ops.simps [simp del]

function Find :: "opcodetype \<Rightarrow> script \<Rightarrow> nat" where
  "Find op pc =
     (if pc = [] then 0
      else case GetOp2 pc of
        None \<Rightarrow> 0
      | Some (opcode, _, pc') \<Rightarrow> (if opcode = op then 1 else 0) + Find op pc')"
  by pat_completeness auto
termination by (relation "measure (\<lambda>(op, pc). length pc)") (auto simp: GetOp2_shorter)

declare Find.simps [simp del]

function IsPushOnly :: "script \<Rightarrow> bool" where
  "IsPushOnly pc =
     (if pc = [] then True
      else case GetOp2 pc of
        None \<Rightarrow> False
      | Some (opcode, _, pc') \<Rightarrow> (if opcode > OP_16 then False else IsPushOnly pc'))"
  by pat_completeness auto
termination by (relation "measure length") (auto simp: GetOp2_shorter)

declare IsPushOnly.simps [simp del]

definition GetID :: "external \<Rightarrow> script \<Rightarrow> uint160" where
  "GetID E s = Hash160 E s"

section \<open>Signature operations\<close>

function sigops_loop :: "bool \<Rightarrow> opcodetype \<Rightarrow> script \<Rightarrow> nat" where
  "sigops_loop fAccurate lastOpcode pc =
     (if pc = [] then 0
      else case GetOp2 pc of
        None \<Rightarrow> 0
      | Some (opcode, _, pc') \<Rightarrow>
          (if opcode = OP_CHECKSIG \<or> opcode = OP_CHECKSIGVERIFY then 1
           else if opcode = OP_CHECKMULTISIG \<or> opcode = OP_CHECKMULTISIGVERIFY then
             if fAccurate \<and> lastOpcode \<ge> OP_1 \<and> lastOpcode \<le> OP_16 then
               (case DecodeOP_N lastOpcode of Some k \<Rightarrow> k | None \<Rightarrow> 0)
             else 20
           else 0) + sigops_loop fAccurate opcode pc')"
  by pat_completeness auto
termination
  by (relation "measure (\<lambda>(a, l, pc). length pc)") (auto simp: GetOp2_shorter)

declare sigops_loop.simps [simp del]

definition GetSigOpCount :: "bool \<Rightarrow> script \<Rightarrow> nat" where
  "GetSigOpCount fAccurate s = sigops_loop fAccurate OP_INVALIDOPCODE s"

definition IsPayToScriptHash :: "script \<Rightarrow> bool" where
  "IsPayToScriptHash s \<longleftrightarrow>
     length s = 23 \<and> s ! 0 = of_nat OP_HASH160 \<and> s ! 1 = 0x14 \<and> s ! 22 = of_nat OP_EQUAL"

text \<open>The operand of the last operation of a script of pushes; \<open>None\<close> where the code returns 0.\<close>

function last_push :: "valtype \<Rightarrow> script \<Rightarrow> valtype option" where
  "last_push data pc =
     (if pc = [] then Some data
      else case GetOp2 pc of
        None \<Rightarrow> None
      | Some (opcode, data', pc') \<Rightarrow> (if opcode > OP_16 then None else last_push data' pc'))"
  by pat_completeness auto
termination by (relation "measure (\<lambda>(d, pc). length pc)") (auto simp: GetOp2_shorter)

declare last_push.simps [simp del]

definition GetSigOpCount_P2SH :: "script \<Rightarrow> script \<Rightarrow> nat" where
  "GetSigOpCount_P2SH s scriptSig =
     (if \<not> IsPayToScriptHash s then GetSigOpCount True s
      else case last_push [] scriptSig of None \<Rightarrow> 0 | Some data \<Rightarrow> GetSigOpCount True data)"

function HasCanonicalPushes :: "script \<Rightarrow> bool" where
  "HasCanonicalPushes pc =
     (if pc = [] then True
      else case GetOp2 pc of
        None \<Rightarrow> False
      | Some (opcode, data, pc') \<Rightarrow>
          if opcode > OP_16 then HasCanonicalPushes pc'
          else if opcode < OP_PUSHDATA1 \<and> opcode > OP_0 \<and> (length data = 1 \<and> data ! 0 \<le> 16) then False
          else if opcode = OP_PUSHDATA1 \<and> length data < OP_PUSHDATA1 then False
          else if opcode = OP_PUSHDATA2 \<and> length data \<le> 0xFF then False
          else if opcode = OP_PUSHDATA4 \<and> length data \<le> 0xFFFF then False
          else HasCanonicalPushes pc')"
  by pat_completeness auto
termination by (relation "measure length") (auto simp: GetOp2_shorter)

declare HasCanonicalPushes.simps [simp del]

section \<open>Destinations\<close>

datatype CTxDestination = CNoDestination | KeyID uint160 | ScriptID uint160

fun SetDestination :: "CTxDestination \<Rightarrow> script" where
  "SetDestination CNoDestination = []"
| "SetDestination (KeyID keyID) =
     push_opcode (push_opcode (push_uint160 (push_opcode (push_opcode [] OP_DUP) OP_HASH160) keyID)
       OP_EQUALVERIFY) OP_CHECKSIG"
| "SetDestination (ScriptID scriptID) =
     push_opcode (push_uint160 (push_opcode [] OP_HASH160) scriptID) OP_EQUAL"

text \<open>\<open>None\<close>: an assert of \<open>EncodeOP_N\<close> fails.\<close>

definition SetMultisig :: "int \<Rightarrow> pubkey list \<Rightarrow> script option" where
  "SetMultisig nRequired keys =
     (case EncodeOP_N nRequired of None \<Rightarrow> None
      | Some m \<Rightarrow>
          (case EncodeOP_N (int (length keys)) of None \<Rightarrow> None
           | Some n \<Rightarrow> Some (push_opcode (push_opcode (foldl push_key (push_opcode [] m) keys) n)
                              OP_CHECKMULTISIG)))"

section \<open>Compact script serialization\<close>

definition IsToKeyID :: "script \<Rightarrow> uint160 option" where
  "IsToKeyID s =
     (if length s = 25 \<and> s ! 0 = of_nat OP_DUP \<and> s ! 1 = of_nat OP_HASH160 \<and> s ! 2 = 20 \<and>
         s ! 23 = of_nat OP_EQUALVERIFY \<and> s ! 24 = of_nat OP_CHECKSIG
      then Some (of_nat (le_val (take 20 (drop 3 s)))) else None)"

definition IsToScriptID :: "script \<Rightarrow> uint160 option" where
  "IsToScriptID s =
     (if length s = 23 \<and> s ! 0 = of_nat OP_HASH160 \<and> s ! 1 = 20 \<and> s ! 22 = of_nat OP_EQUAL
      then Some (of_nat (le_val (take 20 (drop 2 s)))) else None)"

definition IsToPubKey :: "external \<Rightarrow> script \<Rightarrow> pubkey option" where
  "IsToPubKey E s =
     (if length s = 35 \<and> s ! 0 = 33 \<and> s ! 34 = of_nat OP_CHECKSIG \<and> (s ! 1 = 0x02 \<or> s ! 1 = 0x03)
      then Some (CPubKey (take 33 (drop 1 s)))
      else if length s = 67 \<and> s ! 0 = 65 \<and> s ! 66 = of_nat OP_CHECKSIG \<and> s ! 1 = 0x04
      then (let pubkey = CPubKey (take 65 (drop 1 s)) in
            if pk_IsFullyValid E pubkey then Some pubkey else None)
      else None)"

definition Compress :: "external \<Rightarrow> script \<Rightarrow> byte list option" where
  "Compress E s =
     (case IsToKeyID s of Some keyID \<Rightarrow> Some (0x00 # bytes_of_uint160 keyID)
      | None \<Rightarrow>
        (case IsToScriptID s of Some scriptID \<Rightarrow> Some (0x01 # bytes_of_uint160 scriptID)
         | None \<Rightarrow>
           (case IsToPubKey E s of
              Some pubkey \<Rightarrow>
                if pubkey ! 0 = 0x02 \<or> pubkey ! 0 = 0x03 then Some (pubkey ! 0 # take 32 (drop 1 pubkey))
                else if pubkey ! 0 = 0x04 then
                  Some ((0x04 OR (pubkey ! 64 AND 0x01)) # take 32 (drop 1 pubkey))
                else None
            | None \<Rightarrow> None)))"

definition GetSpecialSize :: "nat \<Rightarrow> nat" where
  "GetSpecialSize nSize =
     (if nSize = 0 \<or> nSize = 1 then 20
      else if nSize = 2 \<or> nSize = 3 \<or> nSize = 4 \<or> nSize = 5 then 32 else 0)"

definition Decompress :: "external \<Rightarrow> nat \<Rightarrow> byte list \<Rightarrow> script option" where
  "Decompress E nSize vchIn =
     (if nSize = 0 then
        Some ([of_nat OP_DUP, of_nat OP_HASH160, 20] @ take 20 vchIn @
              [of_nat OP_EQUALVERIFY, of_nat OP_CHECKSIG])
      else if nSize = 1 then
        Some ([of_nat OP_HASH160, 20] @ take 20 vchIn @ [of_nat OP_EQUAL])
      else if nSize = 2 \<or> nSize = 3 then
        Some ([33, of_nat nSize] @ take 32 vchIn @ [of_nat OP_CHECKSIG])
      else if nSize = 4 \<or> nSize = 5 then
        (let (ok, pubkey) = pk_Decompress E (CPubKey (of_nat (nSize - 2) # take 32 vchIn)) in
         if \<not> ok then None else Some ([65] @ pk_bytes pubkey @ [of_nat OP_CHECKSIG]))
      else None)"

definition nSpecialScripts :: nat where "nSpecialScripts = 6"

definition ser_script :: "external \<Rightarrow> script \<Rightarrow> byte list" where
  "ser_script E s =
     (case Compress E s of
        Some compr \<Rightarrow> compr
      | None \<Rightarrow> WriteVarInt (ucast (of_nat (length s + nSpecialScripts) :: u32)) @ s)"

text \<open>
  \<open>script\<close> is the object read into, which keeps its value when \<open>Decompress\<close> fails. The size is an
  \<open>unsigned int\<close>, whose shifts and increments are those of the 64-bit number reduced to 32 bits.
\<close>

definition unser_script :: "external \<Rightarrow> script \<Rightarrow> script reader" where
  "unser_script E script s =
     (case ReadVarInt s of None \<Rightarrow> None
      | Some (n, r) \<Rightarrow>
          let nSize = unat (ucast n :: u32) in
          if nSize < nSpecialScripts then
            (case stream_read (GetSpecialSize nSize) r of None \<Rightarrow> None
             | Some (vch, r') \<Rightarrow>
                 (case Decompress E nSize vch of Some sc \<Rightarrow> Some (sc, r') | None \<Rightarrow> Some (script, r')))
          else stream_read (nSize - nSpecialScripts) r)"

end
