(* ===== verification/ScriptLemmas.thy ===== *)
theory ScriptLemmas
  imports ScriptOps
begin

text \<open>
  Facts about scripts: pushes are decoded to the data pushed, the walks over a script are
  statements about its list of operations, \<open>FindAndDelete\<close> removes the operations equal to its
  argument, and compact script serialization is a codec.
\<close>

section \<open>Pushes and the decoder\<close>

lemma push_data_append: "push_data s b = s @ push_data [] b"
  by (simp add: push_data_def)

lemma GetOp2_push_data:
  assumes "length b < 2 ^ 32"
  shows "\<exists>opcode \<le> OP_PUSHDATA4. GetOp2 (push_data [] b @ r) = Some (opcode, b, r) \<and>
    (opcode = OP_0 \<longleftrightarrow> b = []) \<and> (opcode < OP_PUSHDATA1 \<longleftrightarrow> length b < OP_PUSHDATA1) \<and>
    (opcode = OP_PUSHDATA1 \<longrightarrow> length b \<ge> OP_PUSHDATA1) \<and>
    (opcode = OP_PUSHDATA2 \<longrightarrow> length b > 0xff) \<and> (opcode = OP_PUSHDATA4 \<longrightarrow> length b > 0xffff)"
proof -
  consider "length b < 76" | "76 \<le> length b" "length b \<le> 255"
    | "255 < length b" "length b \<le> 65535" | "65535 < length b" by linarith
  then show ?thesis
  proof cases
    case 1
    then show ?thesis by (intro exI [of _ "length b"]) (auto simp: GetOp2_def push_data_def)
  next
    case 2
    then show ?thesis by (intro exI [of _ OP_PUSHDATA1]) (auto simp: GetOp2_def push_data_def)
  next
    case 3
    then show ?thesis by (intro exI [of _ OP_PUSHDATA2]) (auto simp: GetOp2_def push_data_def)
  next
    case 4
    then show ?thesis using assms
      by (intro exI [of _ OP_PUSHDATA4]) (auto simp: GetOp2_def push_data_def)
  qed
qed

lemma GetOp2_opcode: "OP_PUSHDATA4 < opcode \<Longrightarrow> opcode < 256 \<Longrightarrow>
    GetOp2 (of_nat opcode # r) = Some (opcode, [], r)"
  by (simp add: GetOp2_def)

lemma take_drop_eq_iff:
  "(\<not> length q < n \<and> v = take n q \<and> p = drop n q) \<longleftrightarrow> (length v = n \<and> q = v @ p)"
  by auto

lemma operand_iff:
  "(if length q < n then None else Some (opc, take n q, drop n q)) = Some (opcode, v, p) \<longleftrightarrow>
     opcode = opc \<and> length v = n \<and> q = v @ p"
  using take_drop_eq_iff [of q n v p] by (auto simp del: take_drop_eq_iff)

lemma GetOp2_iff:
  "GetOp2 (b # q) = Some (opcode, v, p) \<longleftrightarrow>
     opcode = unat b \<and>
     (if opcode > OP_PUSHDATA4 then v = [] \<and> q = p
      else \<exists>h. q = h @ v @ p \<and>
        (if opcode < OP_PUSHDATA1 then h = [] \<and> length v = opcode
         else length h = (if opcode = OP_PUSHDATA1 then 1 else if opcode = OP_PUSHDATA2 then 2 else 4) \<and>
           length v = le_val h))"
proof -
  have hdr: "(if length q < n then None else (if length (drop n q) < le_val (take n q) then None
        else Some (opc, take (le_val (take n q)) (drop n q), drop (le_val (take n q)) (drop n q))))
        = Some (opcode, v, p) \<longleftrightarrow>
      opcode = opc \<and> (\<exists>h. q = h @ v @ p \<and> length h = n \<and> length v = le_val h)" for n opc
  proof (cases "length q < n")
    case False
    show ?thesis unfolding operand_iff if_not_P [OF False]
      using False by (metis append_take_drop_id append_eq_conv_conj length_take min.absorb2 not_less)
  qed auto
  consider "unat b > 78" | "unat b < 76" | "unat b = 76" | "unat b = 77" | "unat b = 78" by linarith
  then show ?thesis
  proof cases
    case 1
    then show ?thesis by (auto simp: GetOp2_def)
  next
    case 2
    then have "GetOp2 (b # q) = (if length q < unat b then None
        else Some (unat b, take (unat b) q, drop (unat b) q))"
      by (simp add: GetOp2_def Let_def)
    then show ?thesis using 2 by (auto simp only: operand_iff) auto
  next
    case 3
    then have "GetOp2 (b # q) = (if length q < 1 then None
        else if length (drop 1 q) < le_val (take 1 q) then None
        else Some (76, take (le_val (take 1 q)) (drop 1 q), drop (le_val (take 1 q)) (drop 1 q)))"
      by (cases q) (simp_all add: GetOp2_def)
    then show ?thesis using 3 by (simp only: hdr) auto
  next
    case 4
    then have "GetOp2 (b # q) = (if length q < 2 then None
        else if length (drop 2 q) < le_val (take 2 q) then None
        else Some (77, take (le_val (take 2 q)) (drop 2 q), drop (le_val (take 2 q)) (drop 2 q)))"
      by (simp add: GetOp2_def)
    then show ?thesis using 4 by (simp only: hdr) auto
  next
    case 5
    then have "GetOp2 (b # q) = (if length q < 4 then None
        else if length (drop 4 q) < le_val (take 4 q) then None
        else Some (78, take (le_val (take 4 q)) (drop 4 q), drop (le_val (take 4 q)) (drop 4 q)))"
      by (simp add: GetOp2_def)
    then show ?thesis using 5 by (simp only: hdr) auto
  qed
qed

text \<open>Decoding consumes a prefix and reads nothing after it.\<close>

lemma GetOp2_prefix:
  assumes "GetOp2 pc = Some (opcode, vch, pc')"
  obtains c where "c \<noteq> []" "pc = c @ pc'" "\<And>r. GetOp2 (c @ r) = Some (opcode, vch, r)"
proof (cases pc)
  case (Cons b q)
  show thesis
  proof (cases "opcode > OP_PUSHDATA4")
    case True
    then show thesis using assms that [of "[b]"] by (simp add: Cons GetOp2_iff)
  next
    case False
    then obtain h where h: "q = h @ vch @ pc'" "opcode = unat b"
        "if opcode < OP_PUSHDATA1 then h = [] \<and> length vch = opcode
         else length h = (if opcode = OP_PUSHDATA1 then 1 else if opcode = OP_PUSHDATA2 then 2 else 4) \<and>
           length vch = le_val h"
      using assms unfolding Cons GetOp2_iff by auto
    have "GetOp2 ((b # h @ vch) @ r) = Some (opcode, vch, r)" for r
      using h(2,3) False unfolding append_Cons GetOp2_iff by auto
    then show thesis using that [of "b # h @ vch"] h(1) Cons by simp
  qed
qed (use assms in \<open>simp add: GetOp2_def\<close>)

section \<open>The operations of a script\<close>

definition single_op :: "script \<Rightarrow> bool" where
  "single_op c \<longleftrightarrow> (\<exists>opcode v. GetOp2 c = Some (opcode, v, []))"

text \<open>The encoded operations of a script, and the rest that cannot be decoded.\<close>

function raw_ops :: "script \<Rightarrow> script list \<times> script" where
  "raw_ops pc =
     (case GetOp2 pc of
        None \<Rightarrow> ([], pc)
      | Some (opcode, v, pc') \<Rightarrow>
          (let (cs, t) = raw_ops pc' in (take (length pc - length pc') pc # cs, t)))"
  by pat_completeness auto
termination by (relation "measure length") (auto simp: GetOp2_shorter)

declare raw_ops.simps [simp del]

lemma single_op_append: "single_op c \<Longrightarrow> \<exists>opcode v. \<forall>r. GetOp2 (c @ r) = Some (opcode, v, r)"
proof -
  assume "single_op c"
  then obtain opcode v where c: "GetOp2 c = Some (opcode, v, [])" by (auto simp: single_op_def)
  obtain d where "c = d @ []" "\<And>r. GetOp2 (d @ r) = Some (opcode, v, r)"
    using GetOp2_prefix [OF c] by metis
  then show ?thesis by auto
qed

lemma single_op_ne [simp]: "single_op c \<Longrightarrow> c \<noteq> []"
  by (auto simp: single_op_def GetOp2_def)

lemma raw_ops_stop: "GetOp2 pc = None \<Longrightarrow> raw_ops pc = ([], pc)"
  by (subst raw_ops.simps) simp

lemma raw_ops_step:
  "GetOp2 (c @ r) = Some (opcode, v, r) \<Longrightarrow>
     raw_ops (c @ r) = (c # fst (raw_ops r), snd (raw_ops r))"
  by (subst raw_ops.simps) (simp add: split_beta)

lemma raw_ops_single: "single_op c \<Longrightarrow> raw_ops (c @ r) = (c # fst (raw_ops r), snd (raw_ops r))"
  using single_op_append [of c] raw_ops_step [of c r] by blast

lemma raw_ops_concat:
  "list_all single_op cs \<Longrightarrow> GetOp2 t = None \<Longrightarrow> raw_ops (concat cs @ t) = (cs, t)"
  by (induction cs) (simp_all add: raw_ops_single raw_ops_stop)

lemma raw_ops_spec: "raw_ops pc = (cs, t) \<Longrightarrow>
    pc = concat cs @ t \<and> list_all single_op cs \<and> GetOp2 t = None"
proof (induction pc arbitrary: cs rule: raw_ops.induct)
  case (1 pc)
  show ?case
  proof (cases "GetOp2 pc")
    case None
    then show ?thesis using "1.prems" by (simp add: raw_ops_stop)
  next
    case (Some x)
    then obtain opcode v pc' where x: "GetOp2 pc = Some (opcode, v, pc')" by (cases x) auto
    obtain c where c: "pc = c @ pc'" "\<And>r. GetOp2 (c @ r) = Some (opcode, v, r)"
      using GetOp2_prefix [OF x] by metis
    then have "single_op c" unfolding single_op_def using c(2) [of "[]"] by auto
    obtain cs' where cs': "raw_ops pc' = (cs', t)" "cs = c # cs'"
      using "1.prems" raw_ops_step [OF c(2)] c(1) by (cases "raw_ops pc'") auto
    show ?thesis using "1.IH" [OF x refl refl cs'(1)] c(1) cs'(2) \<open>single_op c\<close> by simp
  qed
qed

lemma erase_at_miss: "\<not> (length b \<le> length pc \<and> take (length b) pc = b) \<Longrightarrow> erase_at b pc = (0, pc)"
  by (subst erase_at.simps) auto

lemma erase_at_hit: "b \<noteq> [] \<Longrightarrow> erase_at b (b @ r) = (let (n, s) = erase_at b r in (Suc n, s))"
  by (subst erase_at.simps) simp

lemma fad_loop_stop:
  "erase_at b pc = (n, r) \<Longrightarrow> GetOp2 r = None \<Longrightarrow> fad_loop b pc = (n, r)"
  by (subst fad_loop.simps) simp

lemma fad_loop_step:
  "erase_at b pc = (n, c @ r) \<Longrightarrow> GetOp2 (c @ r) = Some (opcode, v, r) \<Longrightarrow>
     fad_loop b pc = (n + fst (fad_loop b r), c @ snd (fad_loop b r))"
  by (subst fad_loop.simps) (simp add: split_beta)

lemma fad_loop_hit:
  assumes "b \<noteq> []"
  shows "fad_loop b (b @ r) = (Suc (fst (fad_loop b r)), snd (fad_loop b r))"
proof -
  obtain n q where e: "erase_at b r = (n, q)" by (cases "erase_at b r")
  then have e': "erase_at b (b @ r) = (Suc n, q)" using assms by (simp add: erase_at_hit)
  show ?thesis
  proof (cases "GetOp2 q")
    case None
    then show ?thesis using fad_loop_stop [OF e] fad_loop_stop [OF e'] by simp
  next
    case (Some x)
    then obtain opcode v p where x: "GetOp2 q = Some (opcode, v, p)" by (cases x) auto
    obtain c where c: "q = c @ p" using GetOp2_prefix [OF x] by metis
    then show ?thesis using fad_loop_step [of b r n c p] fad_loop_step [of b "b @ r" "Suc n" c p] e e' x
      by simp
  qed
qed

lemma fad_loop_raw:
  assumes "single_op b"
  shows "raw_ops s = (cs, t) \<Longrightarrow>
    fad_loop b s = (count_list cs b, concat (filter (\<lambda>c. c \<noteq> b) cs) @ t)"
proof (induction cs arbitrary: s)
  case Nil
  have s: "s = t" "GetOp2 t = None" using raw_ops_spec [OF Nil] by auto
  have "\<not> (length b \<le> length s \<and> take (length b) s = b)"
  proof
    assume "length b \<le> length s \<and> take (length b) s = b"
    then have "s = b @ drop (length b) s" by (metis append_take_drop_id)
    then show False using s single_op_append [OF assms] by (metis option.distinct(1))
  qed
  then show ?case using s fad_loop_stop [OF erase_at_miss] by simp
next
  case (Cons c cs)
  have s: "s = c @ concat cs @ t" "single_op c" "list_all single_op cs" "GetOp2 t = None"
    using raw_ops_spec [OF Cons.prems] by auto
  have rest: "raw_ops (concat cs @ t) = (cs, t)" using s by (intro raw_ops_concat)
  note IH = Cons.IH [OF rest]
  show ?case
  proof (cases "c = b")
    case True
    then show ?thesis using s(1) IH single_op_ne [OF s(2)] by (simp add: fad_loop_hit)
  next
    case False
    obtain opcode v where c: "\<And>r. GetOp2 (c @ r) = Some (opcode, v, r)"
      using single_op_append [OF s(2)] by blast
    have "\<not> (length b \<le> length s \<and> take (length b) s = b)"
    proof
      assume "length b \<le> length s \<and> take (length b) s = b"
      then have "s = b @ drop (length b) s" by (metis append_take_drop_id)
      then have "fst (raw_ops s) = b # fst (raw_ops (drop (length b) s))"
        using raw_ops_single [OF assms] by (metis fst_conv)
      then show False using Cons.prems False by simp
    qed
    then show ?thesis using s(1) fad_loop_step [OF _ c, of b s 0 "concat cs @ t"] IH False
      by (simp add: erase_at_miss)
  qed
qed

text \<open>
  Deleting one operation (a push of a signature, \<open>OP_CODESEPARATOR\<close>) removes exactly the
  operations equal to it, and counts them.
\<close>

lemma FindAndDelete_single:
  assumes "single_op b"
  shows "FindAndDelete b s =
    (count_list (fst (raw_ops s)) b,
     concat (filter (\<lambda>c. c \<noteq> b) (fst (raw_ops s))) @ snd (raw_ops s))"
  using fad_loop_raw [OF assms, of s "fst (raw_ops s)" "snd (raw_ops s)"] single_op_ne [OF assms]
  by (simp add: FindAndDelete_def)

lemma FindAndDelete_none_left:
  assumes "single_op b"
  shows "raw_ops (snd (FindAndDelete b s)) =
    (filter (\<lambda>c. c \<noteq> b) (fst (raw_ops s)), snd (raw_ops s))"
proof -
  have "list_all single_op (fst (raw_ops s))" "GetOp2 (snd (raw_ops s)) = None"
    using raw_ops_spec [of s] by (metis prod.collapse)+
  then show ?thesis using FindAndDelete_single [OF assms, of s]
    by (simp add: raw_ops_concat list_all_iff)
qed

section \<open>Pushes\<close>

lemma GetOp2_push_dataE:
  assumes "length b < 2 ^ 32"
  obtains opcode where "opcode \<le> OP_PUSHDATA4" "\<And>r. GetOp2 (push_data [] b @ r) = Some (opcode, b, r)"
proof -
  obtain opcode where o: "opcode \<le> OP_PUSHDATA4" "GetOp2 (push_data [] b @ []) = Some (opcode, b, [])"
    using GetOp2_push_data [OF assms, of "[]"] by blast
  obtain c where "push_data [] b @ [] = c @ []" "\<And>r. GetOp2 (c @ r) = Some (opcode, b, r)"
    using GetOp2_prefix [OF o(2)] by metis
  then show thesis using that [OF o(1)] by simp
qed

lemma single_op_push_data: "length b < 2 ^ 32 \<Longrightarrow> single_op (push_data [] b)"
  using GetOp2_push_data [of b "[]"] by (auto simp: single_op_def)

lemma push_data_ne [simp]: "push_data [] b \<noteq> []"
  by (simp add: push_data_def)

lemma IsPushOnly_push_data [simp]:
  "length b < 2 ^ 32 \<Longrightarrow> IsPushOnly (push_data [] b @ r) = IsPushOnly r"
  by (erule GetOp2_push_dataE, subst IsPushOnly.simps) simp

lemma IsPushOnly_Nil [simp]: "IsPushOnly []" "HasCanonicalPushes []"
  by (simp_all add: IsPushOnly.simps HasCanonicalPushes.simps)

lemma HasCanonicalPushes_push_data:
  assumes "length b < 2 ^ 32"
  shows "HasCanonicalPushes (push_data [] b @ r) \<longleftrightarrow>
    \<not> (length b = 1 \<and> b ! 0 \<le> 16) \<and> HasCanonicalPushes r"
proof -
  obtain opcode where o: "opcode \<le> OP_PUSHDATA4" "GetOp2 (push_data [] b @ r) = Some (opcode, b, r)"
    "opcode = OP_0 \<longleftrightarrow> b = []" "opcode < OP_PUSHDATA1 \<longleftrightarrow> length b < OP_PUSHDATA1"
    "opcode = OP_PUSHDATA1 \<longrightarrow> length b \<ge> OP_PUSHDATA1"
    "opcode = OP_PUSHDATA2 \<longrightarrow> length b > 0xff" "opcode = OP_PUSHDATA4 \<longrightarrow> length b > 0xffff"
    using GetOp2_push_data [OF assms, of r] by (elim exE conjE) (rule that)
  have "opcode < OP_PUSHDATA1 \<and> opcode > OP_0" if "length b = 1"
  proof -
    have "b \<noteq> []" using that by auto
    then show ?thesis using o(3,4) that by linarith
  qed
  then have "opcode < OP_PUSHDATA1 \<and> opcode > OP_0 \<and> (length b = 1 \<and> b ! 0 \<le> 16) \<longleftrightarrow>
      length b = 1 \<and> b ! 0 \<le> 16" by blast
  moreover have "\<not> (opcode = OP_PUSHDATA1 \<and> length b < OP_PUSHDATA1)"
    "\<not> (opcode = OP_PUSHDATA2 \<and> length b \<le> 0xFF)" "\<not> (opcode = OP_PUSHDATA4 \<and> length b \<le> 0xFFFF)"
    "\<not> opcode > OP_16" using o(1,5-7) by auto
  ultimately show ?thesis
    by (subst HasCanonicalPushes.simps, simp only: o(2) append_is_Nil_conv push_data_ne
        option.case prod.case if_False simp_thms if_cancel split: if_split) blast
qed

lemma HasCanonicalPushes_op:
  assumes "OP_PUSHDATA4 < opcode" "opcode < 256"
  shows "HasCanonicalPushes (of_nat opcode # r) \<longleftrightarrow> HasCanonicalPushes r"
  using assms by (subst HasCanonicalPushes.simps) (simp add: GetOp2_opcode)

lemma IsPushOnly_op:
  assumes "OP_PUSHDATA4 < opcode" "opcode \<le> OP_16"
  shows "IsPushOnly (of_nat opcode # r) \<longleftrightarrow> IsPushOnly r"
  using assms by (subst IsPushOnly.simps) (simp add: GetOp2_opcode)

text \<open>A number pushed onto a script is always a canonical push.\<close>

lemma push_int64_canonical:
  assumes "bn_ok E" "is_int64 n" "length (mpi_bytes n) < 2 ^ 32"
  shows "HasCanonicalPushes (push_int64 E [] n)" "IsPushOnly (push_int64 E [] n)"
proof -
  have n: "bn_of_int E n = n" using assms(1,2) by (simp add: is_int64_def)
  have g: "getvch E n = rev (mpi_bytes n)" using assms(1) by (rule getvch_eq)
  have big: "16 < b" if "mpi_bytes n = [b]" "\<not> (1 \<le> n \<and> n \<le> 16)" for b
  proof -
    have v: "mpi_val [b] = n" using mpi_val_mpi_bytes [of n] that(1) by simp
    then have "bit b 7 \<or> n = int (unat b)" by (auto simp: be_val_def bit7_iff split: if_splits)
    moreover have "n \<noteq> 0" using that(1) by (auto simp: mpi_bytes_def)
    ultimately have "16 < unat b" using that(2) by (auto simp: bit7_unat simp del: of_nat_unat)
    then show ?thesis by (simp add: word_less_nat_alt)
  qed
  show "HasCanonicalPushes (push_int64 E [] n)"
  proof (cases "n = -1 \<or> (n \<ge> 1 \<and> n \<le> 16)")
    case True
    then have "push_int64 E [] n = [of_nat (nat (n + 80))]"
      by (auto simp: push_int64_def)
    moreover have "OP_PUSHDATA4 < nat (n + 80)" "nat (n + 80) < 256" using True by auto
    ultimately show ?thesis using HasCanonicalPushes_op [of "nat (n + 80)" "[]"] by simp
  next
    case False
    then have "\<not> (length (getvch E n) = 1 \<and> getvch E n ! 0 \<le> 16)"
      using big unfolding g by (auto simp: length_Suc_conv not_le)
    then have "HasCanonicalPushes (push_data [] (getvch E n))"
      using HasCanonicalPushes_push_data [of "getvch E n" "[]"] assms(3) by (simp add: g)
    then show ?thesis using False unfolding push_int64_def n by (simp only: if_False)
  qed
  show "IsPushOnly (push_int64 E [] n)"
  proof (cases "n = -1 \<or> (n \<ge> 1 \<and> n \<le> 16)")
    case True
    then have "push_int64 E [] n = [of_nat (nat (n + 80))]" "OP_PUSHDATA4 < nat (n + 80)"
      "nat (n + 80) \<le> OP_16"
      by (auto simp: push_int64_def)
    then show ?thesis using IsPushOnly_op [of "nat (n + 80)" "[]"] by simp
  next
    case False
    moreover have "IsPushOnly (push_data [] (getvch E n))"
      using IsPushOnly_push_data [of "getvch E n" "[]"] assms(3) by (simp add: g)
    ultimately show ?thesis unfolding push_int64_def n by (simp only: if_False)
  qed
qed

section \<open>Signature operations\<close>

lemma sigops_bound: "sigops_loop acc lastOp pc \<le> 20 * length pc"
proof (induction acc lastOp pc rule: sigops_loop.induct)
  case (1 acc lastOp pc)
  show ?case
  proof (cases "GetOp2 pc")
    case (Some x)
    then obtain opcode v pc' where x: "GetOp2 pc = Some (opcode, v, pc')" by (cases x) auto
    then have "length pc' < length pc" "pc \<noteq> []" by (auto simp: GetOp2_shorter GetOp2_def)
    then show ?thesis using 1 x
      by (subst sigops_loop.simps) (fastforce simp: DecodeOP_N_def)
  qed (simp add: sigops_loop.simps)
qed

lemma sigops_accurate_le: "sigops_loop True lastOp pc \<le> sigops_loop False lastOp pc"
proof (induction True lastOp pc rule: sigops_loop.induct)
  case (1 lastOp pc)
  show ?case
  proof (cases "GetOp2 pc")
    case (Some x)
    then obtain opcode v pc' where x: "GetOp2 pc = Some (opcode, v, pc')" by (cases x) auto
    show ?thesis using 1 x
      by (subst (1 2) sigops_loop.simps) (fastforce simp: DecodeOP_N_def)
  qed (simp add: sigops_loop.simps)
qed

lemma DecodeOP_N_EncodeOP_N:
  "0 \<le> n \<Longrightarrow> n \<le> 16 \<Longrightarrow> \<exists>opc. EncodeOP_N n = Some opc \<and> DecodeOP_N opc = Some (nat n)"
  by (auto simp: EncodeOP_N_def DecodeOP_N_def)

section \<open>Compact script serialization\<close>

lemma bytes_of_uint160_of_bytes:
  "length h = 20 \<Longrightarrow> bytes_of_uint160 (of_nat (le_val h)) = h"
  using le_val_bound [of h] le_bytes_le_val [of h]
  by (simp add: bytes_of_uint160_def unat_of_nat)

lemma split_frame:
  assumes "length s = a + n + b"
  shows "s = take a s @ take n (drop a s) @ drop (a + n) s"
  using assms by (metis append_take_drop_id drop_drop add.commute)

lemma take_nths:
  "1 \<le> length s \<Longrightarrow> take 1 s = [s ! 0]" "2 \<le> length s \<Longrightarrow> take 2 s = [s ! 0, s ! 1]"
  "3 \<le> length s \<Longrightarrow> take 3 s = [s ! 0, s ! 1, s ! 2]"
  by (auto simp: numeral_eq_Suc length_ge_Suc)

lemma drop_nths:
  "length s = n + 1 \<Longrightarrow> drop n s = [s ! n]" "length s = n + 2 \<Longrightarrow> drop n s = [s ! n, s ! (n + 1)]"
proof -
  show "length s = n + 1 \<Longrightarrow> drop n s = [s ! n]" by (simp add: Cons_nth_drop_Suc [symmetric])
  show "length s = n + 2 \<Longrightarrow> drop n s = [s ! n, s ! (n + 1)]"
    by (simp add: Cons_nth_drop_Suc [symmetric])
qed

lemma IsToKeyID_iff:
  "IsToKeyID s = Some keyID \<longleftrightarrow>
     s = [of_nat OP_DUP, of_nat OP_HASH160, 20] @ bytes_of_uint160 keyID @
         [of_nat OP_EQUALVERIFY, of_nat OP_CHECKSIG]"
proof
  assume a: "IsToKeyID s = Some keyID"
  then have l: "length s = 3 + 20 + 2" and k: "keyID = of_nat (le_val (take 20 (drop 3 s)))"
    by (auto simp: IsToKeyID_def split: if_splits)
  have "s = take 3 s @ take 20 (drop 3 s) @ drop 23 s" using split_frame [OF l] by simp
  also have "take 3 s = [s ! 0, s ! 1, s ! 2]" using l by (intro take_nths) simp
  also have "drop 23 s = [s ! 23, s ! 24]" using drop_nths(2) [of s 23] l by simp
  also have "take 20 (drop 3 s) = bytes_of_uint160 keyID"
    using l unfolding k by (simp add: bytes_of_uint160_of_bytes)
  finally show "s = [of_nat OP_DUP, of_nat OP_HASH160, 20] @ bytes_of_uint160 keyID @
         [of_nat OP_EQUALVERIFY, of_nat OP_CHECKSIG]"
    using a by (auto simp: IsToKeyID_def split: if_splits)
qed (simp add: IsToKeyID_def nth_append)

lemma IsToScriptID_iff:
  "IsToScriptID s = Some scriptID \<longleftrightarrow>
     s = [of_nat OP_HASH160, 20] @ bytes_of_uint160 scriptID @ [of_nat OP_EQUAL]"
proof
  assume a: "IsToScriptID s = Some scriptID"
  then have l: "length s = 2 + 20 + 1" and k: "scriptID = of_nat (le_val (take 20 (drop 2 s)))"
    by (auto simp: IsToScriptID_def split: if_splits)
  have "s = take 2 s @ take 20 (drop 2 s) @ drop 22 s" using split_frame [OF l] by simp
  also have "take 2 s = [s ! 0, s ! 1]" using l by (intro take_nths) simp
  also have "drop 22 s = [s ! 22]" using drop_nths(1) [of s 22] l by simp
  also have "take 20 (drop 2 s) = bytes_of_uint160 scriptID"
    using l unfolding k by (simp add: bytes_of_uint160_of_bytes)
  finally show "s = [of_nat OP_HASH160, 20] @ bytes_of_uint160 scriptID @ [of_nat OP_EQUAL]"
    using a by (auto simp: IsToScriptID_def split: if_splits)
qed (simp add: IsToScriptID_def nth_append)

lemma IsToPubKey_shape:
  assumes "IsToPubKey E s = Some pk"
  shows "(\<exists>p x. (p = 2 \<or> p = 3) \<and> length x = 32 \<and> pk = p # x \<and>
            s = [33, p] @ x @ [of_nat OP_CHECKSIG]) \<or>
    (\<exists>x y. length x = 32 \<and> length y = 32 \<and> pk = 4 # x @ y \<and> EC_set_pubkey E pk \<and>
            s = 65 # pk @ [of_nat OP_CHECKSIG])"
proof (cases "length s = 35")
  case True
  then have l: "length s = 2 + 32 + 1" by simp
  have s: "s = take 2 s @ take 32 (drop 2 s) @ drop 34 s" using split_frame [OF l] by simp
  also have "take 2 s = [s ! 0, s ! 1]" using l by (intro take_nths) simp
  also have "drop 34 s = [s ! 34]" using drop_nths(1) [of s 34] l by simp
  finally have s: "s = [s ! 0, s ! 1] @ take 32 (drop 2 s) @ [s ! 34]" .
  have h: "s ! 0 = 33" "s ! 34 = of_nat OP_CHECKSIG" "s ! 1 = 2 \<or> s ! 1 = 3"
      "pk = CPubKey (take 33 (drop 1 s))"
    using assms True by (auto simp: IsToPubKey_def split: if_splits)
  have "drop 1 s = s ! 1 # drop 2 s" using True by (simp add: Cons_nth_drop_Suc numeral_2_eq_2)
  then have "pk = s ! 1 # take 32 (drop 2 s)"
    using h(3,4) True by (auto simp: CPubKey_def GetLen_def Let_def)
  with s h True show ?thesis by (intro disjI1 exI [of _ "s ! 1"] exI [of _ "take 32 (drop 2 s)"]) simp
next
  case False
  then have h: "length s = 67" "s ! 0 = 65" "s ! 66 = of_nat OP_CHECKSIG" "s ! 1 = 4"
      "pk_IsFullyValid E (CPubKey (take 65 (drop 1 s)))" "pk = CPubKey (take 65 (drop 1 s))"
    using assms by (auto simp: IsToPubKey_def Let_def split: if_splits)
  have d: "drop 1 s = s ! 1 # drop 2 s" using h(1) by (simp add: Cons_nth_drop_Suc numeral_2_eq_2)
  then have pk: "pk = 4 # take 64 (drop 2 s)"
    using h by (auto simp: CPubKey_def GetLen_def Let_def)
  have "take 64 (drop 2 s) = take 32 (drop 2 s) @ take 32 (drop 34 s)"
    using take_add [of 32 32 "drop 2 s"] by simp
  then have pk': "pk = 4 # take 32 (drop 2 s) @ take 32 (drop 34 s)" using pk by simp
  have v: "EC_set_pubkey E pk"
    using h(5) pk unfolding h(6) [symmetric]
    by (simp add: pk_IsFullyValid_def pk_IsValid_def pk_bytes_def pk_size_def GetLen_def h(1) split: if_splits)
  have l: "length s = 1 + 65 + 1" using h(1) by simp
  have "s = take 1 s @ take 65 (drop 1 s) @ drop 66 s" using split_frame [OF l] by simp
  also have "take 1 s = [s ! 0]" using l by (intro take_nths) simp
  also have "drop 66 s = [s ! 66]" using drop_nths(1) [of s 66] l by simp
  also have "take 65 (drop 1 s) = pk" unfolding d pk using h(4) by simp
  finally have "s = 65 # pk @ [of_nat OP_CHECKSIG]" using h(2,3) by simp
  then show ?thesis using pk' v h(1)
    by (intro disjI2 exI [of _ "take 32 (drop 2 s)"] exI [of _ "take 32 (drop 34 s)"]) simp
qed

lemma ReadVarInt_digit: "unat b < 128 \<Longrightarrow> ReadVarInt (b # r) = Some (ucast b, r)"
proof -
  assume b: "unat b < 128"
  then have "\<not> bit b 7" by (simp add: bit7_unat)
  moreover from this have "b AND 0x7f = b"
    using b by (simp add: word_unat_eq_iff unat_byte_low)
  ultimately show ?thesis using bit7_iff [of b] by (simp add: ReadVarInt_def)
qed

lemma ucast_chain:
  "(ucast (ucast (b :: byte) :: u64) :: u32) = ucast b"
  "(ucast (ucast (w :: u32) :: u64) :: u32) = w"
  by (rule bit_word_eqI; auto simp: bit_simps)+

lemma unser_special:
  assumes "nSize < 6" "length vch = GetSpecialSize nSize" "Decompress E nSize vch = Some s"
  shows "unser_script E sc (of_nat nSize # vch @ r) = Some (s, r)"
proof -
  have "unat (of_nat nSize :: byte) = nSize" using assms(1) by simp
  then have "ReadVarInt (of_nat nSize # vch @ r) = Some (ucast (of_nat nSize :: byte), vch @ r)"
    using assms(1) by (intro ReadVarInt_digit) simp
  moreover have "unat (ucast (ucast (of_nat nSize :: byte) :: u64) :: u32) = nSize"
    using assms(1) by (simp only: ucast_chain)
      (simp add: unsigned_ucast_eq take_bit_eq_mod [where 'a = nat])
  ultimately show ?thesis using assms by (simp add: unser_script_def nSpecialScripts_def)
qed

lemma unser_Compress:
  assumes "ec_ok E" "Compress E s = Some out"
  shows "unser_script E sc (out @ r) = Some (s, r)"
proof (cases "IsToKeyID s")
  case (Some keyID)
  then have "out = of_nat 0 # bytes_of_uint160 keyID" using assms(2) by (simp add: Compress_def)
  moreover have "Decompress E 0 (bytes_of_uint160 keyID) = Some s"
    using Some unfolding IsToKeyID_iff by (simp add: Decompress_def)
  ultimately show ?thesis using unser_special [of 0 "bytes_of_uint160 keyID" E s sc r]
    by (simp add: GetSpecialSize_def)
next
  case nk: None
  show ?thesis
  proof (cases "IsToScriptID s")
    case (Some scriptID)
    then have "out = of_nat 1 # bytes_of_uint160 scriptID"
      using assms(2) nk by (simp add: Compress_def)
    moreover have "Decompress E 1 (bytes_of_uint160 scriptID) = Some s"
      using Some unfolding IsToScriptID_iff by (simp add: Decompress_def)
    ultimately show ?thesis using unser_special [of 1 "bytes_of_uint160 scriptID" E s sc r]
      by (simp add: GetSpecialSize_def)
  next
    case ns: None
    then obtain pk where pk: "IsToPubKey E s = Some pk"
      using assms(2) nk by (auto simp: Compress_def split: option.splits)
    from IsToPubKey_shape [OF pk] consider
      p x where "p = 2 \<or> p = 3" "length x = 32" "pk = p # x" "s = [33, p] @ x @ [of_nat OP_CHECKSIG]"
      | x y where "length x = 32" "length y = 32" "pk = 4 # x @ y" "EC_set_pubkey E pk"
          "s = 65 # pk @ [of_nat OP_CHECKSIG]"
      by blast
    then show ?thesis
    proof cases
      case h: (1 p x)
      then have p: "p = of_nat (unat p)" "unat p = 2 \<or> unat p = 3" by auto
      have "out = of_nat (unat p) # x" using assms(2) nk ns pk h by (auto simp: Compress_def)
      moreover have "Decompress E (unat p) x = Some s" using h p by (auto simp: Decompress_def)
      ultimately show ?thesis using unser_special [of "unat p" x E s sc r] h(2) p(2)
        by (auto simp: GetSpecialSize_def)
    next
      case h: (2 x y)
      let ?par = "last y AND 1"
      have y: "y ! 31 = last y" using h(2) by (cases y rule: rev_cases) (auto simp: nth_append)
      have par: "?par = 0 \<or> ?par = 1" by (rule toy_parity_cases)
      have v: "EC_set_pubkey E ((2 + ?par) # x)" "EC_get_pubkey E ((2 + ?par) # x) False = pk"
        using assms(1) h unfolding ec_ok_def by auto
      have out: "out = (4 OR ?par) # x"
        using assms(2) nk ns pk h y by (simp add: Compress_def nth_append)
      have "pk_Decompress E (CPubKey ((2 + ?par) # x)) = (True, pk)"
        using v h par
        by (auto simp: pk_Decompress_def CPubKey_def GetLen_def Let_def pk_IsValid_def pk_size_def
            pk_bytes_def)
      moreover have "pk_bytes pk = pk" using h by (simp add: pk_bytes_def pk_size_def GetLen_def)
      ultimately have "Decompress E 4 x = Some s \<and> ?par = 0 \<or> Decompress E 5 x = Some s \<and> ?par = 1"
        using par h by (auto simp: Decompress_def)
      then show ?thesis
        using unser_special [of 4 x E s sc r] unser_special [of 5 x E s sc r] h(1) out
        by (auto simp: GetSpecialSize_def)
    qed
  qed
qed

text \<open>A script of less than four gigabytes survives compact serialization.\<close>

lemma unser_ser_script:
  assumes "ec_ok E" "length s + nSpecialScripts < 2 ^ 32"
  shows "unser_script E sc (ser_script E s @ r) = Some (s, r)"
proof (cases "Compress E s")
  case None
  let ?n = "length s + nSpecialScripts"
  have "unat (ucast (ucast (of_nat ?n :: u32) :: u64) :: u32) = ?n"
    using assms(2) by (simp only: ucast_chain) (simp add: unat_of_nat del: of_nat_add)
  then show ?thesis using None
    by (simp add: ser_script_def unser_script_def ReadVarInt_WriteVarInt del: of_nat_add)
qed (simp add: ser_script_def unser_Compress [OF assms(1)])

end
