(* ===== verification/Core.thy ===== *)
theory Core
  imports ScriptLemmas
begin

text \<open>
  Transactions (src/core.h, \<open>CTransaction\<close> in src/main.h): outpoints, inputs, outputs, their
  predicates and their serialization, which is proved to be a codec, and the amounts of a
  transaction. The mutable denial-of-service score of a transaction is not part of it: functions
  that raise it return the score.
\<close>

section \<open>Outpoints, inputs and outputs\<close>

record COutPoint =
  op_hash :: uint256
  op_n :: u32

definition COutPoint_null :: COutPoint where
  "COutPoint_null = \<lparr>op_hash = 0, op_n = - 1\<rparr>"

definition op_IsNull :: "COutPoint \<Rightarrow> bool" where
  "op_IsNull o' \<longleftrightarrow> op_hash o' = 0 \<and> op_n o' = - 1"

definition op_less :: "COutPoint \<Rightarrow> COutPoint \<Rightarrow> bool" where
  "op_less a b \<longleftrightarrow> op_hash a < op_hash b \<or> (op_hash a = op_hash b \<and> op_n a < op_n b)"

definition ser_outpoint :: "COutPoint \<Rightarrow> byte list" where
  "ser_outpoint o' = bytes_of_uint256 (op_hash o') @ bytes_of_u32 (op_n o')"

definition unser_outpoint :: "COutPoint reader" where
  "unser_outpoint s =
     map_option (\<lambda>((h, n), r). (\<lparr>op_hash = h, op_n = n\<rparr>, r)) (read_pair read_uint256 read_u32 s)"

record CTxIn =
  prevout :: COutPoint
  scriptSig :: script
  nSequence :: u32

definition txin_IsFinal :: "CTxIn \<Rightarrow> bool" where
  "txin_IsFinal i \<longleftrightarrow> nSequence i = - 1"

definition ser_txin :: "CTxIn \<Rightarrow> byte list" where
  "ser_txin i = ser_outpoint (prevout i) @ ser_bytes (scriptSig i) @ bytes_of_u32 (nSequence i)"

definition unser_txin :: "CTxIn reader" where
  "unser_txin s =
     map_option (\<lambda>((p, sc, q), r). (\<lparr>prevout = p, scriptSig = sc, nSequence = q\<rparr>, r))
       (read_pair unser_outpoint (read_pair unser_bytes read_u32) s)"

record CTxOut =
  nValue :: int
  scriptPubKey :: script

definition CTxOut_null :: CTxOut where
  "CTxOut_null = \<lparr>nValue = - 1, scriptPubKey = []\<rparr>"

definition txout_IsNull :: "CTxOut \<Rightarrow> bool" where
  "txout_IsNull t \<longleftrightarrow> nValue t = - 1"

definition txout_IsEmpty :: "CTxOut \<Rightarrow> bool" where
  "txout_IsEmpty t \<longleftrightarrow> nValue t = 0 \<and> scriptPubKey t = []"

definition txout_IsUnspendable :: "CTxOut \<Rightarrow> bool" where
  "txout_IsUnspendable t \<longleftrightarrow> txout_IsEmpty t \<or>
     (length (scriptPubKey t) > 0 \<and> hd (scriptPubKey t) = of_nat OP_RETURN)"

definition ser_txout :: "CTxOut \<Rightarrow> byte list" where
  "ser_txout t = bytes_of_int64 (nValue t) @ ser_bytes (scriptPubKey t)"

definition unser_txout :: "CTxOut reader" where
  "unser_txout s =
     map_option (\<lambda>((v, sc), r). (\<lparr>nValue = v, scriptPubKey = sc\<rparr>, r))
       (read_pair read_int64 unser_bytes s)"

section \<open>Transactions\<close>

record CTransaction =
  tx_nVersion :: int
  tx_nTime :: u32
  vin :: "CTxIn list"
  vout :: "CTxOut list"
  nLockTime :: u32

text \<open>\<open>sizeof(CTxIn)\<close> and \<open>sizeof(CTxOut)\<close> on the 64-bit targets.\<close>

definition sizeof_CTxIn :: nat where "sizeof_CTxIn = 72"
definition sizeof_CTxOut :: nat where "sizeof_CTxOut = 32"

definition ser_tx :: "CTransaction \<Rightarrow> byte list" where
  "ser_tx tx = bytes_of_int32 (tx_nVersion tx) @ bytes_of_u32 (tx_nTime tx) @
     ser_vector ser_txin (vin tx) @ ser_vector ser_txout (vout tx) @ bytes_of_u32 (nLockTime tx)"

definition unser_tx :: "CTransaction reader" where
  "unser_tx s =
     map_option (\<lambda>((v, t, i, o', l), r).
         (\<lparr>tx_nVersion = v, tx_nTime = t, vin = i, vout = o', nLockTime = l\<rparr>, r))
       (read_pair read_int32 (read_pair read_u32 (read_pair (unser_vector sizeof_CTxIn unser_txin)
         (read_pair (unser_vector sizeof_CTxOut unser_txout) read_u32))) s)"

definition tx_IsNull :: "CTransaction \<Rightarrow> bool" where
  "tx_IsNull tx \<longleftrightarrow> vin tx = [] \<and> vout tx = []"

definition tx_GetHash :: "external \<Rightarrow> CTransaction \<Rightarrow> uint256" where
  "tx_GetHash E tx = Hash E (ser_tx tx)"

definition IsCoinBase :: "CTransaction \<Rightarrow> bool" where
  "IsCoinBase tx \<longleftrightarrow>
     length (vin tx) = 1 \<and> op_IsNull (prevout (vin tx ! 0)) \<and> length (vout tx) \<ge> 1"

definition IsCoinStake :: "CTransaction \<Rightarrow> bool" where
  "IsCoinStake tx \<longleftrightarrow>
     length (vin tx) > 0 \<and> \<not> op_IsNull (prevout (vin tx ! 0)) \<and> length (vout tx) \<ge> 2 \<and>
     txout_IsEmpty (vout tx ! 0)"

section \<open>Amounts\<close>

definition COIN :: int where "COIN = 100000000"
definition CENT :: int where "CENT = 1000000"
definition MAX_MONEY :: int where "MAX_MONEY = 90000000 * COIN"

definition MoneyRange :: "int \<Rightarrow> bool" where
  "MoneyRange n \<longleftrightarrow> n \<ge> 0 \<and> n \<le> MAX_MONEY"

text \<open>\<open>None\<close>: \<open>GetValueOut\<close> throws because a value or a partial sum is out of range.\<close>

fun value_out_loop :: "int \<Rightarrow> CTxOut list \<Rightarrow> int option" where
  "value_out_loop nValueOut [] = Some nValueOut"
| "value_out_loop nValueOut (txout # rest) =
     (let nValueOut' = s64 (nValueOut + nValue txout) in
      if \<not> MoneyRange (nValue txout) \<or> \<not> MoneyRange nValueOut' then None
      else value_out_loop nValueOut' rest)"

definition GetValueOut :: "CTransaction \<Rightarrow> int option" where
  "GetValueOut tx = value_out_loop 0 (vout tx)"

section \<open>Serialization is a codec\<close>

lemma codec_outpoint: "codec ser_outpoint unser_outpoint (\<lambda>_. True)"
proof -
  have "codec (\<lambda>x. case (op_hash x, op_n x) of (a, b) \<Rightarrow> bytes_of_uint256 a @ bytes_of_u32 b)
      (\<lambda>s. map_option (\<lambda>(y, r). (case y of (h, n) \<Rightarrow> \<lparr>op_hash = h, op_n = n\<rparr>, r))
        (read_pair read_uint256 read_u32 s)) (\<lambda>_. True)"
    by (rule codec_map [OF codec_pair [OF codec_uint256 codec_u32]]) auto
  then show ?thesis
    by (simp add: ser_outpoint_def [abs_def] unser_outpoint_def [abs_def] case_prod_unfold)
qed

definition txin_ok :: "CTxIn \<Rightarrow> bool" where "txin_ok i \<longleftrightarrow> length (scriptSig i) \<le> MAX_SIZE"

definition txout_ok :: "CTxOut \<Rightarrow> bool" where
  "txout_ok t \<longleftrightarrow> is_int64 (nValue t) \<and> length (scriptPubKey t) \<le> MAX_SIZE"

definition tx_ok :: "CTransaction \<Rightarrow> bool" where
  "tx_ok tx \<longleftrightarrow> is_int32 (tx_nVersion tx) \<and>
     (length (vin tx) \<le> MAX_SIZE \<and> list_all txin_ok (vin tx)) \<and>
     (length (vout tx) \<le> MAX_SIZE \<and> list_all txout_ok (vout tx))"

lemma codec_txin: "codec ser_txin unser_txin txin_ok"
proof -
  have "codec (\<lambda>i. case (prevout i, scriptSig i, nSequence i) of (a, b) \<Rightarrow>
        ser_outpoint a @ (case b of (c, d) \<Rightarrow> ser_bytes c @ bytes_of_u32 d))
      (\<lambda>s. map_option (\<lambda>(y, r). (case y of (p, sc, q) \<Rightarrow>
          \<lparr>prevout = p, scriptSig = sc, nSequence = q\<rparr>, r))
        (read_pair unser_outpoint (read_pair unser_bytes read_u32) s)) txin_ok"
    by (rule codec_map [OF codec_pair [OF codec_outpoint codec_pair [OF codec_bytes codec_u32]]])
       (auto simp: txin_ok_def)
  then show ?thesis
    by (simp add: ser_txin_def [abs_def] unser_txin_def [abs_def] case_prod_unfold)
qed

lemma codec_txout: "codec ser_txout unser_txout txout_ok"
proof -
  have "codec (\<lambda>t. case (nValue t, scriptPubKey t) of (a, b) \<Rightarrow> bytes_of_int64 a @ ser_bytes b)
      (\<lambda>s. map_option (\<lambda>(y, r). (case y of (v, sc) \<Rightarrow> \<lparr>nValue = v, scriptPubKey = sc\<rparr>, r))
        (read_pair read_int64 unser_bytes s)) txout_ok"
    by (rule codec_map [OF codec_pair [OF codec_int64 codec_bytes]]) (auto simp: txout_ok_def)
  then show ?thesis
    by (simp add: ser_txout_def [abs_def] unser_txout_def [abs_def] case_prod_unfold)
qed

lemma codec_tx: "codec ser_tx unser_tx tx_ok"
proof -
  note c_in = codec_vector [OF codec_txin, of sizeof_CTxIn]
  note c_out = codec_vector [OF codec_txout, of sizeof_CTxOut]
  note c = codec_pair [OF codec_int32 codec_pair [OF codec_u32
      codec_pair [OF c_in codec_pair [OF c_out codec_u32]]]]
  have "codec (\<lambda>x. case (tx_nVersion x, tx_nTime x, vin x, vout x, nLockTime x) of (a, b) \<Rightarrow>
        bytes_of_int32 a @ (case b of (a, b) \<Rightarrow> bytes_of_u32 a @
          (case b of (a, b) \<Rightarrow> ser_vector ser_txin a @
            (case b of (a, b) \<Rightarrow> ser_vector ser_txout a @ bytes_of_u32 b))))
      (\<lambda>s. map_option (\<lambda>(y, r). (case y of (v, t, i, o', l) \<Rightarrow>
          \<lparr>tx_nVersion = v, tx_nTime = t, vin = i, vout = o', nLockTime = l\<rparr>, r))
        (read_pair read_int32 (read_pair read_u32 (read_pair (unser_vector sizeof_CTxIn unser_txin)
          (read_pair (unser_vector sizeof_CTxOut unser_txout) read_u32))) s)) tx_ok"
    by (rule codec_map [OF c]) (auto simp: tx_ok_def sizeof_CTxIn_def sizeof_CTxOut_def)
  then show ?thesis
    by (simp add: ser_tx_def [abs_def] unser_tx_def [abs_def] case_prod_unfold)
qed

interpretation outpoint: codec ser_outpoint unser_outpoint "\<lambda>_. True" by (rule codec_outpoint)
interpretation txin: codec ser_txin unser_txin txin_ok by (rule codec_txin)
interpretation txout: codec ser_txout unser_txout txout_ok by (rule codec_txout)
interpretation tx: codec ser_tx unser_tx tx_ok by (rule codec_tx)

section \<open>The value of a transaction\<close>

definition out_sum :: "CTxOut list \<Rightarrow> int" where
  "out_sum outs = sum_list (map nValue outs)"

lemma out_sum_nonneg: "list_all (\<lambda>t. MoneyRange (nValue t)) outs \<Longrightarrow> 0 \<le> out_sum outs"
  by (induction outs) (auto simp: out_sum_def MoneyRange_def)

lemma value_out_loop_iff:
  "MoneyRange n \<Longrightarrow> value_out_loop n outs = Some v \<longleftrightarrow>
     list_all (\<lambda>t. MoneyRange (nValue t)) outs \<and> v = n + out_sum outs \<and> MoneyRange v"
proof (induction outs arbitrary: n)
  case Nil
  then show ?case by (auto simp: out_sum_def)
next
  case (Cons t outs)
  show ?case
  proof (cases "MoneyRange (nValue t)")
    case True
    then have s: "s64 (n + nValue t) = n + nValue t"
      using Cons.prems by (intro s64_id) (auto simp: MoneyRange_def MAX_MONEY_def COIN_def)
    show ?thesis
    proof (cases "MoneyRange (n + nValue t)")
      case False
      then have "\<not> MoneyRange (n + out_sum (t # outs))"
        if "list_all (\<lambda>t. MoneyRange (nValue t)) outs"
        using out_sum_nonneg [OF that] Cons.prems True by (auto simp: out_sum_def MoneyRange_def)
      then show ?thesis using False s by auto
    qed (use Cons.IH [of "n + nValue t"] True s in \<open>auto simp: out_sum_def algebra_simps\<close>)
  qed auto
qed

lemma GetValueOut_iff:
  "GetValueOut tx = Some v \<longleftrightarrow>
     list_all (\<lambda>t. MoneyRange (nValue t)) (vout tx) \<and> v = out_sum (vout tx) \<and> MoneyRange v"
  using value_out_loop_iff [of 0 "vout tx" v]
  by (simp add: GetValueOut_def MoneyRange_def MAX_MONEY_def COIN_def)

end
