(* ===== verification/Sig.thy ===== *)
theory Sig
  imports Core "HOL-Library.List_Lexorder" "HOL-Library.Product_Lexorder"
begin

text \<open>
  Signature hashes, the signature cache and \<open>CheckSig\<close> (src/script.cpp). The cache is the state
  that \<open>CheckSig\<close> threads through a script; the locale \<open>sig_checker\<close> says what the interpreter
  relies on: with a cache that keeps its invariant, the answer does not depend on the cache.
\<close>

section \<open>The hash that a signature signs\<close>

abbreviation (input) SIGHASH_ALL :: int where "SIGHASH_ALL \<equiv> 1"
abbreviation (input) SIGHASH_NONE :: int where "SIGHASH_NONE \<equiv> 2"
abbreviation (input) SIGHASH_SINGLE :: int where "SIGHASH_SINGLE \<equiv> 3"
abbreviation (input) SIGHASH_ANYONECANPAY :: int where "SIGHASH_ANYONECANPAY \<equiv> 0x80"

definition blank_inputs :: "script \<Rightarrow> nat \<Rightarrow> CTxIn list \<Rightarrow> CTxIn list" where
  "blank_inputs scriptCode nIn ins =
     (let ins' = map (\<lambda>i. i\<lparr>scriptSig := []\<rparr>) ins in
      ins'[nIn := (ins' ! nIn)\<lparr>scriptSig := scriptCode\<rparr>])"

fun zero_sequences :: "nat \<Rightarrow> nat \<Rightarrow> CTxIn list \<Rightarrow> CTxIn list" where
  "zero_sequences nIn i [] = []"
| "zero_sequences nIn i (x # xs) =
     (if i \<noteq> nIn then x\<lparr>nSequence := 0\<rparr> else x) # zero_sequences nIn (i + 1) xs"

text \<open>\<open>None\<close>: the code returns 1 because there is no output of the index of the input.\<close>

definition sighash_tx :: "script \<Rightarrow> CTransaction \<Rightarrow> nat \<Rightarrow> int \<Rightarrow> CTransaction option" where
  "sighash_tx scriptCode txTo nIn nHashType =
     (let scriptCode = snd (FindAndDelete (push_opcode [] OP_CODESEPARATOR) scriptCode);
          txTmp = txTo\<lparr>vin := blank_inputs scriptCode nIn (vin txTo)\<rparr>;
          r = (if nHashType AND 0x1f = SIGHASH_NONE then
                 Some (txTmp\<lparr>vout := [], vin := zero_sequences nIn 0 (vin txTmp)\<rparr>)
               else if nHashType AND 0x1f = SIGHASH_SINGLE then
                 if nIn \<ge> length (vout txTmp) then None
                 else Some (txTmp\<lparr>
                   vout := replicate nIn CTxOut_null @ [vout txTmp ! nIn],
                   vin := zero_sequences nIn 0 (vin txTmp)\<rparr>)
               else Some txTmp)
      in map_option (\<lambda>t. if nHashType AND SIGHASH_ANYONECANPAY \<noteq> 0
                          then t\<lparr>vin := [vin t ! nIn]\<rparr> else t) r)"

definition SignatureHash :: "external \<Rightarrow> script \<Rightarrow> CTransaction \<Rightarrow> nat \<Rightarrow> int \<Rightarrow> uint256" where
  "SignatureHash E scriptCode txTo nIn nHashType =
     (if nIn \<ge> length (vin txTo) then 1
      else case sighash_tx scriptCode txTo nIn nHashType of
        None \<Rightarrow> 1
      | Some txTmp \<Rightarrow> Hash E (ser_tx txTmp @ bytes_of_int32 nHashType))"

section \<open>The signature cache\<close>

text \<open>
  \<open>setValid\<close> is the \<open>std::set\<close> in its order (hash, signature, key), \<open>nMaxCacheSize\<close> the value of
  \<open>-maxsigcachesize\<close>, and \<open>randHashes\<close> the values \<open>GetRandHash\<close> will return.
\<close>

type_synonym sigdata = "uint256 \<times> byte list \<times> pubkey"

record sigcache =
  setValid :: "sigdata list"
  nMaxCacheSize :: int
  randHashes :: "nat \<Rightarrow> uint256"
  randPos :: nat

definition cache_Get :: "sigcache \<Rightarrow> uint256 \<Rightarrow> byte list \<Rightarrow> pubkey \<Rightarrow> bool" where
  "cache_Get c hash vchSig pubKey \<longleftrightarrow> (hash, vchSig, pubKey) \<in> set (setValid c)"

definition evict_one :: "sigcache \<Rightarrow> sigcache" where
  "evict_one c =
     (let randomHash = randHashes c (randPos c);
          it = dropWhile (\<lambda>k. k < (randomHash, [], CPubKey [])) (setValid c);
          victim = (case it of [] \<Rightarrow> hd (setValid c) | k # _ \<Rightarrow> k)
      in c\<lparr>setValid := remove1 victim (setValid c), randPos := randPos c + 1\<rparr>)"

lemma evict_one_member: "setValid c \<noteq> [] \<Longrightarrow>
    \<exists>k \<in> set (setValid c). setValid (evict_one c) = remove1 k (setValid c)"
  by (auto simp: evict_one_def Let_def split: list.splits)
     (metis list.set_intros(1) set_dropWhileD)

function evict_loop :: "sigcache \<Rightarrow> sigcache" where
  "evict_loop c =
     (if nMaxCacheSize c > 0 \<and> int (length (setValid c)) > nMaxCacheSize c
      then evict_loop (evict_one c) else c)"
  by pat_completeness auto
termination
proof (relation "measure (\<lambda>c. length (setValid c))", goal_cases)
  case (2 c)
  then have "setValid c \<noteq> []" by auto
  then obtain k where "k \<in> set (setValid c)" "setValid (evict_one c) = remove1 k (setValid c)"
    using evict_one_member by blast
  then show ?case using length_pos_if_in_set [of k "setValid c"] by (simp add: length_remove1)
qed simp

declare evict_loop.simps [simp del]

definition cache_Set :: "sigcache \<Rightarrow> uint256 \<Rightarrow> byte list \<Rightarrow> pubkey \<Rightarrow> sigcache" where
  "cache_Set c hash vchSig pubKey =
     (if nMaxCacheSize c \<le> 0 then c
      else let c' = evict_loop c in
        c'\<lparr>setValid := (let k = (hash, vchSig, pubKey) in
            if k \<in> set (setValid c') then setValid c' else insort k (setValid c'))\<rparr>)"

section \<open>Checking a signature\<close>

text \<open>What a script is run for: the spending transaction, its input, the flags, the hash type.\<close>

record sigctx =
  txTo :: CTransaction
  nIn :: nat
  ctx_flags :: u32
  ctx_hashType :: int

definition CheckSig ::
  "external \<Rightarrow> sigctx \<Rightarrow> sigcache \<Rightarrow> valtype \<Rightarrow> valtype \<Rightarrow> script \<Rightarrow> bool \<times> sigcache" where
  "CheckSig E ctx cache vchSig vchPubKey scriptCode =
     (let pubkey = CPubKey vchPubKey in
      if \<not> pk_IsValid pubkey then (False, cache)
      else if vchSig = [] then (False, cache)
      else if ctx_hashType ctx \<noteq> 0 \<and> ctx_hashType ctx \<noteq> int (unat (last vchSig)) then (False, cache)
      else
        let nHashType = (if ctx_hashType ctx = 0 then int (unat (last vchSig)) else ctx_hashType ctx);
            vchSig = butlast vchSig;
            sighash = SignatureHash E scriptCode (txTo ctx) (nIn ctx) nHashType
        in if cache_Get cache sighash vchSig pubkey then (True, cache)
           else if \<not> pk_Verify E pubkey sighash vchSig then (False, cache)
           else if \<not> has_flag (ctx_flags ctx) SCRIPT_VERIFY_NOCACHE
             then (True, cache_Set cache sighash vchSig pubkey)
           else (True, cache))"

text \<open>The same decision without a cache, the specification of \<open>CheckSig\<close>.\<close>

definition sig_valid :: "external \<Rightarrow> sigctx \<Rightarrow> valtype \<Rightarrow> valtype \<Rightarrow> script \<Rightarrow> bool" where
  "sig_valid E ctx vchSig vchPubKey scriptCode \<longleftrightarrow>
     vchSig \<noteq> [] \<and> (ctx_hashType ctx = 0 \<or> ctx_hashType ctx = int (unat (last vchSig))) \<and>
     pk_Verify E (CPubKey vchPubKey)
       (SignatureHash E scriptCode (txTo ctx) (nIn ctx) (int (unat (last vchSig)))) (butlast vchSig)"

locale sig_checker =
  fixes chk :: "'c \<Rightarrow> valtype \<Rightarrow> valtype \<Rightarrow> script \<Rightarrow> bool \<times> 'c"
    and inv :: "'c \<Rightarrow> bool"
    and valid :: "valtype \<Rightarrow> valtype \<Rightarrow> script \<Rightarrow> bool"
  assumes chk_valid: "inv c \<Longrightarrow> fst (chk c sig key code) = valid sig key code"
    and chk_inv: "inv c \<Longrightarrow> inv (snd (chk c sig key code))"

text \<open>The invariants of the cache: every entry verifies; the order; the size bound.\<close>

definition cache_sound :: "external \<Rightarrow> sigcache \<Rightarrow> bool" where
  "cache_sound E c \<longleftrightarrow> (\<forall>(h, s, k) \<in> set (setValid c). pk_Verify E k h s)"

definition cache_wf :: "sigcache \<Rightarrow> bool" where
  "cache_wf c \<longleftrightarrow> sorted (setValid c) \<and> distinct (setValid c) \<and>
     int (length (setValid c)) \<le> max 0 (nMaxCacheSize c) + 1"

lemma evict_one_keeps [simp]: "nMaxCacheSize (evict_one c) = nMaxCacheSize c"
  by (simp add: evict_one_def Let_def)

lemma evict_loop_max [simp]: "nMaxCacheSize (evict_loop c) = nMaxCacheSize c"
proof (induction c rule: evict_loop.induct)
  case (1 c)
  then show ?case by (subst evict_loop.simps) simp
qed

lemma evict_loop_stop:
  "\<not> (nMaxCacheSize c > 0 \<and> int (length (setValid c)) > nMaxCacheSize c) \<Longrightarrow> evict_loop c = c"
  by (subst evict_loop.simps) (simp only: if_False)

lemma evict_loop_sub: "set (setValid (evict_loop c)) \<subseteq> set (setValid c)"
proof (induction c rule: evict_loop.induct)
  case (1 c)
  show ?case
  proof (cases "nMaxCacheSize c > 0 \<and> int (length (setValid c)) > nMaxCacheSize c")
    case True
    then have "setValid c \<noteq> []" by auto
    then have "set (setValid (evict_one c)) \<subseteq> set (setValid c)"
      using evict_one_member [of c] set_remove1_subset by fastforce
    then show ?thesis using 1 True by (subst evict_loop.simps) auto
  qed (simp add: evict_loop_stop)
qed

lemma evict_loop_size:
  "0 < nMaxCacheSize c \<Longrightarrow> int (length (setValid (evict_loop c))) \<le> nMaxCacheSize c"
proof (induction c rule: evict_loop.induct)
  case (1 c)
  then show ?case by (subst evict_loop.simps) auto
qed

lemma evict_loop_order:
  "sorted (setValid c) \<and> distinct (setValid c) \<Longrightarrow>
     sorted (setValid (evict_loop c)) \<and> distinct (setValid (evict_loop c))"
proof (induction c rule: evict_loop.induct)
  case (1 c)
  show ?case
  proof (cases "nMaxCacheSize c > 0 \<and> int (length (setValid c)) > nMaxCacheSize c")
    case True
    then have "setValid c \<noteq> []" by auto
    then obtain k where "setValid (evict_one c) = remove1 k (setValid c)"
      using evict_one_member [of c] by blast
    then have "sorted (setValid (evict_one c)) \<and> distinct (setValid (evict_one c))"
      using "1.prems" by (simp add: sorted_remove1)
    then show ?thesis using "1.IH" [OF True] True by (subst (1 2) evict_loop.simps) simp
  qed (use "1.prems" in \<open>simp add: evict_loop_stop\<close>)
qed

lemma cache_Set_sub:
  "set (setValid (cache_Set c h s k)) \<subseteq> insert (h, s, k) (set (setValid c))"
  using evict_loop_sub [of c] by (auto simp: cache_Set_def Let_def set_insort_key)

lemma cache_Set_wf:
  assumes "cache_wf c"
  shows "cache_wf (cache_Set c h s k)"
proof (cases "nMaxCacheSize c \<le> 0")
  case False
  let ?c = "evict_loop c"
  have o: "sorted (setValid ?c) \<and> distinct (setValid ?c)"
    using assms by (intro evict_loop_order) (simp add: cache_wf_def)
  have z: "int (length (setValid ?c)) \<le> nMaxCacheSize c"
    using False by (intro evict_loop_size) simp
  show ?thesis
  proof (cases "(h, s, k) \<in> set (setValid ?c)")
    case True
    then show ?thesis using o z False by (simp add: cache_wf_def cache_Set_def Let_def)
  next
    case new: False
    then show ?thesis using o z False
      by (simp add: cache_wf_def cache_Set_def Let_def sorted_insort distinct_insort)
  qed
qed (use assms in \<open>simp add: cache_Set_def\<close>)

lemma CheckSig_valid: "cache_sound E c \<Longrightarrow> fst (CheckSig E ctx c s k code) = sig_valid E ctx s k code"
  by (auto simp: CheckSig_def sig_valid_def Let_def cache_Get_def cache_sound_def pk_Verify_def)

lemma CheckSig_sound: "cache_sound E c \<Longrightarrow> cache_sound E (snd (CheckSig E ctx c s k code))"
  using cache_Set_sub unfolding CheckSig_def Let_def
  by (auto simp: cache_sound_def dest!: subsetD [OF cache_Set_sub])

lemma CheckSig_wf: "cache_wf c \<Longrightarrow> cache_wf (snd (CheckSig E ctx c s k code))"
  by (simp add: CheckSig_def Let_def cache_Set_wf)

interpretation cached: sig_checker "CheckSig E ctx" "cache_sound E" "sig_valid E ctx" for E ctx
  by unfold_locales (simp_all add: CheckSig_valid CheckSig_sound)

interpretation bounded: sig_checker "CheckSig E ctx" "\<lambda>c. cache_sound E c \<and> cache_wf c" "sig_valid E ctx"
  for E ctx
  by unfold_locales (simp_all add: CheckSig_valid CheckSig_sound CheckSig_wf)

interpretation uncached: sig_checker "\<lambda>u s k code. (sig_valid E ctx s k code, u)" "\<lambda>_ :: unit. True"
  "sig_valid E ctx" for E ctx
  by unfold_locales simp_all

end
