(* ===== verification/Interp.thy ===== *)
theory Interp
  imports Sig
begin

text \<open>
  The script interpreter \<open>EvalScript\<close> and \<open>VerifyScript\<close> (src/script.cpp). The stacks are lists
  with the top first (\<open>stacktop(-1)\<close> is the head), as is \<open>vfExec\<close>; an instruction either returns
  false with the state it leaves (\<open>Inl\<close>) or goes on with a new one (\<open>Inr\<close>), and an exception that
  \<open>EvalScript\<close> catches is a return of false. The signature cache \<open>'c\<close> is threaded through.
\<close>

section \<open>Values on the stack\<close>

definition vchFalse :: valtype where "vchFalse = []"
definition vchTrue :: valtype where "vchTrue = [1]"

fun CastToBool :: "valtype \<Rightarrow> bool" where
  "CastToBool [] = False"
| "CastToBool (b # vch) =
     (if b \<noteq> 0 then (if vch = [] \<and> b = 0x80 then False else True) else CastToBool vch)"

text \<open>\<open>None\<close>: \<open>CastToBigNum\<close> throws.\<close>

definition CastToBigNum :: "external \<Rightarrow> nat \<Rightarrow> valtype \<Rightarrow> int option" where
  "CastToBigNum E nMaxNumSize vch =
     (if length vch > nMaxNumSize then None else Some (setvch E (getvch E (setvch E vch))))"

definition push_bool :: "bool \<Rightarrow> valtype" where "push_bool b = (if b then vchTrue else vchFalse)"

record interp =
  stack :: "valtype list"
  altstack :: "valtype list"
  vfExec :: "bool list"
  pbegincodehash :: script
  nOpCount :: nat

definition LOCKTIME_THRESHOLD :: nat where "LOCKTIME_THRESHOLD = 500000000"

text \<open>An input index out of range is undefined behaviour; no caller passes one.\<close>

definition CheckLockTime :: "external \<Rightarrow> sigctx \<Rightarrow> int \<Rightarrow> bool" where
  "CheckLockTime E ctx n =
     (let tx_lock = unat (nLockTime (txTo ctx)); thr = setulong E LOCKTIME_THRESHOLD in
      if \<not> ((tx_lock < LOCKTIME_THRESHOLD \<and> bn_lt E n thr) \<or>
            (tx_lock \<ge> LOCKTIME_THRESHOLD \<and> bn_le E thr n)) then False
      else if bn_lt E (bn_of_int E (int tx_lock)) n then False
      else if nIn ctx \<ge> length (vin (txTo ctx)) \<or> txin_IsFinal (vin (txTo ctx) ! nIn ctx) then False
      else True)"

section \<open>Instructions on the main stack\<close>

text \<open>\<open>Inl s\<close>: the instruction fails and leaves the stack \<open>s\<close>.\<close>

type_synonym stackop = "valtype list \<Rightarrow> valtype list flow"

definition op_pushnum :: "external \<Rightarrow> opcodetype \<Rightarrow> stackop" where
  "op_pushnum E opcode s = Inr (getvch E (bn_of_int E (int opcode - (int OP_1 - 1))) # s)"

definition op_verify :: stackop where
  "op_verify s = (case s of x # r \<Rightarrow> (if CastToBool x then Inr r else Inl s) | _ \<Rightarrow> Inl s)"

definition op_2drop :: stackop where
  "op_2drop s = (case s of x2 # x1 # r \<Rightarrow> Inr r | _ \<Rightarrow> Inl s)"

definition op_2dup :: stackop where
  "op_2dup s = (case s of x2 # x1 # r \<Rightarrow> Inr (x2 # x1 # x2 # x1 # r) | _ \<Rightarrow> Inl s)"

definition op_3dup :: stackop where
  "op_3dup s = (case s of x3 # x2 # x1 # r \<Rightarrow> Inr (x3 # x2 # x1 # x3 # x2 # x1 # r) | _ \<Rightarrow> Inl s)"

definition op_2over :: stackop where
  "op_2over s = (case s of x4 # x3 # x2 # x1 # r \<Rightarrow> Inr (x2 # x1 # x4 # x3 # x2 # x1 # r)
     | _ \<Rightarrow> Inl s)"

definition op_2rot :: stackop where
  "op_2rot s = (case s of x6 # x5 # x4 # x3 # x2 # x1 # r \<Rightarrow>
       Inr (x2 # x1 # x6 # x5 # x4 # x3 # r) | _ \<Rightarrow> Inl s)"

definition op_2swap :: stackop where
  "op_2swap s = (case s of x4 # x3 # x2 # x1 # r \<Rightarrow> Inr (x2 # x1 # x4 # x3 # r) | _ \<Rightarrow> Inl s)"

definition op_ifdup :: stackop where
  "op_ifdup s = (case s of x # r \<Rightarrow> (if CastToBool x then Inr (x # x # r) else Inr s) | _ \<Rightarrow> Inl s)"

definition op_depth :: "external \<Rightarrow> stackop" where
  "op_depth E s = Inr (getvch E (setulong E (length s)) # s)"

definition op_drop :: stackop where
  "op_drop s = (case s of x # r \<Rightarrow> Inr r | _ \<Rightarrow> Inl s)"

definition op_dup :: stackop where
  "op_dup s = (case s of x # r \<Rightarrow> Inr (x # x # r) | _ \<Rightarrow> Inl s)"

definition op_nip :: stackop where
  "op_nip s = (case s of x2 # x1 # r \<Rightarrow> Inr (x2 # r) | _ \<Rightarrow> Inl s)"

definition op_over :: stackop where
  "op_over s = (case s of x2 # x1 # r \<Rightarrow> Inr (x1 # x2 # x1 # r) | _ \<Rightarrow> Inl s)"

definition op_pick_roll :: "external \<Rightarrow> bool \<Rightarrow> stackop" where
  "op_pick_roll E roll s =
     (if length s < 2 then Inl s
      else case CastToBigNum E 4 (hd s) of
        None \<Rightarrow> Inl s
      | Some bn \<Rightarrow>
          let n = getint E bn; s' = tl s in
          if n < 0 \<or> n \<ge> int (length s') then Inl s'
          else let vch = s' ! nat n in
            Inr (vch # (if roll then take (nat n) s' @ drop (Suc (nat n)) s' else s')))"

definition op_rot :: stackop where
  "op_rot s = (case s of x3 # x2 # x1 # r \<Rightarrow> Inr (x1 # x3 # x2 # r) | _ \<Rightarrow> Inl s)"

definition op_swap :: stackop where
  "op_swap s = (case s of x2 # x1 # r \<Rightarrow> Inr (x1 # x2 # r) | _ \<Rightarrow> Inl s)"

definition op_tuck :: stackop where
  "op_tuck s = (case s of x2 # x1 # r \<Rightarrow> Inr (x2 # x1 # x2 # r) | _ \<Rightarrow> Inl s)"

definition op_size :: "external \<Rightarrow> stackop" where
  "op_size E s = (case s of x # r \<Rightarrow> Inr (getvch E (setulong E (length x)) # s) | _ \<Rightarrow> Inl s)"

definition op_equal :: "bool \<Rightarrow> stackop" where
  "op_equal verify s =
     (case s of vch2 # vch1 # r \<Rightarrow>
        let fEqual = (vch1 = vch2); s' = push_bool fEqual # r in
        if verify then (if fEqual then Inr r else Inl s') else Inr s'
      | _ \<Rightarrow> Inl s)"

definition op_unary :: "external \<Rightarrow> opcodetype \<Rightarrow> stackop" where
  "op_unary E opcode s =
     (case s of
        x # r \<Rightarrow>
          (case CastToBigNum E 4 x of
             None \<Rightarrow> Inl s
           | Some bn \<Rightarrow>
               let bn0 = bn_of_int E 0; bn1 = bn_of_int E 1;
                   res = (if opcode = 0x8b then bn_add E bn bn1
                          else if opcode = 0x8c then bn_sub E bn bn1
                          else if opcode = 0x8f then bn_neg E bn
                          else if opcode = 0x90 then (if bn_lt E bn bn0 then bn_neg E bn else bn)
                          else if opcode = 0x91 then bn_of_int E (if bn_eq E bn bn0 then 1 else 0)
                          else bn_of_int E (if \<not> bn_eq E bn bn0 then 1 else 0))
               in Inr (getvch E res # r))
      | _ \<Rightarrow> Inl s)"

text \<open>The result of a binary numeric instruction, before it is pushed.\<close>

definition binary_result :: "external \<Rightarrow> opcodetype \<Rightarrow> int \<Rightarrow> int \<Rightarrow> int" where
  "binary_result E opcode bn1 bn2 =
     (let bn0 = bn_of_int E 0; b = (\<lambda>c. bn_of_int E (if c then 1 else 0)) in
      if opcode = 0x93 then bn_add E bn1 bn2
      else if opcode = 0x94 then bn_sub E bn1 bn2
      else if opcode = 0x9a then b (\<not> bn_eq E bn1 bn0 \<and> \<not> bn_eq E bn2 bn0)
      else if opcode = 0x9b then b (\<not> bn_eq E bn1 bn0 \<or> \<not> bn_eq E bn2 bn0)
      else if opcode = 0x9c then b (bn_eq E bn1 bn2)
      else if opcode = 0x9d then b (bn_eq E bn1 bn2)
      else if opcode = 0x9e then b (\<not> bn_eq E bn1 bn2)
      else if opcode = 0x9f then b (bn_lt E bn1 bn2)
      else if opcode = 0xa0 then b (bn_lt E bn2 bn1)
      else if opcode = 0xa1 then b (bn_le E bn1 bn2)
      else if opcode = 0xa2 then b (bn_le E bn2 bn1)
      else if opcode = 0xa3 then (if bn_lt E bn1 bn2 then bn1 else bn2)
      else (if bn_lt E bn2 bn1 then bn1 else bn2))"

definition op_binary :: "external \<Rightarrow> opcodetype \<Rightarrow> stackop" where
  "op_binary E opcode s =
     (case s of
        x2 # x1 # r \<Rightarrow>
          (case CastToBigNum E 4 x1 of
             None \<Rightarrow> Inl s
           | Some bn1 \<Rightarrow>
               (case CastToBigNum E 4 x2 of
                  None \<Rightarrow> Inl s
                | Some bn2 \<Rightarrow>
                    let res = getvch E (binary_result E opcode bn1 bn2) in
                    if opcode = 0x9d then
                      (if CastToBool res then Inr r else Inl (res # r))
                    else Inr (res # r)))
      | _ \<Rightarrow> Inl s)"

definition op_within :: "external \<Rightarrow> stackop" where
  "op_within E s =
     (case s of
        x3 # x2 # x1 # r \<Rightarrow>
          (case (CastToBigNum E 4 x1, CastToBigNum E 4 x2, CastToBigNum E 4 x3) of
             (Some bn1, Some bn2, Some bn3) \<Rightarrow>
               Inr (push_bool (bn_le E bn2 bn1 \<and> bn_lt E bn1 bn3) # r)
           | _ \<Rightarrow> Inl s)
      | _ \<Rightarrow> Inl s)"

definition op_hashing :: "external \<Rightarrow> opcodetype \<Rightarrow> stackop" where
  "op_hashing E opcode s =
     (case s of
        vch # r \<Rightarrow>
          Inr ((if opcode = 0xa6 then SSL_RIPEMD160 E vch
                else if opcode = 0xa7 then SSL_SHA1 E vch
                else if opcode = 0xa8 then SSL_SHA256 E vch
                else if opcode = 0xa9 then bytes_of_uint160 (Hash160 E vch)
                else bytes_of_uint256 (Hash E vch)) # r)
      | _ \<Rightarrow> Inl s)"

text \<open>An instruction of the main stack as an instruction of the interpreter.\<close>

definition on_stack :: "stackop \<Rightarrow> interp \<Rightarrow> interp flow" where
  "on_stack f i = map_sum (\<lambda>s. i\<lparr>stack := s\<rparr>) (\<lambda>s. i\<lparr>stack := s\<rparr>) (f (stack i))"

section \<open>Control flow, the alternative stack, lock times\<close>

definition op_if :: "bool \<Rightarrow> bool \<Rightarrow> interp \<Rightarrow> interp flow" where
  "op_if fExec notif i =
     (if fExec then
        (case stack i of
           vch # r \<Rightarrow>
             let fValue = CastToBool vch; fValue = (if notif then \<not> fValue else fValue)
             in Inr (i\<lparr>stack := r, vfExec := fValue # vfExec i\<rparr>)
         | [] \<Rightarrow> Inl i)
      else Inr (i\<lparr>vfExec := False # vfExec i\<rparr>))"

definition op_else :: "interp \<Rightarrow> interp flow" where
  "op_else i = (case vfExec i of b # r \<Rightarrow> Inr (i\<lparr>vfExec := (\<not> b) # r\<rparr>) | [] \<Rightarrow> Inl i)"

definition op_endif :: "interp \<Rightarrow> interp flow" where
  "op_endif i = (case vfExec i of b # r \<Rightarrow> Inr (i\<lparr>vfExec := r\<rparr>) | [] \<Rightarrow> Inl i)"

definition op_toaltstack :: "interp \<Rightarrow> interp flow" where
  "op_toaltstack i =
     (case stack i of x # r \<Rightarrow> Inr (i\<lparr>altstack := x # altstack i, stack := r\<rparr>) | [] \<Rightarrow> Inl i)"

definition op_fromaltstack :: "interp \<Rightarrow> interp flow" where
  "op_fromaltstack i =
     (case altstack i of x # r \<Rightarrow> Inr (i\<lparr>stack := x # stack i, altstack := r\<rparr>) | [] \<Rightarrow> Inl i)"

definition op_checklocktime :: "external \<Rightarrow> sigctx \<Rightarrow> interp \<Rightarrow> interp flow" where
  "op_checklocktime E ctx i =
     (if \<not> has_flag (ctx_flags ctx) SCRIPT_VERIFY_CHECKLOCKTIMEVERIFY then
        if has_flag (ctx_flags ctx) SCRIPT_VERIFY_DISCOURAGE_UPGRADABLE_NOPS then Inl i else Inr i
      else case stack i of
        [] \<Rightarrow> Inl i
      | x # _ \<Rightarrow>
          (case CastToBigNum E 5 x of
             None \<Rightarrow> Inl i
           | Some n \<Rightarrow>
               if bn_lt E n (bn_of_int E 0) then Inl i
               else if \<not> CheckLockTime E ctx n then Inl i
               else Inr i))"

definition op_nop_n :: "sigctx \<Rightarrow> interp \<Rightarrow> interp flow" where
  "op_nop_n ctx i =
     (if has_flag (ctx_flags ctx) SCRIPT_VERIFY_DISCOURAGE_UPGRADABLE_NOPS then Inl i else Inr i)"

definition op_codeseparator :: "script \<Rightarrow> interp \<Rightarrow> interp flow" where
  "op_codeseparator pc i = Inr (i\<lparr>pbegincodehash := pc\<rparr>)"

section \<open>Signatures\<close>

type_synonym 'c checker = "'c \<Rightarrow> valtype \<Rightarrow> valtype \<Rightarrow> script \<Rightarrow> bool \<times> 'c"

definition sig_encoded :: "u32 \<Rightarrow> valtype \<Rightarrow> valtype \<Rightarrow> bool" where
  "sig_encoded flags vchSig vchPubKey \<longleftrightarrow>
     CheckSignatureEncoding vchSig flags \<and> CheckPubKeyEncoding vchPubKey"

definition op_checksig ::
  "'c checker \<Rightarrow> u32 \<Rightarrow> bool \<Rightarrow> interp \<times> 'c \<Rightarrow> (interp \<times> 'c) flow" where
  "op_checksig chk flags verify = (\<lambda>(i, c).
     case stack i of
       vchPubKey # vchSig # r \<Rightarrow>
         let scriptCode = snd (FindAndDelete (push_data [] vchSig) (pbegincodehash i));
             enc = sig_encoded flags vchSig vchPubKey in
         if has_flag flags SCRIPT_VERIFY_STRICTENC \<and> \<not> enc then Inl (i, c)
         else
           let (fSuccess, c') = (if enc then chk c vchSig vchPubKey scriptCode else (False, c)) in
           if verify then
             (if fSuccess then Inr (i\<lparr>stack := r\<rparr>, c') else Inl (i\<lparr>stack := vchFalse # r\<rparr>, c'))
           else Inr (i\<lparr>stack := push_bool fSuccess # r\<rparr>, c')
     | _ \<Rightarrow> Inl (i, c))"

text \<open>
  The signatures and keys that are left; \<open>None\<close> where the code returns false at once. Both lists
  start with the element nearest to the top of the stack.
\<close>

fun multisig_loop ::
  "'c checker \<Rightarrow> u32 \<Rightarrow> script \<Rightarrow> valtype list \<Rightarrow> valtype list \<Rightarrow> 'c \<Rightarrow> bool option \<times> 'c" where
  "multisig_loop chk flags scriptCode [] keys c = (Some True, c)"
| "multisig_loop chk flags scriptCode (vchSig # sigs) [] c = (Some False, c)"
| "multisig_loop chk flags scriptCode (vchSig # sigs) (vchPubKey # keys) c =
     (let enc = sig_encoded flags vchSig vchPubKey in
      if has_flag flags SCRIPT_VERIFY_STRICTENC \<and> \<not> enc then (None, c)
      else
        let (fOk, c') = (if enc then chk c vchSig vchPubKey scriptCode else (False, c));
            sigs' = (if fOk then sigs else vchSig # sigs) in
        if length sigs' > length keys then (Some False, c')
        else multisig_loop chk flags scriptCode sigs' keys c')"

definition delete_sigs :: "valtype list \<Rightarrow> script \<Rightarrow> script" where
  "delete_sigs sigs code = foldl (\<lambda>s vchSig. snd (FindAndDelete (push_data [] vchSig) s)) code sigs"

definition op_checkmultisig ::
  "external \<Rightarrow> 'c checker \<Rightarrow> u32 \<Rightarrow> bool \<Rightarrow> interp \<times> 'c \<Rightarrow> (interp \<times> 'c) flow" where
  "op_checkmultisig E chk flags verify = (\<lambda>(i, c).
     let s = stack i in
     if length s < 1 then Inl (i, c)
     else case CastToBigNum E 4 (s ! 0) of
       None \<Rightarrow> Inl (i, c)
     | Some bnKeys \<Rightarrow>
         if getint E bnKeys < 0 \<or> getint E bnKeys > 20 then Inl (i, c)
         else
           let nKeysCount = nat (getint E bnKeys); i' = i\<lparr>nOpCount := nOpCount i + nKeysCount\<rparr> in
           if nOpCount i' > 201 then Inl (i', c)
           else if length s < 2 + nKeysCount then Inl (i', c)
           else case CastToBigNum E 4 (s ! (1 + nKeysCount)) of
             None \<Rightarrow> Inl (i', c)
           | Some bnSigs \<Rightarrow>
               if getint E bnSigs < 0 \<or> getint E bnSigs > int nKeysCount then Inl (i', c)
               else
                 let nSigsCount = nat (getint E bnSigs) in
                 if length s < 3 + nKeysCount + nSigsCount then Inl (i', c)
                 else
                   let keys = take nKeysCount (drop 1 s);
                       sigs = take nSigsCount (drop (2 + nKeysCount) s);
                       scriptCode = delete_sigs sigs (pbegincodehash i);
                       rest = drop (2 + nKeysCount + nSigsCount) s in
                   case multisig_loop chk flags scriptCode sigs keys c of
                     (None, c') \<Rightarrow> Inl (i', c')
                   | (Some fSuccess, c') \<Rightarrow>
                       if has_flag flags SCRIPT_VERIFY_NULLDUMMY \<and> hd rest \<noteq> []
                       then Inl (i'\<lparr>stack := rest\<rparr>, c')
                       else if verify then
                         (if fSuccess then Inr (i'\<lparr>stack := tl rest\<rparr>, c')
                          else Inl (i'\<lparr>stack := vchFalse # tl rest\<rparr>, c'))
                       else Inr (i'\<lparr>stack := push_bool fSuccess # tl rest\<rparr>, c'))"

section \<open>The interpreter\<close>

definition plain_op ::
  "external \<Rightarrow> sigctx \<Rightarrow> bool \<Rightarrow> opcodetype \<Rightarrow> script \<Rightarrow> interp \<Rightarrow> interp flow" where
  "plain_op E ctx fExec opcode pc i =
     (if opcode = OP_1NEGATE \<or> OP_1 \<le> opcode \<and> opcode \<le> OP_16 then on_stack (op_pushnum E opcode) i
      else if opcode = 0x61 then Inr i
      else if opcode = 0xb1 then op_checklocktime E ctx i
      else if opcode = 0xb0 \<or> 0xb2 \<le> opcode \<and> opcode \<le> 0xb9 then op_nop_n ctx i
      else if opcode = 0x63 then op_if fExec False i
      else if opcode = 0x64 then op_if fExec True i
      else if opcode = 0x67 then op_else i
      else if opcode = 0x68 then op_endif i
      else if opcode = 0x69 then on_stack op_verify i
      else if opcode = 0x6a then Inl i
      else if opcode = 0x6b then op_toaltstack i
      else if opcode = 0x6c then op_fromaltstack i
      else if opcode = 0x6d then on_stack op_2drop i
      else if opcode = 0x6e then on_stack op_2dup i
      else if opcode = 0x6f then on_stack op_3dup i
      else if opcode = 0x70 then on_stack op_2over i
      else if opcode = 0x71 then on_stack op_2rot i
      else if opcode = 0x72 then on_stack op_2swap i
      else if opcode = 0x73 then on_stack op_ifdup i
      else if opcode = 0x74 then on_stack (op_depth E) i
      else if opcode = 0x75 then on_stack op_drop i
      else if opcode = 0x76 then on_stack op_dup i
      else if opcode = 0x77 then on_stack op_nip i
      else if opcode = 0x78 then on_stack op_over i
      else if opcode = 0x79 then on_stack (op_pick_roll E False) i
      else if opcode = 0x7a then on_stack (op_pick_roll E True) i
      else if opcode = 0x7b then on_stack op_rot i
      else if opcode = 0x7c then on_stack op_swap i
      else if opcode = 0x7d then on_stack op_tuck i
      else if opcode = 0x82 then on_stack (op_size E) i
      else if opcode = 0x87 then on_stack (op_equal False) i
      else if opcode = 0x88 then on_stack (op_equal True) i
      else if opcode \<in> {0x8b, 0x8c, 0x8f, 0x90, 0x91, 0x92} then on_stack (op_unary E opcode) i
      else if opcode \<in> {0x93, 0x94} \<or> 0x9a \<le> opcode \<and> opcode \<le> 0xa4 then on_stack (op_binary E opcode) i
      else if opcode = 0xa5 then on_stack (op_within E) i
      else if 0xa6 \<le> opcode \<and> opcode \<le> 0xaa then on_stack (op_hashing E opcode) i
      else if opcode = OP_CODESEPARATOR then op_codeseparator pc i
      else Inl i)"

definition exec_op ::
  "external \<Rightarrow> 'c checker \<Rightarrow> sigctx \<Rightarrow> bool \<Rightarrow> opcodetype \<Rightarrow> script \<Rightarrow> interp \<times> 'c \<Rightarrow>
     (interp \<times> 'c) flow" where
  "exec_op E chk ctx fExec opcode pc ic =
     (if opcode = OP_CHECKSIG then op_checksig chk (ctx_flags ctx) False ic
      else if opcode = OP_CHECKSIGVERIFY then op_checksig chk (ctx_flags ctx) True ic
      else if opcode = OP_CHECKMULTISIG then op_checkmultisig E chk (ctx_flags ctx) False ic
      else if opcode = OP_CHECKMULTISIGVERIFY then op_checkmultisig E chk (ctx_flags ctx) True ic
      else map_sum (\<lambda>i. (i, snd ic)) (\<lambda>i. (i, snd ic)) (plain_op E ctx fExec opcode pc (fst ic)))"

definition is_disabled :: "opcodetype \<Rightarrow> bool" where
  "is_disabled opcode \<longleftrightarrow>
     opcode \<in> {0x7e, 0x7f, 0x80, 0x81, 0x83, 0x84, 0x85, 0x86, 0x8d, 0x8e, 0x95, 0x96, 0x97, 0x98, 0x99}"

definition MAX_SCRIPT_ELEMENT_SIZE :: nat where "MAX_SCRIPT_ELEMENT_SIZE = 520"

text \<open>One turn of the loop, after the instruction has been read.\<close>

definition eval_step ::
  "external \<Rightarrow> 'c checker \<Rightarrow> sigctx \<Rightarrow> opcodetype \<Rightarrow> valtype \<Rightarrow> script \<Rightarrow> interp \<times> 'c \<Rightarrow>
     (interp \<times> 'c) flow" where
  "eval_step E chk ctx opcode vchPushValue pc = (\<lambda>(i, c).
     let fExec = list_all (\<lambda>b. b) (vfExec i);
         i = (if opcode > OP_16 then i\<lparr>nOpCount := nOpCount i + 1\<rparr> else i) in
     if length vchPushValue > MAX_SCRIPT_ELEMENT_SIZE then Inl (i, c)
     else if opcode > OP_16 \<and> nOpCount i > 201 then Inl (i, c)
     else if is_disabled opcode then Inl (i, c)
     else
       case (if fExec \<and> opcode \<le> OP_PUSHDATA4 then Inr (i\<lparr>stack := vchPushValue # stack i\<rparr>, c)
             else if fExec \<or> OP_IF \<le> opcode \<and> opcode \<le> OP_ENDIF then
               exec_op E chk ctx fExec opcode pc (i, c)
             else Inr (i, c)) of
         Inl ic \<Rightarrow> Inl ic
       | Inr (i, c) \<Rightarrow>
           if length (stack i) + length (altstack i) > 1000 then Inl (i, c) else Inr (i, c))"

function eval_loop ::
  "external \<Rightarrow> 'c checker \<Rightarrow> sigctx \<Rightarrow> script \<Rightarrow> interp \<times> 'c \<Rightarrow> (interp \<times> 'c) flow" where
  "eval_loop E chk ctx pc ic =
     (if pc = [] then Inr ic
      else case GetOp2 pc of
        None \<Rightarrow> Inl ic
      | Some (opcode, vchPushValue, pc') \<Rightarrow>
          (case eval_step E chk ctx opcode vchPushValue pc' ic of
             Inl ic' \<Rightarrow> Inl ic'
           | Inr ic' \<Rightarrow> eval_loop E chk ctx pc' ic'))"
  by pat_completeness auto
termination
  by (relation "measure (\<lambda>(E, chk, ctx, pc, ic). length pc)") (auto simp: GetOp2_shorter)

declare eval_loop.simps [simp del]

text \<open>Whether the script succeeded, the stack it leaves (also when it fails) and the cache.\<close>

definition EvalScript ::
  "external \<Rightarrow> 'c checker \<Rightarrow> sigctx \<Rightarrow> valtype list \<Rightarrow> script \<Rightarrow> 'c \<Rightarrow> bool \<times> valtype list \<times> 'c" where
  "EvalScript E chk ctx stk s c =
     (if length s > 10000 then (False, stk, c)
      else case eval_loop E chk ctx s
          (\<lparr>stack = stk, altstack = [], vfExec = [], pbegincodehash = s, nOpCount = 0\<rparr>, c) of
        Inl (i, c') \<Rightarrow> (False, stack i, c')
      | Inr (i, c') \<Rightarrow> (vfExec i = [], stack i, c'))"

section \<open>Verifying an input\<close>

text \<open>
  The answer is \<open>None\<close> where the code would call \<open>stackCopy.back()\<close> on an empty vector, which is
  undefined behaviour; that it never does is proved in InterpProps.
\<close>

definition VerifyScript ::
  "external \<Rightarrow> 'c checker \<Rightarrow> sigctx \<Rightarrow> script \<Rightarrow> script \<Rightarrow> 'c \<Rightarrow> bool option \<times> 'c" where
  "VerifyScript E chk ctx ssig spk c =
     (case EvalScript E chk ctx [] ssig c of
        (False, _, c1) \<Rightarrow> (Some False, c1)
      | (True, stackCopy, c1) \<Rightarrow>
          (case EvalScript E chk ctx stackCopy spk c1 of
             (False, _, c2) \<Rightarrow> (Some False, c2)
           | (True, stk, c2) \<Rightarrow>
               if stk = [] then (Some False, c2)
               else if CastToBool (hd stk) = False then (Some False, c2)
               else if IsPayToScriptHash spk then
                 if \<not> IsPushOnly ssig then (Some False, c2)
                 else if stackCopy = [] then (None, c2)
                 else
                   (case EvalScript E chk ctx (tl stackCopy) (hd stackCopy) c2 of
                      (False, _, c3) \<Rightarrow> (Some False, c3)
                    | (True, stk3, c3) \<Rightarrow>
                        if stk3 = [] then (Some False, c3) else (Some (CastToBool (hd stk3)), c3))
               else (Some True, c2)))"

text \<open>\<open>None\<close>: the assert on the input index fails.\<close>

definition VerifySignature ::
  "external \<Rightarrow> CTransaction \<Rightarrow> CTransaction \<Rightarrow> nat \<Rightarrow> u32 \<Rightarrow> int \<Rightarrow> sigcache \<Rightarrow>
     bool option \<times> sigcache" where
  "VerifySignature E txFrom tx n flags nHashType c =
     (if n \<ge> length (vin tx) then (None, c)
      else
        let txin = vin tx ! n in
        if unat (op_n (prevout txin)) \<ge> length (vout txFrom) then (Some False, c)
        else
          let txout = vout txFrom ! unat (op_n (prevout txin));
              ctx = \<lparr>txTo = tx, nIn = n, ctx_flags = flags, ctx_hashType = nHashType\<rparr> in
          if op_hash (prevout txin) \<noteq> tx_GetHash E txFrom then (Some False, c)
          else VerifyScript E (CheckSig E ctx) ctx (scriptSig txin) (scriptPubKey txout) c)"

end
