(* ===== verification/InterpProps.thy ===== *)
theory InterpProps
  imports Interp
begin

text \<open>
  What the interpreter guarantees: its limits (stack depth, element size, operation count) hold
  after every instruction, the signature cache does not influence a result, and reading the top
  of the copied stack in \<open>VerifyScript\<close> is safe.
\<close>

section \<open>Limits\<close>

definition elem_ok :: "valtype \<Rightarrow> bool" where
  "elem_ok v \<longleftrightarrow> length v \<le> MAX_SCRIPT_ELEMENT_SIZE"

definition stack_ok :: "valtype list \<Rightarrow> bool" where
  "stack_ok s \<longleftrightarrow> list_all elem_ok s"

lemma stack_ok_simps [simp]:
  "stack_ok []" "stack_ok (x # s) \<longleftrightarrow> elem_ok x \<and> stack_ok s"
  "stack_ok (s @ t) \<longleftrightarrow> stack_ok s \<and> stack_ok t"
  by (auto simp: stack_ok_def)

lemma stack_ok_take_drop [simp]:
  "stack_ok s \<Longrightarrow> stack_ok (take n s)" "stack_ok s \<Longrightarrow> stack_ok (drop n s)" "stack_ok s \<Longrightarrow> stack_ok (tl s)"
  unfolding stack_ok_def list_all_iff
  by (auto dest: in_set_takeD in_set_dropD list.set_sel(2) [rotated]) (metis list.sel(2) list.set_sel(2))

lemma stack_ok_nth: "stack_ok s \<Longrightarrow> n < length s \<Longrightarrow> elem_ok (s ! n)"
  by (simp add: stack_ok_def list_all_length)

lemma elem_ok_bool [simp]: "elem_ok (push_bool b)" "elem_ok vchFalse" "elem_ok vchTrue"
  by (simp_all add: elem_ok_def push_bool_def vchTrue_def vchFalse_def MAX_SCRIPT_ELEMENT_SIZE_def)

lemma elem_ok_hash:
  assumes "hash_ok E"
  shows "elem_ok (SSL_SHA256 E v)" "elem_ok (SSL_RIPEMD160 E v)" "elem_ok (SSL_SHA1 E v)"
    "elem_ok (bytes_of_uint160 a)" "elem_ok (bytes_of_uint256 b)"
  using assms by (simp_all add: elem_ok_def hash_okD MAX_SCRIPT_ELEMENT_SIZE_def)

text \<open>The length of the byte form of a number.\<close>

lemma length_le_min: "n < 256 ^ k \<Longrightarrow> length (le_min n) \<le> k"
proof (induction k arbitrary: n)
  case (Suc k)
  show ?case
  proof (cases "n = 0")
    case False
    have "n div 256 < 256 ^ k" using Suc.prems by (simp add: less_mult_imp_div_less mult.commute)
    then show ?thesis using Suc.IH [of "n div 256"] False by (subst le_min.simps) simp
  qed simp
qed simp

lemma length_mpi_bytes: "\<bar>v\<bar> < 256 ^ k \<Longrightarrow> length (mpi_bytes v) \<le> Suc k"
proof -
  assume "\<bar>v\<bar> < 256 ^ k"
  then have "nat \<bar>v\<bar> < 256 ^ k" by (simp add: nat_less_iff)
  then have "length (le_min (nat \<bar>v\<bar>)) \<le> k" by (rule length_le_min)
  moreover have "length (mpi_sign b bs) \<le> Suc (length bs)" for b bs by (cases bs) auto
  ultimately show ?thesis unfolding mpi_bytes_def by (metis le_trans length_rev Suc_le_mono)
qed

lemma elem_ok_getvch: "bn_ok E \<Longrightarrow> \<bar>v\<bar> < 2 ^ 64 \<Longrightarrow> elem_ok (getvch E v)"
  using length_mpi_bytes [of v 8]
  by (simp add: getvch_eq elem_ok_def MAX_SCRIPT_ELEMENT_SIZE_def)

lemma mpi_val_bound: "\<bar>mpi_val bs\<bar> < 256 ^ length bs"
proof (cases bs)
  case (Cons b cs)
  have "be_val ((b AND 0x7f) # cs) < 256 ^ length bs" "be_val bs < 256 ^ length bs"
    using be_val_bound [of "(b AND 0x7f) # cs"] be_val_bound [of bs] by (simp_all add: Cons)
  then have "int (be_val ((b AND 0x7f) # cs)) < 256 ^ length bs" "int (be_val bs) < 256 ^ length bs"
    by (metis of_nat_less_iff of_nat_numeral of_nat_power)+
  moreover have "mpi_val bs = - int (be_val ((b AND 0x7f) # cs)) \<or> mpi_val bs = int (be_val bs)"
    by (simp add: Cons)
  ultimately show ?thesis by linarith
qed simp

lemma CastToBigNum_bound:
  assumes "bn_ok E" "CastToBigNum E k v = Some n" "k \<le> 5"
  shows "\<bar>n\<bar> < 2 ^ 40" "n = mpi_val (rev v)"
proof -
  have l: "length v \<le> k" using assms(2) by (auto simp: CastToBigNum_def split: if_splits)
  have s: "setvch E v = mpi_val (rev v)" using l assms(1,3) by (simp add: setvch_eq)
  have "\<bar>mpi_val (rev v)\<bar> < 256 ^ length v" using mpi_val_bound [of "rev v"] by simp
  also have "\<dots> \<le> 256 ^ 5" using l assms(3) by (intro power_increasing) auto
  finally have b: "\<bar>mpi_val (rev v)\<bar> < 2 ^ 40" by simp
  then have "length (mpi_bytes (mpi_val (rev v))) < 2 ^ 32"
    using length_mpi_bytes [of "mpi_val (rev v)" 5] by simp
  then have "n = mpi_val (rev v)"
    using assms(1,2) s by (auto simp: CastToBigNum_def split: if_splits)
  with b show "\<bar>n\<bar> < 2 ^ 40" "n = mpi_val (rev v)" by simp_all
qed

text \<open>An instruction of the main stack keeps every element within the size limit.\<close>

definition keeps :: "stackop \<Rightarrow> bool" where
  "keeps f \<longleftrightarrow> (\<forall>s. stack_ok s \<longrightarrow> length s \<le> 1000 \<longrightarrow> stack_ok (flow_state (f s)))"

lemma keepsI: "(\<And>s. stack_ok s \<Longrightarrow> length s \<le> 1000 \<Longrightarrow> stack_ok (flow_state (f s))) \<Longrightarrow> keeps f"
  by (simp add: keeps_def)

lemmas stack_op_defs = op_verify_def op_2drop_def op_2dup_def op_3dup_def op_2over_def op_2rot_def
  op_2swap_def op_ifdup_def op_drop_def op_dup_def op_nip_def op_over_def op_rot_def op_swap_def
  op_tuck_def

lemma keeps_shuffles:
  "keeps op_verify" "keeps op_2drop" "keeps op_2dup" "keeps op_3dup" "keeps op_2over" "keeps op_2rot"
  "keeps op_2swap" "keeps op_ifdup" "keeps op_drop" "keeps op_dup" "keeps op_nip" "keeps op_over"
  "keeps op_rot" "keeps op_swap" "keeps op_tuck"
  unfolding stack_op_defs by (rule keepsI, auto split: list.splits)+

lemma keeps_equal: "keeps (op_equal v)"
  unfolding op_equal_def Let_def by (rule keepsI) (auto split: list.splits)

lemma keeps_pick_roll: "keeps (op_pick_roll E r)"
  unfolding op_pick_roll_def Let_def
proof (rule keepsI)
  fix s assume "stack_ok s" "length s \<le> 1000"
  then show "stack_ok (flow_state (if length s < 2 then Inl s
      else case CastToBigNum E 4 (hd s) of None \<Rightarrow> Inl s
      | Some bn \<Rightarrow> if getint E bn < 0 \<or> int (length (tl s)) \<le> getint E bn then Inl (tl s)
          else Inr (tl s ! nat (getint E bn) # (if r then take (nat (getint E bn)) (tl s) @
            drop (Suc (nat (getint E bn))) (tl s) else tl s))))"
    by (auto split: option.splits intro!: stack_ok_nth simp del: stack_ok_simps(3))
      (auto intro: stack_ok_nth)
qed

lemma keeps_hashing: "hash_ok E \<Longrightarrow> keeps (op_hashing E opc)"
  unfolding op_hashing_def by (rule keepsI) (auto simp: elem_ok_hash split: list.splits)

lemma elem_ok_1000: "elem_ok v \<Longrightarrow> length v \<le> 1000"
  by (simp add: elem_ok_def MAX_SCRIPT_ELEMENT_SIZE_def)

lemma elem_ok_getvch_nat: "bn_ok E \<Longrightarrow> n \<le> 1000 \<Longrightarrow> elem_ok (getvch E (setulong E n))"
  by (rule elem_ok_getvch) (simp_all add: setulong_def bn_okD(3))

lemma keeps_depth: "bn_ok E \<Longrightarrow> keeps (op_depth E)"
  unfolding op_depth_def by (rule keepsI) (simp add: elem_ok_getvch_nat)

lemma keeps_size: "bn_ok E \<Longrightarrow> keeps (op_size E)"
  unfolding op_size_def
proof (rule keepsI)
  fix s assume "bn_ok E" "stack_ok s" "length s \<le> 1000"
  then show "stack_ok (flow_state (case s of [] \<Rightarrow> Inl s
      | x # r \<Rightarrow> Inr (getvch E (setulong E (length x)) # s)))"
    by (cases s) (auto intro!: elem_ok_getvch_nat elem_ok_1000)
qed

lemma keeps_pushnum: "bn_ok E \<Longrightarrow> opc < 256 \<Longrightarrow> keeps (op_pushnum E opc)"
  unfolding op_pushnum_def by (rule keepsI) (auto intro!: elem_ok_getvch)

lemma keeps_within: "keeps (op_within E)"
  unfolding op_within_def by (rule keepsI) (auto split: list.splits option.splits)

lemma keeps_unary:
  assumes "bn_ok E"
  shows "keeps (op_unary E opc)"
proof (rule keepsI)
  fix s assume s: "stack_ok s" "length s \<le> 1000"
  show "stack_ok (flow_state (op_unary E opc s))"
  proof (cases s)
    case (Cons x r)
    show ?thesis
    proof (cases "CastToBigNum E 4 x")
      case (Some bn)
      then have b: "\<bar>bn\<bar> < 2 ^ 40" using CastToBigNum_bound(1) [OF assms, of 4 x bn] by simp
      have "elem_ok (getvch E v)" if "\<bar>v\<bar> \<le> \<bar>bn\<bar> + 1" for v
        using b that by (intro elem_ok_getvch [OF assms]) simp
      then show ?thesis using s Cons Some assms b by (auto simp: op_unary_def Let_def)
    qed (use s Cons in \<open>simp add: op_unary_def\<close>)
  qed (simp add: op_unary_def)
qed

lemma binary_result_bound:
  assumes "bn_ok E" "\<bar>a\<bar> < 2 ^ 40" "\<bar>b\<bar> < 2 ^ 40"
  shows "\<bar>binary_result E opc a b\<bar> < 2 ^ 64"
proof -
  have I: "\<bar>x\<bar> \<le> k \<Longrightarrow> \<bar>y\<bar> \<le> k \<Longrightarrow> \<bar>if P then x else y\<bar> \<le> k" for x y k :: int and P
    by simp
  have "\<bar>binary_result E opc a b\<bar> \<le> \<bar>a\<bar> + \<bar>b\<bar> + 1"
    unfolding binary_result_def Let_def using assms(1) by (intro I) simp_all
  then show ?thesis using assms(2,3) by simp
qed

lemma keeps_binary:
  assumes "bn_ok E"
  shows "keeps (op_binary E opc)"
proof (rule keepsI)
  fix s assume s: "stack_ok s" "length s \<le> 1000"
  have "elem_ok (getvch E (binary_result E opc a b))"
    if "CastToBigNum E 4 x1 = Some a" "CastToBigNum E 4 x2 = Some b" for x1 x2 a b
    using that CastToBigNum_bound(1) [OF assms, of 4]
    by (intro elem_ok_getvch binary_result_bound assms) simp_all
  then show "stack_ok (flow_state (op_binary E opc s))"
    using s by (auto simp: op_binary_def Let_def split: list.splits option.splits)
qed

text \<open>The state between two instructions.\<close>

definition interp_ok :: "interp \<Rightarrow> bool" where
  "interp_ok i \<longleftrightarrow> stack_ok (stack i) \<and> stack_ok (altstack i)"

definition within_limits :: "interp \<Rightarrow> bool" where
  "within_limits i \<longleftrightarrow> interp_ok i \<and> length (stack i) + length (altstack i) \<le> 1000 \<and> nOpCount i \<le> 201"

definition good :: "nat \<Rightarrow> interp flow \<Rightarrow> bool" where
  "good n r \<longleftrightarrow> interp_ok (flow_state r) \<and> nOpCount (flow_state r) = n"

lemma good_if: "(P \<Longrightarrow> good n x) \<Longrightarrow> (\<not> P \<Longrightarrow> good n y) \<Longrightarrow> good n (if P then x else y)"
  by simp

lemma good_on_stack:
  assumes "keeps f" "interp_ok i" "length (stack i) \<le> 1000" "nOpCount i = n"
  shows "good n (on_stack f i)"
proof -
  have "stack_ok (flow_state (f (stack i)))" using assms(1-3) by (simp add: keeps_def interp_ok_def)
  then show ?thesis using assms(2,4)
    by (cases "f (stack i)") (auto simp: on_stack_def good_def interp_ok_def)
qed

lemma good_control:
  assumes "interp_ok i" "nOpCount i = n"
  shows "good n (Inl i)" "good n (Inr i)" "good n (op_if fExec b i)" "good n (op_else i)" "good n (op_endif i)"
    "good n (op_toaltstack i)" "good n (op_fromaltstack i)" "good n (op_checklocktime E ctx i)"
    "good n (op_nop_n ctx i)" "good n (op_codeseparator pc i)"
  using assms
  by (auto simp: good_def interp_ok_def op_if_def op_else_def op_endif_def op_toaltstack_def Let_def
      op_fromaltstack_def op_checklocktime_def op_nop_n_def op_codeseparator_def
      split: list.splits option.splits)

lemma plain_op_good:
  assumes "bn_ok E" "hash_ok E" "opcode < 256" "interp_ok i" "length (stack i) \<le> 1000"
  shows "good (nOpCount i) (plain_op E ctx fExec opcode pc i)"
proof -
  note keeps = keeps_shuffles keeps_equal keeps_pick_roll keeps_hashing [OF assms(2)]
    keeps_depth [OF assms(1)] keeps_size [OF assms(1)] keeps_pushnum [OF assms(1,3)] keeps_within
    keeps_unary [OF assms(1)] keeps_binary [OF assms(1)]
  show ?thesis unfolding plain_op_def
    by (intro good_if good_control [OF assms(4) refl] good_on_stack [OF _ assms(4,5) refl] keeps)
qed

text \<open>The signature instructions, which also return the cache.\<close>

definition good_sig :: "nat \<Rightarrow> (interp \<times> 'c) flow \<Rightarrow> bool" where
  "good_sig n r \<longleftrightarrow> interp_ok (fst (flow_state r)) \<and> nOpCount (fst (flow_state r)) \<le> n"

lemma op_checksig_good:
  "interp_ok i \<Longrightarrow> good_sig (nOpCount i) (op_checksig chk flags v (i, c))"
  by (auto simp: op_checksig_def good_sig_def interp_ok_def Let_def split: list.splits prod.splits)

lemma op_checkmultisig_good:
  assumes "interp_ok i" "nOpCount i \<le> 201"
  shows "case op_checkmultisig E chk flags v (i, c) of
      Inl (i', c') \<Rightarrow> interp_ok i' | Inr (i', c') \<Rightarrow> interp_ok i' \<and> nOpCount i' \<le> 201"
proof -
  have st: "stack_ok (stack i)" "stack_ok (altstack i)" using assms(1) by (simp_all add: interp_ok_def)
  show ?thesis unfolding op_checkmultisig_def Let_def
    by (auto simp: interp_ok_def st split: option.splits prod.splits if_splits)
qed

lemma exec_op_good:
  assumes "bn_ok E" "hash_ok E" "opcode < 256" "within_limits i"
  shows "case exec_op E chk ctx fExec opcode pc (i, c) of
      Inl (i', c') \<Rightarrow> interp_ok i' | Inr (i', c') \<Rightarrow> interp_ok i' \<and> nOpCount i' \<le> 201"
proof -
  have i: "interp_ok i" "length (stack i) \<le> 1000" "nOpCount i \<le> 201"
    using assms(4) by (simp_all add: within_limits_def)
  have p: "good (nOpCount i) (plain_op E ctx fExec opcode pc i)"
    by (rule plain_op_good [OF assms(1-3) i(1,2)])
  have s: "good_sig (nOpCount i) (op_checksig chk f v (i, c))" for f v
    by (rule op_checksig_good [OF i(1)])
  note m = op_checkmultisig_good [OF i(1,3), of E chk _ _ c]
  have g: "case r of Inl (i', c') \<Rightarrow> interp_ok i' | Inr (i', c') \<Rightarrow> interp_ok i' \<and> nOpCount i' \<le> 201"
    if "good_sig (nOpCount i) r" for r :: "(interp \<times> 'a) flow"
    using that i(3) by (cases r) (auto simp: good_sig_def)
  have q: "good_sig (nOpCount i)
      (map_sum (\<lambda>i. (i, c)) (\<lambda>i. (i, c)) (plain_op E ctx fExec opcode pc i))"
    using p by (cases "plain_op E ctx fExec opcode pc i") (auto simp: good_def good_sig_def)
  show ?thesis unfolding exec_op_def using m g [OF s] g [OF q] by simp
qed

lemma eval_step_limits:
  assumes "bn_ok E" "hash_ok E" "opcode < 256" "within_limits i"
  shows "case eval_step E chk ctx opcode vch pc (i, c) of
      Inl (i', c') \<Rightarrow> interp_ok i' | Inr (i', c') \<Rightarrow> within_limits i'"
proof -
  define j where "j = (if opcode > OP_16 then i\<lparr>nOpCount := nOpCount i + 1\<rparr> else i)"
  have j: "interp_ok j" "stack j = stack i" "altstack j = altstack i" "vfExec j = vfExec i"
    using assms(4) by (auto simp: j_def within_limits_def interp_ok_def)
  show ?thesis
  proof (cases "length vch > MAX_SCRIPT_ELEMENT_SIZE \<or> opcode > OP_16 \<and> nOpCount j > 201 \<or> is_disabled opcode")
    case True
    then have "eval_step E chk ctx opcode vch pc (i, c) = Inl (j, c)"
      unfolding eval_step_def Let_def prod.case j_def [symmetric] by auto
    then show ?thesis using j(1) by simp
  next
    case False
    have wl: "within_limits j"
      using assms(4) False j by (auto simp: within_limits_def j_def split: if_splits)
    define r where "r = (if list_all (\<lambda>b. b) (vfExec i) \<and> opcode \<le> OP_PUSHDATA4
        then Inr (j\<lparr>stack := vch # stack j\<rparr>, c)
        else if list_all (\<lambda>b. b) (vfExec i) \<or> OP_IF \<le> opcode \<and> opcode \<le> OP_ENDIF then
          exec_op E chk ctx (list_all (\<lambda>b. b) (vfExec i)) opcode pc (j, c)
        else Inr (j, c))"
    have step: "eval_step E chk ctx opcode vch pc (i, c) = (case r of Inl ic \<Rightarrow> Inl ic
        | Inr (i, c) \<Rightarrow> if length (stack i) + length (altstack i) > 1000 then Inl (i, c) else Inr (i, c))"
    proof -
      have "\<not> length vch > MAX_SCRIPT_ELEMENT_SIZE" "\<not> (opcode > OP_16 \<and> nOpCount j > 201)"
        "\<not> is_disabled opcode" using False by auto
      then show ?thesis unfolding eval_step_def Let_def prod.case j_def [symmetric] r_def
        by (simp only: if_False)
    qed
    have e: "elem_ok vch" using False by (simp add: elem_ok_def)
    have "case r of Inl (i', c') \<Rightarrow> interp_ok i' | Inr (i', c') \<Rightarrow> interp_ok i' \<and> nOpCount i' \<le> 201"
      using exec_op_good [OF assms(1-3) wl] wl e
      by (auto simp: r_def within_limits_def interp_ok_def)
    then show ?thesis unfolding step
      by (cases r) (auto simp: within_limits_def split: prod.splits)
  qed
qed

lemma GetOp2_opcode_bound: "GetOp2 pc = Some (opcode, v, pc') \<Longrightarrow> opcode < 256"
proof (cases pc)
  case (Cons b q)
  assume "GetOp2 pc = Some (opcode, v, pc')"
  then have "opcode = unat b" by (simp add: Cons GetOp2_iff)
  then show ?thesis by simp
qed (simp add: GetOp2_def)

text \<open>The states of a run: from a program counter and a state to a later one.\<close>

inductive run :: "external \<Rightarrow> 'c checker \<Rightarrow> sigctx \<Rightarrow> script \<times> interp \<times> 'c \<Rightarrow>
    script \<times> interp \<times> 'c \<Rightarrow> bool" for E chk ctx where
  run_refl: "run E chk ctx s s"
| run_step: "GetOp2 pc = Some (opcode, v, pc') \<Longrightarrow> eval_step E chk ctx opcode v pc' ic = Inr ic' \<Longrightarrow>
    run E chk ctx (pc', ic') s \<Longrightarrow> run E chk ctx (pc, ic) s"

inductive_cases run_NilE: "run E chk ctx ([], ic) s"

lemma eval_loop_Nil [simp]: "eval_loop E chk ctx [] ic = Inr ic"
  by (subst eval_loop.simps) simp

lemma eval_loop_step:
  "GetOp2 pc = Some (opcode, v, pc') \<Longrightarrow> eval_loop E chk ctx pc ic =
     (case eval_step E chk ctx opcode v pc' ic of Inl ic' \<Rightarrow> Inl ic' | Inr ic' \<Rightarrow> eval_loop E chk ctx pc' ic')"
  by (subst eval_loop.simps) (auto simp: GetOp2_def)

lemma eval_loop_run: "eval_loop E chk ctx pc ic = Inr ic' \<longleftrightarrow> run E chk ctx (pc, ic) ([], ic')"
proof
  assume "eval_loop E chk ctx pc ic = Inr ic'"
  then show "run E chk ctx (pc, ic) ([], ic')"
  proof (induction E chk ctx pc ic rule: eval_loop.induct)
    case (1 E chk ctx pc ic)
    show ?case
    proof (cases "GetOp2 pc")
      case None
      then have "pc = [] \<and> ic = ic'"
        using "1.prems" by (simp add: eval_loop.simps [of E chk ctx pc] split: if_splits)
      then show ?thesis by (simp add: run_refl)
    next
      case (Some x)
      obtain opcode v pc' where x: "x = (opcode, v, pc')" by (cases x)
      have ne: "pc \<noteq> []" using Some by (auto simp: GetOp2_def)
      have op: "GetOp2 pc = Some (opcode, v, pc')" using Some x by simp
      obtain ic1 where ic1: "eval_step E chk ctx opcode v pc' ic = Inr ic1"
          "eval_loop E chk ctx pc' ic1 = Inr ic'"
        using "1.prems" eval_loop_step [OF op, of E chk ctx ic] by (auto split: sum.splits)
      show ?thesis using run_step [OF op ic1(1)] "1.IH" [OF ne Some x [symmetric] refl ic1] by blast
    qed
  qed
next
  assume "run E chk ctx (pc, ic) ([], ic')"
  then show "eval_loop E chk ctx pc ic = Inr ic'"
    by (induction "(pc, ic)" "([] :: script, ic')" arbitrary: pc ic rule: run.induct)
       (auto simp: eval_loop_step)
qed

lemma run_limits:
  assumes "bn_ok E" "hash_ok E" "run E chk ctx (pc, i, c) (pc', i', c')" "within_limits i"
  shows "within_limits i'"
  using assms(3,4)
proof (induction "(pc, i, c)" "(pc', i', c')" arbitrary: pc i c rule: run.induct)
  case (run_step pc opcode v pc1 ic)
  obtain i1 c1 where ic: "ic = (i1, c1)" by (cases ic)
  have "within_limits i1"
    using eval_step_limits [OF assms(1,2) GetOp2_opcode_bound [OF run_step(1)] run_step(5)]
      run_step(2) ic by (metis (no_types, lifting) case_prod_conv sum.case(2))
  then show ?case using run_step(4) ic by blast
qed auto

lemma eval_loop_induct [case_names stop step]:
  assumes "\<And>pc ic. GetOp2 pc = None \<Longrightarrow> P pc ic"
    and "\<And>pc ic opcode v pc'. GetOp2 pc = Some (opcode, v, pc') \<Longrightarrow> (\<And>ic'. P pc' ic') \<Longrightarrow> P pc ic"
  shows "P pc (ic :: interp \<times> 'c)"
proof (induction "length pc" arbitrary: pc ic rule: less_induct)
  case less
  show ?case
  proof (cases "GetOp2 pc")
    case (Some x)
    obtain opcode v pc' where x: "x = (opcode, v, pc')" by (cases x)
    with Some show ?thesis using assms(2) less GetOp2_shorter by blast
  qed (rule assms(1))
qed

lemma eval_loop_stop: "GetOp2 pc = None \<Longrightarrow> eval_loop E chk ctx pc ic = (if pc = [] then Inr ic else Inl ic)"
  by (subst eval_loop.simps) simp

lemma eval_loop_limits:
  assumes "bn_ok E" "hash_ok E"
  shows "within_limits (fst ic) \<Longrightarrow> case eval_loop E chk ctx pc ic of
      Inl ic' \<Rightarrow> interp_ok (fst ic') | Inr ic' \<Rightarrow> within_limits (fst ic')"
proof (induction pc ic rule: eval_loop_induct)
  case (stop pc ic)
  then show ?case by (simp add: eval_loop_stop within_limits_def)
next
  case (step pc ic opcode v pc')
  obtain i c where ic: "ic = (i, c)" by (cases ic)
  have "case eval_step E chk ctx opcode v pc' ic of
      Inl (i', c') \<Rightarrow> interp_ok i' | Inr (i', c') \<Rightarrow> within_limits i'"
    using eval_step_limits [OF assms GetOp2_opcode_bound [OF step(1)]] step(3) ic by simp
  then show ?case using step(2) ic
    by (cases "eval_step E chk ctx opcode v pc' (i, c)") (auto simp: eval_loop_step [OF step(1)])
qed

section \<open>The result does not depend on the cache\<close>

definition direct_check :: "(valtype \<Rightarrow> valtype \<Rightarrow> script \<Rightarrow> bool) \<Rightarrow> unit checker" where
  "direct_check valid = (\<lambda>u sig key code. (valid sig key code, u))"

text \<open>A flow without its cache.\<close>

definition strip :: "(interp \<times> 'c) flow \<Rightarrow> interp flow" where
  "strip r = map_sum fst fst r"

context sig_checker
begin

lemma op_checksig_direct:
  assumes "inv c"
  shows "strip (op_checksig chk flags v (i, c)) = strip (op_checksig (direct_check valid) flags v (i, ()))"
    "inv (snd (flow_state (op_checksig chk flags v (i, c))))"
  using chk_valid [OF assms] chk_inv [OF assms] assms
  by (auto simp: op_checksig_def strip_def direct_check_def Let_def split: list.splits prod.splits)
    (metis fst_conv snd_conv)+

lemma checked:
  assumes "inv c"
  obtains c' where "(if enc then chk c sig key code else (False, c)) = (enc \<and> valid sig key code, c')" "inv c'"
  using chk_valid [OF assms, of sig key code] chk_inv [OF assms, of sig key code] assms
  by (cases enc; cases "chk c sig key code") auto

lemma multisig_loop_direct:
  "inv c \<Longrightarrow> fst (multisig_loop chk flags code sigs keys c) =
      fst (multisig_loop (direct_check valid) flags code sigs keys ()) \<and>
    inv (snd (multisig_loop chk flags code sigs keys c))"
proof (induction keys arbitrary: sigs c)
  case Nil
  then show ?case by (cases sigs) auto
next
  case (Cons key keys)
  show ?case
  proof (cases sigs)
    case (Cons sig sigs')
    let ?enc = "sig_encoded flags sig key"
    obtain c' where c': "(if ?enc then chk c sig key code else (False, c)) = (?enc \<and> valid sig key code, c')" "inv c'"
      using checked [OF Cons.prems(1)] by blast
    have d: "(if ?enc then direct_check valid () sig key code else (False, ())) = (?enc \<and> valid sig key code, ())"
      by (simp add: direct_check_def)
    show ?thesis using Cons.IH [OF c'(2)] Cons.prems c'(2)
      unfolding Cons multisig_loop.simps Let_def c'(1) d prod.case by simp
  qed (use Cons in auto)
qed

lemma op_checkmultisig_direct:
  assumes "inv c"
  shows "strip (op_checkmultisig E chk flags v (i, c)) =
      strip (op_checkmultisig E (direct_check valid) flags v (i, ())) \<and>
    inv (snd (flow_state (op_checkmultisig E chk flags v (i, c))))"
proof -
  have m: "\<exists>r c'. multisig_loop chk flags code sigs keys c = (r, c') \<and>
      multisig_loop (direct_check valid) flags code sigs keys () = (r, ()) \<and> inv c'" for code sigs keys
    using multisig_loop_direct [OF assms, of flags code sigs keys]
    by (cases "multisig_loop chk flags code sigs keys c";
        cases "multisig_loop (direct_check valid) flags code sigs keys ()") auto
  show ?thesis
  proof (cases "CastToBigNum E 4 (stack i ! 0)")
    case (Some bnKeys)
    let ?nk = "nat (getint E bnKeys)"
    show ?thesis
    proof (cases "CastToBigNum E 4 (stack i ! (1 + ?nk))")
      case (Some bnSigs)
      let ?ns = "nat (getint E bnSigs)"
      let ?sigs = "take ?ns (drop (2 + ?nk) (stack i))"
      obtain r c' where r: "inv c'"
        "multisig_loop chk flags (delete_sigs ?sigs (pbegincodehash i)) ?sigs
          (take ?nk (drop 1 (stack i))) c = (r, c')"
        "multisig_loop (direct_check valid) flags (delete_sigs ?sigs (pbegincodehash i)) ?sigs
          (take ?nk (drop 1 (stack i))) () = (r, ())"
        using m by blast
      show ?thesis unfolding op_checkmultisig_def Let_def prod.case \<open>CastToBigNum E 4 (stack i ! 0) = _\<close>
          Some option.case r(2,3)
        using assms r(1) by (auto simp: strip_def split: option.splits)
    qed (use assms \<open>CastToBigNum E 4 (stack i ! 0) = _\<close> in
        \<open>simp add: op_checkmultisig_def Let_def strip_def\<close>)
  qed (use assms in \<open>simp add: op_checkmultisig_def Let_def strip_def\<close>)
qed

lemma exec_op_direct:
  assumes "inv c"
  shows "strip (exec_op E chk ctx f opc pc (i, c)) =
      strip (exec_op E (direct_check valid) ctx f opc pc (i, ())) \<and>
    inv (snd (flow_state (exec_op E chk ctx f opc pc (i, c))))"
proof -
  have p: "strip (map_sum (\<lambda>i. (i, c)) (\<lambda>i. (i, c)) r) = strip (map_sum (\<lambda>i. (i, ())) (\<lambda>i. (i, ())) r) \<and>
      inv (snd (flow_state (map_sum (\<lambda>i. (i, c)) (\<lambda>i. (i, c)) r)))" for r
    using assms by (cases r) (simp_all add: strip_def)
  show ?thesis unfolding exec_op_def fst_conv snd_conv
    using op_checksig_direct [OF assms] op_checkmultisig_direct [OF assms] p by simp
qed

lemma strip_iff:
  "strip r = strip r' \<longleftrightarrow> (case r of Inl (i, c) \<Rightarrow> (\<exists>c'. r' = Inl (i, c')) | Inr (i, c) \<Rightarrow> (\<exists>c'. r' = Inr (i, c')))"
  by (cases r; cases r') (auto simp: strip_def)

lemma eval_step_direct:
  assumes "inv c"
  shows "strip (eval_step E chk ctx opc v pc (i, c)) =
      strip (eval_step E (direct_check valid) ctx opc v pc (i, ())) \<and>
    inv (snd (flow_state (eval_step E chk ctx opc v pc (i, c))))"
proof -
  define j where "j = (if opc > OP_16 then i\<lparr>nOpCount := nOpCount i + 1\<rparr> else i)"
  have e: "strip (exec_op E chk ctx f opc pc (j, c)) =
      strip (exec_op E (direct_check valid) ctx f opc pc (j, ())) \<and>
    inv (snd (flow_state (exec_op E chk ctx f opc pc (j, c))))" for f
    by (rule exec_op_direct [OF assms])
  show ?thesis unfolding eval_step_def Let_def prod.case j_def [symmetric]
    using assms e [of "list_all (\<lambda>b. b) (vfExec i)"]
    by (cases "exec_op E chk ctx (list_all (\<lambda>b. b) (vfExec i)) opc pc (j, c)";
        cases "exec_op E (direct_check valid) ctx (list_all (\<lambda>b. b) (vfExec i)) opc pc (j, ())")
       (auto simp: strip_def split: prod.splits)
qed

lemma eval_loop_direct:
  "inv (snd ic) \<Longrightarrow> strip (eval_loop E chk ctx pc ic) =
      strip (eval_loop E (direct_check valid) ctx pc (fst ic, ())) \<and>
    inv (snd (flow_state (eval_loop E chk ctx pc ic)))"
proof (induction pc ic rule: eval_loop_induct)
  case (stop pc ic)
  then show ?case by (simp add: eval_loop_stop strip_def)
next
  case (step pc ic opcode v pc')
  obtain i c where ic: "ic = (i, c)" by (cases ic)
  have s: "strip (eval_step E chk ctx opcode v pc' (i, c)) =
      strip (eval_step E (direct_check valid) ctx opcode v pc' (i, ()))"
    "inv (snd (flow_state (eval_step E chk ctx opcode v pc' (i, c))))"
    using eval_step_direct step(3) ic by simp_all
  show ?case
  proof (cases "eval_step E chk ctx opcode v pc' (i, c)")
    case (Inl x)
    then show ?thesis using s ic
      by (cases "eval_step E (direct_check valid) ctx opcode v pc' (i, ())")
         (auto simp: eval_loop_step [OF step(1)] strip_def)
  next
    case (Inr x)
    then obtain i' c' where x: "x = (i', c')" "inv c'"
        "eval_step E (direct_check valid) ctx opcode v pc' (i, ()) = Inr (i', ())"
      using s by (cases x; cases "eval_step E (direct_check valid) ctx opcode v pc' (i, ())")
        (auto simp: strip_def)
    then show ?thesis using Inr step(2) [of "(i', c')"] ic
      by (simp add: eval_loop_step [OF step(1)])
  qed
qed

lemma EvalScript_direct:
  assumes "inv c"
  shows "\<exists>ok st c'. EvalScript E chk ctx stk s c = (ok, st, c') \<and>
    EvalScript E (direct_check valid) ctx stk s () = (ok, st, ()) \<and> inv c'"
proof -
  define i where "i = \<lparr>stack = stk, altstack = [], vfExec = [], pbegincodehash = s, nOpCount = 0\<rparr>"
  show ?thesis
    using eval_loop_direct [of "(i, c)" E ctx s] assms
    by (cases "eval_loop E chk ctx s (i, c)"; cases "eval_loop E (direct_check valid) ctx s (i, ())")
       (auto simp: EvalScript_def strip_def simp flip: i_def)
qed

lemma VerifyScript_direct:
  assumes "inv c"
  shows "fst (VerifyScript E chk ctx ssig spk c) = fst (VerifyScript E (direct_check valid) ctx ssig spk ()) \<and>
    inv (snd (VerifyScript E chk ctx ssig spk c))"
proof -
  obtain ok1 st1 c1 where 1: "EvalScript E chk ctx [] ssig c = (ok1, st1, c1)"
      "EvalScript E (direct_check valid) ctx [] ssig () = (ok1, st1, ())" "inv c1"
    using EvalScript_direct [OF assms] by blast
  obtain ok2 st2 c2 where 2: "EvalScript E chk ctx st1 spk c1 = (ok2, st2, c2)"
      "EvalScript E (direct_check valid) ctx st1 spk () = (ok2, st2, ())" "inv c2"
    using EvalScript_direct [OF 1(3)] by blast
  obtain ok3 st3 c3 where 3: "EvalScript E chk ctx (tl st1) (hd st1) c2 = (ok3, st3, c3)"
      "EvalScript E (direct_check valid) ctx (tl st1) (hd st1) () = (ok3, st3, ())" "inv c3"
    using EvalScript_direct [OF 2(3)] by blast
  show ?thesis using 1(3) 2(3) 3(3)
    by (cases ok1; cases ok2; cases ok3) (auto simp: VerifyScript_def 1(1,2) 2(1,2) 3(1,2))
qed

end

section \<open>Pay to script hash\<close>

lemma hashing_empty:
  assumes "stack i = []" "vfExec i = []"
  shows "\<exists>ic'. eval_step E chk ctx OP_HASH160 [] pc (i, c) = Inl ic'"
  using assms
  by (simp add: eval_step_def Let_def is_disabled_def exec_op_def plain_op_def on_stack_def
      op_hashing_def MAX_SCRIPT_ELEMENT_SIZE_def)

lemma p2sh_needs_stack:
  assumes "IsPayToScriptHash spk"
  shows "\<not> fst (EvalScript E chk ctx [] spk c)"
proof -
  define i where "i = \<lparr>stack = [], altstack = [], vfExec = [], pbegincodehash = spk, nOpCount = 0\<rparr>"
  obtain b q where q: "spk = b # q" "b = of_nat OP_HASH160"
    using assms by (cases spk) (auto simp: IsPayToScriptHash_def)
  have op: "GetOp2 spk = Some (OP_HASH160, [], q)" unfolding q by (rule GetOp2_opcode) simp_all
  obtain ic' where "eval_step E chk ctx OP_HASH160 [] q (i, c) = Inl ic'"
    using hashing_empty [of i E chk ctx q c] by (auto simp: i_def)
  then have "eval_loop E chk ctx spk (i, c) = Inl ic'" by (simp add: eval_loop_step [OF op])
  then show ?thesis by (cases ic') (simp add: EvalScript_def i_def)
qed

lemma VerifyScript_defined: "fst (VerifyScript E chk ctx ssig spk c) \<noteq> None"
  using p2sh_needs_stack [of spk E chk ctx]
  by (auto simp: VerifyScript_def split: prod.splits bool.splits) (metis fst_conv)+

section \<open>Pay to public key hash\<close>

lemma eval_push:
  assumes "length b \<le> MAX_SCRIPT_ELEMENT_SIZE" "vfExec i = []"
    and "length (stack i) + length (altstack i) < 1000"
  shows "eval_loop E chk ctx (push_data [] b @ r) (i, c) = eval_loop E chk ctx r (i\<lparr>stack := b # stack i\<rparr>, c)"
proof -
  have l: "length b < 2 ^ 32" using assms(1) by (simp add: MAX_SCRIPT_ELEMENT_SIZE_def)
  obtain opcode where o: "opcode \<le> OP_PUSHDATA4" "GetOp2 (push_data [] b @ r) = Some (opcode, b, r)"
    using GetOp2_push_dataE [OF l] by metis
  have "\<not> is_disabled opcode" using o(1) by (auto simp: is_disabled_def)
  then have "eval_step E chk ctx opcode b r (i, c) = Inr (i\<lparr>stack := b # stack i\<rparr>, c)"
    using o(1) assms by (simp add: eval_step_def Let_def)
  then show ?thesis by (simp add: eval_loop_step [OF o(2)])
qed

lemma eval_op:
  assumes "OP_PUSHDATA4 < opcode" "opcode < 256"
  shows "eval_loop E chk ctx (of_nat opcode # r) ic =
    (case eval_step E chk ctx opcode [] r ic of Inl ic' \<Rightarrow> Inl ic' | Inr ic' \<Rightarrow> eval_loop E chk ctx r ic')"
  by (rule eval_loop_step [OF GetOp2_opcode [OF assms]])

lemma SetDestination_KeyID:
  "SetDestination (KeyID h) =
     of_nat OP_DUP # of_nat OP_HASH160 # push_data [] (bytes_of_uint160 h) @
     [of_nat OP_EQUALVERIFY, of_nat OP_CHECKSIG]"
  by (simp add: push_opcode_def push_uint160_def push_data_def)

lemmas run_simps = eval_step_def Let_def is_disabled_def exec_op_def plain_op_def on_stack_def
  MAX_SCRIPT_ELEMENT_SIZE_def

lemma p2pkh_steps:
  assumes "vfExec i = []" "altstack i = []" "length (stack i) \<le> 900" "nOpCount i = n" "n < 190"
  shows "stack i = x # r \<Longrightarrow> eval_step E chk ctx OP_DUP [] pc (i, c) =
      Inr (i\<lparr>nOpCount := n + 1, stack := x # x # r\<rparr>, c)"
    and "stack i = x # r \<Longrightarrow> eval_step E chk ctx OP_HASH160 [] pc (i, c) =
      Inr (i\<lparr>nOpCount := n + 1, stack := bytes_of_uint160 (Hash160 E x) # r\<rparr>, c)"
    and "stack i = x # y # r \<Longrightarrow> eval_step E chk ctx OP_EQUALVERIFY [] pc (i, c) =
      (if y = x then Inr (i\<lparr>nOpCount := n + 1, stack := r\<rparr>, c)
       else Inl (i\<lparr>nOpCount := n + 1, stack := vchFalse # r\<rparr>, c))"
  using assms
  by (simp_all add: run_simps op_dup_def op_hashing_def op_equal_def push_bool_def)

lemma checksig_step:
  assumes "vfExec i = []" "altstack i = []" "nOpCount i < 190" "stack i = [key, sig]"
  shows "eval_step E (direct_check valid) ctx OP_CHECKSIG [] pc (i, ()) =
    (let code = snd (FindAndDelete (push_data [] sig) (pbegincodehash i));
         enc = sig_encoded (ctx_flags ctx) sig key; j = i\<lparr>nOpCount := nOpCount i + 1\<rparr> in
     if has_flag (ctx_flags ctx) SCRIPT_VERIFY_STRICTENC \<and> \<not> enc then Inl (j, ())
     else Inr (j\<lparr>stack := [push_bool (enc \<and> valid sig key code)]\<rparr>, ()))"
  using assms by (simp add: run_simps op_checksig_def direct_check_def)

lemma CastToBool_push_bool [simp]: "CastToBool (push_bool b) = b" "CastToBool vchFalse = False"
  by (simp_all add: push_bool_def vchTrue_def vchFalse_def)

lemma p2pkh_direct:
  fixes h :: uint160
  assumes "hash_ok E" "length sig \<le> MAX_SCRIPT_ELEMENT_SIZE" "length key \<le> MAX_SCRIPT_ELEMENT_SIZE"
  defines "spk \<equiv> SetDestination (KeyID h)"
  shows "fst (VerifyScript E (direct_check valid) ctx (push_data [] sig @ push_data [] key) spk ()) =
    Some (Hash160 E key = h \<and> sig_encoded (ctx_flags ctx) sig key \<and>
          valid sig key (snd (FindAndDelete (push_data [] sig) spk)))"
proof -
  have len: "length (push_data [] sig @ push_data [] key) \<le> 10000" "length spk \<le> 10000"
    using assms(2,3) by (auto simp: push_data_def MAX_SCRIPT_ELEMENT_SIZE_def spk_def
        push_opcode_def push_uint160_def)
  have e1: "EvalScript E (direct_check valid) ctx [] (push_data [] sig @ push_data [] key) () = (True, [key, sig], ())"
    using len(1) eval_push [OF assms(3), of _ E "direct_check valid" ctx "[]"]
    by (simp add: EvalScript_def eval_push [OF assms(2)])
  have np: "\<not> IsPayToScriptHash spk"
    by (simp add: IsPayToScriptHash_def spk_def push_opcode_def push_uint160_def)
  let ?i = "\<lparr>stack = [key, sig], altstack = [], vfExec = [], pbegincodehash = spk, nOpCount = 0\<rparr>"
  let ?h = "bytes_of_uint160 (Hash160 E key)" and ?b = "bytes_of_uint160 h"
  have h: "length ?b \<le> MAX_SCRIPT_ELEMENT_SIZE" by (simp add: MAX_SCRIPT_ELEMENT_SIZE_def)
  have "eval_loop E (direct_check valid) ctx spk (?i, ()) =
      eval_loop E (direct_check valid) ctx [of_nat OP_EQUALVERIFY, of_nat OP_CHECKSIG]
        (?i\<lparr>nOpCount := 2, stack := [?b, ?h, key, sig]\<rparr>, ())"
    unfolding spk_def SetDestination_KeyID
    by (subst eval_op; simp add: p2pkh_steps del: of_nat_numeral)
      (subst eval_op; simp add: p2pkh_steps eval_push [OF h] numeral_2_eq_2 del: of_nat_numeral)
  also have "\<dots> = (if ?h \<noteq> ?b then Inl (?i\<lparr>nOpCount := 3, stack := [vchFalse, key, sig]\<rparr>, ())
      else eval_loop E (direct_check valid) ctx [of_nat OP_CHECKSIG] (?i\<lparr>nOpCount := 3\<rparr>, ()))"
    by (subst eval_op; simp add: p2pkh_steps del: of_nat_numeral)
  finally have e2: "eval_loop E (direct_check valid) ctx spk (?i, ()) = \<dots>" .
  define code where "code = snd (FindAndDelete (push_data [] sig) spk)"
  define enc where "enc = sig_encoded (ctx_flags ctx) sig key"
  have e3: "eval_loop E (direct_check valid) ctx [of_nat OP_CHECKSIG] (?i\<lparr>nOpCount := 3\<rparr>, ()) =
      (if has_flag (ctx_flags ctx) SCRIPT_VERIFY_STRICTENC \<and> \<not> enc then Inl (?i\<lparr>nOpCount := 4\<rparr>, ())
       else Inr (?i\<lparr>nOpCount := 4, stack := [push_bool (enc \<and> valid sig key code)]\<rparr>, ()))"
    by (subst eval_op; simp add: checksig_step Let_def code_def enc_def del: of_nat_numeral)
  have e4: "EvalScript E (direct_check valid) ctx [key, sig] spk () =
      (if ?h \<noteq> ?b then (False, [vchFalse, key, sig], ())
       else if has_flag (ctx_flags ctx) SCRIPT_VERIFY_STRICTENC \<and> \<not> enc then (False, [key, sig], ())
       else (True, [push_bool (enc \<and> valid sig key code)], ()))"
    unfolding EvalScript_def e2 e3 using len(2) by simp
  show ?thesis
    using np by (auto simp: VerifyScript_def e1 e4 code_def [symmetric] enc_def [symmetric])
qed

end
