(* ===== verification/Conditionals.thy ===== *)
theory Conditionals
  imports InterpProps
begin

text \<open>
  What the conditional instructions mean. A script that is written as nested blocks has a semantics without
  \<open>vfExec\<close>: an \<open>OP_IF\<close> takes a value off the stack and executes one branch, and every further \<open>OP_ELSE\<close>
  changes between executing and passing over, which only counts and checks instructions. The interpreter,
  which keeps a stack of flags and looks at one instruction at a time, computes the same (\<open>EvalScript_program\<close>).
\<close>

section \<open>Programs\<close>

text \<open>An instruction has its opcode, the data it pushes, and its bytes; a conditional may have any number of
  branches.\<close>

datatype program =
    Finish
  | Instruction opcodetype valtype script program
  | Conditional bool branches program
and branches =
    Last_Branch program
  | Branch program branches

primrec emit :: "program \<Rightarrow> script" and emit_branches :: "branches \<Rightarrow> script" where
  "emit Finish = []"
| "emit (Instruction opcode v enc p) = enc @ emit p"
| "emit (Conditional notif bs p) = (if notif then 0x64 else 0x63) # emit_branches bs @ emit p"
| "emit_branches (Last_Branch p) = emit p @ [0x68]"
| "emit_branches (Branch p bs) = emit p @ 0x67 # emit_branches bs"

text \<open>The bytes of an instruction are those of its opcode and data, and it is not a conditional.\<close>

primrec program_ok :: "program \<Rightarrow> bool" and branches_ok :: "branches \<Rightarrow> bool" where
  "program_ok Finish = True"
| "program_ok (Instruction opcode v enc p) =
     (GetOp2 enc = Some (opcode, v, []) \<and> \<not> (OP_IF \<le> opcode \<and> opcode \<le> OP_ENDIF) \<and> program_ok p)"
| "program_ok (Conditional notif bs p) = (branches_ok bs \<and> program_ok p)"
| "branches_ok (Last_Branch p) = program_ok p"
| "branches_ok (Branch p bs) = (program_ok p \<and> branches_ok bs)"

section \<open>Their meaning\<close>

definition and_then :: "('s \<Rightarrow> 's flow) \<Rightarrow> ('s \<Rightarrow> 's flow) \<Rightarrow> 's \<Rightarrow> 's flow" where
  "and_then f g s = (case f s of Inl t \<Rightarrow> Inl t | Inr t \<Rightarrow> g t)"

text \<open>The limits every instruction is subject to, executed or not.\<close>

definition counted :: "opcodetype \<Rightarrow> valtype \<Rightarrow> (interp \<times> 'c \<Rightarrow> (interp \<times> 'c) flow) \<Rightarrow> interp \<times> 'c \<Rightarrow> (interp \<times> 'c) flow" where
  "counted opcode v act = (\<lambda>(i, c).
     let i = (if opcode > OP_16 then i\<lparr>nOpCount := nOpCount i + 1\<rparr> else i) in
     if length v > 520 \<or> opcode > OP_16 \<and> nOpCount i > 201 \<or> is_disabled opcode then Inl (i, c)
     else and_then act
       (\<lambda>(i, c). if length (stack i) + length (altstack i) > 1000 then Inl (i, c) else Inr (i, c)) (i, c))"

definition push_value :: "valtype \<Rightarrow> interp \<times> 'c \<Rightarrow> (interp \<times> 'c) flow" where
  "push_value v = (\<lambda>(i, c). Inr (i\<lparr>stack := v # stack i\<rparr>, c))"

definition pop_value :: "interp \<times> 'c \<Rightarrow> (interp \<times> 'c) flow" where
  "pop_value = (\<lambda>(i, c). if stack i = [] then Inl (i, c) else Inr (i\<lparr>stack := tl (stack i)\<rparr>, c))"

definition condition :: "bool \<Rightarrow> interp \<times> 'c \<Rightarrow> bool" where
  "condition notif ic \<longleftrightarrow> CastToBool (hd (stack (fst ic))) \<noteq> notif"

primrec skip :: "program \<Rightarrow> interp \<times> 'c \<Rightarrow> (interp \<times> 'c) flow"
  and skip_branches :: "branches \<Rightarrow> interp \<times> 'c \<Rightarrow> (interp \<times> 'c) flow" where
  "skip Finish = Inr"
| "skip (Instruction opcode v enc p) = and_then (counted opcode v Inr) (skip p)"
| "skip (Conditional notif bs p) =
     and_then (counted (if notif then 0x64 else 0x63) [] Inr) (and_then (skip_branches bs) (skip p))"
| "skip_branches (Last_Branch p) = and_then (skip p) (counted 0x68 [] Inr)"
| "skip_branches (Branch p bs) = and_then (skip p) (and_then (counted 0x67 [] Inr) (skip_branches bs))"

text \<open>\<open>rest\<close> is what follows in the script: \<open>OP_CODESEPARATOR\<close> remembers it.\<close>

primrec exec :: "external \<Rightarrow> 'c checker \<Rightarrow> sigctx \<Rightarrow> program \<Rightarrow> script \<Rightarrow> interp \<times> 'c \<Rightarrow> (interp \<times> 'c) flow"
  and exec_branches ::
    "external \<Rightarrow> 'c checker \<Rightarrow> sigctx \<Rightarrow> branches \<Rightarrow> bool \<Rightarrow> script \<Rightarrow> interp \<times> 'c \<Rightarrow> (interp \<times> 'c) flow" where
  "exec E chk ctx Finish rest = Inr"
| "exec E chk ctx (Instruction opcode v enc p) rest =
     and_then (counted opcode v (if opcode \<le> OP_PUSHDATA4 then push_value v
         else exec_op E chk ctx True opcode (emit p @ rest)))
       (exec E chk ctx p rest)"
| "exec E chk ctx (Conditional notif bs p) rest = (\<lambda>ic.
     and_then (counted (if notif then 0x64 else 0x63) [] pop_value)
       (and_then (exec_branches E chk ctx bs (condition notif ic) (emit p @ rest)) (exec E chk ctx p rest)) ic)"
| "exec_branches E chk ctx (Last_Branch p) b rest =
     and_then (if b then exec E chk ctx p (0x68 # rest) else skip p) (counted 0x68 [] Inr)"
| "exec_branches E chk ctx (Branch p bs) b rest =
     and_then (if b then exec E chk ctx p (0x67 # emit_branches bs @ rest) else skip p)
       (and_then (counted 0x67 [] Inr) (exec_branches E chk ctx bs (\<not> b) rest))"

section \<open>The flags of the interpreter\<close>

definition with_flags :: "bool list \<Rightarrow> interp \<times> 'c \<Rightarrow> interp \<times> 'c" where
  "with_flags vs = (\<lambda>(i, c). (i\<lparr>vfExec := vs\<rparr>, c))"

lemma with_flags_simps [simp]:
  "with_flags vs (i, c) = (i\<lparr>vfExec := vs\<rparr>, c)" "with_flags vs (with_flags ws ic) = with_flags vs ic"
  by (simp_all add: with_flags_def split: prod.splits)

definition flow_with_flags :: "bool list \<Rightarrow> (interp \<times> 'c) flow \<Rightarrow> (interp \<times> 'c) flow" where
  "flow_with_flags vs r = map_sum (with_flags vs) (with_flags vs) r"

lemma flow_with_flags_simps [simp]:
  "flow_with_flags vs (Inl ic) = Inl (with_flags vs ic)" "flow_with_flags vs (Inr ic) = Inr (with_flags vs ic)"
  by (simp_all add: flow_with_flags_def)

text \<open>Of a failure only the stack and the cache matter; a success goes on with the given flags.\<close>

definition settle :: "(interp \<times> 'c) flow \<Rightarrow> (valtype list \<times> 'c) + (interp \<times> 'c)" where
  "settle r = map_sum (\<lambda>(i, c). (stack i, c)) id r"

definition moves :: "bool list \<Rightarrow> (interp \<times> 'c) flow \<Rightarrow> (valtype list \<times> 'c) + (interp \<times> 'c)" where
  "moves ws r = map_sum (\<lambda>(i, c). (stack i, c)) (with_flags ws) r"

lemma settle_simps [simp]:
  "settle (Inl (i, c)) = Inl (stack i, c)" "settle (Inr ic) = Inr ic"
  "moves ws (Inl (i, c)) = Inl (stack i, c)" "moves ws (Inr ic) = Inr (with_flags ws ic)"
  by (simp_all add: settle_def moves_def)

lemma settle_eq_simps [simp]:
  "settle r = Inl (s, c) \<longleftrightarrow> (\<exists>i. r = Inl (i, c) \<and> stack i = s)" "settle r = Inr ic \<longleftrightarrow> r = Inr ic"
  by (cases r; auto)+

lemma settle_flow_with_flags [simp]: "settle (flow_with_flags vs r) = moves vs r"
  by (cases r) (auto simp: with_flags_def split: prod.splits)

text \<open>Instructions other than the conditionals neither read nor change the flags.\<close>

definition flag_free :: "(interp \<Rightarrow> interp flow) \<Rightarrow> bool" where
  "flag_free f \<longleftrightarrow> (\<forall>i vs. f (i\<lparr>vfExec := vs\<rparr>) = map_sum (\<lambda>i. i\<lparr>vfExec := vs\<rparr>) (\<lambda>i. i\<lparr>vfExec := vs\<rparr>) (f i))"

lemma flag_free_if: "flag_free f \<Longrightarrow> flag_free g \<Longrightarrow> flag_free (\<lambda>i. if P then f i else g i)"
  by (simp add: flag_free_def)

lemma flag_free_on_stack: "flag_free (on_stack f)"
  unfolding flag_free_def
proof (intro allI)
  fix i vs
  show "on_stack f (i\<lparr>vfExec := vs\<rparr>) = map_sum (\<lambda>i. i\<lparr>vfExec := vs\<rparr>) (\<lambda>i. i\<lparr>vfExec := vs\<rparr>) (on_stack f i)"
    by (cases "f (stack i)"; cases i) (simp_all add: on_stack_def)
qed

lemma flag_free_ops:
  "flag_free Inr" "flag_free Inl" "flag_free (op_checklocktime E ctx)" "flag_free (op_nop_n ctx)"
  "flag_free op_toaltstack" "flag_free op_fromaltstack" "flag_free (op_codeseparator pc)"
  unfolding flag_free_def
  by (simp_all add: op_checklocktime_def op_nop_n_def op_toaltstack_def op_fromaltstack_def
      op_codeseparator_def split: list.splits option.splits)

lemma flag_free_plain_op: "\<not> (OP_IF \<le> opcode \<and> opcode \<le> OP_ENDIF) \<Longrightarrow> flag_free (plain_op E ctx True opcode pc)"
proof -
  assume "\<not> (OP_IF \<le> opcode \<and> opcode \<le> OP_ENDIF)"
  then have "opcode \<noteq> 0x63" "opcode \<noteq> 0x64" "opcode \<noteq> 0x67" "opcode \<noteq> 0x68" by auto
  then have e: "(opcode = 0x63) = False" "(opcode = 0x64) = False"
    "(opcode = 0x67) = False" "(opcode = 0x68) = False" by simp_all
  show ?thesis
    unfolding plain_op_def e if_False by (intro flag_free_if flag_free_ops flag_free_on_stack)
qed

lemma exec_op_flags:
  assumes "\<not> (OP_IF \<le> opcode \<and> opcode \<le> OP_ENDIF)"
  shows "exec_op E chk ctx True opcode pc (with_flags vs ic) = flow_with_flags vs (exec_op E chk ctx True opcode pc ic)"
proof -
  obtain i c where ic: "ic = (i, c)" by fastforce
  have p: "plain_op E ctx True opcode pc (i\<lparr>vfExec := vs\<rparr>) =
      map_sum (\<lambda>i. i\<lparr>vfExec := vs\<rparr>) (\<lambda>i. i\<lparr>vfExec := vs\<rparr>) (plain_op E ctx True opcode pc i)"
    using flag_free_plain_op [OF assms] by (simp add: flag_free_def)
  have flags_first: "j\<lparr>stack := s, vfExec := vs\<rparr> = j\<lparr>vfExec := vs, stack := s\<rparr>"
    "j\<lparr>nOpCount := n, vfExec := vs\<rparr> = j\<lparr>vfExec := vs, nOpCount := n\<rparr>"
    "j\<lparr>nOpCount := n, stack := s, vfExec := vs\<rparr> = j\<lparr>vfExec := vs, nOpCount := n, stack := s\<rparr>"
    for j :: interp and s n by (cases j; simp)+
  note distribs = if_distrib [where f = "flow_with_flags vs"] option.case_distrib [where h = "flow_with_flags vs"]
    prod.case_distrib [where h = "flow_with_flags vs"] list.case_distrib [where h = "flow_with_flags vs"]
  have s: "op_checksig chk f v (i\<lparr>vfExec := vs\<rparr>, c) = flow_with_flags vs (op_checksig chk f v (i, c))" for f v
    by (simp add: op_checksig_def Let_def distribs flags_first cong: if_cong list.case_cong prod.case_cong)
  have m: "op_checkmultisig E chk f v (i\<lparr>vfExec := vs\<rparr>, c) = flow_with_flags vs (op_checkmultisig E chk f v (i, c))" for f v
    by (simp add: op_checkmultisig_def Let_def distribs flags_first cong: if_cong option.case_cong prod.case_cong)
  show ?thesis
    unfolding ic exec_op_def with_flags_simps fst_conv snd_conv s m p
    by (cases "plain_op E ctx True opcode pc i") simp_all
qed

section \<open>One instruction\<close>

text \<open>A step of the interpreter is a counted action.\<close>

lemma eval_step_counted:
  "eval_step E chk ctx opcode v pc = (\<lambda>(i, c). counted opcode v
     (let fExec = list_all (\<lambda>b. b) (vfExec i) in
      if fExec \<and> opcode \<le> OP_PUSHDATA4 then push_value v
      else if fExec \<or> OP_IF \<le> opcode \<and> opcode \<le> OP_ENDIF then exec_op E chk ctx fExec opcode pc else Inr) (i, c))"
  by (rule ext) (auto simp: eval_step_def counted_def and_then_def push_value_def Let_def MAX_SCRIPT_ELEMENT_SIZE_def
      split: prod.splits sum.splits)

lemma counted_moves:
  assumes "\<And>k. stack k = stack (fst ic) \<Longrightarrow> settle (act' (with_flags us (k, snd ic))) = moves ws (act (k, snd ic))"
  shows "settle (counted opcode v act' (with_flags us ic)) = moves ws (counted opcode v act ic)"
proof -
  obtain i c where ic: "ic = (i, c)" by fastforce
  define j where "j = (if opcode > OP_16 then i\<lparr>nOpCount := nOpCount i + 1\<rparr> else i)"
  have j: "(if opcode > OP_16 then (i\<lparr>vfExec := us\<rparr>)\<lparr>nOpCount := nOpCount (i\<lparr>vfExec := us\<rparr>) + 1\<rparr> else i\<lparr>vfExec := us\<rparr>) =
      j\<lparr>vfExec := us\<rparr>" by (cases i) (simp add: j_def)
  have a: "settle (act' (j\<lparr>vfExec := us\<rparr>, c)) = moves ws (act (j, c))" using assms [of j] by (simp add: ic j_def)
  show ?thesis
    unfolding ic with_flags_simps counted_def prod.case Let_def j j_def [symmetric] and_then_def
    by (cases "act (j, c)"; cases "act' (j\<lparr>vfExec := us\<rparr>, c)") (use a in \<open>auto split: prod.splits\<close>)
qed

lemma step_executed:
  assumes "\<not> (OP_IF \<le> opcode \<and> opcode \<le> OP_ENDIF)" "list_all (\<lambda>b. b) vs"
  shows "settle (eval_step E chk ctx opcode v pc (with_flags vs ic)) = moves vs (counted opcode v
    (if opcode \<le> OP_PUSHDATA4 then push_value v else exec_op E chk ctx True opcode pc) ic)"
proof -
  let ?act = "if opcode \<le> OP_PUSHDATA4 then push_value v else exec_op E chk ctx True opcode pc"
  have "eval_step E chk ctx opcode v pc (with_flags vs ic) = counted opcode v ?act (with_flags vs ic)"
    using assms(2) by (cases ic) (simp add: eval_step_counted)
  moreover have "settle (?act (with_flags vs (k, snd ic))) = moves vs (?act (k, snd ic))" for k
    using exec_op_flags [OF assms(1), of E chk ctx pc vs "(k, snd ic)"] by (auto simp: push_value_def)
  ultimately show ?thesis by (simp only: counted_moves)
qed

lemma step_skipped:
  assumes "\<not> (OP_IF \<le> opcode \<and> opcode \<le> OP_ENDIF)" "\<not> list_all (\<lambda>b. b) vs"
  shows "settle (eval_step E chk ctx opcode v pc (with_flags vs ic)) = moves vs (counted opcode v Inr ic)"
proof -
  have "eval_step E chk ctx opcode v pc (with_flags vs ic) = counted opcode v Inr (with_flags vs ic)"
    using assms by (cases ic) (auto simp: eval_step_counted)
  then show ?thesis by (simp only: counted_moves settle_simps)
qed

text \<open>The conditionals, with the flag of the innermost one in front.\<close>

lemma step_if:
  assumes "list_all (\<lambda>b. b) vs"
  shows "settle (eval_step E chk ctx (if notif then 0x64 else 0x63) [] pc (with_flags vs ic)) =
    moves (condition notif ic # vs) (counted (if notif then 0x64 else 0x63) [] pop_value ic)"
proof -
  let ?act = "exec_op E chk ctx True (if notif then 0x64 else 0x63) pc"
  have "eval_step E chk ctx (if notif then 0x64 else 0x63) [] pc (with_flags vs ic) =
      counted (if notif then 0x64 else 0x63) [] ?act (with_flags vs ic)"
    using assms by (cases ic) (auto simp: eval_step_counted)
  moreover have "settle (?act (with_flags vs (k, snd ic))) = moves (condition notif ic # vs) (pop_value (k, snd ic))"
    if "stack k = stack (fst ic)" for k
    using that by (auto simp: exec_op_def plain_op_def op_if_def pop_value_def condition_def split: list.splits)
  ultimately show ?thesis by (simp only: counted_moves)
qed

lemma step_if_skipped:
  assumes "\<not> list_all (\<lambda>b. b) vs"
  shows "settle (eval_step E chk ctx (if notif then 0x64 else 0x63) [] pc (with_flags vs ic)) =
    moves (False # vs) (counted (if notif then 0x64 else 0x63) [] Inr ic)"
proof -
  let ?act = "exec_op E chk ctx False (if notif then 0x64 else 0x63) pc"
  have "eval_step E chk ctx (if notif then 0x64 else 0x63) [] pc (with_flags vs ic) =
      counted (if notif then 0x64 else 0x63) [] ?act (with_flags vs ic)"
    using assms by (cases ic) (auto simp: eval_step_counted)
  moreover have "settle (?act (with_flags vs (k, snd ic))) = moves (False # vs) (Inr (k, snd ic))" for k
    by (auto simp: exec_op_def plain_op_def op_if_def)
  ultimately show ?thesis by (simp only: counted_moves)
qed

lemma step_else_endif:
  "settle (eval_step E chk ctx 0x67 [] pc (with_flags (b # vs) ic)) = moves ((\<not> b) # vs) (counted 0x67 [] Inr ic)"
  "settle (eval_step E chk ctx 0x68 [] pc (with_flags (b # vs) ic)) = moves vs (counted 0x68 [] Inr ic)"
proof -
  let ?act = "\<lambda>opcode. exec_op E chk ctx (list_all (\<lambda>b. b) (b # vs)) opcode pc"
  have "eval_step E chk ctx opcode [] pc (with_flags (b # vs) ic) = counted opcode [] (?act opcode) (with_flags (b # vs) ic)"
    if "opcode \<in> {0x67, 0x68}" for opcode using that by (cases ic) (auto simp: eval_step_counted)
  moreover have "settle (?act 0x67 (with_flags (b # vs) (k, snd ic))) = moves ((\<not> b) # vs) (Inr (k, snd ic))"
    "settle (?act 0x68 (with_flags (b # vs) (k, snd ic))) = moves vs (Inr (k, snd ic))" for k
    by (simp_all add: exec_op_def plain_op_def op_else_def op_endif_def)
  ultimately show "settle (eval_step E chk ctx 0x67 [] pc (with_flags (b # vs) ic)) = moves ((\<not> b) # vs) (counted 0x67 [] Inr ic)"
    "settle (eval_step E chk ctx 0x68 [] pc (with_flags (b # vs) ic)) = moves vs (counted 0x68 [] Inr ic)"
    by (simp_all only: counted_moves insertI1 insertI2)
qed

section \<open>The interpreter runs programs\<close>

text \<open>A result, and what is done after a success.\<close>

definition after :: "(valtype list \<times> 'c) + (interp \<times> 'c) \<Rightarrow>
    (interp \<times> 'c \<Rightarrow> (valtype list \<times> 'c) + (interp \<times> 'c)) \<Rightarrow> (valtype list \<times> 'c) + (interp \<times> 'c)" where
  "after r f = (case r of Inl x \<Rightarrow> Inl x | Inr ic \<Rightarrow> f ic)"

lemma after_simps [simp]:
  "after (Inl x) f = Inl x" "after (Inr ic) f = f ic" "after (settle (Inr ic)) f = f ic"
  by (simp_all add: after_def)

lemma after_and_then: "after (settle (and_then f g ic)) h = after (settle (f ic)) (\<lambda>ic. after (settle (g ic)) h)"
  by (cases "f ic") (auto simp: and_then_def)

lemma after_moves: "after (moves vs r) f = after (settle r) (\<lambda>ic. f (with_flags vs ic))"
  by (cases r) auto

lemma eval_loop_after:
  assumes "GetOp2 pc = Some (opcode, v, pc')"
  shows "settle (eval_loop E chk ctx pc ic) =
    after (settle (eval_step E chk ctx opcode v pc' ic)) (\<lambda>ic. settle (eval_loop E chk ctx pc' ic))"
  unfolding eval_loop_step [OF assms] by (cases "eval_step E chk ctx opcode v pc' ic") auto

lemma GetOp2_conditional: "GetOp2 (0x63 # r) = Some (0x63, [], r)" "GetOp2 (0x64 # r) = Some (0x64, [], r)"
  "GetOp2 (0x67 # r) = Some (0x67, [], r)" "GetOp2 (0x68 # r) = Some (0x68, [], r)"
  by (simp_all add: GetOp2_def)

lemma GetOp2_enc: "GetOp2 enc = Some (opcode, v, []) \<Longrightarrow> GetOp2 (enc @ r) = Some (opcode, v, r)"
  by (erule GetOp2_prefix) simp

lemma skip_loop:
  shows "program_ok p \<Longrightarrow> \<not> list_all (\<lambda>b. b) vs \<Longrightarrow> settle (eval_loop E chk ctx (emit p @ rest) (with_flags vs ic)) =
      after (settle (skip p ic)) (\<lambda>ic. settle (eval_loop E chk ctx rest (with_flags vs ic)))"
    and "branches_ok bs \<Longrightarrow> \<not> list_all (\<lambda>b. b) vs \<Longrightarrow>
      settle (eval_loop E chk ctx (emit_branches bs @ rest) (with_flags (b # vs) ic)) =
      after (settle (skip_branches bs ic)) (\<lambda>ic. settle (eval_loop E chk ctx rest (with_flags vs ic)))"
proof (induction p and bs arbitrary: vs ic rest and vs ic rest b)
  case (Instruction opcode v enc p)
  then show ?case by (simp add: eval_loop_after [OF GetOp2_enc] step_skipped after_moves after_and_then)
next
  case (Conditional notif bs p)
  have op: "GetOp2 ((if notif then 0x64 else 0x63) # r) = Some (if notif then 0x64 else 0x63, [], r)" for r
    by (simp add: GetOp2_conditional)
  show ?case using Conditional
    by (simp add: eval_loop_after [OF op] step_if_skipped after_moves after_and_then)
next
  case (Last_Branch p)
  then show ?case by (simp add: eval_loop_after [OF GetOp2_conditional(4)] step_else_endif after_moves after_and_then)
next
  case (Branch p bs)
  then show ?case by (simp add: eval_loop_after [OF GetOp2_conditional(3)] step_else_endif after_moves after_and_then)
qed simp

lemma exec_loop:
  shows "program_ok p \<Longrightarrow> list_all (\<lambda>b. b) vs \<Longrightarrow> settle (eval_loop E chk ctx (emit p @ rest) (with_flags vs ic)) =
      after (settle (exec E chk ctx p rest ic)) (\<lambda>ic. settle (eval_loop E chk ctx rest (with_flags vs ic)))"
    and "branches_ok bs \<Longrightarrow> list_all (\<lambda>b. b) vs \<Longrightarrow>
      settle (eval_loop E chk ctx (emit_branches bs @ rest) (with_flags (b # vs) ic)) =
      after (settle (exec_branches E chk ctx bs b rest ic)) (\<lambda>ic. settle (eval_loop E chk ctx rest (with_flags vs ic)))"
proof (induction p and bs arbitrary: vs ic rest and vs ic rest b)
  case (Instruction opcode v enc p)
  then show ?case by (simp add: eval_loop_after [OF GetOp2_enc] step_executed after_moves after_and_then)
next
  case (Conditional notif bs p)
  have op: "GetOp2 ((if notif then 0x64 else 0x63) # r) = Some (if notif then 0x64 else 0x63, [], r)" for r
    by (simp add: GetOp2_conditional)
  show ?case using Conditional
    by (simp add: eval_loop_after [OF op] step_if after_moves after_and_then)
next
  case (Last_Branch p)
  show ?case
    by (cases b) (use Last_Branch skip_loop(1) [of p "False # vs" E chk ctx] in
      \<open>simp_all add: eval_loop_after [OF GetOp2_conditional(4)] step_else_endif after_moves after_and_then\<close>)
next
  case (Branch p bs)
  show ?case
    by (cases b) (use Branch skip_loop(1) [of p "False # vs" E chk ctx] in
      \<open>simp_all add: eval_loop_after [OF GetOp2_conditional(3)] step_else_endif after_moves after_and_then\<close>)
qed simp

lemma EvalScript_too_long: "length s > 10000 \<Longrightarrow> EvalScript E chk ctx stk s c = (False, stk, c)"
  by (simp add: EvalScript_def)

lemma EvalScript_program:
  assumes "program_ok p" "length (emit p) \<le> 10000"
  shows "EvalScript E chk ctx stk (emit p) c =
    (case exec E chk ctx p [] (\<lparr>stack = stk, altstack = [], vfExec = [], pbegincodehash = emit p, nOpCount = 0\<rparr>, c) of
       Inl (i, c') \<Rightarrow> (False, stack i, c')
     | Inr (i, c') \<Rightarrow> (True, stack i, c'))"
proof -
  let ?i = "\<lparr>stack = stk, altstack = [], vfExec = [], pbegincodehash = emit p, nOpCount = 0\<rparr>"
  have "settle (eval_loop E chk ctx (emit p) (?i, c)) =
      after (settle (exec E chk ctx p [] (?i, c))) (\<lambda>ic. Inr (with_flags [] ic))"
    using exec_loop(1) [OF assms(1), of "[]" E chk ctx "[]" "(?i, c)"] by simp
  then show ?thesis
    using assms(2) by (cases "exec E chk ctx p [] (?i, c)"; cases "eval_loop E chk ctx (emit p) (?i, c)")
      (auto simp: EvalScript_def)
qed

end
