(* ===== verification/ScriptSpec.thy ===== *)
theory ScriptSpec
  imports Conditionals
begin

text \<open>
  The properties of the script subsystem (\<open>script.cpp\<close>, \<open>script.h\<close>): input verification and the
  signature cache, the interpreter's limits, the standard pay-to-public-key-hash spend, signature
  encoding, \<open>FindAndDelete\<close>, signature-operation counting and the compressed script form.
\<close>

section \<open>A concrete setting\<close>

definition ctx0 :: sigctx where
  "ctx0 = \<lparr>txTo = \<lparr>tx_nVersion = 1, tx_nTime = 0, vin = [], vout = [], nLockTime = 0\<rparr>, nIn = 0,
     ctx_flags = MANDATORY_SCRIPT_VERIFY_FLAGS, ctx_hashType = 0\<rparr>"

definition cache0 :: sigcache where
  "cache0 = \<lparr>setValid = [], nMaxCacheSize = 2, randHashes = (\<lambda>_. 2), randPos = 0\<rparr>"

definition entry :: "nat \<Rightarrow> sigdata" where
  "entry n = (of_nat n, [1], CPubKey (2 # replicate 32 1))"

definition cache1 :: sigcache where
  "cache1 = \<lparr>setValid = [entry 1, entry 2], nMaxCacheSize = 2, randHashes = (\<lambda>_. 2), randPos = 0\<rparr>"

lemma cache0_ok: "cache_sound E cache0" "cache_wf cache0"
  by (simp_all add: cache0_def cache_sound_def cache_wf_def)

section \<open>Input verification\<close>

text \<open>C1: A spend of a pay-to-public-key-hash output. Whatever sound entries the signature cache
  holds, \<open>VerifyScript\<close> on the input script \<open><sig> <key>\<close> and the output script that
  \<open>SetDestination\<close> writes for the key hash \<open>h\<close> accepts exactly when the key hashes to \<open>h\<close>, the
  signature and key pass the encoding rules of the flags, and the signature is valid for the script
  with the signature removed; and the cache stays sound.\<close>

theorem p2pkh_spend:
  assumes "hash_ok E" "cache_sound E c"
    and "length sig \<le> MAX_SCRIPT_ELEMENT_SIZE" "length key \<le> MAX_SCRIPT_ELEMENT_SIZE"
  shows "fst (VerifyScript E (CheckSig E ctx) ctx (push_data [] sig @ push_data [] key)
        (SetDestination (KeyID h)) c) =
      Some (Hash160 E key = h \<and> sig_encoded (ctx_flags ctx) sig key \<and>
        sig_valid E ctx sig key (snd (FindAndDelete (push_data [] sig) (SetDestination (KeyID h))))) \<and>
    cache_sound E (snd (VerifyScript E (CheckSig E ctx) ctx (push_data [] sig @ push_data [] key)
        (SetDestination (KeyID h)) c))"
  using cached.VerifyScript_direct [OF assms(2)] p2pkh_direct [OF assms(1,3,4)] by metis

lemma p2pkh_spend_witness:
  "fst (VerifyScript openssl_ref (CheckSig openssl_ref ctx0) ctx0 (push_data [] [] @ push_data [] [2])
     (SetDestination (KeyID (Hash160 openssl_ref [2]))) cache0) = Some False"
  using p2pkh_spend [OF openssl_ref_hash_ok cache0_ok(1), of "[]" "[2]" ctx0 "Hash160 openssl_ref [2]"]
  by (simp add: MAX_SCRIPT_ELEMENT_SIZE_def sig_valid_def)

text \<open>C7: The signature cache is invisible. For every pair of scripts, with any sound cache of
  verified signatures, \<open>VerifyScript\<close> gives the result it gives when every signature check is made
  afresh, and it leaves a sound cache that is still ordered, duplicate-free and within its bound.\<close>

theorem VerifyScript_cache_transparent:
  assumes "cache_sound E c" "cache_wf c"
  shows "fst (VerifyScript E (CheckSig E ctx) ctx ssig spk c) =
      fst (VerifyScript E (\<lambda>u s k code. (sig_valid E ctx s k code, u)) ctx ssig spk ()) \<and>
    cache_sound E (snd (VerifyScript E (CheckSig E ctx) ctx ssig spk c)) \<and>
    cache_wf (snd (VerifyScript E (CheckSig E ctx) ctx ssig spk c))"
  using bounded.VerifyScript_direct [of E c E ctx ctx ssig spk]
    uncached.VerifyScript_direct [of E E ctx ctx ssig spk "()"] assms by simp

lemma VerifyScript_cache_transparent_witness:
  "fst (VerifyScript openssl_ref (CheckSig openssl_ref ctx0) ctx0 [0x51] [0x61] cache0) =
   fst (VerifyScript openssl_ref (\<lambda>u s k code. (sig_valid openssl_ref ctx0 s k code, u)) ctx0 [0x51] [0x61] ())"
  using VerifyScript_cache_transparent [OF cache0_ok] by blast

text \<open>C12: Verification is total: on every transaction, flags, scripts and cache \<open>VerifyScript\<close> gives
  a verdict. In particular a pay-to-script-hash input script that leaves an empty stack never
  reaches the read of the top of the copied stack, which would be undefined.\<close>

theorem VerifyScript_total:
  "\<exists>ok. fst (VerifyScript E chk ctx ssig spk c) = Some ok"
  using VerifyScript_defined [of E chk ctx ssig spk c] by blast

text \<open>C18: The interpreter's limits hold at every instruction boundary: every state the interpreter
  reaches from one within the limits has at most 1000 elements on its two stacks, at most 201 counted
  operations, and no element longer than 520 bytes, whatever the script does.\<close>

theorem reachable_limits:
  assumes "bn_ok E" "hash_ok E" "run E chk ctx (pc, i, c) (pc', i', c')" "within_limits i"
  shows "length (stack i') + length (altstack i') \<le> 1000 \<and> nOpCount i' \<le> 201 \<and>
    (\<forall>v \<in> set (stack i') \<union> set (altstack i'). length v \<le> MAX_SCRIPT_ELEMENT_SIZE)"
  using run_limits [OF assms]
  by (auto simp: within_limits_def interp_ok_def stack_ok_def elem_ok_def list_all_iff)

lemma reachable_limits_witness:
  "length (stack \<lparr>stack = [[1]], altstack = [], vfExec = [], pbegincodehash = [0x51], nOpCount = 0\<rparr>) \<le> 1000"
proof -
  let ?i = "\<lparr>stack = [], altstack = [], vfExec = [], pbegincodehash = [0x51], nOpCount = 0\<rparr>"
  have "run openssl_ref (CheckSig openssl_ref ctx0) ctx0 ([0x51], ?i, cache0)
      ([], ?i\<lparr>stack := [[1]]\<rparr>, cache0)"
    by (rule run_step [OF _ _ run_refl], simp add: GetOp2_def)
      (simp add: run_simps op_pushnum_def getvch_eq setint64_eq openssl_ref_bn_ok mpi_bytes_def,
       simp add: le_min.simps)
  from reachable_limits [OF openssl_ref_bn_ok openssl_ref_hash_ok this] show ?thesis
    by (simp add: within_limits_def interp_ok_def)
qed

text \<open>C22: Conditionals are block structured. A script written as nested conditionals does what its structure
  says (\<open>exec\<close>): \<open>OP_IF\<close> and \<open>OP_NOTIF\<close> take a value off the stack, one of two alternating sets of branches is
  executed, and of the others, with all the conditionals in them, nothing happens except that their
  instructions are counted and checked against the limits. The flags the interpreter keeps for them one
  instruction at a time, and its failures with the stack they leave, come to the same.\<close>

theorem conditionals_structured:
  assumes "program_ok p"
  shows "EvalScript E chk ctx stk (emit p) c =
    (if length (emit p) > 10000 then (False, stk, c)
     else case exec E chk ctx p [] (\<lparr>stack = stk, altstack = [], vfExec = [], pbegincodehash = emit p, nOpCount = 0\<rparr>, c) of
       Inl (i, c') \<Rightarrow> (False, stack i, c')
     | Inr (i, c') \<Rightarrow> (True, stack i, c'))"
  using EvalScript_program [OF assms, of E chk ctx stk c] EvalScript_too_long [of "emit p" E chk ctx stk c] by simp

text \<open>\<open>OP_IF\<close> 5 \<open>OP_ELSE\<close> 6 \<open>OP_IF\<close> 7 \<open>OP_ELSE\<close> 8 \<open>OP_ENDIF\<close> \<open>OP_ENDIF\<close>, on a false value: the 6 is taken
  as the condition of the inner conditional when the outer branch has pushed it.\<close>

definition nested_program :: program where
  "nested_program =
     Conditional False
       (Branch (Instruction 1 [5] [1, 5] Finish)
         (Last_Branch (Instruction 1 [6] [1, 6]
           (Conditional False
             (Branch (Instruction 1 [7] [1, 7] Finish) (Last_Branch (Instruction 1 [8] [1, 8] Finish))) Finish))))
       Finish"

lemma conditionals_structured_witness:
  "EvalScript openssl_ref (CheckSig openssl_ref ctx0) ctx0 [[]]
     [0x63, 1, 5, 0x67, 1, 6, 0x63, 1, 7, 0x67, 1, 8, 0x68, 0x68] cache0 = (True, [[7]], cache0)"
proof -
  have e: "emit nested_program = [0x63, 1, 5, 0x67, 1, 6, 0x63, 1, 7, 0x67, 1, 8, 0x68, 0x68]"
    by (simp add: nested_program_def)
  have ok: "program_ok nested_program" by (simp add: nested_program_def GetOp2_def)
  show ?thesis
    using conditionals_structured [OF ok, of openssl_ref "CheckSig openssl_ref ctx0" ctx0 "[[]]" cache0] unfolding e
    by (simp add: nested_program_def and_then_def counted_def push_value_def pop_value_def condition_def is_disabled_def)
qed

text \<open>Adding to the signature cache evicts until there is room: the cache stays ordered and
  duplicate-free, and with a positive limit \<open>n\<close> never holds more than \<open>n + 1\<close> signatures (the loop
  in \<open>Set\<close> compares with \<open>>\<close> before the insertion).\<close>

theorem cache_Set_bounded:
  assumes "cache_wf c" "0 < nMaxCacheSize c"
  shows "cache_wf (cache_Set c h s k) \<and> (h, s, k) \<in> set (setValid (cache_Set c h s k)) \<and>
    int (length (setValid (cache_Set c h s k))) \<le> nMaxCacheSize c + 1"
  using cache_Set_wf [OF assms(1), of h s k] assms(2)
  by (auto simp: cache_wf_def cache_Set_def Let_def set_insort_key)

lemma cache_Set_bounded_witness:
  "int (length (setValid (cache_Set cache1 3 [1] (CPubKey (2 # replicate 32 1))))) \<le> 3"
proof -
  have "cache_wf cache1" by (simp add: cache_wf_def cache1_def entry_def)
  from cache_Set_bounded [OF this, of 3 "[1]" "CPubKey (2 # replicate 32 1)"] show ?thesis
    by (simp add: cache1_def cache_Set_def)
qed

section \<open>Scripts\<close>

text \<open>\<open>FindAndDelete\<close> of one encoded instruction removes every instruction of the script that is
  encoded so, byte for byte, and nothing else: the instructions left are those of the script in their
  order without the matching ones, the undecodable tail is kept, and the count is the number removed.\<close>

theorem FindAndDelete_deletes:
  assumes "single_op b"
  shows "raw_ops (snd (FindAndDelete b s)) =
      (filter (\<lambda>c. c \<noteq> b) (fst (raw_ops s)), snd (raw_ops s)) \<and>
    fst (FindAndDelete b s) = count_list (fst (raw_ops s)) b"
  using FindAndDelete_none_left [OF assms] FindAndDelete_single [OF assms] by simp

lemma FindAndDelete_deletes_witness:
  "fst (FindAndDelete [0x01, 0x61] [0x01, 0x61, 0x61, 0x01, 0x61]) = 2 \<and>
   fst (raw_ops (snd (FindAndDelete [0x01, 0x61] [0x01, 0x61, 0x61, 0x01, 0x61]))) = [[0x61]]"
proof -
  have "single_op [0x01, 0x61]" by (simp add: single_op_def GetOp2_def)
  moreover have "raw_ops [0x01, 0x61, 0x61, 0x01, 0x61] = ([[0x01, 0x61], [0x61], [0x01, 0x61]], [])"
    by (simp add: raw_ops.simps GetOp2_def)
  ultimately show ?thesis using FindAndDelete_deletes [of "[0x01, 0x61]"] by simp
qed

text \<open>The signature-operation count of a script is at most twenty per byte, and the accurate count
  never exceeds the conservative one.\<close>

theorem GetSigOpCount_bounds:
  "GetSigOpCount acc s \<le> 20 * length s \<and> GetSigOpCount True s \<le> GetSigOpCount False s"
  by (simp add: GetSigOpCount_def sigops_bound sigops_accurate_le)

text \<open>The compressed form of a script reads back: for every script, standard or not, the
  deserialiser of \<open>CScriptCompressor\<close> applied to its output gives the script and leaves what follows.\<close>

theorem compressed_script_roundtrip:
  assumes "ec_ok E" "length s + nSpecialScripts < 2 ^ 32"
  shows "unser_script E sc (ser_script E s @ r) = Some (s, r)"
  using assms by (rule unser_ser_script)

lemma compressed_script_roundtrip_witness:
  "unser_script openssl_ref [] (ser_script openssl_ref [0x6a, 0x51] @ [7]) = Some ([0x6a, 0x51], [7])"
  using compressed_script_roundtrip [OF openssl_ref_ec_ok, of "[0x6a, 0x51]" "[]" "[7]"]
  by (simp add: nSpecialScripts_def)

text \<open>C33: The strict signature encoding: \<open>IsDERSignature\<close> accepts exactly the byte strings that are a
  DER sequence of two integers, each non-empty, non-negative and without superfluous leading zero
  bytes, followed by one hash-type byte, at most 73 bytes in all.\<close>

theorem IsDERSignature_exact:
  "IsDERSignature v True \<longleftrightarrow>
     (\<exists>R S h. v = der_sig R S @ [h] \<and> der_int R \<and> der_int S \<and> length R + length S \<le> 66)"
  by (rule IsDER_iff)

text \<open>A number pushed with \<open>operator<<(int64_t)\<close> is written canonically: the resulting script is push
  only, uses the one-byte opcodes for -1 and 1 to 16, and so passes \<open>HasCanonicalPushes\<close>.\<close>

theorem push_int64_minimal:
  assumes "bn_ok E" "is_int64 n"
  shows "HasCanonicalPushes (push_int64 E [] n) \<and> IsPushOnly (push_int64 E [] n)"
proof -
  have "\<bar>n\<bar> < 256 ^ 8" using assms(2) by (auto simp: is_int64_def)
  then have "length (mpi_bytes n) < 2 ^ 32" using length_mpi_bytes [of n 8] by simp
  with assms show ?thesis using push_int64_canonical by blast
qed

lemma push_int64_minimal_witness: "HasCanonicalPushes (push_int64 openssl_ref [] 1000)"
  using push_int64_minimal [OF openssl_ref_bn_ok, of 1000] by (simp add: is_int64_def)

end
