(* ===== verification/DataSpec.thy ===== *)
theory DataSpec
  imports Core
begin

text \<open>
  The properties of the data layer: the serialised forms (\<open>serialize.h\<close>, \<open>core.h\<close>, \<open>main.h\<close>),
  the big numbers (\<open>bignum.h\<close>), the key checks (\<open>key.cpp\<close>) and the output sum of a transaction.
\<close>

text \<open>C35: A transaction reads back from its serialised form, and nothing else does: for a transaction
  whose vectors, scripts and integers are within range, the reader applied to what the writer wrote
  returns it and leaves the rest of the stream; and whatever stream the reader accepts is the
  canonical form of the transaction it returns, so two transactions never share an encoding.\<close>

theorem transaction_codec:
  assumes "tx_ok t"
  shows "unser_tx (ser_tx t @ s) = Some (t, s) \<and>
    (\<forall>bs r. unser_tx bs = Some (t, r) \<longleftrightarrow> bs = ser_tx t @ r)"
  using assms tx.dec_iff [of _ t] by auto

lemma transaction_codec_witness:
  "unser_tx (ser_tx \<lparr>tx_nVersion = 1, tx_nTime = 7, vin = [],
      vout = [\<lparr>nValue = 5, scriptPubKey = [0x51]\<rparr>], nLockTime = 0\<rparr> @ [9]) =
   Some (\<lparr>tx_nVersion = 1, tx_nTime = 7, vin = [],
      vout = [\<lparr>nValue = 5, scriptPubKey = [0x51]\<rparr>], nLockTime = 0\<rparr>, [9])"
  using transaction_codec [of "\<lparr>tx_nVersion = 1, tx_nTime = 7, vin = [],
      vout = [\<lparr>nValue = 5, scriptPubKey = [0x51]\<rparr>], nLockTime = 0\<rparr>" "[9]"]
  by (simp add: tx_ok_def txout_ok_def is_int32_def is_int64_def MAX_SIZE_def)

text \<open>The compact size is a canonical code: the reader returns \<open>n\<close> exactly on the shortest form the
  writer produces, and refuses a longer form and any size above \<open>MAX_SIZE\<close>.\<close>

theorem compact_size_canonical:
  "ReadCompactSize bs = Some (n, r) \<longleftrightarrow> n \<le> MAX_SIZE \<and> bs = WriteCompactSize n @ r"
  using compact.dec_iff by auto

text \<open>The base-128 variable-length integer reads back, its length is the one \<open>GetSizeOfVarInt\<close>
  computes, never more than ten bytes.\<close>

theorem varint_roundtrip:
  "ReadVarInt (WriteVarInt n @ s) = Some (n, s) \<and> length (WriteVarInt n) = GetSizeOfVarInt n \<and>
   GetSizeOfVarInt n \<le> 10"
proof -
  have "unat n < 2 ^ LENGTH(64)" by (rule unsigned_less)
  then show ?thesis using GetSizeOfVarInt_bound [of n 10]
    by (simp add: ReadVarInt_WriteVarInt length_WriteVarInt)
qed

text \<open>The examples in the comment on the variable-length integer are not what the code writes:
  65535 is written as 0x82 0xFE 0x7F (the comment has 0xFD in the middle) and 16511 in two bytes,
  0xFF 0x7F (the comment gives three).\<close>

theorem varint_comment_examples:
  "WriteVarInt 65535 = [0x82, 0xFE, 0x7F] \<and> WriteVarInt 16511 = [0xFF, 0x7F]"
  by (simp add: WriteVarInt_def varint_tmp.simps)

text \<open>The compact form of a target: expanding the compact form of a non-negative number gives the
  number with all but its three most significant bytes cleared.\<close>

theorem compact_target_roundtrip:
  assumes "bn_ok E" "0 \<le> bn" "length (mpi_bytes bn) \<le> 255"
  shows "SetCompact E (GetCompact E bn) = bn - bn mod 256 ^ (length (mpi_bytes bn) - 3)"
  using assms by (rule SetCompact_GetCompact)

lemma compact_target_roundtrip_witness:
  "SetCompact openssl_ref (GetCompact openssl_ref 0x12345678) = 0x12345600"
  using compact_target_roundtrip [OF openssl_ref_bn_ok, of "0x12345678"]
  by (simp add: mpi_bytes_def le_min.simps)

text \<open>A private key is accepted exactly when its 32 bytes, read big-endian, are a number between 1
  and the order of the curve minus 1.\<close>

theorem private_key_range:
  assumes "length vch = 32"
  shows "CKey_Check vch \<longleftrightarrow> 0 < be_val vch \<and> be_val vch < secp256k1_n"
  using assms by (rule CKey_Check_iff)

lemma private_key_range_witness: "CKey_Check (replicate 31 0 @ [5])"
proof -
  have "le_val (replicate 31 0) = 0" by (simp add: numeral_eq_Suc)
  with private_key_range [of "replicate 31 0 @ [5]"] show ?thesis
    by (simp add: secp256k1_n_def be_val_append be_val_def)
qed

text \<open>Signing returns the signature with the low S: the S in the result is the one OpenSSL chose or
  its negation, and never above half the order.\<close>

theorem sign_low_s:
  assumes "bn_ok E" "0 \<le> EC_order E" "CKey_Sign E k hash = Some sig"
  shows "\<exists>r s s'. ECDSA_do_sign E (key_vch k) (bytes_of_uint256 hash) = Some (r, s) \<and>
    sig = i2d_ECDSA_SIG E r s' \<and> (s' = s \<or> s' = EC_order E - s) \<and>
    (s \<le> EC_order E \<longrightarrow> s' \<le> (EC_order E + 1) div 2)"
  using assms by (rule CKey_Sign_low)

lemma sign_low_s_witness:
  "\<exists>s. CKey_Sign openssl_ref \<lparr>fValid = True, fCompressed = True, key_vch = replicate 32 1\<rparr> 9 =
     Some (i2d_ECDSA_SIG openssl_ref 257 s) \<and> s \<le> (EC_order openssl_ref + 1) div 2"
proof -
  let ?k = "\<lparr>fValid = True, fCompressed = True, key_vch = replicate 32 1\<rparr>"
  have o: "10 \<le> EC_order openssl_ref" "0 \<le> EC_order openssl_ref" by (simp_all add: openssl_ref_def)
  have d: "ECDSA_do_sign openssl_ref (key_vch ?k) (bytes_of_uint256 9) = Some (257, 10)"
    by (simp add: openssl_ref_def bytes_of_uint256_def)
  have "CKey_Sign openssl_ref ?k 9 \<noteq> None" by (simp add: CKey_Sign_def d [simplified])
  then obtain sig where s: "CKey_Sign openssl_ref ?k 9 = Some sig" by blast
  from sign_low_s [OF openssl_ref_bn_ok o(2) s] show ?thesis
    unfolding d s using o(1) by auto
qed

text \<open>The sum of the outputs: \<open>GetValueOut\<close> returns a value exactly when every output and the total
  are in the money range, and then it is the exact sum, so the 64-bit addition never overflows.\<close>

theorem GetValueOut_exact:
  "GetValueOut tx = Some v \<longleftrightarrow>
     list_all (\<lambda>t. MoneyRange (nValue t)) (vout tx) \<and> v = out_sum (vout tx) \<and> MoneyRange v"
  by (rule GetValueOut_iff)

end
