(* ===== verification/OrdMap.thy ===== *)
theory OrdMap
  imports Prelude
begin

text \<open>
  \<open>std::map\<close> and \<open>std::set\<close>: association lists and lists in the order of the keys, so that
  iteration (\<open>begin\<close> first) is the order of the list. \<open>oput\<close> is \<open>m[k] = v\<close>, \<open>oins\<close> is
  \<open>insert\<close> (which keeps an existing entry), \<open>oerase\<close> is \<open>erase(k)\<close>.
\<close>

type_synonym ('k, 'v) omap = "('k \<times> 'v) list"

fun oput :: "'k :: linorder \<Rightarrow> 'v \<Rightarrow> ('k, 'v) omap \<Rightarrow> ('k, 'v) omap" where
  "oput k v [] = [(k, v)]"
| "oput k v ((k', v') # m) =
     (if k < k' then (k, v) # (k', v') # m
      else if k = k' then (k, v) # m
      else (k', v') # oput k v m)"

definition oerase :: "'k \<Rightarrow> ('k, 'v) omap \<Rightarrow> ('k, 'v) omap" where
  "oerase k m = filter (\<lambda>e. fst e \<noteq> k) m"

definition oins :: "'k :: linorder \<Rightarrow> 'v \<Rightarrow> ('k, 'v) omap \<Rightarrow> ('k, 'v) omap" where
  "oins k v m = (if map_of m k = None then oput k v m else m)"

definition omap_ok :: "('k :: linorder, 'v) omap \<Rightarrow> bool" where
  "omap_ok m \<longleftrightarrow> sorted (map fst m) \<and> distinct (map fst m)"

lemma omap_ok_simps [simp]:
  "omap_ok []" "omap_ok ((k, v) # m) \<longleftrightarrow> omap_ok m \<and> (\<forall>x \<in> fst ` set m. k < x)"
  unfolding omap_ok_def by (force simp: less_le)+

lemma set_oput_sub: "set (oput k v m) \<subseteq> insert (k, v) (set m)"
  by (induction m rule: oput.induct) auto

lemma keys_oput [simp]: "fst ` set (oput k v m) = insert k (fst ` set m)"
  by (induction k v m rule: oput.induct) (auto split: if_splits)

lemma omap_ok_oput [simp]: "omap_ok m \<Longrightarrow> omap_ok (oput k v m)"
  by (induction k v m rule: oput.induct) (auto dest: less_trans simp: not_less_iff_gr_or_eq)

lemma map_of_oput [simp]: "omap_ok m \<Longrightarrow> map_of (oput k v m) = (map_of m)(k \<mapsto> v)"
  by (induction k v m rule: oput.induct) (auto simp: fun_eq_iff)

lemma omap_ok_oerase [simp]: "omap_ok m \<Longrightarrow> omap_ok (oerase k m)"
  unfolding oerase_def omap_ok_def by (induction m) auto

lemma map_of_oerase [simp]: "map_of (oerase k m) = (map_of m)(k := None)"
  unfolding oerase_def by (induction m) (auto simp: fun_eq_iff)

lemma keys_oerase [simp]: "fst ` set (oerase k m) = fst ` set m - {k}"
  by (auto simp: oerase_def)

lemma oins_props [simp]:
  assumes "omap_ok m"
  shows "omap_ok (oins k v m)"
    and "map_of (oins k v m) = (if map_of m k = None then (map_of m)(k \<mapsto> v) else map_of m)"
  using assms by (simp_all add: oins_def)

lemma in_omap_iff: "omap_ok m \<Longrightarrow> (k, v) \<in> set m \<longleftrightarrow> map_of m k = Some v"
  by (simp add: omap_ok_def)

lemma omap_ok_map [simp]: "omap_ok (map (\<lambda>(k, v). (k, f k v)) m) = omap_ok m"
  by (simp add: omap_ok_def case_prod_beta comp_def)

lemma omap_eqI: "omap_ok m \<Longrightarrow> omap_ok m' \<Longrightarrow> map_of m = map_of m' \<Longrightarrow> m = m'"
proof (induction m arbitrary: m')
  case Nil
  have "dom (map_of m') = {}" using Nil.prems(3) by simp
  then show ?case by (simp add: dom_map_of_conv_image_fst)
next
  case (Cons e m)
  obtain k v where e: "e = (k, v)" by (cases e)
  obtain k' v' n where m': "m' = (k', v') # n"
    using fun_cong [OF Cons.prems(3), of k] e by (cases m') auto
  have lt: "\<forall>x \<in> dom (map_of m). k < x" "\<forall>x \<in> dom (map_of n). k' < x"
    using Cons.prems(1,2) by (auto simp: e m' dom_map_of_conv_image_fst)
  have at: "map_of ((k, v) # m) x = map_of ((k', v') # n) x" for x
    using fun_cong [OF Cons.prems(3), of x] by (simp only: e m')
  have "k = k'"
  proof (rule ccontr)
    assume "k \<noteq> k'"
    then have "k \<in> dom (map_of n)" "k' \<in> dom (map_of m)"
      using at [of k] at [of k'] by (auto split: if_splits dest: sym)
    then show False using lt by (meson less_asym)
  qed
  moreover have "map_of m = map_of n"
  proof
    fix x
    show "map_of m x = map_of n x"
      using at [of x] lt \<open>k = k'\<close> by (cases "x = k") (fastforce simp: domIff)+
  qed
  ultimately show ?case using Cons.IH [of n] Cons.prems(1,2) at [of k] by (simp add: e m')
qed

section \<open>Sets\<close>

text \<open>\<open>std::set\<close> as the list of its elements in order.\<close>

fun sput :: "'k :: linorder \<Rightarrow> 'k list \<Rightarrow> 'k list" where
  "sput k [] = [k]"
| "sput k (x # xs) = (if k < x then k # x # xs else if k = x then x # xs else x # sput k xs)"

lemma set_sput [simp]: "set (sput k xs) = insert k (set xs)"
  by (induction xs) auto

lemma sput_sorted [simp]: "sorted_wrt (<) xs \<Longrightarrow> sorted_wrt (<) (sput k xs)"
  by (induction xs) (auto dest: less_trans simp: not_less_iff_gr_or_eq)

end
