(* ===== verification/KeyStore.thy ===== *)
theory KeyStore
  imports OrdMap ScriptOps
begin

text \<open>
  The key stores (\<open>keystore.h\<close>, \<open>keystore.cpp\<close>, \<open>crypter.h\<close>, \<open>crypter.cpp\<close>): the plain store, the
  store that keeps the keys encrypted, and the interface \<open>CKeyStore\<close> through which signing sees
  them. AES-256-CBC is OpenSSL's and a parameter; the locks and \<open>NotifyStatusChanged\<close> are left out.
\<close>

section \<open>The interface\<close>

text \<open>The virtual functions a client calls, of one store in one state. A function that the code lets
  return \<open>false\<close> is \<open>None\<close> there.\<close>

record CKeyStore =
  HaveKey :: "uint160 \<Rightarrow> bool"
  GetKey :: "uint160 \<Rightarrow> key option"
  ks_GetPubKey :: "uint160 \<Rightarrow> pubkey option"
  HaveCScript :: "uint160 \<Rightarrow> bool"
  GetCScript :: "uint160 \<Rightarrow> script option"

section \<open>The basic key store\<close>

record basic_keystore =
  mapKeys :: "(uint160, key) omap"
  mapScripts :: "(uint160, script) omap"

definition basic_AddKeyPubKey ::
  "external \<Rightarrow> basic_keystore \<Rightarrow> key \<Rightarrow> pubkey \<Rightarrow> basic_keystore option" where
  "basic_AddKeyPubKey E s k pk = Some (s\<lparr>mapKeys := oput (pk_GetID E pk) k (mapKeys s)\<rparr>)"

definition basic_HaveKey :: "basic_keystore \<Rightarrow> uint160 \<Rightarrow> bool" where
  "basic_HaveKey s address \<longleftrightarrow> map_of (mapKeys s) address \<noteq> None"

definition basic_GetKeys :: "basic_keystore \<Rightarrow> uint160 list" where
  "basic_GetKeys s = map fst (mapKeys s)"

definition basic_GetKey :: "basic_keystore \<Rightarrow> uint160 \<Rightarrow> key option" where
  "basic_GetKey s address = map_of (mapKeys s) address"

definition basic_GetPubKey :: "external \<Rightarrow> basic_keystore \<Rightarrow> uint160 \<Rightarrow> pubkey option" where
  "basic_GetPubKey E s address =
     (case basic_GetKey s address of None \<Rightarrow> None | Some k \<Rightarrow> GetPubKey E k)"

definition basic_AddCScript :: "external \<Rightarrow> basic_keystore \<Rightarrow> script \<Rightarrow> basic_keystore option" where
  "basic_AddCScript E s redeemScript =
     (if length redeemScript > 520 then None
      else Some (s\<lparr>mapScripts := oput (GetID E redeemScript) redeemScript (mapScripts s)\<rparr>))"

definition basic_HaveCScript :: "basic_keystore \<Rightarrow> uint160 \<Rightarrow> bool" where
  "basic_HaveCScript s h \<longleftrightarrow> map_of (mapScripts s) h \<noteq> None"

definition basic_GetCScript :: "basic_keystore \<Rightarrow> uint160 \<Rightarrow> script option" where
  "basic_GetCScript s h = map_of (mapScripts s) h"

definition basic_view :: "external \<Rightarrow> basic_keystore \<Rightarrow> CKeyStore" where
  "basic_view E s = \<lparr>HaveKey = basic_HaveKey s, GetKey = basic_GetKey s,
     ks_GetPubKey = basic_GetPubKey E s, HaveCScript = basic_HaveCScript s,
     GetCScript = basic_GetCScript s\<rparr>"

section \<open>Encryption of secrets\<close>

text \<open>AES-256-CBC of OpenSSL: key, initialisation vector and text to text; \<open>None\<close> is a failure.\<close>

record cipher =
  EVP_encrypt :: "byte list \<Rightarrow> byte list \<Rightarrow> byte list \<Rightarrow> byte list option"
  EVP_decrypt :: "byte list \<Rightarrow> byte list \<Rightarrow> byte list \<Rightarrow> byte list option"

definition cipher_ok :: "cipher \<Rightarrow> bool" where
  "cipher_ok A \<longleftrightarrow> (\<forall>k iv p c. EVP_encrypt A k iv p = Some c \<longrightarrow> EVP_decrypt A k iv c = Some p)"

abbreviation (input) WALLET_CRYPTO_KEY_SIZE :: nat where "WALLET_CRYPTO_KEY_SIZE \<equiv> 32"

record CCrypter =
  chKey :: "byte list"
  chIV :: "byte list"
  fKeySet :: bool

definition CCrypter0 :: CCrypter where
  "CCrypter0 = \<lparr>chKey = replicate 32 0, chIV = replicate 32 0, fKeySet = False\<rparr>"

definition SetKey :: "CCrypter \<Rightarrow> byte list \<Rightarrow> byte list \<Rightarrow> bool \<times> CCrypter" where
  "SetKey c chNewKey chNewIV =
     (if length chNewKey \<noteq> WALLET_CRYPTO_KEY_SIZE \<or> length chNewIV \<noteq> WALLET_CRYPTO_KEY_SIZE
      then (False, c)
      else (True, c\<lparr>chKey := chNewKey, chIV := chNewIV, fKeySet := True\<rparr>))"

definition Encrypt :: "cipher \<Rightarrow> CCrypter \<Rightarrow> byte list \<Rightarrow> byte list option" where
  "Encrypt A c vchPlaintext =
     (if \<not> fKeySet c then None else EVP_encrypt A (chKey c) (chIV c) vchPlaintext)"

definition Decrypt :: "cipher \<Rightarrow> CCrypter \<Rightarrow> byte list \<Rightarrow> byte list option" where
  "Decrypt A c vchCiphertext =
     (if \<not> fKeySet c then None else EVP_decrypt A (chKey c) (chIV c) vchCiphertext)"

definition EncryptSecret :: "cipher \<Rightarrow> byte list \<Rightarrow> byte list \<Rightarrow> uint256 \<Rightarrow> byte list option" where
  "EncryptSecret A vMasterKey vchPlaintext nIV =
     (case SetKey CCrypter0 vMasterKey (bytes_of_uint256 nIV) of
        (False, _) \<Rightarrow> None | (True, c) \<Rightarrow> Encrypt A c vchPlaintext)"

definition DecryptSecret :: "cipher \<Rightarrow> byte list \<Rightarrow> byte list \<Rightarrow> uint256 \<Rightarrow> byte list option" where
  "DecryptSecret A vMasterKey vchCiphertext nIV =
     (case SetKey CCrypter0 vMasterKey (bytes_of_uint256 nIV) of
        (False, _) \<Rightarrow> None | (True, c) \<Rightarrow> Decrypt A c vchCiphertext)"

section \<open>The encrypted key store\<close>

record crypto_keystore = basic_keystore +
  mapCryptedKeys :: "(uint160, pubkey \<times> byte list) omap"
  vMasterKey :: "byte list"
  fUseCrypto :: bool

definition basic_part :: "crypto_keystore \<Rightarrow> basic_keystore" where
  "basic_part s = \<lparr>mapKeys = mapKeys s, mapScripts = mapScripts s\<rparr>"

definition IsLocked :: "crypto_keystore \<Rightarrow> bool" where
  "IsLocked s \<longleftrightarrow> fUseCrypto s \<and> vMasterKey s = []"

definition SetCrypted :: "crypto_keystore \<Rightarrow> bool \<times> crypto_keystore" where
  "SetCrypted s =
     (if fUseCrypto s then (True, s)
      else if mapKeys s \<noteq> [] then (False, s)
      else (True, s\<lparr>fUseCrypto := True\<rparr>))"

definition Lock :: "crypto_keystore \<Rightarrow> bool \<times> crypto_keystore" where
  "Lock s = (case SetCrypted s of (False, s') \<Rightarrow> (False, s')
     | (True, s') \<Rightarrow> (True, s'\<lparr>vMasterKey := []\<rparr>))"

text \<open>The key a stored secret stands for; \<open>None\<close> where the code returns \<open>false\<close>.\<close>

definition default_key :: key where
  "default_key = \<lparr>fValid = False, fCompressed = False, key_vch = replicate 32 0\<rparr>"

definition decrypt_key :: "external \<Rightarrow> cipher \<Rightarrow> byte list \<Rightarrow> pubkey \<times> byte list \<Rightarrow> key option" where
  "decrypt_key E A masterKey = (\<lambda>(vchPubKey, vchCryptedSecret).
     case DecryptSecret A masterKey vchCryptedSecret (Hash E (pk_bytes vchPubKey)) of
       None \<Rightarrow> None
     | Some vchSecret \<Rightarrow>
         if length vchSecret \<noteq> 32 then None
         else Some (CKey_Set default_key vchSecret (pk_IsCompressed vchPubKey)))"

text \<open>\<open>Unlock\<close> tries the first key of the map only. \<open>Inl\<close>: the assertion in \<open>CKey::GetPubKey\<close>
  stops the node, because the decrypted bytes are not a valid key.\<close>

definition Unlock ::
  "external \<Rightarrow> cipher \<Rightarrow> crypto_keystore \<Rightarrow> byte list \<Rightarrow> unit + bool \<times> crypto_keystore" where
  "Unlock E A s vMasterKeyIn =
     (case SetCrypted s of (False, s') \<Rightarrow> Inr (False, s')
      | (True, s') \<Rightarrow>
          (case mapCryptedKeys s' of
             [] \<Rightarrow> Inr (True, s'\<lparr>vMasterKey := vMasterKeyIn\<rparr>)
           | (_, e) # _ \<Rightarrow>
               (case decrypt_key E A vMasterKeyIn e of
                  None \<Rightarrow> Inr (False, s')
                | Some k \<Rightarrow>
                    (case GetPubKey E k of
                       None \<Rightarrow> Inl ()
                     | Some pk \<Rightarrow>
                         if pk = fst e then Inr (True, s'\<lparr>vMasterKey := vMasterKeyIn\<rparr>)
                         else Inr (False, s')))))"

definition AddCryptedKey ::
  "external \<Rightarrow> crypto_keystore \<Rightarrow> pubkey \<Rightarrow> byte list \<Rightarrow> bool \<times> crypto_keystore" where
  "AddCryptedKey E s vchPubKey vchCryptedSecret =
     (case SetCrypted s of (False, s') \<Rightarrow> (False, s')
      | (True, s') \<Rightarrow> (True, s'\<lparr>mapCryptedKeys :=
          oput (pk_GetID E vchPubKey) (vchPubKey, vchCryptedSecret) (mapCryptedKeys s')\<rparr>))"

definition key_bytes :: "key \<Rightarrow> byte list" where
  "key_bytes k = (if fValid k then key_vch k else [])"

definition AddKeyPubKey ::
  "external \<Rightarrow> cipher \<Rightarrow> crypto_keystore \<Rightarrow> key \<Rightarrow> pubkey \<Rightarrow> bool \<times> crypto_keystore" where
  "AddKeyPubKey E A s k pk =
     (if \<not> fUseCrypto s then (True, s\<lparr>mapKeys := oput (pk_GetID E pk) k (mapKeys s)\<rparr>)
      else if IsLocked s then (False, s)
      else case EncryptSecret A (vMasterKey s) (key_bytes k) (Hash E (pk_bytes pk)) of
        None \<Rightarrow> (False, s)
      | Some vchCryptedSecret \<Rightarrow> AddCryptedKey E s pk vchCryptedSecret)"

definition crypto_HaveKey :: "crypto_keystore \<Rightarrow> uint160 \<Rightarrow> bool" where
  "crypto_HaveKey s address \<longleftrightarrow>
     (if \<not> fUseCrypto s then basic_HaveKey (basic_part s) address
      else map_of (mapCryptedKeys s) address \<noteq> None)"

definition crypto_GetKey :: "external \<Rightarrow> cipher \<Rightarrow> crypto_keystore \<Rightarrow> uint160 \<Rightarrow> key option" where
  "crypto_GetKey E A s address =
     (if \<not> fUseCrypto s then basic_GetKey (basic_part s) address
      else case map_of (mapCryptedKeys s) address of
        None \<Rightarrow> None
      | Some e \<Rightarrow> decrypt_key E A (vMasterKey s) e)"

definition crypto_GetPubKey :: "external \<Rightarrow> crypto_keystore \<Rightarrow> uint160 \<Rightarrow> pubkey option" where
  "crypto_GetPubKey E s address =
     (if \<not> fUseCrypto s then basic_GetPubKey E (basic_part s) address
      else map_option fst (map_of (mapCryptedKeys s) address))"

definition crypto_GetKeys :: "crypto_keystore \<Rightarrow> uint160 list" where
  "crypto_GetKeys s =
     (if \<not> fUseCrypto s then basic_GetKeys (basic_part s) else map fst (mapCryptedKeys s))"

text \<open>The loop of \<open>EncryptKeys\<close> over \<open>mapKeys\<close>. \<open>Inl\<close>: an invalid key in the map fails the assertion
  of \<open>GetPubKey\<close>.\<close>

fun encrypt_loop ::
  "external \<Rightarrow> cipher \<Rightarrow> byte list \<Rightarrow> crypto_keystore \<Rightarrow> (uint160 \<times> key) list \<Rightarrow>
     unit + bool \<times> crypto_keystore" where
  "encrypt_loop E A vMasterKeyIn s [] = Inr (True, s\<lparr>mapKeys := []\<rparr>)"
| "encrypt_loop E A vMasterKeyIn s ((_, k) # rest) =
     (case GetPubKey E k of
        None \<Rightarrow> Inl ()
      | Some vchPubKey \<Rightarrow>
          (case EncryptSecret A vMasterKeyIn (key_bytes k) (Hash E (pk_bytes vchPubKey)) of
             None \<Rightarrow> Inr (False, s)
           | Some vchCryptedSecret \<Rightarrow>
               (case AddCryptedKey E s vchPubKey vchCryptedSecret of
                  (False, s') \<Rightarrow> Inr (False, s')
                | (True, s') \<Rightarrow> encrypt_loop E A vMasterKeyIn s' rest)))"

definition EncryptKeys ::
  "external \<Rightarrow> cipher \<Rightarrow> crypto_keystore \<Rightarrow> byte list \<Rightarrow> unit + bool \<times> crypto_keystore" where
  "EncryptKeys E A s vMasterKeyIn =
     (if mapCryptedKeys s \<noteq> [] \<or> fUseCrypto s then Inr (False, s)
      else encrypt_loop E A vMasterKeyIn (s\<lparr>fUseCrypto := True\<rparr>) (mapKeys s))"

definition crypto_view :: "external \<Rightarrow> cipher \<Rightarrow> crypto_keystore \<Rightarrow> CKeyStore" where
  "crypto_view E A s = \<lparr>HaveKey = crypto_HaveKey s, GetKey = crypto_GetKey E A s,
     ks_GetPubKey = crypto_GetPubKey E s, HaveCScript = basic_HaveCScript (basic_part s),
     GetCScript = basic_GetCScript (basic_part s)\<rparr>"

section \<open>What a key store promises\<close>

text \<open>A key and public key that go together: the key is valid and the public key has its form.\<close>

definition key_ok :: "key \<Rightarrow> bool" where
  "key_ok k \<longleftrightarrow> fValid k \<and> length (key_vch k) = 32 \<and> CKey_Check (key_vch k)"

definition pair_ok :: "key \<Rightarrow> pubkey \<Rightarrow> bool" where
  "pair_ok k pk \<longleftrightarrow> key_ok k \<and> pk_IsCompressed pk = fCompressed k"

text \<open>
  The laws of a store that is open: a key added is found under the identifier of its public key,
  no other entry changes, and \<open>HaveKey\<close> says whether \<open>GetKey\<close> finds a key.
\<close>

locale key_store =
  fixes view :: "'s \<Rightarrow> CKeyStore"
    and add :: "'s \<Rightarrow> key \<Rightarrow> pubkey \<Rightarrow> 's option"
    and kid :: "pubkey \<Rightarrow> uint160"
    and inv :: "'s \<Rightarrow> bool"
  assumes add_inv: "inv s \<Longrightarrow> pair_ok k pk \<Longrightarrow> add s k pk = Some s' \<Longrightarrow> inv s'"
    and add_get: "inv s \<Longrightarrow> pair_ok k pk \<Longrightarrow> add s k pk = Some s' \<Longrightarrow>
      GetKey (view s') = (GetKey (view s))(kid pk \<mapsto> k)"
    and have_get: "inv s \<Longrightarrow> HaveKey (view s) a \<longleftrightarrow> GetKey (view s) a \<noteq> None"
begin

text \<open>Adding a list of keys one after the other.\<close>

fun add_all :: "'s \<Rightarrow> (key \<times> pubkey) list \<Rightarrow> 's option" where
  "add_all s [] = Some s"
| "add_all s ((k, pk) # ks) = (case add s k pk of None \<Rightarrow> None | Some s' \<Rightarrow> add_all s' ks)"

lemma add_all_get:
  assumes "inv s" "list_all (\<lambda>(k, pk). pair_ok k pk) ks" "add_all s ks = Some s'"
  shows "inv s' \<and> GetKey (view s') =
    (GetKey (view s) ++ map_of (rev (map (\<lambda>(k, pk). (kid pk, k)) ks)))"
  using assms
proof (induction s ks rule: add_all.induct)
  case (2 s k pk ks)
  then obtain t where "add s k pk = Some t" "add_all t ks = Some s'" by (auto split: option.splits)
  then show ?case using 2 add_inv [of s k pk t] add_get [of s k pk t] by (simp add: map_add_def fun_eq_iff split: option.splits)
qed simp

lemma add_have:
  assumes "inv s" "pair_ok k pk" "add s k pk = Some s'"
  shows "HaveKey (view s') (kid pk)" "HaveKey (view s) a \<Longrightarrow> HaveKey (view s') a"
  using have_get [OF assms(1)] have_get [OF add_inv [OF assms]] add_get [OF assms] by simp_all

end

definition basic_ok :: "basic_keystore \<Rightarrow> bool" where
  "basic_ok s \<longleftrightarrow> omap_ok (mapKeys s) \<and> omap_ok (mapScripts s)"

text \<open>The representation invariant of the encrypted store, as the comment on \<open>fUseCrypto\<close> has it, and
  that every stored secret decrypts under the master key it was stored with.\<close>

definition crypto_wf :: "crypto_keystore \<Rightarrow> bool" where
  "crypto_wf s \<longleftrightarrow> omap_ok (mapKeys s) \<and> omap_ok (mapCryptedKeys s) \<and>
     (if fUseCrypto s then mapKeys s = [] else mapCryptedKeys s = [] \<and> vMasterKey s = [])"

definition open_with :: "external \<Rightarrow> cipher \<Rightarrow> byte list \<Rightarrow> crypto_keystore \<Rightarrow> bool" where
  "open_with E A mk s \<longleftrightarrow>
     list_all (\<lambda>(a, e). decrypt_key E A mk e \<noteq> None) (mapCryptedKeys s)"

definition crypto_open :: "external \<Rightarrow> cipher \<Rightarrow> crypto_keystore \<Rightarrow> bool" where
  "crypto_open E A s \<longleftrightarrow> crypto_wf s \<and> \<not> IsLocked s \<and> open_with E A (vMasterKey s) s"

lemma length_EncryptSecret: "EncryptSecret A mk p iv = Some c \<Longrightarrow> length mk = 32"
  by (auto simp: EncryptSecret_def SetKey_def split: if_splits)

lemma DecryptSecret_EncryptSecret:
  "cipher_ok A \<Longrightarrow> EncryptSecret A mk p iv = Some c \<Longrightarrow> DecryptSecret A mk c iv = Some p"
  by (auto simp: EncryptSecret_def DecryptSecret_def SetKey_def Encrypt_def Decrypt_def cipher_ok_def
      split: if_splits)

lemma decrypt_encrypted:
  assumes "cipher_ok A" "pair_ok k pk"
    and "EncryptSecret A mk (key_bytes k) (Hash E (pk_bytes pk)) = Some c"
  shows "decrypt_key E A mk (pk, c) = Some k"
  using assms(2) DecryptSecret_EncryptSecret [OF assms(1,3)]
  by (cases k) (simp add: decrypt_key_def pair_ok_def key_ok_def key_bytes_def CKey_Set_def default_key_def)

lemma basic_key_store: "key_store (basic_view E) (basic_AddKeyPubKey E) (pk_GetID E) basic_ok"
  by unfold_locales
    (auto simp: basic_AddKeyPubKey_def basic_ok_def basic_view_def basic_GetKey_def basic_HaveKey_def
      fun_eq_iff)

definition crypto_add ::
  "external \<Rightarrow> cipher \<Rightarrow> crypto_keystore \<Rightarrow> key \<Rightarrow> pubkey \<Rightarrow> crypto_keystore option" where
  "crypto_add E A s k pk = (case AddKeyPubKey E A s k pk of (False, _) \<Rightarrow> None | (True, s') \<Rightarrow> Some s')"

lemma crypto_add_cases:
  assumes "crypto_open E A s" "crypto_add E A s k pk = Some s'"
  obtains "\<not> fUseCrypto s" "s' = s\<lparr>mapKeys := oput (pk_GetID E pk) k (mapKeys s)\<rparr>"
  | c where "fUseCrypto s" "EncryptSecret A (vMasterKey s) (key_bytes k) (Hash E (pk_bytes pk)) = Some c"
      "s' = s\<lparr>mapCryptedKeys := oput (pk_GetID E pk) (pk, c) (mapCryptedKeys s)\<rparr>"
  using assms unfolding crypto_add_def AddKeyPubKey_def AddCryptedKey_def SetCrypted_def crypto_open_def
  by (auto split: if_splits option.splits)

lemma crypto_key_store:
  assumes "cipher_ok A"
  shows "key_store (crypto_view E A) (crypto_add E A) (pk_GetID E) (crypto_open E A)"
proof
  fix s k pk s'
  assume s: "crypto_open E A s" and k: "pair_ok k pk" and a: "crypto_add E A s k pk = Some s'"
  show "crypto_open E A s'"
    using s a
  proof (cases rule: crypto_add_cases)
    case 1
    then show ?thesis using s by (simp add: crypto_open_def crypto_wf_def IsLocked_def open_with_def)
  next
    case (2 c)
    have "decrypt_key E A (vMasterKey s) (pk, c) \<noteq> None"
      using decrypt_encrypted [OF assms k 2(2)] by simp
    then show ?thesis using s 2 set_oput_sub [of "pk_GetID E pk" "(pk, c)" "mapCryptedKeys s"]
      by (auto simp: crypto_open_def crypto_wf_def IsLocked_def open_with_def list_all_iff)
  qed
  show "GetKey (crypto_view E A s') = (GetKey (crypto_view E A s))(pk_GetID E pk \<mapsto> k)"
    using s a
  proof (cases rule: crypto_add_cases)
    case 1
    then show ?thesis using s
      by (simp add: crypto_view_def crypto_GetKey_def basic_GetKey_def basic_part_def crypto_open_def
          crypto_wf_def fun_eq_iff)
  next
    case (2 c)
    then show ?thesis using s decrypt_encrypted [OF assms k 2(2)]
      by (simp add: crypto_view_def crypto_GetKey_def crypto_open_def crypto_wf_def fun_eq_iff
          split: option.splits)
  qed
next
  fix s a assume "crypto_open E A s"
  then show "HaveKey (crypto_view E A s) a \<longleftrightarrow> GetKey (crypto_view E A s) a \<noteq> None"
    by (cases "map_of (mapCryptedKeys s) a")
      (auto simp: crypto_view_def crypto_HaveKey_def crypto_GetKey_def basic_HaveKey_def basic_GetKey_def
        crypto_open_def open_with_def list_all_iff dest: map_of_SomeD)
qed

interpretation basic: key_store "basic_view E" "basic_AddKeyPubKey E" "pk_GetID E" basic_ok for E
  by (rule basic_key_store)

text \<open>The encrypted store keeps the promise with every cipher that decrypts what it encrypted.\<close>

locale wallet_cipher =
  fixes A :: cipher
  assumes decrypts: "cipher_ok A"

sublocale wallet_cipher \<subseteq> crypto: key_store "crypto_view E A" "crypto_add E A" "pk_GetID E" "crypto_open E A" for E
  by (rule crypto_key_store [OF decrypts])

text \<open>A cipher that keeps the key in the text, to show that the law can hold.\<close>

definition cipher_ref :: cipher where
  "cipher_ref = \<lparr>EVP_encrypt = (\<lambda>k iv p. Some (k @ iv @ p)),
     EVP_decrypt = (\<lambda>k iv c. if take (length k + length iv) c = k @ iv
       then Some (drop (length k + length iv) c) else None)\<rparr>"

lemma cipher_ref_ok: "cipher_ok cipher_ref"
  by (simp add: cipher_ok_def cipher_ref_def)

interpretation ref: wallet_cipher cipher_ref by unfold_locales (rule cipher_ref_ok)

section \<open>Encrypting, locking and unlocking\<close>

text \<open>What \<open>CWallet\<close> has in its plain store before it is encrypted: every key under its own identifier.\<close>

definition keyring :: "external \<Rightarrow> (uint160 \<times> key) list \<Rightarrow> bool" where
  "keyring E ks \<longleftrightarrow> list_all (\<lambda>(a, k). case GetPubKey E k of None \<Rightarrow> False
     | Some pk \<Rightarrow> pair_ok k pk \<and> pk_GetID E pk = a) ks"

text \<open>An entry of the encrypted map stands for a key.\<close>

definition stands_for :: "external \<Rightarrow> cipher \<Rightarrow> byte list \<Rightarrow> pubkey \<times> byte list \<Rightarrow> key \<Rightarrow> bool" where
  "stands_for E A mk e k \<longleftrightarrow> decrypt_key E A mk e = Some k \<and> GetPubKey E k = Some (fst e)"

definition holds_all ::
  "external \<Rightarrow> cipher \<Rightarrow> byte list \<Rightarrow> (uint160, pubkey \<times> byte list) omap \<Rightarrow> (uint160 \<times> key) list \<Rightarrow> bool" where
  "holds_all E A mk m ks \<longleftrightarrow> omap_ok m \<and>
     (\<forall>a k. map_of ks a = Some k \<longrightarrow> (\<exists>e. map_of m a = Some e \<and> stands_for E A mk e k))"

lemma encrypt_loop_stands:
  assumes A: "cipher_ok A"
  shows "fUseCrypto s \<Longrightarrow> keyring E ks \<Longrightarrow> omap_ok (mapCryptedKeys s) \<Longrightarrow> distinct (map fst ks) \<Longrightarrow>
    encrypt_loop E A mk s ks = Inr (True, s') \<Longrightarrow>
    (\<exists>m. s' = s\<lparr>mapKeys := [], mapCryptedKeys := m\<rparr> \<and> holds_all E A mk m ks \<and>
      (\<forall>a. map_of ks a = None \<longrightarrow> map_of m a = map_of (mapCryptedKeys s) a))"
proof (induction ks arbitrary: s)
  case Nil
  then show ?case by (intro exI [of _ "mapCryptedKeys s"]) (auto simp: holds_all_def)
next
  case (Cons x rest)
  obtain a k where x: "x = (a, k)" by (cases x)
  obtain pk where pk: "GetPubKey E k = Some pk" "pair_ok k pk" "pk_GetID E pk = a" "keyring E rest"
    using Cons.prems(2) by (auto simp: keyring_def x split: option.splits)
  obtain c where c: "EncryptSecret A mk (key_bytes k) (Hash E (pk_bytes pk)) = Some c"
    using Cons.prems(5) pk(1) by (auto simp: x split: option.splits)
  let ?m = "oput a (pk, c) (mapCryptedKeys s)"
  have add: "AddCryptedKey E s pk c = (True, s\<lparr>mapCryptedKeys := ?m\<rparr>)"
    using Cons.prems(1) pk(3) by (simp add: AddCryptedKey_def SetCrypted_def)
  have st: "stands_for E A mk (pk, c) k"
    using decrypt_encrypted [OF A pk(2) c] pk(1) by (simp add: stands_for_def)
  have na: "map_of rest a = None" using Cons.prems(4) by (simp add: x map_of_eq_None_iff)
  have l: "encrypt_loop E A mk (s\<lparr>mapCryptedKeys := ?m\<rparr>) rest = Inr (True, s')"
    using Cons.prems(5) by (simp add: x pk(1) c add)
  obtain m where m: "s' = s\<lparr>mapKeys := [], mapCryptedKeys := m\<rparr>" "holds_all E A mk m rest"
      "\<forall>b. map_of rest b = None \<longrightarrow> map_of m b = map_of ?m b"
    using Cons.IH [OF _ pk(4) _ _ l] Cons.prems(1,3,4) by auto
  have "holds_all E A mk m (x # rest)" using m(2,3) na st Cons.prems(3) by (auto simp: holds_all_def x)
  moreover have "map_of m b = map_of (mapCryptedKeys s) b" if "map_of (x # rest) b = None" for b
    using m(3) that Cons.prems(3) by (auto simp: x split: if_splits)
  ultimately show ?case using m(1) by blast
qed

lemma EncryptKeys_stands:
  assumes "cipher_ok A" "crypto_wf s" "keyring E (mapKeys s)" "EncryptKeys E A s mk = Inr (True, s')"
  obtains m where "s' = s\<lparr>fUseCrypto := True, mapKeys := [], mapCryptedKeys := m\<rparr>"
    "holds_all E A mk m (mapKeys s)" "\<And>a. map_of (mapKeys s) a = None \<Longrightarrow> map_of m a = None"
proof -
  have l: "encrypt_loop E A mk (s\<lparr>fUseCrypto := True\<rparr>) (mapKeys s) = Inr (True, s')"
    and n: "mapCryptedKeys s = []" "\<not> fUseCrypto s"
    using assms(4) by (auto simp: EncryptKeys_def split: if_splits)
  have d: "distinct (map fst (mapKeys s))" using assms(2) by (simp add: crypto_wf_def omap_ok_def)
  obtain m where "s' = s\<lparr>fUseCrypto := True, mapKeys := [], mapCryptedKeys := m\<rparr>"
    "holds_all E A mk m (mapKeys s)" "\<forall>a. map_of (mapKeys s) a = None \<longrightarrow> map_of m a = None"
    using encrypt_loop_stands [OF assms(1) _ assms(3) _ d l] n by auto
  then show ?thesis using that by blast
qed

lemma Unlock_after_EncryptKeys:
  assumes "cipher_ok A" "crypto_wf s" "keyring E (mapKeys s)" "EncryptKeys E A s mk = Inr (True, s')"
  shows "Unlock E A s' mk = Inr (True, s'\<lparr>vMasterKey := mk\<rparr>)"
proof -
  obtain m where m: "s' = s\<lparr>fUseCrypto := True, mapKeys := [], mapCryptedKeys := m\<rparr>"
    "holds_all E A mk m (mapKeys s)" "\<And>a. map_of (mapKeys s) a = None \<Longrightarrow> map_of m a = None"
    using EncryptKeys_stands [OF assms] by metis
  have c: "SetCrypted s' = (True, s')" by (simp add: SetCrypted_def m(1))
  show ?thesis
  proof (cases m)
    case Nil
    then show ?thesis unfolding Unlock_def c by (simp add: m(1))
  next
    case (Cons x xs)
    obtain a p where x: "x = (a, p)" by (cases x)
    have p: "map_of m a = Some p" by (simp add: Cons x)
    then obtain k where "map_of (mapKeys s) a = Some k" using m(3) by (cases "map_of (mapKeys s) a") auto
    then have "stands_for E A mk p k" using m(2) p unfolding holds_all_def by (metis option.inject)
    then show ?thesis unfolding Unlock_def c by (simp add: m(1) Cons x stands_for_def)
  qed
qed

lemma GetKey_after_Unlock:
  assumes "cipher_ok A" "crypto_wf s" "keyring E (mapKeys s)" "EncryptKeys E A s mk = Inr (True, s')"
  shows "crypto_GetKey E A (s'\<lparr>vMasterKey := mk\<rparr>) a = map_of (mapKeys s) a"
proof -
  obtain m where m: "s' = s\<lparr>fUseCrypto := True, mapKeys := [], mapCryptedKeys := m\<rparr>"
    "holds_all E A mk m (mapKeys s)" "\<And>a. map_of (mapKeys s) a = None \<Longrightarrow> map_of m a = None"
    using EncryptKeys_stands [OF assms] by metis
  show ?thesis
  proof (cases "map_of (mapKeys s) a")
    case (Some k)
    then obtain e where "map_of m a = Some e" "stands_for E A mk e k"
      using m(2) unfolding holds_all_def by blast
    then show ?thesis by (simp add: crypto_GetKey_def m(1) Some stands_for_def)
  qed (simp add: crypto_GetKey_def m)
qed

end
