(* ===== verification/Standard.thy ===== *)
theory Standard
  imports KeyStore Interp
begin

text \<open>
  Standard transaction types and signing (\<open>script.cpp\<close> 1274-1896): template matching, ownership,
  destinations, signing an input and combining partial signatures.
\<close>

section \<open>Matching the templates\<close>

datatype txnouttype = TX_NONSTANDARD | TX_PUBKEY | TX_PUBKEYHASH | TX_SCRIPTHASH | TX_MULTISIG | TX_NULL_DATA

text \<open>The multimap in the order of its iteration: by type, equal types in the order of insertion.\<close>

definition mTemplates :: "(txnouttype \<times> script) list" where
  "mTemplates = [
     (TX_PUBKEY, foldl push_opcode [] [OP_PUBKEY, OP_CHECKSIG]),
     (TX_PUBKEYHASH, foldl push_opcode [] [OP_DUP, OP_HASH160, OP_PUBKEYHASH, OP_EQUALVERIFY, OP_CHECKSIG]),
     (TX_MULTISIG, foldl push_opcode [] [OP_SMALLINTEGER, OP_PUBKEYS, OP_SMALLINTEGER, OP_CHECKMULTISIG]),
     (TX_NULL_DATA, foldl push_opcode [] [OP_RETURN, OP_SMALLDATA]),
     (TX_NULL_DATA, foldl push_opcode [] [OP_RETURN])]"

text \<open>
  The loop over \<open>OP_PUBKEYS\<close>: collects keys and reads on. When \<open>GetOp\<close> fails it leaves the invalid
  opcode and no data, which the operation that follows in the only template with \<open>OP_PUBKEYS\<close>,
  \<open>OP_SMALLINTEGER\<close>, does not match: \<open>None\<close>.
\<close>

function pubkeys_loop ::
  "opcodetype \<Rightarrow> valtype \<Rightarrow> script \<Rightarrow> valtype list \<Rightarrow>
     valtype list \<times> (opcodetype \<times> valtype \<times> script) option" where
  "pubkeys_loop opcode1 vch1 pc1 sol =
     (if length vch1 \<ge> 33 \<and> length vch1 \<le> 120 then
        (case GetOp2 pc1 of
           None \<Rightarrow> (sol @ [vch1], None)
         | Some (opcode1', vch1', pc1') \<Rightarrow> pubkeys_loop opcode1' vch1' pc1' (sol @ [vch1]))
      else (sol, Some (opcode1, vch1, pc1)))"
  by pat_completeness auto
termination
  by (relation "measure (\<lambda>(_, _, pc, _). length pc)") (auto simp: GetOp2_shorter)

declare pubkeys_loop.simps [simp del]

lemma pubkeys_loop_shorter:
  "pubkeys_loop opcode1 vch1 pc1 sol = (sol', Some (opcode1', vch1', pc1')) \<Longrightarrow> length pc1' \<le> length pc1"
proof (induction opcode1 vch1 pc1 sol rule: pubkeys_loop.induct)
  case (1 opcode1 vch1 pc1 sol)
  show ?case
  proof (cases "length vch1 \<ge> 33 \<and> length vch1 \<le> 120")
    case True
    then obtain x y z where g: "GetOp2 pc1 = Some (x, y, z)"
      using "1.prems" by (subst (asm) pubkeys_loop.simps) (auto split: option.splits)
    have "pubkeys_loop x y z (sol @ [vch1]) = (sol', Some (opcode1', vch1', pc1'))"
      using "1.prems" True g by (subst (asm) pubkeys_loop.simps) simp
    then have "length pc1' \<le> length z" using "1.IH" True g by blast
    then show ?thesis using GetOp2_shorter [OF g] by simp
  next
    case False
    then show ?thesis using "1.prems" by (subst (asm) pubkeys_loop.simps) (auto simp del: pubkeys_loop.simps split: if_splits)
  qed
qed

text \<open>One template operation against one instruction: the solutions afterwards, or no match.\<close>

definition match_op ::
  "nat \<Rightarrow> opcodetype \<Rightarrow> valtype \<Rightarrow> opcodetype \<Rightarrow> valtype \<Rightarrow> valtype list \<Rightarrow> valtype list option" where
  "match_op nMaxDatacarrierBytes opcode1 vch1 opcode2 vch2 sol =
     (if opcode2 = OP_PUBKEY then
        if length vch1 < 33 \<or> length vch1 > 120 then None else Some (sol @ [vch1])
      else if opcode2 = OP_PUBKEYHASH then
        if length vch1 \<noteq> 20 then None else Some (sol @ [vch1])
      else if opcode2 = OP_SMALLINTEGER then
        case DecodeOP_N opcode1 of None \<Rightarrow> None | Some n \<Rightarrow> Some (sol @ [[of_nat n]])
      else if opcode2 = OP_SMALLDATA then
        if length vch1 > nMaxDatacarrierBytes then None else Some sol
      else if opcode1 \<noteq> opcode2 \<or> vch1 \<noteq> vch2 then None
      else Some sol)"

function match_template :: "nat \<Rightarrow> script \<Rightarrow> script \<Rightarrow> valtype list \<Rightarrow> valtype list option" where
  "match_template nMax pc1 pc2 sol =
     (if pc1 = [] \<and> pc2 = [] then Some sol
      else case GetOp2 pc1 of None \<Rightarrow> None
      | Some (opcode1, vch1, pc1') \<Rightarrow>
          (case GetOp2 pc2 of None \<Rightarrow> None
           | Some (opcode2, vch2, pc2') \<Rightarrow>
               if opcode2 = OP_PUBKEYS then
                 (case pubkeys_loop opcode1 vch1 pc1' sol of
                    (sol', None) \<Rightarrow> None
                  | (sol', Some (opcode1', vch1', pc1'')) \<Rightarrow>
                      (case GetOp2 pc2' of None \<Rightarrow> None
                       | Some (opcode2', vch2', pc2'') \<Rightarrow>
                           (case match_op nMax opcode1' vch1' opcode2' vch2' sol' of
                              None \<Rightarrow> None
                            | Some sol'' \<Rightarrow> match_template nMax pc1'' pc2'' sol'')))
               else
                 (case match_op nMax opcode1 vch1 opcode2 vch2 sol of
                    None \<Rightarrow> None
                  | Some sol' \<Rightarrow> match_template nMax pc1' pc2' sol')))"
  by pat_completeness auto
termination
proof (relation "measure (\<lambda>(_, pc1, _, _). length pc1)", goal_cases)
  case (2 nMax pc1 pc2 sol p o1 p2 v1 pc1' q o2 q2 v2 pc2' r sol' t a b c d)
  then show ?case by (auto dest!: GetOp2_shorter pubkeys_loop_shorter [OF sym])
next
  case 3
  then show ?case by (auto dest!: GetOp2_shorter)
qed simp

declare match_template.simps [simp del]

fun scan_templates ::
  "nat \<Rightarrow> script \<Rightarrow> (txnouttype \<times> script) list \<Rightarrow> bool \<times> txnouttype \<times> valtype list" where
  "scan_templates nMax s [] = (False, TX_NONSTANDARD, [])"
| "scan_templates nMax s ((t, tplate) # rest) =
     (case match_template nMax s tplate [] of
        None \<Rightarrow> scan_templates nMax s rest
      | Some sol \<Rightarrow>
          if t = TX_MULTISIG then
            let m = unat (hd (hd sol)); n = unat (hd (last sol)) in
            (\<not> (m < 1 \<or> n < 1 \<or> m > n \<or> length sol - 2 \<noteq> n), t, sol)
          else (True, t, sol))"

text \<open>The result, \<open>typeRet\<close> and \<open>vSolutionsRet\<close>; every caller passes an empty vector of solutions.\<close>

definition Solver :: "nat \<Rightarrow> script \<Rightarrow> bool \<times> txnouttype \<times> valtype list" where
  "Solver nMax s =
     (if IsPayToScriptHash s then (True, TX_SCRIPTHASH, [take 20 (drop 2 s)])
      else scan_templates nMax s mTemplates)"

definition uint160_of :: "valtype \<Rightarrow> uint160" where
  "uint160_of v = (if length v = 20 then of_nat (le_val v) else 0)"

section \<open>Signing\<close>

definition Sign1 ::
  "external \<Rightarrow> CKeyStore \<Rightarrow> uint160 \<Rightarrow> uint256 \<Rightarrow> int \<Rightarrow> script \<Rightarrow> bool \<times> script" where
  "Sign1 E ks address hash nHashType sig =
     (case GetKey ks address of
        None \<Rightarrow> (False, sig)
      | Some k \<Rightarrow>
          (case CKey_Sign E k hash of
             None \<Rightarrow> (False, sig)
           | Some vchSig \<Rightarrow> (True, push_data sig (vchSig @ [of_int nHashType]))))"

fun sign_loop ::
  "external \<Rightarrow> CKeyStore \<Rightarrow> uint256 \<Rightarrow> int \<Rightarrow> nat \<Rightarrow> valtype list \<Rightarrow> nat \<Rightarrow> script \<Rightarrow> nat \<times> script" where
  "sign_loop E ks hash nHashType nRequired [] nSigned sig = (nSigned, sig)"
| "sign_loop E ks hash nHashType nRequired (pubkey # rest) nSigned sig =
     (if nSigned < nRequired then
        (case Sign1 E ks (pk_GetID E (CPubKey pubkey)) hash nHashType sig of
           (True, sig') \<Rightarrow> sign_loop E ks hash nHashType nRequired rest (nSigned + 1) sig'
         | (False, sig') \<Rightarrow> sign_loop E ks hash nHashType nRequired rest nSigned sig')
      else (nSigned, sig))"

definition SignN ::
  "external \<Rightarrow> valtype list \<Rightarrow> CKeyStore \<Rightarrow> uint256 \<Rightarrow> int \<Rightarrow> script \<Rightarrow> bool \<times> script" where
  "SignN E multisigdata ks hash nHashType sig =
     (let nRequired = unat (hd (hd multisigdata));
          (nSigned, sig') = sign_loop E ks hash nHashType nRequired (butlast (tl multisigdata)) 0 sig
      in (nSigned = nRequired, sig'))"

definition SolverSign ::
  "external \<Rightarrow> CKeyStore \<Rightarrow> nat \<Rightarrow> script \<Rightarrow> uint256 \<Rightarrow> int \<Rightarrow> bool \<times> script \<times> txnouttype" where
  "SolverSign E ks nMax spk hash nHashType =
     (case Solver nMax spk of
        (False, whichType, _) \<Rightarrow> (False, [], whichType)
      | (True, whichType, vSolutions) \<Rightarrow>
          (case whichType of
             TX_NONSTANDARD \<Rightarrow> (False, [], whichType)
           | TX_NULL_DATA \<Rightarrow> (False, [], whichType)
           | TX_PUBKEY \<Rightarrow>
               (case Sign1 E ks (pk_GetID E (CPubKey (hd vSolutions))) hash nHashType [] of
                  (ok, sig) \<Rightarrow> (ok, sig, whichType))
           | TX_PUBKEYHASH \<Rightarrow>
               let keyID = uint160_of (hd vSolutions) in
               (case Sign1 E ks keyID hash nHashType [] of
                  (False, sig) \<Rightarrow> (False, sig, whichType)
                | (True, sig) \<Rightarrow>
                    (True, push_key sig (case ks_GetPubKey ks keyID of None \<Rightarrow> CPubKey [] | Some pk \<Rightarrow> pk),
                     whichType))
           | TX_SCRIPTHASH \<Rightarrow>
               (case GetCScript ks (uint160_of (hd vSolutions)) of
                  None \<Rightarrow> (False, [], whichType)
                | Some subscript \<Rightarrow> (True, subscript, whichType))
           | TX_MULTISIG \<Rightarrow>
               (case SignN E vSolutions ks hash nHashType (push_opcode [] OP_0) of
                  (ok, sig) \<Rightarrow> (ok, sig, whichType))))"

definition set_scriptSig :: "CTransaction \<Rightarrow> nat \<Rightarrow> script \<Rightarrow> CTransaction" where
  "set_scriptSig tx n sig = tx\<lparr>vin := (vin tx)[n := (vin tx ! n)\<lparr>scriptSig := sig\<rparr>]\<rparr>"

text \<open>\<open>None\<close>: an assertion fails. Otherwise the verdict, the transaction with its input signed as far as
  it could be, and the signature cache.\<close>

definition test_solution ::
  "external \<Rightarrow> script \<Rightarrow> CTransaction \<Rightarrow> nat \<Rightarrow> script \<Rightarrow> sigcache \<Rightarrow> (bool \<times> CTransaction \<times> sigcache) option" where
  "test_solution E fromPubKey tx n sig c =
     (let tx' = set_scriptSig tx n sig;
          ctx = \<lparr>txTo = tx', nIn = n, ctx_flags = STANDARD_SCRIPT_VERIFY_FLAGS, ctx_hashType = 0\<rparr>
      in case VerifyScript E (CheckSig E ctx) ctx sig fromPubKey c of
           (None, _) \<Rightarrow> None | (Some ok, c') \<Rightarrow> Some (ok, tx', c'))"

definition SignSignature ::
  "external \<Rightarrow> CKeyStore \<Rightarrow> nat \<Rightarrow> script \<Rightarrow> CTransaction \<Rightarrow> nat \<Rightarrow> int \<Rightarrow> sigcache \<Rightarrow>
     (bool \<times> CTransaction \<times> sigcache) option" where
  "SignSignature E ks nMax fromPubKey tx n nHashType c =
     (if n \<ge> length (vin tx) then None
      else case SolverSign E ks nMax fromPubKey (SignatureHash E fromPubKey tx n nHashType) nHashType of
        (False, sig, _) \<Rightarrow> Some (False, set_scriptSig tx n sig, c)
      | (True, sig, whichType) \<Rightarrow>
          if whichType = TX_SCRIPTHASH then
            let subscript = sig;
                tx1 = set_scriptSig tx n sig;
                hash2 = SignatureHash E subscript tx1 n nHashType;
                (ok, sig2, subType) = SolverSign E ks nMax subscript hash2 nHashType;
                sig3 = push_data sig2 subscript
            in if \<not> (ok \<and> subType \<noteq> TX_SCRIPTHASH) then Some (False, set_scriptSig tx n sig3, c)
               else test_solution E fromPubKey tx n sig3 c
          else test_solution E fromPubKey tx n sig c)"

definition SignSignatureFrom ::
  "external \<Rightarrow> CKeyStore \<Rightarrow> nat \<Rightarrow> CTransaction \<Rightarrow> CTransaction \<Rightarrow> nat \<Rightarrow> int \<Rightarrow> sigcache \<Rightarrow>
     (bool \<times> CTransaction \<times> sigcache) option" where
  "SignSignatureFrom E ks nMax txFrom tx n nHashType c =
     (if n \<ge> length (vin tx) then None
      else let i = prevout (vin tx ! n) in
        if \<not> unat (op_n i) < length (vout txFrom) then None
        else if op_hash i \<noteq> tx_GetHash E txFrom then None
        else SignSignature E ks nMax (scriptPubKey (vout txFrom ! unat (op_n i))) tx n nHashType c)"

section \<open>Classification\<close>

definition ScriptSigArgsExpected :: "txnouttype \<Rightarrow> valtype list \<Rightarrow> int" where
  "ScriptSigArgsExpected t vSolutions =
     (case t of TX_NONSTANDARD \<Rightarrow> -1 | TX_NULL_DATA \<Rightarrow> -1 | TX_PUBKEY \<Rightarrow> 1 | TX_PUBKEYHASH \<Rightarrow> 2
      | TX_MULTISIG \<Rightarrow>
          if length vSolutions < 1 \<or> length (hd vSolutions) < 1 then -1
          else int (unat (hd (hd vSolutions))) + 1
      | TX_SCRIPTHASH \<Rightarrow> 1)"

definition IsStandard :: "nat \<Rightarrow> script \<Rightarrow> bool \<times> txnouttype" where
  "IsStandard nMax s =
     (case Solver nMax s of
        (False, whichType, _) \<Rightarrow> (False, whichType)
      | (True, whichType, vSolutions) \<Rightarrow>
          if whichType = TX_MULTISIG then
            let m = unat (hd (hd vSolutions)); n = unat (hd (last vSolutions)) in
            if n < 1 \<or> n > 3 then (False, whichType)
            else if m < 1 \<or> m > n then (False, whichType)
            else (whichType \<noteq> TX_NONSTANDARD, whichType)
          else (whichType \<noteq> TX_NONSTANDARD, whichType))"

definition HaveKeys :: "external \<Rightarrow> valtype list \<Rightarrow> CKeyStore \<Rightarrow> nat" where
  "HaveKeys E pubkeys ks = length (filter (\<lambda>pubkey. HaveKey ks (pk_GetID E (CPubKey pubkey))) pubkeys)"

fun IsMineDest :: "CKeyStore \<Rightarrow> CTxDestination \<Rightarrow> bool" where
  "IsMineDest ks CNoDestination = False"
| "IsMineDest ks (KeyID keyID) = HaveKey ks keyID"
| "IsMineDest ks (ScriptID scriptID) = HaveCScript ks scriptID"

text \<open>\<open>IsMine\<close> recurs on the script of a script hash, so it may run forever on a store in which a
  script pays to its own hash: the value \<open>None\<close>. The other cases of the switch are \<open>IsMine_flat\<close>.\<close>

definition IsMine_flat :: "external \<Rightarrow> CKeyStore \<Rightarrow> txnouttype \<Rightarrow> valtype list \<Rightarrow> bool" where
  "IsMine_flat E ks whichType vSolutions =
     (case whichType of
        TX_PUBKEY \<Rightarrow> HaveKey ks (pk_GetID E (CPubKey (hd vSolutions)))
      | TX_PUBKEYHASH \<Rightarrow> HaveKey ks (uint160_of (hd vSolutions))
      | TX_MULTISIG \<Rightarrow> let keys = butlast (tl vSolutions) in HaveKeys E keys ks = length keys
      | _ \<Rightarrow> False)"

partial_function (option) IsMine :: "external \<Rightarrow> nat \<Rightarrow> CKeyStore \<Rightarrow> script \<Rightarrow> bool option" where
  "IsMine E nMax ks s =
     (let (ok, whichType, vSolutions) = Solver nMax s in
      if \<not> ok then Some False
      else if whichType = TX_SCRIPTHASH then
        let subscript = GetCScript ks (uint160_of (hd vSolutions)) in
        if subscript = None then Some False else IsMine E nMax ks (the subscript)
      else Some (IsMine_flat E ks whichType vSolutions))"

definition ExtractDestination :: "external \<Rightarrow> nat \<Rightarrow> script \<Rightarrow> CTxDestination option" where
  "ExtractDestination E nMax s =
     (case Solver nMax s of
        (False, _, _) \<Rightarrow> None
      | (True, whichType, vSolutions) \<Rightarrow>
          if whichType = TX_PUBKEY then Some (KeyID (pk_GetID E (CPubKey (hd vSolutions))))
          else if whichType = TX_PUBKEYHASH then Some (KeyID (uint160_of (hd vSolutions)))
          else if whichType = TX_SCRIPTHASH then Some (ScriptID (uint160_of (hd vSolutions)))
          else None)"

text \<open>The result, \<open>typeRet\<close>, \<open>addressRet\<close> and \<open>nRequiredRet\<close> where it is set.\<close>

definition ExtractDestinations ::
  "external \<Rightarrow> nat \<Rightarrow> script \<Rightarrow> bool \<times> txnouttype \<times> CTxDestination list \<times> nat option" where
  "ExtractDestinations E nMax s =
     (case Solver nMax s of
        (False, typeRet, _) \<Rightarrow> (False, typeRet, [], None)
      | (True, typeRet, vSolutions) \<Rightarrow>
          if typeRet = TX_NULL_DATA then (False, typeRet, [], None)
          else if typeRet = TX_MULTISIG then
            (True, typeRet, map (\<lambda>k. KeyID (pk_GetID E (CPubKey k))) (butlast (tl vSolutions)),
             Some (unat (hd (hd vSolutions))))
          else
            (case ExtractDestination E nMax s of
               None \<Rightarrow> (False, typeRet, [], Some 1)
             | Some address \<Rightarrow> (True, typeRet, [address], Some 1)))"

text \<open>The visitor that collects the keys of the store that a script involves; the fuel bounds the nesting
  of script hashes.\<close>

primrec ExtractAffectedKeys ::
  "nat \<Rightarrow> external \<Rightarrow> nat \<Rightarrow> CKeyStore \<Rightarrow> script \<Rightarrow> uint160 list option" where
  "ExtractAffectedKeys 0 E nMax ks s = None"
| "ExtractAffectedKeys (Suc fuel) E nMax ks s =
     (case ExtractDestinations E nMax s of
        (False, _, _, _) \<Rightarrow> Some []
      | (True, _, vDest, _) \<Rightarrow>
          map_option concat (those (map (\<lambda>dest. case dest of
             CNoDestination \<Rightarrow> Some []
           | KeyID keyId \<Rightarrow> Some (if HaveKey ks keyId then [keyId] else [])
           | ScriptID scriptId \<Rightarrow>
               (case GetCScript ks scriptId of None \<Rightarrow> Some []
                | Some sub \<Rightarrow> ExtractAffectedKeys fuel E nMax ks sub)) vDest)))"

section \<open>Combining signatures\<close>

definition PushAll :: "valtype list \<Rightarrow> script" where
  "PushAll values = foldl push_data [] values"

definition all_sigs :: "valtype list \<Rightarrow> valtype list \<Rightarrow> valtype list" where
  "all_sigs sigs1 sigs2 = fold sput (filter (\<lambda>v. v \<noteq> []) (sigs1 @ sigs2)) []"

text \<open>One signature against the keys that have none yet; the first that verifies takes it.\<close>

fun assign_sig ::
  "'c checker \<Rightarrow> script \<Rightarrow> valtype \<Rightarrow> valtype list \<Rightarrow> (valtype, valtype) omap \<times> 'c \<Rightarrow>
     (valtype, valtype) omap \<times> 'c" where
  "assign_sig chk spk sig [] st = st"
| "assign_sig chk spk sig (pubkey # rest) (sigs, c) =
     (if map_of sigs pubkey \<noteq> None then assign_sig chk spk sig rest (sigs, c)
      else case chk c sig pubkey spk of
        (True, c') \<Rightarrow> (oput pubkey sig sigs, c')
      | (False, c') \<Rightarrow> assign_sig chk spk sig rest (sigs, c'))"

fun merge_sigs :: "nat \<Rightarrow> (valtype, valtype) omap \<Rightarrow> valtype list \<Rightarrow> nat \<Rightarrow> script \<Rightarrow> nat \<times> script" where
  "merge_sigs nSigsRequired sigs [] nSigsHave result = (nSigsHave, result)"
| "merge_sigs nSigsRequired sigs (pubkey # rest) nSigsHave result =
     (if nSigsHave < nSigsRequired then
        (case map_of sigs pubkey of
           None \<Rightarrow> merge_sigs nSigsRequired sigs rest nSigsHave result
         | Some sig \<Rightarrow> merge_sigs nSigsRequired sigs rest (nSigsHave + 1) (push_data result sig))
      else (nSigsHave, result))"

definition CombineMultisig ::
  "'c checker \<Rightarrow> script \<Rightarrow> valtype list \<Rightarrow> valtype list \<Rightarrow> valtype list \<Rightarrow> 'c \<Rightarrow> script \<times> 'c" where
  "CombineMultisig chk spk vSolutions sigs1 sigs2 c =
     (let nSigsRequired = unat (hd (hd vSolutions));
          pubkeys = butlast (tl vSolutions);
          (sigs, c') = fold (\<lambda>sig. assign_sig chk spk sig pubkeys) (all_sigs sigs1 sigs2) ([], c);
          (nSigsHave, result) = merge_sigs nSigsRequired sigs pubkeys 0 (push_opcode [] OP_0)
      in (foldl push_opcode result (replicate (nSigsRequired - nSigsHave) OP_0), c'))"

function combine ::
  "'c checker \<Rightarrow> nat \<Rightarrow> script \<Rightarrow> txnouttype \<Rightarrow> valtype list \<Rightarrow> valtype list \<Rightarrow> valtype list \<Rightarrow> 'c \<Rightarrow>
     script \<times> 'c" where
  "combine chk nMax spk txType vSolutions sigs1 sigs2 c =
     (case txType of
        TX_NONSTANDARD \<Rightarrow> (if length sigs1 \<ge> length sigs2 then PushAll sigs1 else PushAll sigs2, c)
      | TX_NULL_DATA \<Rightarrow> (if length sigs1 \<ge> length sigs2 then PushAll sigs1 else PushAll sigs2, c)
      | TX_PUBKEY \<Rightarrow> (if sigs1 = [] \<or> hd sigs1 = [] then PushAll sigs2 else PushAll sigs1, c)
      | TX_PUBKEYHASH \<Rightarrow> (if sigs1 = [] \<or> hd sigs1 = [] then PushAll sigs2 else PushAll sigs1, c)
      | TX_SCRIPTHASH \<Rightarrow>
          if sigs1 = [] \<or> last sigs1 = [] then (PushAll sigs2, c)
          else if sigs2 = [] \<or> last sigs2 = [] then (PushAll sigs1, c)
          else
            (case Solver nMax (last sigs1) of
               (_, txType2, vSolutions2) \<Rightarrow>
                 (case combine chk nMax (last sigs1) txType2 vSolutions2 (butlast sigs1) (butlast sigs2) c of
                    (result, c') \<Rightarrow> (push_data result (last sigs1), c')))
      | TX_MULTISIG \<Rightarrow> CombineMultisig chk spk vSolutions sigs1 sigs2 c)"
  by pat_completeness auto
termination
  by (relation "measure (\<lambda>(chk, nMax, spk, t, sol, sigs1, sigs2, c). length sigs1)") (auto simp: neq_Nil_conv)

declare combine.simps [simp del]

text \<open>\<open>CTransaction()\<close> takes the adjusted time, the argument \<open>now\<close>. A stack of the model has its top
  first, so it is reversed into the vector of the code.\<close>

definition CombineSignatures ::
  "external \<Rightarrow> nat \<Rightarrow> u32 \<Rightarrow> script \<Rightarrow> CTransaction \<Rightarrow> nat \<Rightarrow> script \<Rightarrow> script \<Rightarrow> sigcache \<Rightarrow>
     script \<times> sigcache" where
  "CombineSignatures E nMax now spk tx n scriptSig1 scriptSig2 c =
     (let (_, txType, vSolutions) = Solver nMax spk;
          ctx0 = \<lparr>txTo = \<lparr>tx_nVersion = 1, tx_nTime = now, vin = [], vout = [], nLockTime = 0\<rparr>, nIn = 0,
                  ctx_flags = SCRIPT_VERIFY_NONE, ctx_hashType = 0\<rparr>;
          ctx = \<lparr>txTo = tx, nIn = n, ctx_flags = 0, ctx_hashType = 0\<rparr>;
          (_, stack1, c1) = EvalScript E (CheckSig E ctx0) ctx0 [] scriptSig1 c;
          (_, stack2, c2) = EvalScript E (CheckSig E ctx0) ctx0 [] scriptSig2 c1
      in combine (CheckSig E ctx) nMax spk txType vSolutions (rev stack1) (rev stack2) c2)"

end
