(* ===== verification/StandardProps.thy ===== *)
theory StandardProps
  imports Standard InterpProps "HOL-Library.Sublist"
begin

text \<open>
  What classification and signing guarantee: the standard scripts are recognised and lead back to
  their destinations, a signed input verifies, and combining signatures keeps only valid ones.
\<close>

section \<open>The standard scripts are recognised\<close>

lemma uint160_of_bytes [simp]: "uint160_of (bytes_of_uint160 h) = h"
  by (simp add: uint160_of_def)

lemma GetOp2_20 [simp]: "length b = 20 \<Longrightarrow> GetOp2 (20 # b @ r) = Some (20, b, r)"
  by (simp add: GetOp2_iff)

lemma GetOp2_op [simp]:
  "GetOp2 (0x76 # r) = Some (0x76, [], r)" "GetOp2 (0xa9 # r) = Some (0xa9, [], r)"
  "GetOp2 (0x88 # r) = Some (0x88, [], r)" "GetOp2 (0xac # r) = Some (0xac, [], r)"
  "GetOp2 (0xae # r) = Some (0xae, [], r)" "GetOp2 (0x6a # r) = Some (0x6a, [], r)"
  "GetOp2 (0x87 # r) = Some (0x87, [], r)"
  "GetOp2 (0xf9 # r) = Some (0xf9, [], r)" "GetOp2 (0xfa # r) = Some (0xfa, [], r)"
  "GetOp2 (0xfb # r) = Some (0xfb, [], r)" "GetOp2 (0xfd # r) = Some (0xfd, [], r)"
  "GetOp2 (0xfe # r) = Some (0xfe, [], r)" "GetOp2 [] = None"
  by (simp_all add: GetOp2_def)

lemma SetDestination_bytes:
  "SetDestination (KeyID h) = [0x76, 0xa9, 20] @ bytes_of_uint160 h @ [0x88, 0xac]"
  "SetDestination (ScriptID h) = [0xa9, 20] @ bytes_of_uint160 h @ [0x87]"
  by (simp_all add: push_opcode_def push_uint160_def)

lemma Solver_KeyID: "Solver nMax (SetDestination (KeyID h)) = (True, TX_PUBKEYHASH, [bytes_of_uint160 h])"
  unfolding Solver_def SetDestination_bytes
  by (simp add: IsPayToScriptHash_def mTemplates_def push_opcode_def match_template.simps match_op_def)

lemma Solver_ScriptID: "Solver nMax (SetDestination (ScriptID h)) = (True, TX_SCRIPTHASH, [bytes_of_uint160 h])"
  unfolding Solver_def SetDestination_bytes
  by (simp add: IsPayToScriptHash_def nth_append)

lemma ExtractDestination_SetDestination:
  "d \<noteq> CNoDestination \<Longrightarrow> ExtractDestination E nMax (SetDestination d) = Some d"
  by (cases d) (simp_all add: ExtractDestination_def Solver_KeyID Solver_ScriptID del: SetDestination.simps)

text \<open>Multisignature scripts.\<close>

lemma CPubKey_valid:
  assumes "pk_IsValid (CPubKey bs)"
  shows "bs \<noteq> []" "GetLen (hd bs) = length bs" "CPubKey bs = bs"
proof -
  have "\<not> pk_IsValid invalid_pubkey" by (simp add: pk_IsValid_def pk_size_def invalid_pubkey_def GetLen_def)
  then have "CPubKey bs \<noteq> invalid_pubkey" using assms by auto
  then show "bs \<noteq> []" "GetLen (hd bs) = length bs" "CPubKey bs = bs"
    by (auto simp: CPubKey_def Let_def split: list.splits if_splits)
qed

lemma pk_length: "pk_IsValid (CPubKey bs) \<Longrightarrow> length bs = 33 \<or> length bs = 65"
  using CPubKey_valid [of bs] by (auto simp: GetLen_def split: if_splits)

lemma pk_length_push: "pk_IsValid (CPubKey bs) \<Longrightarrow> 33 \<le> length bs \<and> length bs < 76"
  using pk_length [of bs] by auto

lemma pk_size_CPubKey: "pk_IsValid (CPubKey bs) \<Longrightarrow> pk_size (CPubKey bs) = length bs"
  unfolding pk_size_def by (metis CPubKey_valid(2,3))

definition push_raw :: "valtype list \<Rightarrow> script" where
  "push_raw vs = concat (map (\<lambda>v. of_nat (length v) # v) vs)"

lemma push_raw_simps [simp]:
  "push_raw [] = []" "push_raw (v # vs) = of_nat (length v) # v @ push_raw vs"
  by (simp_all add: push_raw_def)

lemma foldl_push_key:
  "list_all (\<lambda>bs. pk_IsValid (CPubKey bs)) vs \<Longrightarrow> foldl push_key s (map CPubKey vs) = s @ push_raw vs"
  by (induction vs arbitrary: s) (simp_all add: push_key_def pk_bytes_CPubKey pk_size_CPubKey)

lemma GetOp2_short: "length v < 76 \<Longrightarrow> GetOp2 (of_nat (length v) # v @ r) = Some (length v, v, r)"
  by (simp add: GetOp2_iff unat_of_nat take_bit_eq_mod)

lemma GetOp2_N: "1 \<le> n \<Longrightarrow> n \<le> 16 \<Longrightarrow> GetOp2 (of_nat (0x50 + n) # r) = Some (0x50 + n, [], r)"
  by (rule GetOp2_opcode) simp_all

lemma pubkeys_loop_keys:
  assumes "list_all (\<lambda>v. 33 \<le> length v \<and> length v < 76) vs" "GetOp2 r = Some (opc, [], r')"
  shows "33 \<le> length v \<and> length v < 76 \<Longrightarrow>
    pubkeys_loop o1 v (push_raw vs @ r) sol = (sol @ v # vs, Some (opc, [], r'))"
  using assms
proof (induction vs arbitrary: o1 v sol)
  case Nil
  then show ?case by (simp add: pubkeys_loop.simps)
next
  case (Cons w vs)
  then show ?case by (subst pubkeys_loop.simps) (simp add: GetOp2_short)
qed

lemma EncodeOP_N_pos: "1 \<le> n \<Longrightarrow> n \<le> 16 \<Longrightarrow> EncodeOP_N (int n) = Some (0x50 + n)"
  by (simp add: EncodeOP_N_def)

lemma SetMultisig_eq:
  assumes "1 \<le> m" "m \<le> 16" "vs \<noteq> []" "length vs \<le> 16" "list_all (\<lambda>bs. pk_IsValid (CPubKey bs)) vs"
  shows "SetMultisig (int m) (map CPubKey vs) =
    Some (of_nat (0x50 + m) # push_raw vs @ [of_nat (0x50 + length vs), 0xae])"
proof -
  have "EncodeOP_N (int (length vs)) = Some (0x50 + length vs)"
    using assms(3,4) by (intro EncodeOP_N_pos) (auto simp: Suc_leI)
  then show ?thesis using assms
    by (simp add: SetMultisig_def EncodeOP_N_pos foldl_push_key push_opcode_def)
qed

lemma Solver_multisig:
  assumes "1 \<le> m" "m \<le> length vs" "length vs \<le> 16" "list_all (\<lambda>bs. pk_IsValid (CPubKey bs)) vs"
    and "SetMultisig (int m) (map CPubKey vs) = Some s"
  shows "Solver nMax s = (True, TX_MULTISIG, [of_nat m] # vs @ [[of_nat (length vs)]])"
proof -
  let ?n = "length vs"
  have n: "vs \<noteq> []" "1 \<le> ?n" using assms(1,2) by auto
  have s: "s = of_nat (0x50 + m) # push_raw vs @ [of_nat (0x50 + ?n), 0xae]"
    using SetMultisig_eq [OF assms(1) _ n(1) assms(3,4)] assms by simp
  obtain v ws where v: "vs = v # ws" using n(1) by (cases vs) auto
  have len: "list_all (\<lambda>v. 33 \<le> length v \<and> length v < 76) vs"
    using assms(4) by (auto simp: list_all_iff dest: pk_length_push)
  have g0: "GetOp2 (of_nat (0x50 + m) # r) = Some (0x50 + m, [], r)" for r
    using assms(1-3) by (intro GetOp2_N) auto
  have g1: "GetOp2 (push_raw vs @ r) = Some (length v, v, push_raw ws @ r)" for r
    using len by (simp add: v GetOp2_short)
  have g2: "GetOp2 [of_nat (0x50 + ?n), 0xae] = Some (0x50 + ?n, [], [0xae])"
    using n(2) assms(3) by (rule GetOp2_N)
  have lp: "pubkeys_loop (length v) v (push_raw ws @ [of_nat (0x50 + ?n), 0xae]) sol =
      (sol @ vs, Some (0x50 + ?n, [], [0xae]))" for sol
    using pubkeys_loop_keys [of ws, OF _ g2, of v "length v" sol] len by (simp add: v)
  have d: "DecodeOP_N (0x50 + k) = Some k" if "1 \<le> k" "k \<le> 16" for k using that by (simp add: DecodeOP_N_def)
  have "34 \<le> length (push_raw vs)" using len by (simp add: v)
  then have sh: "\<not> IsPayToScriptHash s" by (simp add: s IsPayToScriptHash_def)
  have t1: "match_template nMax s (foldl push_opcode [] [OP_PUBKEY, OP_CHECKSIG]) [] = None"
    unfolding s by (subst match_template.simps) (simp add: g0 push_opcode_def match_op_def del: of_nat_add)
  have t2: "match_template nMax s (foldl push_opcode [] [OP_DUP, OP_HASH160, OP_PUBKEYHASH, OP_EQUALVERIFY, OP_CHECKSIG]) [] = None"
    unfolding s using assms(1-3) by (subst match_template.simps) (simp add: g0 push_opcode_def match_op_def del: of_nat_add)
  have t3: "match_template nMax s (foldl push_opcode [] [OP_SMALLINTEGER, OP_PUBKEYS, OP_SMALLINTEGER, OP_CHECKMULTISIG]) [] =
      Some ([of_nat m] # vs @ [[of_nat ?n]])"
    unfolding s using assms(1-3) n
    by (subst match_template.simps)
      (simp add: g0 push_opcode_def match_op_def d match_template.simps g1 lp del: of_nat_add)
  have u: "unat (of_nat m :: byte) = m" "unat (of_nat ?n :: byte) = ?n"
    using assms(2,3) by (simp_all add: unat_of_nat)
  show ?thesis
    using sh assms(1,2) n u by (simp add: Solver_def mTemplates_def t1 t2 t3 del: foldl.simps)
qed

section \<open>Ownership\<close>

text \<open>\<open>IsMine\<close> returns when no script of the store is itself a pay to script hash.\<close>

lemma Solver_SCRIPTHASH: "Solver nMax s = (True, TX_SCRIPTHASH, sol) \<Longrightarrow> IsPayToScriptHash s"
proof -
  have "scan_templates nMax s ts \<noteq> (True, TX_SCRIPTHASH, sol)" if "TX_SCRIPTHASH \<notin> fst ` set ts" for ts
    using that by (induction nMax s ts rule: scan_templates.induct) (auto simp: Let_def split: option.splits)
  moreover have "TX_SCRIPTHASH \<notin> fst ` set mTemplates" by (simp add: mTemplates_def)
  ultimately show "Solver nMax s = (True, TX_SCRIPTHASH, sol) \<Longrightarrow> IsPayToScriptHash s"
    by (auto simp: Solver_def split: if_splits)
qed

lemma IsMine_flat_script: "\<not> IsPayToScriptHash s \<Longrightarrow> IsMine E nMax ks s \<noteq> None"
  using Solver_SCRIPTHASH [of nMax s] by (subst IsMine.simps) (auto split: prod.splits)

lemma IsMine_returns:
  assumes "\<And>h sub. GetCScript ks h = Some sub \<Longrightarrow> \<not> IsPayToScriptHash sub"
  shows "IsMine E nMax ks s \<noteq> None"
proof (cases "IsPayToScriptHash s")
  case True
  then show ?thesis using IsMine_flat_script assms
    by (subst IsMine.simps) (auto simp: Let_def split: prod.splits)
qed (rule IsMine_flat_script)

lemma IsMine_standard:
  "IsMine E nMax ks (SetDestination (KeyID h)) = Some (HaveKey ks h)"
  "IsMine E nMax ks (SetDestination (ScriptID h)) =
     (case GetCScript ks h of None \<Rightarrow> Some False | Some sub \<Rightarrow> IsMine E nMax ks sub)"
  by (subst IsMine.simps, simp add: Solver_KeyID Solver_ScriptID IsMine_flat_def Let_def
      del: SetDestination.simps split: option.splits)+

lemma length_filter_all: "length (filter P xs) = length xs \<longleftrightarrow> (\<forall>x \<in> set xs. P x)"
  by (metis filter_id_conv length_filter_less less_irrefl)

lemma IsMine_multisig:
  assumes "1 \<le> m" "m \<le> length vs" "length vs \<le> 16" "list_all (\<lambda>bs. pk_IsValid (CPubKey bs)) vs"
    and "SetMultisig (int m) (map CPubKey vs) = Some s"
  shows "IsMine E nMax ks s = Some (list_all (\<lambda>v. HaveKey ks (pk_GetID E (CPubKey v))) vs)"
  by (subst IsMine.simps)
    (simp add: Solver_multisig [OF assms] IsMine_flat_def HaveKeys_def Let_def length_filter_all list_all_iff)

section \<open>Signing\<close>

text \<open>
  What is assumed of OpenSSL's ECDSA, as documented: the group is secp256k1; the components of a
  signature are between 1 and the order minus 1; a signature verifies under the public key of the
  key that made it, and so does its form with the negated S; it is written in DER; and a public
  key made from a secret is a point in the compressed or uncompressed form asked for.
\<close>

definition ecdsa_ok :: "external \<Rightarrow> bool" where
  "ecdsa_ok E \<longleftrightarrow> EC_order E = int secp256k1_n \<and>
     (\<forall>r s. 0 < r \<and> r < EC_order E \<and> 0 < s \<and> s < EC_order E \<longrightarrow>
        i2d_ECDSA_SIG E r s = der_sig (mpi_bytes r) (mpi_bytes s)) \<and>
     (\<forall>d h r s c. length d = 32 \<and> ECDSA_do_sign E d h = Some (r, s) \<longrightarrow>
        0 < r \<and> r < EC_order E \<and> 0 < s \<and> s < EC_order E \<and>
        ECDSA_verify E (EC_secret_pubkey E d c) h (i2d_ECDSA_SIG E r s) = 1 \<and>
        ECDSA_verify E (EC_secret_pubkey E d c) h (i2d_ECDSA_SIG E r (EC_order E - s)) = 1) \<and>
     (\<forall>d c. length d = 32 \<longrightarrow> EC_set_pubkey E (EC_secret_pubkey E d c) \<and>
        (if c then length (EC_secret_pubkey E d c) = 33 \<and> hd (EC_secret_pubkey E d c) \<in> {2, 3}
         else length (EC_secret_pubkey E d c) = 65 \<and> hd (EC_secret_pubkey E d c) = 4))"

lemma le_min_nonzero: "0 < n \<Longrightarrow> le_min n \<noteq> [] \<and> last (le_min n) \<noteq> 0"
proof (induction n rule: le_min.induct)
  case (1 n)
  show ?case
  proof (cases "n div 256 = 0")
    case True
    then have "n < 256" by (simp add: div_eq_0_iff)
    then have "(of_nat (n mod 256) :: byte) \<noteq> 0" using "1.prems" by (simp add: word_of_nat_eq_0_iff nat_dvd_not_less)
    then show ?thesis using "1.prems" True by (subst (1 2) le_min.simps) (simp add: le_min.simps [of 0])
  next
    case False
    then have ih: "le_min (n div 256) \<noteq> [] \<and> last (le_min (n div 256)) \<noteq> 0" using "1.IH" "1.prems" by auto
    then show ?thesis using "1.prems" by (subst (1 2) le_min.simps) simp
  qed
qed

lemma mpi_bytes_pos:
  assumes "0 < v"
  shows "int (be_val (mpi_bytes v)) = v" "der_int (mpi_bytes v)"
proof -
  let ?m = "rev (le_min (nat v))"
  have nz: "?m \<noteq> []" "hd ?m \<noteq> 0" using le_min_nonzero [of "nat v"] assms by (simp_all add: hd_rev)
  then obtain b bs where b: "?m = b # bs" "b \<noteq> 0" by (cases ?m) auto
  have v: "be_val ?m = nat v" by (simp add: be_val_def)
  have m: "mpi_bytes v = (if bit b 7 then 0 # b # bs else b # bs)"
    using assms b(1) by (simp add: mpi_bytes_def bit7_iff)
  show "int (be_val (mpi_bytes v)) = v"
    using v assms by (auto simp: m b(1) be_val_def le_val_append)
  show "der_int (mpi_bytes v)" using b(2) by (auto simp: der_int_def m)
qed

lemma length_mpi_order: "0 < v \<Longrightarrow> v < int secp256k1_n \<Longrightarrow> length (mpi_bytes v) \<le> 33"
  using length_mpi_bytes [of v 32] by (simp add: secp256k1_n_def)

lemma GetPubKey_shape:
  assumes "ecdsa_ok E" "key_ok k" "GetPubKey E k = Some pk"
  shows "CPubKey pk = pk" "pk = EC_secret_pubkey E (key_vch k) (fCompressed k)" "pk_IsValid pk"
    "pk_bytes pk = pk" "EC_set_pubkey E pk" "IsCompressedOrUncompressedPubKey pk" "length pk < 76"
    "pk_size pk = length pk" "pk_IsCompressed pk = fCompressed k"
proof -
  define pub where "pub = EC_secret_pubkey E (key_vch k) (fCompressed k)"
  have k: "fValid k" "length (key_vch k) = 32" using assms(2) by (auto simp: key_ok_def)
  have sh: "EC_set_pubkey E pub" "if fCompressed k then length pub = 33 \<and> hd pub \<in> {2, 3}
      else length pub = 65 \<and> hd pub = 4"
    using assms(1) k(2) unfolding ecdsa_ok_def pub_def by blast+
  obtain x xs where x: "pub = x # xs" using sh(2) by (cases pub) (auto split: if_splits)
  have c: "CPubKey pub = pub" "GetLen x = length pub"
    using sh(2) by (auto simp: x CPubKey_def GetLen_def split: if_splits)
  have pk: "pk = pub" using assms(3) k(1) c(1) by (simp add: GetPubKey_def pub_def)
  show "pk = EC_secret_pubkey E (key_vch k) (fCompressed k)" by (simp add: pk pub_def)
  show "CPubKey pk = pk" "pk_IsValid pk" "pk_bytes pk = pk" "EC_set_pubkey E pk"
    "IsCompressedOrUncompressedPubKey pk" "length pk < 76" "pk_size pk = length pk"
    "pk_IsCompressed pk = fCompressed k"
    using sh c pk by (auto simp: x pk_IsValid_def pk_bytes_def pk_size_def pk_IsCompressed_def
        IsCompressedOrUncompressedPubKey_def split: if_splits)
qed

text \<open>A signature made by a valid key is the canonical encoding of an admissible pair and verifies.\<close>

lemma CKey_Sign_good:
  assumes "bn_ok E" "ecdsa_ok E" "key_ok k" "GetPubKey E k = Some pk" "CKey_Sign E k hash = Some sig"
  shows "pk_Verify E pk hash sig"
    and "\<exists>r s. sig = der_sig (mpi_bytes r) (mpi_bytes s) \<and> 0 < r \<and> r < int secp256k1_n \<and>
      0 < s \<and> s \<le> int (secp256k1_n div 2)"
proof -
  let ?n = "int secp256k1_n"
  have k: "fValid k" "length (key_vch k) = 32" using assms(3) by (auto simp: key_ok_def)
  let ?pub = "EC_secret_pubkey E (key_vch k) (fCompressed k)"
  obtain r s where rs: "ECDSA_do_sign E (key_vch k) (bytes_of_uint256 hash) = Some (r, s)"
    using assms(5) k(1) by (auto simp: CKey_Sign_def split: option.splits)
  have n: "EC_order E = ?n" using assms(2) by (simp add: ecdsa_ok_def)
  have b: "0 < r" "r < ?n" "0 < s" "s < ?n"
    and ver: "ECDSA_verify E ?pub (bytes_of_uint256 hash) (i2d_ECDSA_SIG E r s) = 1"
      "ECDSA_verify E ?pub (bytes_of_uint256 hash) (i2d_ECDSA_SIG E r (?n - s)) = 1"
    using assms(2) rs k(2) unfolding ecdsa_ok_def n by blast+
  let ?s = "if ?n div 2 < s then ?n - s else s"
  have half: "BN_rshift E ?n 1 = ?n div 2" using assms(1) by (simp add: bn_ok_def secp256k1_n_def)
  have ops: "BN_cmp E s (?n div 2) > 0 \<longleftrightarrow> ?n div 2 < s" "BN_sub E ?n s = ?n - s"
    using assms(1) by (auto simp: bn_ok_def sgn_if)
  have sig: "sig = i2d_ECDSA_SIG E r ?s"
    using assms(5) k(1) unfolding CKey_Sign_def rs option.case prod.case n Let_def half ops by simp
  have s': "0 < ?s" "?s < ?n" "?s \<le> ?n div 2" using b by (auto simp: secp256k1_n_def)
  show "\<exists>r s. sig = der_sig (mpi_bytes r) (mpi_bytes s) \<and> 0 < r \<and> r < ?n \<and> 0 < s \<and> s \<le> int (secp256k1_n div 2)"
    using assms(2) b(1,2) s' unfolding sig ecdsa_ok_def n by (metis of_nat_div of_nat_numeral)
  have "pk = ?pub" "pk_IsValid pk" "pk_bytes pk = pk" "EC_set_pubkey E pk"
    using GetPubKey_shape [OF assms(2-4)] assms(4) k(1) by (auto simp: GetPubKey_def)
  then show "pk_Verify E pk hash sig" using ver by (simp add: pk_Verify_def sig)
qed

text \<open>The encoding rules accept it.\<close>

lemma IsLowDER_der_sig:
  assumes "der_int R" "der_int S" "length R + length S \<le> 66"
    and "0 < be_val S" "be_val S \<le> secp256k1_n div 2"
  shows "IsLowDERSignature (der_sig R S @ [h]) True"
proof -
  let ?v = "der_sig R S @ [h]"
  have d: "IsDERSignature ?v True" using assms(1-3) unfolding IsDER_iff by blast
  have l: "length R < 256" "length S < 256" using assms(3) by auto
  have v: "?v = [0x30, of_nat (length R + length S + 4), 2, of_nat (length R)] @ R @ [2, of_nat (length S)] @ S @ [h]"
    by (simp add: der_sig_def)
  have r: "unat (?v ! 3) = length R" using l by (simp add: v unat_of_nat)
  have s: "unat (?v ! (5 + length R)) = length S"
    unfolding v using l by (simp add: nth_append unat_of_nat)
  let ?x = "[0x30, of_nat (length R + length S + 4), 2, of_nat (length R)] @ R @ [2, of_nat (length S)]"
  have "?v = ?x @ S @ [h]" "length ?x = 6 + length R" by (simp_all add: v)
  then have "drop (6 + length R) ?v = S @ [h]" by (metis append_eq_conv_conj)
  then have t: "take (length S) (drop (6 + length R) ?v) = S" by simp
  have "CheckSignatureElement S True" using assms(4,5) unfolding CheckSignatureElement_iff by simp
  with d show ?thesis unfolding IsLowDERSignature_def Let_def r s t by simp
qed

lemma sig_encoded_signed:
  assumes "bn_ok E" "ecdsa_ok E" "key_ok k" "GetPubKey E k = Some pk" "CKey_Sign E k hash = Some sig"
  shows "CheckSignatureEncoding (sig @ [ht]) STANDARD_SCRIPT_VERIFY_FLAGS" "8 \<le> length sig \<and> length sig < 73"
proof -
  obtain r s where rs: "sig = der_sig (mpi_bytes r) (mpi_bytes s)" "0 < r" "r < int secp256k1_n"
      "0 < s" "s \<le> int (secp256k1_n div 2)"
    using CKey_Sign_good(2) [OF assms] by blast
  have s: "s < int secp256k1_n" using rs(5) by (simp add: secp256k1_n_def)
  have len: "length (mpi_bytes r) + length (mpi_bytes s) \<le> 66"
    using length_mpi_order [OF rs(2,3)] length_mpi_order [OF rs(4) s] by simp
  note R = mpi_bytes_pos [OF rs(2)] and S = mpi_bytes_pos [OF rs(4)]
  have "IsLowDERSignature (sig @ [ht]) True"
    unfolding rs(1) using R S rs len by (intro IsLowDER_der_sig) (auto simp: of_nat_div)
  moreover have "has_flag STANDARD_SCRIPT_VERIFY_FLAGS SCRIPT_VERIFY_FIX_HASHTYPE"
    by (simp add: STANDARD_SCRIPT_VERIFY_FLAGS_def MANDATORY_SCRIPT_VERIFY_FLAGS_def has_flag_def)
  ultimately show "CheckSignatureEncoding (sig @ [ht]) STANDARD_SCRIPT_VERIFY_FLAGS"
    by (simp add: CheckSignatureEncoding_def)
  have "1 \<le> length (mpi_bytes r)" "1 \<le> length (mpi_bytes s)"
    using R(2) S(2) by (simp_all add: der_int_def Suc_le_eq)
  then have "2 \<le> length (mpi_bytes r) + length (mpi_bytes s)" by linarith
  then show "8 \<le> length sig \<and> length sig < 73" using len by (simp add: rs(1) der_sig_def)
qed

text \<open>The hash that a signature signs does not depend on the input scripts.\<close>

lemma set_scriptSig_simps [simp]:
  "tx_nVersion (set_scriptSig tx n s) = tx_nVersion tx" "tx_nTime (set_scriptSig tx n s) = tx_nTime tx"
  "vout (set_scriptSig tx n s) = vout tx" "nLockTime (set_scriptSig tx n s) = nLockTime tx"
  "length (vin (set_scriptSig tx n s)) = length (vin tx)"
  by (simp_all add: set_scriptSig_def)

lemma blank_set_scriptSig:
  assumes "n < length (vin tx)" "m < length (vin tx)"
  shows "blank_inputs code m (vin (set_scriptSig tx n s)) = blank_inputs code m (vin tx)"
proof -
  have b: "map (\<lambda>i. i\<lparr>scriptSig := []\<rparr>) ((vin tx)[n := (vin tx ! n)\<lparr>scriptSig := s\<rparr>]) = map (\<lambda>i. i\<lparr>scriptSig := []\<rparr>) (vin tx)"
    using assms(1) by (simp add: map_update list_update_same_conv)
  show ?thesis by (simp add: blank_inputs_def set_scriptSig_def Let_def b)
qed

lemma SignatureHash_set_scriptSig:
  "SignatureHash E code (set_scriptSig tx n s) m ht = SignatureHash E code tx m ht"
proof (cases "n < length (vin tx) \<and> m < length (vin tx)")
  case True
  have "set_scriptSig tx n s\<lparr>vin := x\<rparr> = tx\<lparr>vin := x\<rparr>" for x by (simp add: set_scriptSig_def)
  then have "sighash_tx code (set_scriptSig tx n s) m ht = sighash_tx code tx m ht"
    using True unfolding sighash_tx_def by (simp add: blank_set_scriptSig Let_def)
  then show ?thesis by (simp add: SignatureHash_def)
next
  case False
  moreover have "set_scriptSig tx n s = tx" if "\<not> n < length (vin tx)" using that by (cases tx) (simp add: set_scriptSig_def list_update_beyond not_less)
  ultimately show ?thesis by (cases "n < length (vin tx)") (simp_all add: SignatureHash_def)
qed

text \<open>So verifying an input does not depend on the script of any input but through the scripts it is given.\<close>

lemma eval_loop_ctx:
  assumes "CheckLockTime E ctx' = CheckLockTime E ctx" "ctx_flags ctx' = ctx_flags ctx"
  shows "eval_loop E chk ctx' pc ic = eval_loop E chk ctx pc ic"
proof -
  have "op_checklocktime E ctx' = op_checklocktime E ctx" "op_nop_n ctx' = op_nop_n ctx"
    by (intro ext, simp only: op_checklocktime_def op_nop_n_def assms)+
  then have "plain_op E ctx' = plain_op E ctx" by (intro ext) (simp only: plain_op_def)
  then have "exec_op E chk ctx' = exec_op E chk ctx" by (intro ext) (simp only: exec_op_def assms(2))
  then have s: "eval_step E chk ctx' = eval_step E chk ctx" by (intro ext) (simp only: eval_step_def)
  show ?thesis
  proof (induction pc ic rule: eval_loop_induct)
    case (step pc ic opcode v pc')
    show ?case unfolding eval_loop_step [OF step(1)] s step(2) ..
  qed (simp add: eval_loop_stop)
qed

lemma VerifyScript_ctx:
  assumes "CheckLockTime E ctx' = CheckLockTime E ctx" "ctx_flags ctx' = ctx_flags ctx"
  shows "VerifyScript E chk ctx' = VerifyScript E chk ctx"
proof -
  have e: "EvalScript E chk ctx' = EvalScript E chk ctx"
    by (intro ext) (simp add: EvalScript_def eval_loop_ctx [OF assms])
  show ?thesis unfolding VerifyScript_def [abs_def] e ..
qed

lemma VerifyScript_set_scriptSig:
  "VerifyScript E (CheckSig E (ctx\<lparr>txTo := set_scriptSig tx n s\<rparr>)) (ctx\<lparr>txTo := set_scriptSig tx n s\<rparr>) =
   VerifyScript E (CheckSig E (ctx\<lparr>txTo := tx\<rparr>)) (ctx\<lparr>txTo := tx\<rparr>)"
proof -
  have f: "txin_IsFinal (vin (set_scriptSig tx n s) ! m) = txin_IsFinal (vin tx ! m)" if "m < length (vin tx)" for m
    using that by (cases "m = n") (simp_all add: set_scriptSig_def txin_IsFinal_def)
  have "CheckLockTime E (ctx\<lparr>txTo := set_scriptSig tx n s\<rparr>) = CheckLockTime E (ctx\<lparr>txTo := tx\<rparr>)"
    by (rule ext) (auto simp: CheckLockTime_def Let_def f not_le)
  moreover have "CheckSig E (ctx\<lparr>txTo := set_scriptSig tx n s\<rparr>) = CheckSig E (ctx\<lparr>txTo := tx\<rparr>)"
    by (intro ext) (cases ctx, simp only: CheckSig_def sigctx.simps SignatureHash_set_scriptSig)
  ultimately show ?thesis
    using VerifyScript_ctx [of E "ctx\<lparr>txTo := set_scriptSig tx n s\<rparr>" "ctx\<lparr>txTo := tx\<rparr>"] by simp
qed

text \<open>The script of a key hash has no instruction like the push of a signature.\<close>

lemma raw_ops_KeyID:
  "raw_ops (SetDestination (KeyID h)) = ([[0x76], [0xa9], 20 # bytes_of_uint160 h, [0x88], [0xac]], [])"
  unfolding SetDestination_bytes by (simp add: raw_ops.simps)

lemma FindAndDelete_KeyID:
  assumes "sig \<noteq> bytes_of_uint160 h" "1 < length sig" "length sig < 76"
  shows "snd (FindAndDelete (push_data [] sig) (SetDestination (KeyID h))) = SetDestination (KeyID h)"
proof -
  have p: "push_data [] sig = of_nat (length sig) # sig" using assms(3) by (simp add: push_data_def)
  have l: "(of_nat (length sig) :: byte) = 20 \<Longrightarrow> length sig = 20"
    using assms(3) by (drule_tac f = unat in arg_cong) (simp add: unat_of_nat)
  have s: "single_op (push_data [] sig)" using assms(3) by (intro single_op_push_data) simp
  have "filter (\<lambda>c. c \<noteq> push_data [] sig) [[0x76], [0xa9], 20 # bytes_of_uint160 h, [0x88], [0xac]] =
      [[0x76], [0xa9], 20 # bytes_of_uint160 h, [0x88], [0xac]]"
    using assms l by (auto simp: p filter_id_conv)
  then show ?thesis
    by (simp only: FindAndDelete_single [OF s] raw_ops_KeyID fst_conv snd_conv) (simp add: push_opcode_def push_uint160_def)
qed

text \<open>Signing the input of a pay to public key hash output gives an input that verifies.\<close>

lemma SolverSign_KeyID:
  assumes "ecdsa_ok E" "GetKey ks h = Some k" "ks_GetPubKey ks h = Some pk" "key_ok k"
    and "GetPubKey E k = Some pk" "CKey_Sign E k hash = Some sig"
  shows "SolverSign E ks nMax (SetDestination (KeyID h)) hash ht =
    (True, push_data [] (sig @ [of_int ht]) @ push_data [] pk, TX_PUBKEYHASH)"
  using GetPubKey_shape [OF assms(1,4,5)] assms(2,3,6)
  unfolding SolverSign_def Solver_KeyID
  by (simp add: Sign1_def push_key_def push_data_def)

lemma SignSignature_KeyID:
  assumes E: "bn_ok E" "hash_ok E" "ecdsa_ok E" and c: "cache_sound E c"
    and n: "n < length (vin tx)" and ht: "0 \<le> ht" "ht < 256"
    and k: "GetKey ks h = Some k" "ks_GetPubKey ks h = Some pk" "key_ok k" "GetPubKey E k = Some pk"
      "pk_GetID E pk = h"
    and s: "CKey_Sign E k (SignatureHash E (SetDestination (KeyID h)) tx n ht) = Some sig"
    and d: "sig @ [of_int ht] \<noteq> bytes_of_uint160 h"
  shows "\<exists>c'. SignSignature E ks nMax (SetDestination (KeyID h)) tx n ht c =
    Some (True, set_scriptSig tx n (push_data [] (sig @ [of_int ht]) @ push_data [] pk), c') \<and> cache_sound E c'"
proof -
  let ?spk = "SetDestination (KeyID h)" and ?S = "sig @ [of_int ht]"
  let ?ss = "push_data [] ?S @ push_data [] pk"
  let ?tx = "set_scriptSig tx n ?ss"
  let ?ctx = "\<lparr>txTo = ?tx, nIn = n, ctx_flags = STANDARD_SCRIPT_VERIFY_FLAGS, ctx_hashType = 0\<rparr>"
  note shape = GetPubKey_shape [OF E(3) k(3,4)]
  note enc = sig_encoded_signed [OF E(1,3) k(3,4) s]
  have code: "snd (FindAndDelete (push_data [] ?S) ?spk) = ?spk"
    using d enc(2) by (intro FindAndDelete_KeyID) auto
  have h: "Hash160 E pk = h" using k(5) shape(4) by (simp add: pk_GetID_def)
  have "int (unat (of_int ht :: byte)) = ht" using ht by (simp add: uint_word_of_int)
  then have "sig_valid E ?ctx ?S pk ?spk"
    using CKey_Sign_good(1) [OF E(1,3) k(3,4) s] shape(1)
    by (simp add: sig_valid_def SignatureHash_set_scriptSig)
  moreover have "sig_encoded STANDARD_SCRIPT_VERIFY_FLAGS ?S pk"
    using enc(1) shape(6) by (simp add: sig_encoded_def CheckPubKeyEncoding_def)
  ultimately have "fst (VerifyScript E (direct_check (sig_valid E ?ctx)) ?ctx ?ss ?spk ()) = Some True"
    using enc(2) shape(7) h code by (subst p2pkh_direct [OF E(2)]) (auto simp: MAX_SCRIPT_ELEMENT_SIZE_def)
  then obtain c' where v: "VerifyScript E (CheckSig E ?ctx) ?ctx ?ss ?spk c = (Some True, c')" "cache_sound E c'"
    using cached.VerifyScript_direct [OF c, of E ?ctx ?ctx ?ss ?spk] by (metis prod.collapse)
  have "test_solution E ?spk tx n ?ss c = Some (True, ?tx, c')"
    using v(1) by (simp add: test_solution_def Let_def del: SetDestination.simps)
  then have "SignSignature E ks nMax ?spk tx n ht c = Some (True, ?tx, c')"
    using n by (simp add: SignSignature_def SolverSign_KeyID [OF E(3) k(1-4) s] del: SetDestination.simps)
  then show ?thesis using v(2) by blast
qed

text \<open>Whatever \<open>SignSignature\<close> reports as signed verifies, and only the script of the input changed.\<close>

lemma SignSignature_sound:
  assumes "SignSignature E ks nMax spk tx n ht c = Some (ok, tx', c')"
  shows "\<exists>sig. tx' = set_scriptSig tx n sig \<and>
    (ok \<longrightarrow> (let ctx = \<lparr>txTo = tx', nIn = n, ctx_flags = STANDARD_SCRIPT_VERIFY_FLAGS, ctx_hashType = 0\<rparr> in
      VerifyScript E (CheckSig E ctx) ctx sig spk c = (Some True, c')))"
proof -
  have "\<exists>sig. (ok = False \<and> tx' = set_scriptSig tx n sig) \<or>
      test_solution E spk tx n sig c = Some (ok, tx', c')"
    using assms by (auto simp: SignSignature_def Let_def split: prod.splits bool.splits if_splits)
  then obtain sig where "(ok = False \<and> tx' = set_scriptSig tx n sig) \<or>
      test_solution E spk tx n sig c = Some (ok, tx', c')" by blast
  then show ?thesis
    by (intro exI [of _ sig]) (auto simp: test_solution_def Let_def split: prod.splits option.splits)
qed

text \<open>The laws can hold.\<close>

lemma mpi_bytes_two: "mpi_bytes (256 + uint (x :: byte)) = [1, x]"
proof -
  have "unat x < 2 ^ LENGTH(8)" by (rule unsigned_less)
  then have x: "(256 + unat x) div 256 = 1" "(256 + unat x) mod 256 = unat x"
    by (simp_all add: div_add_self1)
  have "256 + uint x = int (256 + unat x)" by simp
  then have n: "nat \<bar>256 + uint x\<bar> = 256 + unat x" by (simp only: abs_of_nat nat_int)
  have one: "le_min 1 = [1]" by (simp add: le_min.simps)
  have "le_min (256 + unat x) = [x, 1]"
    by (subst le_min.simps) (simp only: x one, simp)
  moreover have "\<not> 256 + uint x < 0" using uint_ge_0 [of x] by linarith
  ultimately show ?thesis unfolding mpi_bytes_def n by simp
qed

lemma openssl_ref_ecdsa_ok: "ecdsa_ok openssl_ref"
  unfolding ecdsa_ok_def
proof (intro conjI allI impI)
  show "EC_order openssl_ref = int secp256k1_n" by (simp add: openssl_ref_def secp256k1_n_def)
  show "i2d_ECDSA_SIG openssl_ref r s = der_sig (mpi_bytes r) (mpi_bytes s)" for r s
    by (simp add: openssl_ref_def toy_der_def der_sig_def Let_def)
next
  fix d h r s c assume a: "length d = 32 \<and> ECDSA_do_sign openssl_ref d h = Some (r, s)"
  then obtain x xs where d: "d = x # xs" by (cases d) auto
  have rs: "r = 256 + int (unat x)" "s = int (le_val h mod 2 ^ 200) + 1"
    using a by (auto simp: openssl_ref_def d)
  have o: "EC_order openssl_ref = 2 ^ 256 - 432420386565659656852420866394968145599"
    by (simp add: openssl_ref_def)
  have "unat x < 2 ^ LENGTH(8)" by (rule unsigned_less)
  then have "unat x < 256" by simp
  then have "0 < r" "r < 512" unfolding rs by linarith+
  moreover have "512 < EC_order openssl_ref" by (simp add: o)
  ultimately show "0 < r" "r < EC_order openssl_ref" by linarith+
  have "le_val h mod 2 ^ 200 < 2 ^ 200" by simp
  then have "int (le_val h mod 2 ^ 200) < 2 ^ 200" by (metis of_nat_less_iff of_nat_numeral of_nat_power)
  then show "0 < s" "s < EC_order openssl_ref" by (simp_all add: rs o)
  have "hd (tl (EC_secret_pubkey openssl_ref d c)) = x"
    by (simp add: openssl_ref_def toy_point_def d)
  then have v: "ECDSA_verify openssl_ref (EC_secret_pubkey openssl_ref d c) h (i2d_ECDSA_SIG openssl_ref r t) = 1" for t
    by (simp add: openssl_ref_def toy_der_def rs mpi_bytes_two Let_def)
  show "ECDSA_verify openssl_ref (EC_secret_pubkey openssl_ref d c) h (i2d_ECDSA_SIG openssl_ref r s) = 1"
    "ECDSA_verify openssl_ref (EC_secret_pubkey openssl_ref d c) h
      (i2d_ECDSA_SIG openssl_ref r (EC_order openssl_ref - s)) = 1" by (rule v)+
next
  fix d :: "byte list" and c assume d: "length d = 32"
  have l: "(last d AND 0xFE) AND 1 = 0" by (simp add: and.assoc)
  show "EC_set_pubkey openssl_ref (EC_secret_pubkey openssl_ref d c)"
    using d l by (auto simp: openssl_ref_def toy_valid_def toy_point_def toy_y_def)
  show "if c then length (EC_secret_pubkey openssl_ref d c) = 33 \<and> hd (EC_secret_pubkey openssl_ref d c) \<in> {2, 3}
      else length (EC_secret_pubkey openssl_ref d c) = 65 \<and> hd (EC_secret_pubkey openssl_ref d c) = 4"
    using d by (simp add: openssl_ref_def toy_point_def toy_y_def)
qed

section \<open>Combining signatures\<close>

definition chosen_sigs :: "(valtype, valtype) omap \<Rightarrow> valtype list \<Rightarrow> (valtype \<times> valtype) list" where
  "chosen_sigs sigs pubkeys =
     List.map_filter (\<lambda>k. map_option (\<lambda>s. (k, s)) (map_of sigs k)) pubkeys"

lemma chosen_sigs_simps [simp]:
  "chosen_sigs sigs [] = []"
  "chosen_sigs sigs (k # ks) = (case map_of sigs k of None \<Rightarrow> chosen_sigs sigs ks
     | Some s \<Rightarrow> (k, s) # chosen_sigs sigs ks)"
  by (simp_all add: chosen_sigs_def map_filter_def split: option.splits)

lemma merge_sigs_eq:
  "have \<le> m \<Longrightarrow> merge_sigs m sigs pubkeys have result =
    (have + length (take (m - have) (chosen_sigs sigs pubkeys)),
     result @ concat (map (push_data [] \<circ> snd) (take (m - have) (chosen_sigs sigs pubkeys))))"
proof (induction m sigs pubkeys "have" result rule: merge_sigs.induct)
  case (2 m sigs k ks n result)
  have p: "push_data result s = result @ push_data [] s" for s by (simp add: push_data_def)
  show ?case using 2
    by (cases "n < m") (auto simp: p [of "_"] take_Cons' Suc_diff_Suc split: option.splits simp flip: Suc_diff_Suc)
qed simp

definition sigs_ok :: "(valtype \<Rightarrow> valtype \<Rightarrow> bool) \<Rightarrow> (valtype, valtype) omap \<Rightarrow> bool" where
  "sigs_ok P m \<longleftrightarrow> omap_ok m \<and> (\<forall>(k, s) \<in> set m. P k s)"

lemma chosen_sigs_ok:
  assumes "sigs_ok P m" "distinct pubkeys"
  shows "subseq (map fst (chosen_sigs m pubkeys)) pubkeys" "\<forall>(k, s) \<in> set (chosen_sigs m pubkeys). P k s"
proof -
  show "subseq (map fst (chosen_sigs m pubkeys)) pubkeys"
    by (induction pubkeys) (auto split: option.splits)
  show "\<forall>(k, s) \<in> set (chosen_sigs m pubkeys). P k s"
    using assms(1) by (induction pubkeys) (auto simp: sigs_ok_def in_omap_iff split: option.splits)
qed

lemma set_all_sigs: "set (all_sigs s1 s2) = {s \<in> set s1 \<union> set s2. s \<noteq> []}"
proof -
  have "set (fold sput xs acc) = set xs \<union> set acc" for xs acc :: "valtype list"
    by (induction xs arbitrary: acc) auto
  then show ?thesis by (auto simp: all_sigs_def)
qed

context sig_checker
begin

lemma assign_sig_ok:
  assumes P: "P = (\<lambda>k s. k \<in> K \<and> s \<in> A \<and> valid s k spk)" and "sig \<in> A"
  shows "inv c \<Longrightarrow> sigs_ok P m \<Longrightarrow> set pubkeys \<subseteq> K \<Longrightarrow>
    \<exists>m' c'. assign_sig chk spk sig pubkeys (m, c) = (m', c') \<and> inv c' \<and> sigs_ok P m'"
proof (induction pubkeys arbitrary: m c)
  case (Cons k ks)
  show ?case
  proof (cases "map_of m k")
    case None
    obtain b c' where b: "chk c sig k spk = (b, c')" by fastforce
    have v: "b = valid sig k spk" "inv c'"
      using chk_valid [OF Cons.prems(1), of sig k spk] chk_inv [OF Cons.prems(1), of sig k spk] b by simp_all
    show ?thesis
    proof (cases b)
      case True
      then have "sigs_ok P (oput k sig m)"
        using Cons.prems v assms(2) set_oput_sub [of k sig m] by (auto simp: sigs_ok_def P)
      then show ?thesis using None b v True by simp
    next
      case False
      then show ?thesis using Cons.IH [OF v(2) Cons.prems(2)] Cons.prems(3) None b by simp
    qed
  next
    case (Some s)
    then show ?thesis using Cons by simp
  qed
qed simp

lemma fold_assign_ok:
  assumes P: "P = (\<lambda>k s. k \<in> set pubkeys \<and> s \<in> A \<and> valid s k spk)"
  shows "set ss \<subseteq> A \<Longrightarrow> inv c \<Longrightarrow> sigs_ok P m \<Longrightarrow>
    \<exists>m' c'. fold (\<lambda>sig. assign_sig chk spk sig pubkeys) ss (m, c) = (m', c') \<and> inv c' \<and> sigs_ok P m'"
proof (induction ss arbitrary: m c)
  case (Cons s ss)
  obtain m' c' where "assign_sig chk spk s pubkeys (m, c) = (m', c')" "inv c'" "sigs_ok P m'"
    using assign_sig_ok [OF P, of s c m pubkeys] Cons.prems by auto
  then show ?case using Cons.IH [of c' m'] Cons.prems(1) by simp
qed simp

lemma CombineMultisig_ok:
  assumes "inv c" "distinct pubkeys" "vSolutions = [of_nat m] # pubkeys @ [[of_nat n]]" "m < 256"
  shows "\<exists>ks ss. fst (CombineMultisig chk spk vSolutions sigs1 sigs2 c) =
      0 # concat (map (push_data []) ss) @ replicate (m - length ss) 0 \<and>
    subseq ks pubkeys \<and> length ss \<le> m \<and>
    list_all2 (\<lambda>k s. s \<in> set sigs1 \<union> set sigs2 \<and> s \<noteq> [] \<and> valid s k spk) ks ss \<and>
    inv (snd (CombineMultisig chk spk vSolutions sigs1 sigs2 c))"
proof -
  define P where "P = (\<lambda>k s. k \<in> set pubkeys \<and> s \<in> {s \<in> set sigs1 \<union> set sigs2. s \<noteq> []} \<and> valid s k spk)"
  have p: "butlast (tl vSolutions) = pubkeys" "unat (hd (hd vSolutions)) = m"
    using assms(3,4) by (simp_all add: unat_of_nat butlast_append)
  obtain sigs c' where f: "fold (\<lambda>sig. assign_sig chk spk sig pubkeys) (all_sigs sigs1 sigs2) ([], c) = (sigs, c')"
      "inv c'" "sigs_ok P sigs"
    using fold_assign_ok [OF P_def, of "all_sigs sigs1 sigs2" c "[]"] assms(1)
    by (auto simp: set_all_sigs sigs_ok_def)
  let ?ch = "take m (chosen_sigs sigs pubkeys)"
  have rep: "foldl push_opcode s (replicate k OP_0) = s @ replicate k 0" for s k
    by (induction k arbitrary: s) (simp_all add: push_opcode_def)
  have "CombineMultisig chk spk vSolutions sigs1 sigs2 c =
      (0 # concat (map (push_data []) (map snd ?ch)) @ replicate (m - length ?ch) 0, c')"
    unfolding CombineMultisig_def Let_def p f(1) prod.case
    by (simp add: merge_sigs_eq rep push_opcode_def)
  moreover have "subseq (map fst ?ch) pubkeys"
    using chosen_sigs_ok(1) [OF f(3) assms(2)] prefix_imp_subseq [OF take_is_prefix, of m "map fst (chosen_sigs sigs pubkeys)"]
    unfolding take_map [symmetric] by (rule subseq_order.order_trans [rotated])
  moreover have "list_all2 (\<lambda>k s. s \<in> set sigs1 \<union> set sigs2 \<and> s \<noteq> [] \<and> valid s k spk) (map fst ?ch) (map snd ?ch)"
    using chosen_sigs_ok(2) [OF f(3) assms(2)]
    by (auto simp: list_all2_conv_all_nth P_def dest!: bspec [OF _ nth_mem])
  ultimately show ?thesis using f(2)
    by (intro exI [of _ "map fst ?ch"] exI [of _ "map snd ?ch"]) simp
qed

end

end
