(* ===== verification/StandardSpec.thy ===== *)
theory StandardSpec
  imports StandardProps ScriptSpec
begin

text \<open>
  The properties of standard scripts, signing and the key stores.
\<close>

section \<open>A concrete wallet\<close>

definition key1 :: key where
  "key1 = \<lparr>fValid = True, fCompressed = True, key_vch = replicate 31 0 @ [5]\<rparr>"

definition pub1 :: pubkey where "pub1 = 2 # replicate 31 0 @ [5]"

definition id1 :: uint160 where "id1 = pk_GetID openssl_ref pub1"

definition store1 :: basic_keystore where
  "store1 = \<lparr>mapKeys = [(id1, key1)], mapScripts = []\<rparr>"

definition tx1 :: CTransaction where
  "tx1 = \<lparr>tx_nVersion = 1, tx_nTime = 0, vin = [\<lparr>prevout = COutPoint_null, scriptSig = [], nSequence = 0\<rparr>],
     vout = [], nLockTime = 0\<rparr>"

lemma key1_ok: "key_ok key1"
proof -
  have "le_val (replicate 31 0) = 0" by (simp add: numeral_eq_Suc)
  then have "CKey_Check (replicate 31 0 @ [5])"
    using CKey_Check_iff [of "replicate 31 0 @ [5]"] by (simp add: secp256k1_n_def be_val_append be_val_def)
  then show ?thesis by (simp add: key_ok_def key1_def)
qed

lemma pub1_key: "GetPubKey openssl_ref key1 = Some pub1" "CPubKey pub1 = pub1" "pk_bytes pub1 = pub1"
  by (simp_all add: GetPubKey_def key1_def pub1_def openssl_ref_def toy_point_def CPubKey_def GetLen_def
      pk_bytes_def pk_size_def)

lemma store1_view:
  "GetKey (basic_view openssl_ref store1) id1 = Some key1"
  "ks_GetPubKey (basic_view openssl_ref store1) id1 = Some pub1"
  by (simp_all add: basic_view_def basic_GetKey_def basic_GetPubKey_def store1_def pub1_key)

lemma sig1: "CKey_Sign openssl_ref key1 1 = Some (der_sig [1, 0] [2])"
proof -
  have "mpi_bytes 2 = [2]" "mpi_bytes 256 = [1, 0]"
    using mpi_bytes_two [of 0] by (simp_all add: mpi_bytes_def le_min.simps)
  then show ?thesis
    by (simp add: CKey_Sign_def key1_def openssl_ref_def toy_der_def der_sig_def Let_def bytes_of_uint256_def)
qed

lemma hash1: "SignatureHash openssl_ref s tx1 0 3 = 1"
  by (simp add: SignatureHash_def sighash_tx_def tx1_def Let_def)

section \<open>Signing\<close>

text \<open>C27: Signing succeeds. With a valid key and its public key in the key store, signing an input that
  spends a pay-to-public-key-hash output of that key reports success for every hash type, the new
  input script is the signature and the public key, and it verifies under the standard flags. The
  hypotheses are the documented laws of OpenSSL, that OpenSSL made a signature, and that the
  signature is not the key hash itself, which \<open>FindAndDelete\<close> would remove from the script.\<close>

theorem signing_succeeds:
  assumes "bn_ok E" "hash_ok E" "ecdsa_ok E" "cache_sound E c" "n < length (vin tx)" "0 \<le> ht" "ht < 256"
    and "GetKey ks h = Some k" "ks_GetPubKey ks h = Some pk" "key_ok k" "GetPubKey E k = Some pk"
      "pk_GetID E pk = h"
    and "CKey_Sign E k (SignatureHash E (SetDestination (KeyID h)) tx n ht) = Some sig"
    and "sig @ [of_int ht] \<noteq> bytes_of_uint160 h"
  shows "\<exists>c'. SignSignature E ks nMax (SetDestination (KeyID h)) tx n ht c =
    Some (True, set_scriptSig tx n (push_data [] (sig @ [of_int ht]) @ push_data [] pk), c') \<and> cache_sound E c'"
  using assms by (rule SignSignature_KeyID)

lemma sign1:
  "CKey_Sign openssl_ref key1 (SignatureHash openssl_ref (SetDestination (KeyID id1)) tx1 0 3) = Some (der_sig [1, 0] [2])"
  "der_sig [1, 0] [2] @ [of_int 3] \<noteq> bytes_of_uint160 id1" "0 < length (vin tx1)"
  unfolding hash1 by (rule sig1, rule notI, drule_tac f = length in arg_cong, simp_all add: der_sig_def tx1_def)

lemma signing_succeeds_witness:
  "\<exists>c'. SignSignature openssl_ref (basic_view openssl_ref store1) 40 (SetDestination (KeyID id1)) tx1 0 3 cache0 =
    Some (True, set_scriptSig tx1 0 (push_data [] (der_sig [1, 0] [2] @ [3]) @ push_data [] pub1), c') \<and>
    cache_sound openssl_ref c'"
  using signing_succeeds [OF openssl_ref_bn_ok openssl_ref_hash_ok openssl_ref_ecdsa_ok cache0_ok(1) sign1(3) _ _
    store1_view key1_ok pub1_key(1) _ sign1(1,2)] by (simp add: id1_def)

text \<open>C39: What \<open>SignSignature\<close> reports as signed is signed, and signing an input leaves the others as they
  were. It changes nothing but the script of the one input; when it returns true, \<open>VerifyScript\<close> accepts
  that script for the output under the standard flags; and whatever it returns, every signature and every
  input script is valid for the new transaction, at any input, under any flags, exactly when it is
  for the old one, so inputs can be signed one after the other.\<close>

theorem signing_sound:
  assumes "SignSignature E ks nMax spk tx n ht c = Some (ok, tx', c')"
  shows "(\<exists>sig. tx' = set_scriptSig tx n sig \<and>
      (ok \<longrightarrow> (let ctx = \<lparr>txTo = tx', nIn = n, ctx_flags = STANDARD_SCRIPT_VERIFY_FLAGS, ctx_hashType = 0\<rparr> in
        VerifyScript E (CheckSig E ctx) ctx sig spk c = (Some True, c')))) \<and>
    (\<forall>ctx. txTo ctx = tx \<longrightarrow> sig_valid E (ctx\<lparr>txTo := tx'\<rparr>) = sig_valid E ctx \<and>
      VerifyScript E (CheckSig E (ctx\<lparr>txTo := tx'\<rparr>)) (ctx\<lparr>txTo := tx'\<rparr>) = VerifyScript E (CheckSig E ctx) ctx)"
proof -
  obtain sig where s: "tx' = set_scriptSig tx n sig"
    "ok \<longrightarrow> (let ctx = \<lparr>txTo = tx', nIn = n, ctx_flags = STANDARD_SCRIPT_VERIFY_FLAGS, ctx_hashType = 0\<rparr> in
      VerifyScript E (CheckSig E ctx) ctx sig spk c = (Some True, c'))"
    using SignSignature_sound [OF assms] by blast
  have "sig_valid E (ctx\<lparr>txTo := tx'\<rparr>) = sig_valid E ctx" if "txTo ctx = tx" for ctx
    using that by (intro ext) (simp add: sig_valid_def s(1) SignatureHash_set_scriptSig)
  moreover have "VerifyScript E (CheckSig E (ctx\<lparr>txTo := tx'\<rparr>)) (ctx\<lparr>txTo := tx'\<rparr>) = VerifyScript E (CheckSig E ctx) ctx"
    if "txTo ctx = tx" for ctx
    using VerifyScript_set_scriptSig [where E = E and ctx = ctx and tx = tx and n = n and s = sig] that unfolding s(1) by (cases ctx) simp
  ultimately show ?thesis using s by blast
qed

text \<open>Of two inputs the second is signed after the first.\<close>

definition tx2 :: CTransaction where
  "tx2 = tx1\<lparr>vin := vin tx1 @ vin tx1\<rparr>"

lemma signing_sound_witness:
  "\<exists>sig c'. let tx' = set_scriptSig tx2 0 sig;
       ctx = \<lparr>txTo = tx', nIn = 0, ctx_flags = STANDARD_SCRIPT_VERIFY_FLAGS, ctx_hashType = 0\<rparr> in
     SignSignature openssl_ref (basic_view openssl_ref store1) 40 (SetDestination (KeyID id1)) tx2 0 3 cache0 =
       Some (True, tx', c') \<and> VerifyScript openssl_ref (CheckSig openssl_ref ctx) ctx sig (SetDestination (KeyID id1)) cache0 =
       (Some True, c') \<and> sig_valid openssl_ref (ctx\<lparr>nIn := 1\<rparr>) = sig_valid openssl_ref (ctx\<lparr>txTo := tx2, nIn := 1\<rparr>)"
proof -
  have "SignatureHash openssl_ref s tx2 0 3 = 1" for s
    by (simp add: SignatureHash_def sighash_tx_def tx2_def tx1_def Let_def)
  then have s: "CKey_Sign openssl_ref key1 (SignatureHash openssl_ref (SetDestination (KeyID id1)) tx2 0 3) = Some (der_sig [1, 0] [2])"
    using sig1 by simp
  have "0 < length (vin tx2)" by (simp add: tx2_def tx1_def)
  from SignSignature_KeyID [OF openssl_ref_bn_ok openssl_ref_hash_ok openssl_ref_ecdsa_ok cache0_ok(1) this _ _
      store1_view key1_ok pub1_key(1) _ s sign1(2), of 40]
  obtain tx' c' where r: "SignSignature openssl_ref (basic_view openssl_ref store1) 40 (SetDestination (KeyID id1)) tx2 0 3 cache0 =
      Some (True, tx', c')" by (auto simp: id1_def)
  let ?flags = STANDARD_SCRIPT_VERIFY_FLAGS
  note t = signing_sound [OF r]
  then obtain sig where g: "tx' = set_scriptSig tx2 0 sig"
    "VerifyScript openssl_ref (CheckSig openssl_ref \<lparr>txTo = tx', nIn = 0, ctx_flags = ?flags, ctx_hashType = 0\<rparr>)
      \<lparr>txTo = tx', nIn = 0, ctx_flags = ?flags, ctx_hashType = 0\<rparr> sig (SetDestination (KeyID id1)) cache0 = (Some True, c')"
    unfolding Let_def by blast
  have "sig_valid openssl_ref \<lparr>txTo = tx', nIn = 1, ctx_flags = ?flags, ctx_hashType = 0\<rparr> =
      sig_valid openssl_ref \<lparr>txTo = tx2, nIn = 1, ctx_flags = ?flags, ctx_hashType = 0\<rparr>"
    using conjunct2 [OF t, THEN spec, of "\<lparr>txTo = tx2, nIn = 1, ctx_flags = ?flags, ctx_hashType = 0\<rparr>"] by simp
  with r g show ?thesis
    unfolding Let_def by (intro exI [of _ sig] exI [of _ c']) (simp del: SetDestination.simps)
qed

text \<open>Combining partial multisignatures keeps only what is valid: the combined script is the extra
  \<open>OP_0\<close>, at most the required number of signatures, and \<open>OP_0\<close> for the missing ones; every
  signature in it comes from one of the two inputs and is valid for a public key of its own, and the
  keys stand in the order of the script.\<close>

theorem combine_multisig_valid:
  assumes "cache_sound E c" "distinct pubkeys" "vSolutions = [of_nat m] # pubkeys @ [[of_nat n]]" "m < 256"
  shows "\<exists>ks ss. fst (CombineMultisig (CheckSig E ctx) spk vSolutions sigs1 sigs2 c) =
      0 # concat (map (push_data []) ss) @ replicate (m - length ss) 0 \<and>
    subseq ks pubkeys \<and> length ss \<le> m \<and>
    list_all2 (\<lambda>k s. s \<in> set sigs1 \<union> set sigs2 \<and> s \<noteq> [] \<and> sig_valid E ctx s k spk) ks ss"
  using cached.CombineMultisig_ok [OF assms, where ctx = ctx and spk = spk and ?sigs1.0 = sigs1 and ?sigs2.0 = sigs2]
  by blast

lemma combine_multisig_valid_witness:
  "\<exists>ss. fst (CombineMultisig (CheckSig openssl_ref ctx0) [] [[1], pub1, [1]] [] [] cache0) =
      0 # concat (map (push_data []) ss) @ replicate (1 - length ss) 0"
  using combine_multisig_valid [OF cache0_ok(1), of "[pub1]" "[[1], pub1, [1]]" 1 1 _ ctx0 "[]" "[]" "[]"]
  by auto

section \<open>Classification\<close>

text \<open>The standard output scripts are recognised: the script written for a key hash or a script hash
  leads \<open>ExtractDestination\<close> back to that destination, whatever the size limit on data outputs.\<close>

theorem destination_roundtrip:
  "ExtractDestination E nMax (SetDestination (KeyID h)) = Some (KeyID h) \<and>
   ExtractDestination E nMax (SetDestination (ScriptID h)) = Some (ScriptID h)"
  by (simp add: ExtractDestination_SetDestination del: SetDestination.simps)

text \<open>A multisignature script is the node's own exactly when the key store has every key of it: the
  script \<open>SetMultisig\<close> writes for \<open>m\<close> of up to sixteen valid keys is classified as multisignature
  with those keys, and \<open>IsMine\<close> asks for all of them.\<close>

theorem multisig_is_mine:
  assumes "1 \<le> m" "m \<le> length vs" "length vs \<le> 16" "list_all (\<lambda>bs. pk_IsValid (CPubKey bs)) vs"
    and "SetMultisig (int m) (map CPubKey vs) = Some s"
  shows "Solver nMax s = (True, TX_MULTISIG, [of_nat m] # vs @ [[of_nat (length vs)]]) \<and>
    IsMine E nMax ks s = Some (list_all (\<lambda>v. HaveKey ks (pk_GetID E (CPubKey v))) vs)"
  using Solver_multisig [OF assms] IsMine_multisig [OF assms] by blast

lemma multisig_is_mine_witness:
  "IsMine openssl_ref 40 (basic_view openssl_ref store1) (0x51 # 33 # pub1 @ [0x51, 0xae]) = Some True"
proof -
  have v: "pk_IsValid pub1" by (simp add: pk_IsValid_def pk_size_def pub1_def GetLen_def)
  have l: "length pub1 = 33" by (simp add: pub1_def)
  have "SetMultisig (int 1) (map CPubKey [pub1]) = Some (0x51 # 33 # pub1 @ [0x51, 0xae])"
    using SetMultisig_eq [of 1 "[pub1]"] v l by (simp add: pub1_key)
  from multisig_is_mine [OF _ _ _ _ this, of 40 openssl_ref "basic_view openssl_ref store1"] v
  show ?thesis by (simp add: pub1_key id1_def [symmetric] basic_view_def basic_HaveKey_def store1_def)
qed

section \<open>Key stores\<close>

text \<open>C28: Encrypting the wallet loses no key: after the keys of an unencrypted store are encrypted under
  a master key, unlocking with that master key succeeds and every identifier yields the key it
  yielded before, the others none.\<close>

theorem encrypt_unlock_roundtrip:
  assumes "cipher_ok A" "crypto_wf s" "keyring E (mapKeys s)" "EncryptKeys E A s mk = Inr (True, s')"
  shows "\<exists>s''. Unlock E A s' mk = Inr (True, s'') \<and> mapKeys s'' = [] \<and>
    (\<forall>a. crypto_GetKey E A s'' a = map_of (mapKeys s) a)"
proof -
  obtain m where "s' = s\<lparr>fUseCrypto := True, mapKeys := [], mapCryptedKeys := m\<rparr>"
    using EncryptKeys_stands [OF assms] by metis
  then have "mapKeys s' = []" by simp
  then show ?thesis
    using Unlock_after_EncryptKeys [OF assms] GetKey_after_Unlock [OF assms]
    by (intro exI [of _ "s'\<lparr>vMasterKey := mk\<rparr>"]) simp
qed

definition wallet1 :: crypto_keystore where
  "wallet1 = \<lparr>mapKeys = [(id1, key1)], mapScripts = [], mapCryptedKeys = [], vMasterKey = [], fUseCrypto = False\<rparr>"

lemma encrypt_unlock_roundtrip_witness:
  "\<exists>s' s''. EncryptKeys openssl_ref cipher_ref wallet1 (replicate 32 7) = Inr (True, s') \<and>
     Unlock openssl_ref cipher_ref s' (replicate 32 7) = Inr (True, s'') \<and>
     crypto_GetKey openssl_ref cipher_ref s'' id1 = Some key1"
proof -
  have "pk_IsCompressed pub1 = fCompressed key1"
    by (simp add: pk_IsCompressed_def pk_size_def pub1_def GetLen_def key1_def)
  then have "keyring openssl_ref (mapKeys wallet1)"
    by (simp add: keyring_def wallet1_def pub1_key pair_ok_def key1_ok id1_def)
  moreover have "crypto_wf wallet1" by (simp add: crypto_wf_def wallet1_def)
  moreover obtain s' where "EncryptKeys openssl_ref cipher_ref wallet1 (replicate 32 7) = Inr (True, s')"
    by (simp add: EncryptKeys_def wallet1_def pub1_key EncryptSecret_def SetKey_def Encrypt_def cipher_ref_def
        AddCryptedKey_def SetCrypted_def)
  ultimately show ?thesis
    using encrypt_unlock_roundtrip [OF cipher_ref_ok, of wallet1 openssl_ref "replicate 32 7" s']
    by (auto simp: wallet1_def)
qed

end
