(* ===== verification/Messages.thy ===== *)
theory Messages
  imports Main
begin

text \<open>
  Message catalogues of the graphical interface: the form of a Qt translation source
  (\<open>src/qt/locale/*.ts\<close>), and what the program relies on when it formats a translated text. A text is
  a list of runs, \<open>A\<close> of characters that a string literal can hold and \<open>U\<close> of code points (Persian
  letters, the spaces between them, quotes, line breaks); XML entities are decoded.
\<close>

datatype run = A string | U "nat list"

type_synonym msgtext = "run list"

text \<open>A location is a file name, where the element has one, and the line offset. The forms are the
  translation, or its numerus forms; \<open>Message\<close> has whether it is numerus, its locations, the source,
  whether it is finished, and the forms.\<close>

type_synonym location = "string option \<times> int"

datatype message = Message (numerus: bool) (locations: "location list") (msg_source: msgtext) (finished: bool)
  (forms: "msgtext list")

type_synonym catalogue = "(string \<times> message list) list"

section \<open>Formatting\<close>

text \<open>
  The conversions of a text that is formatted: the character after each \<open>%\<close> (\<open>%1\<close> of
  \<open>QString::arg\<close>, \<open>%n\<close> of a plural, \<open>%s\<close>, \<open>%d\<close>, \<open>%u\<close> of \<open>strprintf\<close>); \<open>%%\<close> is none.
\<close>

fun specs :: "string \<Rightarrow> string" where
  "specs [] = []"
| "specs [c] = []"
| "specs (c # d # cs) =
     (if c = CHR ''%'' then (if d = CHR ''%'' then specs cs else d # specs cs) else specs (d # cs))"

definition text_specs :: "msgtext \<Rightarrow> string" where
  "text_specs t = concat (map (\<lambda>r. case r of A s \<Rightarrow> specs s | U _ \<Rightarrow> []) t)"

text \<open>The same conversions in any order, each as often.\<close>

definition same_specs :: "string \<Rightarrow> string \<Rightarrow> bool" where
  "same_specs xs ys \<longleftrightarrow> length xs = length ys \<and> list_all (\<lambda>x. count_list xs x = count_list ys x) xs"

definition keeps_specs :: "message \<Rightarrow> bool" where
  "keeps_specs m \<longleftrightarrow>
     list_all (\<lambda>f. f = [] \<or> same_specs (text_specs (msg_source m)) (text_specs f)) (forms m)"

section \<open>Looking up\<close>

definition find_message :: "catalogue \<Rightarrow> string \<Rightarrow> msgtext \<Rightarrow> message option" where
  "find_message cat ctx src =
     (case map_of cat ctx of None \<Rightarrow> None | Some ms \<Rightarrow> List.find (\<lambda>m. msg_source m = src) ms)"

text \<open>
  \<open>QCoreApplication::translate\<close> as Qt documents it: the translation that the installed catalogue has for
  the source text in the context, else the source text itself.
\<close>

definition qt_translates :: "catalogue \<Rightarrow> (string \<Rightarrow> msgtext \<Rightarrow> msgtext) \<Rightarrow> bool" where
  "qt_translates cat tr \<longleftrightarrow> (\<forall>ctx src. tr ctx src =
     (case find_message cat ctx src of
        None \<Rightarrow> src
      | Some m \<Rightarrow> (case forms m of [] \<Rightarrow> src | f # _ \<Rightarrow> if f = [] then src else f)))"

text \<open>\<open>Translate\<close> of \<open>src/qt/bitcoin.cpp\<close>, which the graphical interface connects to the signal, and \<open>_\<close>
  of \<open>src/ui_interface.h\<close>, which falls back to the text when nothing is connected.\<close>

definition Translate :: "(string \<Rightarrow> msgtext \<Rightarrow> msgtext) \<Rightarrow> msgtext \<Rightarrow> msgtext" where
  "Translate tr psz = tr ''bitcoin-core'' psz"

definition translated :: "(msgtext \<Rightarrow> msgtext) option \<Rightarrow> msgtext \<Rightarrow> msgtext" where
  "translated uiTranslate psz = (case uiTranslate of None \<Rightarrow> psz | Some f \<Rightarrow> f psz)"

lemma find_message_SomeD:
  assumes "find_message cat ctx src = Some m"
  shows "msg_source m = src" "\<exists>ms. map_of cat ctx = Some ms \<and> m \<in> set ms"
  using assms by (auto simp: find_message_def find_Some_iff split: option.splits)

lemma same_specs_refl [simp]: "same_specs xs xs"
  by (simp add: same_specs_def list_all_iff)

end
