(* ===== verification/FaMessages1.thy ===== *)
theory FaMessages1
  imports Messages
begin

text \<open>
  The Persian message catalogue (\<open>src/qt/locale/bitcoin_fa.ts\<close>), first part: one definition
  per context, long contexts in parts of at most 150 lines of the file, every message with its locations,
  source text, state and forms, in the order of the file.
\<close>

section \<open>AboutDialog\<close>

definition fa_AboutDialog :: "message list" where
  "fa_AboutDialog = [
     Message False [(Some ''../forms/aboutdialog.ui'', 14)] [A ''About Bws''] False [[]],
     Message False [(None, 39)] [A ''<b>Bws</b> version''] False [[]],
     Message False [(None, 41)] [A ''Copyright '', U [169], A '' 2009-2014 The Bitcoin developers'', U [10],
       A ''Copyright '', U [169], A '' 2012-2014 The NovaCoin developers'', U [10], A ''Copyright '',
       U [169], A '' 2014 The Bws developers''] False [[]],
     Message False [(None, 15)] [U [10], A ''This is experimental software.'', U [10, 10],
       A ''Distributed under the MIT/X11 software license, see the accompanying file COPYING or <a href='',
       U [34], A ''http://www.opensource.org/licenses/mit-license.php'', U [34],
       A ''>http://www.opensource.org/licenses/mit-license.php</a>.'', U [10, 10],
       A ''This product includes software developed by the OpenSSL Project for use in the OpenSSL Toolkit (<a href='',
       U [34], A ''https://www.openssl.org/'', U [34],
       A ''>https://www.openssl.org/</a>) and cryptographic software written by Eric Young (<a href='',
       U [34], A ''mailto:eay@cryptsoft.com'', U [34],
       A ''>eay@cryptsoft.com</a>) and UPnP software written by Thomas Bernard.''] False [[]]]"

section \<open>AddressBookPage\<close>

definition fa_AddressBookPage :: "message list" where
  "fa_AddressBookPage = [
     Message False [(Some ''../forms/addressbookpage.ui'', 14)] [A ''Address Book''] False [[]],
     Message False [(None, 22)] [A ''Double-click to edit address or label''] True [[U [1576, 1585, 1575,
       1740, 32, 1608, 1740, 1585, 1575, 1740, 1588, 32, 1606, 1588, 1575, 1606, 1740, 32, 1740, 1575, 32,
       1576, 1585, 1670, 1587, 1576, 32, 1583, 1608, 1576, 1575, 1585, 32, 1705, 1604, 1740, 1705, 32, 1705,
       1606, 1740, 1583]]],
     Message False [(None, 24)] [A ''Create a new address''] True [[U [1575, 1740, 1580, 1575, 1583, 32,
       1606, 1588, 1575, 1606, 1740, 32, 1580, 1583, 1740, 1583]]],
     Message False [(None, 10)] [A ''Copy the currently selected address to the system clipboard''] True
       [[U [1606, 1588, 1575, 1606, 1740, 32, 1575, 1606, 1578, 1582, 1575, 1576, 32, 1588, 1583, 1607, 32,
       1585, 1575, 32, 1583, 1585, 32, 1581, 1575, 1601, 1592, 1607, 1620, 32, 1587, 1740, 1587, 1578, 1605,
       32, 1705, 1662, 1740, 32, 1705, 1606], A ''!'']],
     Message False [(None, - 7)] [A ''&New Address''] False [[]],
     Message False [(None, - 43)]
       [A ''These are your Bws addresses for receiving payments. You may want to give a different one to each sender so you can keep track of who is paying you.'']
       False [[]],
     Message False [(None, 53)] [A ''&Copy Address''] True [[A ''&'', U [1705, 1662, 1740, 32, 1606, 1588,
       1575, 1606, 1740]]],
     Message False [(None, 7)] [A ''Show &QR Code''] False [[]],
     Message False [(None, 7)] [A ''Sign a message to prove you own a Bws address''] False [[]],
     Message False [(None, 3)] [A ''Sign &Message''] False [[]],
     Message False [(None, 17)] [A ''Delete the currently selected address from the list''] True [[U [1581,
       1584, 1601, 32, 1606, 1588, 1575, 1606, 1740, 32, 1575, 1606, 1578, 1582, 1575, 1576, 8204, 1588,
       1583, 1607, 32, 1575, 1586, 32, 1604, 1740, 1587, 1578]]],
     Message False [(None, - 10)]
       [A ''Verify a message to ensure it was signed with a specified Bws address''] False [[]],
     Message False [(None, 3)] [A ''&Verify Message''] False [[]],
     Message False [(None, 10)] [A ''&Delete''] True [[A ''&'', U [1581, 1584, 1601]]],
     Message False [(Some ''../addressbookpage.cpp'', 66)] [A ''Copy &Label''] True [[U [1705, 1662, 1740,
       32, 1608, 32, 1576, 1585, 1670, 1587, 1576, 8204], A ''&'', U [1711, 1584, 1575, 1585, 1740]]],
     Message False [(None, 1)] [A ''&Edit''] True [[A ''&'', U [1608, 1740, 1585, 1575, 1740, 1588]]],
     Message False [(None, 248)] [A ''Export Address Book Data''] False [[]],
     Message False [(None, 1)] [A ''Comma separated file (*.csv)''] True [[U [1662, 1585, 1608, 1606, 1583,
       1607, 1620, 32, 1606, 1608, 1593], A '' CSV '', U [1580, 1583, 1575, 1588, 1608, 1606, 1583, 1607,
       32, 1576, 1575, 32, 1705, 1575, 1605, 1575], A '' (*.csv)'']],
     Message False [(None, 13)] [A ''Error exporting''] False [[]],
     Message False [(None, 0)] [A ''Could not write to file %1.''] False [[]]]"

section \<open>AddressTableModel\<close>

definition fa_AddressTableModel :: "message list" where
  "fa_AddressTableModel = [
     Message False [(Some ''../addresstablemodel.cpp'', 145)] [A ''Label''] True [[U [1576, 1585, 1670,
       1587, 1576]]],
     Message False [(None, 0)] [A ''Address''] True [[U [1606, 1588, 1575, 1606, 1740]]],
     Message False [(None, 36)] [A ''(no label)''] True [[A ''('', U [1576, 1583, 1608, 1606, 32, 1576,
       1585, 1670, 1587, 1576], A '')'']]]"

section \<open>AskPassphraseDialog\<close>

definition fa_AskPassphraseDialog_1 :: "message list" where
  "fa_AskPassphraseDialog_1 = [
     Message False [(Some ''../forms/askpassphrasedialog.ui'', 26)] [A ''Passphrase Dialog''] True
       [[U [1662, 1606, 1580, 1585, 1607, 1620, 32, 1711, 1584, 1585, 1608, 1575, 1688, 1607]]],
     Message False [(None, 21)] [A ''Enter passphrase''] True [[U [1711, 1584, 1585, 1608, 1575, 1688, 1607,
       32, 1585, 1575, 32, 1608, 1575, 1585, 1583, 32, 1705, 1606, 1740, 1583]]],
     Message False [(None, 14)] [A ''New passphrase''] True [[U [1711, 1584, 1585, 1608, 1575, 1688, 1607,
       1620, 32, 1580, 1583, 1740, 1583]]],
     Message False [(None, 14)] [A ''Repeat new passphrase''] True [[U [1578, 1705, 1585, 1575, 1585, 32,
       1711, 1584, 1585, 1608, 1575, 1688, 1607, 1620, 32, 1580, 1583, 1740, 1583]]],
     Message False [(None, 33)]
       [A ''Serves to disable the trivial sendmoney when OS account compromised. Provides no real security.'']
       False [[]],
     Message False [(None, 3)] [A ''For staking only''] False [[]],
     Message False [(Some ''../askpassphrasedialog.cpp'', 38)] [A ''Encrypt wallet''] True [[U [1585, 1605,
       1586, 1606, 1711, 1575, 1585, 1740, 32, 1705, 1740, 1601, 32, 1662, 1608, 1604]]],
     Message False [(None, 7)] [A ''This operation needs your wallet passphrase to unlock the wallet.'']
       True [[U [1575, 1606, 1580, 1575, 1605, 32, 1575, 1740, 1606, 32, 1593, 1605, 1604, 1740, 1575, 1578,
       32, 1606, 1740, 1575, 1586, 1605, 1606, 1583, 32, 1711, 1584, 1585, 1608, 1575, 1688, 1607, 1620, 32,
       1705, 1740, 1601, 32, 1662, 1608, 1604, 32, 1588, 1605, 1575, 32, 1576, 1585, 1575, 1740, 32, 1576,
       1575, 1586, 32, 1705, 1585, 1583, 1606, 32, 1602, 1601, 1604, 32, 1570, 1606, 32, 1575, 1587, 1578],
       A ''.'']],
     Message False [(None, 5)] [A ''Unlock wallet''] True [[U [1576, 1575, 1586, 32, 1705, 1585, 1583, 1606,
       32, 1602, 1601, 1604, 32, 1705, 1740, 1601, 32, 1662, 1608, 1604]]],
     Message False [(None, 3)] [A ''This operation needs your wallet passphrase to decrypt the wallet.'']
       True [[U [1575, 1606, 1580, 1575, 1605, 32, 1575, 1740, 1606, 32, 1593, 1605, 1604, 1740, 1575, 1578,
       32, 1606, 1740, 1575, 1586, 1605, 1606, 1583, 32, 1711, 1584, 1585, 1608, 1575, 1688, 1607, 1620, 32,
       1705, 1740, 1601, 32, 1662, 1608, 1604, 32, 1588, 1605, 1575, 32, 1576, 1585, 1575, 1740, 32, 1585,
       1605, 1586, 1711, 1588, 1575, 1740, 1740, 32, 1705, 1585, 1583, 1606, 32, 1570, 1606, 32, 1575, 1587,
       1578], A ''.'']],
     Message False [(None, 5)] [A ''Decrypt wallet''] True [[U [1585, 1605, 1586, 1711, 1588, 1575, 1740,
       1740, 32, 1705, 1740, 1601, 32, 1662, 1608, 1604]]],
     Message False [(None, 3)] [A ''Change passphrase''] True [[U [1578, 1594, 1740, 1740, 1585, 32, 1711,
       1584, 1585, 1608, 1575, 1688, 1607]]],
     Message False [(None, 1)] [A ''Enter the old and new passphrase to the wallet.''] True [[U [1711, 1584,
       1585, 1608, 1575, 1688, 1607, 1620, 32, 1602, 1583, 1740, 1605, 1740, 32, 1608, 32, 1580, 1583, 1740,
       1583, 32, 1705, 1740, 1601, 32, 1662, 1608, 1604, 32, 1585, 1575, 32, 1608, 1575, 1585, 1583, 32,
       1705, 1606, 1740, 1583], A ''.'']],
     Message False [(None, 45)] [A ''Confirm wallet encryption''] True [[U [1578, 1571, 1740, 1740, 1583,
       32, 1585, 1605, 1586, 1606, 1711, 1575, 1585, 1740, 32, 1705, 1740, 1601, 32, 1662, 1608, 1604]]],
     Message False [(None, 1)]
       [A ''Warning: If you encrypt your wallet and lose your passphrase, you will <b>LOSE ALL OF YOUR COINS</b>!'']
       False [[]],
     Message False [(None, 0)] [A ''Are you sure you wish to encrypt your wallet?''] True [[U [1570, 1740,
       1575, 32, 1605, 1591, 1605, 1574, 1606, 32, 1607, 1587, 1578, 1740, 1583, 32, 1705, 1607, 32, 1605,
       1740, 8204, 1582, 1608, 1575, 1607, 1740, 1583, 32, 1705, 1740, 1601, 32, 1662, 1608, 1604, 32, 1582,
       1608, 1583, 32, 1585, 1575, 32, 1585, 1605, 1586, 1606, 1711, 1575, 1585, 1740, 32, 1705, 1606, 1740,
       1583, 1567]]],
     Message False [(None, 15)]
       [A ''IMPORTANT: Any previous backups you have made of your wallet file should be replaced with the newly generated, encrypted wallet file. For security reasons, previous backups of the unencrypted wallet file will become useless as soon as you start using the new, encrypted wallet.'']
       True [[U [1605, 1607, 1605], A '': '', U [1607, 1585, 32, 1606, 1587, 1582, 1607, 1620, 32, 1662,
       1588, 1578, 1740, 1576, 1575, 1606, 1740, 32, 1705, 1607, 32, 1578, 1575, 32, 1705, 1606, 1608, 1606,
       32, 1575, 1586, 32, 1705, 1740, 1601, 32, 1662, 1608, 1604, 32, 1582, 1608, 1583, 32, 1578, 1607,
       1740, 1607, 32, 1705, 1585, 1583, 1607, 8204, 1575, 1740, 1583, 1548, 32, 1576, 1575, 1740, 1583, 32,
       1576, 1575, 32, 1705, 1740, 1601, 32, 1662, 1608, 1604, 32, 1585, 1605, 1586, 1606, 1711, 1575, 1585,
       1740, 32, 1588, 1583, 1607, 1620, 32, 1580, 1583, 1740, 1583, 32, 1580, 1575, 1740, 1711, 1586, 1740,
       1606, 32, 1588, 1608, 1583], A ''. '', U [1576, 1607, 32, 1583, 1604, 1575, 1740, 1604, 32, 1575,
       1605, 1606, 1740, 1578, 1740, 1548, 32, 1662, 1585, 1608, 1606, 1583, 1607, 1620, 32, 1602, 1583,
       1740, 1605, 1740, 32, 1705, 1740, 1601, 32, 1662, 1608, 1604, 32, 1576, 1583, 1608, 1606, 32, 1585,
       1605, 1586, 1606, 1711, 1575, 1585, 1740, 1548, 32, 1578, 1575, 32, 1586, 1605, 1575, 1606, 1740, 32,
       1705, 1607, 32, 1575, 1586, 32, 1705, 1740, 1601, 32, 1662, 1608, 1604, 32, 1585, 1605, 1586, 1606,
       1711, 1575, 1585, 1740, 8204, 1588, 1583, 1607, 1620, 32, 1580, 1583, 1740, 1583, 32, 1575, 1587,
       1578, 1601, 1575, 1583, 1607, 32, 1606, 1705, 1606, 1740, 1583, 1548, 32, 1594, 1740, 1585, 1602,
       1575, 1576, 1604, 32, 1575, 1587, 1578, 1601, 1575, 1583, 1607, 32, 1582, 1608, 1575, 1607, 1583, 32,
       1576, 1608, 1583], A ''.'']],
     Message False [(None, 103), (None, 24)] [A ''Warning: The Caps Lock key is on!''] True [[U [1607, 1588,
       1583, 1575, 1585], A '': '', U [1705, 1604, 1740, 1583], A '' Caps Lock '', U [1585, 1608, 1588,
       1606, 32, 1575, 1587, 1578], A ''!'']],
     Message False [(None, - 133), (None, 60)] [A ''Wallet encrypted''] True [[U [1705, 1740, 1601, 32,
       1662, 1608, 1604, 32, 1585, 1605, 1586, 1606, 1711, 1575, 1585, 1740, 32, 1588, 1583]]],
     Message False [(None, - 140)]
       [A ''Enter the new passphrase to the wallet.<br/>Please use a passphrase of <b>ten or more random characters</b>, or <b>eight or more words</b>.'']
       False [[]],
     Message False [(None, 82)]
       [A ''Bws will close now to finish the encryption process. Remember that encrypting your wallet cannot fully protect your coins from being stolen by malware infecting your computer.'']
       False [[]],
     Message False [(None, 13), (None, 7), (None, 44), (None, 6)] [A ''Wallet encryption failed''] True
       [[U [1585, 1605, 1586, 1606, 1711, 1575, 1585, 1740, 32, 1705, 1740, 1601, 32, 1662, 1608, 1604, 32,
       1576, 1575, 32, 1582, 1591, 1575, 32, 1605, 1608, 1575, 1580, 1607, 32, 1588, 1583]]],
     Message False [(None, - 56)]
       [A ''Wallet encryption failed due to an internal error. Your wallet was not encrypted.''] True
       [[U [1585, 1605, 1586, 1606, 1711, 1575, 1585, 1740, 32, 1705, 1740, 1601, 32, 1662, 1608, 1604, 32,
       1576, 1606, 1575, 32, 1576, 1607, 32, 1740, 1705, 32, 1582, 1591, 1575, 1740, 32, 1583, 1575, 1582,
       1604, 1740, 32, 1576, 1575, 32, 1588, 1705, 1587, 1578, 32, 1605, 1608, 1575, 1580, 1607, 32, 1588,
       1583], A ''. '', U [1705, 1740, 1601, 32, 1662, 1608, 1604, 32, 1588, 1605, 1575, 32, 1585, 1605,
       1586, 1606, 1711, 1575, 1585, 1740, 32, 1606, 1588, 1583], A ''.'']],
     Message False [(None, 7), (None, 50)] [A ''The supplied passphrases do not match.''] True [[U [1711,
       1584, 1585, 1608, 1575, 1688, 1607, 8204, 1607, 1575, 1740, 32, 1583, 1575, 1583, 1607, 32, 1588,
       1583, 1607, 32, 1576, 1575, 32, 1607, 1605, 32, 1578, 1591, 1575, 1576, 1602, 32, 1606, 1583, 1575,
       1585, 1606, 1583], A ''.'']],
     Message False [(None, - 38)] [A ''Wallet unlock failed''] True [[U [1576, 1575, 1586, 1711, 1588, 1575,
       1740, 1740, 32, 1602, 1601, 1604, 32, 1705, 1740, 1601, 8204, 1662, 1608, 1604, 32, 1576, 1575, 32,
       1588, 1705, 1587, 1578, 32, 1605, 1608, 1575, 1580, 1607, 32, 1588, 1583]]],
     Message False [(None, 1), (None, 12), (None, 19)]
       [A ''The passphrase entered for the wallet decryption was incorrect.''] True [[U [1711, 1584, 1585,
       1608, 1575, 1688, 1607, 1620, 32, 1608, 1575, 1585, 1583, 32, 1588, 1583, 1607, 32, 1576, 1585, 1575,
       1740, 32, 1585, 1605, 1586, 1711, 1588, 1575, 1740, 1740, 32, 1705, 1740, 1601, 32, 1662, 1608, 1604,
       32, 1606, 1575, 1583, 1585, 1587, 1578, 32, 1576, 1608, 1583], A ''.'']],
     Message False [(None, - 20)] [A ''Wallet decryption failed''] True [[U [1585, 1605, 1586, 1711, 1588,
       1575, 1740, 1740, 32, 1606, 1575, 1605, 1608, 1601, 1602, 32, 1705, 1740, 1601, 32, 1662, 1608,
       1604]]]]"

definition fa_AskPassphraseDialog_2 :: "message list" where
  "fa_AskPassphraseDialog_2 = [
     Message False [(None, 14)] [A ''Wallet passphrase was successfully changed.''] True [[U [1711, 1584,
       1585, 1608, 1575, 1688, 1607, 1620, 32, 1705, 1740, 1601, 32, 1662, 1608, 1604, 32, 1576, 1575, 32,
       1605, 1608, 1601, 1602, 1740, 1578, 32, 1593, 1608, 1590, 32, 1588, 1583], A ''.'']]]"

section \<open>BitcoinGUI\<close>

definition fa_BitcoinGUI_1 :: "message list" where
  "fa_BitcoinGUI_1 = [
     Message False [(Some ''../bitcoingui.cpp'', 297)] [A ''Sign &message...''] True [[A ''&'', U [1575,
       1605, 1590, 1575, 1740, 32, 1662, 1740, 1575, 1605], A ''...'']],
     Message False [(None, - 64)] [A ''Show general overview of wallet''] True [[U [1606, 1605, 1575, 1740,
       1588, 32, 1576, 1585, 1585, 1587, 1740, 32, 1575, 1580, 1605, 1575, 1604, 1740, 32, 1705, 1740, 1601,
       32, 1662, 1608, 1604]]],
     Message False [(None, 17)] [A ''&Transactions''] True [[A ''&'', U [1578, 1585, 1575, 1705, 1606, 1588,
       8204, 1607, 1575]]],
     Message False [(None, 1)] [A ''Browse transaction history''] True [[U [1605, 1585, 1608, 1585, 32,
       1578, 1575, 1585, 1740, 1582, 1670, 1607, 1620, 32, 1578, 1585, 1575, 1705, 1606, 1588, 8204, 1607,
       1575]]],
     Message False [(None, 5)] [A ''&Address Book''] False [[]],
     Message False [(None, 1)] [A ''Edit the list of stored addresses and labels''] False [[]],
     Message False [(None, - 18)] [A ''Show the list of addresses for receiving payments''] False [[]],
     Message False [(None, 34)] [A ''E&xit''] True [[A ''&'', U [1582, 1585, 1608, 1580]]],
     Message False [(None, 1)] [A ''Quit application''] True [[U [1582, 1585, 1608, 1580, 32, 1575, 1586,
       32, 1576, 1585, 1606, 1575, 1605, 1607]]],
     Message False [(None, 4)] [A ''Show information about Bws''] False [[]],
     Message False [(None, 2)] [A ''About &Qt''] True [[U [1583, 1585, 1576, 1575, 1585, 1607, 1620],
       A '' &'', U [1705, 1740, 1608, 1578]]],
     Message False [(None, 1)] [A ''Show information about Qt''] True [[U [1606, 1605, 1575, 1740, 1588, 32,
       1575, 1591, 1604, 1575, 1593, 1575, 1578, 32, 1583, 1585, 1576, 1575, 1585, 1607, 1620, 32, 1705,
       1740, 1608, 1578]]],
     Message False [(None, 2)] [A ''&Options...''] True [[A ''&'', U [1578, 1606, 1592, 1740, 1605, 1575,
       1578], A ''...'']],
     Message False [(None, 4)] [A ''&Encrypt Wallet...''] True [[A ''&'', U [1585, 1605, 1586, 1606, 1711,
       1575, 1585, 1740, 32, 1705, 1740, 1601, 32, 1662, 1608, 1604], A ''...'']],
     Message False [(None, 2)] [A ''&Backup Wallet...''] True [[A ''&'', U [1662, 1740, 1588, 1578, 1740,
       1576, 1575, 1606, 8204, 1711, 1740, 1585, 1740, 32, 1575, 1586, 32, 1705, 1740, 1601, 32, 1662, 1608,
       1604], A ''...'']],
     Message False [(None, 2)] [A ''&Change Passphrase...''] True [[A ''&'', U [1578, 1594, 1740, 1740,
       1585, 32, 1711, 1584, 1585, 1608, 1575, 1688, 1607], A ''...'']],
     Message False [(None, 9)] [A ''&Export...''] False [[]],
     Message False [(None, - 55)] [A ''Send coins to a Bws address''] False [[]],
     Message False [(None, 39)] [A ''Modify configuration options for Bws''] False [[]],
     Message False [(None, 17)] [A ''Export the data in the current tab to a file''] False [[]],
     Message False [(None, - 13)] [A ''Encrypt or decrypt wallet''] False [[]],
     Message False [(None, 2)] [A ''Backup wallet to another location''] True [[U [1578, 1607, 1740, 1607,
       1620, 32, 1662, 1588, 1578, 1740, 1576, 1575, 1606, 32, 1575, 1586, 32, 1705, 1740, 1601, 32, 1662,
       1608, 1604, 32, 1583, 1585, 32, 1740, 1705, 32, 1605, 1705, 1575, 1606, 32, 1583, 1740, 1711, 1585]]],
     Message False [(None, 2)] [A ''Change the passphrase used for wallet encryption''] True [[U [1578,
       1594, 1740, 1740, 1585, 32, 1711, 1584, 1585, 1608, 1575, 1688, 1607, 1620, 32, 1605, 1608, 1585,
       1583, 32, 1575, 1587, 1578, 1601, 1575, 1583, 1607, 32, 1583, 1585, 32, 1585, 1605, 1586, 1606, 1711,
       1575, 1585, 1740, 32, 1705, 1740, 1601, 32, 1662, 1608, 1604]]],
     Message False [(None, 10)] [A ''&Debug window''] True [[U [1662, 1606, 1580, 1585, 1607, 1620, 32,
       1575], A ''&'', U [1588, 1705, 1575, 1604, 8204, 1586, 1583, 1575, 1740, 1740]]],
     Message False [(None, 1)] [A ''Open debugging and diagnostic console''] True [[U [1576, 1575, 1586, 32,
       1705, 1585, 1583, 1606, 32, 1705, 1606, 1587, 1608, 1604, 32, 1582, 1591, 1575, 1740, 1575, 1576,
       1740, 32, 1608, 32, 1575, 1588, 1705, 1575, 1604, 8204, 1586, 1583, 1575, 1740, 1740]]],
     Message False [(None, - 5)] [A ''&Verify message...''] True [[U [1576, 1575], A ''&'', U [1586, 1576,
       1740, 1606, 1740, 32, 1662, 1740, 1575, 1605], A ''...'']],
     Message False [(None, - 214), (None, 555)] [A ''Bws''] False [[]],
     Message False [(None, - 555)] [A ''Wallet''] True [[U [1705, 1740, 1601, 32, 1662, 1608, 1604]]],
     Message False [(None, 193)] [A ''&About Bws''] False [[]]]"

definition fa_BitcoinGUI_2 :: "message list" where
  "fa_BitcoinGUI_2 = [
     Message False [(None, 9)] [A ''&Show / Hide''] True [[A ''&'', U [1606, 1605, 1575, 1740, 1588],
       A ''/ '', U [1593, 1583, 1605, 32, 1606, 1605, 1575, 1740, 1588]]],
     Message False [(None, 8)] [A ''Unlock wallet''] False [[]],
     Message False [(None, 1)] [A ''&Lock Wallet''] False [[]],
     Message False [(None, 1)] [A ''Lock wallet''] False [[]],
     Message False [(None, 32)] [A ''&File''] True [[A ''&'', U [1662, 1585, 1608, 1606, 1583, 1607]]],
     Message False [(None, 8)] [A ''&Settings''] True [[A ''&'', U [1578, 1606, 1592, 1740, 1605, 1575,
       1578]]],
     Message False [(None, 8)] [A ''&Help''] True [[A ''&'', U [1705, 1605, 1705, 8204, 1585, 1587, 1575,
       1606, 1740]]],
     Message False [(None, 17)] [A ''Tabs toolbar''] True [[U [1606, 1608, 1575, 1585, 1575, 1576, 1586,
       1575, 1585, 32, 1576, 1585, 1711, 1607, 8204, 1607, 1575]]],
     Message False [(None, 46), (None, 9)] [A ''[testnet]''] True [[A ''['', U [1588, 1576, 1705, 1607,
       1620, 32, 1570, 1586, 1605, 1575, 1740, 1588], A '']'']],
     Message False [(None, 0), (None, 58)] [A ''Bws client''] False [[]],
     Message True [(None, 70)] [A ''%n active connection(s) to Bws network''] False [[]],
     Message False [(None, 6)] [A ''Not staking because wallet is locked''] False [[]],
     Message False [(None, 2)] [A ''Not staking because wallet is offline''] False [[]],
     Message False [(None, 2)] [A ''Not staking because wallet is syncing''] False [[]],
     Message False [(None, 2)] [A ''Not staking because you don'', U [39], A ''t have mature coins''] False
       [[]],
     Message False [(None, - 812)] [A ''&Dashboard''] False [[]],
     Message False [(None, 6)] [A ''&Receive''] False [[]],
     Message False [(None, 6)] [A ''&Send''] False [[]],
     Message False [(None, 49)] [A ''&Unlock Wallet...''] False [[]],
     Message False [(None, 277)] [A ''Up to date''] True [[U [1608, 1590, 1593, 1740, 1578, 32, 1576, 1607,
       8204, 1585, 1608, 1586]]],
     Message False [(None, 43)] [A ''Catching up...''] True [[U [1576, 1607, 8204, 1585, 1608, 1586, 32,
       1585, 1587, 1575, 1606, 1740], A ''...'']],
     Message False [(None, 113)] [A ''Confirm transaction fee''] False [[]],
     Message False [(None, 27)] [A ''Sent transaction''] True [[U [1578, 1585, 1575, 1705, 1606, 1588, 32,
       1575, 1585, 1587, 1575, 1604, 32, 1588, 1583]]],
     Message False [(None, 1)] [A ''Incoming transaction''] True [[U [1578, 1585, 1575, 1705, 1606, 1588,
       32, 1583, 1585, 1740, 1575, 1601, 1578, 32, 1588, 1583]]],
     Message False [(None, 1)] [A ''Date: %1'', U [10], A ''Amount: %2'', U [10], A ''Type: %3'', U [10],
       A ''Address: %4'', U [10]] True [[U [1578, 1575, 1585, 1740, 1582], A '': %1'', U [10, 1605, 1576,
       1604, 1594], A '': %2'', U [10, 1606, 1608, 1593], A '': %3'', U [10, 1606, 1588, 1575, 1606, 1740],
       A '': %4'', U [10]]],
     Message False [(None, 100), (None, 15)] [A ''URI handling''] False [[]],
     Message False [(None, - 15), (None, 15)]
       [A ''URI can not be parsed! This can be caused by an invalid Bws address or malformed URI parameters.'']
       False [[]]]"

definition fa_BitcoinGUI_3 :: "message list" where
  "fa_BitcoinGUI_3 = [
     Message False [(None, 9)] [A ''Wallet is <b>not encrypted</b>''] False [[]],
     Message False [(None, 8)] [A ''Wallet is <b>encrypted</b> and currently <b>unlocked</b>''] True
       [[U [1705, 1740, 1601, 32, 1662, 1608, 1604], A '' <b>'', U [1585, 1605, 1586, 1606, 1711, 1575,
       1585, 1740, 32, 1588, 1583, 1607], A ''</b> '', U [1575, 1587, 1578, 32, 1608, 32, 1607, 1605, 8204,
       1575, 1705, 1606, 1608, 1606], A '' <b>'', U [1576, 1575, 1586], A ''</b> '', U [1575, 1587, 1578]]],
     Message False [(None, 8)] [A ''Wallet is <b>encrypted</b> and currently <b>locked</b>''] True
       [[U [1705, 1740, 1601, 32, 1662, 1608, 1604], A '' <b>'', U [1585, 1605, 1586, 1606, 1711, 1575,
       1585, 1740, 32, 1588, 1583, 1607], A ''</b> '', U [1575, 1587, 1578, 32, 1608, 32, 1607, 1605, 8204,
       1575, 1705, 1606, 1608, 1606], A '' <b>'', U [1602, 1601, 1604], A ''</b> '', U [1575, 1587, 1578]]],
     Message False [(None, 24)] [A ''Backup Wallet''] False [[]],
     Message False [(None, 0)] [A ''Wallet Data (*.dat)''] False [[]],
     Message False [(None, 3)] [A ''Backup Failed''] False [[]],
     Message False [(None, 0)]
       [A ''There was an error trying to save the wallet data to the new location.''] False [[]],
     Message True [(None, 91)] [A ''%n second(s)''] False [[]],
     Message True [(None, 4)] [A ''%n minute(s)''] False [[]],
     Message True [(None, - 429), (None, 433)] [A ''%n hour(s)''] True [[A ''%n '', U [1587, 1575, 1593,
       1578]]],
     Message False [(None, - 456)] [A ''Processed %1 blocks of transaction history.''] False [[]],
     Message True [(None, 27), (None, 433)] [A ''%n day(s)''] True [[A ''%n '', U [1585, 1608, 1586]]],
     Message True [(None, - 429), (None, 6)] [A ''%n week(s)''] False [[]],
     Message False [(None, 0)] [A ''%1 and %2''] False [[]],
     Message True [(None, 0)] [A ''%n year(s)''] False [[]],
     Message False [(None, 5)] [A ''%1 behind''] False [[]],
     Message False [(None, 15)] [A ''Last received block was generated %1 ago.''] False [[]],
     Message False [(None, 2)] [A ''Transactions after this will not yet be visible.''] False [[]],
     Message False [(None, 23)] [A ''Error''] False [[]],
     Message False [(None, 3)] [A ''Warning''] False [[]],
     Message False [(None, 3)] [A ''Information''] False [[]],
     Message False [(None, 69)]
       [A ''This transaction is over the size limit. You can still send it for a fee of %1, which goes to the nodes that process your transaction and helps to support the network. Do you want to pay the fee?'']
       False [[]],
     Message False [(None, 324)] [A ''Not staking''] False [[]],
     Message False [(Some ''../bitcoin.cpp'', 104)]
       [A ''A fatal error occurred. Bws can no longer continue safely and will quit.''] False [[]]]"

section \<open>ClientModel\<close>

definition fa_ClientModel :: "message list" where
  "fa_ClientModel = [
     Message False [(Some ''../clientmodel.cpp'', 119)] [A ''Network Alert''] True [[U [1662, 1740, 1575,
       1605, 32, 1588, 1576, 1705, 1607]]]]"

section \<open>CoinControlDialog\<close>

definition fa_CoinControlDialog_1 :: "message list" where
  "fa_CoinControlDialog_1 = [
     Message False [(Some ''../forms/coincontroldialog.ui'', 14)] [A ''Coin Control''] False [[]],
     Message False [(None, 31)] [A ''Quantity:''] False [[]],
     Message False [(None, 32)] [A ''Bytes:''] False [[]],
     Message False [(None, 48)] [A ''Amount:''] True [[U [1605, 1576, 1604, 1594], A '':'']],
     Message False [(None, 48)] [A ''Fee:''] False [[]],
     Message False [(None, 35)] [A ''Low Output:''] False [[]],
     Message False [(Some ''../coincontroldialog.cpp'', 493)] [A ''no''] False [[]],
     Message False [(Some ''../forms/coincontroldialog.ui'', 51)] [A ''After Fee:''] False [[]],
     Message False [(None, 35)] [A ''Change:''] False [[]],
     Message False [(None, 69)] [A ''(un)select all''] False [[]],
     Message False [(None, 13)] [A ''Tree mode''] False [[]],
     Message False [(None, 16)] [A ''List mode''] False [[]],
     Message False [(None, 45)] [A ''Amount''] True [[U [1605, 1576, 1604, 1594]]],
     Message False [(None, 5)] [A ''Label''] False [[]],
     Message False [(None, 5)] [A ''Address''] True [[U [1606, 1588, 1575, 1606, 1740]]],
     Message False [(None, 5)] [A ''Date''] True [[U [1578, 1575, 1585, 1740, 1582]]],
     Message False [(None, 5)] [A ''Confirmations''] False [[]],
     Message False [(None, 3)] [A ''Confirmed''] True [[U [1578, 1571, 1740, 1740, 1583, 32, 1588, 1583,
       1607]]],
     Message False [(None, 5)] [A ''Priority''] False [[]],
     Message False [(Some ''../coincontroldialog.cpp'', - 456)] [A ''Copy address''] True [[U [1705, 1662,
       1740, 32, 1606, 1588, 1575, 1606, 1740]]],
     Message False [(None, 1)] [A ''Copy label''] True [[U [1705, 1662, 1740, 32, 1576, 1585, 1670, 1587,
       1576]]],
     Message False [(None, 1), (None, 26)] [A ''Copy amount''] True [[U [1705, 1662, 1740, 32, 1605, 1602,
       1583, 1575, 1585]]],
     Message False [(None, - 25)] [A ''Copy transaction ID''] True [[U [1705, 1662, 1740, 32, 1588, 1606,
       1575, 1587, 1607, 1620, 32, 1578, 1585, 1575, 1705, 1606, 1588]]],
     Message False [(None, 24)] [A ''Copy quantity''] False [[]],
     Message False [(None, 2)] [A ''Copy fee''] False [[]],
     Message False [(None, 1)] [A ''Copy after fee''] False [[]],
     Message False [(None, 1)] [A ''Copy bytes''] False [[]],
     Message False [(None, 1)] [A ''Copy low output''] False [[]],
     Message False [(None, 1)] [A ''Copy change''] False [[]]]"

definition fa_CoinControlDialog_2 :: "message list" where
  "fa_CoinControlDialog_2 = [
     Message False [(None, 423)] [A ''DUST''] False [[]],
     Message False [(None, 0)] [A ''yes''] False [[]],
     Message False [(None, 9)]
       [A ''This label turns red, if the transaction size is bigger than 10000 bytes.'', U [10, 10],
       A '' This means a fee of at least %1 per kb is required.'', U [10, 10],
       A '' Can vary +/- 1 Byte per input.''] False [[]],
     Message False [(None, 1)]
       [A ''This label turns red, if any recipient receives an amount smaller than %1.'', U [10, 10],
       A '' This means a fee of at least %2 is required.'', U [10, 10],
       A '' Amounts below 0.546 times the minimum relay fee are shown as DUST.''] False [[]],
     Message False [(None, 1)] [A ''This label turns red, if the change is smaller than %1.'', U [10, 10],
       A '' This means a fee of at least %2 is required.''] False [[]],
     Message False [(None, 35), (None, 58)] [A ''(no label)''] True [[A ''('', U [1576, 1583, 1608, 1606,
       32, 1576, 1585, 1670, 1587, 1576], A '')'']],
     Message False [(None, - 9)] [A ''change from %1 (%2)''] False [[]],
     Message False [(None, 1)] [A ''(change)''] False [[]]]"

section \<open>EditAddressDialog\<close>

definition fa_EditAddressDialog :: "message list" where
  "fa_EditAddressDialog = [
     Message False [(Some ''../forms/editaddressdialog.ui'', 14)] [A ''Edit Address''] True [[U [1608, 1740,
       1585, 1575, 1740, 1588, 32, 1606, 1588, 1575, 1606, 1740]]],
     Message False [(None, 11)] [A ''&Label''] True [[A ''&'', U [1576, 1585, 1670, 1587, 1576]]],
     Message False [(None, 10)] [A ''The label associated with this address book entry''] False [[]],
     Message False [(None, 7)] [A ''&Address''] True [[A ''&'', U [1606, 1588, 1575, 1606, 1740]]],
     Message False [(None, 10)]
       [A ''The address associated with this address book entry. This can only be modified for sending addresses.'']
       False [[]],
     Message False [(Some ''../editaddressdialog.cpp'', 21)] [A ''New receiving address''] True [[U [1606,
       1588, 1575, 1606, 1740, 32, 1583, 1585, 1740, 1575, 1601, 1578, 1740, 32, 1580, 1583, 1740, 1583]]],
     Message False [(None, 4)] [A ''New sending address''] True [[U [1606, 1588, 1575, 1606, 1740, 32, 1575,
       1585, 1587, 1575, 1604, 1740, 32, 1580, 1583, 1740, 1583]]],
     Message False [(None, 3)] [A ''Edit receiving address''] True [[U [1608, 1740, 1585, 1575, 1740, 1588,
       32, 1606, 1588, 1575, 1606, 1740, 32, 1583, 1585, 1740, 1575, 1601, 1578, 1740]]],
     Message False [(None, 4)] [A ''Edit sending address''] True [[U [1608, 1740, 1585, 1575, 1740, 1588,
       32, 1606, 1588, 1575, 1606, 1740, 32, 1575, 1585, 1587, 1575, 1604, 1740]]],
     Message False [(None, 76)] [A ''The entered address '', U [34], A ''%1'', U [34],
       A '' is already in the address book.''] True [[U [1606, 1588, 1575, 1606, 1740, 32, 1608, 1575, 1585,
       1583, 32, 1588, 1583, 1607, 32, 171], A ''%1'', U [187, 32, 1583, 1585, 32, 1581, 1575, 1604, 32,
       1581, 1575, 1590, 1585, 32, 1583, 1585, 32, 1583, 1601, 1578, 1585, 1670, 1607, 32, 1608, 1580, 1608,
       1583, 32, 1583, 1575, 1585, 1583], A ''.'']],
     Message False [(None, - 5)] [A ''The entered address '', U [34], A ''%1'', U [34],
       A '' is not a valid Bws address.''] False [[]],
     Message False [(None, 10)] [A ''Could not unlock wallet.''] True [[U [1606, 1605, 1740, 8204, 1578,
       1608, 1575, 1606, 32, 1705, 1740, 1601, 32, 1662, 1608, 1604, 32, 1585, 1575, 32, 1585, 1605, 1586,
       1711, 1588, 1575, 1740, 1740, 32, 1705, 1585, 1583], A ''.'']],
     Message False [(None, 5)] [A ''New key generation failed.''] True [[U [1575, 1740, 1580, 1575, 1583,
       32, 1705, 1604, 1740, 1583, 32, 1580, 1583, 1740, 1583, 32, 1576, 1575, 32, 1588, 1705, 1587, 1578,
       32, 1605, 1608, 1575, 1580, 1607, 32, 1588, 1583], A ''.'']]]"

section \<open>GUIUtil-HelpMessageBox\<close>

definition fa_GUIUtil_HelpMessageBox :: "message list" where
  "fa_GUIUtil_HelpMessageBox = [
     Message False [(Some ''../guiutil.cpp'', 426), (None, 12)] [A ''Bws-Qt''] False [[]],
     Message False [(None, - 12)] [A ''version''] False [[]],
     Message False [(None, 2)] [A ''Usage:''] False [[]],
     Message False [(None, 1)] [A ''command-line options''] False [[]],
     Message False [(None, 4)] [A ''UI options''] False [[]],
     Message False [(None, 1)] [A ''Set language, for example '', U [34], A ''de_DE'', U [34],
       A '' (default: system locale)''] False [[]],
     Message False [(None, 1)] [A ''Start minimized''] False [[]],
     Message False [(None, 1)] [A ''Show splash screen on startup (default: 1)''] False [[]]]"

section \<open>OptionsDialog\<close>

definition fa_OptionsDialog_1 :: "message list" where
  "fa_OptionsDialog_1 = [
     Message False [(Some ''../forms/optionsdialog.ui'', 14)] [A ''Options''] True [[U [1711, 1586, 1740,
       1606, 1607, 8204, 1607, 1575]]],
     Message False [(None, 16)] [A ''&Main''] True [[A ''&'', U [1593, 1605, 1608, 1605, 1740]]],
     Message False [(None, 6)]
       [A ''Optional transaction fee per kB that helps make sure your transactions are processed quickly. Most transactions are 1 kB. Fee 0.01 recommended.'']
       False [[]],
     Message False [(None, 15)] [A ''Pay transaction &fee''] True [[U [1662, 1585, 1583, 1575, 1582, 1578],
       A '' &'', U [1705, 1575, 1585, 1605, 1586, 1583, 32, 1578, 1585, 1575, 1705, 1606, 1588]]],
     Message False [(None, 31)]
       [A ''Reserved amount does not participate in staking and is therefore spendable at any time.''] False
       [[]],
     Message False [(None, 15)] [A ''Reserve''] False [[]],
     Message False [(None, 31)] [A ''Automatically start Bws after logging in to the system.''] False [[]],
     Message False [(None, 3)] [A ''&Start Bws on system login''] False [[]],
     Message False [(None, 21)] [A ''&Network''] True [[A ''&'', U [1588, 1576, 1705, 1607]]],
     Message False [(None, 6)]
       [A ''Automatically open the Bws client port on the router. This only works when your router supports UPnP and it is enabled.'']
       False [[]],
     Message False [(None, 3)] [A ''Map port using &UPnP''] True [[U [1606, 1711, 1575, 1588, 1578, 32,
       1583, 1585, 1711, 1575, 1607, 32, 1588, 1576, 1705, 1607, 32, 1576, 1575, 32, 1575, 1587, 1578, 1601,
       1575, 1583, 1607, 32, 1575, 1586, 32, 1662, 1585, 1608, 1578, 1705, 1604], A '' &UPnP'']],
     Message False [(None, 19)] [A ''Proxy &IP:''] True [[U [1570], A ''&'', U [1740, 8204, 1662, 1740, 32,
       1662, 1585, 1575, 1705, 1587, 1740], A '':'']],
     Message False [(None, 19)] [A ''IP address of the proxy (e.g. 127.0.0.1)''] False [[]],
     Message False [(None, 7)] [A ''&Port:''] True [[A ''&'', U [1583, 1585, 1711, 1575, 1607], A '':'']],
     Message False [(None, 19)] [A ''Port of the proxy (e.g. 9050)''] True [[U [1583, 1585, 1711, 1575,
       1607, 32, 1662, 1585, 1575, 1705, 1587, 1740], A '' ('', U [1605, 1579, 1575, 1604], A '' 9050)'']],
     Message False [(None, - 57)]
       [A ''Connect to the Bws network through a SOCKS5 proxy (e.g. when connecting through Tor).''] False
       [[]],
     Message False [(None, 3)] [A ''&Connect through SOCKS5 proxy:''] False [[]],
     Message False [(None, 90)] [A ''&Window''] True [[A ''&'', U [1662, 1606, 1580, 1585, 1607]]],
     Message False [(None, 6)] [A ''Show only a tray icon after minimizing the window.''] True [[U [1578,
       1606, 1607, 1575, 32, 1576, 1593, 1583, 32, 1575, 1586, 32, 1705, 1608, 1670, 1705, 32, 1705, 1585,
       1583, 1606, 32, 1662, 1606, 1580, 1585, 1607, 1548], A '' tray icon '', U [1585, 1575, 32, 1606,
       1588, 1575, 1606, 32, 1576, 1583, 1607], A ''.'']],
     Message False [(None, 3)] [A ''&Minimize to the tray instead of the taskbar''] True [[A ''&'', U [1705,
       1608, 1670, 1705, 32, 1705, 1585, 1583, 1606, 32, 1576, 1607, 32, 1587, 1740, 1606, 1740, 32, 1576,
       1607, 8204, 1580, 1575, 1740, 32, 1606, 1608, 1575, 1585, 32, 1608, 1592, 1740, 1601, 1607]]],
     Message False [(None, 7)]
       [A ''Minimize instead of exit the application when the window is closed. When this option is enabled, the application will be closed only after selecting Quit in the menu.'']
       True [[U [1605, 1582, 1601, 1740, 32, 1705, 1585, 1583, 1606, 32, 1583, 1585, 32, 1606, 1608, 1575,
       1585, 32, 1705, 1606, 1575, 1585, 1740, 32, 1576, 1607, 8204, 1580, 1575, 1740, 32, 1582, 1585, 1608,
       1580, 32, 1607, 1606, 1711, 1575, 1605, 32, 1576, 1587, 1578, 1606, 32, 1662, 1606, 1580, 1585,
       1607], A ''. '', U [1586, 1605, 1575, 1606, 1740, 32, 1705, 1607, 32, 1575, 1740, 1606, 32, 1711,
       1586, 1740, 1606, 1607, 32, 1601, 1593, 1575, 1604, 32, 1575, 1587, 1578, 1548, 32, 1576, 1585, 1606,
       1575, 1605, 1607, 32, 1601, 1602, 1591, 32, 1576, 1575, 32, 1575, 1587, 1578, 1601, 1575, 1583, 1607,
       32, 1575, 1586, 32, 1711, 1586, 1740, 1606, 1607, 1620, 32, 1582, 1585, 1608, 1580, 32, 1583, 1585,
       32, 1605, 1606, 1608, 32, 1602, 1575, 1576, 1604, 32, 1576, 1587, 1578, 1607, 32, 1588, 1583, 1606,
       32, 1575, 1587, 1578], A ''.'']],
     Message False [(None, 3)] [A ''M&inimize on close''] True [[U [1705, 1608, 1670, 1705, 32, 1705, 1585,
       1583, 1606], A '' &'', U [1583, 1585, 32, 1586, 1605, 1575, 1606, 32, 1576, 1587, 1578, 1607, 32,
       1588, 1583, 1606]]],
     Message False [(None, 21)] [A ''&Display''] True [[A ''&'', U [1606, 1605, 1575, 1740, 1588]]],
     Message False [(None, 8)] [A ''User Interface &language:''] True [[U [1586, 1576, 1575, 1606],
       A '' &'', U [1585, 1575, 1576, 1591, 32, 1705, 1575, 1585, 1576, 1585, 1740], A '':'']],
     Message False [(None, 13)]
       [A ''The user interface language can be set here. This setting will take effect after restarting Bws.'']
       False [[]],
     Message False [(None, 11)] [A ''&Unit to show amounts in:''] True [[A ''&'', U [1608, 1575, 1581, 1583,
       32, 1606, 1605, 1575, 1740, 1588, 32, 1605, 1576, 1575, 1604, 1594], A '':'']],
     Message False [(None, 13)]
       [A ''Choose the default subdivision unit to show in the interface and when sending coins.''] True
       [[U [1575, 1606, 1578, 1582, 1575, 1576, 32, 1608, 1575, 1581, 1583, 32, 1662, 1608, 1604, 32, 1605,
       1608, 1585, 1583, 32, 1575, 1587, 1578, 1601, 1575, 1583, 1607, 32, 1576, 1585, 1575, 1740, 32, 1606,
       1605, 1575, 1740, 1588, 32, 1583, 1585, 32, 1662, 1606, 1580, 1585, 1607, 8204, 1607, 1575, 32, 1608,
       32, 1576, 1585, 1575, 1740, 32, 1575, 1585, 1587, 1575, 1604, 32, 1587, 1705, 1607], A ''.'']],
     Message False [(None, 9)] [A ''Whether to show coin control features or not.''] False [[]],
     Message False [(None, 3)] [A ''Display coin &control features (experts only!)''] False [[]]]"

definition fa_OptionsDialog_2 :: "message list" where
  "fa_OptionsDialog_2 = [
     Message False [(None, 7)] [A ''Use black visual theme (requires restart)''] False [[]],
     Message False [(None, 71)] [A ''&OK''] True [[A ''&'', U [1578, 1571, 1740, 1740, 1583]]],
     Message False [(None, 7)] [A ''&Cancel''] True [[A ''&'', U [1604, 1594, 1608]]],
     Message False [(None, 10)] [A ''&Apply''] False [[]],
     Message False [(Some ''../optionsdialog.cpp'', 47)] [A ''default''] True [[U [1662, 1740, 1588, 8204,
       1601, 1585, 1590]]],
     Message False [(None, 147), (None, 9)] [A ''Warning''] False [[]],
     Message False [(None, - 9), (None, 9)] [A ''This setting will take effect after restarting Bws.'']
       False [[]],
     Message False [(None, 29)] [A ''The supplied proxy address is invalid.''] True [[U [1570, 1583, 1585,
       1587, 32, 1662, 1585, 1575, 1705, 1587, 1740, 32, 1583, 1575, 1583, 1607, 32, 1588, 1583, 1607, 32,
       1589, 1581, 1740, 1581, 32, 1606, 1740, 1587, 1578], A ''.'']]]"

section \<open>OverviewPage\<close>

definition fa_OverviewPage :: "message list" where
  "fa_OverviewPage = [
     Message False [(Some ''../forms/overviewpage.ui'', 14)] [A ''Form''] True [[U [1601, 1585, 1605]]],
     Message False [(None, 46), (None, 247)]
       [A ''The displayed information may be out of date. Your wallet automatically synchronizes with the Bws network after a connection is established, but this process has not completed yet.'']
       False [[]],
     Message False [(None, - 173)] [A ''Stake:''] False [[]],
     Message False [(None, 32)] [A ''Unconfirmed:''] False [[]],
     Message False [(None, - 113)] [A ''Wallet''] True [[U [1705, 1740, 1601, 32, 1662, 1608, 1604]]],
     Message False [(None, 49)] [A ''Spendable:''] False [[]],
     Message False [(None, 16)] [A ''Your current spendable balance''] True [[U [1578, 1585, 1575, 1586, 32,
       1593, 1604, 1740, 8204, 1575, 1604, 1581, 1587, 1575, 1576, 32, 1588, 1605, 1575]]],
     Message False [(None, 80)] [A ''Immature:''] True [[U [1606, 1575, 1585, 1587, 1740, 1583, 1607],
       A '':'']],
     Message False [(None, 13)] [A ''Mined balance that has not yet matured''] True [[U [1578, 1585, 1575,
       1586, 32, 1575, 1587, 1578, 1582, 1585, 1575, 1580, 32, 1588, 1583, 1607, 32, 1575, 1586, 32, 1605,
       1593, 1583, 1606, 32, 1705, 1607, 32, 1607, 1606, 1608, 1586, 32, 1576, 1575, 1604, 1594, 32, 1606,
       1588, 1583, 1607, 32, 1575, 1587, 1578]]],
     Message False [(None, 23)] [A ''Total:''] True [[U [1580, 1605, 1593, 32, 1705, 1604], A '':'']],
     Message False [(None, 16)] [A ''Your current total balance''] True [[U [1578, 1585, 1575, 1586, 32,
       1705, 1604, 32, 1601, 1593, 1604, 1740, 32, 1588, 1605, 1575]]],
     Message False [(None, 50)] [A ''<b>Recent transactions</b>''] True [[A ''<b>'', U [1578, 1585, 1575,
       1705, 1606, 1588, 8204, 1607, 1575, 1740, 32, 1575, 1582, 1740, 1585], A ''</b>'']],
     Message False [(None, - 118)]
       [A ''Total of transactions that have yet to be confirmed, and do not yet count toward the current balance'']
       False [[]],
     Message False [(None, - 32)]
       [A ''Total of coins that was staked, and do not yet count toward the current balance''] False [[]],
     Message False [(Some ''../overviewpage.cpp'', 116), (None, 1)] [A ''out of sync''] True [[U [1606,
       1575, 1607, 1605, 1711, 1575, 1605]]]]"

section \<open>PaymentServer\<close>

definition fa_PaymentServer :: "message list" where
  "fa_PaymentServer = [
     Message False [(Some ''../paymentserver.cpp'', 107)] [A ''Cannot start bws: click-to-pay handler'']
       False [[]]]"

section \<open>QRCodeDialog\<close>

definition fa_QRCodeDialog :: "message list" where
  "fa_QRCodeDialog = [
     Message False [(Some ''../forms/qrcodedialog.ui'', 14)] [A ''QR Code Dialog''] False [[]],
     Message False [(None, 59)] [A ''Request Payment''] False [[]],
     Message False [(None, 56)] [A ''Amount:''] False [[]],
     Message False [(None, - 44)] [A ''Label:''] False [[]],
     Message False [(None, 19)] [A ''Message:''] False [[]],
     Message False [(None, 71)] [A ''&Save As...''] False [[]],
     Message False [(Some ''../qrcodedialog.cpp'', 62)] [A ''Error encoding URI into QR Code.''] False [[]],
     Message False [(None, 40)] [A ''The entered amount is invalid, please check.''] False [[]],
     Message False [(None, 23)] [A ''Resulting URI too long, try to reduce the text for label / message.'']
       False [[]],
     Message False [(None, 25)] [A ''Save QR Code''] False [[]],
     Message False [(None, 0)] [A ''PNG Images (*.png)''] False [[]]]"

section \<open>RPCConsole\<close>

definition fa_RPCConsole_1 :: "message list" where
  "fa_RPCConsole_1 = [
     Message False [(Some ''../forms/rpcconsole.ui'', 46)] [A ''Client name''] True [[U [1606, 1575, 1605,
       32, 1705, 1604, 1575, 1740, 1606, 1578]]],
     Message False [(None, 10), (None, 23), (None, 26), (None, 23), (None, 23), (None, 36), (None, 53),
       (None, 23)] [A ''N/A''] True [[U [1606, 1575, 1605, 1608, 1580, 1608, 1583]]],
     Message False [(None, - 194)] [A ''Client version''] True [[U [1606, 1587, 1582, 1607, 1620, 32, 1705,
       1604, 1575, 1740, 1606, 1578]]],
     Message False [(None, - 45)] [A ''&Information''] True [[A ''&'', U [1575, 1591, 1604, 1575, 1593,
       1575, 1578]]],
     Message False [(None, 68)] [A ''Using OpenSSL version''] True [[U [1606, 1587, 1582, 1607, 1620],
       A '' OpenSSL '', U [1575, 1587, 1578, 1601, 1575, 1583, 1607, 32, 1588, 1583, 1607]]],
     Message False [(None, 49)] [A ''Startup time''] True [[U [1586, 1605, 1575, 1606, 32, 1570, 1594, 1575,
       1586, 32, 1576, 1607, 32, 1705, 1575, 1585]]],
     Message False [(None, 29)] [A ''Network''] True [[U [1588, 1576, 1705, 1607]]],
     Message False [(None, 7)] [A ''Number of connections''] True [[U [1578, 1593, 1583, 1575, 1583, 32,
       1575, 1585, 1578, 1576, 1575, 1591, 1575, 1578]]],
     Message False [(None, 23)] [A ''On testnet''] False [[]],
     Message False [(None, 23)] [A ''Block chain''] True [[U [1586, 1606, 1580, 1740, 1585, 1607, 1620, 32,
       1576, 1604, 1608, 1705, 8204, 1607, 1575]]],
     Message False [(None, 7)] [A ''Current number of blocks''] True [[U [1578, 1593, 1583, 1575, 1583, 32,
       1601, 1593, 1604, 1740, 32, 1576, 1604, 1608, 1705, 8204, 1607, 1575]]],
     Message False [(None, 197)] [A ''&Network Traffic''] False [[]],
     Message False [(None, 52)] [A ''&Clear''] False [[]],
     Message False [(None, 13)] [A ''Totals''] False [[]],
     Message False [(None, 64), (Some ''../rpcconsole.cpp'', 352)] [A ''In:''] False [[]],
     Message False [(None, 80), (Some ''../rpcconsole.cpp'', 1)] [A ''Out:''] False [[]],
     Message False [(None, - 383)] [A ''Last block time''] True [[U [1586, 1605, 1575, 1606, 32, 1570, 1582,
       1585, 1740, 1606, 32, 1576, 1604, 1608, 1705]]],
     Message False [(None, 52)] [A ''&Open''] True [[U [1576, 1575], A ''&'', U [1586, 32, 1705, 1585, 1583,
       1606]]],
     Message False [(None, 16)] [A ''Command-line options''] False [[]],
     Message False [(None, 7)]
       [A ''Show the Bws-Qt help message to get a list with possible Bws command-line options.''] False [[]],
     Message False [(None, 3)] [A ''&Show''] False [[]],
     Message False [(None, 24)] [A ''&Console''] True [[A ''&'', U [1705, 1606, 1587, 1608, 1604]]],
     Message False [(None, - 237)] [A ''Build date''] True [[U [1587, 1575, 1582, 1578, 32, 1578, 1575,
       1585, 1740, 1582]]],
     Message False [(None, - 104)] [A ''Bws - Debug window''] False [[]],
     Message False [(None, 25)] [A ''Bws Core''] False [[]],
     Message False [(None, 256)] [A ''Debug log file''] True [[U [1601, 1575, 1740, 1604, 1616, 32, 1604,
       1575, 1711, 1616, 32, 1575, 1588, 1705, 1575, 1604, 32, 1586, 1583, 1575, 1740, 1740]]],
     Message False [(None, 7)]
       [A ''Open the Bws debug log file from the current data directory. This can take a few seconds for large log files.'']
       False [[]]]"

definition fa_RPCConsole_2 :: "message list" where
  "fa_RPCConsole_2 = [
     Message False [(None, 102)] [A ''Clear console''] True [[U [1662, 1575, 1705, 1587, 1575, 1586, 1740,
       32, 1705, 1606, 1587, 1608, 1604]]],
     Message False [(Some ''../rpcconsole.cpp'', - 28)] [A ''Welcome to the Bws RPC console.''] False [[]],
     Message False [(None, 1)]
       [A ''Use up and down arrows to navigate history, and <b>Ctrl-L</b> to clear screen.''] True
       [[U [1583, 1705, 1605, 1607, 8204, 1607, 1575, 1740, 32, 1576, 1575, 1604, 1575, 32, 1608, 32, 1662,
       1575, 1740, 1740, 1606, 32, 1576, 1585, 1575, 1740, 32, 1662, 1740, 1605, 1575, 1740, 1588, 32, 1578,
       1575, 1585, 1740, 1582, 1670, 1607, 32, 1608], A '' <b>Ctrl-L</b> '', U [1576, 1585, 1575, 1740, 32,
       1662, 1575, 1705, 32, 1705, 1585, 1583, 1606, 32, 1589, 1601, 1581, 1607], A ''.'']],
     Message False [(None, 1)] [A ''Type <b>help</b> for an overview of available commands.''] True
       [[U [1576, 1585, 1575, 1740, 32, 1606, 1605, 1575, 1740, 1588, 32, 1740, 1705, 32, 1605, 1585, 1608,
       1585, 32, 1705, 1604, 1740, 32, 1575, 1586, 32, 1583, 1587, 1578, 1608, 1585, 1575, 1578, 32, 1605,
       1605, 1705, 1606, 1548, 32, 1593, 1576, 1575, 1585, 1578], A '' <b>help</b> '', U [1585, 1575, 32,
       1576, 1606, 1608, 1740, 1587, 1740, 1583], A ''.'']],
     Message False [(None, 134)] [A ''%1 B''] False [[]],
     Message False [(None, 2)] [A ''%1 KB''] False [[]],
     Message False [(None, 2)] [A ''%1 MB''] False [[]],
     Message False [(None, 2)] [A ''%1 GB''] False [[]],
     Message False [(None, 7)] [A ''%1 m''] False [[]],
     Message False [(None, 5)] [A ''%1 h''] False [[]],
     Message False [(None, 2)] [A ''%1 h %2 m''] False [[]]]"

section \<open>SendCoinsDialog\<close>

definition fa_SendCoinsDialog_1 :: "message list" where
  "fa_SendCoinsDialog_1 = [
     Message False [(Some ''../forms/sendcoinsdialog.ui'', 14), (Some ''../sendcoinsdialog.cpp'', 179),
       (None, 5), (None, 5), (None, 5), (None, 6), (None, 5), (None, 5)] [A ''Send Coins''] True [[U [1575,
       1585, 1587, 1575, 1604, 32, 1587, 1705, 1607]]],
     Message False [(None, 76)] [A ''Coin Control Features''] False [[]],
     Message False [(None, 20)] [A ''Inputs...''] False [[]],
     Message False [(None, 7)] [A ''automatically selected''] False [[]],
     Message False [(None, 19)] [A ''Insufficient funds!''] False [[]],
     Message False [(None, 77)] [A ''Quantity:''] False [[]],
     Message False [(None, 22), (None, 35)] [A ''0''] False [[]],
     Message False [(None, - 19)] [A ''Bytes:''] False [[]],
     Message False [(None, 51)] [A ''Amount:''] True [[U [1605, 1576, 1604, 1594], A '':'']],
     Message False [(None, 54)] [A ''Fee:''] False [[]],
     Message False [(None, 35)] [A ''Low Output:''] False [[]],
     Message False [(None, 19)] [A ''no''] False [[]],
     Message False [(None, 32)] [A ''After Fee:''] False [[]],
     Message False [(None, 35)] [A ''Change''] False [[]],
     Message False [(None, 50)] [A ''custom change address''] False [[]],
     Message False [(None, 106)] [A ''Send to multiple recipients at once''] True [[U [1575, 1585, 1587,
       1575, 1604, 32, 1576, 1607, 32, 1670, 1606, 1583, 32, 1583, 1585, 1740, 1575, 1601, 1578, 8204, 1705,
       1606, 1606, 1583, 1607, 1620, 32, 1576, 1607, 8204, 1591, 1608, 1585, 32, 1607, 1605, 1586, 1605,
       1575, 1606]]],
     Message False [(None, 3)] [A ''Add &Recipient''] True [[A ''&'', U [1583, 1585, 1740, 1575, 1601, 1578,
       8204, 1705, 1606, 1606, 1583, 1607, 1620, 32, 1580, 1583, 1740, 1583]]],
     Message False [(None, 16)] [A ''Remove all transaction fields''] False [[]],
     Message False [(None, 3)] [A ''Clear &All''] True [[U [1662, 1575, 1705, 1587, 1575, 1586, 1740],
       A '' &'', U [1607, 1605, 1607]]],
     Message False [(None, 24)] [A ''Balance:''] True [[U [1578, 1586, 1575, 1585], A '':'']],
     Message False [(None, 47)] [A ''Confirm the send action''] True [[U [1593, 1605, 1604, 1740, 1575,
       1578, 32, 1575, 1585, 1587, 1575, 1604, 32, 1585, 1575, 32, 1578, 1571, 1740, 1740, 1583, 32, 1705,
       1606, 1740, 1583]]],
     Message False [(None, 3)] [A ''S&end''] True [[A ''&'', U [1575, 1585, 1587, 1575, 1604]]],
     Message False [(Some ''../sendcoinsdialog.cpp'', - 171)]
       [A ''Enter a Bws address (e.g. DPpauUHW4ksipzUQhKKVAxscM6UonAAjhX)''] False [[]],
     Message False [(None, 15)] [A ''Copy quantity''] False [[]],
     Message False [(None, 1)] [A ''Copy amount''] True [[U [1705, 1662, 1740, 32, 1605, 1602, 1583, 1575,
       1585]]],
     Message False [(None, 1)] [A ''Copy fee''] False [[]],
     Message False [(None, 1)] [A ''Copy after fee''] False [[]]]"

end
