(* ===== verification/FaMessages2.thy ===== *)
theory FaMessages2
  imports FaMessages1
begin

text \<open>
  The Persian message catalogue (\<open>src/qt/locale/bitcoin_fa.ts\<close>), second part: one definition
  per context, long contexts in parts of at most 150 lines of the file, every message with its locations,
  source text, state and forms, in the order of the file.
\<close>

section \<open>SendCoinsDialog\<close>

definition fa_SendCoinsDialog_2 :: "message list" where
  "fa_SendCoinsDialog_2 = [
     Message False [(None, 1)] [A ''Copy bytes''] False [[]],
     Message False [(None, 1)] [A ''Copy low output''] False [[]],
     Message False [(None, 1)] [A ''Copy change''] False [[]],
     Message False [(None, 85)] [A ''<b>%1</b> to %2 (%3)''] False [[]],
     Message False [(None, 5)] [A ''Confirm send coins''] True [[U [1575, 1585, 1587, 1575, 1604, 32, 1587,
       1705, 1607, 32, 1585, 1575, 32, 1578, 1571, 1740, 1740, 1583, 32, 1705, 1606, 1740, 1583]]],
     Message False [(None, 1)] [A ''Are you sure you want to send %1?''] False [[]],
     Message False [(None, 0)] [A '' and ''] False [[]],
     Message False [(None, 29)] [A ''The recipient address is not valid, please recheck.''] True [[U [1606,
       1588, 1575, 1606, 1740, 32, 1711, 1740, 1585, 1606, 1583, 1607, 32, 1605, 1593, 1578, 1576, 1585, 32,
       1606, 1740, 1587, 1578, 1563, 32, 1604, 1591, 1601, 1575, 32, 1583, 1608, 1576, 1575, 1585, 1607, 32,
       1576, 1585, 1585, 1587, 1740, 32, 1705, 1606, 1740, 1583], A ''.'']],
     Message False [(None, 5)] [A ''The amount to pay must be larger than 0.''] True [[U [1605, 1576, 1604,
       1594, 32, 1662, 1585, 1583, 1575, 1582, 1578, 32, 1576, 1575, 1740, 1583, 32, 1576, 1740, 1588, 1578,
       1585, 32, 1575, 1586, 32, 1776, 32, 1576, 1575, 1588, 1583], A ''.'']],
     Message False [(None, 5)] [A ''The amount exceeds your balance.''] True [[U [1605, 1740, 1586, 1575,
       1606, 32, 1662, 1585, 1583, 1575, 1582, 1578, 32, 1575, 1586, 32, 1578, 1585, 1575, 1586, 32, 1588,
       1605, 1575, 32, 1576, 1740, 1588, 1578, 1585, 32, 1575, 1587, 1578], A ''.'']],
     Message False [(None, 5)]
       [A ''The total exceeds your balance when the %1 transaction fee is included.''] True [[U [1576, 1575,
       32, 1575, 1581, 1578, 1587, 1575, 1576, 32, 1607, 1586, 1740, 1606, 1607, 1620], A '' %1 '', U [1576,
       1585, 1575, 1740, 32, 1607, 1585, 32, 1578, 1585, 1575, 1705, 1606, 1588, 1548, 32, 1605, 1580, 1605,
       1608, 1593, 32, 1605, 1740, 1586, 1575, 1606, 32, 1662, 1585, 1583, 1575, 1582, 1578, 1740, 32, 1575,
       1586, 32, 1605, 1576, 1604, 1594, 32, 1578, 1585, 1575, 1586, 32, 1588, 1605, 1575, 32, 1576, 1740,
       1588, 1578, 1585, 32, 1605, 1740, 8204, 1588, 1608, 1583], A ''.'']],
     Message False [(None, 6)]
       [A ''Duplicate address found, can only send to each address once per send operation.''] True
       [[U [1740, 1705, 32, 1606, 1588, 1575, 1606, 1740, 32, 1578, 1705, 1585, 1575, 1585, 1740, 32, 1662,
       1740, 1583, 1575, 32, 1588, 1583], A ''. '', U [1583, 1585, 32, 1607, 1585, 32, 1593, 1605, 1604,
       1740, 1575, 1578, 32, 1575, 1585, 1587, 1575, 1604, 1548, 32, 1576, 1607, 32, 1607, 1585, 32, 1606,
       1588, 1575, 1606, 1740, 32, 1601, 1602, 1591, 32, 1605, 1576, 1604, 1594, 32, 1605, 1740, 8204, 1578,
       1608, 1575, 1606, 32, 1575, 1585, 1587, 1575, 1604, 32, 1705, 1585, 1583], A ''.'']],
     Message False [(None, 5)] [A ''Error: Transaction creation failed!''] False [[]],
     Message False [(None, 5)]
       [A ''Error: The transaction was rejected. This might happen if some of the coins in your wallet were already spent, such as if you used a copy of wallet.dat and coins were spent in the copy but not marked as spent here.'']
       False [[]],
     Message False [(None, 241)] [A ''WARNING: Invalid Bws address''] False [[]],
     Message False [(None, 13)] [A ''(no label)''] True [[A ''('', U [1576, 1583, 1608, 1606, 32, 1576,
       1585, 1670, 1587, 1576], A '')'']],
     Message False [(None, 4)] [A ''WARNING: unknown change address''] False [[]]]"

section \<open>SendCoinsEntry\<close>

definition fa_SendCoinsEntry :: "message list" where
  "fa_SendCoinsEntry = [
     Message False [(Some ''../forms/sendcoinsentry.ui'', 14)] [A ''Form''] False [[]],
     Message False [(None, 15)] [A ''A&mount:''] True [[A ''A&'', U [1605, 1576, 1604, 1594], A '' :'']],
     Message False [(None, 13)] [A ''Pay &To:''] True [[U [1662, 1585, 1583, 1575, 1582], A ''&'', U [1578,
       32, 1576, 1607], A '':'']],
     Message False [(None, 34)]
       [A ''The address to send the payment to (e.g. DPpauUHW4ksipzUQhKKVAxscM6UonAAjhX)''] False [[]],
     Message False [(None, 60), (Some ''../sendcoinsentry.cpp'', 26)]
       [A ''Enter a label for this address to add it to your address book''] True [[U [1576, 1585, 1575,
       1740, 32, 1575, 1740, 1606, 32, 1606, 1588, 1575, 1606, 1740, 32, 1740, 1705, 32, 1576, 1585, 1670,
       1587, 1576, 32, 1608, 1575, 1585, 1583, 32, 1705, 1606, 1740, 1583, 32, 1578, 1575, 32, 1583, 1585,
       32, 1583, 1601, 1578, 1585, 1670, 1607, 1620, 32, 1570, 1583, 1585, 1587, 32, 1584, 1582, 1740, 1585,
       1607, 32, 1588, 1608, 1583]]],
     Message False [(None, - 78)] [A ''&Label:''] True [[A ''&'', U [1576, 1585, 1670, 1587, 1576],
       A '':'']],
     Message False [(None, 28)] [A ''Choose address from address book''] False [[]],
     Message False [(None, 10)] [A ''Alt+A''] True [[A ''Alt+A'']],
     Message False [(None, 7)] [A ''Paste address from clipboard''] True [[U [1670, 1587, 1576, 1575, 1606,
       1583, 1606, 32, 1606, 1588, 1575, 1606, 1740, 32, 1575, 1586, 32, 1581, 1575, 1601, 1592, 1607, 1620,
       32, 1587, 1740, 1587, 1578, 1605]]],
     Message False [(None, 10)] [A ''Alt+P''] True [[A ''Alt+P'']],
     Message False [(None, 7)] [A ''Remove this recipient''] False [[]],
     Message False [(Some ''../sendcoinsentry.cpp'', 1)]
       [A ''Enter a Bws address (e.g. DPpauUHW4ksipzUQhKKVAxscM6UonAAjhX)''] False [[]]]"

section \<open>SignVerifyMessageDialog\<close>

definition fa_SignVerifyMessageDialog_1 :: "message list" where
  "fa_SignVerifyMessageDialog_1 = [
     Message False [(Some ''../forms/signverifymessagedialog.ui'', 14)]
       [A ''Signatures - Sign / Verify a Message''] True [[U [1575, 1605, 1590, 1575, 1607, 1575],
       A '' - '', U [1575, 1605, 1590, 1575], A '' / '', U [1578, 1571, 1740, 1740, 1583, 32, 1740, 1705,
       32, 1662, 1740, 1575, 1605]]],
     Message False [(None, 13), (None, 124)] [A ''&Sign Message''] True [[U [1575], A ''&'', U [1605, 1590,
       1575, 1740, 32, 1662, 1740, 1575, 1605]]],
     Message False [(None, - 118)]
       [A ''You can sign messages with your addresses to prove you own them. Be careful not to sign anything vague, as phishing attacks may try to trick you into signing your identity over to them. Only sign fully-detailed statements you agree to.'']
       True [[U [1576, 1585, 1575, 1740, 32, 1575, 1581, 1585, 1575, 1586, 32, 1575, 1740, 1606, 1705, 1607,
       32, 1662, 1740, 1575, 1605, 8204, 1607, 1575, 32, 1575, 1586, 32, 1580, 1575, 1606, 1576, 32, 1588,
       1605, 1575, 32, 1607, 1587, 1578, 1606, 1583, 1548, 32, 1605, 1740, 8204, 1578, 1608, 1575, 1606,
       1740, 1583, 32, 1570, 1606, 8204, 1607, 1575, 32, 1585, 1575, 32, 1576, 1575, 32, 1606, 1588, 1575,
       1606, 1740, 32, 1582, 1608, 1583, 1578, 1575, 1606, 32, 1575, 1605, 1590, 1575, 32, 1705, 1606, 1740,
       1583], A ''. '', U [1605, 1585, 1575, 1602, 1576, 32, 1576, 1575, 1588, 1740, 1583, 32, 1670, 1740,
       1586, 1740, 32, 1705, 1607, 32, 1576, 1583, 1575, 1606, 32, 1575, 1591, 1605, 1740, 1606, 1575, 1606,
       32, 1606, 1583, 1575, 1585, 1740, 1583, 32, 1585, 1575, 32, 1575, 1605, 1590, 1575, 32, 1606, 1705,
       1606, 1740, 1583, 32, 1586, 1740, 1585, 1575, 32, 1581, 1605, 1604, 1575, 1578, 32, 1601, 1740, 1588,
       1740, 1606, 1711, 32, 1605, 1605, 1705, 1606, 32, 1575, 1587, 1578, 32, 1576, 1582, 1608, 1575, 1607,
       1606, 1583, 32, 1575, 1586], A ''.'', U [1662, 1740, 1575, 1605, 1740, 32, 1576, 1575, 32, 1575,
       1605, 1590, 1575, 1740, 32, 1588, 1605, 1575, 32, 1587, 1608, 1569, 1575, 1587, 1578, 1601, 1575,
       1583, 1607, 32, 1705, 1606, 1606, 1583], A ''. '', U [1578, 1606, 1607, 1575, 32, 1605, 1608, 1575,
       1585, 1583, 1740, 32, 1585, 1575, 32, 1705, 1607, 32, 1581, 1575, 1608, 1740, 32, 1575, 1591, 1604,
       1575, 1593, 1575, 1578, 32, 1583, 1602, 1740, 1602, 32, 1608, 32, 1602, 1575, 1576, 1604, 32, 1602,
       1576, 1608, 1604, 32, 1576, 1585, 1575, 1740, 32, 1588, 1605, 1575, 32, 1607, 1587, 1578, 1606, 1583,
       32, 1575, 1605, 1590, 1575, 32, 1705, 1606, 1740, 1583], A ''.'']],
     Message False [(None, 18)]
       [A ''The address to sign the message with (e.g. DPpauUHW4ksipzUQhKKVAxscM6UonAAjhX)''] False [[]],
     Message False [(None, 10), (None, 203)] [A ''Choose an address from the address book''] False [[]],
     Message False [(None, - 193), (None, 203)] [A ''Alt+A''] True [[A ''Alt+A'']],
     Message False [(None, - 193)] [A ''Paste address from clipboard''] True [[U [1670, 1587, 1576, 1575,
       1606, 1583, 1606, 32, 1606, 1588, 1575, 1606, 1740, 32, 1575, 1586, 32, 1581, 1575, 1601, 1592, 1607,
       1620, 32, 1587, 1740, 1587, 1578, 1605]]],
     Message False [(None, 10)] [A ''Alt+P''] True [[A ''Alt+P'']],
     Message False [(None, 12)] [A ''Enter the message you want to sign here''] True [[U [1662, 1740, 1575,
       1605, 1740, 32, 1585, 1575, 32, 1705, 1607, 32, 1605, 1740, 8204, 1582, 1608, 1575, 1607, 1740, 1583,
       32, 1575, 1605, 1590, 1575, 32, 1705, 1606, 1740, 1583, 32, 1583, 1585, 32, 1575, 1740, 1606, 1580,
       1575, 32, 1608, 1575, 1585, 1583, 32, 1705, 1606, 1740, 1583]]],
     Message False [(None, 24)] [A ''Copy the current signature to the system clipboard''] True [[U [1575,
       1605, 1590, 1575, 1740, 32, 1601, 1593, 1604, 1740, 32, 1585, 1575, 32, 1576, 1607, 32, 1581, 1575,
       1601, 1592, 1607, 1620, 32, 1587, 1740, 1587, 1578, 1605, 32, 1705, 1662, 1740, 32, 1705, 1606]]],
     Message False [(None, 21)] [A ''Sign the message to prove you own this Bws address''] False [[]],
     Message False [(None, 17)] [A ''Reset all sign message fields''] True [[U [1576, 1575, 1586, 1606,
       1588, 1575, 1606, 1740, 32, 1578, 1605, 1575, 1605, 32, 1601, 1740, 1604, 1583, 1607, 1575, 1740, 32,
       1662, 1740, 1575, 1605]]],
     Message False [(None, 3), (None, 146)] [A ''Clear &All''] True [[U [1662, 1575, 1705], A '' &'',
       U [1705, 1585, 1583, 1606, 32, 1607, 1605, 1607]]],
     Message False [(None, - 87), (None, 70)] [A ''&Verify Message''] True [[A ''&'', U [1588, 1606, 1575,
       1587, 1575, 1740, 1740, 32, 1662, 1740, 1575, 1605]]],
     Message False [(None, - 64)]
       [A ''Enter the signing address, message (ensure you copy line breaks, spaces, tabs, etc. exactly) and signature below to verify the message. Be careful not to read more into the signature than what is in the signed message itself, to avoid being tricked by a man-in-the-middle attack.'']
       True [[U [1576, 1585, 1575, 1740, 32, 1588, 1606, 1575, 1587, 1575, 1740, 1740, 32, 1662, 1740, 1575,
       1605, 1548, 32, 1606, 1588, 1575, 1606, 1740, 1616, 32, 1575, 1605, 1590, 1575, 32, 1705, 1606, 1606,
       1583, 1607, 32, 1608, 32, 1605, 1578, 1606, 32, 1662, 1740, 1575, 1605, 32, 1585, 1575, 32, 1608,
       1575, 1585, 1583, 32, 1705, 1606, 1740, 1583], A ''. ('', U [1605, 1591, 1605, 1574, 1606, 32, 1588,
       1608, 1740, 1583, 32, 1705, 1607, 32, 1601, 1575, 1589, 1604, 1607, 8204, 1607, 1575, 1548, 32, 1578,
       1576, 8204, 1607, 1575, 32, 1608, 32, 1582, 1591, 1608, 1591, 32, 1585, 1575, 32, 1593, 1740, 1606,
       1575, 1611, 32, 1705, 1662, 1740, 32, 1605, 1740, 8204, 1705, 1606, 1740, 1583], A ''.) '', U [1605,
       1585, 1575, 1602, 1576, 32, 1576, 1575, 1588, 1740, 1583, 32, 1583, 1585, 32, 1575, 1605, 1590, 1575,
       32, 1670, 1740, 1586, 1740, 32, 1576, 1740, 1588, 1578, 1585, 32, 1575, 1586, 32, 1570, 1606, 1670,
       1607, 32, 1583, 1585, 32, 1662, 1740, 1575, 1605, 32, 1605, 1740, 8204, 1576, 1740, 1606, 1740, 1583,
       32, 1608, 1580, 1608, 1583, 32, 1606, 1583, 1575, 1588, 1578, 1607, 32, 1576, 1575, 1588, 1583, 32,
       1578, 1575, 32, 1601, 1585, 1740, 1576, 32, 1583, 1586, 1583, 1575, 1606, 32, 1575, 1740, 1606, 1578,
       1585, 1606, 1578, 1740, 32, 1608, 32, 1581, 1605, 1604, 1575, 1578, 32, 1575, 1586, 32, 1606, 1608,
       1593], A '' MITM '', U [1585, 1575, 32, 1606, 1582, 1608, 1585, 1740, 1583], A ''.'']],
     Message False [(None, 21)]
       [A ''The address the message was signed with (e.g. DPpauUHW4ksipzUQhKKVAxscM6UonAAjhX)''] False [[]],
     Message False [(None, 40)]
       [A ''Verify the message to ensure it was signed with the specified Bws address''] False [[]],
     Message False [(None, 17)] [A ''Reset all verify message fields''] True [[U [1576, 1575, 1586, 1606,
       1588, 1575, 1606, 1740, 32, 1578, 1605, 1575, 1605, 32, 1601, 1740, 1604, 1583, 1607, 1575, 1740, 32,
       1662, 1740, 1575, 1605]]],
     Message False [(Some ''../signverifymessagedialog.cpp'', 27), (None, 3)]
       [A ''Enter a Bws address (e.g. DPpauUHW4ksipzUQhKKVAxscM6UonAAjhX)''] False [[]],
     Message False [(None, - 2)] [A ''Click '', U [34], A ''Sign Message'', U [34],
       A '' to generate signature''] True [[U [1576, 1585, 1575, 1740, 32, 1575, 1740, 1580, 1575, 1583, 32,
       1740, 1705, 32, 1575, 1605, 1590, 1575, 1740, 32, 1580, 1583, 1740, 1583, 32, 1585, 1608, 1740, 32,
       171, 1575, 1605, 1590, 1575, 1740, 32, 1662, 1740, 1575, 1605, 187, 32, 1705, 1604, 1740, 1705, 32,
       1705, 1606, 1740, 1583]]],
     Message False [(None, 3)] [A ''Enter Bws signature''] False [[]],
     Message False [(None, 85), (None, 81)] [A ''The entered address is invalid.''] True [[U [1606, 1588,
       1575, 1606, 1740, 32, 1608, 1575, 1585, 1583, 32, 1588, 1583, 1607, 32, 1606, 1575, 1605, 1593, 1578,
       1576, 1585, 32, 1575, 1587, 1578], A ''.'']],
     Message False [(None, - 81), (None, 8), (None, 73), (None, 8)]
       [A ''Please check the address and try again.''] True [[U [1604, 1591, 1601, 1575, 1611, 32, 1606,
       1588, 1575, 1606, 1740, 32, 1585, 1575, 32, 1576, 1585, 1585, 1587, 1740, 32, 1705, 1606, 1740, 1583,
       32, 1608, 32, 1583, 1608, 1576, 1575, 1585, 1607, 32, 1578, 1604, 1575, 1588, 32, 1705, 1606, 1740,
       1583], A ''.'']],
     Message False [(None, - 81), (None, 81)] [A ''The entered address does not refer to a key.''] True
       [[U [1606, 1588, 1575, 1606, 1740, 32, 1608, 1575, 1585, 1583, 32, 1588, 1583, 1607, 32, 1576, 1607,
       32, 1607, 1740, 1670, 32, 1705, 1604, 1740, 1583, 1740, 32, 1575, 1588, 1575, 1585, 1607, 32, 1606,
       1605, 1740, 8204, 1705, 1606, 1583], A ''.'']],
     Message False [(None, - 73)] [A ''Wallet unlock was cancelled.''] True [[U [1593, 1605, 1604, 1740,
       1575, 1578, 32, 1576, 1575, 1586, 32, 1705, 1585, 1606, 32, 1602, 1601, 1604, 32, 1705, 1740, 1601,
       32, 1662, 1608, 1604, 32, 1604, 1594, 1608, 32, 1588, 1583], A ''.'']],
     Message False [(None, 8)] [A ''Private key for the entered address is not available.''] True [[U [1705,
       1604, 1740, 1583, 32, 1582, 1589, 1608, 1589, 1740, 32, 1576, 1585, 1575, 1740, 32, 1606, 1588, 1575,
       1606, 1740, 32, 1608, 1575, 1585, 1583, 32, 1588, 1583, 1607, 32, 1583, 1585, 32, 1583, 1587, 1578,
       1585, 1587, 32, 1606, 1740, 1587, 1578], A ''.'']],
     Message False [(None, 12)] [A ''Message signing failed.''] True [[U [1575, 1605, 1590, 1575, 1740, 32,
       1662, 1740, 1575, 1605, 32, 1576, 1575, 32, 1588, 1705, 1587, 1578, 32, 1605, 1608, 1575, 1580, 1607,
       32, 1588, 1583], A ''.'']]]"

definition fa_SignVerifyMessageDialog_2 :: "message list" where
  "fa_SignVerifyMessageDialog_2 = [
     Message False [(None, 5)] [A ''Message signed.''] True [[U [1662, 1740, 1575, 1605, 32, 1575, 1605,
       1590, 1575, 32, 1588, 1583], A ''.'']],
     Message False [(None, 59)] [A ''The signature could not be decoded.''] True [[U [1575, 1605, 1590,
       1575, 32, 1606, 1605, 1740, 8204, 1578, 1608, 1575, 1606, 1583, 32, 1705, 1583, 1711, 1588, 1575,
       1740, 1740, 32, 1588, 1608, 1583], A ''.'']],
     Message False [(None, 0), (None, 13)] [A ''Please check the signature and try again.''] True [[U [1604,
       1591, 1601, 1575, 1611, 32, 1575, 1605, 1590, 1575, 32, 1585, 1575, 32, 1576, 1585, 1585, 1587, 1740,
       32, 1606, 1605, 1608, 1583, 1607, 32, 1608, 32, 1583, 1608, 1576, 1575, 1585, 1607, 32, 1578, 1604,
       1575, 1588, 32, 1705, 1606, 1740, 1583], A ''.'']],
     Message False [(None, 0)] [A ''The signature did not match the message digest.''] True [[U [1575, 1605,
       1590, 1575, 32, 1576, 1575, 32, 1582, 1604, 1575, 1589, 1607, 1620, 32, 1662, 1740, 1575, 1605, 32,
       1605, 1591, 1575, 1576, 1602, 1578, 32, 1606, 1583, 1575, 1585, 1583], A ''.'']],
     Message False [(None, 7)] [A ''Message verification failed.''] True [[U [1588, 1606, 1575, 1587, 1575,
       1740, 1740, 32, 1662, 1740, 1575, 1605, 32, 1576, 1575, 32, 1588, 1705, 1587, 1578, 32, 1605, 1608,
       1575, 1580, 1607, 32, 1588, 1583], A ''.'']],
     Message False [(None, 5)] [A ''Message verified.''] True [[U [1662, 1740, 1575, 1605, 32, 1588, 1606,
       1575, 1587, 1575, 1740, 1740, 32, 1588, 1583], A ''.'']]]"

section \<open>TrafficGraphWidget\<close>

definition fa_TrafficGraphWidget :: "message list" where
  "fa_TrafficGraphWidget = [
     Message False [(Some ''../trafficgraphwidget.cpp'', 75)] [A ''KB/s''] False [[]]]"

section \<open>TransactionDesc\<close>

definition fa_TransactionDesc_1 :: "message list" where
  "fa_TransactionDesc_1 = [
     Message False [(Some ''../transactiondesc.cpp'', 25)] [A ''Open until %1''] True [[U [1576, 1575, 1586,
       32, 1578, 1575], A '' %1'']],
     Message False [(None, 6)] [A ''conflicted''] False [[]],
     Message False [(None, 2)] [A ''%1/offline''] True [[A ''%1/'', U [1570, 1601, 1604, 1575, 1740, 1606]]],
     Message False [(None, 2)] [A ''%1/unconfirmed''] True [[A ''%1/'', U [1578, 1571, 1740, 1740, 1583, 32,
       1606, 1588, 1583, 1607]]],
     Message False [(None, 2)] [A ''%1 confirmations''] True [[A ''%1 '', U [1578, 1571, 1740, 1740, 1583,
       1740, 1607]]],
     Message False [(None, 17)] [A ''Status''] True [[U [1608, 1590, 1593, 1740, 1578]]],
     Message True [(None, 7)] [A '', broadcast through %n node(s)''] True [[U [1548, 32, 1662, 1582, 1588,
       32, 1575, 1586, 32, 1591, 1585, 1740, 1602], A '' %n '', U [1711, 1585, 1607]]],
     Message False [(None, 4)] [A ''Date''] True [[U [1578, 1575, 1585, 1740, 1582]]],
     Message False [(None, 7)] [A ''Source''] True [[U [1605, 1606, 1576, 1593]]],
     Message False [(None, 0)] [A ''Generated''] True [[U [1578, 1608, 1604, 1740, 1583, 32, 1588, 1583,
       1607]]],
     Message False [(None, 5), (None, 13)] [A ''From''] True [[U [1601, 1585, 1587, 1578, 1606, 1583,
       1607]]],
     Message False [(None, 1), (None, 19), (None, 58)] [A ''To''] True [[U [1711, 1740, 1585, 1606, 1583,
       1607]]],
     Message False [(None, - 74), (None, 2)] [A ''own address''] True [[U [1570, 1583, 1585, 1587, 32, 1588,
       1605, 1575]]],
     Message False [(None, - 2)] [A ''label''] True [[U [1576, 1585, 1670, 1587, 1576]]],
     Message False [(None, 34), (None, 12), (None, 45), (None, 17), (None, 30)] [A ''Credit''] True
       [[U [1576, 1583, 1607, 1740]]],
     Message True [(None, - 102)] [A ''matures in %n more block(s)''] True [[U [1576, 1604, 1608, 1594, 32,
       1583, 1585], A '' %n '', U [1576, 1604, 1608, 1705, 32, 1583, 1740, 1711, 1585]]],
     Message False [(None, 2)] [A ''not accepted''] True [[U [1662, 1584, 1740, 1585, 1601, 1578, 1607, 32,
       1606, 1588, 1583]]],
     Message False [(None, 44), (None, 8), (None, 15), (None, 30)] [A ''Debit''] True [[U [1575, 1593, 1578,
       1576, 1575, 1585]]],
     Message False [(None, - 39)] [A ''Transaction fee''] True [[U [1607, 1586, 1740, 1606, 1607, 1620, 32,
       1578, 1585, 1575, 1705, 1606, 1588]]],
     Message False [(None, 16)] [A ''Net amount''] True [[U [1605, 1576, 1604, 1594, 32, 1582, 1575, 1604,
       1589]]],
     Message False [(None, 6)] [A ''Message''] True [[U [1662, 1740, 1575, 1605]]],
     Message False [(None, 2)] [A ''Comment''] True [[U [1606, 1592, 1585]]],
     Message False [(None, 2)] [A ''Transaction ID''] True [[U [1588, 1606, 1575, 1587, 1607, 1620, 32,
       1578, 1585, 1575, 1705, 1606, 1588]]],
     Message False [(None, 3)]
       [A ''Generated coins must mature 30 blocks before they can be spent. When you generated this block, it was broadcast to the network to be added to the block chain. If it fails to get into the chain, its state will change to '',
       U [34], A ''not accepted'', U [34], A '' and it won'', U [39],
       A ''t be spendable. This may occasionally happen if another node generates a block within a few seconds of yours.'']
       False [[]],
     Message False [(None, 7)] [A ''Debug information''] True [[U [1575, 1591, 1604, 1575, 1593, 1575, 1578,
       32, 1575, 1588, 1705, 1575, 1604, 8204, 1586, 1583, 1575, 1740, 1740]]],
     Message False [(None, 8)] [A ''Transaction''] True [[U [1578, 1585, 1575, 1705, 1606, 1588]]],
     Message False [(None, 5)] [A ''Inputs''] True [[U [1608, 1585, 1608, 1583, 1740, 8204, 1607, 1575]]]]"

definition fa_TransactionDesc_2 :: "message list" where
  "fa_TransactionDesc_2 = [
     Message False [(None, 21)] [A ''Amount''] True [[U [1605, 1576, 1604, 1594]]],
     Message False [(None, 1)] [A ''true''] True [[U [1583, 1585, 1587, 1578]]],
     Message False [(None, 0)] [A ''false''] True [[U [1606, 1575, 1583, 1585, 1587, 1578]]],
     Message False [(None, - 202)] [A '', has not been successfully broadcast yet''] True [[U [1548, 32,
       1607, 1606, 1608, 1586, 32, 1576, 1575, 32, 1605, 1608, 1601, 1602, 1740, 1578, 32, 1575, 1585, 1587,
       1575, 1604, 32, 1606, 1588, 1583, 1607]]],
     Message True [(None, - 36)] [A ''Open for %n more block(s)''] False [[]],
     Message False [(None, 67)] [A ''unknown''] True [[U [1606, 1575, 1588, 1606, 1575, 1587]]]]"

section \<open>TransactionDescDialog\<close>

definition fa_TransactionDescDialog :: "message list" where
  "fa_TransactionDescDialog = [
     Message False [(Some ''../forms/transactiondescdialog.ui'', 14)] [A ''Transaction details''] True
       [[U [1580, 1586, 1574, 1740, 1575, 1578, 32, 1578, 1585, 1575, 1705, 1606, 1588]]],
     Message False [(None, 6)] [A ''This pane shows a detailed description of the transaction''] True
       [[U [1575, 1740, 1606, 32, 1662, 1575, 1606, 1604, 32, 1588, 1575, 1605, 1604, 32, 1578, 1608, 1589,
       1740, 1601, 32, 1705, 1575, 1605, 1604, 1740, 32, 1575, 1586, 32, 1580, 1586, 1574, 1740, 1575, 1578,
       32, 1578, 1585, 1575, 1705, 1606, 1588, 32, 1575, 1587, 1578]]]]"

section \<open>TransactionTableModel\<close>

definition fa_TransactionTableModel :: "message list" where
  "fa_TransactionTableModel = [
     Message False [(Some ''../transactiontablemodel.cpp'', 231)] [A ''Date''] True [[U [1578, 1575, 1585,
       1740, 1582]]],
     Message False [(None, 0)] [A ''Type''] True [[U [1606, 1608, 1593]]],
     Message False [(None, 0)] [A ''Address''] True [[U [1606, 1588, 1575, 1606, 1740]]],
     Message False [(None, 0)] [A ''Amount''] True [[U [1605, 1576, 1604, 1594]]],
     Message False [(None, 52)] [A ''Open until %1''] True [[U [1576, 1575, 1586, 32, 1588, 1583, 1607, 32,
       1578, 1575], A '' %1'']],
     Message False [(None, 12)] [A ''Confirmed (%1 confirmations)''] True [[U [1578, 1571, 1740, 1740, 1583,
       32, 1588, 1583, 1607], A '' (%1 '', U [1578, 1571, 1740, 1740, 1583, 1740, 1607], A '')'']],
     Message True [(None, - 15)] [A ''Open for %n more block(s)''] True [[U [1576, 1575, 1586, 32, 1576,
       1585, 1575, 1740], A '' %n '', U [1576, 1604, 1608, 1705, 32, 1583, 1740, 1711, 1585]]],
     Message False [(None, 6)] [A ''Offline''] False [[]],
     Message False [(None, 3)] [A ''Unconfirmed''] False [[]],
     Message False [(None, 3)] [A ''Confirming (%1 of %2 recommended confirmations)''] False [[]],
     Message False [(None, 6)] [A ''Conflicted''] False [[]],
     Message False [(None, 3)] [A ''Immature (%1 confirmations, will be available after %2)''] False [[]],
     Message False [(None, 3)]
       [A ''This block was not received by any other nodes and will probably not be accepted!''] True
       [[U [1575, 1740, 1606, 32, 1576, 1604, 1608, 1705, 32, 1575, 1586, 32, 1607, 1740, 1670, 32, 1607,
       1605, 1578, 1575, 1740, 32, 1583, 1740, 1711, 1585, 1740, 32, 1583, 1585, 1740, 1575, 1601, 1578, 32,
       1606, 1588, 1583, 1607, 32, 1575, 1587, 1578, 32, 1608, 32, 1575, 1581, 1578, 1605, 1575, 1604, 32,
       1605, 1740, 8204, 1585, 1608, 1583, 32, 1662, 1584, 1740, 1585, 1601, 1578, 1607, 32, 1606, 1588,
       1608, 1583], A ''!'']],
     Message False [(None, 3)] [A ''Generated but not accepted''] True [[U [1578, 1608, 1604, 1740, 1583,
       32, 1588, 1583, 1607, 32, 1608, 1604, 1740, 32, 1602, 1576, 1608, 1604, 32, 1606, 1588, 1583, 1607]]],
     Message False [(None, 42)] [A ''Received with''] True [[U [1583, 1585, 1740, 1575, 1601, 1578, 8204,
       1588, 1583, 1607, 32, 1576, 1575]]],
     Message False [(None, 2)] [A ''Received from''] True [[U [1583, 1585, 1740, 1575, 1601, 1578, 8204,
       1588, 1583, 1607, 32, 1575, 1586]]],
     Message False [(None, 3)] [A ''Sent to''] True [[U [1575, 1585, 1587, 1575, 1604, 8204, 1588, 1583,
       1607, 32, 1576, 1607]]],
     Message False [(None, 2)] [A ''Payment to yourself''] True [[U [1662, 1585, 32, 1583, 1575, 1582, 1578,
       32, 1576, 1607, 32, 1582, 1608, 1583, 1578, 1575, 1606]]],
     Message False [(None, 2)] [A ''Mined''] True [[U [1575, 1587, 1578, 1582, 1585, 1575, 1580, 8204, 1588,
       1583, 1607]]],
     Message False [(None, 38)] [A ''(n/a)''] True [[A ''('', U [1606, 1575, 1605, 1608, 1580, 1608, 1583],
       A '')'']],
     Message False [(None, 194)]
       [A ''Transaction status. Hover over this field to show number of confirmations.''] True [[U [1608,
       1590, 1593, 1740, 1578, 32, 1578, 1585, 1575, 1705, 1606, 1588], A ''. '', U [1606, 1588, 1575, 1606,
       1711, 1585, 32, 1585, 1575, 32, 1585, 1608, 1740, 32, 1575, 1740, 1606, 32, 1601, 1740, 1604, 1583,
       32, 1606, 1711, 1607, 32, 1583, 1575, 1585, 1740, 1583, 32, 1578, 1575, 32, 1578, 1593, 1583, 1575,
       1583, 32, 1578, 1571, 1740, 1740, 1583, 1740, 1607, 8204, 1607, 1575, 32, 1606, 1588, 1575, 1606, 32,
       1583, 1575, 1583, 1607, 32, 1588, 1608, 1583], A ''.'']],
     Message False [(None, 2)] [A ''Date and time that the transaction was received.''] True [[U [1578,
       1575, 1585, 1740, 1582, 32, 1608, 32, 1587, 1575, 1593, 1578, 32, 1583, 1585, 1740, 1575, 1601, 1578,
       32, 1578, 1585, 1575, 1705, 1606, 1588], A ''.'']],
     Message False [(None, 2)] [A ''Type of transaction.''] True [[U [1606, 1608, 1593, 32, 1578, 1585,
       1575, 1705, 1606, 1588], A ''.'']],
     Message False [(None, 2)] [A ''Destination address of transaction.''] True [[U [1606, 1588, 1575, 1606,
       1740, 32, 1605, 1602, 1589, 1583, 32, 1578, 1585, 1575, 1705, 1606, 1588], A ''.'']],
     Message False [(None, 2)] [A ''Amount removed from or added to balance.''] True [[U [1605, 1576, 1604,
       1594, 32, 1705, 1587, 1585, 32, 1588, 1583, 1607, 32, 1608, 32, 1740, 1575, 32, 1575, 1590, 1575,
       1601, 1607, 32, 1588, 1583, 1607, 32, 1576, 1607, 32, 1578, 1585, 1575, 1586], A ''.'']]]"

section \<open>TransactionView\<close>

definition fa_TransactionView_1 :: "message list" where
  "fa_TransactionView_1 = [
     Message False [(Some ''../transactionview.cpp'', 54), (None, 17)] [A ''All''] True [[U [1607, 1605,
       1607]]],
     Message False [(None, - 16)] [A ''Today''] True [[U [1575, 1605, 1585, 1608, 1586]]],
     Message False [(None, 1)] [A ''This week''] True [[U [1575, 1740, 1606, 32, 1607, 1601, 1578, 1607]]],
     Message False [(None, 1)] [A ''This month''] True [[U [1575, 1740, 1606, 32, 1605, 1575, 1607]]],
     Message False [(None, 1)] [A ''Last month''] True [[U [1605, 1575, 1607, 32, 1711, 1584, 1588, 1578,
       1607]]],
     Message False [(None, 1)] [A ''This year''] True [[U [1575, 1605, 1587, 1575, 1604]]],
     Message False [(None, 1)] [A ''Range...''] True [[U [1605, 1581, 1583, 1608, 1583, 1607], A ''...'']],
     Message False [(None, 12)] [A ''Received with''] True [[U [1583, 1585, 1740, 1575, 1601, 1578, 8204,
       1588, 1583, 1607, 32, 1576, 1575], A '' '']],
     Message False [(None, 2)] [A ''Sent to''] True [[U [1575, 1585, 1587, 1575, 1604, 32, 1576, 1607]]],
     Message False [(None, 2)] [A ''To yourself''] True [[U [1576, 1607, 32, 1582, 1608, 1583, 1578, 1575,
       1606]]],
     Message False [(None, 1)] [A ''Mined''] True [[U [1575, 1587, 1578, 1582, 1585, 1575, 1580, 8204, 1588,
       1583, 1607]]],
     Message False [(None, 1)] [A ''Other''] True [[U [1583, 1740, 1711, 1585]]],
     Message False [(None, 7)] [A ''Enter address or label to search''] True [[U [1576, 1585, 1575, 1740,
       32, 1580, 1587, 1578, 8204, 8204, 1608, 1580, 1608, 32, 1606, 1588, 1575, 1606, 1740, 32, 1740, 1575,
       32, 1576, 1585, 1670, 1587, 1576, 32, 1585, 1575, 32, 1608, 1575, 1585, 1583, 32, 1705, 1606, 1740,
       1583]]],
     Message False [(None, 7)] [A ''Min amount''] True [[U [1605, 1576, 1604, 1594, 32, 1581, 1583, 1575,
       1602, 1604]]],
     Message False [(None, 34)] [A ''Copy address''] True [[U [1705, 1662, 1740, 32, 1606, 1588, 1575, 1606,
       1740]]],
     Message False [(None, 1)] [A ''Copy label''] True [[U [1705, 1662, 1740, 32, 1576, 1585, 1670, 1587,
       1576]]],
     Message False [(None, 1)] [A ''Copy amount''] True [[U [1705, 1662, 1740, 32, 1605, 1602, 1583, 1575,
       1585]]],
     Message False [(None, 1)] [A ''Copy transaction ID''] True [[U [1705, 1662, 1740, 32, 1588, 1606, 1575,
       1587, 1607, 1620, 32, 1578, 1585, 1575, 1705, 1606, 1588]]],
     Message False [(None, 1)] [A ''Edit label''] True [[U [1608, 1740, 1585, 1575, 1740, 1588, 32, 1576,
       1585, 1670, 1587, 1576]]],
     Message False [(None, 1)] [A ''Show transaction details''] True [[U [1606, 1605, 1575, 1740, 1588, 32,
       1580, 1586, 1574, 1740, 1575, 1578, 32, 1578, 1585, 1575, 1705, 1606, 1588]]],
     Message False [(None, 138)] [A ''Export Transaction Data''] False [[]],
     Message False [(None, 1)] [A ''Comma separated file (*.csv)''] True [[U [1662, 1585, 1608, 1606, 1583,
       1607, 1620, 32, 1606, 1608, 1593], A '' CSV '', U [1580, 1583, 1575, 1588, 1608, 1606, 1583, 1607,
       32, 1576, 1575, 32, 1705, 1575, 1605, 1575], A '' (*.csv)'']],
     Message False [(None, 8)] [A ''Confirmed''] True [[U [1578, 1571, 1740, 1740, 1583, 32, 1588, 1583,
       1607]]],
     Message False [(None, 1)] [A ''Date''] True [[U [1578, 1575, 1585, 1740, 1582]]],
     Message False [(None, 1)] [A ''Type''] True [[U [1606, 1608, 1593]]],
     Message False [(None, 1)] [A ''Label''] True [[U [1576, 1585, 1670, 1587, 1576]]],
     Message False [(None, 1)] [A ''Address''] True [[U [1606, 1588, 1575, 1606, 1740]]],
     Message False [(None, 1)] [A ''Amount''] True [[U [1605, 1576, 1604, 1594]]],
     Message False [(None, 1)] [A ''ID''] True [[U [1588, 1606, 1575, 1587, 1607]]]]"

definition fa_TransactionView_2 :: "message list" where
  "fa_TransactionView_2 = [
     Message False [(None, 4)] [A ''Error exporting''] False [[]],
     Message False [(None, 0)] [A ''Could not write to file %1.''] False [[]],
     Message False [(None, 100)] [A ''Range:''] True [[U [1605, 1581, 1583, 1608, 1583, 1607], A '':'']],
     Message False [(None, 8)] [A ''to''] True [[U [1576, 1607]]]]"

section \<open>WalletModel\<close>

definition fa_WalletModel :: "message list" where
  "fa_WalletModel = [
     Message False [(Some ''../walletmodel.cpp'', 212)] [A ''Sending...''] False [[]]]"

section \<open>bitcoin-core\<close>

definition fa_bitcoin_core_1 :: "message list" where
  "fa_bitcoin_core_1 = [
     Message False [(Some ''../bitcoinstrings.cpp'', 8)] [A ''Bws version''] False [[]],
     Message False [(None, 1)] [A ''Usage:''] True [[U [1575, 1587, 1578, 1601, 1575, 1583, 1607], A '':'']],
     Message False [(None, 1)] [A ''Send command to -server or bwsd''] False [[]],
     Message False [(None, 1)] [A ''List commands''] True [[U [1606, 1605, 1575, 1740, 1588, 32, 1604, 1740,
       1587, 1578, 32, 1601, 1585, 1605, 1575, 1606, 8204, 1607, 1575]]],
     Message False [(None, 1)] [A ''Get help for a command''] True [[U [1585, 1575, 1607, 1606, 1605, 1575,
       1740, 1740, 32, 1583, 1585, 32, 1605, 1608, 1585, 1583, 32, 1740, 1705, 32, 1583, 1587, 1578, 1608,
       1585]]],
     Message False [(None, 1)] [A ''Options:''] True [[U [1711, 1586, 1740, 1606, 1607, 8204, 1607, 1575],
       A '':'']],
     Message False [(None, 2)] [A ''Specify configuration file (default: bws.conf)''] False [[]],
     Message False [(None, 1)] [A ''Specify pid file (default: bwsd.pid)''] False [[]],
     Message False [(None, 2)] [A ''Specify wallet file (within data directory)''] False [[]],
     Message False [(None, - 1)] [A ''Specify data directory''] True [[U [1605, 1588, 1582, 1589, 32, 1705,
       1585, 1583, 1606, 32, 1583, 1575, 1740, 1585, 1705, 1578, 1608, 1585, 1740, 32, 1583, 1575, 1583,
       1607, 8204, 1607, 1575]]],
     Message False [(None, 163)] [A ''%s, you must set a rpcpassword in the configuration file:'', U [10],
       A ''%s'', U [10], A ''It is recommended you use the following random password:'', U [10],
       A ''rpcuser=bwsrpc'', U [10], A ''rpcpassword=%s'', U [10],
       A ''(you do not need to remember this password)'', U [10],
       A ''The username and password MUST NOT be the same.'', U [10],
       A ''If the file does not exist, create it with owner-readable-only file permissions.'', U [10],
       A ''It is also recommended to set alertnotify so you are notified of problems;'', U [10],
       A ''for example: alertnotify=echo %%s | mail -s '', U [34], A ''Bws Alert'', U [34],
       A '' admin@foo.com'', U [10]] False [[]],
     Message False [(None, - 161)] [A ''Set database cache size in megabytes (default: 25)''] True
       [[U [1578, 1606, 1592, 1740, 1605, 32, 1575, 1606, 1583, 1575, 1586, 1607, 1620, 32, 1705, 1614,
       1588, 32, 1662, 1575, 1740, 1711, 1575, 1607, 8204, 1583, 1575, 1583, 1607, 32, 1576, 1585, 1581,
       1587, 1576, 32, 1605, 1711, 1575, 1576, 1575, 1740, 1578], A '' ('', U [1662, 1740, 1588, 8204, 1601,
       1585, 1590], A '': '', U [1778, 1781], A '')'']],
     Message False [(None, 1)] [A ''Set database disk log size in megabytes (default: 100)''] False [[]],
     Message False [(None, 5)] [A ''Listen for connections on <port> (default: 48200 or testnet: 58200)'']
       False [[]],
     Message False [(None, 1)] [A ''Maintain at most <n> connections to peers (default: 125)''] True
       [[U [1581, 1583, 1575, 1705, 1579, 1585], A '' <n> '', U [1575, 1578, 1589, 1575, 1604, 32, 1576,
       1575, 32, 1607, 1605, 1578, 1575, 1740, 1575, 1606, 32, 1576, 1585, 1602, 1585, 1575, 1585, 32, 1588,
       1608, 1583], A '' ('', U [1662, 1740, 1588, 8204, 1601, 1585, 1590], A '': '', U [1777, 1778, 1781],
       A '')'']],
     Message False [(None, 3)] [A ''Connect to a node to retrieve peer addresses, and disconnect''] True
       [[U [1575, 1578, 1589, 1575, 1604, 32, 1576, 1607, 32, 1740, 1705, 32, 1711, 1585, 1607, 32, 1576,
       1585, 1575, 1740, 32, 1583, 1585, 1740, 1575, 1601, 1578, 32, 1570, 1583, 1585, 1587, 8204, 1607,
       1575, 1740, 32, 1607, 1605, 1578, 1575, 32, 1608, 32, 1602, 1591, 1593, 32, 1575, 1578, 1589, 1575,
       1604, 32, 1662, 1587, 32, 1575, 1586, 32, 1575, 1578, 1605, 1575, 1605, 32, 1593, 1605, 1604, 1740,
       1575, 1578]]],
     Message False [(None, 1)] [A ''Specify your own public address''] True [[U [1570, 1583, 1585, 1587, 32,
       1593, 1605, 1608, 1605, 1740, 32, 1582, 1608, 1583, 32, 1585, 1575, 32, 1605, 1588, 1582, 1589, 32,
       1705, 1606, 1740, 1583]]],
     Message False [(None, 4)] [A ''Bind to given address. Use [host]:port notation for IPv6''] False [[]],
     Message False [(None, 1)]
       [A ''Query for peer addresses via DNS lookup, if low on addresses (default: 1 unless -connect)'']
       False [[]],
     Message False [(None, 3)] [A ''Always query for peer addresses via DNS lookup (default: 0)''] False
       [[]],
     Message False [(None, 4)] [A ''Threshold for disconnecting misbehaving peers (default: 100)''] True
       [[U [1581, 1583, 32, 1570, 1587, 1578, 1575, 1606, 1607, 32, 1576, 1585, 1575, 1740, 32, 1602, 1591,
       1593, 32, 1575, 1585, 1578, 1576, 1575, 1591, 32, 1576, 1575, 32, 1607, 1605, 1578, 1575, 1740, 1575,
       1606, 32, 1576, 1583, 1585, 1601, 1578, 1575, 1585], A '' ('', U [1662, 1740, 1588, 8204, 1601, 1585,
       1590], A '': '', U [1777, 1776, 1776], A '')'']],
     Message False [(None, 1)]
       [A ''Number of seconds to keep misbehaving peers from reconnecting (default: 86400)''] True
       [[U [1605, 1583, 1578, 32, 1586, 1605, 1575, 1606, 32, 1580, 1604, 1608, 1711, 1740, 1585, 1740, 32,
       1575, 1586, 32, 1575, 1578, 1589, 1575, 1604, 32, 1605, 1580, 1583, 1583, 32, 1607, 1605, 1578, 1575,
       1740, 1575, 1606, 32, 1576, 1583, 1585, 1601, 1578, 1575, 1585, 1548, 32, 1576, 1607, 32, 1579, 1575,
       1606, 1740, 1607], A '' ('', U [1662, 1740, 1588, 8204, 1601, 1585, 1590], A '': '', U [1784, 1780,
       1782, 1776, 1776], A '')'']],
     Message False [(None, 153)]
       [A ''An error occurred while setting up the RPC port %u for listening on IPv4: %s''] True [[U [1607,
       1606, 1711, 1575, 1605, 32, 1578, 1606, 1592, 1740, 1605, 32, 1662, 1608, 1585, 1578],
       A '' RPC %u '', U [1576, 1585, 1575, 1740, 32, 1711, 1608, 1588, 32, 1583, 1575, 1583, 1606, 32,
       1585, 1608, 1740], A '' IPv4 '', U [1582, 1591, 1575, 1740, 1740, 32, 1585, 1582, 32, 1583, 1575,
       1583, 1607, 32, 1575, 1587, 1578], A '': %s'']],
     Message False [(None, - 126)]
       [A ''Listen for JSON-RPC connections on <port> (default: 48210 or testnet: 27058)''] False [[]],
     Message False [(None, - 16)] [A ''Accept command line and JSON-RPC commands''] True [[U [1662, 1584,
       1740, 1585, 1588, 32, 1583, 1587, 1578, 1608, 1585, 1575, 1578, 32, 1582, 1591, 32, 1601, 1585, 1605,
       1575, 1606, 32, 1608, 32, 1583, 1587, 1578, 1608, 1585, 1575, 1578], A '' JSON-RPC'']],
     Message False [(None, 1)] [A ''Run in the background as a daemon and accept commands''] True [[U [1575,
       1580, 1585, 1575, 32, 1583, 1585, 32, 1662, 1588, 1578, 32, 1586, 1605, 1740, 1606, 1607, 32, 1576,
       1607, 8204, 1589, 1608, 1585, 1578, 32, 1740, 1705, 32, 1587, 1585, 1608, 1740, 1587, 32, 1608, 32,
       1662, 1584, 1740, 1585, 1588, 32, 1583, 1587, 1578, 1608, 1585, 1575, 1578]]],
     Message False [(None, 1)] [A ''Use the test network''] True [[U [1575, 1587, 1578, 1601, 1575, 1583,
       1607, 32, 1575, 1586, 32, 1588, 1576, 1705, 1607, 1620, 32, 1570, 1586, 1605, 1575, 1740, 1588]]]]"

definition fa_bitcoin_core_2 :: "message list" where
  "fa_bitcoin_core_2 = [
     Message False [(None, - 23)]
       [A ''Accept connections from outside (default: 1 if no -proxy or -connect)''] True [[U [1662, 1584,
       1740, 1585, 1588, 32, 1575, 1578, 1589, 1575, 1604, 1575, 1578, 32, 1575, 1586, 32, 1576, 1740, 1585,
       1608, 1606], A '' ('', U [1662, 1740, 1588, 32, 1601, 1585, 1590], A '':1 '', U [1576, 1583, 1608,
       1606, 32, 1662, 1585, 1575, 1705, 1587, 1740, 32, 1740, 1575, 32, 1575, 1578, 1589, 1575, 1604],
       A '')'']],
     Message False [(None, 160)]
       [A ''An error occurred while setting up the RPC port %u for listening on IPv6, falling back to IPv4: %s'']
       False [[]],
     Message False [(None, - 84)]
       [A ''Warning: -paytxfee is set very high! This is the transaction fee you will pay if you send a transaction.'']
       True [[U [1607, 1588, 1583, 1575, 1585], A '': '', U [1605, 1576, 1604, 1594], A '' paytxfee '',
       U [1576, 1587, 1740, 1575, 1585, 32, 1576, 1575, 1604, 1575, 1740, 1740, 32, 1578, 1606, 1592, 1740,
       1605, 32, 1588, 1583, 1607, 32, 1575, 1587, 1578], A ''! '', U [1575, 1740, 1606, 32, 1605, 1576,
       1604, 1594, 32, 1607, 1586, 1740, 1606, 1607, 8204, 1575, 1740, 32, 1575, 1587, 1578, 32, 1705, 1607,
       32, 1588, 1605, 1575, 32, 1576, 1585, 1575, 1740, 32, 1578, 1585, 1575, 1705, 1606, 1588, 8204, 1607,
       1575, 32, 1662, 1585, 1583, 1575, 1582, 1578, 32, 1605, 1740, 8204, 1705, 1606, 1740, 1583],
       A ''.'']],
     Message False [(None, 46)] [A ''Warning: Please check that your computer'', U [39],
       A ''s date and time are correct! If your clock is wrong Bws will not work properly.''] False [[]],
     Message False [(None, - 19)]
       [A ''Warning: error reading wallet.dat! All keys read correctly, but transaction data or address book entries might be missing or incorrect.'']
       False [[]],
     Message False [(None, - 16)]
       [A ''Warning: wallet.dat corrupt, data salvaged! Original wallet.dat saved as wallet.{timestamp}.bak in %s; if your balance or transactions are incorrect you should restore from a backup.'']
       False [[]],
     Message False [(None, - 31)] [A ''Attempt to recover private keys from a corrupt wallet.dat''] False
       [[]],
     Message False [(None, 5)] [A ''Block creation options:''] True [[U [1576, 1587, 1578, 1606, 32, 1711,
       1586, 1740, 1606, 1607, 32, 1575, 1740, 1580, 1575, 1583]]],
     Message False [(None, - 66)] [A ''Connect only to the specified node(s)''] True [[U [1578, 1606, 1607,
       1575, 32, 1583, 1585, 32, 1711, 1585, 1607], A '' ('', U [1607, 1575, 1740], A '') '', U [1605, 1588,
       1582, 1589, 32, 1588, 1583, 1607, 32, 1605, 1578, 1589, 1604, 32, 1588, 1608, 1740, 1583]]],
     Message False [(None, 4)]
       [A ''Discover own IP address (default: 1 when listening and no -externalip)''] True [[U [1570, 1583,
       1585, 1587, 32, 1570, 1740], A ''.'', U [1662, 1740], A ''. '', U [1582, 1608, 1583, 32, 1585, 1575,
       32, 1588, 1606, 1575, 1587, 1575, 1740, 1740, 32, 1705, 1606, 1740, 1583], A '' ('', U [1662, 1740,
       1588, 32, 1601, 1585, 1590], A '':1 '', U [1583, 1585, 32, 1586, 1605, 1575, 1606],
       A '' when listening '', U [1608], A ''no -externalip)'']],
     Message False [(None, 97)] [A ''Failed to listen on any port. Use -listen=0 if you want this.''] True
       [[U [1588, 1606, 1740, 1583, 1606, 32, 1607, 1585, 32, 1711, 1608, 1606, 1607, 32, 1583, 1585, 1711,
       1575, 1607, 32, 1575, 1606, 1580, 1575, 1605, 32, 1662, 1584, 1740, 1585, 32, 1606, 1740, 1587,
       1578], A ''. '', U [1575, 1586], A ''listen=0  '', U [1576, 1585, 1575, 1740, 32, 1575, 1740, 1606,
       1705, 1575, 1585, 32, 1575, 1587, 1578, 1601, 1575, 1583, 1607, 32, 1705, 1740, 1606, 1583],
       A ''.'']],
     Message False [(None, - 2)] [A ''Invalid -tor address: '', U [39], A ''%s'', U [39]] False [[]],
     Message False [(None, 4)] [A ''Invalid amount for -reservebalance=<amount>''] False [[]],
     Message False [(None, - 85)]
       [A ''Maximum per-connection receive buffer, <n>*1000 bytes (default: 5000)''] True [[U [1581, 1583,
       1575, 1705, 1579, 1585, 32, 1576, 1575, 1601, 1585, 32, 1583, 1585, 1740, 1575, 1601, 1578, 32, 1588,
       1583, 1607, 32, 1576, 1585, 32, 1575, 1587, 1575, 1587, 32, 1575, 1578, 1589, 1575, 1604],
       A '' <n>*  1000 '', U [1576, 1575, 1740, 1578], A ''  ('', U [1662, 1740, 1588, 32, 1601, 1585,
       1590], A '':5000)'']],
     Message False [(None, 1)] [A ''Maximum per-connection send buffer, <n>*1000 bytes (default: 1000)'']
       True [[U [1581, 1583, 1575, 1705, 1579, 1585, 32, 1576, 1575, 1601, 1585, 32, 1583, 1585, 1740, 1575,
       1601, 1578, 32, 1588, 1583, 1607, 32, 1576, 1585, 32, 1575, 1587, 1575, 1587, 32, 1575, 1578, 1589,
       1575, 1604], A '' <n>*  1000 '', U [1576, 1575, 1740, 1578], A ''  ('', U [1662, 1740, 1588, 32,
       1601, 1585, 1590], A '':1000)'']],
     Message False [(None, - 16)] [A ''Only connect to nodes in network <net> (IPv4, IPv6 or Tor)''] True
       [[U [1578, 1606, 1607, 1575], A '' ='', U [1576, 1607, 32, 1711, 1585, 1607, 32, 1607, 1575, 32,
       1583, 1585, 32, 1588, 1576, 1705, 1607, 32, 1605, 1578, 1589, 1575, 32, 1588, 1608, 1740, 1583],
       A ''  <net> (IPv4, IPv6 or Tor)'']],
     Message False [(None, 30)] [A ''Prepend debug output with timestamp''] False [[]],
     Message False [(None, 36)] [A ''SSL options: (see the Bitcoin Wiki for SSL setup instructions)''] True
       [[U [1711, 1586, 1740, 1606, 1607], A '' ssl ('', U [1576, 1607, 32, 1608, 1740, 1705, 1740],
       A ''bitcoin '', U [1576, 1585, 1575, 1740, 32, 1585, 1575, 1607, 1606, 1605, 1575, 1740, 32, 1585,
       1575, 1607, 32, 1575, 1606, 1583, 1575, 1586, 1740], A '' ssl '', U [1605, 1585, 1575, 1580, 1593,
       1607, 32, 1588, 1608, 1583], A '')'']],
     Message False [(None, - 34)] [A ''Send trace/debug info to console instead of debug.log file''] True
       [[U [1575, 1591, 1604, 1575, 1593, 1575, 1578, 32, 1585, 1583, 1711, 1740, 1585, 1740], A ''/'',
       U [1575, 1588, 1705, 1575, 1604, 8204, 1586, 1583, 1575, 1740, 1740, 32, 1585, 1575, 32, 1576, 1607,
       32, 1580, 1575, 1740, 32, 1601, 1575, 1740, 1604, 32, 1604, 1575, 1711, 32, 1575, 1588, 1705, 1575,
       1604, 8204, 1586, 1583, 1575, 1740, 1740, 32, 1576, 1607, 32, 1705, 1606, 1587, 1608, 1604, 32, 1576,
       1601, 1585, 1587, 1578, 1740, 1583]]],
     Message False [(None, 33)] [A ''Set maximum block size in bytes (default: 250000)''] False [[]],
     Message False [(None, - 1)] [A ''Set minimum block size in bytes (default: 0)''] True [[U [1581, 1583,
       1575, 1602, 1604, 32, 1587, 1575, 1740, 1586, 32, 1576, 1604, 1575, 1705, 32, 1576, 1585, 32, 1575,
       1587, 1575, 1587, 32, 1576, 1575, 1740, 1578, 32, 1578, 1606, 1592, 1740, 1605, 32, 1588, 1608,
       1583], A '' ('', U [1662, 1740, 1588, 32, 1601, 1585, 1590], A '': 0)'']],
     Message False [(None, - 33)]
       [A ''Shrink debug.log file on client startup (default: 1 when no -debug)''] True [[U [1601, 1575,
       1740, 1604], A '' debug.log  '', U [1585, 1575, 32, 1583, 1585], A '' startup '', U [1605, 1588,
       1578, 1585, 1740, 32, 1705, 1608, 1670, 1705, 32, 1705, 1606], A '' ('', U [1662, 1740, 1588, 32,
       1601, 1585, 1590], A '':1 '', U [1575, 1711, 1585, 32, 1575, 1588, 1705, 1575, 1604, 32, 1586, 1583,
       1575, 1740, 1740, 32, 1585, 1608, 1740, 32, 1606, 1583, 1575, 1583], A '')'']],
     Message False [(None, - 41)] [A ''Specify connection timeout in milliseconds (default: 5000)''] True
       [[A ''('', U [1605, 1740, 1604, 1740, 32, 1579, 1575, 1606, 1740, 1607], A '' )'', U [1601, 1575,
       1589, 1604, 1607, 32, 1575, 1585, 1578, 1576, 1575, 1591, 32, 1582, 1575, 1589]]],
     Message False [(None, 28)] [A ''Use UPnP to map the listening port (default: 0)''] True [[U [1575,
       1586], A '' UPnP  '', U [1576, 1585, 1575, 1740, 32, 1588, 1606, 1575, 1587, 1575, 1740, 1740, 32,
       1583, 1585, 1711, 1575, 1607, 32, 1588, 1606, 1740, 1583, 1575, 1585, 1740, 32, 1575, 1587, 1578,
       1601, 1575, 1583, 1607, 32, 1705, 1606, 1740, 1583], A '' ('', U [1662, 1740, 1588, 32, 1601, 1585,
       1590], A '':0)'']],
     Message False [(None, - 1)] [A ''Use UPnP to map the listening port (default: 1 when listening)''] True
       [[U [1575, 1586], A '' UPnP  '', U [1576, 1585, 1575, 1740, 32, 1588, 1606, 1575, 1587, 1575, 1740,
       1740, 32, 1583, 1585, 1711, 1575, 1607, 32, 1588, 1606, 1740, 1583, 1575, 1585, 1740, 32, 1575, 1587,
       1578, 1601, 1575, 1583, 1607, 32, 1705, 1606, 1740, 1583], A '' ('', U [1662, 1740, 1588, 32, 1601,
       1585, 1590], A '':1 '', U [1583, 1585, 32, 1586, 1605, 1575, 1606, 32, 1588, 1606, 1740, 1583, 1606],
       A '')'']],
     Message False [(None, - 25)] [A ''Use proxy to reach tor hidden services (default: same as -proxy)'']
       False [[]],
     Message False [(None, 45)] [A ''Username for JSON-RPC connections''] True [[A ''JSON-RPC '', U [1588,
       1606, 1575, 1587, 1607, 32, 1576, 1585, 1575, 1740, 32, 1575, 1585, 1578, 1576, 1575, 1591, 1575,
       1578]]],
     Message False [(None, 50)] [A ''Verifying database integrity...''] False [[]],
     Message False [(None, 43)] [A ''Error: Wallet locked, unable to create transaction!''] False [[]]]"

definition fa_bitcoin_core_3 :: "message list" where
  "fa_bitcoin_core_3 = [
     Message False [(None, 2)]
       [A ''Error: This transaction requires a transaction fee of at least %s because of its amount, complexity, or use of recently received funds!'']
       False [[]],
     Message False [(None, 3)] [A ''Error: Transaction creation failed!''] False [[]],
     Message False [(None, 2)]
       [A ''Error: The transaction was rejected! This might happen if some of the coins in your wallet were already spent, such as if you used a copy of wallet.dat and coins were spent in the copy but not marked as spent here.'']
       False [[]],
     Message False [(None, - 15)] [A ''Warning''] False [[]],
     Message False [(None, 1)] [A ''Information''] False [[]],
     Message False [(None, - 7)] [A ''Warning: This version is obsolete, upgrade required!''] True
       [[U [1607, 1588, 1583, 1575, 1585], A '': '', U [1575, 1740, 1606, 32, 1606, 1587, 1582, 1607, 32,
       1602, 1583, 1740, 1605, 1740, 32, 1575, 1587, 1578, 1548, 32, 1585, 1608, 1586, 1570, 1605, 1583,
       1587, 1575, 1586, 1740, 32, 1605, 1608, 1585, 1583, 32, 1606, 1740, 1575, 1586, 32, 1575, 1587,
       1578]]],
     Message False [(None, - 23)] [A ''wallet.dat corrupt, salvage failed''] False [[]],
     Message False [(None, - 55)] [A ''Password for JSON-RPC connections''] True [[A ''JSON-RPC '', U [1593,
       1576, 1575, 1585, 1578, 32, 1593, 1576, 1608, 1585, 32, 1576, 1585, 1575, 1740, 32, 1575, 1585, 1578,
       1576, 1575, 1591, 1575, 1578]]],
     Message False [(None, - 47)] [A ''Connect through SOCKS5 proxy''] False [[]],
     Message False [(None, 17)]
       [A ''Sync time with other nodes. Disable if time on your system is precise e.g. syncing with NTP (default: 1)'']
       False [[]],
     Message False [(None, 12)]
       [A ''When creating transactions, ignore inputs with value less than this (default: 0.01)''] False
       [[]],
     Message False [(None, 6)]
       [A ''Output debugging information (default: 0, supplying <category> is optional)''] False [[]],
     Message False [(None, 2)] [A ''If <category> is not supplied, output all debugging information.'']
       False [[]],
     Message False [(None, 1)] [A ''<category> can be:''] False [[]],
     Message False [(None, 4)]
       [A ''Enter regression test mode, which uses a special chain in which blocks can be solved instantly. This is intended for regression testing tools and app development.'']
       False [[]],
     Message False [(None, 8)] [A ''Allow JSON-RPC connections from specified IP address''] True [[U [1575,
       1586, 32, 1570, 1583, 1585, 1587, 32, 1570, 1740, 32, 1662, 1740, 32, 1582, 1575, 1589],
       A '' JSON-RPC '', U [1602, 1576, 1608, 1604, 32, 1575, 1585, 1578, 1576, 1575, 1591, 1575, 1578]]],
     Message False [(None, 1)] [A ''Send commands to node running on <ip> (default: 127.0.0.1)''] True
       [[A ''(127.0.0.1'', U [1662, 1740, 1588, 32, 1601, 1585, 1590], A '': ) &lt;ip&gt; '', U [1583, 1575,
       1583, 1606, 32, 1601, 1585, 1605, 1575, 1606, 1607, 1575, 32, 1576, 1585, 1575, 1740, 32, 1575, 1587,
       1578, 1601, 1575, 1583, 1607, 32, 1711, 1585, 1607, 32, 1607, 1575, 32, 1585, 1608, 1740]]],
     Message False [(None, 1)] [A ''Wait for RPC server to start''] False [[]],
     Message False [(None, 1)] [A ''Set the number of threads to service RPC calls (default: 4)''] False
       [[]],
     Message False [(None, 1)]
       [A ''Execute command when the best block changes (%s in cmd is replaced by block hash)''] True
       [[U [1586, 1605, 1575, 1606, 1740, 32, 1705, 1607, 32, 1576, 1607, 1578, 1585, 1740, 1606, 32, 1576,
       1604, 1575, 1705, 32, 1578, 1594, 1740, 1740, 1585, 32, 1705, 1585, 1583, 1548, 32, 1583, 1587, 1578,
       1608, 1585, 32, 1585, 1575, 32, 1575, 1580, 1585, 1575, 32, 1705, 1606], A '' (%s '', U [1583, 1585],
       A '' cmd '', U [1576, 1575], A '' block hash '', U [1580, 1575, 1740, 1711, 1586, 1740, 1606, 32,
       1588, 1583, 1607, 32, 1575, 1587, 1578], A '')'']],
     Message False [(None, 3)]
       [A ''Execute command when a wallet transaction changes (%s in cmd is replaced by TxID)''] True
       [[U [1607, 1606, 1711, 1575, 1605, 1740, 32, 1705, 1607, 32, 1740, 1705, 32, 1578, 1585, 1575, 1705,
       1606, 1588, 32, 1583, 1585, 32, 1705, 1740, 1601, 32, 1662, 1608, 1604, 1740, 32, 1585, 1582, 32,
       1605, 1740, 32, 1583, 1607, 1583, 1548, 32, 1583, 1587, 1578, 1608, 1585, 32, 1585, 1575, 32, 1575,
       1580, 1585, 1575, 32, 1705, 1606], A ''(%s '', U [1583, 1585, 32, 1583, 1587, 1578, 1608, 1585, 1575,
       1578, 32, 1576, 1608, 1587, 1740, 1604, 1607, 32, 1740], A '' TxID '', U [1580, 1575, 1740, 1711,
       1586, 1740, 1606, 32, 1605, 1740, 32, 1588, 1608, 1583], A '')'']],
     Message False [(None, 3)] [A ''Require a confirmations for change (default: 0)''] False [[]],
     Message False [(None, 1)]
       [A ''Execute command when a relevant alert is received (%s in cmd is replaced by message)''] False
       [[]],
     Message False [(None, 3)] [A ''Upgrade wallet to latest format''] True [[A ''wallet  '', U [1585, 1575,
       32, 1576, 1607, 32, 1580, 1583, 1740, 1583, 1578, 1585, 1740, 1606, 32, 1601, 1585, 1605, 1578, 32,
       1585, 1608, 1586, 1570, 1605, 1583, 32, 1705, 1606, 1740, 1583]]],
     Message False [(None, 1)] [A ''Set key pool size to <n> (default: 100)''] True [[A '' (100'', U [1662,
       1740, 1588, 32, 1601, 1585, 1590], A '':)&lt;n&gt; '', U [1711, 1584, 1575, 1588, 1578, 1606, 32,
       1575, 1606, 1583, 1575, 1586, 1607, 32, 1705, 1604, 1740, 1583, 32, 1585, 1608, 1740], A '' '']],
     Message False [(None, 1)] [A ''Rescan the block chain for missing wallet transactions''] True
       [[U [1575, 1587, 1705, 1575, 1606, 32, 1605, 1580, 1583, 1583, 32, 1586, 1606, 1580, 1740, 1585, 32,
       1576, 1604, 1608, 1705, 1607, 1575, 32, 1576, 1585, 1575, 1740, 32, 1711, 1605, 32, 1608, 1575, 1604,
       1578, 32, 1605, 1593, 1575, 1605, 1604, 1607]]],
     Message False [(None, 3)] [A ''How thorough the block verification is (0-6, default: 1)''] False [[]],
     Message False [(None, 1)] [A ''Imports blocks from external blk000?.dat file''] False [[]],
     Message False [(None, 1)] [A ''Keep at most <n> MiB of unconnectable blocks in memory (default: %u)'']
       False [[]]]"

definition fa_bitcoin_core_4 :: "message list" where
  "fa_bitcoin_core_4 = [
     Message False [(None, 5)] [A ''Use OpenSSL (https) for JSON-RPC connections''] True [[A ''JSON-RPC'',
       U [1576, 1585, 1575, 1740, 32, 1575, 1585, 1578, 1576, 1575, 1591, 1575, 1578], A ''   '', U [1575,
       1587, 1578, 1601, 1575, 1583, 1607, 32, 1705, 1606, 1740, 1583], A '' OpenSSL (https)'']],
     Message False [(None, 1)] [A ''Server certificate file (default: server.cert)''] True
       [[A '' (server.cert'', U [1662, 1740, 1588, 32, 1601, 1585, 1590], A '': )'', U [1711, 1608, 1575,
       1607, 1740, 32, 1606, 1575, 1605, 1607, 32, 1587, 1585, 1608, 1585]]],
     Message False [(None, 1)] [A ''Server private key (default: server.pem)''] True [[A ''(server.pem'',
       U [1662, 1740, 1588, 32, 1601, 1585, 1590], A '': ) '', U [1705, 1604, 1740, 1583, 32, 1582, 1589,
       1608, 1589, 1740, 32, 1587, 1585, 1608, 1585]]],
     Message False [(None, 5)] [A ''Error: Unsupported argument -socks found. Setting SOCKS version isn'',
       U [39], A ''t possible anymore, only SOCKS5 proxies are supported.''] False [[]],
     Message False [(None, 8)] [A ''Initialization sanity check failed. Bws is shutting down.''] False [[]],
     Message False [(None, 20)] [A ''Error loading block database''] False [[]],
     Message False [(None, 29)]
       [A ''Error: Wallet unlocked for staking only, unable to create transaction.''] False [[]],
     Message False [(None, - 14)] [A ''Error: Disk space is low!''] False [[]],
     Message False [(None, 1)]
       [A ''This is a pre-release test build - use at your own risk - do not use for mining or merchant applications'']
       False [[]],
     Message False [(None, - 135)] [A ''This help message''] True [[U [1662, 1740, 1575, 1605, 32, 1705,
       1605, 1705, 1740]]],
     Message False [(None, 100)] [A ''Wallet %s resides outside data directory %s.''] False [[]],
     Message False [(None, 46)] [A ''Unable to bind to %s on this computer (bind returned error %d, %s)'']
       True [[U [1575, 1605, 1705, 1575, 1606, 32, 1575, 1578, 1589, 1575, 1604, 32, 1576, 1607],
       A '' %s '', U [1575, 1586, 32, 1575, 1740, 1606, 32, 1585, 1575, 1740, 1575, 1606, 1607, 32, 1608,
       1580, 1608, 1583, 32, 1606, 1583, 1575, 1585, 1583], A '' ( bind returned error %d, %s)'']],
     Message False [(None, - 136)] [A ''Allow DNS lookups for -addnode, -seednode and -connect''] True
       [[U [1576, 1607], A '' DNS '', U [1575, 1580, 1575, 1586, 1607, 32, 1576, 1583, 1607, 32, 1578, 1575,
       32, 1576, 1585, 1575, 1740], A '' addnode '', U [1548], A '' seednode '', U [1608, 32, 1575, 1578,
       1589, 1575, 1604, 32, 1580, 1587, 1578, 1580, 1608, 32, 1705, 1606, 1583]]],
     Message False [(None, 121)] [A ''Loading addresses...''] True [[U [1576, 1575, 1585, 32, 1711, 1740,
       1585, 1740, 32, 1570, 1583, 1585, 1587, 32, 1607, 1575]]],
     Message False [(None, - 10)] [A ''Error loading wallet.dat: Wallet corrupted''] True [[U [1582, 1591,
       1575, 32, 1583, 1585, 32, 1576, 1575, 1585, 1711, 1740, 1585, 1740], A '' wallet.dat: '', U [1705,
       1740, 1601, 32, 1662, 1608, 1604, 32, 1582, 1585, 1575, 1576, 32, 1588, 1583, 1607, 32, 1575, 1587,
       1578]]],
     Message False [(None, 4)] [A ''Error loading wallet.dat: Wallet requires newer version of Bws''] False
       [[]],
     Message False [(None, 1)] [A ''Wallet needed to be rewritten: restart Bws to complete''] False [[]],
     Message False [(None, 1)] [A ''Error loading wallet.dat''] True [[U [1582, 1591, 1575, 32, 1583, 1585,
       32, 1576, 1575, 1585, 1711, 1740, 1585, 1740], A '' wallet.dat'']],
     Message False [(None, - 15)] [A ''Invalid -proxy address: '', U [39], A ''%s'', U [39]] True [[U [1570,
       1583, 1585, 1587, 32, 1662, 1585, 1575, 1705, 1587, 1740, 32, 1575, 1588, 1578, 1576, 1575, 1607],
       A '' %s'']],
     Message False [(None, - 1)] [A ''Unknown network specified in -onlynet: '', U [39], A ''%s'', U [39]]
       True [[U [1588, 1576, 1705, 1607, 32, 1605, 1588, 1582, 1589, 32, 1588, 1583, 1607, 32, 1594, 1740,
       1585, 1602, 1575, 1576, 1604, 32, 1588, 1606, 1575, 1587, 1575, 1740, 1740, 32, 1583, 1585],
       A '' onlynet: '', U [39], A ''%s'', U [39]]],
     Message False [(None, 3)] [A ''Cannot resolve -bind address: '', U [39], A ''%s'', U [39]] True
       [[U [1570, 1583, 1585, 1587, 32, 1602, 1575, 1576, 1604, 32, 1575, 1578, 1589, 1575, 1604], A ''- '',
       U [1588, 1606, 1575, 1587, 1575, 1740, 1740, 32, 1606, 1740, 1587, 1578], A '' %s'']],
     Message False [(None, 2)] [A ''Cannot resolve -externalip address: '', U [39], A ''%s'', U [39]] True
       [[U [1570, 1583, 1585, 1587, 32, 1582, 1575, 1585, 1580, 1740, 32, 1602, 1575, 1576, 1604, 32, 1575,
       1578, 1589, 1575, 1604], A ''- '', U [1588, 1606, 1575, 1587, 1575, 1740, 1740, 32, 1606, 1740, 1587,
       1578], A '' %s'']],
     Message False [(None, - 22)] [A ''Invalid amount for -paytxfee=<amount>: '', U [39], A ''%s'', U [39]]
       True [[U [1605, 1740, 1586, 1575, 1606, 32, 1608, 1580, 1607, 32, 1575, 1588, 1578, 1576, 1575, 1607,
       32, 1576, 1585, 1575, 1740], A '' paytxfee=<'', U [1605, 1740, 1586, 1575, 1606, 32, 1608, 1580,
       1607], A ''>: %s'']],
     Message False [(None, 59)] [A ''Sending...''] False [[]],
     Message False [(None, 5)] [A ''Invalid amount''] True [[U [1605, 1740, 1586, 1575, 1606, 32, 1608,
       1580, 1607, 32, 1575, 1588, 1578, 1576, 1575, 1607]]],
     Message False [(None, 1)] [A ''Insufficient funds''] True [[U [1576, 1608, 1583, 32, 1580, 1607, 32,
       1606, 1575, 32, 1705, 1575, 1601, 1740], A '' '']],
     Message False [(None, - 41)] [A ''Loading block index...''] True [[U [1576, 1575, 1585, 32, 1711, 1740,
       1585, 1740, 32, 1588, 1575, 1582, 1589, 32, 1576, 1604, 1608, 1705]]],
     Message False [(None, - 105)] [A ''Add a node to connect to and attempt to keep the connection open'']
       True [[U [1576, 1607, 32, 1575, 1578, 1589, 1575, 1604, 32, 1740, 1705, 32, 1711, 1585, 1607, 32,
       1575, 1590, 1575, 1601, 1607, 32, 1705, 1606, 1740, 1583, 32, 1608, 32, 1575, 1578, 1589, 1575, 1604,
       32, 1585, 1575, 32, 1576, 1575, 1586, 32, 1606, 1711, 1575, 1607, 32, 1583, 1575, 1585, 1740, 1583]]],
     Message False [(None, 131)]
       [A ''Unable to bind to %s on this computer. Bws is probably already running.''] False [[]]]"

definition fa_bitcoin_core_5 :: "message list" where
  "fa_bitcoin_core_5 = [
     Message False [(None, - 108)] [A ''Fee per KB to add to transactions you send''] False [[]],
     Message False [(None, 40)] [A ''How many blocks to check at startup (default: 500, 0 = all)''] False
       [[]],
     Message False [(None, 11)]
       [A ''Acceptable ciphers (default: TLSv1.2+HIGH:TLSv1+HIGH:!SSLv2:!aNULL:!eNULL:!3DES:@STRENGTH)'']
       False [[]],
     Message False [(None, 3)] [A ''Warning: Deprecated argument -debugnet ignored, use -debug=net''] False
       [[]],
     Message False [(None, 8)] [A ''Invalid amount for -mininput=<amount>: '', U [39], A ''%s'', U [39]]
       False [[]],
     Message False [(None, 3)]
       [A ''Cannot obtain a lock on data directory %s. Bws is probably already running.''] False [[]],
     Message False [(None, 4)] [A ''Error initializing wallet database environment %s!''] False [[]],
     Message False [(None, 15)] [A ''Loading wallet...''] True [[U [1576, 1575, 1585, 32, 1711, 1740, 1585,
       1740, 32, 1608, 1575, 1604, 1578]]],
     Message False [(None, 8)] [A ''Cannot downgrade wallet''] True [[U [1575, 1605, 1705, 1575, 1606, 32,
       1578, 1606, 1586, 1604, 32, 1606, 1587, 1582, 1607, 32, 1583, 1585], A '' wallet '', U [1608, 1580,
       1608, 1583, 32, 1606, 1583, 1575, 1585, 1583]]],
     Message False [(None, 1)] [A ''Cannot write default address''] True [[U [1570, 1583, 1585, 1587, 32,
       1662, 1740, 1588, 32, 1601, 1585, 1590, 32, 1602, 1575, 1576, 1604, 32, 1584, 1582, 1740, 1585, 1607,
       32, 1606, 1740, 1587, 1578]]],
     Message False [(None, 1)] [A ''Rescanning...''] True [[U [1575, 1587, 1705, 1575, 1606, 32, 1605, 1580,
       1583, 1583]]],
     Message False [(None, 2)] [A ''Done loading''] True [[U [1576, 1575, 1585, 32, 1711, 1740, 1585, 1740,
       32, 1575, 1606, 1580, 1575, 1605, 32, 1588, 1583, 1607, 32, 1575, 1587, 1578]]],
     Message False [(None, 33)] [A ''To use the %s option''] True [[U [1576, 1585, 1575, 1740, 32, 1575,
       1587, 1578, 1601, 1575, 1583, 1607, 32, 1575, 1586], A '' %s '', U [1575, 1586, 32, 1575, 1606, 1578,
       1582, 1575, 1576, 1575, 1578]]],
     Message False [(None, - 27)] [A ''Error''] True [[U [1582, 1591, 1575]]],
     Message False [(None, 22)] [A ''You must set rpcpassword=<password> in the configuration file:'',
       U [10], A ''%s'', U [10],
       A ''If the file does not exist, create it with owner-readable-only file permissions.''] True
       [[A ''%s'', U [1548, 32, 1588, 1605, 1575, 32, 1576, 1575, 1740, 1583, 32, 1740, 1705],
       A '' rpcpassword  '', U [1585, 1575, 32, 1583, 1585, 32, 1601, 1575, 1740, 1604, 32, 1662, 1740,
       1705, 1585, 1576, 1606, 1583, 1740, 32, 1578, 1606, 1592, 1740, 1605, 32, 1705, 1606, 1740, 1583],
       A '' :'', U [9166], A ''%s'', U [9166, 32, 1575, 1711, 1585, 32, 1601, 1575, 1740, 1604, 32, 1575,
       1740, 1580, 1575, 1583, 32, 1606, 1588, 1583, 1548, 32, 1740, 1705, 32, 1601, 1575, 1740, 1604, 32,
       1601, 1602, 1591, 32, 1605, 1578, 1606, 1740, 32, 1575, 1740, 1580, 1575, 1583, 32, 1705, 1606, 1740,
       1583], A ''.'', U [10]]]]"

section \<open>The catalogue\<close>

definition catalogue_fa :: catalogue where
  "catalogue_fa = [
     (''AboutDialog'', fa_AboutDialog),
     (''AddressBookPage'', fa_AddressBookPage),
     (''AddressTableModel'', fa_AddressTableModel),
     (''AskPassphraseDialog'', fa_AskPassphraseDialog_1 @ fa_AskPassphraseDialog_2),
     (''BitcoinGUI'', fa_BitcoinGUI_1 @ fa_BitcoinGUI_2 @ fa_BitcoinGUI_3),
     (''ClientModel'', fa_ClientModel),
     (''CoinControlDialog'', fa_CoinControlDialog_1 @ fa_CoinControlDialog_2),
     (''EditAddressDialog'', fa_EditAddressDialog),
     (''GUIUtil::HelpMessageBox'', fa_GUIUtil_HelpMessageBox),
     (''OptionsDialog'', fa_OptionsDialog_1 @ fa_OptionsDialog_2),
     (''OverviewPage'', fa_OverviewPage),
     (''PaymentServer'', fa_PaymentServer),
     (''QRCodeDialog'', fa_QRCodeDialog),
     (''RPCConsole'', fa_RPCConsole_1 @ fa_RPCConsole_2),
     (''SendCoinsDialog'', fa_SendCoinsDialog_1 @ fa_SendCoinsDialog_2),
     (''SendCoinsEntry'', fa_SendCoinsEntry),
     (''SignVerifyMessageDialog'', fa_SignVerifyMessageDialog_1 @ fa_SignVerifyMessageDialog_2),
     (''TrafficGraphWidget'', fa_TrafficGraphWidget),
     (''TransactionDesc'', fa_TransactionDesc_1 @ fa_TransactionDesc_2),
     (''TransactionDescDialog'', fa_TransactionDescDialog),
     (''TransactionTableModel'', fa_TransactionTableModel),
     (''TransactionView'', fa_TransactionView_1 @ fa_TransactionView_2),
     (''WalletModel'', fa_WalletModel),
     (''bitcoin-core'', fa_bitcoin_core_1 @ fa_bitcoin_core_2 @ fa_bitcoin_core_3 @ fa_bitcoin_core_4 @ fa_bitcoin_core_5)]"

end
