(* ===== verification/FaSpec.thy ===== *)
theory FaSpec
  imports FaMessages2
begin

text \<open>
  What holds of the Persian catalogue: the lookup of a message finds that message, and every
  translation but one has the conversions of its source text. The catalogue is walked once per definition;
  the properties are consequences for the whole.
\<close>

section \<open>Every translation but one keeps the conversions\<close>

lemma keeps_specs_simps:
  "keeps_specs (Message n l s f fs) = list_all (\<lambda>t. t = [] \<or> same_specs (text_specs s) (text_specs t)) fs"
  "text_specs [] = []"
  "text_specs (A x # t) = specs x @ text_specs t"
  "text_specs (U us # t) = text_specs t"
  "same_specs xs ys = (length xs = length ys \<and> list_all (\<lambda>x. count_list xs x = count_list ys x) xs)"
  by (simp_all add: keeps_specs_def text_specs_def same_specs_def)

lemma keeps_fa_AboutDialog: "filter (\<lambda>m. \<not> keeps_specs m) fa_AboutDialog = []"
  by (simp add: fa_AboutDialog_def keeps_specs_simps)

lemma keeps_fa_AddressBookPage: "filter (\<lambda>m. \<not> keeps_specs m) fa_AddressBookPage = []"
  by (simp add: fa_AddressBookPage_def keeps_specs_simps)

lemma keeps_fa_AddressTableModel: "filter (\<lambda>m. \<not> keeps_specs m) fa_AddressTableModel = []"
  by (simp add: fa_AddressTableModel_def keeps_specs_simps)

lemma keeps_fa_AskPassphraseDialog_1: "filter (\<lambda>m. \<not> keeps_specs m) fa_AskPassphraseDialog_1 = []"
  by (simp add: fa_AskPassphraseDialog_1_def keeps_specs_simps)

lemma keeps_fa_AskPassphraseDialog_2: "filter (\<lambda>m. \<not> keeps_specs m) fa_AskPassphraseDialog_2 = []"
  by (simp add: fa_AskPassphraseDialog_2_def keeps_specs_simps)

lemma keeps_fa_BitcoinGUI_1: "filter (\<lambda>m. \<not> keeps_specs m) fa_BitcoinGUI_1 = []"
  by (simp add: fa_BitcoinGUI_1_def keeps_specs_simps)

lemma keeps_fa_BitcoinGUI_2: "filter (\<lambda>m. \<not> keeps_specs m) fa_BitcoinGUI_2 = []"
  by (simp add: fa_BitcoinGUI_2_def keeps_specs_simps)

lemma keeps_fa_BitcoinGUI_3: "filter (\<lambda>m. \<not> keeps_specs m) fa_BitcoinGUI_3 = []"
  by (simp add: fa_BitcoinGUI_3_def keeps_specs_simps)

lemma keeps_fa_ClientModel: "filter (\<lambda>m. \<not> keeps_specs m) fa_ClientModel = []"
  by (simp add: fa_ClientModel_def keeps_specs_simps)

lemma keeps_fa_CoinControlDialog_1: "filter (\<lambda>m. \<not> keeps_specs m) fa_CoinControlDialog_1 = []"
  by (simp add: fa_CoinControlDialog_1_def keeps_specs_simps)

lemma keeps_fa_CoinControlDialog_2: "filter (\<lambda>m. \<not> keeps_specs m) fa_CoinControlDialog_2 = []"
  by (simp add: fa_CoinControlDialog_2_def keeps_specs_simps)

lemma keeps_fa_EditAddressDialog: "filter (\<lambda>m. \<not> keeps_specs m) fa_EditAddressDialog = []"
  by (simp add: fa_EditAddressDialog_def keeps_specs_simps)

lemma keeps_fa_GUIUtil_HelpMessageBox: "filter (\<lambda>m. \<not> keeps_specs m) fa_GUIUtil_HelpMessageBox = []"
  by (simp add: fa_GUIUtil_HelpMessageBox_def keeps_specs_simps)

lemma keeps_fa_OptionsDialog_1: "filter (\<lambda>m. \<not> keeps_specs m) fa_OptionsDialog_1 = []"
  by (simp add: fa_OptionsDialog_1_def keeps_specs_simps)

lemma keeps_fa_OptionsDialog_2: "filter (\<lambda>m. \<not> keeps_specs m) fa_OptionsDialog_2 = []"
  by (simp add: fa_OptionsDialog_2_def keeps_specs_simps)

lemma keeps_fa_OverviewPage: "filter (\<lambda>m. \<not> keeps_specs m) fa_OverviewPage = []"
  by (simp add: fa_OverviewPage_def keeps_specs_simps)

lemma keeps_fa_PaymentServer: "filter (\<lambda>m. \<not> keeps_specs m) fa_PaymentServer = []"
  by (simp add: fa_PaymentServer_def keeps_specs_simps)

lemma keeps_fa_QRCodeDialog: "filter (\<lambda>m. \<not> keeps_specs m) fa_QRCodeDialog = []"
  by (simp add: fa_QRCodeDialog_def keeps_specs_simps)

lemma keeps_fa_RPCConsole_1: "filter (\<lambda>m. \<not> keeps_specs m) fa_RPCConsole_1 = []"
  by (simp add: fa_RPCConsole_1_def keeps_specs_simps)

lemma keeps_fa_RPCConsole_2: "filter (\<lambda>m. \<not> keeps_specs m) fa_RPCConsole_2 = []"
  by (simp add: fa_RPCConsole_2_def keeps_specs_simps)

lemma keeps_fa_SendCoinsDialog_1: "filter (\<lambda>m. \<not> keeps_specs m) fa_SendCoinsDialog_1 = []"
  by (simp add: fa_SendCoinsDialog_1_def keeps_specs_simps)

lemma keeps_fa_SendCoinsDialog_2: "filter (\<lambda>m. \<not> keeps_specs m) fa_SendCoinsDialog_2 = []"
  by (simp add: fa_SendCoinsDialog_2_def keeps_specs_simps)

lemma keeps_fa_SendCoinsEntry: "filter (\<lambda>m. \<not> keeps_specs m) fa_SendCoinsEntry = []"
  by (simp add: fa_SendCoinsEntry_def keeps_specs_simps)

lemma keeps_fa_SignVerifyMessageDialog_1: "filter (\<lambda>m. \<not> keeps_specs m) fa_SignVerifyMessageDialog_1 = []"
  by (simp add: fa_SignVerifyMessageDialog_1_def keeps_specs_simps)

lemma keeps_fa_SignVerifyMessageDialog_2: "filter (\<lambda>m. \<not> keeps_specs m) fa_SignVerifyMessageDialog_2 = []"
  by (simp add: fa_SignVerifyMessageDialog_2_def keeps_specs_simps)

lemma keeps_fa_TrafficGraphWidget: "filter (\<lambda>m. \<not> keeps_specs m) fa_TrafficGraphWidget = []"
  by (simp add: fa_TrafficGraphWidget_def keeps_specs_simps)

lemma keeps_fa_TransactionDesc_1: "filter (\<lambda>m. \<not> keeps_specs m) fa_TransactionDesc_1 = []"
  by (simp add: fa_TransactionDesc_1_def keeps_specs_simps)

lemma keeps_fa_TransactionDesc_2: "filter (\<lambda>m. \<not> keeps_specs m) fa_TransactionDesc_2 = []"
  by (simp add: fa_TransactionDesc_2_def keeps_specs_simps)

lemma keeps_fa_TransactionDescDialog: "filter (\<lambda>m. \<not> keeps_specs m) fa_TransactionDescDialog = []"
  by (simp add: fa_TransactionDescDialog_def keeps_specs_simps)

lemma keeps_fa_TransactionTableModel: "filter (\<lambda>m. \<not> keeps_specs m) fa_TransactionTableModel = []"
  by (simp add: fa_TransactionTableModel_def keeps_specs_simps)

lemma keeps_fa_TransactionView_1: "filter (\<lambda>m. \<not> keeps_specs m) fa_TransactionView_1 = []"
  by (simp add: fa_TransactionView_1_def keeps_specs_simps)

lemma keeps_fa_TransactionView_2: "filter (\<lambda>m. \<not> keeps_specs m) fa_TransactionView_2 = []"
  by (simp add: fa_TransactionView_2_def keeps_specs_simps)

lemma keeps_fa_WalletModel: "filter (\<lambda>m. \<not> keeps_specs m) fa_WalletModel = []"
  by (simp add: fa_WalletModel_def keeps_specs_simps)

lemma keeps_fa_bitcoin_core_1: "filter (\<lambda>m. \<not> keeps_specs m) fa_bitcoin_core_1 = []"
  by (simp add: fa_bitcoin_core_1_def keeps_specs_simps)

lemma keeps_fa_bitcoin_core_2: "filter (\<lambda>m. \<not> keeps_specs m) fa_bitcoin_core_2 = []"
  by (simp add: fa_bitcoin_core_2_def keeps_specs_simps)

lemma keeps_fa_bitcoin_core_3: "filter (\<lambda>m. \<not> keeps_specs m) fa_bitcoin_core_3 = []"
  by (simp add: fa_bitcoin_core_3_def keeps_specs_simps)

lemma keeps_fa_bitcoin_core_4: "filter (\<lambda>m. \<not> keeps_specs m) fa_bitcoin_core_4 = []"
  by (simp add: fa_bitcoin_core_4_def keeps_specs_simps)

lemma keeps_fa_bitcoin_core_5:
  "filter (\<lambda>m. \<not> keeps_specs m) fa_bitcoin_core_5 = [last fa_bitcoin_core_5]"
  by (simp add: fa_bitcoin_core_5_def keeps_specs_simps)

lemmas fa_keeps =
  keeps_fa_AboutDialog keeps_fa_AddressBookPage keeps_fa_AddressTableModel keeps_fa_AskPassphraseDialog_1
  keeps_fa_AskPassphraseDialog_2 keeps_fa_BitcoinGUI_1 keeps_fa_BitcoinGUI_2 keeps_fa_BitcoinGUI_3
  keeps_fa_ClientModel keeps_fa_CoinControlDialog_1 keeps_fa_CoinControlDialog_2 keeps_fa_EditAddressDialog
  keeps_fa_GUIUtil_HelpMessageBox keeps_fa_OptionsDialog_1 keeps_fa_OptionsDialog_2 keeps_fa_OverviewPage
  keeps_fa_PaymentServer keeps_fa_QRCodeDialog keeps_fa_RPCConsole_1 keeps_fa_RPCConsole_2
  keeps_fa_SendCoinsDialog_1 keeps_fa_SendCoinsDialog_2 keeps_fa_SendCoinsEntry keeps_fa_SignVerifyMessageDialog_1
  keeps_fa_SignVerifyMessageDialog_2 keeps_fa_TrafficGraphWidget keeps_fa_TransactionDesc_1 keeps_fa_TransactionDesc_2
  keeps_fa_TransactionDescDialog keeps_fa_TransactionTableModel keeps_fa_TransactionView_1 keeps_fa_TransactionView_2
  keeps_fa_WalletModel keeps_fa_bitcoin_core_1 keeps_fa_bitcoin_core_2 keeps_fa_bitcoin_core_3
  keeps_fa_bitcoin_core_4 keeps_fa_bitcoin_core_5

section \<open>The catalogue\<close>

definition rpcpassword_source :: msgtext where
  "rpcpassword_source =
     [A ''You must set rpcpassword=<password> in the configuration file:'', U [10], A ''%s'', U [10],
      A ''If the file does not exist, create it with owner-readable-only file permissions.'']"

lemma last_fa_bitcoin_core_5:
  "msg_source (last fa_bitcoin_core_5) = rpcpassword_source"
  "text_specs rpcpassword_source = ''s''"
  "finished (last fa_bitcoin_core_5)"
  "map text_specs (forms (last fa_bitcoin_core_5)) = [''ss'']"
  by (simp_all add: fa_bitcoin_core_5_def rpcpassword_source_def keeps_specs_simps)

lemma bitcoin_core_messages:
  "map_of catalogue_fa ''bitcoin-core'' =
     Some (fa_bitcoin_core_1 @ fa_bitcoin_core_2 @ fa_bitcoin_core_3 @ fa_bitcoin_core_4 @ fa_bitcoin_core_5)"
  by (simp add: catalogue_fa_def)

lemma bitcoin_core_keeps:
  assumes "find_message catalogue_fa ''bitcoin-core'' src = Some m" "src \<noteq> rpcpassword_source"
  shows "keeps_specs m"
proof (rule ccontr)
  assume "\<not> keeps_specs m"
  with find_message_SomeD(2) [OF assms(1)] have
    "m \<in> set (filter (\<lambda>m. \<not> keeps_specs m)
       (fa_bitcoin_core_1 @ fa_bitcoin_core_2 @ fa_bitcoin_core_3 @ fa_bitcoin_core_4 @ fa_bitcoin_core_5))"
    by (auto simp: bitcoin_core_messages)
  then have "m = last fa_bitcoin_core_5"
    by (simp only: filter_append keeps_fa_bitcoin_core_1 keeps_fa_bitcoin_core_2 keeps_fa_bitcoin_core_3
        keeps_fa_bitcoin_core_4 keeps_fa_bitcoin_core_5 append_Nil list.set(2) list.set(1) singleton_iff)
  then show False
    using find_message_SomeD(1) [OF assms(1)] assms(2) last_fa_bitcoin_core_5(1) by simp
qed

text \<open>The lookup of Qt on this catalogue, as a function.\<close>

definition reference_lookup :: "catalogue \<Rightarrow> string \<Rightarrow> msgtext \<Rightarrow> msgtext" where
  "reference_lookup cat ctx src =
     (case find_message cat ctx src of
        None \<Rightarrow> src
      | Some m \<Rightarrow> (case forms m of [] \<Rightarrow> src | f # _ \<Rightarrow> if f = [] then src else f))"

lemma qt_translates_reference: "qt_translates cat (reference_lookup cat)"
  by (simp add: qt_translates_def reference_lookup_def)

section \<open>Properties\<close>

text \<open>C40: Over all contexts, one translation alone has other conversions than its source text: that of the
  request to set an rpcpassword, a finished translation which has \<open>%s\<close> twice where the source has
  it once.\<close>

theorem fa_conversions:
  "concat (map (\<lambda>p. filter (\<lambda>m. \<not> keeps_specs m) (snd p)) catalogue_fa) = [last fa_bitcoin_core_5] \<and>
   text_specs (msg_source (last fa_bitcoin_core_5)) = ''s'' \<and>
   finished (last fa_bitcoin_core_5) \<and> map text_specs (forms (last fa_bitcoin_core_5)) = [''ss'']"
  unfolding catalogue_fa_def
  by (simp add: fa_keeps last_fa_bitcoin_core_5)

text \<open>C38: Whatever text the program passes to \<open>_\<close> while the graphical interface runs in Persian,
  the text it gets to format has the same conversions, each as often, as the one it passed, unless that is
  the request to set an rpcpassword.\<close>

theorem translated_keeps_conversions:
  assumes "qt_translates catalogue_fa tr" "psz \<noteq> rpcpassword_source"
  shows "same_specs (text_specs psz) (text_specs (translated (Some (Translate tr)) psz))"
proof (cases "find_message catalogue_fa ''bitcoin-core'' psz")
  case None
  then show ?thesis
    using assms(1) by (simp add: translated_def Translate_def qt_translates_def)
next
  case (Some m)
  have "keeps_specs m" "msg_source m = psz"
    using bitcoin_core_keeps [OF Some assms(2)] find_message_SomeD(1) [OF Some] .
  with Some show ?thesis
    using assms(1)
    by (cases "forms m") (auto simp: translated_def Translate_def qt_translates_def keeps_specs_def)
qed

theorem translated_keeps_conversions_witness:
  "same_specs ''s'' (text_specs (translated (Some (Translate (reference_lookup catalogue_fa))) [A ''Error: %s'']))"
  using translated_keeps_conversions [OF qt_translates_reference, of "[A ''Error: %s'']"]
  by (simp add: rpcpassword_source_def text_specs_def)

end
