(* ===== verification/MemPool.thy ===== *)
theory MemPool
  imports Core OrdMap
begin

text \<open>
  The memory pool (\<open>CTxMemPool\<close>, src/txmempool.h and src/txmempool.cpp). \<open>CInPoint\<close> points to an entry
  of \<open>mapTx\<close>, which is named here by its key; following a pointer to an entry that was erased is \<open>None\<close>.
  \<open>remove\<close> recurses along \<open>mapNextTx\<close> without a bound of its own, so it takes fuel; that enough fuel
  exists is proved for pools whose transactions spend one another without a cycle.
\<close>

record CInPoint =
  ptx :: uint256
  in_n :: nat

record CTxMemPool =
  nTransactionsUpdated :: u32
  mapTx :: "(uint256, CTransaction) omap"
  mapNextTx :: "COutPoint \<Rightarrow> CInPoint option"

section \<open>Operations\<close>

definition pool_empty :: CTxMemPool where
  "pool_empty = \<lparr>nTransactionsUpdated = 0, mapTx = [], mapNextTx = Map.empty\<rparr>"

definition AddTransactionsUpdated :: "u32 \<Rightarrow> CTxMemPool \<Rightarrow> CTxMemPool" where
  "AddTransactionsUpdated k pool = pool\<lparr>nTransactionsUpdated := nTransactionsUpdated pool + k\<rparr>"

fun link_inputs ::
  "uint256 \<Rightarrow> nat \<Rightarrow> CTxIn list \<Rightarrow> (COutPoint \<Rightarrow> CInPoint option) \<Rightarrow> COutPoint \<Rightarrow> CInPoint option" where
  "link_inputs h i [] m = m"
| "link_inputs h i (x # xs) m = link_inputs h (i + 1) xs (m(prevout x \<mapsto> \<lparr>ptx = h, in_n = i\<rparr>))"

definition addUnchecked :: "uint256 \<Rightarrow> CTransaction \<Rightarrow> CTxMemPool \<Rightarrow> CTxMemPool" where
  "addUnchecked h tx pool = pool\<lparr>
     mapTx := oput h tx (mapTx pool),
     mapNextTx := link_inputs h 0 (vin tx) (mapNextTx pool),
     nTransactionsUpdated := nTransactionsUpdated pool + 1\<rparr>"

definition pool_exists :: "CTxMemPool \<Rightarrow> uint256 \<Rightarrow> bool" where
  "pool_exists pool h \<longleftrightarrow> map_of (mapTx pool) h \<noteq> None"

definition pool_lookup :: "CTxMemPool \<Rightarrow> uint256 \<Rightarrow> CTransaction option" where
  "pool_lookup pool h = map_of (mapTx pool) h"

fun unlink_inputs :: "CTxIn list \<Rightarrow> (COutPoint \<Rightarrow> CInPoint option) \<Rightarrow> COutPoint \<Rightarrow> CInPoint option" where
  "unlink_inputs [] m = m"
| "unlink_inputs (x # xs) m = unlink_inputs xs (m(prevout x := None))"

text \<open>The loop over the outputs, with the recursive call as its first argument.\<close>

fun remove_children ::
  "(CTransaction \<Rightarrow> CTxMemPool \<Rightarrow> CTxMemPool option) \<Rightarrow> uint256 \<Rightarrow> nat list \<Rightarrow> CTxMemPool \<Rightarrow>
     CTxMemPool option" where
  "remove_children rec h [] pool = Some pool"
| "remove_children rec h (i # is) pool =
     (case mapNextTx pool \<lparr>op_hash = h, op_n = of_nat i\<rparr> of
        None \<Rightarrow> remove_children rec h is pool
      | Some p \<Rightarrow>
          (case map_of (mapTx pool) (ptx p) of
             None \<Rightarrow> None
           | Some child \<Rightarrow>
               (case rec child pool of
                  None \<Rightarrow> None
                | Some pool' \<Rightarrow> remove_children rec h is pool')))"

definition remove_one :: "uint256 \<Rightarrow> CTransaction \<Rightarrow> CTxMemPool \<Rightarrow> CTxMemPool" where
  "remove_one h tx pool = pool\<lparr>
     mapNextTx := unlink_inputs (vin tx) (mapNextTx pool),
     mapTx := oerase h (mapTx pool),
     nTransactionsUpdated := nTransactionsUpdated pool + 1\<rparr>"

fun pool_remove ::
  "nat \<Rightarrow> external \<Rightarrow> bool \<Rightarrow> CTransaction \<Rightarrow> CTxMemPool \<Rightarrow> CTxMemPool option" where
  "pool_remove 0 E fRecursive tx pool = None"
| "pool_remove (Suc n) E fRecursive tx pool =
     (let h = tx_GetHash E tx in
      if pool_exists pool h then
        map_option (remove_one h tx)
          (if fRecursive
           then remove_children (pool_remove n E True) h [0..<length (vout tx)] pool
           else Some pool)
      else Some pool)"

fun conflicts_loop ::
  "nat \<Rightarrow> external \<Rightarrow> CTransaction \<Rightarrow> CTxIn list \<Rightarrow> CTxMemPool \<Rightarrow> CTxMemPool option" where
  "conflicts_loop n E tx [] pool = Some pool"
| "conflicts_loop n E tx (x # xs) pool =
     (case mapNextTx pool (prevout x) of
        None \<Rightarrow> conflicts_loop n E tx xs pool
      | Some p \<Rightarrow>
          (case map_of (mapTx pool) (ptx p) of
             None \<Rightarrow> None
           | Some txConflict \<Rightarrow>
               if txConflict \<noteq> tx then
                 (case pool_remove n E True txConflict pool of
                    None \<Rightarrow> None
                  | Some pool' \<Rightarrow> conflicts_loop n E tx xs pool')
               else conflicts_loop n E tx xs pool))"

definition removeConflicts :: "nat \<Rightarrow> external \<Rightarrow> CTransaction \<Rightarrow> CTxMemPool \<Rightarrow> CTxMemPool option" where
  "removeConflicts n E tx pool = conflicts_loop n E tx (vin tx) pool"

definition pool_clear :: "CTxMemPool \<Rightarrow> CTxMemPool" where
  "pool_clear pool =
     pool\<lparr>mapTx := [], mapNextTx := Map.empty, nTransactionsUpdated := nTransactionsUpdated pool + 1\<rparr>"

definition queryHashes :: "CTxMemPool \<Rightarrow> uint256 list" where
  "queryHashes pool = map fst (mapTx pool)"

section \<open>The invariant\<close>

text \<open>
  Every entry is filed under its hash, and \<open>mapNextTx\<close> is exactly the inputs of the entries: so no
  two entries spend the same output.
\<close>

definition pool_ok :: "external \<Rightarrow> CTxMemPool \<Rightarrow> bool" where
  "pool_ok E pool \<longleftrightarrow> omap_ok (mapTx pool) \<and>
     (\<forall>h tx. map_of (mapTx pool) h = Some tx \<longrightarrow> tx_GetHash E tx = h) \<and>
     (\<forall>h tx i. map_of (mapTx pool) h = Some tx \<longrightarrow> i < length (vin tx) \<longrightarrow>
        mapNextTx pool (prevout (vin tx ! i)) = Some \<lparr>ptx = h, in_n = i\<rparr>) \<and>
     (\<forall>o' p. mapNextTx pool o' = Some p \<longrightarrow>
        (\<exists>tx. map_of (mapTx pool) (ptx p) = Some tx \<and> in_n p < length (vin tx) \<and>
           prevout (vin tx ! in_n p) = o'))"

text \<open>A rank that descends from a transaction to those it spends, and its bound: there is no cycle.\<close>

definition ranked :: "(uint256 \<Rightarrow> nat) \<Rightarrow> nat \<Rightarrow> CTxMemPool \<Rightarrow> bool" where
  "ranked rank B pool \<longleftrightarrow>
     (\<forall>h tx. map_of (mapTx pool) h = Some tx \<longrightarrow>
        rank h \<le> B \<and> (\<forall>i < length (vin tx). rank (op_hash (prevout (vin tx ! i))) < rank h))"

lemma pool_okD:
  assumes "pool_ok E pool"
  shows "omap_ok (mapTx pool)"
    and "map_of (mapTx pool) h = Some tx \<Longrightarrow> tx_GetHash E tx = h"
    and "map_of (mapTx pool) h = Some tx \<Longrightarrow> i < length (vin tx) \<Longrightarrow>
      mapNextTx pool (prevout (vin tx ! i)) = Some \<lparr>ptx = h, in_n = i\<rparr>"
    and "mapNextTx pool o' = Some p \<Longrightarrow>
      \<exists>tx. map_of (mapTx pool) (ptx p) = Some tx \<and> in_n p < length (vin tx) \<and> prevout (vin tx ! in_n p) = o'"
  using assms unfolding pool_ok_def by blast+

lemma rankedD:
  assumes "ranked rank B pool" "map_of (mapTx pool) h = Some tx"
  shows "rank h \<le> B" "i < length (vin tx) \<Longrightarrow> rank (op_hash (prevout (vin tx ! i))) < rank h"
  using assms unfolding ranked_def by blast+

lemma pool_empty_ok: "pool_ok E pool_empty"
  by (simp add: pool_ok_def pool_empty_def)

lemma pool_clear_ok: "pool_ok E (pool_clear pool)"
  by (simp add: pool_ok_def pool_clear_def)

section \<open>Adding\<close>

lemma link_inputs_other: "o' \<notin> prevout ` set xs \<Longrightarrow> link_inputs h i xs m o' = m o'"
  by (induction xs arbitrary: i m) auto

lemma link_inputs_at:
  "distinct (map prevout xs) \<Longrightarrow> j < length xs \<Longrightarrow>
     link_inputs h i xs m (prevout (xs ! j)) = Some \<lparr>ptx = h, in_n = i + j\<rparr>"
proof (induction xs arbitrary: i j m)
  case (Cons x xs)
  then show ?case
    by (cases j) (auto simp: link_inputs_other)
qed simp

lemma addUnchecked_ok:
  assumes ok: "pool_ok E pool" and h: "h = tx_GetHash E tx" "\<not> pool_exists pool h"
    and d: "distinct (map prevout (vin tx))"
    and free: "\<forall>x \<in> set (vin tx). mapNextTx pool (prevout x) = None"
  shows "pool_ok E (addUnchecked h tx pool)"
proof -
  note D = pool_okD [OF ok]
  let ?m = "link_inputs h 0 (vin tx) (mapNextTx pool)"
  have old: "?m o' = mapNextTx pool o'" if "mapNextTx pool o' \<noteq> None" for o'
    using that free by (intro link_inputs_other) auto
  have new: "?m (prevout (vin tx ! i)) = Some \<lparr>ptx = h, in_n = i\<rparr>" if "i < length (vin tx)" for i
    using link_inputs_at [OF d that] by simp
  have "map_of (mapTx pool) h = None" using h(2) by (simp add: pool_exists_def)
  moreover have "\<exists>tx'. ((map_of (mapTx pool))(h \<mapsto> tx)) (ptx p) = Some tx' \<and> in_n p < length (vin tx') \<and>
      prevout (vin tx' ! in_n p) = o'" if p: "?m o' = Some p" for o' p
  proof (cases "o' \<in> prevout ` set (vin tx)")
    case True
    then obtain i where i: "i < length (vin tx)" "o' = prevout (vin tx ! i)" by (auto simp: in_set_conv_nth)
    with new [of i] p show ?thesis by auto
  next
    case False
    then have "mapNextTx pool o' = Some p" using p by (simp add: link_inputs_other)
    from D(4) [OF this] h(2) show ?thesis by (auto simp: pool_exists_def)
  qed
  ultimately show ?thesis
    using D(1-3) h(1) new old
    by (auto simp: pool_ok_def addUnchecked_def)
qed

section \<open>Removing\<close>

lemma unlink_inputs_at:
  "unlink_inputs xs m o' = (if o' \<in> prevout ` set xs then None else m o')"
  by (induction xs arbitrary: m) auto

lemma remove_one_ok:
  assumes ok: "pool_ok E pool" and tx: "map_of (mapTx pool) h = Some tx"
  shows "pool_ok E (remove_one h tx pool)"
proof -
  note D = pool_okD [OF ok]
  have gone: "o' \<in> prevout ` set (vin tx) \<longleftrightarrow> (\<exists>i < length (vin tx). mapNextTx pool o' = Some \<lparr>ptx = h, in_n = i\<rparr>)"
    for o'
  proof
    assume "o' \<in> prevout ` set (vin tx)"
    then show "\<exists>i < length (vin tx). mapNextTx pool o' = Some \<lparr>ptx = h, in_n = i\<rparr>"
      using D(3) [OF tx] by (auto simp: in_set_conv_nth)
  next
    assume "\<exists>i < length (vin tx). mapNextTx pool o' = Some \<lparr>ptx = h, in_n = i\<rparr>"
    then show "o' \<in> prevout ` set (vin tx)" using D(4) tx by fastforce
  qed
  have keep: "prevout (vin t ! i) \<notin> prevout ` set (vin tx)"
    if "map_of (mapTx pool) k = Some t" "k \<noteq> h" "i < length (vin t)" for k t i
    using D(3) [OF that(1,3)] that(2) by (auto simp: gone)
  have "ptx p \<noteq> h" if "mapNextTx pool o' = Some p" "o' \<notin> prevout ` set (vin tx)" for o' p
    using D(4) [OF that(1)] that tx nth_mem by fastforce
  with D(1-4) keep show ?thesis
    by (auto simp: pool_ok_def remove_one_def unlink_inputs_at split: if_splits)
qed

section \<open>Recursive removal\<close>

text \<open>
  What a removal may do: entries only go, none below the given rank goes, and the invariant holds.
\<close>

definition shrinks :: "external \<Rightarrow> (uint256 \<Rightarrow> nat) \<Rightarrow> nat \<Rightarrow> CTxMemPool \<Rightarrow> CTxMemPool \<Rightarrow> bool" where
  "shrinks E rank r pool pool' \<longleftrightarrow> pool_ok E pool' \<and>
     (\<forall>k t. map_of (mapTx pool') k = Some t \<longrightarrow> map_of (mapTx pool) k = Some t) \<and>
     (\<forall>k. rank k < r \<longrightarrow> map_of (mapTx pool') k = map_of (mapTx pool) k)"

lemma shrinksI:
  "pool_ok E q \<Longrightarrow> (\<And>k t. map_of (mapTx q) k = Some t \<Longrightarrow> map_of (mapTx p) k = Some t) \<Longrightarrow>
   (\<And>k. rank k < r \<Longrightarrow> map_of (mapTx q) k = map_of (mapTx p) k) \<Longrightarrow> shrinks E rank r p q"
  unfolding shrinks_def by blast

lemma shrinksD:
  assumes "shrinks E rank r p q"
  shows "pool_ok E q"
    and "map_of (mapTx q) k = Some t \<Longrightarrow> map_of (mapTx p) k = Some t"
    and "rank k < r \<Longrightarrow> map_of (mapTx q) k = map_of (mapTx p) k"
  using assms unfolding shrinks_def by blast+

lemma shrinks_refl: "pool_ok E pool \<Longrightarrow> shrinks E rank r pool pool"
  by (simp add: shrinks_def)

lemma shrinks_trans:
  assumes "shrinks E rank r p q" "shrinks E rank r' q s" "r \<le> r'"
  shows "shrinks E rank r p s"
proof (rule shrinksI)
  fix k
  assume "rank k < r"
  then show "map_of (mapTx s) k = map_of (mapTx p) k"
    using shrinksD(3) [OF assms(1), of k] shrinksD(3) [OF assms(2), of k] assms(3) by simp
qed (use assms(1,2) in \<open>blast dest: shrinksD\<close>)+

lemma shrinks_mono: "shrinks E rank r' p q \<Longrightarrow> r \<le> r' \<Longrightarrow> shrinks E rank r p q"
  by (rule shrinksI) (blast dest: shrinksD, blast dest: shrinksD, simp add: shrinksD(3))

lemma shrinks_ranked: "shrinks E rank r p q \<Longrightarrow> ranked rank B p \<Longrightarrow> ranked rank B q"
  unfolding shrinks_def ranked_def by blast

lemma shrinks_next:
  assumes "shrinks E rank r p q" "pool_ok E p" "mapNextTx q o' = Some x"
  shows "mapNextTx p o' = Some x" "map_of (mapTx q) (ptx x) \<noteq> None"
proof -
  have q: "pool_ok E q" using assms(1) by (simp add: shrinks_def)
  obtain t where t: "map_of (mapTx q) (ptx x) = Some t" "in_n x < length (vin t)" "prevout (vin t ! in_n x) = o'"
    using pool_okD(4) [OF q assms(3)] by blast
  then have "map_of (mapTx p) (ptx x) = Some t" using assms(1) by (simp add: shrinks_def)
  from pool_okD(3) [OF assms(2) this t(2)] t show "mapNextTx p o' = Some x" "map_of (mapTx q) (ptx x) \<noteq> None"
    by simp_all
qed

text \<open>The children of an entry rank above it.\<close>

lemma child_rank:
  assumes "pool_ok E pool" "ranked rank B pool" "mapNextTx pool \<lparr>op_hash = h, op_n = m\<rparr> = Some x"
    and "map_of (mapTx pool) (ptx x) = Some child"
  shows "rank h < rank (ptx x)" "rank (ptx x) \<le> B" "tx_GetHash E child = ptx x"
proof -
  obtain t where "map_of (mapTx pool) (ptx x) = Some t" "in_n x < length (vin t)"
    "prevout (vin t ! in_n x) = \<lparr>op_hash = h, op_n = m\<rparr>"
    using pool_okD(4) [OF assms(1,3)] by blast
  with rankedD [OF assms(2)] show "rank h < rank (ptx x)" "rank (ptx x) \<le> B" by fastforce+
  show "tx_GetHash E child = ptx x" using pool_okD(2) [OF assms(1,4)] .
qed

definition removes :: "external \<Rightarrow> (uint256 \<Rightarrow> nat) \<Rightarrow> uint256 \<Rightarrow> nat \<Rightarrow> CTxMemPool \<Rightarrow> CTxMemPool \<Rightarrow> bool" where
  "removes E rank h k pool pool' \<longleftrightarrow> shrinks E rank (rank h) pool pool' \<and> map_of (mapTx pool') h = None \<and>
     (\<forall>i < k. mapNextTx pool' \<lparr>op_hash = h, op_n = of_nat i\<rparr> = None)"

lemma remove_children_removes:
  assumes rec: "\<And>p child. pool_ok E p \<Longrightarrow> ranked rank B p \<Longrightarrow> rank h < rank (tx_GetHash E child) \<Longrightarrow>
      map_of (mapTx p) (tx_GetHash E child) = Some child \<Longrightarrow>
      \<exists>p'. rec child p = Some p' \<and> removes E rank (tx_GetHash E child) 0 p p'"
    and "pool_ok E pool" "ranked rank B pool"
  shows "\<exists>pool'. remove_children rec h is pool = Some pool' \<and> shrinks E rank (rank h + 1) pool pool' \<and>
    (\<forall>i \<in> set is. mapNextTx pool' \<lparr>op_hash = h, op_n = of_nat i\<rparr> = None)"
  using assms(2,3)
proof (induction "is" arbitrary: pool)
  case Nil
  then show ?case by (simp add: shrinks_refl)
next
  case (Cons i js)
  let ?o = "\<lparr>op_hash = h, op_n = of_nat i\<rparr> :: COutPoint"
  have step: ?case if s: "shrinks E rank (rank h + 1) pool p" and n: "mapNextTx p ?o = None"
    and e: "remove_children rec h (i # js) pool = remove_children rec h js p" for p
  proof -
    have p: "pool_ok E p" "ranked rank B p" using s shrinks_ranked [OF s Cons.prems(2)] by (simp_all add: shrinks_def)
    from Cons.IH [OF p] obtain q where q: "remove_children rec h js p = Some q"
      "shrinks E rank (rank h + 1) p q" "\<forall>i \<in> set js. mapNextTx q \<lparr>op_hash = h, op_n = of_nat i\<rparr> = None"
      by blast
    have "mapNextTx q ?o = None"
      using shrinks_next(1) [OF q(2) p(1)] n by (cases "mapNextTx q ?o") auto
    with q e shrinks_trans [OF s q(2)] show ?thesis by simp
  qed
  show ?case
  proof (cases "mapNextTx pool ?o")
    case None
    then show ?thesis by (intro step [OF shrinks_refl]) (simp_all add: Cons.prems)
  next
    case (Some x)
    obtain child where c: "map_of (mapTx pool) (ptx x) = Some child"
      using pool_okD(4) [OF Cons.prems(1) Some] by blast
    note r = child_rank [OF Cons.prems Some c]
    obtain p where p: "rec child pool = Some p" "removes E rank (ptx x) 0 pool p"
      using rec [OF Cons.prems, of child] r c by auto
    then have s: "shrinks E rank (rank h + 1) pool p"
      using r(1) shrinks_mono [of E rank "rank (ptx x)" pool p] by (simp add: removes_def)
    have "mapNextTx p ?o = None"
      using shrinks_next [OF s Cons.prems(1)] Some p(2) by (cases "mapNextTx p ?o") (fastforce simp: removes_def)+
    then show ?thesis by (rule step [OF s]) (simp add: Some c p(1))
  qed
qed

lemma pool_remove_removes:
  assumes "pool_ok E pool" "ranked rank B pool"
    and "map_of (mapTx pool) (tx_GetHash E tx) = Some tx" "B < n + rank (tx_GetHash E tx)"
  shows "\<exists>pool'. pool_remove n E True tx pool = Some pool' \<and>
    removes E rank (tx_GetHash E tx) (length (vout tx)) pool pool'"
  using assms
proof (induction n arbitrary: tx pool)
  case 0
  then show ?case using rankedD(1) [OF 0(2,3)] by simp
next
  case (Suc n)
  let ?h = "tx_GetHash E tx"
  have "\<exists>p'. pool_remove n E True c p = Some p' \<and> removes E rank (tx_GetHash E c) 0 p p'"
    if "pool_ok E p" "ranked rank B p" "rank ?h < rank (tx_GetHash E c)"
      "map_of (mapTx p) (tx_GetHash E c) = Some c" for p c
    using Suc.IH [of p c] that Suc.prems(4) by (auto simp: removes_def)
  from remove_children_removes [where ?is = "[0..<length (vout tx)]", OF this Suc.prems(1,2)]
  obtain p where p: "remove_children (pool_remove n E True) ?h [0..<length (vout tx)] pool = Some p"
    "shrinks E rank (rank ?h + 1) pool p"
    "\<forall>i \<in> set [0..<length (vout tx)]. mapNextTx p \<lparr>op_hash = ?h, op_n = of_nat i\<rparr> = None"
    by blast
  have tx: "map_of (mapTx p) ?h = Some tx" "pool_ok E p"
    using shrinksD(1,3) [OF p(2)] Suc.prems(3) by simp_all
  have "shrinks E rank (rank ?h) p (remove_one ?h tx p)"
  proof (rule shrinksI)
    show "pool_ok E (remove_one ?h tx p)" by (rule remove_one_ok [OF tx(2,1)])
  qed (auto simp: remove_one_def split: if_splits)
  moreover have "shrinks E rank (rank ?h) pool p" using shrinks_mono [OF p(2)] by simp
  ultimately have "shrinks E rank (rank ?h) pool (remove_one ?h tx p)"
    using shrinks_trans by blast
  then have "removes E rank ?h (length (vout tx)) pool (remove_one ?h tx p)"
    using p(3) by (simp add: removes_def remove_one_def unlink_inputs_at)
  then show ?case
    using p(1) Suc.prems(3) by (simp add: Let_def pool_exists_def)
qed

text \<open>More fuel does not change a result, so a removal that returns does what \<open>pool_remove_removes\<close> says.\<close>

lemma remove_children_more:
  assumes "\<And>c p q. rec c p = Some q \<Longrightarrow> rec' c p = Some q" "remove_children rec h is pool = Some q"
  shows "remove_children rec' h is pool = Some q"
  using assms(2)
proof (induction "is" arbitrary: pool)
  case (Cons i js)
  from Cons.prems show ?case
    by (simp split: option.splits) (use Cons.IH in blast, use Cons.IH assms(1) in fastforce)
qed simp

lemma pool_remove_more: "pool_remove n E r tx pool = Some q \<Longrightarrow> n \<le> m \<Longrightarrow> pool_remove m E r tx pool = Some q"
proof (induction n arbitrary: m r tx pool q)
  case (Suc n)
  obtain k where m: "m = Suc k" "n \<le> k" using Suc.prems(2) by (cases m) auto
  have "pool_remove k E True c p = Some p'" if "pool_remove n E True c p = Some p'" for c p p'
    using Suc.IH [OF that m(2)] .
  note children = remove_children_more [of "pool_remove n E True" "pool_remove k E True", OF this]
  show ?case
    using Suc.prems(1) children by (fastforce simp: m(1) Let_def split: if_splits)
qed simp

lemma shrinks_remove_one:
  assumes "pool_ok E pool" "map_of (mapTx pool) h = Some tx"
  shows "shrinks E rank 0 pool (remove_one h tx pool)"
  by (rule shrinksI [OF remove_one_ok [OF assms]]) (auto simp: remove_one_def split: if_splits)

lemma pool_remove_shrinks:
  assumes "pool_ok E pool" "ranked rank B pool" "map_of (mapTx pool) (tx_GetHash E tx) \<in> {None, Some tx}"
    and "pool_remove n E r tx pool = Some pool'"
  shows "shrinks E rank 0 pool pool'"
proof (cases "map_of (mapTx pool) (tx_GetHash E tx)")
  case None
  then have "pool' = pool" using assms(4) by (cases n) (simp_all add: Let_def pool_exists_def)
  then show ?thesis using shrinks_refl [OF assms(1)] by simp
next
  case (Some t)
  then have tx: "map_of (mapTx pool) (tx_GetHash E tx) = Some tx" using assms(3) by simp
  show ?thesis
  proof (cases r)
    case True
    have "pool_remove (max n (B + 1)) E True tx pool = Some pool'"
      using pool_remove_more [OF assms(4)] True by simp
    moreover have "B < max n (B + 1) + rank (tx_GetHash E tx)" by simp
    ultimately have "shrinks E rank (rank (tx_GetHash E tx)) pool pool'"
      using pool_remove_removes [OF assms(1,2) tx] by (fastforce simp: removes_def)
    then show ?thesis by (rule shrinks_mono) simp
  next
    case False
    then have "pool' = remove_one (tx_GetHash E tx) tx pool"
      using assms(4) tx by (cases n) (simp_all add: Let_def pool_exists_def)
    then show ?thesis using shrinks_remove_one [OF assms(1) tx] by simp
  qed
qed

section \<open>Removing conflicts\<close>

lemma conflicts_loop_clears:
  assumes "pool_ok E pool" "ranked rank B pool" "B < n"
  shows "\<exists>pool'. conflicts_loop n E tx xs pool = Some pool' \<and> shrinks E rank 0 pool pool' \<and>
    (\<forall>x \<in> set xs. \<forall>p. mapNextTx pool' (prevout x) = Some p \<longrightarrow> map_of (mapTx pool') (ptx p) = Some tx)"
  using assms(1,2)
proof (induction xs arbitrary: pool)
  case Nil
  then show ?case by (simp add: shrinks_refl)
next
  case (Cons x xs)
  have step: ?case if s: "shrinks E rank 0 pool q"
    and n: "\<And>p. mapNextTx q (prevout x) = Some p \<Longrightarrow> map_of (mapTx q) (ptx p) = Some tx"
    and e: "conflicts_loop n E tx (x # xs) pool = conflicts_loop n E tx xs q" for q
  proof -
    have q: "pool_ok E q" "ranked rank B q"
      using s shrinks_ranked [OF s Cons.prems(2)] by (simp_all add: shrinks_def)
    from Cons.IH [OF q] obtain r where r: "conflicts_loop n E tx xs q = Some r" "shrinks E rank 0 q r"
      "\<forall>x \<in> set xs. \<forall>p. mapNextTx r (prevout x) = Some p \<longrightarrow> map_of (mapTx r) (ptx p) = Some tx"
      by blast
    have "map_of (mapTx r) (ptx p) = Some tx" if "mapNextTx r (prevout x) = Some p" for p
      using shrinks_next [OF r(2) q(1) that] n [of p] r(2) by (fastforce simp: shrinks_def)
    with r e shrinks_trans [OF s r(2)] show ?thesis by simp
  qed
  show ?case
  proof (cases "mapNextTx pool (prevout x)")
    case None
    then show ?thesis by (intro step [OF shrinks_refl]) (simp_all add: Cons.prems)
  next
    case (Some p)
    obtain c where c: "map_of (mapTx pool) (ptx p) = Some c"
      using pool_okD(4) [OF Cons.prems(1) Some] by blast
    have h: "tx_GetHash E c = ptx p" using pool_okD(2) [OF Cons.prems(1) c] .
    show ?thesis
    proof (cases "c = tx")
      case True
      then show ?thesis
        by (intro step [OF shrinks_refl]) (use Cons.prems Some c in simp_all)
    next
      case False
      obtain q where q: "pool_remove n E True c pool = Some q" "removes E rank (ptx p) (length (vout c)) pool q"
        using pool_remove_removes [OF Cons.prems, of c n] c h assms(3) by auto
      then have s: "shrinks E rank 0 pool q" using shrinks_mono [of E rank "rank (ptx p)" pool q 0] by (simp add: removes_def)
      have "mapNextTx q (prevout x) = None"
        using shrinks_next [OF s Cons.prems(1)] Some q(2)
        by (cases "mapNextTx q (prevout x)") (fastforce simp: removes_def)+
      then show ?thesis by (intro step [OF s]) (simp_all add: Some c False q(1))
    qed
  qed
qed

lemma conflicts_loop_more: "conflicts_loop n E tx xs pool = Some q \<Longrightarrow> n \<le> m \<Longrightarrow> conflicts_loop m E tx xs pool = Some q"
proof (induction xs arbitrary: pool)
  case (Cons x xs)
  then show ?case by (auto split: option.splits if_splits dest: pool_remove_more)
qed simp

lemma removeConflicts_shrinks:
  assumes "pool_ok E pool" "ranked rank B pool" "removeConflicts n E tx pool = Some pool'"
  shows "shrinks E rank 0 pool pool'"
  using conflicts_loop_clears [OF assms(1,2), of "max n (B + 1)" tx "vin tx"]
    conflicts_loop_more [OF assms(3) [unfolded removeConflicts_def], of "max n (B + 1)"] by auto

section \<open>Reachable pools\<close>

text \<open>
  The steps of the program: \<open>AcceptToMemoryPool\<close> adds a transaction that is not there, that passed
  \<open>CheckTransaction\<close> (so its inputs differ) and of which no input is spent in the pool; blocks remove their
  transactions, without those that spend them, and the conflicts of their transactions, with those that
  spend them. \<open>remove\<close> is called in either mode and with any fuel that lets it return; a transaction that
  stands in the pool under the hash of the removed one is that one. Following the links terminates because a
  transaction is hashed after those it spends, which \<open>rank\<close> states for the transactions that are added.
\<close>

inductive pool_reachable :: "external \<Rightarrow> (uint256 \<Rightarrow> nat) \<Rightarrow> nat \<Rightarrow> CTxMemPool \<Rightarrow> bool"
  for E rank B where
  start: "pool_reachable E rank B pool_empty"
| add: "pool_reachable E rank B pool \<Longrightarrow> \<not> pool_exists pool (tx_GetHash E tx) \<Longrightarrow>
    distinct (map prevout (vin tx)) \<Longrightarrow> \<forall>x \<in> set (vin tx). mapNextTx pool (prevout x) = None \<Longrightarrow>
    rank (tx_GetHash E tx) \<le> B \<Longrightarrow>
    \<forall>x \<in> set (vin tx). rank (op_hash (prevout x)) < rank (tx_GetHash E tx) \<Longrightarrow>
    pool_reachable E rank B (addUnchecked (tx_GetHash E tx) tx pool)"
| remove: "pool_reachable E rank B pool \<Longrightarrow> map_of (mapTx pool) (tx_GetHash E tx) \<in> {None, Some tx} \<Longrightarrow>
    pool_remove n E fRecursive tx pool = Some pool' \<Longrightarrow> pool_reachable E rank B pool'"
| conflicts: "pool_reachable E rank B pool \<Longrightarrow> removeConflicts n E tx pool = Some pool' \<Longrightarrow>
    pool_reachable E rank B pool'"
| updated: "pool_reachable E rank B pool \<Longrightarrow> pool_reachable E rank B (AddTransactionsUpdated k pool)"
| clear: "pool_reachable E rank B pool \<Longrightarrow> pool_reachable E rank B (pool_clear pool)"

lemma ranked_add:
  assumes "pool_ok E pool" "ranked rank B pool" "rank h \<le> B"
    and "\<forall>x \<in> set (vin tx). rank (op_hash (prevout x)) < rank h"
  shows "ranked rank B (addUnchecked h tx pool)"
  using assms by (auto simp: ranked_def addUnchecked_def pool_okD(1))

lemma pool_reachable_ok:
  "pool_reachable E rank B pool \<Longrightarrow> pool_ok E pool \<and> ranked rank B pool"
proof (induction rule: pool_reachable.induct)
  case start
  then show ?case using pool_empty_ok by (simp add: ranked_def pool_empty_def)
next
  case (add pool tx)
  then show ?case using addUnchecked_ok [OF _ refl] ranked_add by blast
next
  case (remove pool tx n fRecursive pool')
  then have "shrinks E rank 0 pool pool'" by (intro pool_remove_shrinks [of E pool rank B tx n fRecursive]) simp_all
  then show ?case using remove shrinks_ranked shrinksD(1) by blast
next
  case (conflicts pool n tx pool')
  then have "shrinks E rank 0 pool pool'" using removeConflicts_shrinks by blast
  then show ?case using conflicts shrinks_ranked shrinksD(1) by blast
next
  case (updated pool k)
  then show ?case by (simp add: pool_ok_def ranked_def AddTransactionsUpdated_def)
next
  case (clear pool)
  then show ?case using pool_clear_ok [of E pool] by (simp add: ranked_def pool_clear_def)
qed

end
