(* ===== verification/Orphans.thy ===== *)
theory Orphans
  imports Core OrdMap
begin

text \<open>
  Transactions whose inputs are not known yet (\<open>mapOrphanTransactions\<close> and \<open>mapOrphanTransactionsByPrev\<close>,
  src/main.cpp): adding, erasing, and evicting at random down to a bound. The random hashes that
  \<open>GetRandHash\<close> returns are an argument.
\<close>

record orphans =
  mapOrphanTransactions :: "(uint256, CTransaction) omap"
  mapOrphanTransactionsByPrev :: "uint256 \<Rightarrow> uint256 set option"

definition orphans_empty :: orphans where
  "orphans_empty = \<lparr>mapOrphanTransactions = [], mapOrphanTransactionsByPrev = Map.empty\<rparr>"

fun by_prev_insert ::
  "uint256 \<Rightarrow> CTxIn list \<Rightarrow> (uint256 \<Rightarrow> uint256 set option) \<Rightarrow> uint256 \<Rightarrow> uint256 set option" where
  "by_prev_insert h [] m = m"
| "by_prev_insert h (x # xs) m =
     by_prev_insert h xs (m(op_hash (prevout x) \<mapsto>
       insert h (case m (op_hash (prevout x)) of None \<Rightarrow> {} | Some s \<Rightarrow> s)))"

definition AddOrphanTx :: "external \<Rightarrow> CTransaction \<Rightarrow> orphans \<Rightarrow> bool \<times> orphans" where
  "AddOrphanTx E tx st =
     (let h = tx_GetHash E tx in
      if map_of (mapOrphanTransactions st) h \<noteq> None then (False, st)
      else if length (ser_tx tx) > 5000 then (False, st)
      else (True, \<lparr>mapOrphanTransactions = oput h tx (mapOrphanTransactions st),
                   mapOrphanTransactionsByPrev =
                     by_prev_insert h (vin tx) (mapOrphanTransactionsByPrev st)\<rparr>))"

fun by_prev_erase ::
  "uint256 \<Rightarrow> CTxIn list \<Rightarrow> (uint256 \<Rightarrow> uint256 set option) \<Rightarrow> uint256 \<Rightarrow> uint256 set option" where
  "by_prev_erase h [] m = m"
| "by_prev_erase h (x # xs) m =
     (case m (op_hash (prevout x)) of
        None \<Rightarrow> by_prev_erase h xs m
      | Some s \<Rightarrow>
          by_prev_erase h xs
            (m(op_hash (prevout x) := (if s - {h} = {} then None else Some (s - {h})))))"

definition EraseOrphanTx :: "uint256 \<Rightarrow> orphans \<Rightarrow> orphans" where
  "EraseOrphanTx h st =
     (case map_of (mapOrphanTransactions st) h of
        None \<Rightarrow> st
      | Some tx \<Rightarrow>
          \<lparr>mapOrphanTransactions = oerase h (mapOrphanTransactions st),
           mapOrphanTransactionsByPrev = by_prev_erase h (vin tx) (mapOrphanTransactionsByPrev st)\<rparr>)"

text \<open>\<open>lower_bound\<close>, or \<open>begin\<close> when it is the end.\<close>

definition random_orphan :: "uint256 \<Rightarrow> (uint256, CTransaction) omap \<Rightarrow> uint256 \<times> CTransaction" where
  "random_orphan randomhash m =
     (case dropWhile (\<lambda>e. fst e < randomhash) m of [] \<Rightarrow> hd m | it # _ \<Rightarrow> it)"

lemma random_orphan_in: "m \<noteq> [] \<Longrightarrow> random_orphan r m \<in> set m"
  by (auto simp: random_orphan_def split: list.splits dest: set_dropWhileD [of _ _ m])
     (metis list.set_intros(1) set_dropWhileD)

lemma size_oerase: "e \<in> set m \<Longrightarrow> length (oerase (fst e) m) < length m"
  unfolding oerase_def by (rule length_filter_less) auto

lemma size_EraseOrphanTx:
  assumes "mapOrphanTransactions st \<noteq> []"
  shows "length (mapOrphanTransactions (EraseOrphanTx (fst (random_orphan r (mapOrphanTransactions st))) st))
    < length (mapOrphanTransactions st)"
proof -
  let ?e = "random_orphan r (mapOrphanTransactions st)"
  have "?e \<in> set (mapOrphanTransactions st)" by (rule random_orphan_in [OF assms])
  moreover from this have "map_of (mapOrphanTransactions st) (fst ?e) \<noteq> None"
    by (metis map_of_eq_None_iff image_eqI)
  ultimately show ?thesis
    by (auto simp: EraseOrphanTx_def size_oerase split: option.splits)
qed

function limit_loop :: "(nat \<Rightarrow> uint256) \<Rightarrow> nat \<Rightarrow> nat \<Rightarrow> u32 \<Rightarrow> orphans \<Rightarrow> u32 \<times> orphans" where
  "limit_loop rand k nMaxOrphans nEvicted st =
     (if length (mapOrphanTransactions st) > nMaxOrphans then
        limit_loop rand (k + 1) nMaxOrphans (nEvicted + 1)
          (EraseOrphanTx (fst (random_orphan (rand k) (mapOrphanTransactions st))) st)
      else (nEvicted, st))"
  by auto
termination
  by (relation "measure (\<lambda>(rand, k, nMax, nEv, st). length (mapOrphanTransactions st))")
     (auto intro: size_EraseOrphanTx)

declare limit_loop.simps [simp del]

definition LimitOrphanTxSize :: "(nat \<Rightarrow> uint256) \<Rightarrow> u32 \<Rightarrow> orphans \<Rightarrow> u32 \<times> orphans" where
  "LimitOrphanTxSize rand nMaxOrphans st = limit_loop rand 0 (unat nMaxOrphans) 0 st"

section \<open>The invariant\<close>

text \<open>The second map is exactly the inverse of the first along the inputs, without empty sets.\<close>

definition spenders :: "(uint256, CTransaction) omap \<Rightarrow> uint256 \<Rightarrow> uint256 set" where
  "spenders m p = {h. \<exists>tx. map_of m h = Some tx \<and> p \<in> (\<lambda>x. op_hash (prevout x)) ` set (vin tx)}"

definition orphans_ok :: "external \<Rightarrow> orphans \<Rightarrow> bool" where
  "orphans_ok E st \<longleftrightarrow> omap_ok (mapOrphanTransactions st) \<and>
     (\<forall>h tx. map_of (mapOrphanTransactions st) h = Some tx \<longrightarrow>
        tx_GetHash E tx = h \<and> length (ser_tx tx) \<le> 5000) \<and>
     (\<forall>p. mapOrphanTransactionsByPrev st p =
        (let s = spenders (mapOrphanTransactions st) p in if s = {} then None else Some s))"

lemma by_prev_insert_at:
  "by_prev_insert h xs m p =
     (if p \<in> (\<lambda>x. op_hash (prevout x)) ` set xs
      then Some (insert h (case m p of None \<Rightarrow> {} | Some s \<Rightarrow> s)) else m p)"
  by (induction xs arbitrary: m) (auto split: option.splits)

lemma by_prev_erase_at:
  "(\<forall>p. m p \<noteq> Some {}) \<Longrightarrow> by_prev_erase h xs m p =
     (if p \<in> (\<lambda>x. op_hash (prevout x)) ` set xs
      then (case m p of None \<Rightarrow> None | Some s \<Rightarrow> if s - {h} = {} then None else Some (s - {h})) else m p)"
proof (induction xs arbitrary: m)
  case (Cons x xs)
  show ?case
  proof (cases "m (op_hash (prevout x))")
    case None
    then show ?thesis using Cons by auto
  next
    case (Some s)
    define m' where "m' = m(op_hash (prevout x) := (if s - {h} = {} then None else Some (s - {h})))"
    have "\<forall>p. m' p \<noteq> Some {}" using Cons.prems by (simp add: m'_def)
    note IH = Cons.IH [OF this]
    have step: "by_prev_erase h (x # xs) m p = by_prev_erase h xs m' p" using Some by (simp add: m'_def)
    have "m' p = (if p = op_hash (prevout x) then (if s - {h} = {} then None else Some (s - {h})) else m p)"
      by (simp add: m'_def)
    then show ?thesis unfolding step IH using Some by (auto split: if_splits)
  qed
qed simp

lemma AddOrphanTx_ok:
  assumes "orphans_ok E st"
  shows "orphans_ok E (snd (AddOrphanTx E tx st))"
proof (cases "map_of (mapOrphanTransactions st) (tx_GetHash E tx) \<noteq> None \<or> length (ser_tx tx) > 5000")
  case True
  then show ?thesis using assms by (auto simp: AddOrphanTx_def Let_def)
next
  case False
  let ?h = "tx_GetHash E tx" and ?m = "mapOrphanTransactions st"
  have ok: "omap_ok ?m" using assms by (simp add: orphans_ok_def)
  have "spenders (oput ?h tx ?m) p =
      (if p \<in> (\<lambda>x. op_hash (prevout x)) ` set (vin tx) then insert ?h (spenders ?m p) else spenders ?m p)" for p
    using False ok by (auto simp: spenders_def)
  moreover have "mapOrphanTransactionsByPrev st p =
      (if spenders ?m p = {} then None else Some (spenders ?m p))" for p
    using assms by (simp add: orphans_ok_def Let_def)
  ultimately show ?thesis
    using assms False ok
    by (auto simp: orphans_ok_def AddOrphanTx_def Let_def by_prev_insert_at)
qed

lemma EraseOrphanTx_ok:
  assumes "orphans_ok E st"
  shows "orphans_ok E (EraseOrphanTx h st)"
proof (cases "map_of (mapOrphanTransactions st) h")
  case None
  then show ?thesis using assms by (simp add: EraseOrphanTx_def)
next
  case (Some tx)
  let ?m = "mapOrphanTransactions st"
  have sp: "spenders (oerase h ?m) p = spenders ?m p - {h}" for p
    by (auto simp: spenders_def)
  have mem: "h \<in> spenders ?m p \<longleftrightarrow> p \<in> (\<lambda>x. op_hash (prevout x)) ` set (vin tx)" for p
    using Some by (simp add: spenders_def)
  have bp: "mapOrphanTransactionsByPrev st p =
      (if spenders ?m p = {} then None else Some (spenders ?m p))" for p
    using assms by (simp add: orphans_ok_def Let_def)
  have "by_prev_erase h (vin tx) (mapOrphanTransactionsByPrev st) p =
      (if spenders ?m p - {h} = {} then None else Some (spenders ?m p - {h}))" for p
    using mem [of p] by (subst by_prev_erase_at) (auto simp: bp)
  then show ?thesis
    using assms Some sp by (simp add: orphans_ok_def EraseOrphanTx_def Let_def)
qed

lemma length_oerase_in: "omap_ok m \<Longrightarrow> e \<in> set m \<Longrightarrow> length (oerase (fst e) m) = length m - 1"
proof (induction m)
  case (Cons a m)
  have a: "\<forall>x \<in> fst ` set m. fst a < x" "omap_ok m" using Cons.prems(1) by (cases a; simp)+
  show ?case
  proof (cases "fst e = fst a")
    case True
    then have "filter (\<lambda>e'. fst e' \<noteq> fst e) m = m" using a(1) by (auto simp: filter_id_conv)
    then show ?thesis using True by (simp add: oerase_def)
  next
    case False
    then have "e \<in> set m" using Cons.prems(2) by auto
    with Cons.IH [OF a(2)] False show ?thesis
      by (cases m) (auto simp: oerase_def)
  qed
qed simp

lemma limit_loop_spec:
  assumes "orphans_ok E st"
  shows "orphans_ok E (snd (limit_loop rand k nMax nEv st)) \<and>
    length (mapOrphanTransactions (snd (limit_loop rand k nMax nEv st))) =
      min (length (mapOrphanTransactions st)) nMax \<and>
    fst (limit_loop rand k nMax nEv st) = nEv + of_nat (length (mapOrphanTransactions st) - nMax)"
  using assms
proof (induction rand k nMax nEv st rule: limit_loop.induct)
  case (1 rand k nMax nEv st)
  let ?m = "mapOrphanTransactions st"
  let ?e = "random_orphan (rand k) ?m"
  show ?case
  proof (cases "length ?m > nMax")
    case True
    then have e: "?e \<in> set ?m" by (intro random_orphan_in) auto
    then obtain t where t: "map_of ?m (fst ?e) = Some t"
      by (metis image_eqI map_of_eq_None_iff option.exhaust)
    have ok: "omap_ok ?m" using 1(2) by (simp add: orphans_ok_def)
    let ?st = "EraseOrphanTx (fst ?e) st"
    have len: "length (mapOrphanTransactions ?st) = length ?m - 1"
      using length_oerase_in [OF ok e] t by (simp add: EraseOrphanTx_def)
    have "(1 :: u32) + of_nat (length ?m - 1 - nMax) = of_nat (Suc (length ?m - 1 - nMax))" by simp
    also have "Suc (length ?m - 1 - nMax) = length ?m - nMax" using True by simp
    finally have "nEv + 1 + of_nat (length ?m - 1 - nMax) = nEv + of_nat (length ?m - nMax)"
      by (metis add.assoc)
    then show ?thesis
      using 1(1) [OF True EraseOrphanTx_ok [OF 1(2)]] True
      by (subst (1 2 3) limit_loop.simps) (simp add: len)
  next
    case False
    then show ?thesis using 1(2) by (subst (1 2 3) limit_loop.simps) simp
  qed
qed

lemma orphans_empty_ok: "orphans_ok E orphans_empty"
  by (simp add: orphans_ok_def orphans_empty_def spenders_def)

inductive orphans_reachable :: "external \<Rightarrow> orphans \<Rightarrow> bool" for E where
  empty: "orphans_reachable E orphans_empty"
| add: "orphans_reachable E st \<Longrightarrow> orphans_reachable E (snd (AddOrphanTx E tx st))"
| erase: "orphans_reachable E st \<Longrightarrow> orphans_reachable E (EraseOrphanTx h st)"
| limit: "orphans_reachable E st \<Longrightarrow> orphans_reachable E (snd (LimitOrphanTxSize rand n st))"

lemma orphans_reachable_ok: "orphans_reachable E st \<Longrightarrow> orphans_ok E st"
  by (induction rule: orphans_reachable.induct)
     (simp_all add: orphans_empty_ok AddOrphanTx_ok EraseOrphanTx_ok LimitOrphanTxSize_def limit_loop_spec)

end
