(* ===== verification/Merkle.thy ===== *)
theory Merkle
  imports Core
begin

text \<open>
  The Merkle tree of a block (\<open>BuildMerkleTree\<close>, \<open>GetMerkleBranch\<close> and \<open>CheckMerkleBranch\<close> of
  \<open>CBlock\<close>, src/main.h): the loops over the flat vector \<open>vMerkleTree\<close>, in which the rows of the tree
  follow one another, \<open>j\<close> being where the current row starts and \<open>nSize\<close> how long it is. The
  specification is the tree as a list of rows.
\<close>

definition merkle_node :: "external \<Rightarrow> uint256 \<Rightarrow> uint256 \<Rightarrow> uint256" where
  "merkle_node E a b = Hash E (bytes_of_uint256 a @ bytes_of_uint256 b)"

function row_loop :: "external \<Rightarrow> nat \<Rightarrow> nat \<Rightarrow> nat \<Rightarrow> uint256 list \<Rightarrow> uint256 list" where
  "row_loop E j nSize i t =
     (if i < nSize then
        let i2 = min (i + 1) (nSize - 1) in
        row_loop E j nSize (i + 2) (t @ [merkle_node E (t ! (j + i)) (t ! (j + i2))])
      else t)"
  by auto
termination by (relation "measure (\<lambda>(E, j, nSize, i, t). nSize - i)") auto

declare row_loop.simps [simp del]

function level_loop :: "external \<Rightarrow> nat \<Rightarrow> nat \<Rightarrow> uint256 list \<Rightarrow> uint256 list" where
  "level_loop E j nSize t =
     (if nSize > 1 then level_loop E (j + nSize) ((nSize + 1) div 2) (row_loop E j nSize 0 t) else t)"
  by auto
termination by (relation "measure (\<lambda>(E, j, nSize, t). nSize)") auto

declare level_loop.simps [simp del]

text \<open>The root and the tree, which the block keeps.\<close>

definition BuildMerkleTree :: "external \<Rightarrow> CTransaction list \<Rightarrow> uint256 \<times> uint256 list" where
  "BuildMerkleTree E vtx =
     (let t = level_loop E 0 (length vtx) (map (tx_GetHash E) vtx) in (if t = [] then 0 else last t, t))"

function branch_loop :: "uint256 list \<Rightarrow> nat \<Rightarrow> nat \<Rightarrow> int \<Rightarrow> uint256 list" where
  "branch_loop t j nSize nIndex =
     (if nSize > 1 then
        let i = min (nIndex XOR 1) (int nSize - 1) in
        t ! (j + nat i) # branch_loop t (j + nSize) ((nSize + 1) div 2) (drop_bit 1 nIndex)
      else [])"
  by auto
termination by (relation "measure (\<lambda>(t, j, nSize, nIndex). nSize)") auto

declare branch_loop.simps [simp del]

definition GetMerkleBranch ::
  "external \<Rightarrow> CTransaction list \<Rightarrow> uint256 list \<Rightarrow> int \<Rightarrow> uint256 list \<times> uint256 list" where
  "GetMerkleBranch E vtx vMerkleTree nIndex =
     (let t = (if vMerkleTree = [] then snd (BuildMerkleTree E vtx) else vMerkleTree) in
      (branch_loop t 0 (length vtx) nIndex, t))"

fun check_branch_loop :: "external \<Rightarrow> uint256 \<Rightarrow> uint256 list \<Rightarrow> int \<Rightarrow> uint256" where
  "check_branch_loop E h [] nIndex = h"
| "check_branch_loop E h (otherside # rest) nIndex =
     check_branch_loop E
       (if nIndex AND 1 \<noteq> 0 then merkle_node E otherside h else merkle_node E h otherside)
       rest (drop_bit 1 nIndex)"

definition CheckMerkleBranch :: "external \<Rightarrow> uint256 \<Rightarrow> uint256 list \<Rightarrow> int \<Rightarrow> uint256" where
  "CheckMerkleBranch E h vMerkleBranch nIndex =
     (if nIndex = - 1 then 0 else check_branch_loop E h vMerkleBranch nIndex)"

section \<open>Specification: the rows of the tree\<close>

fun next_row :: "external \<Rightarrow> uint256 list \<Rightarrow> uint256 list" where
  "next_row E [] = []"
| "next_row E [a] = [merkle_node E a a]"
| "next_row E (a # b # r) = merkle_node E a b # next_row E r"

lemma length_next_row [simp]: "length (next_row E r) = (length r + 1) div 2"
  by (induction E r rule: next_row.induct) auto

function rows :: "external \<Rightarrow> uint256 list \<Rightarrow> uint256 list list" where
  "rows E r = (if length r > 1 then r # rows E (next_row E r) else [r])"
  by auto
termination by (relation "measure (\<lambda>(E, r). length r)") auto

declare rows.simps [simp del]

definition merkle_root :: "external \<Rightarrow> uint256 list \<Rightarrow> uint256" where
  "merkle_root E r = (if r = [] then 0 else hd (last (rows E r)))"

lemma rows_simps:
  "length r > 1 \<Longrightarrow> rows E r = r # rows E (next_row E r)"
  "\<not> length r > 1 \<Longrightarrow> rows E r = [r]"
  by (simp_all add: rows.simps [of E r])

lemma rows_not_Nil [simp]: "rows E r \<noteq> []"
  by (subst rows.simps) simp

section \<open>The loops compute the rows\<close>

lemma next_row_drop:
  assumes "i < length r"
  shows "next_row E (drop i r) =
    merkle_node E (r ! i) (r ! min (i + 1) (length r - 1)) # next_row E (drop (i + 2) r)"
proof (cases "i + 1 < length r")
  case True
  then have "drop i r = r ! i # r ! (i + 1) # drop (i + 2) r"
    using assms Cons_nth_drop_Suc [of i r] Cons_nth_drop_Suc [of "i + 1" r] by simp
  moreover have "min (i + 1) (length r - 1) = i + 1" using True by simp
  ultimately show ?thesis by simp
next
  case False
  then have "drop i r = [r ! i]" using assms Cons_nth_drop_Suc [of i r] by simp
  moreover have "min (i + 1) (length r - 1) = i" "drop (i + 2) r = []" using False assms by simp_all
  ultimately show ?thesis by simp
qed

lemma row_loop_eq:
  assumes "take (length r) (drop j t) = r" "j + length r \<le> length t"
  shows "row_loop E j (length r) i t = t @ next_row E (drop i r)"
  using assms
proof (induction E j "length r" i t rule: row_loop.induct)
  case (1 E j i t)
  have at: "t ! (j + k) = r ! k" if "k < length r" for k
    using that 1(3) arg_cong [OF 1(2), of "\<lambda>xs. xs ! k"] by simp
  show ?case
  proof (cases "i < length r")
    case True
    have "min (i + 1) (length r - 1) < length r" using True by linarith
    from at [OF True] at [OF this]
    have eq: "merkle_node E (t ! (j + i)) (t ! (j + min (i + 1) (length r - 1))) =
        merkle_node E (r ! i) (r ! min (i + 1) (length r - 1))"
      by (simp only:)
    let ?n = "merkle_node E (r ! i) (r ! min (i + 1) (length r - 1))"
    have "row_loop E j (length r) i t = row_loop E j (length r) (i + 2) (t @ [?n])"
      using True eq by (subst row_loop.simps) (simp only: Let_def if_True)
    also have "\<dots> = (t @ [?n]) @ next_row E (drop (i + 2) r)"
      using 1(1) [OF True refl] 1(2,3) by (simp only: eq) simp
    finally show ?thesis by (simp add: next_row_drop [OF True])
  qed (subst row_loop.simps, simp)
qed

lemma level_loop_eq:
  assumes "length t = j + length r" "drop j t = r"
  shows "level_loop E j (length r) t = take j t @ concat (rows E r)"
  using assms
proof (induction E r arbitrary: j t rule: rows.induct)
  case (1 E r)
  have t: "t = take j t @ r" using 1(3) by (metis append_take_drop_id)
  show ?case
  proof (cases "length r > 1")
    case True
    have "row_loop E j (length r) 0 t = t @ next_row E r"
      using row_loop_eq [of r j t E 0] 1(2,3) by simp
    then have "level_loop E j (length r) t = level_loop E (j + length r) (length (next_row E r)) (t @ next_row E r)"
      using True by (subst level_loop.simps) simp
    also have "\<dots> = t @ concat (rows E (next_row E r))"
      using 1(1) [OF True, of "t @ next_row E r" "j + length r"] 1(2) by simp
    finally show ?thesis using t by (simp add: rows_simps(1) [OF True, of E])
  next
    case False
    then show ?thesis using t by (subst level_loop.simps) (simp add: rows_simps)
  qed
qed

lemma next_row_not_Nil [simp]: "next_row E r = [] \<longleftrightarrow> r = []"
  by (cases "(E, r)" rule: next_row.cases) auto

lemma last_rows: "r \<noteq> [] \<Longrightarrow> length (last (rows E r)) = 1"
proof (induction E r rule: rows.induct)
  case (1 E r)
  show ?case
  proof (cases "length r > 1")
    case True
    then show ?thesis using 1(1) [OF True] 1(2) by (simp add: rows_simps(1))
  next
    case False
    then have "length r = 1" using 1(2) by (cases r) auto
    with False show ?thesis by (simp add: rows_simps(2))
  qed
qed

lemma last_concat: "xss \<noteq> [] \<Longrightarrow> last xss \<noteq> [] \<Longrightarrow> last (concat xss) = last (last xss)"
  by (induction xss rule: rev_induct) auto

lemma merkle_tree: "snd (BuildMerkleTree E vtx) = concat (rows E (map (tx_GetHash E) vtx))"
  using level_loop_eq [of "map (tx_GetHash E) vtx" 0 "map (tx_GetHash E) vtx" E]
  by (simp add: BuildMerkleTree_def Let_def)

lemma merkle_tree_root: "fst (BuildMerkleTree E vtx) = merkle_root E (map (tx_GetHash E) vtx)"
proof -
  let ?r = "map (tx_GetHash E) vtx"
  have t: "level_loop E 0 (length vtx) ?r = concat (rows E ?r)"
    using merkle_tree [of E vtx] by (simp add: BuildMerkleTree_def Let_def)
  show ?thesis
  proof (cases "vtx = []")
    case True
    then show ?thesis using t by (simp add: BuildMerkleTree_def Let_def merkle_root_def rows_simps)
  next
    case False
    then have l: "length (last (rows E ?r)) = 1" by (simp add: last_rows)
    then obtain x where x: "last (rows E ?r) = [x]" by (auto simp: length_Suc_conv)
    have "concat (rows E ?r) \<noteq> []"
      using last_in_set [OF rows_not_Nil, of E ?r] by (auto simp: x)
    then show ?thesis
      using False x last_concat [OF rows_not_Nil, of E ?r]
      by (simp add: BuildMerkleTree_def Let_def t merkle_root_def del: concat_eq_Nil_conv)
  qed
qed

section \<open>Branches\<close>

text \<open>The sibling of an entry of a row, and the entries a branch collects.\<close>

definition sibling :: "uint256 list \<Rightarrow> nat \<Rightarrow> uint256" where
  "sibling r i = r ! (if even i then min (i + 1) (length r - 1) else i - 1)"

lemma xor_index: "min (int i XOR 1) (int n - 1) = int (if even i then min (i + 1) (n - 1) else i - 1)"
  if "i < n"
  using that by (auto simp: xor_one_eq of_nat_diff elim: oddE)

lemma drop_bit_index: "drop_bit (Suc 0) (int i) = int (i div 2)"
  by (simp add: drop_bit_eq_div zdiv_int)

lemma next_row_nth:
  "i < length r \<Longrightarrow> next_row E r ! (i div 2) =
     (if even i then merkle_node E (r ! i) (sibling r i) else merkle_node E (sibling r i) (r ! i))"
proof (induction E r arbitrary: i rule: next_row.induct)
  case (3 E a b r)
  show ?case
  proof (cases "i < 2")
    case True
    then have "i = 0 \<or> i = 1" by auto
    then show ?thesis by (auto simp: sibling_def)
  next
    case False
    then obtain k where k: "i = k + 2" by (metis add.commute le_add_diff_inverse not_less)
    have "sibling (a # b # r) i = sibling r k"
      using 3(2) by (auto simp: sibling_def k min_def nth_Cons' elim!: oddE)
    then show ?thesis using 3 by (simp add: k)
  qed
qed (auto simp: sibling_def)

lemma branch_checks:
  assumes "i < length r" "drop j t = concat (rows E r)" "j \<le> length t"
  shows "check_branch_loop E (r ! i) (branch_loop t j (length r) (int i)) (int i) = merkle_root E r"
  using assms
proof (induction E r arbitrary: i j rule: rows.induct)
  case (1 E r)
  show ?case
  proof (cases "length r > 1")
    case True
    have d: "drop j t = r @ concat (rows E (next_row E r))" using 1(3) True by (simp add: rows_simps)
    have at: "t ! (j + k) = r ! k" if "k < length r" for k
      using d that 1(4) nth_drop [of j t k] by (simp add: nth_append)
    have sib: "t ! (j + nat (min (int i XOR 1) (int (length r) - 1))) = sibling r i"
      using 1(2) by (subst xor_index) (auto simp: sibling_def at)
    have "drop (j + length r) t = concat (rows E (next_row E r))"
      using arg_cong [OF d, of "drop (length r)"] by (simp add: add.commute)
    moreover have "j + length r \<le> length t"
      using arg_cong [OF d, of length] 1(4) by simp
    moreover have "i div 2 < length (next_row E r)" using 1(2) by simp
    ultimately have "check_branch_loop E (next_row E r ! (i div 2))
        (branch_loop t (j + length r) (length (next_row E r)) (int (i div 2))) (int (i div 2)) =
        merkle_root E (next_row E r)"
      using 1(1) [OF True] by blast
    moreover have "merkle_root E (next_row E r) = merkle_root E r"
      using True length_next_row [of E r] by (auto simp: merkle_root_def rows_simps simp del: length_next_row)
    moreover have "(int i AND 1 \<noteq> 0) = odd i" by (simp add: and_one_eq odd_iff_mod_2_eq_one) presburger
    ultimately show ?thesis
      using next_row_nth [OF 1(2), of E] True
      by (subst branch_loop.simps) (auto simp: Let_def sib drop_bit_index)
  next
    case False
    obtain x where "r = [x]" "i = 0" using False 1(2) by (cases r) auto
    then show ?thesis
      by (subst branch_loop.simps) (simp add: merkle_root_def rows_simps(2))
  qed
qed

lemma next_row_odd:
  "odd (length r) \<Longrightarrow> next_row E (r @ [last r]) = next_row E r"
proof (induction E r rule: next_row.induct)
  case (3 E a b r)
  then have "r \<noteq> []" by auto
  then show ?case using 3 by simp
qed auto

end
