(* ===== verification/Blocks.thy ===== *)
theory Blocks
  imports Merkle InterpProps
begin

text \<open>
  Blocks and the block index (\<open>CBlock\<close>, \<open>CBlockIndex\<close>, \<open>CDiskTxPos\<close>, \<open>CTxIndex\<close> and \<open>CBlockLocator\<close>,
  src/main.h) and the rules along a chain (src/main.cpp): the next target, proof of work, trust,
  rewards, the median time. A \<open>CBlockIndex*\<close> whose \<open>pprev\<close> links are followed is the list of the block
  and its ancestors, \<open>NULL\<close> the empty list. The hash scrypt computes is an argument.
\<close>

section \<open>Data\<close>

record CDiskTxPos =
  tp_nFile :: u32
  tp_nBlockPos :: u32
  tp_nTxPos :: u32

definition CDiskTxPos_null :: CDiskTxPos where
  "CDiskTxPos_null = \<lparr>tp_nFile = - 1, tp_nBlockPos = 0, tp_nTxPos = 0\<rparr>"

definition tp_IsNull :: "CDiskTxPos \<Rightarrow> bool" where
  "tp_IsNull p \<longleftrightarrow> tp_nFile p = - 1"

record CTxIndex =
  ti_pos :: CDiskTxPos
  vSpent :: "CDiskTxPos list"

definition CTxIndex_null :: CTxIndex where
  "CTxIndex_null = \<lparr>ti_pos = CDiskTxPos_null, vSpent = []\<rparr>"

definition CTxIndex_new :: "CDiskTxPos \<Rightarrow> nat \<Rightarrow> CTxIndex" where
  "CTxIndex_new posIn nOutputs = \<lparr>ti_pos = posIn, vSpent = replicate nOutputs CDiskTxPos_null\<rparr>"

record CBlock =
  b_nVersion :: int
  hashPrevBlock :: uint256
  hashMerkleRoot :: uint256
  b_nTime :: u32
  b_nBits :: u32
  b_nNonce :: u32
  vtx :: "CTransaction list"
  vchBlockSig :: "byte list"

definition ser_header :: "CBlock \<Rightarrow> byte list" where
  "ser_header b = bytes_of_int32 (b_nVersion b) @ bytes_of_uint256 (hashPrevBlock b) @
     bytes_of_uint256 (hashMerkleRoot b) @ bytes_of_u32 (b_nTime b) @ bytes_of_u32 (b_nBits b) @
     bytes_of_u32 (b_nNonce b)"

definition ser_block :: "CBlock \<Rightarrow> byte list" where
  "ser_block b = ser_header b @ ser_vector ser_tx (vtx b) @ ser_bytes (vchBlockSig b)"

definition sizeof_CTransaction :: nat where "sizeof_CTransaction = 64"

definition unser_block :: "CBlock reader" where
  "unser_block s =
     map_option (\<lambda>((v, p, m, t, b, n, txs, sig), r).
         (\<lparr>b_nVersion = v, hashPrevBlock = p, hashMerkleRoot = m, b_nTime = t, b_nBits = b, b_nNonce = n,
           vtx = txs, vchBlockSig = sig\<rparr>, r))
       (read_pair read_int32 (read_pair read_uint256 (read_pair read_uint256 (read_pair read_u32
         (read_pair read_u32 (read_pair read_u32 (read_pair (unser_vector sizeof_CTransaction unser_tx)
           unser_bytes)))))) s)"

definition GetPoWHash :: "(byte list \<Rightarrow> uint256) \<Rightarrow> CBlock \<Rightarrow> uint256" where
  "GetPoWHash scrypt_blockhash b = scrypt_blockhash (ser_header b)"

definition b_GetHash :: "external \<Rightarrow> (byte list \<Rightarrow> uint256) \<Rightarrow> CBlock \<Rightarrow> uint256" where
  "b_GetHash E scrypt_blockhash b =
     (if b_nVersion b > 6 then Hash E (ser_header b) else GetPoWHash scrypt_blockhash b)"

definition b_GetBlockTime :: "CBlock \<Rightarrow> int" where
  "b_GetBlockTime b = int (unat (b_nTime b))"

definition b_IsProofOfStake :: "CBlock \<Rightarrow> bool" where
  "b_IsProofOfStake b \<longleftrightarrow> length (vtx b) > 1 \<and> IsCoinStake (vtx b ! 1)"

definition b_GetProofOfStake :: "CBlock \<Rightarrow> COutPoint \<times> u32" where
  "b_GetProofOfStake b =
     (if b_IsProofOfStake b then (prevout (vin (vtx b ! 1) ! 0), tx_nTime (vtx b ! 1))
      else (COutPoint_null, 0))"

definition GetMaxTransactionTime :: "CBlock \<Rightarrow> int" where
  "GetMaxTransactionTime b = foldl (\<lambda>m tx. max m (int (unat (tx_nTime tx)))) 0 (vtx b)"

text \<open>A block the reader gives back: its numbers are of their width and no vector is above the limit.\<close>

definition block_ok :: "CBlock \<Rightarrow> bool" where
  "block_ok b \<longleftrightarrow> is_int32 (b_nVersion b) \<and> (length (vtx b) \<le> MAX_SIZE \<and> list_all tx_ok (vtx b)) \<and>
     length (vchBlockSig b) \<le> MAX_SIZE"

lemma codec_block: "codec ser_block unser_block block_ok"
proof -
  note c_tx = codec_vector [OF codec_tx, of sizeof_CTransaction]
  note c = codec_pair [OF codec_int32 codec_pair [OF codec_uint256 codec_pair [OF codec_uint256
      codec_pair [OF codec_u32 codec_pair [OF codec_u32 codec_pair [OF codec_u32 codec_pair [OF c_tx codec_bytes]]]]]]]
  have "codec (\<lambda>x. case (b_nVersion x, hashPrevBlock x, hashMerkleRoot x, b_nTime x, b_nBits x, b_nNonce x, vtx x,
          vchBlockSig x) of (a, b) \<Rightarrow>
        bytes_of_int32 a @ (case b of (a, b) \<Rightarrow> bytes_of_uint256 a @ (case b of (a, b) \<Rightarrow> bytes_of_uint256 a @
          (case b of (a, b) \<Rightarrow> bytes_of_u32 a @ (case b of (a, b) \<Rightarrow> bytes_of_u32 a @
            (case b of (a, b) \<Rightarrow> bytes_of_u32 a @ (case b of (a, b) \<Rightarrow> ser_vector ser_tx a @ ser_bytes b)))))))
      (\<lambda>s. map_option (\<lambda>(y, r). (case y of (v, p, m, t, b, n, txs, sig) \<Rightarrow>
          \<lparr>b_nVersion = v, hashPrevBlock = p, hashMerkleRoot = m, b_nTime = t, b_nBits = b, b_nNonce = n,
           vtx = txs, vchBlockSig = sig\<rparr>, r))
        (read_pair read_int32 (read_pair read_uint256 (read_pair read_uint256 (read_pair read_u32
         (read_pair read_u32 (read_pair read_u32 (read_pair (unser_vector sizeof_CTransaction unser_tx)
           unser_bytes)))))) s)) block_ok"
    by (rule codec_map [OF c]) (auto simp: block_ok_def sizeof_CTransaction_def)
  then show ?thesis
    by (simp add: ser_block_def [abs_def] ser_header_def unser_block_def [abs_def] case_prod_unfold)
qed

interpretation block: codec ser_block unser_block block_ok by (rule codec_block)

section \<open>The block index\<close>

record CBlockIndex =
  bi_hash :: uint256
  bi_nFile :: u32
  bi_nBlockPos :: u32
  nChainTrust :: uint256
  nHeight :: int
  bi_nFlags :: u32
  nStakeModifier :: uint256
  prevoutStake :: COutPoint
  nStakeTime :: u32
  hashProof :: uint256
  bi_nVersion :: int
  bi_hashMerkleRoot :: uint256
  bi_nTime :: u32
  bi_nBits :: u32
  bi_nNonce :: u32

type_synonym chain = "CBlockIndex list"

definition bi_GetBlockTime :: "CBlockIndex \<Rightarrow> int" where
  "bi_GetBlockTime p = int (unat (bi_nTime p))"

definition bi_IsProofOfStake :: "CBlockIndex \<Rightarrow> bool" where
  "bi_IsProofOfStake p \<longleftrightarrow> bi_nFlags p AND 1 \<noteq> 0"

definition GetStakeEntropyBit :: "CBlockIndex \<Rightarrow> u32" where
  "GetStakeEntropyBit p = drop_bit 1 (bi_nFlags p AND 2)"

definition SetStakeEntropyBit :: "u32 \<Rightarrow> CBlockIndex \<Rightarrow> bool \<times> CBlockIndex" where
  "SetStakeEntropyBit nEntropyBit p =
     (if nEntropyBit > 1 then (False, p)
      else (True, p\<lparr>bi_nFlags := bi_nFlags p OR (if nEntropyBit \<noteq> 0 then 2 else 0)\<rparr>))"

definition GeneratedStakeModifier :: "CBlockIndex \<Rightarrow> bool" where
  "GeneratedStakeModifier p \<longleftrightarrow> bi_nFlags p AND 4 \<noteq> 0"

definition SetStakeModifier :: "uint256 \<Rightarrow> bool \<Rightarrow> CBlockIndex \<Rightarrow> CBlockIndex" where
  "SetStakeModifier nModifier fGenerated p =
     (let p' = p\<lparr>nStakeModifier := nModifier\<rparr> in
      if fGenerated then p'\<lparr>bi_nFlags := bi_nFlags p' OR 4\<rparr> else p')"

text \<open>\<open>GetMedianTimePast\<close>: the times of at most eleven blocks, sorted.\<close>

definition GetMedianTimePast :: "chain \<Rightarrow> int" where
  "GetMedianTimePast pindex =
     (let times = sort (map bi_GetBlockTime (take 11 pindex)) in times ! (length times div 2))"

fun super_majority_loop :: "int \<Rightarrow> nat \<Rightarrow> nat \<Rightarrow> nat \<Rightarrow> chain \<Rightarrow> nat" where
  "super_majority_loop minVersion nRequired 0 nFound pstart = nFound"
| "super_majority_loop minVersion nRequired (Suc i) nFound [] = nFound"
| "super_majority_loop minVersion nRequired (Suc i) nFound (p # ps) =
     (if nFound < nRequired then
        super_majority_loop minVersion nRequired i
          (if bi_nVersion p \<ge> minVersion then nFound + 1 else nFound) ps
      else nFound)"

definition IsSuperMajority :: "int \<Rightarrow> chain \<Rightarrow> nat \<Rightarrow> nat \<Rightarrow> bool" where
  "IsSuperMajority minVersion pstart nRequired nToCheck \<longleftrightarrow>
     super_majority_loop minVersion nRequired nToCheck 0 pstart \<ge> nRequired"

text \<open>The depth at which the transaction was confirmed, or \<open>None\<close>.\<close>

fun confirmed_loop :: "CTxIndex \<Rightarrow> int \<Rightarrow> int \<Rightarrow> chain \<Rightarrow> int option" where
  "confirmed_loop txindex from_height nMaxDepth [] = None"
| "confirmed_loop txindex from_height nMaxDepth (p # ps) =
     (if from_height - nHeight p < nMaxDepth then
        if bi_nBlockPos p = tp_nBlockPos (ti_pos txindex) \<and> bi_nFile p = tp_nFile (ti_pos txindex)
        then Some (from_height - nHeight p)
        else confirmed_loop txindex from_height nMaxDepth ps
      else None)"

definition IsConfirmedInNPrevBlocks :: "CTxIndex \<Rightarrow> chain \<Rightarrow> int \<Rightarrow> int option" where
  "IsConfirmedInNPrevBlocks txindex pindexFrom nMaxDepth =
     (case pindexFrom of [] \<Rightarrow> None
      | p # _ \<Rightarrow> confirmed_loop txindex (nHeight p) nMaxDepth pindexFrom)"

section \<open>Targets\<close>

fun GetLastBlockIndex :: "chain \<Rightarrow> bool \<Rightarrow> chain" where
  "GetLastBlockIndex [] fProofOfStake = []"
| "GetLastBlockIndex [p] fProofOfStake = [p]"
| "GetLastBlockIndex (p # q # ps) fProofOfStake =
     (if bi_IsProofOfStake p \<noteq> fProofOfStake then GetLastBlockIndex (q # ps) fProofOfStake
      else p # q # ps)"

definition nTargetTimespan :: int where "nTargetTimespan = 16 * 60"
definition GetTargetSpacing :: int where "GetTargetSpacing = 120"

text \<open>
  \<open>None\<close>: \<open>pindexLast->nHeight\<close> is read through a null pointer, which the test for \<open>NULL\<close> comes after, or
  a division by zero.
\<close>

definition GetNextTargetRequired :: "external \<Rightarrow> int \<Rightarrow> int \<Rightarrow> chain \<Rightarrow> bool \<Rightarrow> u32 option" where
  "GetNextTargetRequired E powLimit posLimit pindexLast fProofOfStake =
     (if fProofOfStake \<and> pindexLast = [] then None
      else let bnTargetLimit = (if fProofOfStake then posLimit else powLimit) in
        if pindexLast = [] then Some (GetCompact E bnTargetLimit)
        else let pindexPrev = GetLastBlockIndex pindexLast fProofOfStake in
          if tl pindexPrev = [] then Some (GetCompact E bnTargetLimit)
          else let pindexPrevPrev = GetLastBlockIndex (tl pindexPrev) fProofOfStake in
            if tl pindexPrevPrev = [] then Some (GetCompact E bnTargetLimit)
            else let
              nActual = bi_GetBlockTime (hd pindexPrev) - bi_GetBlockTime (hd pindexPrevPrev);
              nActualSpacing = (if nActual > GetTargetSpacing * 10 then GetTargetSpacing * 10 else nActual);
              bnNew = SetCompact E (bi_nBits (hd pindexPrev));
              nInterval = nTargetTimespan div GetTargetSpacing;
              bnNew = bn_mul E bnNew
                (bn_of_int E ((nInterval - 1) * GetTargetSpacing + nActualSpacing + nActualSpacing))
            in case bn_div E bnNew (bn_of_int E ((nInterval + 1) * GetTargetSpacing)) of
                 None \<Rightarrow> None
               | Some bnNew \<Rightarrow>
                   Some (GetCompact E
                     (if bn_le E bnNew (bn_of_int E 0) \<or> bn_lt E bnTargetLimit bnNew
                      then bnTargetLimit else bnNew)))"

definition CheckProofOfWork :: "external \<Rightarrow> int \<Rightarrow> uint256 \<Rightarrow> u32 \<Rightarrow> bool" where
  "CheckProofOfWork E powLimit h nBits =
     (let bnTarget = SetCompact E nBits in
      if bn_le E bnTarget (bn_of_int E 0) \<or> bn_lt E powLimit bnTarget then False
      else if h > getuint256 E bnTarget then False
      else True)"

definition GetBlockTrust :: "external \<Rightarrow> CBlockIndex \<Rightarrow> uint256 option" where
  "GetBlockTrust E p =
     (let bnTarget = SetCompact E (bi_nBits p) in
      if bn_le E bnTarget (bn_of_int E 0) then Some 0
      else map_option (getuint256 E)
        (bn_div E (bn_shl E (bn_of_int E 1) 256) (bn_add E bnTarget (bn_of_int E 1))))"

section \<open>Rewards\<close>

definition GetProofOfWorkReward :: "int \<Rightarrow> int \<Rightarrow> int" where
  "GetProofOfWorkReward best_height nFees =
     (let h = best_height + 1;
          nSubsidy = (if h = 1 then 57000000 * COIN
                      else if h > 1 \<and> h \<le> 10 then 10 * COIN
                      else if h > 10 \<and> h \<le> 50 then 20 * COIN
                      else if h > 50 \<and> h \<le> 100 then 25 * COIN
                      else 1 * COIN)
      in s64 (nSubsidy + nFees))"

definition GetProofOfStakeReward :: "u64 \<Rightarrow> int \<Rightarrow> u64" where
  "GetProofOfStakeReward nCoinAge nFees =
     nCoinAge * of_int (6 * CENT) * 33 div (365 * 33 + 8) + of_int nFees"

section \<open>Locators\<close>

text \<open>\<open>have\<close> is the number of hashes pushed so far.\<close>

function locator_loop :: "nat \<Rightarrow> nat \<Rightarrow> chain \<Rightarrow> uint256 list" where
  "locator_loop nStep have pindex =
     (case pindex of [] \<Rightarrow> []
      | p # _ \<Rightarrow> bi_hash p #
          (if nStep = 0 then [] else
           locator_loop (if have + 1 > 10 then nStep * 2 else nStep) (have + 1) (drop nStep pindex)))"
  by auto
termination by (relation "measure (\<lambda>(nStep, have, pindex). length pindex)") auto

declare locator_loop.simps [simp del]

definition locator_Set :: "uint256 \<Rightarrow> chain \<Rightarrow> uint256 list" where
  "locator_Set hashGenesisBlock pindex = locator_loop 1 0 pindex @ [hashGenesisBlock]"

text \<open>The first block of the locator in the main chain: its index entry, by the map and the test that
  the entry is in the main chain.\<close>

fun locator_GetBlockIndex ::
  "(uint256 \<Rightarrow> CBlockIndex option) \<Rightarrow> (CBlockIndex \<Rightarrow> bool) \<Rightarrow> CBlockIndex option \<Rightarrow> uint256 list \<Rightarrow>
     CBlockIndex option" where
  "locator_GetBlockIndex mapBlockIndex IsInMainChain pindexGenesis [] = pindexGenesis"
| "locator_GetBlockIndex mapBlockIndex IsInMainChain pindexGenesis (h # hs) =
     (case mapBlockIndex h of
        Some p \<Rightarrow> if IsInMainChain p then Some p
                  else locator_GetBlockIndex mapBlockIndex IsInMainChain pindexGenesis hs
      | None \<Rightarrow> locator_GetBlockIndex mapBlockIndex IsInMainChain pindexGenesis hs)"

fun distance_loop ::
  "(uint256 \<Rightarrow> CBlockIndex option) \<Rightarrow> (CBlockIndex \<Rightarrow> bool) \<Rightarrow> int \<Rightarrow> int \<Rightarrow> uint256 list \<Rightarrow> int" where
  "distance_loop mapBlockIndex IsInMainChain nDistance nStep [] = nDistance"
| "distance_loop mapBlockIndex IsInMainChain nDistance nStep (h # hs) =
     (if (case mapBlockIndex h of Some p \<Rightarrow> IsInMainChain p | None \<Rightarrow> False) then nDistance
      else distance_loop mapBlockIndex IsInMainChain (s32 (nDistance + nStep))
        (if s32 (nDistance + nStep) > 10 then s32 (nStep * 2) else nStep) hs)"

definition GetDistanceBack ::
  "(uint256 \<Rightarrow> CBlockIndex option) \<Rightarrow> (CBlockIndex \<Rightarrow> bool) \<Rightarrow> uint256 list \<Rightarrow> int" where
  "GetDistanceBack mapBlockIndex IsInMainChain vHave = distance_loop mapBlockIndex IsInMainChain 0 1 vHave"

section \<open>Facts about chains\<close>

lemma GetLastBlockIndex_not_Nil [simp]: "GetLastBlockIndex c f = [] \<longleftrightarrow> c = []"
  by (induction c f rule: GetLastBlockIndex.induct) auto

lemma GetLastBlockIndex_kind:
  "tl (GetLastBlockIndex c f) \<noteq> [] \<Longrightarrow> bi_IsProofOfStake (hd (GetLastBlockIndex c f)) = f"
  by (induction c f rule: GetLastBlockIndex.induct) auto

text \<open>The number of bytes of a positive number says how large it is.\<close>

lemma le_min_lower: "0 < n \<Longrightarrow> 256 ^ (length (le_min n) - 1) \<le> n"
proof (induction n rule: le_min.induct)
  case (1 n)
  show ?case
  proof (cases "n div 256 = 0")
    case True
    then show ?thesis using 1(2) by (subst le_min.simps) simp
  next
    case False
    then have "256 ^ (length (le_min (n div 256)) - 1) \<le> n div 256" using 1 by simp
    moreover have "length (le_min (n div 256)) > 0" using False by simp
    ultimately have "256 ^ length (le_min (n div 256)) \<le> 256 * (n div 256)"
      by (cases "length (le_min (n div 256))") auto
    then have "256 ^ length (le_min (n div 256)) \<le> n" by linarith
    then show ?thesis using 1(2) by (subst le_min.simps) simp
  qed
qed

lemma mpi_bytes_lower:
  assumes "0 < v"
  shows "256 ^ (length (mpi_bytes v) - 3) \<le> v"
proof -
  let ?n = "nat v"
  have "length (mpi_bytes v) \<le> length (le_min ?n) + 1"
    using assms by (cases "rev (le_min ?n)") (auto simp: mpi_bytes_def)
  then have "(256 :: nat) ^ (length (mpi_bytes v) - 3) \<le> 256 ^ (length (le_min ?n) - 1)"
    by (intro power_increasing) auto
  also have "\<dots> \<le> ?n" using assms by (intro le_min_lower) simp
  finally have "int (256 ^ (length (mpi_bytes v) - 3)) \<le> v" using assms by linarith
  then show ?thesis by simp
qed

text \<open>Rounding a positive target to the compact form keeps it positive and does not raise it.\<close>

lemma compact_round:
  assumes "bn_ok E" "0 < v" "v < 2 ^ 256"
  shows "0 < SetCompact E (GetCompact E v)" "SetCompact E (GetCompact E v) \<le> v"
proof -
  let ?k = "256 ^ (length (mpi_bytes v) - 3) :: int"
  have "length (mpi_bytes v) \<le> Suc 32" using assms by (intro length_mpi_bytes) simp
  then have eq: "SetCompact E (GetCompact E v) = v - v mod ?k"
    using SetCompact_GetCompact [OF assms(1), of v] assms(2) by simp
  have "?k \<le> v" by (rule mpi_bytes_lower [OF assms(2)])
  moreover have "v mod ?k < ?k" "0 \<le> v mod ?k" by simp_all
  ultimately show "0 < SetCompact E (GetCompact E v)" "SetCompact E (GetCompact E v) \<le> v"
    unfolding eq by linarith+
qed

section \<open>The next target\<close>

text \<open>The specification: the old target scaled by the spacing, which is capped at ten times the aim.\<close>

definition retarget :: "int \<Rightarrow> int \<Rightarrow> int \<Rightarrow> int" where
  "retarget limit old spacing =
     (let new = old * (840 + 2 * min spacing 1200) div 1080 in
      if new \<le> 0 \<or> new > limit then limit else new)"

lemma retarget_bounds: "0 < limit \<Longrightarrow> 0 < retarget limit old spacing \<and> retarget limit old spacing \<le> limit"
  by (simp add: retarget_def Let_def)

text \<open>The division of OpenSSL rounds toward zero, so a negative quotient is not positive either way.\<close>

lemma trunc_div_cases:
  assumes "bn_ok E" "0 < b"
  shows "\<exists>q. bn_div E a b = Some q \<and> (0 \<le> a \<longrightarrow> q = a div b) \<and> (a < 0 \<longrightarrow> q \<le> 0)"
  using assms by (auto simp: bn_div_def bn_okD sgn_if pos_imp_zdiv_nonneg_iff)

lemma GetNextTargetRequired_eq:
  assumes "bn_ok E" "tl (GetLastBlockIndex c f) \<noteq> []"
    and "tl (GetLastBlockIndex (tl (GetLastBlockIndex c f)) f) \<noteq> []"
  defines "p \<equiv> hd (GetLastBlockIndex c f)"
    and "q \<equiv> hd (GetLastBlockIndex (tl (GetLastBlockIndex c f)) f)"
  shows "GetNextTargetRequired E powLimit posLimit c f =
    Some (GetCompact E (retarget (if f then posLimit else powLimit) (SetCompact E (bi_nBits p))
      (bi_GetBlockTime p - bi_GetBlockTime q)))"
proof -
  let ?old = "SetCompact E (bi_nBits p)" and ?a = "bi_GetBlockTime p - bi_GetBlockTime q"
  let ?m = "840 + 2 * min ?a 1200" and ?limit = "if f then posLimit else powLimit"
  have c: "c \<noteq> []" using assms(2) by auto
  have t: "0 \<le> bi_GetBlockTime x \<and> bi_GetBlockTime x < 2 ^ 32" for x
    using unsigned_less [of "bi_nTime x", where 'a = nat] by (simp add: bi_GetBlockTime_def del: of_nat_unat)
  have m: "bn_of_int E ?m = ?m" using t [of p] t [of q] assms(1) by (intro bn_of_int_eq) (auto simp: min_def)
  obtain d where d: "bn_div E (?old * ?m) 1080 = Some d"
    "0 \<le> ?old * ?m \<longrightarrow> d = ?old * ?m div 1080" "?old * ?m < 0 \<longrightarrow> d \<le> 0"
    using trunc_div_cases [OF assms(1), of 1080 "?old * ?m"] by auto
  have clamp: "(if d \<le> 0 \<or> ?limit < d then ?limit else d) = retarget ?limit ?old ?a"
  proof (cases "0 \<le> ?old * ?m")
    case True
    then show ?thesis using d(2) by (auto simp: retarget_def Let_def)
  next
    case False
    then have "?old * ?m div 1080 < 0" by (simp add: neg_imp_zdiv_neg_iff)
    then show ?thesis using d(3) False by (simp add: retarget_def Let_def)
  qed
  have m': "(nTargetTimespan div GetTargetSpacing - 1) * GetTargetSpacing +
      (if ?a > GetTargetSpacing * 10 then GetTargetSpacing * 10 else ?a) +
      (if ?a > GetTargetSpacing * 10 then GetTargetSpacing * 10 else ?a) = ?m"
    by (simp add: nTargetTimespan_def GetTargetSpacing_def min_def)
  have n: "(nTargetTimespan div GetTargetSpacing + 1) * GetTargetSpacing = 1080"
    by (simp add: nTargetTimespan_def GetTargetSpacing_def)
  show ?thesis
    unfolding GetNextTargetRequired_def Let_def p_def [symmetric] q_def [symmetric] m' n m
    using assms(2,3) c assms(1) d(1) clamp by (simp add: bn_of_int_eq)
qed

lemma GetNextTargetRequired_range:
  assumes "bn_ok E" "c \<noteq> []" "0 < powLimit" "powLimit < 2 ^ 256" "0 < posLimit" "posLimit < 2 ^ 256"
  shows "\<exists>nBits. GetNextTargetRequired E powLimit posLimit c f = Some nBits \<and>
    0 < SetCompact E nBits \<and> SetCompact E nBits \<le> (if f then posLimit else powLimit)"
proof -
  let ?limit = "if f then posLimit else powLimit"
  have limit: "0 < ?limit" "?limit < 2 ^ 256" using assms by auto
  have "\<exists>v. GetNextTargetRequired E powLimit posLimit c f = Some (GetCompact E v) \<and> 0 < v \<and> v \<le> ?limit"
  proof (cases "tl (GetLastBlockIndex c f) = [] \<or> tl (GetLastBlockIndex (tl (GetLastBlockIndex c f)) f) = []")
    case True
    then show ?thesis using assms(2) limit by (auto simp: GetNextTargetRequired_def Let_def)
  next
    case False
    then show ?thesis
      using GetNextTargetRequired_eq [OF assms(1), of c f powLimit posLimit] retarget_bounds [OF limit(1)]
      by blast
  qed
  then obtain v where v: "GetNextTargetRequired E powLimit posLimit c f = Some (GetCompact E v)" "0 < v" "v \<le> ?limit"
    by blast
  then show ?thesis using compact_round [OF assms(1), of v] limit(2) by force
qed

section \<open>Locators are short\<close>

text \<open>After the first eleven hashes every step is twice as long as the one before.\<close>

lemma locator_loop_length:
  assumes "10 \<le> have" "1 \<le> n"
  shows "n * 2 ^ length (locator_loop n have c) \<le> 2 * (length c + n)"
  using assms
proof (induction n "have" c rule: locator_loop.induct)
  case (1 n h c)
  show ?case
  proof (cases c)
    case Nil
    then show ?thesis by (subst locator_loop.simps) simp
  next
    case (Cons p ps)
    let ?rest = "locator_loop (n * 2) (h + 1) (drop n c)"
    have e: "locator_loop n h c = bi_hash p # ?rest"
      using Cons 1(2,3) by (subst locator_loop.simps) simp
    show ?thesis
    proof (cases "drop n c")
      case Nil
      then have "?rest = []" by (subst locator_loop.simps) simp
      then show ?thesis using e Cons by simp
    next
      case (Cons q qs)
      have "(n * 2) * 2 ^ length ?rest \<le> 2 * (length (drop n c) + n * 2)"
        using 1 \<open>c = p # ps\<close> by simp
      moreover have "length (drop n c) + n = length c"
        using Cons by (metis length_drop le_add_diff_inverse2 length_0_conv list.distinct(1) nat_le_linear diff_is_0_eq)
      ultimately show ?thesis using e by simp
    qed
  qed
qed

lemma locator_loop_first:
  "k + have \<le> 10 \<Longrightarrow> locator_loop 1 have c =
     map bi_hash (take k c) @ locator_loop 1 (have + k) (drop k c)"
proof (induction k arbitrary: c "have")
  case (Suc k)
  show ?case
  proof (cases c)
    case (Cons p ps)
    have "locator_loop 1 have c = bi_hash p # locator_loop 1 (have + 1) ps"
      using Cons Suc.prems by (subst locator_loop.simps) simp
    then show ?thesis using Suc.IH [of "have + 1" ps] Suc.prems Cons by simp
  qed (simp add: locator_loop.simps)
qed simp

lemma locator_length:
  "2 ^ (length (locator_Set g c) - 11) \<le> 2 * (length c + 1)"
proof -
  let ?rest = "locator_loop 1 10 (drop 10 c)"
  have "locator_loop 1 0 c = map bi_hash (take 10 c) @ ?rest"
    using locator_loop_first [of 10 0 c] by simp
  then have "length (locator_Set g c) - 11 \<le> length ?rest"
    by (simp add: locator_Set_def)
  then have "(2 :: nat) ^ (length (locator_Set g c) - 11) \<le> 2 ^ length ?rest"
    by (intro power_increasing) auto
  also have "\<dots> \<le> 2 * (length c + 1)"
    using locator_loop_length [of 10 1 "drop 10 c"] by simp
  finally show ?thesis .
qed

end
