(* ===== verification/TxRules.thy ===== *)
theory TxRules
  imports Blocks Standard
begin

text \<open>
  The rules for a transaction (src/main.cpp): \<open>CheckTransaction\<close> without context, finality, the minimal
  fee, what is standard, and the counts of signature operations. A check that fails is \<open>Inl\<close> with the
  denial-of-service score it adds; an exception, a failed assertion or a read outside a vector is the
  \<open>None\<close> of an option around the result.
\<close>

definition MAX_BLOCK_SIZE :: nat where "MAX_BLOCK_SIZE = 1000000"
definition MAX_BLOCK_SIZE_GEN :: nat where "MAX_BLOCK_SIZE_GEN = MAX_BLOCK_SIZE div 2"
definition MAX_STANDARD_TX_SIZE :: nat where "MAX_STANDARD_TX_SIZE = MAX_BLOCK_SIZE_GEN div 5"
definition MAX_BLOCK_SIGOPS :: nat where "MAX_BLOCK_SIGOPS = MAX_BLOCK_SIZE div 50"
definition MAX_P2SH_SIGOPS :: nat where "MAX_P2SH_SIGOPS = 15"
definition MAX_TX_SIGOPS :: nat where "MAX_TX_SIGOPS = MAX_BLOCK_SIGOPS div 5"
definition MIN_TX_FEE :: int where "MIN_TX_FEE = 10000"
definition MIN_RELAY_TX_FEE :: int where "MIN_RELAY_TX_FEE = MIN_TX_FEE"

definition FutureDrift :: "int \<Rightarrow> int" where "FutureDrift nTime = nTime + 10 * 60"

type_synonym check = "int + unit"

section \<open>CheckTransaction\<close>

fun check_outs :: "CTransaction \<Rightarrow> int \<Rightarrow> CTxOut list \<Rightarrow> check" where
  "check_outs tx nValueOut [] = Inr ()"
| "check_outs tx nValueOut (txout # rest) =
     (if txout_IsEmpty txout \<and> \<not> IsCoinBase tx \<and> \<not> IsCoinStake tx then Inl 100
      else if nValue txout < 0 then Inl 100
      else if nValue txout > MAX_MONEY then Inl 100
      else
        let nValueOut = s64 (nValueOut + nValue txout) in
        if \<not> MoneyRange nValueOut then Inl 100 else check_outs tx nValueOut rest)"

fun distinct_prevouts :: "COutPoint set \<Rightarrow> CTxIn list \<Rightarrow> bool" where
  "distinct_prevouts vInOutPoints [] = True"
| "distinct_prevouts vInOutPoints (x # xs) =
     (if prevout x \<in> vInOutPoints then False else distinct_prevouts (insert (prevout x) vInOutPoints) xs)"

definition CheckTransaction :: "CTransaction \<Rightarrow> check" where
  "CheckTransaction tx =
     (if vin tx = [] then Inl 10
      else if vout tx = [] then Inl 10
      else if length (ser_tx tx) > MAX_BLOCK_SIZE then Inl 100
      else case check_outs tx 0 (vout tx) of
        Inl d \<Rightarrow> Inl d
      | Inr _ \<Rightarrow>
          if \<not> distinct_prevouts {} (vin tx) then Inl 0
          else if IsCoinBase tx then
            (if length (scriptSig (vin tx ! 0)) < 2 \<or> length (scriptSig (vin tx ! 0)) > 100
             then Inl 100 else Inr ())
          else if list_ex (\<lambda>x. op_IsNull (prevout x)) (vin tx) then Inl 10
          else Inr ())"

section \<open>Finality and fees\<close>

text \<open>The height of the best block and the adjusted time stand in for arguments that are 0.\<close>

definition IsFinalTx :: "int \<Rightarrow> int \<Rightarrow> CTransaction \<Rightarrow> int \<Rightarrow> int \<Rightarrow> bool" where
  "IsFinalTx best_height adjusted_time tx nBlockHeight nBlockTime =
     (if nLockTime tx = 0 then True
      else
        let nBlockHeight = (if nBlockHeight = 0 then best_height else nBlockHeight);
            nBlockTime = (if nBlockTime = 0 then adjusted_time else nBlockTime);
            lock = int (unat (nLockTime tx))
        in if lock < (if lock < int LOCKTIME_THRESHOLD then nBlockHeight else nBlockTime) then True
           else list_all txin_IsFinal (vin tx))"

datatype GetMinFee_mode = GMF_BLOCK | GMF_RELAY | GMF_SEND

definition GetMinFee :: "u32 \<Rightarrow> GetMinFee_mode \<Rightarrow> u32 \<Rightarrow> int" where
  "GetMinFee nBlockSize mode nBytes =
     (let nBaseFee = (if mode = GMF_RELAY then MIN_RELAY_TX_FEE else MIN_TX_FEE);
          nNewBlockSize = unat (nBlockSize + nBytes);
          nMinFee = s64 ((1 + int (unat nBytes) div 1000) * nBaseFee)
      in if nBlockSize \<noteq> 1 \<and> nNewBlockSize \<ge> MAX_BLOCK_SIZE_GEN div 2 \<and> nNewBlockSize \<ge> MAX_BLOCK_SIZE_GEN
         then MAX_MONEY
         else
           let nMinFee = (if nBlockSize \<noteq> 1 \<and> nNewBlockSize \<ge> MAX_BLOCK_SIZE_GEN div 2
                then s64 (nMinFee * int (MAX_BLOCK_SIZE_GEN div (MAX_BLOCK_SIZE_GEN - nNewBlockSize)))
                else nMinFee)
           in if \<not> MoneyRange nMinFee then MAX_MONEY else nMinFee)"

section \<open>Previous transactions\<close>

type_synonym MapPrevTx = "uint256 \<Rightarrow> (CTxIndex \<times> CTransaction) option"

definition GetOutputFor :: "CTxIn \<Rightarrow> MapPrevTx \<Rightarrow> CTxOut option" where
  "GetOutputFor input inputs =
     (case inputs (op_hash (prevout input)) of
        None \<Rightarrow> None
      | Some (_, txPrev) \<Rightarrow>
          if unat (op_n (prevout input)) \<ge> length (vout txPrev) then None
          else Some (vout txPrev ! unat (op_n (prevout input))))"

fun value_in_loop :: "MapPrevTx \<Rightarrow> int \<Rightarrow> CTxIn list \<Rightarrow> int option" where
  "value_in_loop inputs nResult [] = Some nResult"
| "value_in_loop inputs nResult (x # xs) =
     (case GetOutputFor x inputs of
        None \<Rightarrow> None
      | Some out \<Rightarrow> value_in_loop inputs (s64 (nResult + nValue out)) xs)"

definition GetValueIn :: "CTransaction \<Rightarrow> MapPrevTx \<Rightarrow> int option" where
  "GetValueIn tx inputs = (if IsCoinBase tx then Some 0 else value_in_loop inputs 0 (vin tx))"

section \<open>Signature operations\<close>

definition GetLegacySigOpCount :: "CTransaction \<Rightarrow> u32" where
  "GetLegacySigOpCount tx =
     foldl (\<lambda>n t. n + of_nat (GetSigOpCount False (scriptPubKey t)))
       (foldl (\<lambda>n x. n + of_nat (GetSigOpCount False (scriptSig x))) 0 (vin tx)) (vout tx)"

fun p2sh_sigops_loop :: "MapPrevTx \<Rightarrow> u32 \<Rightarrow> CTxIn list \<Rightarrow> u32 option" where
  "p2sh_sigops_loop inputs nSigOps [] = Some nSigOps"
| "p2sh_sigops_loop inputs nSigOps (x # xs) =
     (case GetOutputFor x inputs of
        None \<Rightarrow> None
      | Some out \<Rightarrow>
          p2sh_sigops_loop inputs
            (if IsPayToScriptHash (scriptPubKey out)
             then nSigOps + of_nat (GetSigOpCount_P2SH (scriptPubKey out) (scriptSig x)) else nSigOps) xs)"

definition GetP2SHSigOpCount :: "CTransaction \<Rightarrow> MapPrevTx \<Rightarrow> u32 option" where
  "GetP2SHSigOpCount tx inputs = (if IsCoinBase tx then Some 0 else p2sh_sigops_loop inputs 0 (vin tx))"

section \<open>Standard transactions\<close>

datatype nonstandard = Version | NonFinal | TimeTooNew | TxSize | ScriptSigSize | ScriptSigNotPushOnly |
  ScriptSigNonCanonicalPush | ScriptPubKey | Dust | ScriptPubKeyNonCanonicalPush | MultiOpReturn

fun standard_ins :: "CTxIn list \<Rightarrow> nonstandard option" where
  "standard_ins [] = None"
| "standard_ins (x # xs) =
     (if length (scriptSig x) > 1650 then Some ScriptSigSize
      else if \<not> IsPushOnly (scriptSig x) then Some ScriptSigNotPushOnly
      else if \<not> HasCanonicalPushes (scriptSig x) then Some ScriptSigNonCanonicalPush
      else standard_ins xs)"

fun standard_outs :: "nat \<Rightarrow> nat \<Rightarrow> CTxOut list \<Rightarrow> nonstandard + nat" where
  "standard_outs maxData nDataOut [] = Inr nDataOut"
| "standard_outs maxData nDataOut (t # ts) =
     (case IsStandard maxData (scriptPubKey t) of
        (ok, whichType) \<Rightarrow>
          if \<not> ok then Inl ScriptPubKey
          else if whichType \<noteq> TX_NULL_DATA \<and> nValue t = 0 then Inl Dust
          else if \<not> HasCanonicalPushes (scriptPubKey t) then Inl ScriptPubKeyNonCanonicalPush
          else standard_outs maxData (if whichType = TX_NULL_DATA then nDataOut + 1 else nDataOut) ts)"

definition IsStandardTx :: "nat \<Rightarrow> int \<Rightarrow> int \<Rightarrow> CTransaction \<Rightarrow> nonstandard option" where
  "IsStandardTx maxData best_height adjusted_time tx =
     (if tx_nVersion tx > 1 \<or> tx_nVersion tx < 1 then Some Version
      else if \<not> IsFinalTx best_height adjusted_time tx (best_height + 1) 0 then Some NonFinal
      else if int (unat (tx_nTime tx)) > FutureDrift adjusted_time then Some TimeTooNew
      else if length (ser_tx tx) \<ge> MAX_STANDARD_TX_SIZE then Some TxSize
      else case standard_ins (vin tx) of
        Some r \<Rightarrow> Some r
      | None \<Rightarrow>
          (case standard_outs maxData 0 (vout tx) of
             Inl r \<Rightarrow> Some r
           | Inr nDataOut \<Rightarrow>
               if nDataOut > 1 \<and> nDataOut > length (vout tx) div 2 then Some MultiOpReturn else None))"

text \<open>
  \<open>AreInputsStandard\<close>: the loop over the inputs with their positions. As in the code, a
  pay-to-script-hash input whose script is not a standard one answers for the whole transaction.
\<close>

fun inputs_standard_loop ::
  "external \<Rightarrow> nat \<Rightarrow> CTransaction \<Rightarrow> MapPrevTx \<Rightarrow> nat \<Rightarrow> CTxIn list \<Rightarrow> sigcache \<Rightarrow> bool option \<times> sigcache" where
  "inputs_standard_loop E maxData tx inputs i [] c = (Some True, c)"
| "inputs_standard_loop E maxData tx inputs i (x # xs) c =
     (case GetOutputFor x inputs of
        None \<Rightarrow> (None, c)
      | Some prev \<Rightarrow>
          (case Solver maxData (scriptPubKey prev) of
             (ok, whichType, vSolutions) \<Rightarrow>
               if \<not> ok then (Some False, c)
               else let nArgsExpected = ScriptSigArgsExpected whichType vSolutions in
                 if nArgsExpected < 0 then (Some False, c)
                 else let ctx = \<lparr>txTo = tx, nIn = i, ctx_flags = 0, ctx_hashType = 0\<rparr> in
                   case EvalScript E (CheckSig E ctx) ctx [] (scriptSig x) c of
                     (evaluated, stk, c) \<Rightarrow>
                       if \<not> evaluated then (Some False, c)
                       else if whichType = TX_SCRIPTHASH then
                         if stk = [] then (Some False, c)
                         else (case Solver maxData (hd stk) of
                             (ok2, whichType2, vSolutions2) \<Rightarrow>
                               if ok2 then
                                 let tmpExpected = ScriptSigArgsExpected whichType2 vSolutions2 in
                                 if tmpExpected < 0 then (Some False, c)
                                 else if int (length stk) \<noteq> nArgsExpected + tmpExpected then (Some False, c)
                                 else inputs_standard_loop E maxData tx inputs (i + 1) xs c
                               else (Some (GetSigOpCount True (hd stk) \<le> MAX_P2SH_SIGOPS), c))
                       else if int (length stk) \<noteq> nArgsExpected then (Some False, c)
                       else inputs_standard_loop E maxData tx inputs (i + 1) xs c))"

definition AreInputsStandard ::
  "external \<Rightarrow> nat \<Rightarrow> CTransaction \<Rightarrow> MapPrevTx \<Rightarrow> sigcache \<Rightarrow> bool option \<times> sigcache" where
  "AreInputsStandard E maxData tx inputs c =
     (if IsCoinBase tx then (Some True, c) else inputs_standard_loop E maxData tx inputs 0 (vin tx) c)"

section \<open>What the checks decide\<close>

lemma distinct_prevouts_iff:
  "distinct_prevouts S xs \<longleftrightarrow> distinct (map prevout xs) \<and> S \<inter> prevout ` set xs = {}"
  by (induction xs arbitrary: S) auto

lemma check_outs_iff:
  "MoneyRange v \<Longrightarrow> check_outs tx v outs = Inr () \<longleftrightarrow>
     list_all (\<lambda>t. MoneyRange (nValue t) \<and> (txout_IsEmpty t \<longrightarrow> IsCoinBase tx \<or> IsCoinStake tx)) outs \<and>
     MoneyRange (v + out_sum outs)"
proof (induction outs arbitrary: v)
  case Nil
  then show ?case by (simp add: out_sum_def)
next
  case (Cons t outs)
  show ?case
  proof (cases "MoneyRange (nValue t)")
    case True
    then have s: "s64 (v + nValue t) = v + nValue t"
      using Cons.prems by (intro s64_id) (auto simp: MoneyRange_def MAX_MONEY_def COIN_def)
    show ?thesis
    proof (cases "MoneyRange (v + nValue t)")
      case False
      then have "\<not> MoneyRange (v + out_sum (t # outs))" if "list_all (\<lambda>t. MoneyRange (nValue t)) outs"
        using out_sum_nonneg [OF that] Cons.prems True by (auto simp: out_sum_def MoneyRange_def)
      then show ?thesis using False True s by (auto simp: MoneyRange_def list_all_iff)
    qed (use Cons.IH [of "v + nValue t"] True s in \<open>auto simp: out_sum_def algebra_simps MoneyRange_def\<close>)
  qed (auto simp: MoneyRange_def)
qed

lemma check_outs_score: "check_outs tx v outs = Inl d \<Longrightarrow> d = 100"
  by (induction outs arbitrary: v) (auto simp: Let_def split: if_splits)

lemma CheckTransaction_iff:
  "CheckTransaction tx = Inr () \<longleftrightarrow>
     vin tx \<noteq> [] \<and> vout tx \<noteq> [] \<and> length (ser_tx tx) \<le> MAX_BLOCK_SIZE \<and>
     list_all (\<lambda>t. MoneyRange (nValue t) \<and> (txout_IsEmpty t \<longrightarrow> IsCoinBase tx \<or> IsCoinStake tx)) (vout tx) \<and>
     MoneyRange (out_sum (vout tx)) \<and> distinct (map prevout (vin tx)) \<and>
     (if IsCoinBase tx then length (scriptSig (vin tx ! 0)) \<in> {2..100}
      else list_all (\<lambda>x. \<not> op_IsNull (prevout x)) (vin tx))"
proof -
  have "check_outs tx 0 (vout tx) = Inr () \<longleftrightarrow>
      list_all (\<lambda>t. MoneyRange (nValue t) \<and> (txout_IsEmpty t \<longrightarrow> IsCoinBase tx \<or> IsCoinStake tx)) (vout tx) \<and>
      MoneyRange (out_sum (vout tx))"
    using check_outs_iff [of 0 tx "vout tx"] by (simp add: MoneyRange_def MAX_MONEY_def COIN_def)
  then show ?thesis
    by (cases "check_outs tx 0 (vout tx)")
       (auto simp: CheckTransaction_def distinct_prevouts_iff list_ex_iff list_all_iff not_less)
qed

lemma CheckTransaction_value: "CheckTransaction tx = Inr () \<Longrightarrow> GetValueOut tx = Some (out_sum (vout tx))"
  by (auto simp: CheckTransaction_iff GetValueOut_iff list_all_iff)

text \<open>The fee is an amount, nothing overflows, and a byte more never costs less.\<close>

lemma kilobytes:
  obtains k where "int (unat (nBytes :: u32)) div 1000 = k" "0 \<le> k" "k \<le> 4294967"
proof -
  have "unat nBytes \<le> 4294967295" using unsigned_less [of nBytes, where 'a = nat] by simp
  then have "unat nBytes div 1000 \<le> 4294967295 div 1000" by (rule div_le_mono)
  then have "unat nBytes div 1000 \<le> 4294967" by simp
  then have k: "int (unat nBytes div 1000) \<le> 4294967" by linarith
  have eq: "int (unat nBytes) div 1000 = int (unat nBytes div 1000)" by (simp only: zdiv_int of_nat_numeral)
  show thesis by (rule that [OF eq _ k]) simp
qed

lemma min_fee_scaled:
  assumes "0 \<le> k" "k \<le> 4294967" "n < 500000"
  shows "s64 ((1 + k) * 10000) = (1 + k) * 10000"
    and "s64 ((1 + k) * 10000 * int (500000 div (500000 - n))) = (1 + k) * 10000 * int (500000 div (500000 - n))"
    and "10000 \<le> (1 + k) * 10000 * int (500000 div (500000 - n))"
proof -
  let ?b = "(1 + k) * 10000" and ?d = "int (500000 div (500000 - n))"
  have b: "10000 \<le> ?b" "?b \<le> 42949680000" using assms by simp_all
  have "1 \<le> 500000 div (500000 - n)" using assms(3) by (simp add: div_greater_zero_iff Suc_le_eq)
  then have d: "1 \<le> ?d" "?d \<le> 500000" by simp_all
  show "s64 ?b = ?b" using b by (intro s64_id) simp_all
  have "?b * ?d \<le> 42949680000 * 500000" using b d by (intro mult_mono) auto
  moreover have "?b * 1 \<le> ?b * ?d" using b(1) d(1) by (intro mult_left_mono) auto
  then show lower: "10000 \<le> ?b * ?d" using b(1) unfolding mult_1_right by (rule order_trans [rotated])
  moreover have "x \<le> 42949680000 * 500000 \<Longrightarrow> 10000 \<le> x \<Longrightarrow> s64 x = x" for x by (intro s64_id) auto
  ultimately show "s64 (?b * ?d) = ?b * ?d" by blast
qed

lemma GetMinFee_range: "MIN_TX_FEE \<le> GetMinFee nBlockSize mode nBytes \<and> GetMinFee nBlockSize mode nBytes \<le> MAX_MONEY"
proof -
  obtain k where k: "int (unat nBytes) div 1000 = k" "0 \<le> k" "k \<le> 4294967" by (rule kilobytes)
  have "10000 \<le> (1 + k) * 10000" using k(2) by simp
  then show ?thesis
    using min_fee_scaled [OF k(2,3)] min_fee_scaled(1) [OF k(2,3), of 0]
    unfolding GetMinFee_def Let_def k(1)
    by (auto simp: MIN_TX_FEE_def MIN_RELAY_TX_FEE_def MAX_BLOCK_SIZE_GEN_def MAX_BLOCK_SIZE_def MoneyRange_def
        MAX_MONEY_def COIN_def not_le)
qed

end
