(* ===== verification/Base58.thy ===== *)
theory Base58
  imports KeyStore InterpProps
begin

text \<open>
  Base-58 text (src/base58.h): the encoding of bytes, the encoding with a checksum, and what is written
  with it, addresses and secret keys. A C string is the list of its characters, without a null
  character. The loop of the encoder divides until the number is zero; it takes fuel, and the
  fuel given is proved to be enough.
\<close>

definition pszBase58 :: string where
  "pszBase58 = ''123456789ABCDEFGHJKLMNPQRSTUVWXYZabcdefghijkmnopqrstuvwxyz''"

definition isspace :: "char \<Rightarrow> bool" where
  "isspace c \<longleftrightarrow> c = CHR '' '' \<or> (9 \<le> (of_char c :: nat) \<and> (of_char c :: nat) \<le> 13)"

fun strchr :: "string \<Rightarrow> char \<Rightarrow> nat option" where
  "strchr [] c = None"
| "strchr (x # xs) c = (if x = c then Some 0 else map_option Suc (strchr xs c))"

section \<open>Encoding and decoding\<close>

text \<open>\<open>None\<close>: \<open>BN_div\<close> failed, or the fuel is used up. The characters come in the order they are appended.\<close>

fun encode_loop :: "nat \<Rightarrow> external \<Rightarrow> int \<Rightarrow> string option" where
  "encode_loop fuel E bn =
     (if bn_lt E (bn_of_int E 0) bn then
        (case fuel of 0 \<Rightarrow> None
         | Suc n \<Rightarrow>
             (case BN_div E bn (bn_of_int E 58) of
                None \<Rightarrow> None
              | Some (dv, rem) \<Rightarrow> map_option ((#) (pszBase58 ! getulong E rem)) (encode_loop n E dv)))
      else Some [])"

declare encode_loop.simps [simp del]

definition EncodeBase58 :: "external \<Rightarrow> byte list \<Rightarrow> string option" where
  "EncodeBase58 E bs =
     map_option (\<lambda>str. rev (str @ replicate (length (takeWhile (\<lambda>b. b = 0) bs)) (pszBase58 ! 0)))
       (encode_loop (2 * length bs) E (setvch E (rev bs @ [0])))"

fun decode_loop :: "external \<Rightarrow> int \<Rightarrow> string \<Rightarrow> int option" where
  "decode_loop E bn [] = Some bn"
| "decode_loop E bn (c # cs) =
     (case strchr pszBase58 c of
        None \<Rightarrow> (if dropWhile isspace (c # cs) = [] then Some bn else None)
      | Some i \<Rightarrow> decode_loop E (bn_add E (BN_mul E bn (bn_of_int E 58)) (setulong E i)) cs)"

definition trim_sign :: "byte list \<Rightarrow> byte list" where
  "trim_sign v = (if length v \<ge> 2 \<and> last v = 0 \<and> v ! (length v - 2) \<ge> 0x80 then butlast v else v)"

definition DecodeBase58 :: "external \<Rightarrow> string \<Rightarrow> byte list option" where
  "DecodeBase58 E s =
     (let psz = dropWhile isspace s in
      map_option (\<lambda>bn.
          replicate (length (takeWhile (\<lambda>c. c = pszBase58 ! 0) psz)) 0 @ rev (trim_sign (getvch E bn)))
        (decode_loop E (bn_of_int E 0) psz))"

definition EncodeBase58Check :: "external \<Rightarrow> byte list \<Rightarrow> string option" where
  "EncodeBase58Check E v = EncodeBase58 E (v @ take 4 (bytes_of_uint256 (Hash E v)))"

definition DecodeBase58Check :: "external \<Rightarrow> string \<Rightarrow> byte list option" where
  "DecodeBase58Check E s =
     (case DecodeBase58 E s of
        None \<Rightarrow> None
      | Some v \<Rightarrow>
          if length v < 4 then None
          else let body = take (length v - 4) v in
            if take 4 (bytes_of_uint256 (Hash E body)) \<noteq> drop (length v - 4) v then None else Some body)"

section \<open>Addresses and secret keys\<close>

record CBase58Data =
  vchVersion :: "byte list"
  vchData :: "byte list"

definition b58_empty :: CBase58Data where
  "b58_empty = \<lparr>vchVersion = [], vchData = []\<rparr>"

definition b58_SetString :: "external \<Rightarrow> nat \<Rightarrow> string \<Rightarrow> bool \<times> CBase58Data" where
  "b58_SetString E nVersionBytes s =
     (let vchTemp = (case DecodeBase58Check E s of None \<Rightarrow> [] | Some v \<Rightarrow> v) in
      if length vchTemp < nVersionBytes then (False, b58_empty)
      else (True, \<lparr>vchVersion = take nVersionBytes vchTemp, vchData = drop nVersionBytes vchTemp\<rparr>))"

definition b58_ToString :: "external \<Rightarrow> CBase58Data \<Rightarrow> string option" where
  "b58_ToString E d = EncodeBase58Check E (vchVersion d @ vchData d)"

text \<open>The prefixes of the chain parameters.\<close>

record base58_prefixes =
  PUBKEY_ADDRESS :: "byte list"
  SCRIPT_ADDRESS :: "byte list"
  SECRET_KEY :: "byte list"

definition main_prefixes :: base58_prefixes where
  "main_prefixes = \<lparr>PUBKEY_ADDRESS = [25], SCRIPT_ADDRESS = [85], SECRET_KEY = [45]\<rparr>"

definition testnet_prefixes :: base58_prefixes where
  "testnet_prefixes = \<lparr>PUBKEY_ADDRESS = [65], SCRIPT_ADDRESS = [127], SECRET_KEY = [58]\<rparr>"

fun CBitcoinAddress :: "base58_prefixes \<Rightarrow> CTxDestination \<Rightarrow> CBase58Data" where
  "CBitcoinAddress P CNoDestination = b58_empty"
| "CBitcoinAddress P (KeyID i) = \<lparr>vchVersion = PUBKEY_ADDRESS P, vchData = bytes_of_uint160 i\<rparr>"
| "CBitcoinAddress P (ScriptID i) = \<lparr>vchVersion = SCRIPT_ADDRESS P, vchData = bytes_of_uint160 i\<rparr>"

definition address_IsValid :: "base58_prefixes \<Rightarrow> CBase58Data \<Rightarrow> bool" where
  "address_IsValid P d \<longleftrightarrow> length (vchData d) = 20 \<and>
     (vchVersion d = PUBKEY_ADDRESS P \<or> vchVersion d = SCRIPT_ADDRESS P)"

definition address_Get :: "base58_prefixes \<Rightarrow> CBase58Data \<Rightarrow> CTxDestination" where
  "address_Get P d =
     (if \<not> address_IsValid P d then CNoDestination
      else let i = of_nat (le_val (take 20 (vchData d))) in
        if vchVersion d = PUBKEY_ADDRESS P then KeyID i
        else if vchVersion d = SCRIPT_ADDRESS P then ScriptID i
        else CNoDestination)"

definition secret_SetKey :: "base58_prefixes \<Rightarrow> key \<Rightarrow> CBase58Data option" where
  "secret_SetKey P k =
     (if \<not> fValid k then None
      else Some \<lparr>vchVersion = SECRET_KEY P, vchData = key_vch k @ (if fCompressed k then [1] else [])\<rparr>)"

definition secret_IsValid :: "base58_prefixes \<Rightarrow> CBase58Data \<Rightarrow> bool" where
  "secret_IsValid P d \<longleftrightarrow>
     (length (vchData d) = 32 \<or> (length (vchData d) = 33 \<and> vchData d ! 32 = 1)) \<and> vchVersion d = SECRET_KEY P"

definition secret_SetString :: "external \<Rightarrow> base58_prefixes \<Rightarrow> string \<Rightarrow> bool \<times> CBase58Data" where
  "secret_SetString E P s =
     (case b58_SetString E 1 s of (ok, d) \<Rightarrow> (ok \<and> secret_IsValid P d, d))"

definition secret_GetKey :: "CBase58Data \<Rightarrow> key" where
  "secret_GetKey d =
     CKey_Set default_key (take 32 (vchData d)) (length (vchData d) > 32 \<and> vchData d ! 32 = 1)"

section \<open>The digits\<close>

fun digits58 :: "nat \<Rightarrow> nat list" where
  "digits58 n = (if n = 0 then [] else n mod 58 # digits58 (n div 58))"

declare digits58.simps [simp del]

lemma digits58_0 [simp]: "digits58 0 = []"
  by (simp add: digits58.simps)

lemma length_pszBase58: "length pszBase58 = 58"
  by (simp add: pszBase58_def)

lemma distinct_pszBase58: "distinct pszBase58"
  by (simp add: pszBase58_def)

lemma strchr_nth: "distinct xs \<Longrightarrow> i < length xs \<Longrightarrow> strchr xs (xs ! i) = Some i"
  by (induction xs arbitrary: i) (auto simp: nth_Cons split: nat.splits)

lemma digits58_bound: "n < 58 ^ k \<Longrightarrow> length (digits58 n) \<le> k"
proof (induction k arbitrary: n)
  case (Suc k)
  then have "n div 58 < 58 ^ k" by (simp add: less_mult_imp_div_less mult.commute)
  from Suc.IH [OF this] show ?case by (subst digits58.simps) simp
qed simp

lemma digits58_less: "d \<in> set (digits58 n) \<Longrightarrow> d < 58"
proof (induction n rule: digits58.induct)
  case (1 n)
  then show ?case by (cases "n = 0") (auto simp: digits58.simps [of n])
qed

lemma last_digits58: "n \<noteq> 0 \<Longrightarrow> last (digits58 n) \<noteq> 0"
proof (induction n rule: digits58.induct)
  case (1 n)
  show ?case
  proof (cases "n div 58 = 0")
    case True
    then show ?thesis using 1(2) by (subst digits58.simps) simp
  next
    case False
    then have "digits58 (n div 58) \<noteq> []" by (subst digits58.simps) simp
    then show ?thesis using 1 False by (subst digits58.simps) simp
  qed
qed

lemma digits58_value: "foldr (\<lambda>d v. d + 58 * v) (digits58 n) 0 = n"
proof (induction n rule: digits58.induct)
  case (1 n)
  then show ?case by (cases "n = 0") (auto simp: digits58.simps [of n])
qed

lemma encode_loop_digits:
  assumes "bn_ok E"
  shows "length (digits58 n) \<le> fuel \<Longrightarrow> encode_loop fuel E (int n) = Some (map ((!) pszBase58) (digits58 n))"
proof (induction fuel arbitrary: n)
  case 0
  then have "n = 0" by (cases "n = 0") (auto simp: digits58.simps [of n])
  then show ?case using assms by (simp add: encode_loop.simps)
next
  case (Suc fuel)
  show ?case
  proof (cases "n = 0")
    case False
    have "BN_div E (int n) 58 = Some (int (n div 58), int (n mod 58))"
      using assms False by (simp add: bn_okD zdiv_int zmod_int)
    moreover have "getulong E (int (n mod 58)) = n mod 58"
      using assms by (simp add: getulong_def bn_okD)
    moreover have "encode_loop fuel E (int (n div 58)) = Some (map ((!) pszBase58) (digits58 (n div 58)))"
      using Suc False by (intro Suc.IH) (simp add: digits58.simps [of n])
    ultimately show ?thesis
      using assms False by (subst encode_loop.simps) (simp add: digits58.simps [of n])
  qed (use assms in \<open>simp add: encode_loop.simps\<close>)
qed

lemma decode_loop_digits:
  assumes "bn_ok E" "\<forall>d \<in> set ds. d < 58"
  shows "decode_loop E (int v) (map ((!) pszBase58) ds) = Some (int (foldl (\<lambda>v d. v * 58 + d) v ds))"
  using assms(2)
proof (induction ds arbitrary: v)
  case (Cons d ds)
  have "strchr pszBase58 (pszBase58 ! d) = Some d"
    using Cons.prems by (intro strchr_nth) (auto simp: distinct_pszBase58 length_pszBase58)
  moreover have "bn_add E (BN_mul E (int v) (bn_of_int E 58)) (setulong E d) = int (v * 58 + d)"
    using assms(1) by (simp add: bn_okD setulong_def)
  ultimately show ?case using Cons.IH [of "v * 58 + d"] Cons.prems by simp
qed simp

lemma decode_zeros:
  "foldl (\<lambda>v d. v * 58 + d) 0 (replicate z 0 @ rev (digits58 n)) = (n :: nat)"
proof -
  have "foldl (\<lambda>v d. v * 58 + d) (0 :: nat) (replicate z 0) = 0" by (induction z) auto
  then show ?thesis
    using digits58_value [of n] by (simp add: foldl_conv_foldr add.commute mult.commute)
qed

section \<open>Round trips\<close>

text \<open>The number the bytes denote, and its little-endian bytes without the byte for the sign.\<close>

lemma trim_getvch: "bn_ok E \<Longrightarrow> trim_sign (getvch E (int n)) = le_min n"
proof -
  assume ok: "bn_ok E"
  show ?thesis
  proof (cases "le_min n" rule: rev_cases)
    case Nil
    then show ?thesis using ok by (simp add: getvch_eq mpi_bytes_def trim_sign_def)
  next
    case (snoc bs b)
    then have "n \<noteq> 0" by (cases "n = 0") auto
    then have b: "b \<noteq> 0" using last_le_min [of n] snoc by simp
    have g: "getvch E (int n) = (if b AND 0x80 \<noteq> 0 then bs @ [b, 0] else bs @ [b])"
      using ok by (simp add: getvch_eq mpi_bytes_def snoc)
    have "odd (unat b div 128) \<Longrightarrow> 128 \<le> unat b" by (metis div_less even_zero not_le)
    then have ge: "b AND 0x80 \<noteq> 0 \<Longrightarrow> b \<ge> 0x80"
      using bit_unsigned_iff [where 'a = nat, of b 7] by (simp add: bit7_iff word_le_nat_alt bit_iff_odd)
    show ?thesis using g b ge by (auto simp: trim_sign_def nth_append snoc butlast_append)
  qed
qed

lemma be_val_less: "be_val bs < 58 ^ (2 * length bs)"
proof -
  have "be_val bs < 256 ^ length bs" by (rule be_val_bound)
  also have "(256 :: nat) ^ length bs \<le> (58 ^ 2) ^ length bs" by (intro power_mono) auto
  finally show ?thesis by (simp add: power_mult)
qed

lemma setvch_be_val: "bn_ok E \<Longrightarrow> length bs < 2 ^ 31 \<Longrightarrow> setvch E (rev bs @ [0]) = int (be_val bs)"
  by (simp add: setvch_eq be_val_Cons)

definition base58_digits :: "byte list \<Rightarrow> nat list" where
  "base58_digits bs = replicate (length (takeWhile (\<lambda>b. b = 0) bs)) 0 @ rev (digits58 (be_val bs))"

lemma EncodeBase58_eq:
  assumes "bn_ok E" "length bs < 2 ^ 31"
  shows "EncodeBase58 E bs = Some (map ((!) pszBase58) (base58_digits bs))"
  using encode_loop_digits [OF assms(1) digits58_bound [OF be_val_less, of bs]] setvch_be_val [OF assms]
  by (simp add: EncodeBase58_def base58_digits_def rev_map)

lemma isspace_digit: "d < 58 \<Longrightarrow> \<not> isspace (pszBase58 ! d)"
proof -
  have "list_all (\<lambda>c. \<not> isspace c) pszBase58" by (simp add: pszBase58_def isspace_def)
  then show "d < 58 \<Longrightarrow> \<not> isspace (pszBase58 ! d)" by (simp add: list_all_length length_pszBase58)
qed

lemma base58_digits_less: "d \<in> set (base58_digits bs) \<Longrightarrow> d < 58"
  using digits58_less by (auto simp: base58_digits_def)

lemma first_digit: "d < 58 \<Longrightarrow> pszBase58 ! d = pszBase58 ! 0 \<longleftrightarrow> d = 0"
  using nth_eq_iff_index_eq [OF distinct_pszBase58, of d 0] by (simp add: length_pszBase58)

lemma leading_zeros:
  "takeWhile (\<lambda>c. c = pszBase58 ! 0) (map ((!) pszBase58) (base58_digits bs)) =
     replicate (length (takeWhile (\<lambda>b. b = 0) bs)) (pszBase58 ! 0)"
proof -
  let ?n = "be_val bs"
  have "takeWhile (\<lambda>c. c = pszBase58 ! 0) (map ((!) pszBase58) (rev (digits58 ?n))) = []"
  proof (cases "rev (digits58 ?n)")
    case (Cons d ds)
    then have "digits58 ?n = rev ds @ [d]" by (metis rev_rev_ident rev.simps(2))
    then have "d \<noteq> 0" "d < 58" using last_digits58 [of ?n] digits58_less [of d ?n] by (cases "?n = 0"; auto)+
    then show ?thesis by (simp add: Cons first_digit)
  qed simp
  then show ?thesis by (simp add: base58_digits_def takeWhile_append)
qed

lemma zeros_then_number: "replicate (length (takeWhile (\<lambda>b. b = 0) bs)) 0 @ rev (le_min (be_val bs)) = bs"
proof -
  have "takeWhile (\<lambda>b. b = 0) bs = replicate (length (takeWhile (\<lambda>b. b = 0) bs)) 0"
    by (metis (mono_tags) replicate_eqI set_takeWhileD)
  then show ?thesis by (metis le_min_be_val takeWhile_dropWhile_id)
qed

lemma DecodeBase58_Encode:
  assumes "bn_ok E" "length bs < 2 ^ 31"
  shows "DecodeBase58 E (map ((!) pszBase58) (base58_digits bs)) = Some bs"
proof -
  let ?s = "map ((!) pszBase58) (base58_digits bs)"
  have s: "dropWhile isspace ?s = ?s"
    using base58_digits_less [of "hd (base58_digits bs)" bs] isspace_digit
    by (cases "base58_digits bs") auto
  have "decode_loop E 0 ?s = Some (int (be_val bs))"
    using decode_loop_digits [OF assms(1), of "base58_digits bs" 0] base58_digits_less
      decode_zeros [of "length (takeWhile (\<lambda>b. b = 0) bs)" "be_val bs"]
    by (simp add: base58_digits_def)
  then show ?thesis
    using assms(1) by (simp add: DecodeBase58_def Let_def s leading_zeros trim_getvch zeros_then_number)
qed

text \<open>A text form: what is written is read back, so two values never have the same text.\<close>

locale text_form =
  fixes encode :: "'a \<Rightarrow> string option" and decode :: "string \<Rightarrow> 'a option" and ok :: "'a \<Rightarrow> bool"
  assumes written: "ok x \<Longrightarrow> \<exists>s. encode x = Some s"
    and read_write: "ok x \<Longrightarrow> encode x = Some s \<Longrightarrow> decode s = Some x"
begin

lemma write_inj: "ok x \<Longrightarrow> ok y \<Longrightarrow> encode x = encode y \<Longrightarrow> x = y"
  using written [of x] read_write [of x] read_write [of y] by fastforce

lemma round_trip: "ok x \<Longrightarrow> \<exists>s. encode x = Some s \<and> decode s = Some x"
  using written [of x] read_write [of x] by blast

end

lemma base58_text_form: "text_form (EncodeBase58 E) (DecodeBase58 E) (\<lambda>bs. bn_ok E \<and> length bs < 2 ^ 31)"
  by unfold_locales (auto simp: EncodeBase58_eq DecodeBase58_Encode)

interpretation base58: text_form "EncodeBase58 E" "DecodeBase58 E" "\<lambda>bs. bn_ok E \<and> length bs < 2 ^ 31" for E
  by (rule base58_text_form)

lemma base58check_text_form:
  "text_form (EncodeBase58Check E) (DecodeBase58Check E) (\<lambda>v. bn_ok E \<and> length v < 2 ^ 30)"
proof unfold_locales
  fix v :: "byte list"
  let ?w = "v @ take 4 (bytes_of_uint256 (Hash E v))"
  assume ok: "bn_ok E \<and> length v < 2 ^ 30"
  then have w: "bn_ok E \<and> length ?w < 2 ^ 31" by simp
  show "\<exists>s. EncodeBase58Check E v = Some s" using base58.written [OF w] by (simp add: EncodeBase58Check_def)
  fix s
  assume "EncodeBase58Check E v = Some s"
  then have "DecodeBase58 E s = Some ?w" using base58.read_write [OF w] by (simp add: EncodeBase58Check_def)
  then show "DecodeBase58Check E s = Some v" by (simp add: DecodeBase58Check_def Let_def)
qed

interpretation base58check: text_form "EncodeBase58Check E" "DecodeBase58Check E" "\<lambda>v. bn_ok E \<and> length v < 2 ^ 30"
  for E
  by (rule base58check_text_form)

section \<open>Addresses and keys read back\<close>

lemma b58_SetString_ToString:
  assumes "bn_ok E" "length (vchVersion d) = n" "length (vchData d) < 1000" "n < 1000"
  shows "\<exists>s. b58_ToString E d = Some s \<and> b58_SetString E n s = (True, d)"
proof -
  have "bn_ok E \<and> length (vchVersion d @ vchData d) < 2 ^ 30" using assms by simp
  from base58check.round_trip [OF this] assms(2) show ?thesis
    by (fastforce simp: b58_ToString_def b58_SetString_def Let_def)
qed

definition prefixes_ok :: "base58_prefixes \<Rightarrow> bool" where
  "prefixes_ok P \<longleftrightarrow> length (PUBKEY_ADDRESS P) = 1 \<and> length (SCRIPT_ADDRESS P) = 1 \<and>
     length (SECRET_KEY P) = 1 \<and> PUBKEY_ADDRESS P \<noteq> SCRIPT_ADDRESS P"

lemma chain_prefixes_ok: "prefixes_ok main_prefixes" "prefixes_ok testnet_prefixes"
  by (simp_all add: prefixes_ok_def main_prefixes_def testnet_prefixes_def)

definition write_address :: "external \<Rightarrow> base58_prefixes \<Rightarrow> CTxDestination \<Rightarrow> string option" where
  "write_address E P dest = b58_ToString E (CBitcoinAddress P dest)"

definition read_address :: "external \<Rightarrow> base58_prefixes \<Rightarrow> string \<Rightarrow> CTxDestination" where
  "read_address E P s = address_Get P (snd (b58_SetString E 1 s))"

lemma address_Get_eq:
  assumes "prefixes_ok P" "dest \<noteq> CNoDestination"
  shows "address_Get P (CBitcoinAddress P dest) = dest"
proof -
  have i: "(of_nat (le_val (bytes_of_uint160 i)) :: uint160) = i" for i
    unfolding bytes_of_uint160_def by (rule of_nat_le_val_word) simp
  show ?thesis
    using assms by (cases dest) (auto simp: address_Get_def address_IsValid_def prefixes_ok_def Let_def i)
qed

lemma address_text_form:
  "text_form (write_address E P) (\<lambda>s. Some (read_address E P s))
     (\<lambda>dest. bn_ok E \<and> prefixes_ok P \<and> dest \<noteq> CNoDestination)"
proof unfold_locales
  fix dest
  assume ok: "bn_ok E \<and> prefixes_ok P \<and> dest \<noteq> CNoDestination"
  have "length (vchVersion (CBitcoinAddress P dest)) = 1" "length (vchData (CBitcoinAddress P dest)) < 1000"
    using ok by (cases dest; simp add: prefixes_ok_def)+
  with b58_SetString_ToString [of E "CBitcoinAddress P dest" 1] ok obtain s where
    s: "b58_ToString E (CBitcoinAddress P dest) = Some s" "b58_SetString E 1 s = (True, CBitcoinAddress P dest)"
    by auto
  then show "\<exists>s. write_address E P dest = Some s" by (simp add: write_address_def)
  fix t
  assume "write_address E P dest = Some t"
  then show "Some (read_address E P t) = Some dest"
    using s ok address_Get_eq [of P dest] by (simp add: write_address_def read_address_def)
qed

interpretation address: text_form "write_address E P" "\<lambda>s. Some (read_address E P s)"
  "\<lambda>dest. bn_ok E \<and> prefixes_ok P \<and> dest \<noteq> CNoDestination" for E P
  by (rule address_text_form)

definition write_secret :: "external \<Rightarrow> base58_prefixes \<Rightarrow> key \<Rightarrow> string option" where
  "write_secret E P k = (case secret_SetKey P k of None \<Rightarrow> None | Some d \<Rightarrow> b58_ToString E d)"

definition read_secret :: "external \<Rightarrow> base58_prefixes \<Rightarrow> string \<Rightarrow> key option" where
  "read_secret E P s = (case secret_SetString E P s of (ok, d) \<Rightarrow> if ok then Some (secret_GetKey d) else None)"

lemma secret_text_form:
  "text_form (write_secret E P) (read_secret E P) (\<lambda>k. bn_ok E \<and> prefixes_ok P \<and> key_ok k)"
proof unfold_locales
  fix k
  assume ok: "bn_ok E \<and> prefixes_ok P \<and> key_ok k"
  let ?d = "\<lparr>vchVersion = SECRET_KEY P, vchData = key_vch k @ (if fCompressed k then [1] else [])\<rparr>"
  have k: "secret_SetKey P k = Some ?d" "length (key_vch k) = 32" "CKey_Check (key_vch k)" "fValid k"
    using ok by (auto simp: secret_SetKey_def key_ok_def)
  with b58_SetString_ToString [of E ?d 1] ok obtain s where
    s: "b58_ToString E ?d = Some s" "b58_SetString E 1 s = (True, ?d)"
    by (auto simp: prefixes_ok_def split: if_splits)
  then show "\<exists>s. write_secret E P k = Some s" using k by (simp add: write_secret_def)
  have "secret_IsValid P ?d" using k(2) by (auto simp: secret_IsValid_def nth_append)
  moreover have "secret_GetKey ?d = k"
    using k by (cases k) (auto simp: secret_GetKey_def CKey_Set_def default_key_def nth_append)
  ultimately have r: "read_secret E P s = Some k" using s by (simp add: read_secret_def secret_SetString_def)
  fix t
  assume "write_secret E P k = Some t"
  then show "read_secret E P t = Some k" using s k(1) r by (simp add: write_secret_def)
qed

interpretation secret: text_form "write_secret E P" "read_secret E P" "\<lambda>k. bn_ok E \<and> prefixes_ok P \<and> key_ok k"
  for E P
  by (rule secret_text_form)

end
