(* ===== verification/PoolSpec.thy ===== *)
theory PoolSpec
  imports MemPool Orphans TxRules Base58 StandardSpec
begin

text \<open>
  The properties of the pools of unconfirmed transactions (\<open>MemPool\<close>, \<open>Orphans\<close>), of the checks a
  transaction passes without context (\<open>TxRules\<close>), of the base-58 texts (\<open>Base58\<close>) and that asking
  for the owner of a script ends (\<open>Standard\<close>).
\<close>

section \<open>Concrete transactions\<close>

text \<open>A hash that keeps one byte of the time tells the transactions of the examples apart.\<close>

definition time_digest :: "byte list \<Rightarrow> byte list" where
  "time_digest bs = (if length bs = 32 then bs else bs ! 4 # replicate 31 0)"

definition time_hash :: external where
  "time_hash = openssl_ref\<lparr>SSL_SHA256 := time_digest\<rparr>"

lemma time_hash_bn_ok: "bn_ok time_hash"
  using openssl_ref_bn_ok by (simp add: bn_ok_def time_hash_def)

lemma time_hash_tx:
  assumes "length (ser_tx tx) \<noteq> 32"
  shows "tx_GetHash time_hash tx = of_nat (unat (tx_nTime tx) mod 256)"
proof -
  have "bytes_of_u32 (tx_nTime tx) ! 0 = of_nat (unat (tx_nTime tx) mod 256)"
    using le_bytes.simps(2) [of 3 "unat (tx_nTime tx)"] by (simp only: bytes_of_u32_def) simp
  then have "ser_tx tx ! 4 = of_nat (unat (tx_nTime tx) mod 256)"
    by (simp add: ser_tx_def nth_append)
  moreover have "le_val (replicate n 0) = 0" for n by (induction n) auto
  ultimately show ?thesis
    using assms by (simp add: tx_GetHash_def Hash_def time_hash_def time_digest_def unat_of_nat)
qed

definition parent :: CTransaction where
  "parent = \<lparr>tx_nVersion = 1, tx_nTime = 1, vin = [],
     vout = [\<lparr>nValue = 90000, scriptPubKey = [0x51, 0x51]\<rparr>], nLockTime = 0\<rparr>"

definition child :: CTransaction where
  "child = \<lparr>tx_nVersion = 1, tx_nTime = 2,
     vin = [\<lparr>prevout = \<lparr>op_hash = tx_GetHash time_hash parent, op_n = 0\<rparr>, scriptSig = [], nSequence = 0\<rparr>],
     vout = [\<lparr>nValue = 50000, scriptPubKey = [0x51, 0x51]\<rparr>], nLockTime = 0\<rparr>"

lemma parent_hash: "tx_GetHash time_hash parent = 1"
  by (subst time_hash_tx) (simp_all add: parent_def ser_tx_def ser_vector_def ser_txout_def ser_bytes_def
    WriteCompactSize_def)

lemma child_hash: "tx_GetHash time_hash child = 2"
  by (subst time_hash_tx) (simp_all add: child_def ser_tx_def ser_vector_def ser_txin_def ser_txout_def ser_bytes_def
    ser_outpoint_def WriteCompactSize_def)

section \<open>The memory pool\<close>

text \<open>C16: The memory pool holds no double spend. In every pool built from the empty one by adding checked
  transactions, removing transactions with or without those that spend them, removing conflicts and clearing,
  each entry stands under its own hash, an output is spent by at most one input of one entry, and \<open>mapNextTx\<close>
  has exactly the outputs spent by an entry, each with the input that spends it: no link is left
  to a transaction that was removed.\<close>

theorem mempool_no_double_spend:
  assumes "pool_reachable E rank B pool"
  shows "(\<forall>h t. map_of (mapTx pool) h = Some t \<longrightarrow> tx_GetHash E t = h) \<and>
    (\<forall>h t i k u j. map_of (mapTx pool) h = Some t \<and> i < length (vin t) \<and>
       map_of (mapTx pool) k = Some u \<and> j < length (vin u) \<and> prevout (vin t ! i) = prevout (vin u ! j) \<longrightarrow>
       h = k \<and> i = j \<and> t = u) \<and>
    (\<forall>o' p. mapNextTx pool o' = Some p \<longleftrightarrow>
       (\<exists>t. map_of (mapTx pool) (ptx p) = Some t \<and> in_n p < length (vin t) \<and> prevout (vin t ! in_n p) = o'))"
proof -
  have ok: "pool_ok E pool" using pool_reachable_ok [OF assms(1)] by blast
  note D = pool_okD(2-4) [OF ok]
  have next_tx: "mapNextTx pool o' = Some p \<longleftrightarrow>
      (\<exists>t. map_of (mapTx pool) (ptx p) = Some t \<and> in_n p < length (vin t) \<and> prevout (vin t ! in_n p) = o')" for o' p
    using D(2) [of "ptx p" _ "in_n p"] D(3) by auto
  have "h = k \<and> i = j \<and> t = u"
    if "map_of (mapTx pool) h = Some t" "i < length (vin t)" "map_of (mapTx pool) k = Some u" "j < length (vin u)"
      "prevout (vin t ! i) = prevout (vin u ! j)" for h t i k u j
    using D(2) [OF that(1,2)] D(2) [OF that(3,4)] that(1,3,5) by auto
  with D(1) next_tx show ?thesis by blast
qed

definition rank2 :: "uint256 \<Rightarrow> nat" where
  "rank2 h = (if h = 2 then 1 else 0)"

definition pool2 :: CTxMemPool where
  "pool2 = addUnchecked (tx_GetHash time_hash child) child
     (addUnchecked (tx_GetHash time_hash parent) parent pool_empty)"

lemma mapTx_pool2: "mapTx pool2 = [(1, parent), (2, child)]"
  by (simp add: pool2_def addUnchecked_def pool_empty_def parent_hash child_hash)

lemma pool2_reachable: "pool_reachable time_hash rank2 1 pool2"
proof -
  have p: "pool_reachable time_hash rank2 1 (addUnchecked (tx_GetHash time_hash parent) parent pool_empty)"
    by (rule pool_reachable.add [OF pool_reachable.start]) (simp_all add: pool_exists_def pool_empty_def rank2_def
      parent_hash, simp_all add: parent_def)
  have e: "addUnchecked (tx_GetHash time_hash parent) parent pool_empty =
      \<lparr>nTransactionsUpdated = 1, mapTx = [(1, parent)], mapNextTx = Map.empty\<rparr>"
    by (simp add: addUnchecked_def pool_empty_def parent_hash) (simp add: parent_def)
  have v: "vin child = [\<lparr>prevout = \<lparr>op_hash = 1, op_n = 0\<rparr>, scriptSig = [], nSequence = 0\<rparr>]"
    by (simp add: child_def parent_hash)
  show ?thesis
    unfolding pool2_def
    by (rule pool_reachable.add [OF p]) (simp_all add: e pool_exists_def rank2_def child_hash v)
qed

text \<open>A block takes the parent out of the pool, not the child.\<close>

definition pool3 :: CTxMemPool where
  "pool3 = remove_one 1 parent pool2"

lemma pool3_removed: "pool_remove 1 time_hash False parent pool2 = Some pool3"
  using parent_hash by (simp add: pool3_def pool_exists_def mapTx_pool2)

lemma pool3_reachable: "pool_reachable time_hash rank2 1 pool3"
  by (rule pool_reachable.remove [OF pool2_reachable _ pool3_removed]) (simp add: parent_hash mapTx_pool2)

lemma mempool_no_double_spend_witness:
  "mapTx pool3 = [(2, child)] \<and> mapNextTx pool3 \<lparr>op_hash = 1, op_n = 0\<rparr> = Some \<lparr>ptx = 2, in_n = 0\<rparr>"
proof -
  have m: "mapTx pool3 = [(2, child)]" by (simp add: pool3_def remove_one_def mapTx_pool2 oerase_def)
  have v: "vin child = [\<lparr>prevout = \<lparr>op_hash = 1, op_n = 0\<rparr>, scriptSig = [], nSequence = 0\<rparr>]"
    by (simp add: child_def parent_hash)
  have "\<forall>o' p. mapNextTx pool3 o' = Some p \<longleftrightarrow>
      (\<exists>t. map_of (mapTx pool3) (ptx p) = Some t \<and> in_n p < length (vin t) \<and> prevout (vin t ! in_n p) = o')"
    using mempool_no_double_spend [OF pool3_reachable] by blast
  from this [THEN spec, THEN spec, of "\<lparr>op_hash = 1, op_n = 0\<rparr>" "\<lparr>ptx = 2, in_n = 0\<rparr>"] m v show ?thesis by simp
qed

text \<open>C21: Removing an entry of the memory pool with its descendants returns, and leaves none of them: from
  every reachable pool the recursion needs at most one level more than the longest chain of entries, the
  entry is gone, no remaining entry spends an output of it, and nothing that is left is new.\<close>

theorem mempool_remove_terminates:
  assumes "pool_reachable E rank B pool" "map_of (mapTx pool) (tx_GetHash E tx) = Some tx" "B < n"
  shows "\<exists>pool'. pool_remove n E True tx pool = Some pool' \<and> map_of (mapTx pool') (tx_GetHash E tx) = None \<and>
    (\<forall>k u. map_of (mapTx pool') k = Some u \<longrightarrow> map_of (mapTx pool) k = Some u \<and>
      (\<forall>j < length (vin u). \<forall>i < length (vout tx).
        prevout (vin u ! j) \<noteq> \<lparr>op_hash = tx_GetHash E tx, op_n = of_nat i\<rparr>))"
proof -
  have ok: "pool_ok E pool" "ranked rank B pool" using pool_reachable_ok [OF assms(1)] by blast+
  obtain pool' where p: "pool_remove n E True tx pool = Some pool'"
    "removes E rank (tx_GetHash E tx) (length (vout tx)) pool pool'"
    using pool_remove_removes [OF ok assms(2), of n] assms(3) by auto
  have s: "shrinks E rank (rank (tx_GetHash E tx)) pool pool'" "map_of (mapTx pool') (tx_GetHash E tx) = None"
    and free: "\<And>i. i < length (vout tx) \<Longrightarrow> mapNextTx pool' \<lparr>op_hash = tx_GetHash E tx, op_n = of_nat i\<rparr> = None"
    using p(2) unfolding removes_def by blast+
  have "prevout (vin u ! j) \<noteq> \<lparr>op_hash = tx_GetHash E tx, op_n = of_nat i\<rparr>"
    if "map_of (mapTx pool') k = Some u" "j < length (vin u)" "i < length (vout tx)" for k u j i
    using pool_okD(3) [OF shrinksD(1) [OF s(1)] that(1,2)] free [OF that(3)] by auto
  with p(1) s shrinksD(2) [OF s(1)] show ?thesis by (intro exI [of _ pool']) blast
qed

lemma mempool_remove_terminates_witness:
  "\<exists>pool'. pool_remove 2 time_hash True parent pool2 = Some pool' \<and> map_of (mapTx pool') 1 = None"
  using mempool_remove_terminates [OF pool2_reachable, of parent 2] by (auto simp: mapTx_pool2 parent_hash)

text \<open>Making room for a transaction of a block clears its conflicts: \<open>removeConflicts\<close> returns on every
  reachable pool, adds nothing, and of the entries that are left only the transaction itself
  spends an output it spends.\<close>

theorem mempool_conflicts_cleared:
  assumes "pool_reachable E rank B pool" "B < n"
  shows "\<exists>pool'. removeConflicts n E tx pool = Some pool' \<and>
    (\<forall>k u. map_of (mapTx pool') k = Some u \<longrightarrow> map_of (mapTx pool) k = Some u \<and>
      (u = tx \<or> prevout ` set (vin u) \<inter> prevout ` set (vin tx) = {}))"
proof -
  have ok: "pool_ok E pool" "ranked rank B pool" using pool_reachable_ok [OF assms(1)] by blast+
  obtain pool' where p: "removeConflicts n E tx pool = Some pool'" "shrinks E rank 0 pool pool'"
    and c: "\<And>x p. x \<in> set (vin tx) \<Longrightarrow> mapNextTx pool' (prevout x) = Some p \<Longrightarrow> map_of (mapTx pool') (ptx p) = Some tx"
    using conflicts_loop_clears [OF ok assms(2), of tx "vin tx"] unfolding removeConflicts_def by blast
  have "u = tx" if u: "map_of (mapTx pool') k = Some u" and x: "y \<in> set (vin u)" "x \<in> set (vin tx)" "prevout y = prevout x"
    for k u x y
  proof -
    obtain i where i: "i < length (vin u)" "y = vin u ! i" using x(1) by (auto simp: in_set_conv_nth)
    have "mapNextTx pool' (prevout x) = Some \<lparr>ptx = k, in_n = i\<rparr>"
      using pool_okD(3) [OF shrinksD(1) [OF p(2)] u i(1)] x(3) i(2) by simp
    from c [OF x(2) this] u show ?thesis by simp
  qed
  with p(1) shrinksD(2) [OF p(2)] show ?thesis by (intro exI [of _ pool']) blast
qed

lemma mempool_conflicts_cleared_witness:
  "\<exists>pool'. removeConflicts 2 time_hash (child\<lparr>tx_nTime := 3\<rparr>) pool2 = Some pool' \<and> map_of (mapTx pool') 2 \<noteq> Some child"
proof -
  obtain pool' where "removeConflicts 2 time_hash (child\<lparr>tx_nTime := 3\<rparr>) pool2 = Some pool'"
    and "map_of (mapTx pool') 2 = Some child \<longrightarrow> child = child\<lparr>tx_nTime := 3\<rparr> \<or>
      prevout ` set (vin child) \<inter> prevout ` set (vin (child\<lparr>tx_nTime := 3\<rparr>)) = {}"
    using mempool_conflicts_cleared [OF pool2_reachable, of 2 "child\<lparr>tx_nTime := 3\<rparr>"] by fastforce
  then show ?thesis by (auto simp: child_def)
qed

section \<open>Orphans\<close>

text \<open>C37: The orphan pool is bounded and consistent: from every state that adding, erasing and limiting
  reach, \<open>LimitOrphanTxSize\<close> returns for whatever random hashes, leaves the smaller of the old size
  and the limit, and returns the number it evicted; what is left is still filed under its own hash, at
  most 5000 bytes long, and \<open>mapOrphanTransactionsByPrev\<close> still has exactly the spenders of each
  transaction and no empty set.\<close>

theorem orphans_bounded:
  assumes "orphans_reachable E st" "LimitOrphanTxSize rand nMax st = (nEvicted, st')"
  shows "length (mapOrphanTransactions st') = min (length (mapOrphanTransactions st)) (unat nMax) \<and>
    nEvicted = of_nat (length (mapOrphanTransactions st) - unat nMax) \<and>
    (\<forall>h tx. map_of (mapOrphanTransactions st') h = Some tx \<longrightarrow> tx_GetHash E tx = h \<and> length (ser_tx tx) \<le> 5000) \<and>
    (\<forall>p. mapOrphanTransactionsByPrev st' p =
      (if spenders (mapOrphanTransactions st') p = {} then None else Some (spenders (mapOrphanTransactions st') p)))"
proof -
  have s: "snd (limit_loop rand 0 (unat nMax) 0 st) = st'" "fst (limit_loop rand 0 (unat nMax) 0 st) = nEvicted"
    using assms(2) by (simp_all add: LimitOrphanTxSize_def)
  show ?thesis
    using limit_loop_spec [OF orphans_reachable_ok [OF assms(1)], of rand 0 "unat nMax" 0]
    unfolding s orphans_ok_def Let_def by simp
qed

lemma orphans_bounded_witness:
  "mapOrphanTransactions (snd (LimitOrphanTxSize (\<lambda>_. 0) 0 (snd (AddOrphanTx time_hash child orphans_empty)))) = []"
proof -
  have "orphans_reachable time_hash (snd (AddOrphanTx time_hash child orphans_empty))"
    by (intro orphans_reachable.intros)
  from orphans_bounded [OF this, of "\<lambda>_. 0" 0] show ?thesis
    by (cases "LimitOrphanTxSize (\<lambda>_. 0) 0 (snd (AddOrphanTx time_hash child orphans_empty))") simp
qed

section \<open>Checks without context\<close>

text \<open>C32: \<open>CheckTransaction\<close> accepts exactly the transactions with inputs and outputs, of at most a million
  bytes, whose amounts and their sum are money, with no empty output unless it is a coinbase or coinstake,
  no input twice, and either a coinbase script of 2 to 100 bytes or no null input; for those
  \<open>GetValueOut\<close> does not throw.\<close>

theorem checked_transaction:
  "(CheckTransaction tx = Inr ()) =
     (vin tx \<noteq> [] \<and> vout tx \<noteq> [] \<and> length (ser_tx tx) \<le> MAX_BLOCK_SIZE \<and>
      list_all (\<lambda>t. MoneyRange (nValue t) \<and> \<not> (txout_IsEmpty t \<and> \<not> IsCoinBase tx \<and> \<not> IsCoinStake tx)) (vout tx) \<and>
      MoneyRange (out_sum (vout tx)) \<and> GetValueOut tx = Some (out_sum (vout tx)) \<and>
      distinct (map prevout (vin tx)) \<and>
      (if IsCoinBase tx then length (scriptSig (vin tx ! 0)) \<in> {2..100}
       else list_all (\<lambda>x. \<not> op_IsNull (prevout x)) (vin tx)))"
proof -
  have e: "\<not> (a \<and> \<not> b \<and> \<not> c) \<longleftrightarrow> (a \<longrightarrow> b \<or> c)" for a b c by blast
  have "CheckTransaction tx = Inr () \<longleftrightarrow>
      CheckTransaction tx = Inr () \<and> GetValueOut tx = Some (out_sum (vout tx))"
    using CheckTransaction_value [of tx] by blast
  then show ?thesis unfolding e CheckTransaction_iff by argo
qed

section \<open>Texts\<close>

text \<open>C36: Addresses and secret keys read back from their base-58 texts: the text of a destination gives
  that destination and the text of a valid key that key with its compression flag, for the prefixes of
  every chain; the loops of the encoder and decoder end within their fuel.\<close>

theorem base58_texts:
  assumes "bn_ok E" "prefixes_ok P" "dest \<noteq> CNoDestination" "key_ok k"
  shows "(\<exists>s. write_address E P dest = Some s \<and> read_address E P s = dest) \<and>
    (\<exists>s. write_secret E P k = Some s \<and> read_secret E P s = Some k)"
  using address.round_trip [of E P dest] secret.round_trip [of E P k] assms by simp

lemma base58_texts_witness:
  "\<exists>s. write_address openssl_ref main_prefixes (KeyID 7) = Some s \<and>
     read_address openssl_ref main_prefixes s = KeyID 7"
  using base58_texts [OF openssl_ref_bn_ok chain_prefixes_ok(1) _ key1_ok, of "KeyID 7"] by simp

section \<open>Ownership\<close>

text \<open>Asking whether a script is the node's own ends: when no script of the key store is itself a
  pay-to-script-hash script, \<open>IsMine\<close> gives an answer for every script.\<close>

theorem IsMine_terminates:
  assumes "\<And>h sub. GetCScript ks h = Some sub \<Longrightarrow> \<not> IsPayToScriptHash sub"
  shows "IsMine E nMax ks s \<noteq> None"
  by (rule IsMine_returns [OF assms])

lemma IsMine_terminates_witness:
  "IsMine openssl_ref 40 (basic_view openssl_ref store1) (SetDestination (ScriptID 5)) \<noteq> None"
  by (rule IsMine_terminates) (simp add: basic_view_def basic_GetCScript_def store1_def)

end
