(* ===== verification/TxConnect.thy ===== *)
theory TxConnect
  imports TxRules MemPool
begin

text \<open>
  Connecting a transaction to the coins it spends, and disconnecting it (\<open>FetchInputs\<close>, \<open>ConnectInputs\<close> and
  \<open>DisconnectInputs\<close> of \<open>CTransaction\<close>, src/main.cpp). The transaction index of the database is a map
  from hashes (writes within a database transaction do not fail), \<open>disk\<close> reads a transaction at a
  position. The map of queued changes is given back when the inputs are accepted: every caller drops it
  otherwise.
\<close>

type_synonym txdb = "uint256 \<Rightarrow> CTxIndex option"

definition pos_mempool :: CDiskTxPos where
  "pos_mempool = \<lparr>tp_nFile = 1, tp_nBlockPos = 1, tp_nTxPos = 1\<rparr>"

section \<open>FetchInputs\<close>

text \<open>\<open>Inl (fInvalid, score)\<close> when the code returns \<open>false\<close>.\<close>

fun fetch_loop ::
  "txdb \<Rightarrow> (CDiskTxPos \<Rightarrow> CTransaction option) \<Rightarrow> CTxMemPool \<Rightarrow> txdb \<Rightarrow> bool \<Rightarrow> CTxIn list \<Rightarrow> MapPrevTx \<Rightarrow>
     bool \<times> int + MapPrevTx" where
  "fetch_loop txdb disk pool mapTestPool fBlockOrMiner [] inputs = Inr inputs"
| "fetch_loop txdb disk pool mapTestPool fBlockOrMiner (x # xs) inputs =
     (let h = op_hash (prevout x) in
      if inputs h \<noteq> None then fetch_loop txdb disk pool mapTestPool fBlockOrMiner xs inputs
      else
        let found = (if fBlockOrMiner \<and> mapTestPool h \<noteq> None then mapTestPool h else txdb h);
            next = (\<lambda>txindex txPrev. fetch_loop txdb disk pool mapTestPool fBlockOrMiner xs
                      (inputs(h \<mapsto> (txindex, txPrev))))
        in if found = None \<and> fBlockOrMiner then Inl (False, 0)
           else case found of
             None \<Rightarrow>
               (case pool_lookup pool h of
                  None \<Rightarrow> Inl (False, 0)
                | Some txPrev \<Rightarrow>
                    next (CTxIndex_null\<lparr>vSpent := replicate (length (vout txPrev)) CDiskTxPos_null\<rparr>) txPrev)
           | Some txindex \<Rightarrow>
               if ti_pos txindex = pos_mempool then
                 (case pool_lookup pool h of None \<Rightarrow> Inl (False, 0) | Some txPrev \<Rightarrow> next txindex txPrev)
               else
                 (case disk (ti_pos txindex) of None \<Rightarrow> Inl (False, 0) | Some txPrev \<Rightarrow> next txindex txPrev))"

definition prevout_in_range :: "MapPrevTx \<Rightarrow> CTxIn \<Rightarrow> bool" where
  "prevout_in_range inputs x =
     (case inputs (op_hash (prevout x)) of
        None \<Rightarrow> False
      | Some (txindex, txPrev) \<Rightarrow>
          unat (op_n (prevout x)) < length (vout txPrev) \<and> unat (op_n (prevout x)) < length (vSpent txindex))"

definition FetchInputs ::
  "txdb \<Rightarrow> (CDiskTxPos \<Rightarrow> CTransaction option) \<Rightarrow> CTxMemPool \<Rightarrow> CTransaction \<Rightarrow> txdb \<Rightarrow> bool \<Rightarrow> bool \<Rightarrow>
     MapPrevTx \<Rightarrow> bool \<times> int + MapPrevTx" where
  "FetchInputs txdb disk pool tx mapTestPool fBlock fMiner inputs =
     (if IsCoinBase tx then Inr inputs
      else case fetch_loop txdb disk pool mapTestPool (fBlock \<or> fMiner) (vin tx) inputs of
        Inl e \<Rightarrow> Inl e
      | Inr inputs \<Rightarrow>
          if list_all (prevout_in_range inputs) (vin tx) then Inr inputs else Inl (True, 100))"

section \<open>ConnectInputs\<close>

text \<open>\<open>Raised\<close>: an exception, a failed assertion, or a read outside a vector.\<close>

datatype 'a verdict = Raised | Rejected int | Accepted 'a

fun values_loop ::
  "MapPrevTx \<Rightarrow> chain \<Rightarrow> int \<Rightarrow> CTransaction \<Rightarrow> CTxIn list \<Rightarrow> int \<Rightarrow> int verdict" where
  "values_loop inputs pindexBlock nCoinbaseMaturity tx [] nValueIn = Accepted nValueIn"
| "values_loop inputs pindexBlock nCoinbaseMaturity tx (x # xs) nValueIn =
     (case inputs (op_hash (prevout x)) of
        None \<Rightarrow> Raised
      | Some (txindex, txPrev) \<Rightarrow>
          let n = unat (op_n (prevout x)) in
          if n \<ge> length (vout txPrev) \<or> n \<ge> length (vSpent txindex) then Rejected 100
          else if (IsCoinBase txPrev \<or> IsCoinStake txPrev) \<and>
               IsConfirmedInNPrevBlocks txindex pindexBlock nCoinbaseMaturity \<noteq> None then Rejected 0
          else if tx_nTime txPrev > tx_nTime tx then Rejected 100
          else if txout_IsEmpty (vout txPrev ! n) then Rejected 1
          else
            let nValueIn = s64 (nValueIn + nValue (vout txPrev ! n)) in
            if \<not> MoneyRange (nValue (vout txPrev ! n)) \<or> \<not> MoneyRange nValueIn then Rejected 100
            else values_loop inputs pindexBlock nCoinbaseMaturity tx xs nValueIn)"

definition STANDARD_NOT_MANDATORY_VERIFY_FLAGS :: u32 where
  "STANDARD_NOT_MANDATORY_VERIFY_FLAGS = STANDARD_SCRIPT_VERIFY_FLAGS AND NOT MANDATORY_SCRIPT_VERIFY_FLAGS"

text \<open>The script of an input: verified, or the score of the failure.\<close>

definition check_input ::
  "external \<Rightarrow> CTransaction \<Rightarrow> CTransaction \<Rightarrow> nat \<Rightarrow> u32 \<Rightarrow> sigcache \<Rightarrow> sigcache verdict" where
  "check_input E txPrev tx i flags c =
     (case VerifySignature E txPrev tx i flags 0 c of
        (None, c) \<Rightarrow> Raised
      | (Some True, c) \<Rightarrow> Accepted c
      | (Some False, c) \<Rightarrow>
          if has_flag flags STANDARD_NOT_MANDATORY_VERIFY_FLAGS then
            (case VerifySignature E txPrev tx i (flags AND NOT STANDARD_NOT_MANDATORY_VERIFY_FLAGS) 0 c of
               (None, c) \<Rightarrow> Raised
             | (Some True, c) \<Rightarrow> Rejected 0
             | (Some False, c) \<Rightarrow> Rejected 100)
          else Rejected 100)"

fun spend_loop ::
  "external \<Rightarrow> bool \<Rightarrow> u32 \<Rightarrow> CDiskTxPos \<Rightarrow> bool \<Rightarrow> CTransaction \<Rightarrow> nat \<Rightarrow> CTxIn list \<Rightarrow>
     MapPrevTx \<times> txdb \<times> sigcache \<Rightarrow> (MapPrevTx \<times> txdb \<times> sigcache) verdict" where
  "spend_loop E fVerify flags posThisTx fBlockOrMiner tx i [] s = Accepted s"
| "spend_loop E fVerify flags posThisTx fBlockOrMiner tx i (x # xs) (inputs, mapTestPool, c) =
     (case inputs (op_hash (prevout x)) of
        None \<Rightarrow> Raised
      | Some (txindex, txPrev) \<Rightarrow>
          let n = unat (op_n (prevout x)) in
          if n \<ge> length (vSpent txindex) then Raised
          else if \<not> tp_IsNull (vSpent txindex ! n) then Rejected 0
          else case (if fVerify then check_input E txPrev tx i flags c else Accepted c) of
            Raised \<Rightarrow> Raised
          | Rejected d \<Rightarrow> Rejected d
          | Accepted c \<Rightarrow>
              let txindex = txindex\<lparr>vSpent := (vSpent txindex)[n := posThisTx]\<rparr> in
              spend_loop E fVerify flags posThisTx fBlockOrMiner tx (i + 1) xs
                (inputs(op_hash (prevout x) \<mapsto> (txindex, txPrev)),
                 if fBlockOrMiner then mapTestPool(op_hash (prevout x) \<mapsto> txindex) else mapTestPool, c))"

text \<open>\<open>scriptPubKey[1]\<close> is read without a test of the size: \<open>None\<close> when there is no such byte.\<close>

fun burn_loop :: "u64 \<Rightarrow> CTxOut list \<Rightarrow> u64 option" where
  "burn_loop nBurnCoins [] = Some nBurnCoins"
| "burn_loop nBurnCoins (t # ts) =
     (if length (scriptPubKey t) < 2 then None
      else burn_loop (if scriptPubKey t ! 1 = of_nat OP_BURN then nBurnCoins + of_int (nValue t) else nBurnCoins) ts)"

definition tally ::
  "CTransaction \<Rightarrow> int \<Rightarrow> bool \<Rightarrow> u64 \<Rightarrow> u64 verdict" where
  "tally tx nValueIn fBlock nBurnCoins =
     (case GetValueOut tx of
        None \<Rightarrow> Raised
      | Some nValueOut \<Rightarrow>
          if nValueIn < nValueOut then Rejected 100
          else
            let nTxFee = s64 (nValueIn - nValueOut) in
            if nTxFee < 0 then Rejected 100
            else if nTxFee < GetMinFee 1 GMF_BLOCK 0 then (if fBlock then Rejected 100 else Rejected 0)
            else if \<not> MoneyRange nTxFee then Rejected 100
            else case burn_loop nBurnCoins (vout tx) of None \<Rightarrow> Raised | Some b \<Rightarrow> Accepted b)"

text \<open>
  \<open>fBelowCheckpoint\<close> is \<open>nBestHeight < Checkpoints::GetTotalBlocksEstimate()\<close>: a block below the last
  checkpoint is connected without its scripts being run.
\<close>

definition ConnectInputs ::
  "external \<Rightarrow> CTransaction \<Rightarrow> MapPrevTx \<Rightarrow> txdb \<Rightarrow> CDiskTxPos \<Rightarrow> chain \<Rightarrow> int \<Rightarrow> bool \<Rightarrow> u64 \<Rightarrow> bool \<Rightarrow> bool \<Rightarrow>
     u32 \<Rightarrow> sigcache \<Rightarrow> (txdb \<times> u64 \<times> sigcache) verdict" where
  "ConnectInputs E tx inputs mapTestPool posThisTx pindexBlock nCoinbaseMaturity fBelowCheckpoint nBurnCoins
     fBlock fMiner flags c =
     (if IsCoinBase tx then Accepted (mapTestPool, nBurnCoins, c)
      else case values_loop inputs pindexBlock nCoinbaseMaturity tx (vin tx) 0 of
        Raised \<Rightarrow> Raised
      | Rejected d \<Rightarrow> Rejected d
      | Accepted nValueIn \<Rightarrow>
          (case spend_loop E (\<not> (fBlock \<and> fBelowCheckpoint)) flags posThisTx (fBlock \<or> fMiner) tx 0 (vin tx)
              (inputs, mapTestPool, c) of
             Raised \<Rightarrow> Raised
           | Rejected d \<Rightarrow> Rejected d
           | Accepted (_, mapTestPool, c) \<Rightarrow>
               if IsCoinStake tx then Accepted (mapTestPool, nBurnCoins, c)
               else case tally tx nValueIn fBlock nBurnCoins of
                 Raised \<Rightarrow> Raised
               | Rejected d \<Rightarrow> Rejected d
               | Accepted nBurnCoins \<Rightarrow> Accepted (mapTestPool, nBurnCoins, c)))"

section \<open>DisconnectInputs\<close>

fun disconnect_loop :: "CTxIn list \<Rightarrow> txdb \<Rightarrow> txdb option" where
  "disconnect_loop [] txdb = Some txdb"
| "disconnect_loop (x # xs) txdb =
     (case txdb (op_hash (prevout x)) of
        None \<Rightarrow> None
      | Some txindex \<Rightarrow>
          let n = unat (op_n (prevout x)) in
          if n \<ge> length (vSpent txindex) then None
          else disconnect_loop xs
            (txdb(op_hash (prevout x) \<mapsto> txindex\<lparr>vSpent := (vSpent txindex)[n := CDiskTxPos_null]\<rparr>)))"

definition DisconnectInputs :: "external \<Rightarrow> CTransaction \<Rightarrow> txdb \<Rightarrow> txdb option" where
  "DisconnectInputs E tx txdb =
     map_option (\<lambda>txdb. txdb(tx_GetHash E tx := None))
       (if IsCoinBase tx then Some txdb else disconnect_loop (vin tx) txdb)"

section \<open>The values of accepted inputs\<close>

definition prev_value :: "MapPrevTx \<Rightarrow> CTxIn \<Rightarrow> int" where
  "prev_value inputs x = nValue (vout (snd (the (inputs (op_hash (prevout x))))) ! unat (op_n (prevout x)))"

lemma values_loop_Accepted:
  "values_loop inputs chain maturity tx xs v = Accepted v' \<Longrightarrow> MoneyRange v \<Longrightarrow>
     list_all (prevout_in_range inputs) xs \<and> list_all (\<lambda>x. MoneyRange (prev_value inputs x)) xs \<and>
     v' = v + sum_list (map (prev_value inputs) xs) \<and> MoneyRange v'"
proof (induction xs arbitrary: v)
  case (Cons x xs)
  obtain ti t where i: "inputs (op_hash (prevout x)) = Some (ti, t)"
    using Cons.prems(1) by (auto split: option.splits prod.splits)
  let ?n = "unat (op_n (prevout x))"
  have n: "?n < length (vout t)" "?n < length (vSpent ti)"
    and mr: "MoneyRange (nValue (vout t ! ?n))" "MoneyRange (s64 (v + nValue (vout t ! ?n)))"
    and rest: "values_loop inputs chain maturity tx xs (s64 (v + nValue (vout t ! ?n))) = Accepted v'"
    using Cons.prems(1) i by (auto simp: Let_def split: if_splits)
  have "s64 (v + nValue (vout t ! ?n)) = v + nValue (vout t ! ?n)"
    using Cons.prems(2) mr(1) by (intro s64_id) (auto simp: MoneyRange_def MAX_MONEY_def COIN_def)
  with Cons.IH [OF rest mr(2)] i n mr(1) show ?case
    by (auto simp: prevout_in_range_def prev_value_def)
qed simp

section \<open>Marking outputs as spent\<close>

definition mark :: "CDiskTxPos \<Rightarrow> CTxIn \<Rightarrow> txdb \<Rightarrow> txdb" where
  "mark p x d =
     (case d (op_hash (prevout x)) of
        None \<Rightarrow> d
      | Some ti \<Rightarrow> d(op_hash (prevout x) \<mapsto> ti\<lparr>vSpent := (vSpent ti)[unat (op_n (prevout x)) := p]\<rparr>))"

definition unspent :: "txdb \<Rightarrow> CTxIn \<Rightarrow> bool" where
  "unspent d x \<longleftrightarrow> (\<exists>ti. d (op_hash (prevout x)) = Some ti \<and> unat (op_n (prevout x)) < length (vSpent ti) \<and>
     vSpent ti ! unat (op_n (prevout x)) = CDiskTxPos_null)"

lemma prevout_eq_iff:
  "prevout x = prevout y \<longleftrightarrow>
     op_hash (prevout x) = op_hash (prevout y) \<and> unat (op_n (prevout x)) = unat (op_n (prevout y))"
  by (cases "prevout x"; cases "prevout y") (auto simp: word_unat_eq_iff)

lemma mark_commute: "prevout x \<noteq> prevout y \<Longrightarrow> mark p x (mark q y d) = mark q y (mark p x d)"
  by (auto simp: mark_def prevout_eq_iff fun_eq_iff list_update_swap split: option.splits)

lemma mark_unmark: "unspent d x \<Longrightarrow> mark CDiskTxPos_null x (mark p x d) = d"
  by (auto simp: mark_def unspent_def fun_eq_iff list_update_same_conv)

lemma marks_commute:
  "prevout x \<notin> prevout ` set xs \<Longrightarrow> mark p x (foldl (\<lambda>d y. mark q y d) d xs) = foldl (\<lambda>d y. mark q y d) (mark p x d) xs"
proof (induction xs arbitrary: d)
  case (Cons y ys)
  then show ?case using mark_commute [of x y p q d] by auto
qed simp

lemma unspent_mark: "unspent (mark p y d) x \<Longrightarrow> tp_nFile p \<noteq> - 1 \<Longrightarrow> unspent d y \<Longrightarrow> unspent d x \<and> prevout x \<noteq> prevout y"
  by (auto simp: unspent_def mark_def prevout_eq_iff CDiskTxPos_null_def nth_list_update split: if_splits)

text \<open>What the loop accepts, seen from a map that agrees with the inputs.\<close>

definition agrees :: "txdb \<Rightarrow> MapPrevTx \<Rightarrow> CTxIn list \<Rightarrow> bool" where
  "agrees d inputs xs \<longleftrightarrow> (\<forall>x \<in> set xs. d (op_hash (prevout x)) = map_option fst (inputs (op_hash (prevout x))))"

text \<open>A position in an index entry is written by \<open>SetNull\<close> or by a block, so only one form is null.\<close>

definition entries_ok :: "txdb \<Rightarrow> bool" where
  "entries_ok d \<longleftrightarrow> (\<forall>h ti. d h = Some ti \<longrightarrow> (\<forall>p \<in> set (vSpent ti). tp_IsNull p \<longrightarrow> p = CDiskTxPos_null))"

lemma entries_ok_mark: "entries_ok d \<Longrightarrow> tp_nFile p \<noteq> - 1 \<Longrightarrow> entries_ok (mark p x d)"
  unfolding entries_ok_def mark_def
  by (auto simp: tp_IsNull_def split: option.splits if_splits dest!: subsetD [OF set_update_subset_insert])

lemma spend_loop_Accepted:
  assumes "spend_loop E v flags p fb tx i xs (inputs, pool, c) = Accepted (inputs', pool', c')"
    and "tp_nFile p \<noteq> - 1" "agrees d inputs xs" "entries_ok d"
  shows "distinct (map prevout xs) \<and> list_all (unspent d) xs"
  using assms
proof (induction xs arbitrary: i inputs pool c d)
  case (Cons x xs)
  let ?h = "op_hash (prevout x)" and ?n = "unat (op_n (prevout x))"
  obtain ti t where i: "inputs ?h = Some (ti, t)"
    using Cons.prems(1) by (auto split: option.splits prod.splits)
  let ?ti = "ti\<lparr>vSpent := (vSpent ti)[?n := p]\<rparr>"
  have n: "?n < length (vSpent ti)" "tp_IsNull (vSpent ti ! ?n)"
    using Cons.prems(1) i by (auto simp: Let_def split: if_splits)
  obtain c2 where rest: "spend_loop E v flags p fb tx (i + 1) xs
      (inputs(?h \<mapsto> (?ti, t)), if fb then pool(?h \<mapsto> ?ti) else pool, c2) = Accepted (inputs', pool', c')"
    using Cons.prems(1) i n by (auto simp: Let_def split: verdict.splits if_splits)
  have d: "d ?h = Some ti" using Cons.prems(3) i by (simp add: agrees_def)
  then have u: "unspent d x" using n Cons.prems(4) by (auto simp: unspent_def entries_ok_def)
  have m: "mark p x d = d(?h \<mapsto> ?ti)" using d by (simp add: mark_def)
  have "agrees (mark p x d) (inputs(?h \<mapsto> (?ti, t))) xs"
    using Cons.prems(3) unfolding m by (simp add: agrees_def)
  from Cons.IH [OF rest Cons.prems(2) this entries_ok_mark [OF Cons.prems(4,2)]]
  have "distinct (map prevout xs)" "list_all (unspent (mark p x d)) xs" by simp_all
  moreover have "unspent d y \<and> prevout x \<noteq> prevout y" if "y \<in> set xs" for y
    using unspent_mark [OF _ Cons.prems(2) u, of y] calculation(2) that by (metis list_all_iff)
  ultimately show ?case using u by (auto simp: list_all_iff)
qed simp

section \<open>Connecting and disconnecting\<close>

definition in_range :: "txdb \<Rightarrow> CTxIn \<Rightarrow> bool" where
  "in_range d x \<longleftrightarrow> (\<exists>ti. d (op_hash (prevout x)) = Some ti \<and> unat (op_n (prevout x)) < length (vSpent ti))"

lemma in_range_mark [simp]: "in_range (mark p y d) x = in_range d x"
  by (auto simp: in_range_def mark_def split: option.splits)

lemma in_range_marks [simp]: "in_range (foldl (\<lambda>d y. mark p y d) d ys) x = in_range d x"
  by (induction ys arbitrary: d) auto

lemma unspent_in_range: "unspent d x \<Longrightarrow> in_range d x"
  by (auto simp: unspent_def in_range_def)

lemma disconnect_marks:
  "list_all (in_range d) xs \<Longrightarrow>
     disconnect_loop xs d = Some (foldl (\<lambda>d x. mark CDiskTxPos_null x d) d xs)"
proof (induction xs arbitrary: d)
  case (Cons x xs)
  obtain ti where ti: "d (op_hash (prevout x)) = Some ti" "unat (op_n (prevout x)) < length (vSpent ti)"
    using Cons.prems by (auto simp: in_range_def)
  have "list_all (in_range (mark CDiskTxPos_null x d)) xs" using Cons.prems by (simp add: list_all_iff)
  moreover have "disconnect_loop (x # xs) d = disconnect_loop xs (mark CDiskTxPos_null x d)"
    using ti by (simp add: mark_def Let_def)
  ultimately show ?case using Cons.IH by simp
qed simp

lemma unmark_all:
  "distinct (map prevout xs) \<Longrightarrow> list_all (unspent d) xs \<Longrightarrow>
     foldl (\<lambda>d x. mark CDiskTxPos_null x d) (foldl (\<lambda>d x. mark p x d) d xs) xs = d"
proof (induction xs)
  case (Cons x xs)
  have "mark CDiskTxPos_null x (foldl (\<lambda>d x. mark p x d) (mark p x d) xs) = foldl (\<lambda>d x. mark p x d) d xs"
    using Cons.prems by (subst marks_commute) (auto simp: mark_unmark)
  with Cons show ?case by simp
qed simp

lemma spend_loop_overlay:
  assumes "spend_loop E v flags p True tx i xs (inputs, pool, c) = Accepted (inputs', pool', c')"
    and "agrees (db ++ pool) inputs xs"
  shows "db ++ pool' = foldl (\<lambda>d x. mark p x d) (db ++ pool) xs"
  using assms
proof (induction xs arbitrary: i inputs pool c)
  case (Cons x xs)
  let ?h = "op_hash (prevout x)" and ?n = "unat (op_n (prevout x))"
  obtain ti t where i: "inputs ?h = Some (ti, t)"
    using Cons.prems(1) by (auto split: option.splits prod.splits)
  let ?ti = "ti\<lparr>vSpent := (vSpent ti)[?n := p]\<rparr>"
  obtain c2 where rest: "spend_loop E v flags p True tx (i + 1) xs
      (inputs(?h \<mapsto> (?ti, t)), pool(?h \<mapsto> ?ti), c2) = Accepted (inputs', pool', c')"
    using Cons.prems(1) i by (auto simp: Let_def split: verdict.splits if_splits)
  have d: "(db ++ pool) ?h = Some ti" using Cons.prems(2) i by (simp add: agrees_def)
  have m: "mark p x (db ++ pool) = db ++ pool(?h \<mapsto> ?ti)" unfolding mark_def d by simp
  have "agrees (db ++ pool(?h \<mapsto> ?ti)) (inputs(?h \<mapsto> (?ti, t))) xs"
    using Cons.prems(2) by (auto simp: agrees_def map_add_def)
  from Cons.IH [OF rest this] show ?case by (simp only: foldl.simps m)
qed simp

lemma fetch_loop_db:
  assumes "fetch_loop txdb disk pool Map.empty True xs inputs = Inr inputs'"
    and "\<And>h. inputs h \<noteq> None \<Longrightarrow> txdb h = map_option fst (inputs h)"
  shows "(\<forall>h. inputs' h \<noteq> None \<longrightarrow> txdb h = map_option fst (inputs' h)) \<and>
    (\<forall>h. inputs h \<noteq> None \<longrightarrow> inputs' h \<noteq> None) \<and> (\<forall>x \<in> set xs. inputs' (op_hash (prevout x)) \<noteq> None)"
  using assms
proof (induction xs arbitrary: inputs)
  case (Cons x xs)
  let ?h = "op_hash (prevout x)"
  show ?case
  proof (cases "inputs ?h")
    case (Some y)
    then have "fetch_loop txdb disk pool Map.empty True xs inputs = Inr inputs'"
      using Cons.prems(1) by (simp add: Let_def)
    from Cons.IH [OF this Cons.prems(2)] Some show ?thesis by (metis option.distinct(1) set_ConsD)
  next
    case None
    obtain ti where ti: "txdb ?h = Some ti"
      using Cons.prems(1) None by (cases "txdb ?h") (simp_all add: Let_def)
    obtain t where t: "fetch_loop txdb disk pool Map.empty True xs (inputs(?h \<mapsto> (ti, t))) = Inr inputs'"
      using Cons.prems(1) None ti
      by (cases "ti_pos ti = pos_mempool"; cases "pool_lookup pool ?h"; cases "disk (ti_pos ti)") (simp_all add: Let_def)
    have "\<And>h. (inputs(?h \<mapsto> (ti, t))) h \<noteq> None \<Longrightarrow> txdb h = map_option fst ((inputs(?h \<mapsto> (ti, t))) h)"
      using Cons.prems(2) ti by (auto split: if_splits)
    from Cons.IH [OF t this]
    have "\<forall>h. inputs' h \<noteq> None \<longrightarrow> txdb h = map_option fst (inputs' h)"
      "\<forall>h. (inputs(?h \<mapsto> (ti, t))) h \<noteq> None \<longrightarrow> inputs' h \<noteq> None"
      "\<forall>x \<in> set xs. inputs' (op_hash (prevout x)) \<noteq> None" by blast+
    then show ?thesis by auto
  qed
qed simp

lemma FetchInputs_agrees:
  assumes "FetchInputs txdb disk pool tx Map.empty True fMiner Map.empty = Inr inputs" "\<not> IsCoinBase tx"
  shows "agrees txdb inputs (vin tx)"
proof -
  have "fetch_loop txdb disk pool Map.empty True (vin tx) Map.empty = Inr inputs"
    using assms by (auto simp: FetchInputs_def split: sum.splits if_splits)
  from fetch_loop_db [OF this] show ?thesis by (auto simp: agrees_def)
qed

lemma ConnectInputs_split:
  assumes "ConnectInputs E tx inputs pool p chain maturity fBelow nBurn fBlock fMiner flags c = Accepted (pool', nBurn', c')"
    and "\<not> IsCoinBase tx"
  obtains v inputs' where "values_loop inputs chain maturity tx (vin tx) 0 = Accepted v"
    and "spend_loop E (\<not> (fBlock \<and> fBelow)) flags p (fBlock \<or> fMiner) tx 0 (vin tx) (inputs, pool, c) =
      Accepted (inputs', pool', c')"
    and "\<not> IsCoinStake tx \<Longrightarrow> tally tx v fBlock nBurn = Accepted nBurn'"
  using assms by (auto simp: ConnectInputs_def split: verdict.splits if_splits)

lemma connect_disconnect_marks:
  assumes "FetchInputs txdb disk pool tx Map.empty True fMiner Map.empty = Inr inputs" "\<not> IsCoinBase tx"
    and "ConnectInputs E tx inputs Map.empty p chain maturity fBelow nBurn True fMiner flags c =
      Accepted (pool', nBurn', c')"
    and "tp_nFile p \<noteq> - 1" "entries_ok txdb"
  shows "DisconnectInputs E tx (txdb ++ pool') = Some (txdb(tx_GetHash E tx := None))"
proof -
  have ag: "agrees txdb inputs (vin tx)" by (rule FetchInputs_agrees [OF assms(1,2)])
  obtain inputs' where sp: "spend_loop E (\<not> (True \<and> fBelow)) flags p True tx 0 (vin tx) (inputs, Map.empty, c) =
      Accepted (inputs', pool', c')"
    by (rule ConnectInputs_split [OF assms(3,2)]) simp
  have u: "distinct (map prevout (vin tx))" "list_all (unspent txdb) (vin tx)"
    using spend_loop_Accepted [OF sp assms(4) ag assms(5)] by simp_all
  have ov: "txdb ++ pool' = foldl (\<lambda>d x. mark p x d) txdb (vin tx)"
    using spend_loop_overlay [OF sp, of txdb] ag by simp
  have "list_all (in_range (txdb ++ pool')) (vin tx)"
    using u(2) unspent_in_range by (auto simp: ov list_all_iff)
  then show ?thesis
    using disconnect_marks unmark_all [OF u, of p] assms(2) by (simp add: DisconnectInputs_def ov)
qed

section \<open>What an accepted transaction pays\<close>

lemma tally_Accepted:
  assumes "tally tx v fBlock nBurn = Accepted nBurn'" "MoneyRange v"
  shows "GetValueOut tx = Some (out_sum (vout tx))" "out_sum (vout tx) + MIN_TX_FEE \<le> v"
proof -
  obtain o' where o': "GetValueOut tx = Some o'" "\<not> v < o'" "\<not> s64 (v - o') < GetMinFee 1 GMF_BLOCK 0"
    using assms(1) by (auto simp: tally_def Let_def split: option.splits if_splits)
  have mo: "MoneyRange o'" "o' = out_sum (vout tx)" using o'(1) by (auto simp: GetValueOut_iff)
  have "s64 (v - o') = v - o'"
    using mo(1) assms(2) by (intro s64_id) (auto simp: MoneyRange_def MAX_MONEY_def COIN_def)
  then show "GetValueOut tx = Some (out_sum (vout tx))" "out_sum (vout tx) + MIN_TX_FEE \<le> v"
    using o' mo GetMinFee_range [of 1 GMF_BLOCK 0] by auto
qed

lemma ConnectInputs_pays:
  assumes "ConnectInputs E tx inputs pool p chain maturity fBelow nBurn fBlock fMiner flags c = Accepted (pool', nBurn', c')"
    and "\<not> IsCoinBase tx" "\<not> IsCoinStake tx"
  shows "out_sum (vout tx) + MIN_TX_FEE \<le> sum_list (map (prev_value inputs) (vin tx))"
    and "MoneyRange (sum_list (map (prev_value inputs) (vin tx)))"
    and "list_all (prevout_in_range inputs) (vin tx)"
proof -
  obtain v inputs' where v: "values_loop inputs chain maturity tx (vin tx) 0 = Accepted v"
    and t: "tally tx v fBlock nBurn = Accepted nBurn'"
    using ConnectInputs_split [OF assms(1,2)] assms(3) by blast
  have "MoneyRange 0" by (simp add: MoneyRange_def MAX_MONEY_def COIN_def)
  note w = values_loop_Accepted [OF v this]
  show "out_sum (vout tx) + MIN_TX_FEE \<le> sum_list (map (prev_value inputs) (vin tx))"
    "MoneyRange (sum_list (map (prev_value inputs) (vin tx)))"
    "list_all (prevout_in_range inputs) (vin tx)"
    using tally_Accepted [OF t] w by auto
qed

text \<open>Every script of an accepted transaction was run and succeeded, unless the block is below the last
  checkpoint.\<close>

lemma check_input_Accepted:
  "check_input E txPrev tx i flags c = Accepted c' \<Longrightarrow> VerifySignature E txPrev tx i flags 0 c = (Some True, c')"
  by (auto simp: check_input_def split: prod.splits option.splits bool.splits if_splits)

lemma spend_loop_verifies:
  assumes "spend_loop E True flags p fb tx i xs (inputs, pool, c) = Accepted (inputs', pool', c')" "k < length xs"
  shows "\<exists>c1 c2. VerifySignature E (snd (the (inputs (op_hash (prevout (xs ! k)))))) tx (i + k) flags 0 c1 =
    (Some True, c2)"
  using assms
proof (induction xs arbitrary: i inputs pool c k)
  case (Cons x xs)
  let ?h = "op_hash (prevout x)" and ?n = "unat (op_n (prevout x))"
  obtain ti t where i: "inputs ?h = Some (ti, t)"
    using Cons.prems(1) by (auto split: option.splits prod.splits)
  let ?ti = "ti\<lparr>vSpent := (vSpent ti)[?n := p]\<rparr>"
  obtain c2 where c2: "check_input E t tx i flags c = Accepted c2"
    and rest: "spend_loop E True flags p fb tx (i + 1) xs
      (inputs(?h \<mapsto> (?ti, t)), if fb then pool(?h \<mapsto> ?ti) else pool, c2) = Accepted (inputs', pool', c')"
    using Cons.prems(1) i by (auto simp: Let_def split: verdict.splits if_splits)
  show ?case
  proof (cases k)
    case 0
    then show ?thesis using check_input_Accepted [OF c2] i by auto
  next
    case (Suc j)
    then have "j < length xs" using Cons.prems(2) by simp
    from Cons.IH [OF rest this] Suc i show ?thesis by (auto split: if_splits)
  qed
qed simp

end
