(* ===== verification/BlockRules.thy ===== *)
theory BlockRules
  imports TxRules
begin

text \<open>
  Checking a block without context (\<open>CheckBlock\<close>, \<open>CheckBlockSignature\<close> and \<open>IsCanonicalBlockSignature\<close>,
  src/main.cpp), and what follows for its Merkle tree.
\<close>

definition CheckBlockSignature :: "external \<Rightarrow> (byte list \<Rightarrow> uint256) \<Rightarrow> nat \<Rightarrow> CBlock \<Rightarrow> bool" where
  "CheckBlockSignature E scrypt maxData b =
     (if \<not> b_IsProofOfStake b then vchBlockSig b = []
      else if vchBlockSig b = [] then False
      else
        let s = scriptPubKey (vout (vtx b ! 1) ! 1) in
        case Solver maxData s of
          (ok, whichType, vSolutions) \<Rightarrow>
            if \<not> ok then False
            else if whichType = TX_PUBKEY then
              pk_Verify E (CPubKey (hd vSolutions)) (b_GetHash E scrypt b) (vchBlockSig b)
            else (case GetOp2 s of
                None \<Rightarrow> False
              | Some (opcode, _, pc) \<Rightarrow>
                  if opcode \<noteq> OP_RETURN then False
                  else (case GetOp2 pc of
                      None \<Rightarrow> False
                    | Some (_, vchPushValue, _) \<Rightarrow>
                        if \<not> IsCompressedOrUncompressedPubKey vchPushValue then False
                        else pk_Verify E (CPubKey vchPushValue) (b_GetHash E scrypt b) (vchBlockSig b))))"

definition IsCanonicalBlockSignature :: "CBlock \<Rightarrow> bool \<Rightarrow> bool" where
  "IsCanonicalBlockSignature b checkLowS =
     (if \<not> b_IsProofOfStake b then vchBlockSig b = []
      else if checkLowS then IsLowDERSignature (vchBlockSig b) False
      else IsDERSignature (vchBlockSig b) False)"

fun check_txs :: "int \<Rightarrow> CTransaction list \<Rightarrow> check" where
  "check_txs block_time [] = Inr ()"
| "check_txs block_time (tx # txs) =
     (case CheckTransaction tx of
        Inl d \<Rightarrow> Inl d
      | Inr _ \<Rightarrow>
          if block_time < int (unat (tx_nTime tx)) then Inl 50 else check_txs block_time txs)"

definition block_sigops :: "CTransaction list \<Rightarrow> u32" where
  "block_sigops txs = foldl (\<lambda>n tx. n + GetLegacySigOpCount tx) 0 txs"

definition CheckBlock ::
  "external \<Rightarrow> (byte list \<Rightarrow> uint256) \<Rightarrow> nat \<Rightarrow> int \<Rightarrow> int \<Rightarrow> bool \<Rightarrow> bool \<Rightarrow> bool \<Rightarrow> CBlock \<Rightarrow> check" where
  "CheckBlock E scrypt maxData powLimit adjusted_time fCheckPOW fCheckMerkleRoot fCheckSig b =
     (if vtx b = [] \<or> length (vtx b) > MAX_BLOCK_SIZE \<or> length (ser_block b) > MAX_BLOCK_SIZE then Inl 100
      else if fCheckPOW \<and> \<not> b_IsProofOfStake b \<and> \<not> CheckProofOfWork E powLimit (GetPoWHash scrypt b) (b_nBits b)
        then Inl 50
      else if b_GetBlockTime b > FutureDrift adjusted_time then Inl 0
      else if \<not> IsCoinBase (vtx b ! 0) then Inl 100
      else if list_ex IsCoinBase (drop 1 (vtx b)) then Inl 100
      else if b_IsProofOfStake b \<and>
          (length (vout (vtx b ! 0)) \<noteq> 1 \<or> \<not> txout_IsEmpty (vout (vtx b ! 0) ! 0)) then Inl 100
      else if b_IsProofOfStake b \<and> \<not> IsCoinStake (vtx b ! 1) then Inl 100
      else if b_IsProofOfStake b \<and> list_ex IsCoinStake (drop 2 (vtx b)) then Inl 100
      else if fCheckSig \<and> \<not> CheckBlockSignature E scrypt maxData b then Inl 100
      else case check_txs (b_GetBlockTime b) (vtx b) of
        Inl d \<Rightarrow> Inl d
      | Inr _ \<Rightarrow>
          if length (remdups (map (tx_GetHash E) (vtx b))) \<noteq> length (vtx b) then Inl 100
          else if unat (block_sigops (vtx b)) > MAX_BLOCK_SIGOPS then Inl 100
          else if fCheckMerkleRoot \<and> hashMerkleRoot b \<noteq> fst (BuildMerkleTree E (vtx b)) then Inl 100
          else Inr ())"

section \<open>What a checked block is\<close>

lemma check_txs_iff:
  "check_txs t txs = Inr () \<longleftrightarrow>
     list_all (\<lambda>tx. CheckTransaction tx = Inr () \<and> int (unat (tx_nTime tx)) \<le> t) txs"
  by (induction txs) (auto split: sum.splits)

lemma check_txs_cases: "(\<exists>d. check_txs t txs = Inl d) \<or> check_txs t txs = Inr ()"
  by (cases "check_txs t txs") auto

lemma CheckBlock_iff:
  "CheckBlock E scrypt maxData powLimit now fPOW fRoot fSig b = Inr () \<longleftrightarrow>
     vtx b \<noteq> [] \<and> length (vtx b) \<le> MAX_BLOCK_SIZE \<and> length (ser_block b) \<le> MAX_BLOCK_SIZE \<and>
     (fPOW \<longrightarrow> \<not> b_IsProofOfStake b \<longrightarrow> CheckProofOfWork E powLimit (GetPoWHash scrypt b) (b_nBits b)) \<and>
     b_GetBlockTime b \<le> FutureDrift now \<and>
     IsCoinBase (vtx b ! 0) \<and> list_all (\<lambda>tx. \<not> IsCoinBase tx) (drop 1 (vtx b)) \<and>
     (b_IsProofOfStake b \<longrightarrow> length (vout (vtx b ! 0)) = 1 \<and> txout_IsEmpty (vout (vtx b ! 0) ! 0) \<and>
        IsCoinStake (vtx b ! 1) \<and> list_all (\<lambda>tx. \<not> IsCoinStake tx) (drop 2 (vtx b))) \<and>
     (fSig \<longrightarrow> CheckBlockSignature E scrypt maxData b) \<and>
     list_all (\<lambda>tx. CheckTransaction tx = Inr () \<and> int (unat (tx_nTime tx)) \<le> b_GetBlockTime b) (vtx b) \<and>
     distinct (map (tx_GetHash E) (vtx b)) \<and>
     unat (block_sigops (vtx b)) \<le> MAX_BLOCK_SIGOPS \<and>
     (fRoot \<longrightarrow> hashMerkleRoot b = fst (BuildMerkleTree E (vtx b)))"
proof -
  have dist: "length (remdups (map (tx_GetHash E) (vtx b))) = length (vtx b) \<longleftrightarrow> distinct (map (tx_GetHash E) (vtx b))"
    using length_remdups_eq [of "map (tx_GetHash E) (vtx b)"] by simp
  show ?thesis
    unfolding CheckBlock_def dist check_txs_iff [symmetric]
    using check_txs_cases [of "b_GetBlockTime b" "vtx b"]
    by (elim disjE exE) (simp_all add: not_less list_ex_iff list_all_iff split: if_splits, blast+)
qed

text \<open>The branch of every transaction of a checked block leads to the root in its header.\<close>

lemma merkle_branch:
  assumes "i < length txs" "t = [] \<or> t = snd (BuildMerkleTree E txs)"
  shows "CheckMerkleBranch E (tx_GetHash E (txs ! i)) (fst (GetMerkleBranch E txs t (int i))) (int i) =
    fst (BuildMerkleTree E txs)"
proof -
  let ?r = "map (tx_GetHash E) txs"
  have "fst (GetMerkleBranch E txs t (int i)) = branch_loop (concat (rows E ?r)) 0 (length txs) (int i)"
    using assms(2) by (auto simp: GetMerkleBranch_def Let_def merkle_tree)
  moreover have "check_branch_loop E (?r ! i) (branch_loop (concat (rows E ?r)) 0 (length ?r) (int i)) (int i) =
      merkle_root E ?r"
    using branch_checks [of i ?r 0 "concat (rows E ?r)" E] assms(1) by simp
  ultimately show ?thesis
    using assms(1) by (simp add: CheckMerkleBranch_def merkle_tree_root)
qed

text \<open>A list of odd length and the same list with its last entry repeated have the same root: the block
  with the repeated transaction has the same header, and only the test for equal hashes rejects it.\<close>

lemma merkle_repeat:
  assumes "odd (length txs)" "length txs > 1"
  shows "fst (BuildMerkleTree E (txs @ [last txs])) = fst (BuildMerkleTree E txs)"
proof -
  let ?r = "map (tx_GetHash E) txs"
  have r: "length ?r > 1" "?r \<noteq> []" "txs \<noteq> []" using assms(2) by auto
  have l: "map (tx_GetHash E) (txs @ [last txs]) = ?r @ [last ?r]" using r by (simp add: last_map)
  have "rows E (?r @ [last ?r]) = (?r @ [last ?r]) # rows E (next_row E ?r)"
    using r assms(1) by (subst rows_simps(1)) (simp_all add: next_row_odd)
  moreover have "rows E ?r = ?r # rows E (next_row E ?r)" using r by (simp add: rows_simps(1))
  ultimately show ?thesis unfolding merkle_tree_root l by (simp add: merkle_root_def r(3))
qed

end
