(* ===== verification/BlockConnect.thy ===== *)
theory BlockConnect
  imports TxConnect BlockRules Base58
begin

text \<open>
  Connecting a block to the chain (\<open>GetCoinAge\<close> and \<open>ConnectBlock\<close>, src/main.cpp): the loop over the
  transactions with the queued changes of the transaction index, the fees and the reward, and the
  records of what the block mints. The wallets are not told.
\<close>

section \<open>The environment\<close>

text \<open>
  What the code reads from global variables, the disk and the chain parameters: a transaction or a
  block header at a position, the memory pool, whether the best block is below the last checkpoint,
  the height of the best block, the adjusted time and the limits.
\<close>

record connect_env =
  scrypt_hash :: "byte list \<Rightarrow> uint256"
  max_data_carrier :: nat
  proof_of_work_limit :: int
  adjusted_time :: int
  disk_tx :: "CDiskTxPos \<Rightarrow> CTransaction option"
  disk_header :: "u32 \<Rightarrow> u32 \<Rightarrow> CBlock option"
  memory_pool :: CTxMemPool
  below_checkpoint :: bool
  best_height :: int
  prefixes :: base58_prefixes
  nCoinbaseMaturity :: int
  nStakeMinAge :: u32
  nStakeMinConfirmations :: int

section \<open>Coin age\<close>

text \<open>\<open>None\<close> when the code returns \<open>false\<close>.\<close>

fun coin_age_loop ::
  "external \<Rightarrow> connect_env \<Rightarrow> txdb \<Rightarrow> chain \<Rightarrow> u32 \<Rightarrow> CTxIn list \<Rightarrow> int \<Rightarrow> int option" where
  "coin_age_loop E env txdb pindexPrev nTime [] bnCentSecond = Some bnCentSecond"
| "coin_age_loop E env txdb pindexPrev nTime (x # xs) bnCentSecond =
     (let next = coin_age_loop E env txdb pindexPrev nTime xs; n = unat (op_n (prevout x)) in
      case txdb (op_hash (prevout x)) of
        None \<Rightarrow> next bnCentSecond
      | Some txindex \<Rightarrow>
          (case disk_tx env (ti_pos txindex) of
             None \<Rightarrow> next bnCentSecond
           | Some txPrev \<Rightarrow>
               if n \<ge> length (vout txPrev) then next bnCentSecond
               else if nTime < tx_nTime txPrev then None
               else (case disk_header env (tp_nFile (ti_pos txindex)) (tp_nBlockPos (ti_pos txindex)) of
                   None \<Rightarrow> None
                 | Some block \<Rightarrow>
                     if b_GetBlockTime block + int (unat (nStakeMinAge env)) > int (unat nTime) then next bnCentSecond
                     else if IsConfirmedInNPrevBlocks txindex pindexPrev (nStakeMinConfirmations env - 1) \<noteq> None
                     then next bnCentSecond
                     else (case bn_div E
                         (bn_mul E (bn_of_int E (nValue (vout txPrev ! n)))
                           (bn_of_int E (int (unat (nTime - tx_nTime txPrev))))) (bn_of_int E CENT) of
                         None \<Rightarrow> None
                       | Some d \<Rightarrow> next (bn_add E bnCentSecond d)))))"

definition GetCoinAge ::
  "external \<Rightarrow> connect_env \<Rightarrow> txdb \<Rightarrow> chain \<Rightarrow> CTransaction \<Rightarrow> u64 option" where
  "GetCoinAge E env txdb pindexPrev tx =
     (if IsCoinBase tx then Some 0
      else case coin_age_loop E env txdb pindexPrev (tx_nTime tx) (vin tx) (bn_of_int E 0) of
        None \<Rightarrow> None
      | Some bn \<Rightarrow>
          (case bn_div E (bn_mul E bn (bn_of_int E CENT)) (bn_of_int E COIN) of
             None \<Rightarrow> None
           | Some d \<Rightarrow> map_option (getuint64 E) (bn_div E d (bn_of_int E (24 * 60 * 60)))))"

section \<open>Connecting\<close>

record connect_state =
  mapQueuedChanges :: txdb
  cs_nFees :: int
  cs_nValueIn :: int
  cs_nValueOut :: int
  cs_nBurnCoins :: u64
  cs_nStakeReward :: int
  cs_nSigOps :: u32
  cs_nTxPos :: u32
  cs_cache :: sigcache

definition block_flags :: u32 where
  "block_flags = SCRIPT_VERIFY_NOCACHE OR SCRIPT_VERIFY_NULLDUMMY OR SCRIPT_VERIFY_STRICTENC OR
     SCRIPT_VERIFY_ALLOW_EMPTY_SIG OR SCRIPT_VERIFY_FIX_HASHTYPE OR SCRIPT_VERIFY_CHECKLOCKTIMEVERIFY"

text \<open>One turn of the loop; \<open>pindex\<close> is the block and its ancestors. The score of a transaction that fails
  is the transaction's, so the block's is 0 there.\<close>

definition connect_tx ::
  "external \<Rightarrow> connect_env \<Rightarrow> txdb \<Rightarrow> chain \<Rightarrow> bool \<Rightarrow> CTransaction \<Rightarrow> connect_state \<Rightarrow> connect_state verdict" where
  "connect_tx E env txdb pindex fJustCheck tx s =
     (let hashTx = tx_GetHash E tx;
          nSigOps = cs_nSigOps s + GetLegacySigOpCount tx;
          posThisTx = \<lparr>tp_nFile = bi_nFile (hd pindex), tp_nBlockPos = bi_nBlockPos (hd pindex),
                       tp_nTxPos = cs_nTxPos s\<rparr>;
          nTxPos = (if fJustCheck then cs_nTxPos s else cs_nTxPos s + of_nat (length (ser_tx tx)));
          own = CTxIndex_new posThisTx (length (vout tx))
      in
        if (case txdb hashTx of None \<Rightarrow> False | Some txindexOld \<Rightarrow> list_ex tp_IsNull (vSpent txindexOld))
        then Rejected 100
        else if unat nSigOps > MAX_BLOCK_SIGOPS then Rejected 100
        else if IsCoinBase tx then
          (case GetValueOut tx of
             None \<Rightarrow> Raised
           | Some v \<Rightarrow> Accepted (s\<lparr>cs_nSigOps := nSigOps, cs_nTxPos := nTxPos,
                 cs_nValueOut := s64 (cs_nValueOut s + v),
                 mapQueuedChanges := (mapQueuedChanges s)(hashTx \<mapsto> own)\<rparr>))
        else
          (case FetchInputs txdb (disk_tx env) (memory_pool env) tx (mapQueuedChanges s) True False Map.empty of
             Inl _ \<Rightarrow> Rejected 0
           | Inr mapInputs \<Rightarrow>
               (case (GetP2SHSigOpCount tx mapInputs, GetValueIn tx mapInputs, GetValueOut tx) of
                  (Some p2sh, vi, vo) \<Rightarrow>
                    if unat (nSigOps + p2sh) > MAX_BLOCK_SIGOPS then Rejected 100
                    else (case (vi, vo) of
                        (Some nTxValueIn, Some nTxValueOut) \<Rightarrow>
                          (case ConnectInputs E tx mapInputs (mapQueuedChanges s) posThisTx pindex
                              (nCoinbaseMaturity env) (below_checkpoint env) (cs_nBurnCoins s) True False
                              block_flags (cs_cache s) of
                             Raised \<Rightarrow> Raised
                           | Rejected _ \<Rightarrow> Rejected 0
                           | Accepted (queued, nBurnCoins, cache) \<Rightarrow> Accepted (s\<lparr>
                               cs_nSigOps := nSigOps + p2sh, cs_nTxPos := nTxPos,
                               cs_nValueIn := s64 (cs_nValueIn s + nTxValueIn),
                               cs_nValueOut := s64 (cs_nValueOut s + nTxValueOut),
                               cs_nFees := (if IsCoinStake tx then cs_nFees s
                                            else s64 (cs_nFees s + s64 (nTxValueIn - nTxValueOut))),
                               cs_nStakeReward := (if IsCoinStake tx then s64 (nTxValueOut - nTxValueIn)
                                                   else cs_nStakeReward s),
                               cs_nBurnCoins := nBurnCoins, cs_cache := cache,
                               mapQueuedChanges := queued(hashTx \<mapsto> own)\<rparr>))
                      | _ \<Rightarrow> Raised)
                | _ \<Rightarrow> Raised)))"

fun connect_loop ::
  "external \<Rightarrow> connect_env \<Rightarrow> txdb \<Rightarrow> chain \<Rightarrow> bool \<Rightarrow> CTransaction list \<Rightarrow> connect_state \<Rightarrow> connect_state verdict" where
  "connect_loop E env txdb pindex fJustCheck [] s = Accepted s"
| "connect_loop E env txdb pindex fJustCheck (tx # txs) s =
     (case connect_tx E env txdb pindex fJustCheck tx s of
        Raised \<Rightarrow> Raised
      | Rejected d \<Rightarrow> Rejected d
      | Accepted s \<Rightarrow> connect_loop E env txdb pindex fJustCheck txs s)"

text \<open>The output to the fund: a fifth of the reward, to the address the code names.\<close>

definition fund_address :: string where
  "fund_address = ''B83JheiAjBSHMdkbqrNbwWP7FwtgiFmRqa''"

definition pays_fund :: "external \<Rightarrow> connect_env \<Rightarrow> u64 \<Rightarrow> CTxOut \<Rightarrow> bool" where
  "pays_fund E env nCalculatedStakeReward t \<longleftrightarrow>
     (let dest = (case ExtractDestination E (max_data_carrier env) (scriptPubKey t) of
                    None \<Rightarrow> CNoDestination | Some d \<Rightarrow> d) in
      b58_ToString E (CBitcoinAddress (prefixes env) dest) = Some fund_address \<and>
      of_int (nValue t) = nCalculatedStakeReward div 5)"

text \<open>The comparison with the calculated reward is one of unsigned numbers: a negative \<open>nStakeReward\<close> is
  converted.\<close>

definition check_reward ::
  "external \<Rightarrow> connect_env \<Rightarrow> txdb \<Rightarrow> chain \<Rightarrow> CBlock \<Rightarrow> connect_state \<Rightarrow> unit verdict" where
  "check_reward E env txdb pindex b s =
     (if \<not> b_IsProofOfStake b then
        (case GetValueOut (vtx b ! 0) of
           None \<Rightarrow> Raised
         | Some v \<Rightarrow> if v > GetProofOfWorkReward (best_height env) (cs_nFees s) then Rejected 50 else Accepted ())
      else
        (case GetCoinAge E env txdb (tl pindex) (vtx b ! 1) of
           None \<Rightarrow> Rejected 0
         | Some nCoinAge \<Rightarrow>
             let nCalculatedStakeReward = GetProofOfStakeReward nCoinAge (cs_nFees s) in
             if of_int (cs_nStakeReward s) > nCalculatedStakeReward then Rejected 100
             else if nHeight (hd pindex) > 25 \<and>
                  \<not> list_ex (pays_fund E env nCalculatedStakeReward) (vout (vtx b ! 1)) then Rejected 100
             else Accepted ()))"

definition CBlock_null :: CBlock where
  "CBlock_null = \<lparr>b_nVersion = 7, hashPrevBlock = 0, hashMerkleRoot = 0, b_nTime = 0, b_nBits = 0,
     b_nNonce = 0, vtx = [], vchBlockSig = []\<rparr>"

definition first_tx_pos :: "chain \<Rightarrow> CBlock \<Rightarrow> u32" where
  "first_tx_pos pindex b =
     bi_nBlockPos (hd pindex) + of_nat (length (ser_block CBlock_null)) - 2 * of_nat (GetSizeOfCompactSize 0) +
     of_nat (GetSizeOfCompactSize (length (vtx b)))"

definition connect_start :: "chain \<Rightarrow> bool \<Rightarrow> CBlock \<Rightarrow> sigcache \<Rightarrow> connect_state" where
  "connect_start pindex fJustCheck b cache = \<lparr>mapQueuedChanges = Map.empty, cs_nFees = 0, cs_nValueIn = 0,
     cs_nValueOut = 0, cs_nBurnCoins = 0, cs_nStakeReward = 0, cs_nSigOps = 0,
     cs_nTxPos = (if fJustCheck then 1 else first_tx_pos pindex b), cs_cache = cache\<rparr>"

text \<open>The result: the transaction index, what the block mints, the money supply, the cache.\<close>

definition ConnectBlock ::
  "external \<Rightarrow> connect_env \<Rightarrow> txdb \<Rightarrow> chain \<Rightarrow> u64 \<Rightarrow> bool \<Rightarrow> CBlock \<Rightarrow> sigcache \<Rightarrow>
     (txdb \<times> int \<times> u64 \<times> sigcache) verdict" where
  "ConnectBlock E env txdb pindex nPrevMoneySupply fJustCheck b cache =
     (case CheckBlock E (scrypt_hash env) (max_data_carrier env) (proof_of_work_limit env) (adjusted_time env)
         (\<not> fJustCheck) (\<not> fJustCheck) False b of
        Inl d \<Rightarrow> Rejected d
      | Inr _ \<Rightarrow>
          (case connect_loop E env txdb pindex fJustCheck (vtx b) (connect_start pindex fJustCheck b cache) of
             Raised \<Rightarrow> Raised
           | Rejected d \<Rightarrow> Rejected d
           | Accepted s \<Rightarrow>
               (case check_reward E env txdb pindex b s of
                  Raised \<Rightarrow> Raised
                | Rejected d \<Rightarrow> Rejected d
                | Accepted _ \<Rightarrow>
                    Accepted (if fJustCheck then txdb else txdb ++ mapQueuedChanges s,
                      s64 (s64 (cs_nValueOut s - cs_nValueIn s) + cs_nFees s),
                      nPrevMoneySupply + of_int (cs_nValueOut s) - of_int (cs_nValueIn s) - cs_nBurnCoins s,
                      cs_cache s))))"

end
