(* ===== verification/BlockConnectProps.thy ===== *)
theory BlockConnectProps
  imports BlockConnect
begin

text \<open>
  What connecting a block guarantees: what a proof-of-work block mints, and where the transaction index
  says its transactions are.
\<close>

section \<open>Money\<close>

text \<open>Sums that may wrap around agree modulo \<open>2\<^sup>6\<^sup>4\<close>.\<close>

lemma s64_split: obtains k where "s64 x = x + k * 2 ^ 64"
proof
  show "s64 x = x + (- ((x + 2 ^ 63) div 2 ^ 64)) * 2 ^ 64"
    using div_mult_mod_eq [of "x + 2 ^ 63" "2 ^ 64"] unfolding s64_def by linarith
qed

lemma s64_eqI: "x mod 2 ^ 64 = y mod 2 ^ 64 \<Longrightarrow> - (2 ^ 63) \<le> y \<Longrightarrow> y < 2 ^ 63 \<Longrightarrow> s64 x = y"
  by (metis s64_mod s64_id)

definition balance :: "connect_state \<Rightarrow> int" where
  "balance s = (cs_nFees s + cs_nValueOut s - cs_nValueIn s) mod 2 ^ 64"

lemma cong_coinbase: "(f + s64 (x + v) - i) mod 2 ^ 64 = (f + x - i + v) mod (2 :: int) ^ 64"
proof -
  obtain k where k: "s64 (x + v) = x + v + k * 2 ^ 64" by (rule s64_split)
  have eq: "f + s64 (x + v) - i = f + x - i + v + k * 2 ^ 64" unfolding k by simp
  show ?thesis unfolding eq by (rule mod_mult_self1)
qed

lemma cong_spend:
  "(s64 (f + s64 (vi - vo)) + s64 (x + vo) - s64 (i + vi)) mod 2 ^ 64 = (f + x - i) mod (2 :: int) ^ 64"
proof -
  obtain a where a: "s64 (vi - vo) = vi - vo + a * 2 ^ 64" by (rule s64_split)
  obtain b where b: "s64 (f + (vi - vo + a * 2 ^ 64)) = f + (vi - vo + a * 2 ^ 64) + b * 2 ^ 64" by (rule s64_split)
  obtain c where c: "s64 (x + vo) = x + vo + c * 2 ^ 64" by (rule s64_split)
  obtain d where d: "s64 (i + vi) = i + vi + d * 2 ^ 64" by (rule s64_split)
  have eq: "s64 (f + s64 (vi - vo)) + s64 (x + vo) - s64 (i + vi) = f + x - i + (a + b + c - d) * 2 ^ 64"
    unfolding a b c d by (simp only: ring_distribs)
  show ?thesis unfolding eq by (rule mod_mult_self1)
qed

lemma connect_tx_balance:
  assumes "connect_tx E env txdb pindex j tx s = Accepted s'" "\<not> IsCoinStake tx"
  shows "balance s' = (balance s + (if IsCoinBase tx then out_sum (vout tx) else 0)) mod 2 ^ 64"
proof (cases "IsCoinBase tx")
  case True
  then obtain v where v: "GetValueOut tx = Some v" "cs_nFees s' = cs_nFees s" "cs_nValueIn s' = cs_nValueIn s"
    "cs_nValueOut s' = s64 (cs_nValueOut s + v)"
    using assms(1) by (auto simp: connect_tx_def Let_def split: if_splits option.splits)
  then have "v = out_sum (vout tx)" by (simp add: GetValueOut_iff)
  with v True show ?thesis
    using cong_coinbase [of "cs_nFees s" "cs_nValueOut s" v "cs_nValueIn s"]
    by (simp add: balance_def mod_add_left_eq)
next
  case False
  then obtain vi vo where v: "cs_nFees s' = s64 (cs_nFees s + s64 (vi - vo))"
    "cs_nValueIn s' = s64 (cs_nValueIn s + vi)" "cs_nValueOut s' = s64 (cs_nValueOut s + vo)"
    using assms by (auto simp: connect_tx_def Let_def split: if_splits option.splits sum.splits verdict.splits prod.splits)
  with False show ?thesis using cong_spend by (simp add: balance_def)
qed

lemma connect_loop_balance:
  "connect_loop E env txdb pindex j txs s = Accepted s' \<Longrightarrow> list_all (\<lambda>tx. \<not> IsCoinStake tx) txs \<Longrightarrow>
     balance s' = (balance s + sum_list (map (\<lambda>tx. out_sum (vout tx)) (filter IsCoinBase txs))) mod 2 ^ 64"
proof (induction txs arbitrary: s)
  case (Cons tx txs)
  obtain t where t: "connect_tx E env txdb pindex j tx s = Accepted t" "connect_loop E env txdb pindex j txs t = Accepted s'"
    using Cons.prems(1) by (auto split: verdict.splits)
  from Cons.IH [OF t(2)] connect_tx_balance [OF t(1)] Cons.prems(2) show ?case
    by (simp add: mod_add_left_eq add.assoc)
qed (simp add: balance_def)

section \<open>Positions\<close>

text \<open>Marking outputs as spent changes no position.\<close>

definition same_pos :: "txdb \<Rightarrow> MapPrevTx \<Rightarrow> bool" where
  "same_pos d inputs \<longleftrightarrow> (\<forall>h ti y. d h = Some ti \<longrightarrow> inputs h = Some y \<longrightarrow> ti_pos (fst y) = ti_pos ti)"

lemma same_posD: "same_pos d inputs \<Longrightarrow> d h = Some ti \<Longrightarrow> inputs h = Some y \<Longrightarrow> ti_pos (fst y) = ti_pos ti"
  unfolding same_pos_def by blast

lemma same_pos_empty: "same_pos d Map.empty"
  by (simp add: same_pos_def)

lemma same_pos_upd:
  assumes "same_pos d inputs"
  shows "same_pos (d(h \<mapsto> ti)) (inputs(h \<mapsto> (ti, t)))"
  unfolding same_pos_def
proof (intro allI impI)
  fix g q y assume "(d(h \<mapsto> ti)) g = Some q" "(inputs(h \<mapsto> (ti, t))) g = Some y"
  then show "ti_pos (fst y) = ti_pos q" using same_posD [OF assms, of g q y] by (cases "g = h") auto
qed

lemma same_pos_upd_input:
  assumes "same_pos d inputs" "\<And>ti'. d h = Some ti' \<Longrightarrow> ti' = ti"
  shows "same_pos d (inputs(h \<mapsto> (ti, t)))"
  unfolding same_pos_def
proof (intro allI impI)
  fix g q y assume "d g = Some q" "(inputs(h \<mapsto> (ti, t))) g = Some y"
  then show "ti_pos (fst y) = ti_pos q"
    using same_posD [OF assms(1), of g q y] assms(2) by (cases "g = h") auto
qed

definition keeps_pos :: "txdb \<Rightarrow> txdb \<Rightarrow> bool" where
  "keeps_pos d d' \<longleftrightarrow> (\<forall>h ti. d h = Some ti \<longrightarrow> (\<exists>ti'. d' h = Some ti' \<and> ti_pos ti' = ti_pos ti))"

lemma keeps_pos_refl [simp]: "keeps_pos d d" by (simp add: keeps_pos_def)

lemma keeps_pos_trans: "keeps_pos d d' \<Longrightarrow> keeps_pos d' d'' \<Longrightarrow> keeps_pos d d''"
  unfolding keeps_pos_def by metis

lemma spend_loop_pos:
  assumes "spend_loop E v flags p True tx i xs (inputs, pool, c) = Accepted (inputs', pool', c')" "same_pos pool inputs"
  shows "keeps_pos pool pool'"
  using assms
proof (induction xs arbitrary: i inputs pool c)
  case (Cons x xs)
  let ?h = "op_hash (prevout x)" and ?n = "unat (op_n (prevout x))"
  obtain ti t where i: "inputs ?h = Some (ti, t)"
    using Cons.prems(1) by (auto split: option.splits prod.splits)
  let ?ti = "ti\<lparr>vSpent := (vSpent ti)[?n := p]\<rparr>"
  obtain c2 where rest: "spend_loop E v flags p True tx (i + 1) xs
      (inputs(?h \<mapsto> (?ti, t)), pool(?h \<mapsto> ?ti), c2) = Accepted (inputs', pool', c')"
    using Cons.prems(1) i by (auto simp: Let_def split: verdict.splits if_splits)
  have "same_pos (pool(?h \<mapsto> ?ti)) (inputs(?h \<mapsto> (?ti, t)))"
    by (rule same_pos_upd [OF Cons.prems(2)])
  from Cons.IH [OF rest this] have k: "keeps_pos (pool(?h \<mapsto> ?ti)) pool'" .
  have "ti_pos ti = ti_pos q" if "pool ?h = Some q" for q
    using same_posD [OF Cons.prems(2) that i] by simp
  then have "keeps_pos pool (pool(?h \<mapsto> ?ti))"
    by (simp add: keeps_pos_def)
  from keeps_pos_trans [OF this k] show ?case .
qed simp

lemma fetch_loop_pos:
  assumes "fetch_loop txdb disk mp pool True xs inputs = Inr inputs'" "same_pos pool inputs"
  shows "same_pos pool inputs'"
  using assms
proof (induction xs arbitrary: inputs)
  case (Cons x xs)
  let ?h = "op_hash (prevout x)"
  show ?case
  proof (cases "inputs ?h")
    case (Some y)
    then show ?thesis using Cons by (simp add: Let_def)
  next
    case None
    obtain ti where ti: "(if pool ?h \<noteq> None then pool ?h else txdb ?h) = Some ti"
      using Cons.prems(1) None by (cases "if pool ?h \<noteq> None then pool ?h else txdb ?h") (auto simp: Let_def split: if_splits)
    obtain t where t: "fetch_loop txdb disk mp pool True xs (inputs(?h \<mapsto> (ti, t))) = Inr inputs'"
      using Cons.prems(1) None ti
      by (cases "ti_pos ti = pos_mempool"; cases "pool_lookup mp ?h"; cases "disk (ti_pos ti)") (auto simp: Let_def)
    have "same_pos pool (inputs(?h \<mapsto> (ti, t)))"
      by (rule same_pos_upd_input [OF Cons.prems(2)]) (use ti in \<open>simp split: if_splits\<close>)
    from Cons.IH [OF t this] show ?thesis .
  qed
qed simp

lemma ConnectInputs_pos:
  assumes "FetchInputs txdb disk mp tx pool True False Map.empty = Inr inputs" "\<not> IsCoinBase tx"
    and "ConnectInputs E tx inputs pool p chain maturity fBelow nBurn True False flags c = Accepted (pool', nBurn', c')"
  shows "keeps_pos pool pool'"
proof -
  have "fetch_loop txdb disk mp pool True (vin tx) Map.empty = Inr inputs"
    using assms(1,2) by (cases "fetch_loop txdb disk mp pool True (vin tx) Map.empty")
      (simp_all add: FetchInputs_def split: if_splits)
  from fetch_loop_pos [OF this same_pos_empty] have sp: "same_pos pool inputs" .
  obtain inputs' where "spend_loop E (\<not> (True \<and> fBelow)) flags p (True \<or> False) tx 0 (vin tx) (inputs, pool, c) =
      Accepted (inputs', pool', c')"
    by (rule ConnectInputs_split [OF assms(3,2)])
  then show ?thesis using spend_loop_pos [OF _ sp] by simp
qed

definition tx_pos :: "chain \<Rightarrow> u32 \<Rightarrow> CDiskTxPos" where
  "tx_pos pindex n = \<lparr>tp_nFile = bi_nFile (hd pindex), tp_nBlockPos = bi_nBlockPos (hd pindex), tp_nTxPos = n\<rparr>"

lemma connect_tx_pos:
  assumes "connect_tx E env txdb pindex False tx s = Accepted s'"
  shows "cs_nTxPos s' = cs_nTxPos s + of_nat (length (ser_tx tx))"
    and "\<exists>ti. mapQueuedChanges s' (tx_GetHash E tx) = Some ti \<and> ti_pos ti = tx_pos pindex (cs_nTxPos s)"
    and "h \<noteq> tx_GetHash E tx \<Longrightarrow> mapQueuedChanges s h = Some ti \<Longrightarrow>
      \<exists>ti'. mapQueuedChanges s' h = Some ti' \<and> ti_pos ti' = ti_pos ti"
proof -
  let ?own = "CTxIndex_new (tx_pos pindex (cs_nTxPos s)) (length (vout tx))"
  obtain q where q: "keeps_pos (mapQueuedChanges s) q" "mapQueuedChanges s' = q(tx_GetHash E tx \<mapsto> ?own)"
    "cs_nTxPos s' = cs_nTxPos s + of_nat (length (ser_tx tx))"
  proof (cases "IsCoinBase tx")
    case True
    show thesis
      using assms True that [OF keeps_pos_refl]
      by (auto simp: connect_tx_def tx_pos_def Let_def split: if_splits option.splits)
  next
    case False
    obtain inputs p c q b where "FetchInputs txdb (disk_tx env) (memory_pool env) tx (mapQueuedChanges s) True False Map.empty = Inr inputs"
      and "ConnectInputs E tx inputs (mapQueuedChanges s) p pindex (nCoinbaseMaturity env)
        (below_checkpoint env) (cs_nBurnCoins s) True False block_flags (cs_cache s) = Accepted (q, b, c)"
      and q: "mapQueuedChanges s' = q(tx_GetHash E tx \<mapsto> ?own)"
        "cs_nTxPos s' = cs_nTxPos s + of_nat (length (ser_tx tx))"
      using assms False
      by (auto simp: connect_tx_def tx_pos_def Let_def split: if_splits option.splits sum.splits verdict.splits prod.splits)
    then have "keeps_pos (mapQueuedChanges s) q" using ConnectInputs_pos False by blast
    with q show thesis by (intro that)
  qed
  show "cs_nTxPos s' = cs_nTxPos s + of_nat (length (ser_tx tx))" by (rule q(3))
  show "\<exists>ti. mapQueuedChanges s' (tx_GetHash E tx) = Some ti \<and> ti_pos ti = tx_pos pindex (cs_nTxPos s)"
    using q(2) by (simp add: CTxIndex_new_def)
  show "h \<noteq> tx_GetHash E tx \<Longrightarrow> mapQueuedChanges s h = Some ti \<Longrightarrow>
      \<exists>ti'. mapQueuedChanges s' h = Some ti' \<and> ti_pos ti' = ti_pos ti"
    using q(1,2) by (simp add: keeps_pos_def)
qed

lemma connect_loop_keeps:
  "connect_loop E env txdb pindex False txs s = Accepted s' \<Longrightarrow> h \<notin> tx_GetHash E ` set txs \<Longrightarrow>
     mapQueuedChanges s h = Some ti \<Longrightarrow> \<exists>ti'. mapQueuedChanges s' h = Some ti' \<and> ti_pos ti' = ti_pos ti"
proof (induction txs arbitrary: s ti)
  case (Cons tx txs)
  obtain t where t: "connect_tx E env txdb pindex False tx s = Accepted t" "connect_loop E env txdb pindex False txs t = Accepted s'"
    using Cons.prems(1) by (auto split: verdict.splits)
  obtain ti' where "mapQueuedChanges t h = Some ti'" "ti_pos ti' = ti_pos ti"
    using connect_tx_pos(3) [OF t(1) _ Cons.prems(3)] Cons.prems(2) by auto
  with Cons.IH [OF t(2)] Cons.prems(2) show ?case by auto
qed simp

lemma connect_loop_pos:
  "connect_loop E env txdb pindex False txs s = Accepted s' \<Longrightarrow> distinct (map (tx_GetHash E) txs) \<Longrightarrow> k < length txs \<Longrightarrow>
     \<exists>ti. mapQueuedChanges s' (tx_GetHash E (txs ! k)) = Some ti \<and>
       ti_pos ti = tx_pos pindex (cs_nTxPos s + of_nat (length (concat (map ser_tx (take k txs)))))"
proof (induction txs arbitrary: s k)
  case (Cons tx txs)
  obtain t where t: "connect_tx E env txdb pindex False tx s = Accepted t" "connect_loop E env txdb pindex False txs t = Accepted s'"
    using Cons.prems(1) by (auto split: verdict.splits)
  show ?case
  proof (cases k)
    case 0
    obtain ti where "mapQueuedChanges t (tx_GetHash E tx) = Some ti" "ti_pos ti = tx_pos pindex (cs_nTxPos s)"
      using connect_tx_pos(2) [OF t(1)] by blast
    moreover have "tx_GetHash E tx \<notin> tx_GetHash E ` set txs" using Cons.prems(2) by simp
    ultimately show ?thesis using connect_loop_keeps [OF t(2)] 0 by fastforce
  next
    case (Suc j)
    then show ?thesis
      using Cons.IH [OF t(2), of j] Cons.prems(2,3) connect_tx_pos(1) [OF t(1)] by (simp add: add.assoc)
  qed
qed simp

text \<open>Where the transactions of a block are in its bytes.\<close>

definition tx_offset :: "CBlock \<Rightarrow> nat \<Rightarrow> nat" where
  "tx_offset b k = 80 + GetSizeOfCompactSize (length (vtx b)) + length (concat (map ser_tx (take k (vtx b))))"

lemma length_ser_header [simp]: "length (ser_header b) = 80"
  by (simp add: ser_header_def)

lemma tx_at_offset:
  assumes "k < length (vtx b)"
  shows "\<exists>rest. drop (tx_offset b k) (ser_block b) = ser_tx (vtx b ! k) @ rest"
proof -
  have "vtx b = take k (vtx b) @ vtx b ! k # drop (Suc k) (vtx b)" using assms by (rule id_take_nth_drop)
  then have "concat (map ser_tx (vtx b)) = concat (map ser_tx (take k (vtx b))) @
      ser_tx (vtx b ! k) @ concat (map ser_tx (drop (Suc k) (vtx b)))"
    by (metis concat.simps(2) concat_append list.simps(9) map_append)
  then have "ser_block b = (ser_header b @ WriteCompactSize (length (vtx b)) @ concat (map ser_tx (take k (vtx b)))) @
      ser_tx (vtx b ! k) @ concat (map ser_tx (drop (Suc k) (vtx b))) @ ser_bytes (vchBlockSig b)"
    by (simp add: ser_block_def ser_vector_def)
  moreover have "length (ser_header b @ WriteCompactSize (length (vtx b)) @ concat (map ser_tx (take k (vtx b)))) = tx_offset b k"
    by (simp add: tx_offset_def)
  ultimately show ?thesis by (metis append_eq_conv_conj)
qed

lemma first_tx_pos_eq: "first_tx_pos pindex b = bi_nBlockPos (hd pindex) + of_nat (tx_offset b 0)"
proof -
  have "length (ser_block CBlock_null) = 82" "GetSizeOfCompactSize 0 = 1"
    by (simp_all add: ser_block_def CBlock_null_def ser_vector_def ser_bytes_def GetSizeOfCompactSize_def)
  then show ?thesis by (simp add: first_tx_pos_def tx_offset_def)
qed

lemma ConnectBlock_split:
  assumes "ConnectBlock E env txdb pindex supply j b cache = Accepted (txdb', mint, supply', cache')"
  obtains s where "CheckBlock E (scrypt_hash env) (max_data_carrier env) (proof_of_work_limit env) (adjusted_time env)
      (\<not> j) (\<not> j) False b = Inr ()"
    and "connect_loop E env txdb pindex j (vtx b) (connect_start pindex j b cache) = Accepted s"
    and "check_reward E env txdb pindex b s = Accepted ()"
    and "txdb' = (if j then txdb else txdb ++ mapQueuedChanges s)"
    and "mint = s64 (s64 (cs_nValueOut s - cs_nValueIn s) + cs_nFees s)"
  using assms by (auto simp: ConnectBlock_def split: sum.splits verdict.splits)

lemma ConnectBlock_positions:
  assumes "ConnectBlock E env txdb pindex supply False b cache = Accepted (txdb', mint, supply', cache')"
    and "k < length (vtx b)"
  shows "\<exists>ti. txdb' (tx_GetHash E (vtx b ! k)) = Some ti \<and>
    ti_pos ti = tx_pos pindex (bi_nBlockPos (hd pindex) + of_nat (tx_offset b k))"
proof -
  obtain s where s: "CheckBlock E (scrypt_hash env) (max_data_carrier env) (proof_of_work_limit env) (adjusted_time env)
      True True False b = Inr ()"
    "connect_loop E env txdb pindex False (vtx b) (connect_start pindex False b cache) = Accepted s"
    "txdb' = txdb ++ mapQueuedChanges s"
    by (rule ConnectBlock_split [OF assms(1)]) auto
  have "distinct (map (tx_GetHash E) (vtx b))" using s(1) by (simp add: CheckBlock_iff)
  from connect_loop_pos [OF s(2) this assms(2)] show ?thesis
    using s(3) by (auto simp: connect_start_def first_tx_pos_eq tx_offset_def add.assoc add.commute add.left_commute)
qed

text \<open>A block without a coinstake mints what its coinbase pays, at most the reward.\<close>

lemma ConnectBlock_mint:
  assumes "ConnectBlock E env txdb pindex supply j b cache = Accepted (txdb', mint, supply', cache')"
    and "list_all (\<lambda>tx. \<not> IsCoinStake tx) (vtx b)"
  shows "mint = out_sum (vout (vtx b ! 0)) \<and> 
    (\<exists>s. connect_loop E env txdb pindex j (vtx b) (connect_start pindex j b cache) = Accepted s \<and>
      mint \<le> GetProofOfWorkReward (best_height env) (cs_nFees s))"
proof -
  obtain s where s: "CheckBlock E (scrypt_hash env) (max_data_carrier env) (proof_of_work_limit env) (adjusted_time env)
      (\<not> j) (\<not> j) False b = Inr ()"
    and l: "connect_loop E env txdb pindex j (vtx b) (connect_start pindex j b cache) = Accepted s"
    and r: "check_reward E env txdb pindex b s = Accepted ()"
    and m: "mint = s64 (s64 (cs_nValueOut s - cs_nValueIn s) + cs_nFees s)"
    by (rule ConnectBlock_split [OF assms(1)])
  note b = s [unfolded CheckBlock_iff]
  obtain cb rest where v: "vtx b = cb # rest" using b by (cases "vtx b") auto
  have cb: "IsCoinBase cb" "list_all (\<lambda>tx. \<not> IsCoinBase tx) rest" "CheckTransaction cb = Inr ()" using b v by auto
  then have "filter IsCoinBase (vtx b) = [cb]" by (auto simp: v filter_empty_conv list_all_iff)
  then have "balance s = out_sum (vout cb) mod 2 ^ 64"
    using connect_loop_balance [OF l assms(2)] by (simp add: balance_def connect_start_def)
  moreover obtain k where "s64 (cs_nValueOut s - cs_nValueIn s) = cs_nValueOut s - cs_nValueIn s + k * 2 ^ 64"
    by (rule s64_split)
  then have eq: "s64 (cs_nValueOut s - cs_nValueIn s) + cs_nFees s =
      cs_nFees s + cs_nValueOut s - cs_nValueIn s + k * 2 ^ 64" by simp
  have "(s64 (cs_nValueOut s - cs_nValueIn s) + cs_nFees s) mod 2 ^ 64 =
      (cs_nFees s + cs_nValueOut s - cs_nValueIn s) mod 2 ^ 64" unfolding eq by (rule mod_mult_self1)
  ultimately have "(s64 (cs_nValueOut s - cs_nValueIn s) + cs_nFees s) mod 2 ^ 64 = out_sum (vout cb) mod 2 ^ 64"
    by (simp add: balance_def)
  moreover have paid: "GetValueOut cb = Some (out_sum (vout cb))" using CheckTransaction_value [OF cb(3)] .
  ultimately have mint: "mint = out_sum (vout cb)"
    unfolding m by (intro s64_eqI) (auto simp: GetValueOut_iff MoneyRange_def MAX_MONEY_def COIN_def)
  have "\<not> b_IsProofOfStake b" using assms(2) by (auto simp: b_IsProofOfStake_def list_all_length)
  then have "out_sum (vout cb) \<le> GetProofOfWorkReward (best_height env) (cs_nFees s)"
    using r paid v by (auto simp: check_reward_def split: if_splits)
  with mint v l show ?thesis by auto
qed

end
