(* ===== verification/ChainSpec.thy ===== *)
theory ChainSpec
  imports BlockConnectProps PoolSpec
begin

text \<open>
  The properties of transactions connected to the coins they spend (\<open>TxConnect\<close>), of blocks
  (\<open>BlockRules\<close>, \<open>BlockConnect\<close>) and of the rules along the chain (\<open>Blocks\<close>).
\<close>

section \<open>Concrete scripts and blocks\<close>

lemma eval_one:
  assumes "bn_ok E" "vfExec i = []" "length (stack i) + length (altstack i) < 1000"
  shows "eval_step E chk ctx 81 [] pc (i, c) = Inr (i\<lparr>stack := [1] # stack i\<rparr>, c)"
  using assms by (simp add: run_simps op_pushnum_def getvch_eq setint64_eq mpi_bytes_def) (simp add: le_min.simps)

lemma eval_two_ones:
  assumes "bn_ok E"
  shows "EvalScript E chk ctx [] [0x51, 0x51] c = (True, [[1], [1]], c)"
proof -
  let ?i = "\<lparr>stack = [], altstack = [], vfExec = [], pbegincodehash = [0x51, 0x51], nOpCount = 0\<rparr>"
  have "GetOp2 [0x51, 0x51] = Some (81, [], [0x51])" "GetOp2 [0x51] = Some (81, [], [])"
    by (simp_all add: GetOp2_def)
  then have "eval_loop E chk ctx [0x51, 0x51] (?i, c) = Inr (?i\<lparr>stack := [[1], [1]]\<rparr>, c)"
    by (simp add: eval_loop_step eval_one [OF assms])
  then show ?thesis by (simp add: EvalScript_def)
qed

lemma eval_empty: "EvalScript E chk ctx stk [] c = (True, stk, c)"
  by (simp add: EvalScript_def)

definition coinbase :: CTransaction where
  "coinbase = \<lparr>tx_nVersion = 1, tx_nTime = 3,
     vin = [\<lparr>prevout = COutPoint_null, scriptSig = [1, 1], nSequence = 0\<rparr>],
     vout = [\<lparr>nValue = 5, scriptPubKey = [0x51, 0x51]\<rparr>], nLockTime = 0\<rparr>"

lemma coinbase_hash: "tx_GetHash time_hash coinbase = 3"
  by (subst time_hash_tx) (simp_all add: coinbase_def ser_tx_def ser_vector_def ser_txin_def ser_txout_def
    ser_bytes_def ser_outpoint_def WriteCompactSize_def)

section \<open>Transactions\<close>

text \<open>C4: A transaction accepted into a block pays for what it takes. When the inputs of a transaction that
  mints nothing are fetched from the transaction index and \<open>ConnectInputs\<close> accepts it, no output is spent
  twice, every one of them was unspent, the outputs and the minimal fee are at most the sum of the
  outputs spent, which is money, and above the last checkpoint every input script was run and verified.\<close>

theorem connected_transaction:
  assumes "FetchInputs txdb disk pool tx Map.empty True False Map.empty = Inr inputs"
    and "ConnectInputs E tx inputs Map.empty p chain maturity False nBurn True False flags c = Accepted (pool', nBurn', c')"
    and "\<not> IsCoinBase tx" "\<not> IsCoinStake tx" "tp_nFile p \<noteq> - 1" "entries_ok txdb"
  shows "distinct (map prevout (vin tx)) \<and> list_all (unspent txdb) (vin tx) \<and>
    out_sum (vout tx) + MIN_TX_FEE \<le> sum_list (map (prev_value inputs) (vin tx)) \<and>
    MoneyRange (sum_list (map (prev_value inputs) (vin tx))) \<and>
    (\<forall>k < length (vin tx). \<exists>txPrev c1 c2.
      map_option snd (inputs (op_hash (prevout (vin tx ! k)))) = Some txPrev \<and>
      VerifySignature E txPrev tx k flags 0 c1 = (Some True, c2))"
proof -
  obtain inputs' where sp: "spend_loop E True flags p True tx 0 (vin tx) (inputs, Map.empty, c) =
      Accepted (inputs', pool', c')"
    by (rule ConnectInputs_split [OF assms(2,3)]) simp
  note pays = ConnectInputs_pays [OF assms(2,3,4)]
  have "\<exists>txPrev c1 c2. map_option snd (inputs (op_hash (prevout (vin tx ! k)))) = Some txPrev \<and>
      VerifySignature E txPrev tx k flags 0 c1 = (Some True, c2)" if "k < length (vin tx)" for k
  proof -
    have "prevout_in_range inputs (vin tx ! k)" using pays(3) that by (simp add: list_all_length)
    then obtain y where "inputs (op_hash (prevout (vin tx ! k))) = Some y"
      by (auto simp: prevout_in_range_def split: option.splits)
    then show ?thesis using spend_loop_verifies [OF sp that] by simp
  qed
  then show ?thesis
    using spend_loop_Accepted [OF sp assms(5) FetchInputs_agrees [OF assms(1,3)] assms(6)] pays by blast
qed

definition index1 :: txdb where
  "index1 = [1 \<mapsto> \<lparr>ti_pos = \<lparr>tp_nFile = 0, tp_nBlockPos = 0, tp_nTxPos = 81\<rparr>, vSpent = [CDiskTxPos_null]\<rparr>]"

definition inputs1 :: MapPrevTx where
  "inputs1 = [1 \<mapsto>
     (\<lparr>ti_pos = \<lparr>tp_nFile = 0, tp_nBlockPos = 0, tp_nTxPos = 81\<rparr>, vSpent = [CDiskTxPos_null]\<rparr>, parent)]"

definition pos1 :: CDiskTxPos where
  "pos1 = \<lparr>tp_nFile = 0, tp_nBlockPos = 90, tp_nTxPos = 171\<rparr>"

lemma child_vin: "vin child = [\<lparr>prevout = \<lparr>op_hash = 1, op_n = 0\<rparr>, scriptSig = [], nSequence = 0\<rparr>]"
  "vout child = [\<lparr>nValue = 50000, scriptPubKey = [0x51, 0x51]\<rparr>]" "tx_nTime child = 2"
  by (simp_all add: child_def parent_hash)

lemma parent_vout: "vout parent = [\<lparr>nValue = 90000, scriptPubKey = [0x51, 0x51]\<rparr>]" "vin parent = []" "tx_nTime parent = 1"
  by (simp_all add: parent_def)

lemma child_kind: "\<not> IsCoinBase child" "\<not> IsCoinStake child" "\<not> IsCoinBase parent" "\<not> IsCoinStake parent"
  by (simp_all add: IsCoinBase_def IsCoinStake_def child_vin parent_vout op_IsNull_def)

lemma index1_ok: "entries_ok index1"
  by (simp add: entries_ok_def index1_def)

lemma child_fetched: "FetchInputs index1 (\<lambda>_. Some parent) pool_empty child Map.empty True False Map.empty = Inr inputs1"
  by (simp add: FetchInputs_def child_kind child_vin index1_def inputs1_def Let_def pos_mempool_def
      prevout_in_range_def parent_vout)

lemma child_verified: "VerifySignature time_hash parent child 0 flags 0 c = (Some True, c)"
  by (simp add: VerifySignature_def child_vin parent_vout parent_hash Let_def VerifyScript_def eval_empty
      eval_two_ones [OF time_hash_bn_ok] IsPayToScriptHash_def)

definition spent1 :: "CDiskTxPos \<Rightarrow> CTxIndex" where
  "spent1 p = \<lparr>ti_pos = \<lparr>tp_nFile = 0, tp_nBlockPos = 0, tp_nTxPos = 81\<rparr>, vSpent = [p]\<rparr>"

lemma child_connects:
  "ConnectInputs time_hash child inputs1 m p chain maturity False nBurn fBlock fMiner flags c =
     Accepted (if fBlock \<or> fMiner then m(1 \<mapsto> spent1 p) else m, nBurn, c)"
proof -
  have g: "GetValueOut child = Some 50000"
    by (simp add: GetValueOut_iff child_vin out_sum_def MoneyRange_def MAX_MONEY_def COIN_def)
  have f: "GetMinFee 1 GMF_BLOCK 0 = 10000"
    by (simp add: GetMinFee_def MIN_TX_FEE_def MoneyRange_def MAX_MONEY_def COIN_def s64_def)
  have v: "values_loop inputs1 chain maturity child (vin child) 0 = Accepted 90000"
    by (simp add: child_vin inputs1_def parent_vout child_kind Let_def txout_IsEmpty_def s64_def MoneyRange_def
        MAX_MONEY_def COIN_def)
  have sp: "spend_loop time_hash True flags p fb child 0 (vin child) (inputs1, m, c) =
      Accepted (inputs1(1 \<mapsto> (spent1 p, parent)), if fb then m(1 \<mapsto> spent1 p) else m, c)" for fb
    using child_verified [of flags c]
    by (simp add: child_vin(1) inputs1_def Let_def check_input_def tp_IsNull_def CDiskTxPos_null_def spent1_def)
  have t: "tally child 90000 fBlock nBurn = Accepted nBurn"
    by (simp add: tally_def g f Let_def s64_def MoneyRange_def MAX_MONEY_def COIN_def) (simp add: child_vin)
  show ?thesis by (simp add: ConnectInputs_def child_kind v sp t)
qed

lemma child_connected:
  "ConnectInputs time_hash child inputs1 m p chain maturity False nBurn True False flags c =
     Accepted (m(1 \<mapsto> spent1 p), nBurn, c)"
  by (simp add: child_connects)

lemma connected_transaction_witness:
  "out_sum (vout child) + MIN_TX_FEE \<le> sum_list (map (prev_value inputs1) (vin child)) \<and>
   list_all (unspent index1) (vin child)"
  using connected_transaction [OF child_fetched child_connected child_kind(1,2) _ index1_ok, of pos1]
  by (simp add: pos1_def)

text \<open>Disconnecting undoes connecting: the transaction index with the entries \<open>ConnectInputs\<close> queued for
  an accepted transaction is the old index again after \<open>DisconnectInputs\<close>, without the entry of the
  transaction itself.\<close>

theorem connect_disconnect:
  assumes "FetchInputs txdb disk pool tx Map.empty True fMiner Map.empty = Inr inputs" "\<not> IsCoinBase tx"
    and "ConnectInputs E tx inputs Map.empty p chain maturity fBelow nBurn True fMiner flags c =
      Accepted (pool', nBurn', c')"
    and "tp_nFile p \<noteq> - 1" "entries_ok txdb"
  shows "DisconnectInputs E tx (txdb ++ pool') = Some (txdb(tx_GetHash E tx := None))"
  using assms by (rule connect_disconnect_marks)

lemma connect_disconnect_witness:
  "DisconnectInputs time_hash child (index1 ++ [1 \<mapsto> spent1 pos1]) = Some (index1(2 := None))"
  using connect_disconnect [OF child_fetched child_kind(1) child_connected _ index1_ok, of pos1]
  by (simp add: pos1_def child_hash)

section \<open>Blocks\<close>

definition sibling_tx :: CTransaction where
  "sibling_tx = child\<lparr>tx_nTime := 4\<rparr>"

definition block3 :: CBlock where
  "block3 = CBlock_null\<lparr>hashMerkleRoot := fst (BuildMerkleTree time_hash [coinbase, child, sibling_tx]),
     b_nTime := 10, vtx := [coinbase, child, sibling_tx]\<rparr>"

lemma sibling_hash: "tx_GetHash time_hash sibling_tx = 4"
  by (subst time_hash_tx) (simp_all add: sibling_tx_def child_def ser_tx_def ser_vector_def ser_txin_def
    ser_txout_def ser_bytes_def ser_outpoint_def WriteCompactSize_def)

lemma small_txs:
  "length (ser_tx coinbase) = 68" "length (ser_tx child) = 66" "length (ser_tx sibling_tx) = 66"
  by (simp_all add: coinbase_def sibling_tx_def child_def ser_tx_def ser_vector_def ser_txin_def
    ser_txout_def ser_bytes_def ser_outpoint_def WriteCompactSize_def)

lemma coinbase_kind: "IsCoinBase coinbase" "\<not> IsCoinStake coinbase"
  by (simp_all add: IsCoinBase_def IsCoinStake_def coinbase_def op_IsNull_def COutPoint_null_def)

lemma sibling_kind: "\<not> IsCoinBase sibling_tx" "\<not> IsCoinStake sibling_tx"
  using child_kind by (simp_all add: IsCoinBase_def IsCoinStake_def sibling_tx_def)

lemma txs_checked: "CheckTransaction coinbase = Inr ()" "CheckTransaction child = Inr ()"
    "CheckTransaction sibling_tx = Inr ()"
  unfolding CheckTransaction_iff small_txs
  using coinbase_kind child_kind sibling_kind
  by (simp_all add: child_vin sibling_tx_def coinbase_def out_sum_def MoneyRange_def MAX_MONEY_def COIN_def
      MAX_BLOCK_SIZE_def txout_IsEmpty_def op_IsNull_def)

lemma txs_sigops: "GetLegacySigOpCount coinbase = 0" "GetLegacySigOpCount child = 0" "GetLegacySigOpCount sibling_tx = 0"
proof -
  have "GetSigOpCount False [] = 0" "GetSigOpCount False [1, 1] = 0" "GetSigOpCount False [0x51, 0x51] = 0"
    by (simp_all add: GetSigOpCount_def sigops_loop.simps GetOp2_def)
  then show "GetLegacySigOpCount coinbase = 0" "GetLegacySigOpCount child = 0" "GetLegacySigOpCount sibling_tx = 0"
    by (simp_all add: GetLegacySigOpCount_def coinbase_def sibling_tx_def child_vin)
qed

lemma block3_checked: "CheckBlock time_hash (\<lambda>_. 0) 40 1000 100 False True False block3 = Inr ()"
proof -
  have "length (ser_block block3) \<le> MAX_BLOCK_SIZE"
    by (simp add: ser_block_def block3_def CBlock_null_def ser_vector_def ser_bytes_def small_txs MAX_BLOCK_SIZE_def
        GetSizeOfCompactSize_def)
  moreover have "\<not> b_IsProofOfStake block3" using child_kind by (simp add: b_IsProofOfStake_def block3_def)
  ultimately show ?thesis
    unfolding CheckBlock_iff
    by (simp add: block3_def MAX_BLOCK_SIZE_def b_GetBlockTime_def FutureDrift_def coinbase_kind child_kind sibling_kind
        txs_checked coinbase_hash child_hash sibling_hash block_sigops_def txs_sigops)
      (simp add: coinbase_def sibling_tx_def child_vin)
qed

text \<open>Every transaction of a checked block has a Merkle branch that leads to the root in the header:
  \<open>CheckMerkleBranch\<close>, applied to the hash of the transaction and the branch \<open>GetMerkleBranch\<close> gives
  for its index, computes \<open>hashMerkleRoot\<close>, whether or not the tree was kept.\<close>

theorem block_merkle_branches:
  assumes "CheckBlock E scrypt maxData powLimit now fPOW True fSig b = Inr ()" "i < length (vtx b)"
    and "t \<in> {[], snd (BuildMerkleTree E (vtx b))}"
  shows "CheckMerkleBranch E (tx_GetHash E (vtx b ! i)) (fst (GetMerkleBranch E (vtx b) t (int i))) (int i) =
    hashMerkleRoot b"
  using merkle_branch [OF assms(2), of t E] assms(1,3) by (auto simp: CheckBlock_iff)

lemma block_merkle_branches_witness:
  "CheckMerkleBranch time_hash 4 (fst (GetMerkleBranch time_hash (vtx block3) [] 2)) 2 = hashMerkleRoot block3"
  using block_merkle_branches [OF block3_checked, of 2 "[]"] sibling_hash by (simp add: block3_def)

text \<open>C26: A block cannot be altered by repeating its last transaction. The block with an odd number of
  transactions, more than one, and the same block with the last one repeated have the same header and
  the same Merkle root; the altered block of a checked one is rejected, with score 100.\<close>

theorem repeated_transaction_rejected:
  assumes "CheckBlock E scrypt maxData powLimit now fPOW True fSig b = Inr ()"
    and "odd (length (vtx b))" "length (vtx b) > 1"
  defines "b' \<equiv> b\<lparr>vtx := vtx b @ [last (vtx b)]\<rparr>"
  shows "ser_header b' = ser_header b \<and> hashMerkleRoot b' = fst (BuildMerkleTree E (vtx b')) \<and>
    CheckBlock E scrypt maxData powLimit now fPOW True fSig b' = Inl 100"
proof -
  let ?l = "last (vtx b)"
  note b = assms(1) [unfolded CheckBlock_iff]
  have h: "ser_header b' = ser_header b" "vtx b' = vtx b @ [?l]" "b_nBits b' = b_nBits b"
    "b_GetBlockTime b' = b_GetBlockTime b" "vchBlockSig b' = vchBlockSig b" "hashMerkleRoot b' = hashMerkleRoot b"
    by (simp_all add: b'_def ser_header_def b_GetBlockTime_def)
  have "length (vtx b) \<noteq> 2" using assms(2) by auto
  then have n: "length (vtx b) > 2" using assms(3) by linarith
  have at: "vtx b' ! 0 = vtx b ! 0" "vtx b' ! 1 = vtx b ! 1"
    "drop 1 (vtx b') = drop 1 (vtx b) @ [?l]" "drop 2 (vtx b') = drop 2 (vtx b) @ [?l]"
    using n by (auto simp: h nth_append)
  have pos: "b_IsProofOfStake b' = b_IsProofOfStake b" using n at(2) by (auto simp: b_IsProofOfStake_def h)
  have "?l = last (drop 2 (vtx b))" using n by simp
  then have l: "?l \<in> set (drop 2 (vtx b))" using n by (metis last_in_set drop_eq_Nil not_le)
  moreover have "set (drop 2 (vtx b)) \<subseteq> set (drop 1 (vtx b))" by (rule set_drop_subset_set_drop) simp
  ultimately have l: "?l \<in> set (drop 1 (vtx b))" "?l \<in> set (drop 2 (vtx b))" "?l \<in> set (vtx b)"
    by (auto dest: in_set_dropD)
  have hash: "b_GetHash E scrypt b' = b_GetHash E scrypt b" "GetPoWHash scrypt b' = GetPoWHash scrypt b"
    by (simp_all add: b_GetHash_def GetPoWHash_def h) (simp add: b'_def)
  have sig: "CheckBlockSignature E scrypt maxData b' = CheckBlockSignature E scrypt maxData b"
    by (simp only: CheckBlockSignature_def pos h(5) hash at(2))
  have txs: "check_txs (b_GetBlockTime b) (vtx b @ [?l]) = Inr ()"
    using b l(3) by (simp add: check_txs_iff list_all_iff)
  have "tx_GetHash E ?l \<in> tx_GetHash E ` set (vtx b)" using l(3) by (rule imageI)
  then have dup: "length (remdups (map (tx_GetHash E) (vtx b @ [?l]))) \<noteq> length (vtx b @ [?l])"
    using length_remdups_eq [of "map (tx_GetHash E) (vtx b @ [?l])"] by auto
  have "CheckBlock E scrypt maxData powLimit now fPOW True fSig b' = Inl 100"
    using b l dup txs
    unfolding CheckBlock_def pos at h hash sig
    by (auto simp: list_ex_iff list_all_iff)
  moreover have "fst (BuildMerkleTree E (vtx b @ [?l])) = fst (BuildMerkleTree E (vtx b))"
    by (rule merkle_repeat [OF assms(2,3)])
  ultimately show ?thesis using b h by simp
qed

lemma repeated_transaction_rejected_witness:
  "CheckBlock time_hash (\<lambda>_. 0) 40 1000 100 False True False
     (block3\<lparr>vtx := [coinbase, child, sibling_tx, sibling_tx]\<rparr>) = Inl 100"
proof -
  have n: "odd (length (vtx block3))" "length (vtx block3) > 1"
    and v: "vtx block3 @ [last (vtx block3)] = [coinbase, child, sibling_tx, sibling_tx]"
    by (simp_all add: block3_def)
  from repeated_transaction_rejected [OF block3_checked n] show ?thesis unfolding v by blast
qed

text \<open>C10: A proof-of-work block without a coinstake mints what its coinbase pays, never more than the reward:
  when \<open>ConnectBlock\<close> accepts it, the amount it records as minted is the sum of the outputs of its first
  transaction, although the running sums may wrap around, and this is at most the subsidy of the height and
  the fees the loop added up.\<close>

theorem block_mint:
  assumes "ConnectBlock E env txdb pindex supply fJustCheck b cache = Accepted (txdb', mint, supply', cache')"
    and "list_all (\<lambda>tx. \<not> IsCoinStake tx) (vtx b)"
  shows "mint = out_sum (vout (vtx b ! 0)) \<and>
    (\<exists>s. connect_loop E env txdb pindex fJustCheck (vtx b) (connect_start pindex fJustCheck b cache) = Accepted s \<and>
      mint \<le> GetProofOfWorkReward (best_height env) (cs_nFees s))"
  using assms by (rule ConnectBlock_mint)

definition block1 :: CBlock where
  "block1 = CBlock_null\<lparr>hashMerkleRoot := fst (BuildMerkleTree time_hash [coinbase]), b_nTime := 10,
     b_nBits := GetCompact time_hash 1000, vtx := [coinbase]\<rparr>"

definition env1 :: connect_env where
  "env1 = \<lparr>scrypt_hash = (\<lambda>_. 0), max_data_carrier = 40, proof_of_work_limit = 1000, adjusted_time = 100,
     disk_tx = (\<lambda>_. None), disk_header = (\<lambda>_ _. None), memory_pool = pool_empty, below_checkpoint = False,
     best_height = 4, prefixes = main_prefixes, nCoinbaseMaturity = 10, nStakeMinAge = 100,
     nStakeMinConfirmations = 10\<rparr>"

definition index_entry1 :: CBlockIndex where
  "index_entry1 = \<lparr>bi_hash = 9, bi_nFile = 1, bi_nBlockPos = 1000, nChainTrust = 0, nHeight = 5, bi_nFlags = 0,
     nStakeModifier = 0, prevoutStake = COutPoint_null, nStakeTime = 0, hashProof = 0, bi_nVersion = 7,
     bi_hashMerkleRoot = 0, bi_nTime = 10, bi_nBits = 0, bi_nNonce = 0\<rparr>"

lemma block1_checked: "CheckBlock time_hash (\<lambda>_. 0) 40 1000 100 True True False block1 = Inr ()"
proof -
  have "CheckProofOfWork time_hash 1000 0 (GetCompact time_hash 1000)"
    using compact_round [OF time_hash_bn_ok, of 1000] time_hash_bn_ok
    by (simp add: CheckProofOfWork_def Let_def)
  moreover have "GetPoWHash (\<lambda>_. 0) block1 = 0" "b_nBits block1 = GetCompact time_hash 1000"
    by (simp_all add: GetPoWHash_def block1_def)
  moreover have "length (ser_block block1) \<le> MAX_BLOCK_SIZE"
    by (simp add: ser_block_def block1_def CBlock_null_def ser_vector_def ser_bytes_def small_txs MAX_BLOCK_SIZE_def
        GetSizeOfCompactSize_def)
  moreover have "\<not> b_IsProofOfStake block1" by (simp add: b_IsProofOfStake_def block1_def)
  ultimately show ?thesis
    unfolding CheckBlock_iff
    by (simp add: block1_def MAX_BLOCK_SIZE_def b_GetBlockTime_def FutureDrift_def coinbase_kind
        txs_checked block_sigops_def txs_sigops) (simp add: coinbase_def)
qed

lemma block1_connects:
  "\<exists>txdb' supply'. ConnectBlock time_hash env1 Map.empty [index_entry1] 0 False block1 c = Accepted (txdb', 5, supply', c)"
proof -
  have v: "GetValueOut coinbase = Some 5"
    by (simp add: GetValueOut_iff coinbase_def out_sum_def MoneyRange_def MAX_MONEY_def COIN_def)
  have t: "vtx block1 = [coinbase]" by (simp add: block1_def)
  obtain s where s: "connect_loop time_hash env1 Map.empty [index_entry1] False [coinbase]
      (connect_start [index_entry1] False block1 c) = Accepted s"
    "cs_nValueOut s = 5" "cs_nValueIn s = 0" "cs_nFees s = 0" "cs_cache s = c"
    by (simp add: connect_tx_def Let_def coinbase_kind v txs_sigops connect_start_def)
  have r: "check_reward time_hash env1 Map.empty [index_entry1] block1 s = Accepted ()"
    by (simp add: check_reward_def b_IsProofOfStake_def t v s GetProofOfWorkReward_def env1_def COIN_def)
  have k: "CheckBlock time_hash (scrypt_hash env1) (max_data_carrier env1) (proof_of_work_limit env1)
      (adjusted_time env1) (\<not> False) (\<not> False) False block1 = Inr ()"
    using block1_checked by (simp add: env1_def)
  show ?thesis unfolding ConnectBlock_def k t s(1) sum.case verdict.case r by (simp add: s(2-5))
qed

lemma block_mint_witness: "out_sum (vout (vtx block1 ! 0)) = 5 \<and> list_all (\<lambda>tx. \<not> IsCoinStake tx) (vtx block1)"
proof -
  have n: "list_all (\<lambda>tx. \<not> IsCoinStake tx) (vtx block1)" by (simp add: block1_def coinbase_kind)
  obtain txdb' supply' where
    "ConnectBlock time_hash env1 Map.empty [index_entry1] 0 False block1 cache0 = Accepted (txdb', 5, supply', cache0)"
    using block1_connects by blast
  from block_mint [OF this n] n show ?thesis by simp
qed

text \<open>A proof-of-work block whose third transaction is a coinstake that spends 50000 and pays ten
  thousand coins.\<close>

definition stake :: CTransaction where
  "stake = \<lparr>tx_nVersion = 1, tx_nTime = 5,
     vin = [\<lparr>prevout = \<lparr>op_hash = 2, op_n = 0\<rparr>, scriptSig = [], nSequence = 0\<rparr>],
     vout = [\<lparr>nValue = 0, scriptPubKey = []\<rparr>, \<lparr>nValue = 10000 * COIN, scriptPubKey = [0x51, 0x51]\<rparr>],
     nLockTime = 0\<rparr>"

definition block_stake :: CBlock where
  "block_stake = CBlock_null\<lparr>hashMerkleRoot := fst (BuildMerkleTree time_hash [coinbase, child, stake]),
     b_nTime := 10, b_nBits := GetCompact time_hash 1000, vtx := [coinbase, child, stake]\<rparr>"

definition env2 :: connect_env where
  "env2 = env1\<lparr>disk_tx := (\<lambda>p. Some (if tp_nFile p = 0 then parent else child))\<rparr>"

lemma size_stake: "length (ser_tx stake) = 75"
  by (simp add: stake_def ser_tx_def ser_vector_def ser_txin_def ser_txout_def ser_bytes_def ser_outpoint_def
    WriteCompactSize_def)

lemma stake_hash: "tx_GetHash time_hash stake = 5"
  by (subst time_hash_tx) (simp_all add: size_stake, simp add: stake_def)

lemma stake_kind: "\<not> IsCoinBase stake" "IsCoinStake stake"
  by (simp_all add: IsCoinBase_def IsCoinStake_def stake_def op_IsNull_def txout_IsEmpty_def)

lemma stake_checked: "CheckTransaction stake = Inr ()" "GetLegacySigOpCount stake = 0"
    "GetValueOut stake = Some (10000 * COIN)"
proof -
  show "CheckTransaction stake = Inr ()"
    unfolding CheckTransaction_iff size_stake using stake_kind
    by (simp_all add: stake_def out_sum_def MoneyRange_def MAX_MONEY_def COIN_def MAX_BLOCK_SIZE_def
        txout_IsEmpty_def op_IsNull_def)
  have "GetSigOpCount False [] = 0" "GetSigOpCount False [0x51, 0x51] = 0"
    by (simp_all add: GetSigOpCount_def sigops_loop.simps GetOp2_def)
  then show "GetLegacySigOpCount stake = 0" by (simp add: GetLegacySigOpCount_def stake_def)
  show "GetValueOut stake = Some (10000 * COIN)"
    by (simp add: GetValueOut_iff stake_def out_sum_def MoneyRange_def MAX_MONEY_def COIN_def)
qed

lemma block_stake_checked: "CheckBlock time_hash (\<lambda>_. 0) 40 1000 100 True True False block_stake = Inr ()"
proof -
  have "CheckProofOfWork time_hash 1000 0 (GetCompact time_hash 1000)"
    using compact_round [OF time_hash_bn_ok, of 1000] time_hash_bn_ok
    by (simp add: CheckProofOfWork_def Let_def)
  moreover have "GetPoWHash (\<lambda>_. 0) block_stake = 0" "b_nBits block_stake = GetCompact time_hash 1000"
    by (simp_all add: GetPoWHash_def block_stake_def)
  moreover have "length (ser_block block_stake) \<le> MAX_BLOCK_SIZE"
    by (simp add: ser_block_def block_stake_def CBlock_null_def ser_vector_def ser_bytes_def small_txs size_stake
        MAX_BLOCK_SIZE_def GetSizeOfCompactSize_def)
  moreover have "\<not> b_IsProofOfStake block_stake" by (simp add: b_IsProofOfStake_def block_stake_def child_kind)
  ultimately show ?thesis
    unfolding CheckBlock_iff
    by (simp add: block_stake_def MAX_BLOCK_SIZE_def b_GetBlockTime_def FutureDrift_def coinbase_kind child_kind
        stake_kind txs_checked stake_checked block_sigops_def txs_sigops coinbase_hash child_hash stake_hash)
      (simp add: coinbase_def child_vin stake_def)
qed

lemma stake_vin:
  "vin stake = [\<lparr>prevout = \<lparr>op_hash = 2, op_n = 0\<rparr>, scriptSig = [], nSequence = 0\<rparr>]" "tx_nTime stake = 5"
  by (simp_all add: stake_def)

lemma stake_verified: "VerifySignature time_hash child stake 0 flags 0 c = (Some True, c)"
  by (simp add: VerifySignature_def stake_vin child_vin child_hash Let_def VerifyScript_def eval_empty
      eval_two_ones [OF time_hash_bn_ok] IsPayToScriptHash_def)

lemma stake_connected:
  assumes "inputs 2 = Some (\<lparr>ti_pos = q, vSpent = [CDiskTxPos_null]\<rparr>, child)"
  shows "ConnectInputs time_hash stake inputs m p chain maturity False nBurn True False flags c =
     Accepted (m(2 \<mapsto> \<lparr>ti_pos = q, vSpent = [p]\<rparr>), nBurn, c)"
proof -
  have w: "values_loop inputs chain maturity stake (vin stake) 0 = Accepted 50000"
    by (simp add: stake_vin assms child_vin child_kind Let_def txout_IsEmpty_def s64_def MoneyRange_def MAX_MONEY_def COIN_def)
  have sp: "\<exists>i. spend_loop time_hash True flags p True stake 0 (vin stake) (inputs, m, c) =
      Accepted (i, m(2 \<mapsto> \<lparr>ti_pos = q, vSpent = [p]\<rparr>), c)"
    using stake_verified by (simp add: stake_vin(1) assms Let_def check_input_def tp_IsNull_def CDiskTxPos_null_def)
  then show ?thesis using w by (auto simp: ConnectInputs_def stake_kind)
qed

text \<open>C24: The rule is missing for a coinstake that is not the second transaction. A block accepted as proof of
  work may have a coinstake further on: neither \<open>CheckBlock\<close> nor \<open>ConnectInputs\<close> nor the reward check
  bounds what it pays. The block of a coinbase that pays 5, an ordinary transaction and a coinstake that
  spends 50000 and pays ten thousand coins is connected at a height whose reward is ten coins.\<close>

theorem late_coinstake_mints:
  "\<exists>txdb' supply' mint. ConnectBlock time_hash env2 index1 [index_entry1] 0 False block_stake c =
     Accepted (txdb', mint, supply', c) \<and> \<not> b_IsProofOfStake block_stake \<and>
     GetProofOfWorkReward (best_height env2) 0 = 10 * COIN \<and> mint > 9999 * COIN"
proof -
  let ?p = "\<lambda>n. \<lparr>tp_nFile = 1, tp_nBlockPos = 1000, tp_nTxPos = n\<rparr>"
  let ?s0 = "connect_start [index_entry1] False block_stake c"
  have t: "vtx block_stake = [coinbase, child, stake]" by (simp add: block_stake_def)
  have v: "GetValueOut coinbase = Some 5" "GetValueOut child = Some 50000"
    by (simp_all add: GetValueOut_iff coinbase_def child_vin out_sum_def MoneyRange_def MAX_MONEY_def COIN_def)
  have e: "disk_tx env2 = (\<lambda>p. Some (if tp_nFile p = 0 then parent else child))" "memory_pool env2 = pool_empty"
    "below_checkpoint env2 = False" "best_height env2 = 4" by (simp_all add: env2_def env1_def)
  obtain s1 where s1: "connect_tx time_hash env2 index1 [index_entry1] False coinbase ?s0 = Accepted s1"
    "mapQueuedChanges s1 1 = None" "cs_nSigOps s1 = 0" "cs_nValueIn s1 = 0" "cs_nValueOut s1 = 5" "cs_nFees s1 = 0"
    "cs_nBurnCoins s1 = 0" "cs_cache s1 = c"
    by (simp add: connect_tx_def Let_def coinbase_kind coinbase_hash v txs_sigops connect_start_def index1_def)
  have n: "index1 2 = None" "index1 5 = None" by (simp_all add: index1_def)
  have f: "FetchInputs index1 (disk_tx env2) pool_empty child (mapQueuedChanges s1) True False Map.empty = Inr inputs1"
    using s1(2) by (simp add: FetchInputs_def child_kind child_vin index1_def inputs1_def Let_def pos_mempool_def
        prevout_in_range_def parent_vout e)
  have g: "GetP2SHSigOpCount child inputs1 = Some 0" "GetValueIn child inputs1 = Some 90000"
    by (simp_all add: GetP2SHSigOpCount_def GetValueIn_def child_kind child_vin inputs1_def GetOutputFor_def
        parent_vout IsPayToScriptHash_def)
  obtain s2 q where s2: "connect_tx time_hash env2 index1 [index_entry1] False child s1 = Accepted s2"
    "mapQueuedChanges s2 2 = Some \<lparr>ti_pos = q, vSpent = [CDiskTxPos_null]\<rparr>" "tp_nFile q = 1"
    "cs_nSigOps s2 = 0" "cs_nValueIn s2 = 90000" "cs_nValueOut s2 = 50005" "cs_nFees s2 = 40000" "cs_nBurnCoins s2 = 0"
    "cs_cache s2 = c" "tp_nBlockPos q = 1000"
    by (simp add: connect_tx_def Let_def child_kind child_hash v txs_sigops n f [unfolded e] g e s1 child_connected
        CTxIndex_new_def child_vin(2) index_entry1_def s64_def)
  let ?in = "[2 \<mapsto> (\<lparr>ti_pos = q, vSpent = [CDiskTxPos_null]\<rparr>, child)]"
  have vin: "vin stake = [\<lparr>prevout = \<lparr>op_hash = 2, op_n = 0\<rparr>, scriptSig = [], nSequence = 0\<rparr>]" by (simp add: stake_def)
  have h: "FetchInputs index1 (disk_tx env2) pool_empty stake (mapQueuedChanges s2) True False Map.empty = Inr ?in"
    using s2(2,3,10) by (cases q) (simp add: FetchInputs_def stake_kind vin Let_def pos_mempool_def
        prevout_in_range_def child_vin e)
  have k: "GetP2SHSigOpCount stake ?in = Some 0" "GetValueIn stake ?in = Some 50000"
    by (simp_all add: GetP2SHSigOpCount_def GetValueIn_def stake_kind vin GetOutputFor_def child_vin
        IsPayToScriptHash_def)
  obtain s3 where s3: "connect_tx time_hash env2 index1 [index_entry1] False stake s2 = Accepted s3"
    "cs_nValueIn s3 = 140000" "cs_nValueOut s3 = 50005 + 10000 * COIN" "cs_nFees s3 = 40000" "cs_cache s3 = c"
    by (simp add: connect_tx_def Let_def stake_kind stake_hash stake_checked n h [unfolded e] k e s2 stake_connected s64_def COIN_def)
  have l: "connect_loop time_hash env2 index1 [index_entry1] False [coinbase, child, stake] ?s0 = Accepted s3"
    by (simp add: s1(1) s2(1) s3(1))
  have np: "\<not> b_IsProofOfStake block_stake" by (simp add: b_IsProofOfStake_def t child_kind)
  have r: "check_reward time_hash env2 index1 [index_entry1] block_stake s3 = Accepted ()"
    by (simp add: check_reward_def np t v s3 GetProofOfWorkReward_def e COIN_def s64_def)
  have chk: "CheckBlock time_hash (scrypt_hash env2) (max_data_carrier env2) (proof_of_work_limit env2)
      (adjusted_time env2) (\<not> False) (\<not> False) False block_stake = Inr ()"
    using block_stake_checked by (simp add: env2_def env1_def)
  show ?thesis
    unfolding ConnectBlock_def chk t l sum.case verdict.case r
    by (simp add: s3 np GetProofOfWorkReward_def e COIN_def s64_def)
qed

text \<open>C29: The transaction index finds the transactions of a connected block: after \<open>ConnectBlock\<close> the entry
  of each of them has the position of the block plus the offset of the transaction in the bytes of the
  block, and the bytes there begin with the transaction.\<close>

theorem block_positions:
  assumes "ConnectBlock E env txdb pindex supply False b cache = Accepted (txdb', mint, supply', cache')"
    and "k < length (vtx b)"
  shows "\<exists>ti rest n. txdb' (tx_GetHash E (vtx b ! k)) = Some ti \<and>
    tp_nFile (ti_pos ti) = bi_nFile (hd pindex) \<and> tp_nBlockPos (ti_pos ti) = bi_nBlockPos (hd pindex) \<and>
    tp_nTxPos (ti_pos ti) = bi_nBlockPos (hd pindex) + of_nat n \<and>
    drop n (ser_block b) = ser_tx (vtx b ! k) @ rest"
proof -
  obtain ti where ti: "txdb' (tx_GetHash E (vtx b ! k)) = Some ti"
    "ti_pos ti = tx_pos pindex (bi_nBlockPos (hd pindex) + of_nat (tx_offset b k))"
    using ConnectBlock_positions [OF assms] by blast
  obtain rest where "drop (tx_offset b k) (ser_block b) = ser_tx (vtx b ! k) @ rest"
    using tx_at_offset [OF assms(2)] by blast
  with ti show ?thesis by (auto simp: tx_pos_def)
qed

lemma block_positions_witness:
  "\<exists>txdb' supply' ti. ConnectBlock time_hash env1 Map.empty [index_entry1] 0 False block1 cache0 =
      Accepted (txdb', 5, supply', cache0) \<and> txdb' 3 = Some ti \<and> tp_nBlockPos (ti_pos ti) = 1000"
proof -
  obtain txdb' supply' where c:
    "ConnectBlock time_hash env1 Map.empty [index_entry1] 0 False block1 cache0 = Accepted (txdb', 5, supply', cache0)"
    using block1_connects by blast
  have n: "0 < length (vtx block1)" and v: "vtx block1 ! 0 = coinbase" by (simp_all add: block1_def)
  from block_positions [OF c n] c show ?thesis
    unfolding v coinbase_hash by (auto simp: index_entry1_def)
qed

section \<open>The chain\<close>

text \<open>C34: The next target is the old one scaled by the time between the last two blocks of the kind, capped
  at ten times the aim, and it is always a valid target: for every chain that has a block the compact form
  stands for a positive number not above the limit; and where the chain has two blocks of the kind with a
  predecessor, it is the compact form of the specified number, OpenSSL's rounding toward zero and the
  negative spacings included.\<close>

theorem next_target:
  assumes "bn_ok E" "c \<noteq> []" "0 < powLimit" "powLimit < 2 ^ 256" "0 < posLimit" "posLimit < 2 ^ 256"
  shows "(\<exists>nBits. GetNextTargetRequired E powLimit posLimit c f = Some nBits \<and>
      0 < SetCompact E nBits \<and> SetCompact E nBits \<le> (if f then posLimit else powLimit)) \<and>
    (let l = GetLastBlockIndex c f; m = GetLastBlockIndex (tl l) f in
      tl l \<noteq> [] \<longrightarrow> tl m \<noteq> [] \<longrightarrow>
      GetNextTargetRequired E powLimit posLimit c f =
        Some (GetCompact E (retarget (if f then posLimit else powLimit) (SetCompact E (bi_nBits (hd l)))
          (bi_GetBlockTime (hd l) - bi_GetBlockTime (hd m)))))"
  using GetNextTargetRequired_range [OF assms] GetNextTargetRequired_eq [OF assms(1)] by (simp add: Let_def)

lemma next_target_witness:
  "\<exists>nBits. GetNextTargetRequired time_hash 1000 2000 [index_entry1, index_entry1, index_entry1] False = Some nBits \<and>
     0 < SetCompact time_hash nBits \<and> SetCompact time_hash nBits \<le> 1000"
  using next_target [OF time_hash_bn_ok, of "[index_entry1, index_entry1, index_entry1]" 1000 2000 False] by simp

text \<open>A locator is short: after its first eleven entries the steps double, so a chain of \<open>n\<close> blocks has a
  locator of at most eleven hashes and the logarithm of \<open>2 (n + 1)\<close>; building it ends.\<close>

theorem locator_short:
  "2 ^ (length (locator_Set hashGenesisBlock pindex) - 11) \<le> 2 * (length pindex + 1)"
  by (rule locator_length)

end
