(* ===== verification/AcceptPool.thy ===== *)
theory AcceptPool
  imports BlockConnect
begin

text \<open>
  Taking a transaction into the memory pool (\<open>AcceptToMemoryPool\<close>, src/main.cpp): the checks in their
  order, and what they establish for the pool. The wallets are not told.
\<close>

text \<open>
  The result: an exception or a failed assertion, a refusal with whether inputs are missing and the
  score, or the new pool and signature cache. \<open>limited\<close> is the answer of the limiter of free
  transactions, which computes with floating-point numbers; it is asked only after the fee was found to
  be at least the minimal one, and is proved not to matter.
\<close>

datatype accept = Threw | Refused bool int | InPool CTxMemPool sigcache

definition AcceptToMemoryPool ::
  "external \<Rightarrow> connect_env \<Rightarrow> bool \<Rightarrow> bool \<Rightarrow> txdb \<Rightarrow> chain \<Rightarrow> bool \<Rightarrow> CTransaction \<Rightarrow> CTxMemPool \<Rightarrow> sigcache \<Rightarrow>
     accept" where
  "AcceptToMemoryPool E env TestNet limited txdb pindexBest fLimitFree tx pool c =
     (case CheckTransaction tx of
        Inl d \<Rightarrow> Refused False d
      | Inr _ \<Rightarrow>
        if IsCoinBase tx then Refused False 100
        else if IsCoinStake tx then Refused False 100
        else if \<not> TestNet \<and>
          IsStandardTx (max_data_carrier env) (best_height env) (adjusted_time env) tx \<noteq> None then Refused False 0
        else
          let hash = tx_GetHash E tx in
          if pool_exists pool hash then Refused False 0
          else if list_ex (\<lambda>x. mapNextTx pool (prevout x) \<noteq> None) (vin tx) then Refused False 0
          else if txdb hash \<noteq> None then Refused False 0
          else case FetchInputs txdb (disk_tx env) pool tx Map.empty False False Map.empty of
            Inl (fInvalid, d) \<Rightarrow> Refused (\<not> fInvalid) d
          | Inr mapInputs \<Rightarrow>
              (case (if TestNet then (Some True, c) else AreInputsStandard E (max_data_carrier env) tx mapInputs c) of
                 (None, c) \<Rightarrow> Threw
               | (Some False, c) \<Rightarrow> Refused False 0
               | (Some True, c) \<Rightarrow>
                   (case (GetP2SHSigOpCount tx mapInputs, GetValueIn tx mapInputs, GetValueOut tx) of
                      (Some p2sh, vi, vo) \<Rightarrow>
                        if unat (GetLegacySigOpCount tx + p2sh) > MAX_TX_SIGOPS then Refused False 0
                        else (case (vi, vo) of
                            (Some nValueIn, Some nValueOut) \<Rightarrow>
                              let nFees = s64 (nValueIn - nValueOut);
                                  txMinFee = GetMinFee 1000 GMF_RELAY (of_nat (length (ser_tx tx))) in
                              if fLimitFree \<and> nFees < txMinFee \<or> \<not> fLimitFree \<and> nFees < MIN_TX_FEE
                              then Refused False 0
                              else if fLimitFree \<and> nFees < MIN_RELAY_TX_FEE \<and> limited then Refused False 0
                              else
                                (case ConnectInputs E tx mapInputs Map.empty pos_mempool pindexBest
                                    (nCoinbaseMaturity env) (below_checkpoint env) 0 False False
                                    STANDARD_SCRIPT_VERIFY_FLAGS c of
                                   Raised \<Rightarrow> Threw
                                 | Rejected d \<Rightarrow> Refused False d
                                 | Accepted (_, nBurnCoins, c) \<Rightarrow>
                                     (case ConnectInputs E tx mapInputs Map.empty pos_mempool pindexBest
                                         (nCoinbaseMaturity env) (below_checkpoint env) nBurnCoins False False
                                         MANDATORY_SCRIPT_VERIFY_FLAGS c of
                                        Raised \<Rightarrow> Threw
                                      | Rejected d \<Rightarrow> Refused False d
                                      | Accepted (_, _, c) \<Rightarrow> InPool (addUnchecked hash tx pool) c))
                          | _ \<Rightarrow> Threw)
                    | _ \<Rightarrow> Threw)))"

section \<open>What an accepted transaction passed\<close>

lemma limiter_unused:
  "AcceptToMemoryPool E env tn limited txdb best lim tx pool c =
     AcceptToMemoryPool E env tn limited' txdb best lim tx pool c"
proof -
  have fee: "\<not> (lim \<and> x < MIN_RELAY_TX_FEE)" if "\<not> (lim \<and> x < GetMinFee 1000 GMF_RELAY n \<or> \<not> lim \<and> x < MIN_TX_FEE)"
    for x :: int and n
    using that GetMinFee_range [of 1000 GMF_RELAY n] by (auto simp: MIN_RELAY_TX_FEE_def)
  then have e: "(if lim \<and> x < GetMinFee 1000 GMF_RELAY n \<or> \<not> lim \<and> x < MIN_TX_FEE then a
      else if lim \<and> x < MIN_RELAY_TX_FEE \<and> l then b else d) =
    (if lim \<and> x < GetMinFee 1000 GMF_RELAY n \<or> \<not> lim \<and> x < MIN_TX_FEE then a else d)"
    for x :: int and n l and a b d :: accept
    using fee [of x n] by auto
  show ?thesis unfolding AcceptToMemoryPool_def Let_def e ..
qed

lemma AcceptToMemoryPool_split:
  assumes "AcceptToMemoryPool E env tn limited txdb best lim tx pool c = InPool pool' c'"
  obtains inputs c1 c2 c3 nBurn nBurn' p q where
    "CheckTransaction tx = Inr ()" "\<not> IsCoinBase tx" "\<not> IsCoinStake tx"
    "\<not> pool_exists pool (tx_GetHash E tx)" "\<not> list_ex (\<lambda>x. mapNextTx pool (prevout x) \<noteq> None) (vin tx)"
    "txdb (tx_GetHash E tx) = None"
    "FetchInputs txdb (disk_tx env) pool tx Map.empty False False Map.empty = Inr inputs"
    "ConnectInputs E tx inputs Map.empty pos_mempool best (nCoinbaseMaturity env) (below_checkpoint env) 0
       False False STANDARD_SCRIPT_VERIFY_FLAGS c1 = Accepted (p, nBurn, c2)"
    "ConnectInputs E tx inputs Map.empty pos_mempool best (nCoinbaseMaturity env) (below_checkpoint env) nBurn
       False False MANDATORY_SCRIPT_VERIFY_FLAGS c2 = Accepted (q, nBurn', c3)"
    "pool' = addUnchecked (tx_GetHash E tx) tx pool"
proof -
  note a = assms [unfolded AcceptToMemoryPool_def Let_def]
  have g: "CheckTransaction tx = Inr ()" "\<not> IsCoinBase tx" "\<not> IsCoinStake tx"
    "\<not> pool_exists pool (tx_GetHash E tx)" "\<not> list_ex (\<lambda>x. mapNextTx pool (prevout x) \<noteq> None) (vin tx)"
    "txdb (tx_GetHash E tx) = None"
    using a by (simp_all split: sum.splits if_splits)
  obtain inputs where f: "FetchInputs txdb (disk_tx env) pool tx Map.empty False False Map.empty = Inr inputs"
    using a by (auto split: sum.splits if_splits)
  obtain r c1 where r: "(if tn then (Some True, c) else AreInputsStandard E (max_data_carrier env) tx inputs c) = (r, c1)"
    by fastforce
  note a = a [unfolded g(1) f r sum.case prod.case]
  have "r = Some True" using a g by (simp split: if_splits option.splits bool.splits)
  note a = a [unfolded this option.case bool.case]
  let ?first = "ConnectInputs E tx inputs Map.empty pos_mempool best (nCoinbaseMaturity env) (below_checkpoint env) 0
       False False STANDARD_SCRIPT_VERIFY_FLAGS c1"
  obtain p nBurn c2 where one: "?first = Accepted (p, nBurn, c2)"
    using a g by (cases ?first) (auto split: if_splits option.splits)
  note a = a [unfolded one verdict.case prod.case]
  let ?second = "ConnectInputs E tx inputs Map.empty pos_mempool best (nCoinbaseMaturity env) (below_checkpoint env)
       nBurn False False MANDATORY_SCRIPT_VERIFY_FLAGS c2"
  obtain q nBurn' c3 where two: "?second = Accepted (q, nBurn', c3)"
    using a g by (cases ?second) (auto split: if_splits option.splits)
  note a = a [unfolded two verdict.case prod.case]
  have "pool' = addUnchecked (tx_GetHash E tx) tx pool"
    using a g by (auto split: if_splits option.splits)
  from that [OF g f one two this] show thesis .
qed

end
