(* ===== verification/BlockDisconnect.thy ===== *)
theory BlockDisconnect
  imports BlockConnectProps
begin

text \<open>
  Disconnecting a block (\<open>DisconnectBlock\<close>, src/main.cpp): the transaction index goes back through the
  transactions of the block in reverse order. The index entry of the block before it and the wallets
  are not part of the model.
\<close>

fun disconnect_txs :: "external \<Rightarrow> CTransaction list \<Rightarrow> txdb \<Rightarrow> txdb option" where
  "disconnect_txs E [] txdb = Some txdb"
| "disconnect_txs E (tx # txs) txdb =
     (case DisconnectInputs E tx txdb of None \<Rightarrow> None | Some txdb \<Rightarrow> disconnect_txs E txs txdb)"

definition DisconnectBlock :: "external \<Rightarrow> CBlock \<Rightarrow> txdb \<Rightarrow> txdb option" where
  "DisconnectBlock E b txdb = disconnect_txs E (rev (vtx b)) txdb"

lemma disconnect_txs_append:
  "disconnect_txs E (xs @ ys) d =
     (case disconnect_txs E xs d of None \<Rightarrow> None | Some d \<Rightarrow> disconnect_txs E ys d)"
  by (induction xs arbitrary: d) (auto split: option.splits)

section \<open>One transaction\<close>

text \<open>What the queued changes and the index hold together is what the inputs are fetched from.\<close>

lemma fetch_loop_overlay:
  assumes "fetch_loop txdb disk mp pool True xs inputs = Inr inputs'"
    and "\<And>h. inputs h \<noteq> None \<Longrightarrow> (txdb ++ pool) h = map_option fst (inputs h)"
  shows "(\<forall>h. inputs' h \<noteq> None \<longrightarrow> (txdb ++ pool) h = map_option fst (inputs' h)) \<and>
    (\<forall>h. inputs h \<noteq> None \<longrightarrow> inputs' h \<noteq> None) \<and> (\<forall>x \<in> set xs. inputs' (op_hash (prevout x)) \<noteq> None)"
  using assms
proof (induction xs arbitrary: inputs)
  case (Cons x xs)
  let ?h = "op_hash (prevout x)"
  have over: "(if pool ?h \<noteq> None then pool ?h else txdb ?h) = (txdb ++ pool) ?h"
    by (auto simp: map_add_def split: option.splits)
  show ?case
  proof (cases "inputs ?h")
    case (Some y)
    then have "fetch_loop txdb disk mp pool True xs inputs = Inr inputs'"
      using Cons.prems(1) by (simp add: Let_def)
    from Cons.IH [OF this Cons.prems(2)] Some show ?thesis by (metis option.distinct(1) set_ConsD)
  next
    case None
    obtain ti where ti: "(txdb ++ pool) ?h = Some ti"
      using Cons.prems(1) None over by (cases "(txdb ++ pool) ?h") (simp_all add: Let_def)
    obtain t where t: "fetch_loop txdb disk mp pool True xs (inputs(?h \<mapsto> (ti, t))) = Inr inputs'"
      using Cons.prems(1) None ti over
      by (cases "ti_pos ti = pos_mempool"; cases "pool_lookup mp ?h"; cases "disk (ti_pos ti)") (simp_all add: Let_def)
    have "\<And>h. (inputs(?h \<mapsto> (ti, t))) h \<noteq> None \<Longrightarrow>
        (txdb ++ pool) h = map_option fst ((inputs(?h \<mapsto> (ti, t))) h)"
      using Cons.prems(2) ti by (auto split: if_splits)
    from Cons.IH [OF t this]
    have "\<forall>h. inputs' h \<noteq> None \<longrightarrow> (txdb ++ pool) h = map_option fst (inputs' h)"
      "\<forall>h. (inputs(?h \<mapsto> (ti, t))) h \<noteq> None \<longrightarrow> inputs' h \<noteq> None"
      "\<forall>x \<in> set xs. inputs' (op_hash (prevout x)) \<noteq> None" by blast+
    then show ?thesis by auto
  qed
qed simp

lemma FetchInputs_overlay:
  assumes "FetchInputs txdb disk mp tx pool True False Map.empty = Inr inputs" "\<not> IsCoinBase tx"
  shows "agrees (txdb ++ pool) inputs (vin tx)"
proof -
  have "fetch_loop txdb disk mp pool True (vin tx) Map.empty = Inr inputs"
    using assms by (auto simp: FetchInputs_def split: sum.splits if_splits)
  from fetch_loop_overlay [OF this] show ?thesis by (auto simp: agrees_def)
qed

lemma disconnect_loop_other:
  "\<forall>x \<in> set xs. op_hash (prevout x) \<noteq> h \<Longrightarrow>
     disconnect_loop xs (d(h \<mapsto> v)) = map_option (\<lambda>d. d(h \<mapsto> v)) (disconnect_loop xs d)"
proof (induction xs arbitrary: d)
  case (Cons x xs)
  have "(d(h \<mapsto> v))(op_hash (prevout x) \<mapsto> w) = (d(op_hash (prevout x) \<mapsto> w))(h \<mapsto> v)" for w
    using Cons.prems by (intro fun_upd_twist) auto
  moreover have "(d(h \<mapsto> v)) (op_hash (prevout x)) = d (op_hash (prevout x))" using Cons.prems by simp
  ultimately show ?case
    using Cons by (cases "d (op_hash (prevout x))") (simp_all add: Let_def del: fun_upd_apply)
qed simp

lemma dom_marks: "dom (foldl (\<lambda>d x. mark p x d) d xs) = dom d"
proof (induction xs arbitrary: d)
  case (Cons x xs)
  have "dom (mark p x d) = dom d" by (auto simp: mark_def split: option.splits)
  with Cons show ?case by simp
qed simp

lemma entries_ok_marks: "entries_ok d \<Longrightarrow> tp_nFile p \<noteq> - 1 \<Longrightarrow> entries_ok (foldl (\<lambda>d x. mark p x d) d xs)"
  by (induction xs arbitrary: d) (simp_all add: entries_ok_mark)

lemma entries_ok_new: "entries_ok d \<Longrightarrow> entries_ok (d(h \<mapsto> CTxIndex_new p n))"
  by (auto simp: entries_ok_def CTxIndex_new_def)

text \<open>Connecting one transaction marks what it spends and adds its own entry.\<close>

lemma connect_tx_overlay:
  assumes "connect_tx E env txdb pindex False tx s = Accepted s'" "bi_nFile (hd pindex) \<noteq> - 1"
    and "entries_ok (txdb ++ mapQueuedChanges s)"
  obtains p n xs where "tp_nFile p \<noteq> - 1" "xs = (if IsCoinBase tx then [] else vin tx)"
    and "distinct (map prevout xs)" "list_all (unspent (txdb ++ mapQueuedChanges s)) xs"
    and "txdb ++ mapQueuedChanges s' =
      (foldl (\<lambda>d x. mark p x d) (txdb ++ mapQueuedChanges s) xs)(tx_GetHash E tx \<mapsto> CTxIndex_new p n)"
proof -
  let ?p = "tx_pos pindex (cs_nTxPos s)"
  have p: "tp_nFile ?p \<noteq> - 1" using assms(2) by (simp add: tx_pos_def)
  show thesis
  proof (cases "IsCoinBase tx")
    case True
    then have "mapQueuedChanges s' = (mapQueuedChanges s)(tx_GetHash E tx \<mapsto> CTxIndex_new ?p (length (vout tx)))"
      using assms(1) by (auto simp: connect_tx_def tx_pos_def Let_def split: if_splits option.splits)
    then show thesis using that [OF p, of "[]" "length (vout tx)"] True by simp
  next
    case False
    obtain inputs c q b where f: "FetchInputs txdb (disk_tx env) (memory_pool env) tx (mapQueuedChanges s) True False Map.empty = Inr inputs"
      and i: "ConnectInputs E tx inputs (mapQueuedChanges s) ?p pindex (nCoinbaseMaturity env)
        (below_checkpoint env) (cs_nBurnCoins s) True False block_flags (cs_cache s) = Accepted (q, b, c)"
      and q: "mapQueuedChanges s' = q(tx_GetHash E tx \<mapsto> CTxIndex_new ?p (length (vout tx)))"
      using assms(1) False
      by (auto simp: connect_tx_def tx_pos_def Let_def split: if_splits option.splits sum.splits verdict.splits prod.splits)
    have ag: "agrees (txdb ++ mapQueuedChanges s) inputs (vin tx)" by (rule FetchInputs_overlay [OF f False])
    obtain inputs' where sp: "spend_loop E (\<not> (True \<and> below_checkpoint env)) block_flags ?p (True \<or> False) tx 0 (vin tx)
        (inputs, mapQueuedChanges s, cs_cache s) = Accepted (inputs', q, c)"
      by (rule ConnectInputs_split [OF i False])
    then have sp: "spend_loop E (\<not> below_checkpoint env) block_flags ?p True tx 0 (vin tx)
        (inputs, mapQueuedChanges s, cs_cache s) = Accepted (inputs', q, c)" by simp
    show thesis
      using that [OF p, of "vin tx" "length (vout tx)"] spend_loop_Accepted [OF sp p ag assms(3)]
        spend_loop_overlay [OF sp ag] q False by simp
  qed
qed

lemma disconnect_tx:
  assumes "connect_tx E env txdb pindex False tx s = Accepted s'" "bi_nFile (hd pindex) \<noteq> - 1"
    and "entries_ok (txdb ++ mapQueuedChanges s)" "(txdb ++ mapQueuedChanges s) (tx_GetHash E tx) = None"
  shows "DisconnectInputs E tx (txdb ++ mapQueuedChanges s') = Some (txdb ++ mapQueuedChanges s)"
    and "entries_ok (txdb ++ mapQueuedChanges s')"
    and "dom (txdb ++ mapQueuedChanges s') = insert (tx_GetHash E tx) (dom (txdb ++ mapQueuedChanges s))"
proof -
  let ?D = "txdb ++ mapQueuedChanges s" and ?h = "tx_GetHash E tx"
  obtain p n xs where p: "tp_nFile p \<noteq> - 1" and xs: "xs = (if IsCoinBase tx then [] else vin tx)"
    and u: "distinct (map prevout xs)" "list_all (unspent ?D) xs"
    and D': "txdb ++ mapQueuedChanges s' = (foldl (\<lambda>d x. mark p x d) ?D xs)(?h \<mapsto> CTxIndex_new p n)"
    by (rule connect_tx_overlay [OF assms(1-3)])
  have other: "\<forall>x \<in> set xs. op_hash (prevout x) \<noteq> ?h"
    using u(2) assms(4) by (auto simp: list_all_iff unspent_def)
  have "list_all (in_range (foldl (\<lambda>d x. mark p x d) ?D xs)) xs"
    using u(2) unspent_in_range by (auto simp: list_all_iff)
  from disconnect_marks [OF this] unmark_all [OF u, of p]
  have "disconnect_loop xs (foldl (\<lambda>d x. mark p x d) ?D xs) = Some ?D" by simp
  then have "disconnect_loop xs (txdb ++ mapQueuedChanges s') = Some (?D(?h \<mapsto> CTxIndex_new p n))"
    unfolding D' disconnect_loop_other [OF other] by simp
  moreover have "?D(?h := None) = ?D" using assms(4) by (simp add: fun_upd_idem)
  ultimately show "DisconnectInputs E tx (txdb ++ mapQueuedChanges s') = Some ?D"
    using xs D' by (cases "IsCoinBase tx") (simp_all add: DisconnectInputs_def)
  show "entries_ok (txdb ++ mapQueuedChanges s')"
    unfolding D' by (intro entries_ok_new entries_ok_marks assms(3) p)
  show "dom (txdb ++ mapQueuedChanges s') = insert ?h (dom ?D)"
    unfolding D' by (simp add: dom_marks)
qed

section \<open>The block\<close>

lemma disconnect_loop_block:
  assumes "connect_loop E env txdb pindex False txs s = Accepted s'" "bi_nFile (hd pindex) \<noteq> - 1"
    and "entries_ok (txdb ++ mapQueuedChanges s)" "distinct (map (tx_GetHash E) txs)"
    and "\<forall>tx \<in> set txs. tx_GetHash E tx \<notin> dom (txdb ++ mapQueuedChanges s)"
  shows "disconnect_txs E (rev txs) (txdb ++ mapQueuedChanges s') = Some (txdb ++ mapQueuedChanges s)"
  using assms(1,3-5)
proof (induction txs arbitrary: s)
  case (Cons tx txs)
  obtain t where t: "connect_tx E env txdb pindex False tx s = Accepted t" "connect_loop E env txdb pindex False txs t = Accepted s'"
    using Cons.prems(1) by (auto split: verdict.splits)
  have "(txdb ++ mapQueuedChanges s) (tx_GetHash E tx) = None" using Cons.prems(4) by (simp add: domIff)
  note d = disconnect_tx [OF t(1) assms(2) Cons.prems(2) this]
  have "disconnect_txs E (rev txs) (txdb ++ mapQueuedChanges s') = Some (txdb ++ mapQueuedChanges t)"
  proof (rule Cons.IH [OF t(2) d(2)])
    show "distinct (map (tx_GetHash E) txs)" using Cons.prems(3) by simp
    have "tx_GetHash E tx \<noteq> tx_GetHash E u" if "u \<in> set txs" for u
      using Cons.prems(3) that by (metis distinct.simps(2) image_eqI list.set_map list.simps(9))
    then show "\<forall>u \<in> set txs. tx_GetHash E u \<notin> dom (txdb ++ mapQueuedChanges t)"
      unfolding d(3) using Cons.prems(4) by (metis insert_iff list.set_intros(2))
  qed
  then show ?case using d(1) by (simp add: disconnect_txs_append)
qed simp

lemma DisconnectBlock_ConnectBlock:
  assumes "ConnectBlock E env txdb pindex supply False b cache = Accepted (txdb', mint, supply', cache')"
    and "bi_nFile (hd pindex) \<noteq> - 1" "entries_ok txdb" "\<forall>tx \<in> set (vtx b). txdb (tx_GetHash E tx) = None"
  shows "DisconnectBlock E b txdb' = Some txdb"
proof -
  obtain s where s: "CheckBlock E (scrypt_hash env) (max_data_carrier env) (proof_of_work_limit env) (adjusted_time env)
      (\<not> False) (\<not> False) False b = Inr ()"
    "connect_loop E env txdb pindex False (vtx b) (connect_start pindex False b cache) = Accepted s"
    "txdb' = (if False then txdb else txdb ++ mapQueuedChanges s)"
    by (rule ConnectBlock_split [OF assms(1)])
  have m: "mapQueuedChanges (connect_start pindex False b cache) = Map.empty" by (simp add: connect_start_def)
  have "distinct (map (tx_GetHash E) (vtx b))" using s(1) by (simp add: CheckBlock_iff)
  from disconnect_loop_block [OF s(2) assms(2) _ this] assms(3,4) s(3) show ?thesis
    by (simp add: DisconnectBlock_def m domIff)
qed

end
