(* ===== verification/NodeSpec.thy ===== *)
theory NodeSpec
  imports ChainSpec AcceptPool BlockDisconnect
begin

text \<open>
  The properties that join the components of the node: the memory pool with the checks that guard it
  (\<open>AcceptPool\<close>), and connecting a block with disconnecting it (\<open>BlockDisconnect\<close>).
\<close>

section \<open>Entering the memory pool\<close>

text \<open>C15: \<open>AcceptToMemoryPool\<close> keeps what the memory pool relies on. When it takes a transaction into a reachable
  pool, the new pool is reachable (its own checks establish that the transaction is new, uses no output
  twice and none the pool already spends), the transaction is in it, is not a coinbase, coinstake or in
  the index, passed \<open>CheckTransaction\<close>, pays its outputs and the fee from outputs it may spend, and every
  input verified under the standard and the mandatory flags. Assumed is that hashes have no cycle: the
  rank that stands for the order of the transactions.\<close>

theorem accepted_transaction:
  assumes "AcceptToMemoryPool E env tn limited txdb best lim tx pool c = InPool pool' c'"
    and "pool_reachable E rank B pool" "rank (tx_GetHash E tx) \<le> B"
    and "\<forall>x \<in> set (vin tx). rank (op_hash (prevout x)) < rank (tx_GetHash E tx)"
  shows "pool_reachable E rank B pool' \<and> map_of (mapTx pool') (tx_GetHash E tx) = Some tx \<and>
    CheckTransaction tx = Inr () \<and> \<not> IsCoinBase tx \<and> \<not> IsCoinStake tx \<and> txdb (tx_GetHash E tx) = None \<and>
    (\<exists>inputs. FetchInputs txdb (disk_tx env) pool tx Map.empty False False Map.empty = Inr inputs \<and>
      out_sum (vout tx) + MIN_TX_FEE \<le> sum_list (map (prev_value inputs) (vin tx)) \<and>
      (\<forall>k < length (vin tx). \<exists>txPrev c1 c2 c3 c4.
        map_option snd (inputs (op_hash (prevout (vin tx ! k)))) = Some txPrev \<and>
        VerifySignature E txPrev tx k STANDARD_SCRIPT_VERIFY_FLAGS 0 c1 = (Some True, c2) \<and>
        VerifySignature E txPrev tx k MANDATORY_SCRIPT_VERIFY_FLAGS 0 c3 = (Some True, c4)))"
proof -
  obtain inputs c1 c2 c3 nBurn nBurn' p q where t: "CheckTransaction tx = Inr ()" "\<not> IsCoinBase tx" "\<not> IsCoinStake tx"
    "\<not> pool_exists pool (tx_GetHash E tx)" "\<not> list_ex (\<lambda>x. mapNextTx pool (prevout x) \<noteq> None) (vin tx)"
    "txdb (tx_GetHash E tx) = None"
    and f: "FetchInputs txdb (disk_tx env) pool tx Map.empty False False Map.empty = Inr inputs"
    and one: "ConnectInputs E tx inputs Map.empty pos_mempool best (nCoinbaseMaturity env) (below_checkpoint env) 0
       False False STANDARD_SCRIPT_VERIFY_FLAGS c1 = Accepted (p, nBurn, c2)"
    and two: "ConnectInputs E tx inputs Map.empty pos_mempool best (nCoinbaseMaturity env) (below_checkpoint env) nBurn
       False False MANDATORY_SCRIPT_VERIFY_FLAGS c2 = Accepted (q, nBurn', c3)"
    and pool': "pool' = addUnchecked (tx_GetHash E tx) tx pool"
    by (rule AcceptToMemoryPool_split [OF assms(1)])
  have free: "\<forall>x \<in> set (vin tx). mapNextTx pool (prevout x) = None" using t(5) by (simp add: list_ex_iff)
  have d: "distinct (map prevout (vin tx))" using t(1) by (simp add: CheckTransaction_iff)
  have reach: "pool_reachable E rank B pool'"
    unfolding pool' by (rule pool_reachable.add [OF assms(2) t(4) d free assms(3,4)])
  have "omap_ok (mapTx pool)" using pool_reachable_ok [OF assms(2)] pool_okD(1) by blast
  then have at: "map_of (mapTx pool') (tx_GetHash E tx) = Some tx" by (simp add: pool' addUnchecked_def)
  note pays = ConnectInputs_pays [OF one t(2,3)]
  obtain i1 where s1: "spend_loop E True STANDARD_SCRIPT_VERIFY_FLAGS pos_mempool False tx 0 (vin tx)
      (inputs, Map.empty, c1) = Accepted (i1, p, c2)"
    by (rule ConnectInputs_split [OF one t(2)]) simp
  obtain i2 where s2: "spend_loop E True MANDATORY_SCRIPT_VERIFY_FLAGS pos_mempool False tx 0 (vin tx)
      (inputs, Map.empty, c2) = Accepted (i2, q, c3)"
    by (rule ConnectInputs_split [OF two t(2)]) simp
  have "\<exists>txPrev c1 c2 c3 c4. map_option snd (inputs (op_hash (prevout (vin tx ! k)))) = Some txPrev \<and>
        VerifySignature E txPrev tx k STANDARD_SCRIPT_VERIFY_FLAGS 0 c1 = (Some True, c2) \<and>
        VerifySignature E txPrev tx k MANDATORY_SCRIPT_VERIFY_FLAGS 0 c3 = (Some True, c4)"
    if "k < length (vin tx)" for k
  proof -
    have "prevout_in_range inputs (vin tx ! k)" using pays(3) that by (simp add: list_all_length)
    then obtain y where "inputs (op_hash (prevout (vin tx ! k))) = Some y"
      by (auto simp: prevout_in_range_def split: option.splits)
    then show ?thesis using spend_loop_verifies [OF s1 that] spend_loop_verifies [OF s2 that] by simp
  qed
  with reach at t(1,2,3,6) f pays(1) show ?thesis by blast
qed

definition env3 :: connect_env where
  "env3 = env1\<lparr>disk_tx := (\<lambda>_. Some parent)\<rparr>"

lemma child_accepted:
  "\<exists>c'. AcceptToMemoryPool time_hash env3 True False index1 [] False child pool_empty c =
     InPool (addUnchecked (tx_GetHash time_hash child) child pool_empty) c'"
proof -
  have f: "FetchInputs index1 (disk_tx env3) pool_empty child Map.empty False False Map.empty = Inr inputs1"
    by (simp add: FetchInputs_def child_kind child_vin index1_def inputs1_def Let_def pos_mempool_def
        prevout_in_range_def parent_vout env3_def)
  have g: "GetP2SHSigOpCount child inputs1 = Some 0" "GetValueIn child inputs1 = Some 90000"
    by (simp_all add: GetP2SHSigOpCount_def GetValueIn_def child_kind child_vin inputs1_def GetOutputFor_def
        parent_vout IsPayToScriptHash_def)
  have v: "GetValueOut child = Some 50000"
    by (simp add: GetValueOut_iff child_vin out_sum_def MoneyRange_def MAX_MONEY_def COIN_def)
  have "below_checkpoint env3 = False" by (simp add: env3_def env1_def)
  moreover have "index1 2 = None" by (simp add: index1_def)
  moreover have "list_ex (\<lambda>x. mapNextTx pool_empty (prevout x) \<noteq> None) (vin child) = False"
    by (simp add: pool_empty_def list_ex_iff)
  ultimately show ?thesis
    unfolding AcceptToMemoryPool_def f
    by (simp add: txs_checked child_kind child_hash pool_exists_def g v txs_sigops child_connects s64_def MIN_TX_FEE_def
        Let_def) (simp add: pool_empty_def)
qed

lemma accepted_transaction_witness:
  "pool_reachable time_hash rank2 1 (addUnchecked (tx_GetHash time_hash child) child pool_empty)"
proof -
  obtain c' where a: "AcceptToMemoryPool time_hash env3 True False index1 [] False child pool_empty cache0 =
      InPool (addUnchecked (tx_GetHash time_hash child) child pool_empty) c'"
    using child_accepted by blast
  from accepted_transaction [OF a pool_reachable.start, of rank2 1] show ?thesis
    by (simp add: child_hash rank2_def child_vin)
qed

section \<open>Reorganising\<close>

text \<open>C25: Disconnecting a block undoes connecting it: when \<open>ConnectBlock\<close> accepts a block whose transactions are not
  in the index yet, \<open>DisconnectBlock\<close> succeeds on the index it wrote, also where transactions of the block
  spend one another, and gives back the index there was before.\<close>

theorem block_connect_disconnect:
  assumes "ConnectBlock E env txdb pindex supply False b cache = Accepted (txdb', mint, supply', cache')"
    and "bi_nFile (hd pindex) \<noteq> - 1" "entries_ok txdb" "\<forall>tx \<in> set (vtx b). txdb (tx_GetHash E tx) = None"
  shows "DisconnectBlock E b txdb' = Some txdb"
  using assms by (rule DisconnectBlock_ConnectBlock)

lemma block_connect_disconnect_witness:
  "\<exists>txdb'. DisconnectBlock time_hash block1 txdb' = Some Map.empty"
proof -
  obtain txdb' supply' where c:
    "ConnectBlock time_hash env1 Map.empty [index_entry1] 0 False block1 cache0 = Accepted (txdb', 5, supply', cache0)"
    using block1_connects by blast
  from block_connect_disconnect [OF c] show ?thesis by (auto simp: index_entry1_def entries_ok_def)
qed

end
