(* ===== verification/Base32.thy ===== *)
theory Base32
  imports Prelude "HOL-Library.Char_ord"
begin

text \<open>
  Base-32 text (\<open>EncodeBase32\<close> and \<open>DecodeBase32\<close>, src/util.cpp), the form in which names of hidden
  services carry an address. Both are state machines over the bits left over from the last
  character (\<open>left\<close>) with one mode for each number of them; they are proved inverse to one another.
\<close>

definition pbase32 :: string where
  "pbase32 = ''abcdefghijklmnopqrstuvwxyz234567''"

definition nPadding :: "nat list" where
  "nPadding = [0, 6, 4, 3, 1]"

text \<open>The index is a byte, always below 32.\<close>

definition char32 :: "byte \<Rightarrow> char" where
  "char32 b = pbase32 ! unat b"

fun base32_encode :: "nat \<Rightarrow> byte \<Rightarrow> byte list \<Rightarrow> string" where
  "base32_encode mode left [] =
     (if mode \<noteq> 0 then char32 left # replicate (nPadding ! mode) (CHR ''='') else [])"
| "base32_encode mode left (enc # pch) =
     (if mode = 0 then
        char32 (drop_bit 3 enc) # base32_encode 1 (push_bit 2 (enc AND 7)) pch
      else if mode = 1 then
        char32 (left OR drop_bit 6 enc) # char32 (drop_bit 1 enc AND 31) #
        base32_encode 2 (push_bit 4 (enc AND 1)) pch
      else if mode = 2 then
        char32 (left OR drop_bit 4 enc) # base32_encode 3 (push_bit 1 (enc AND 15)) pch
      else if mode = 3 then
        char32 (left OR drop_bit 7 enc) # char32 (drop_bit 2 enc AND 31) #
        base32_encode 4 (push_bit 3 (enc AND 3)) pch
      else
        char32 (left OR drop_bit 5 enc) # char32 (enc AND 31) # base32_encode 0 left pch)"

definition EncodeBase32 :: "byte list \<Rightarrow> string" where
  "EncodeBase32 pch = base32_encode 0 0 pch"

text \<open>The table of the decoder; \<open>None\<close> is its \<open>-1\<close>.\<close>

definition decode32_table :: "char \<Rightarrow> byte option" where
  "decode32_table c =
     (let n = (of_char c :: nat) in
      if 50 \<le> n \<and> n \<le> 55 then Some (of_nat (n - 24))
      else if 65 \<le> n \<and> n \<le> 90 then Some (of_nat (n - 65))
      else if 97 \<le> n \<and> n \<le> 122 then Some (of_nat (n - 97))
      else None)"

text \<open>The bytes decoded, and the mode, the bits left and the text where the loop stops.\<close>

fun base32_decode :: "nat \<Rightarrow> byte \<Rightarrow> string \<Rightarrow> byte list \<times> nat \<times> byte \<times> string" where
  "base32_decode mode left [] = ([], mode, left, [])"
| "base32_decode mode left (c # p) =
     (case decode32_table c of
        None \<Rightarrow> ([], mode, left, c # p)
      | Some dec \<Rightarrow>
          if mode = 0 then base32_decode 1 dec p
          else if mode = 1 then
            map_prod ((#) (push_bit 3 left OR drop_bit 2 dec)) id (base32_decode 2 (dec AND 3) p)
          else if mode = 2 then base32_decode 3 (push_bit 5 left OR dec) p
          else if mode = 3 then
            map_prod ((#) (push_bit 1 left OR drop_bit 4 dec)) id (base32_decode 4 (dec AND 15) p)
          else if mode = 4 then
            map_prod ((#) (push_bit 4 left OR drop_bit 1 dec)) id (base32_decode 5 (dec AND 1) p)
          else if mode = 5 then base32_decode 6 (push_bit 5 left OR dec) p
          else if mode = 6 then
            map_prod ((#) (push_bit 2 left OR drop_bit 3 dec)) id (base32_decode 7 (dec AND 7) p)
          else map_prod ((#) (push_bit 5 left OR dec)) id (base32_decode 0 left p))"

text \<open>Reading the text behind the stop, which a null character ends.\<close>

definition char_at :: "string \<Rightarrow> nat \<Rightarrow> char" where
  "char_at p k = (if k < length p then p ! k else CHR 0x00)"

definition padding_ok :: "nat \<Rightarrow> string \<Rightarrow> bool" where
  "padding_ok k p \<longleftrightarrow> list_all (\<lambda>i. char_at p i = CHR ''='') [0..<k] \<and> decode32_table (char_at p k) = None"

definition DecodeBase32 :: "string \<Rightarrow> byte list \<times> bool" where
  "DecodeBase32 p =
     (case base32_decode 0 0 p of
        (vchRet, mode, left, p) \<Rightarrow>
          (vchRet,
           if mode = 1 \<or> mode = 3 \<or> mode = 6 then True
           else if mode = 2 then left \<noteq> 0 \<or> \<not> padding_ok 6 p
           else if mode = 4 then left \<noteq> 0 \<or> \<not> padding_ok 4 p
           else if mode = 5 then left \<noteq> 0 \<or> \<not> padding_ok 3 p
           else if mode = 7 then left \<noteq> 0 \<or> \<not> padding_ok 1 p
           else False))"

section \<open>The codec\<close>

lemma decode_char32: "unat b < 32 \<Longrightarrow> decode32_table (char32 b) = Some b"
proof -
  assume b: "unat b < 32"
  have "\<forall>n < 32. decode32_table (pbase32 ! n) = Some (of_nat n)"
    unfolding pbase32_def decode32_table_def by (simp add: All_less_Suc numeral_eq_Suc del: of_nat_numeral)
  then show ?thesis using b by (auto simp: char32_def)
qed

lemma byte_bits_eqI:
  assumes "bit a 0 = bit b 0" "bit a 1 = bit b 1" "bit a 2 = bit b 2" "bit a 3 = bit b 3"
    "bit a 4 = bit b 4" "bit a 5 = bit b 5" "bit a 6 = bit b 6" "bit a 7 = bit b 7"
  shows "a = (b :: byte)"
proof (rule bit_word_eqI)
  fix n assume "n < LENGTH(8)"
  then have "n = 0 \<or> n = 1 \<or> n = 2 \<or> n = 3 \<or> n = 4 \<or> n = 5 \<or> n = 6 \<or> n = 7" by auto
  then show "bit a n = bit b n" using assms by (elim disjE) simp_all
qed

lemma bit_byte_ge [simp]: "8 \<le> n \<Longrightarrow> \<not> bit (a :: byte) n"
  using bit_imp_le_length [of a n] by auto

lemma bit_times_2 [simp]: "bit (x * 2 :: byte) n \<longleftrightarrow> 0 < n \<and> n < 8 \<and> bit x (n - 1)"
  using bit_push_bit_iff [of 1 x n] by (auto simp: push_bit_eq_mult dest: bit_imp_le_length)

text \<open>The quintets are below 32, and put the bytes together again.\<close>

lemma unat_lt_32: "b AND 31 = b \<Longrightarrow> unat (b :: byte) < 32"
proof -
  assume "b AND 31 = b"
  then have "b \<le> 31" by (metis word_and_le1)
  then show ?thesis by (simp add: word_le_nat_alt)
qed

lemma quintets_lt [simp]:
  fixes a b :: byte
  shows "unat (drop_bit 3 a) < 32" "unat (push_bit 2 (a AND 7) OR drop_bit 6 b) < 32"
    "unat (drop_bit 1 a AND 31) < 32" "unat (push_bit 4 (a AND 1) OR drop_bit 4 b) < 32"
    "unat (push_bit 1 (a AND 15) OR drop_bit 7 b) < 32" "unat (drop_bit 2 a AND 31) < 32"
    "unat (push_bit 3 (a AND 3) OR drop_bit 5 b) < 32" "unat (a AND 31) < 32"
    "unat (push_bit 2 (a AND 7)) < 32" "unat (push_bit 4 (a AND 1)) < 32"
    "unat (push_bit 1 (a AND 15)) < 32" "unat (push_bit 3 (a AND 3)) < 32"
  by (rule unat_lt_32, rule byte_bits_eqI; simp add: bit_simps)+

lemma quintets_join [simp]:
  fixes a b :: byte
  shows "push_bit 3 (drop_bit 3 a) OR drop_bit 2 (push_bit 2 (a AND 7) OR drop_bit 6 b) = a"
    "push_bit 1 (push_bit 5 ((push_bit 2 (a AND 7) OR drop_bit 6 b) AND 3) OR (drop_bit 1 b AND 31)) OR
       drop_bit 4 (push_bit 4 (b AND 1) OR drop_bit 4 c) = b"
    "push_bit 4 ((push_bit 4 (b AND 1) OR drop_bit 4 c) AND 15) OR
       drop_bit 1 (push_bit 1 (c AND 15) OR drop_bit 7 d) = c"
    "push_bit 2 (push_bit 5 ((push_bit 1 (c AND 15) OR drop_bit 7 d) AND 1) OR (drop_bit 2 d AND 31)) OR
       drop_bit 3 (push_bit 3 (d AND 3) OR drop_bit 5 e) = d"
    "push_bit 5 ((push_bit 3 (d AND 3) OR drop_bit 5 e) AND 7) OR (e AND 31) = e"
    "push_bit 3 (drop_bit 3 a) OR drop_bit 2 (push_bit 2 (a AND 7)) = a"
    "push_bit 1 (push_bit 5 ((push_bit 2 (a AND 7) OR drop_bit 6 b) AND 3) OR (drop_bit 1 b AND 31)) OR
       drop_bit 4 (push_bit 4 (b AND 1)) = b"
    "push_bit 4 ((push_bit 4 (b AND 1) OR drop_bit 4 c) AND 15) OR drop_bit 1 (push_bit 1 (c AND 15)) = c"
    "push_bit 2 (push_bit 5 ((push_bit 1 (c AND 15) OR drop_bit 7 d) AND 1) OR (drop_bit 2 d AND 31)) OR
       drop_bit 3 (push_bit 3 (d AND 3)) = d"
    "push_bit 2 (a AND 7) AND 3 = 0" "push_bit 4 (a AND 1) AND 15 = 0"
    "push_bit 1 (a AND 15) AND 1 = 0" "push_bit 3 (a AND 3) AND 7 = 0"
  by (rule byte_bits_eqI; simp add: bit_simps; simp add: numeral_2_eq_2 numeral_3_eq_3)+

lemma decode_stops: "base32_decode mode left (CHR ''='' # p) = ([], mode, left, CHR ''='' # p)"
  by (simp add: decode32_table_def)

text \<open>One step in each mode, with the conditions resolved.\<close>

lemma encode_steps:
  "base32_encode 0 l (x # xs) = char32 (drop_bit 3 x) # base32_encode 1 (push_bit 2 (x AND 7)) xs"
  "base32_encode 1 l (x # xs) =
     char32 (l OR drop_bit 6 x) # char32 (drop_bit 1 x AND 31) # base32_encode 2 (push_bit 4 (x AND 1)) xs"
  "base32_encode 2 l (x # xs) = char32 (l OR drop_bit 4 x) # base32_encode 3 (push_bit 1 (x AND 15)) xs"
  "base32_encode 3 l (x # xs) =
     char32 (l OR drop_bit 7 x) # char32 (drop_bit 2 x AND 31) # base32_encode 4 (push_bit 3 (x AND 3)) xs"
  "base32_encode 4 l (x # xs) = char32 (l OR drop_bit 5 x) # char32 (x AND 31) # base32_encode 0 l xs"
  "base32_encode 0 l [] = []"
  "base32_encode 1 l [] = char32 l # replicate 6 (CHR ''='')"
  "base32_encode 2 l [] = char32 l # replicate 4 (CHR ''='')"
  "base32_encode 3 l [] = char32 l # replicate 3 (CHR ''='')"
  "base32_encode 4 l [] = char32 l # replicate 1 (CHR ''='')"
  by (simp_all add: nPadding_def)

lemma decode_steps:
  assumes "unat q < 32"
  shows "base32_decode 0 l (char32 q # p) = base32_decode 1 q p"
    "base32_decode 1 l (char32 q # p) =
       map_prod ((#) (push_bit 3 l OR drop_bit 2 q)) id (base32_decode 2 (q AND 3) p)"
    "base32_decode 2 l (char32 q # p) = base32_decode 3 (push_bit 5 l OR q) p"
    "base32_decode 3 l (char32 q # p) =
       map_prod ((#) (push_bit 1 l OR drop_bit 4 q)) id (base32_decode 4 (q AND 15) p)"
    "base32_decode 4 l (char32 q # p) =
       map_prod ((#) (push_bit 4 l OR drop_bit 1 q)) id (base32_decode 5 (q AND 1) p)"
    "base32_decode 5 l (char32 q # p) = base32_decode 6 (push_bit 5 l OR q) p"
    "base32_decode 6 l (char32 q # p) =
       map_prod ((#) (push_bit 2 l OR drop_bit 3 q)) id (base32_decode 7 (q AND 7) p)"
    "base32_decode 7 l (char32 q # p) = map_prod ((#) (push_bit 5 l OR q)) id (base32_decode 0 l p)"
  using decode_char32 [OF assms] by simp_all

lemma stop_steps:
  "base32_decode mode l [] = ([], mode, l, [])"
  "base32_decode mode l (replicate 6 (CHR ''='')) = ([], mode, l, replicate 6 (CHR ''=''))"
  "base32_decode mode l (replicate 4 (CHR ''='')) = ([], mode, l, replicate 4 (CHR ''=''))"
  "base32_decode mode l (replicate 3 (CHR ''='')) = ([], mode, l, replicate 3 (CHR ''=''))"
  "base32_decode mode l (replicate 1 (CHR ''='')) = ([], mode, l, replicate 1 (CHR ''=''))"
  by (simp_all add: numeral_eq_Suc decode_stops del: base32_decode.simps(2))

lemmas base32_steps = encode_steps decode_steps [OF quintets_lt(1)] decode_steps [OF quintets_lt(2)]
  decode_steps [OF quintets_lt(3)] decode_steps [OF quintets_lt(4)] decode_steps [OF quintets_lt(5)]
  decode_steps [OF quintets_lt(6)] decode_steps [OF quintets_lt(7)] decode_steps [OF quintets_lt(8)]
  decode_steps [OF quintets_lt(9)] decode_steps [OF quintets_lt(10)] decode_steps [OF quintets_lt(11)]
  decode_steps [OF quintets_lt(12)] stop_steps quintets_join

lemma map_prod_append:
  "map_prod ((#) x) id y = map_prod ((@) [x]) id y"
  "map_prod ((@) xs) id (map_prod ((@) ys) id z) = map_prod ((@) (xs @ ys)) id z"
  by (cases y; simp) (cases z; simp)

lemma base32_group:
  "\<exists>k m. base32_decode 0 l (base32_encode 0 l' (a # b # c # d # e # bs)) =
     map_prod ((@) [a, b, c, d, e]) id (base32_decode 0 k (base32_encode 0 m bs))"
  by (simp only: base32_steps map_prod_append append_Cons append_Nil) blast

lemma base32_loops:
  "case base32_decode 0 left (base32_encode 0 l bs) of (v, mode, left', p) \<Rightarrow>
     v = bs \<and>
     (mode = 0 \<or> left' = 0 \<and> mode \<in> {2, 4, 5, 7} \<and>
        p = replicate (if mode = 2 then 6 else if mode = 4 then 4 else if mode = 5 then 3 else 1) (CHR ''=''))"
proof (induction bs arbitrary: left l rule: length_induct)
  case (1 bs)
  show ?case
  proof (cases "length bs < 5")
    case True
    then have "bs = [] \<or> (\<exists>a. bs = [a]) \<or> (\<exists>a b. bs = [a, b]) \<or> (\<exists>a b c. bs = [a, b, c]) \<or>
        (\<exists>a b c d. bs = [a, b, c, d])"
      by (auto simp: numeral_eq_Suc length_Suc_conv less_Suc_eq)
    then show ?thesis
      by (elim disjE exE) (simp_all only: base32_steps map_prod_simp prod.case id_apply, simp_all)
  next
    case False
    then obtain a b c d e cs where bs: "bs = a # b # c # d # e # cs"
      by (auto simp: numeral_eq_Suc length_ge_Suc not_less)
    then obtain l1 l2 where g: "base32_decode 0 left (base32_encode 0 l bs) =
        map_prod ((@) [a, b, c, d, e]) id (base32_decode 0 l1 (base32_encode 0 l2 cs))"
      using base32_group by blast
    obtain v mode k p where d: "base32_decode 0 l1 (base32_encode 0 l2 cs) = (v, mode, k, p)"
      by (metis prod_cases4)
    have "length cs < length bs" by (simp add: bs)
    from 1 [rule_format, OF this, of l1 l2] have "v = cs" "mode = 0 \<or> k = 0 \<and> mode \<in> {2, 4, 5, 7} \<and>
        p = replicate (if mode = 2 then 6 else if mode = 4 then 4 else if mode = 5 then 3 else 1) (CHR ''='')"
      by (simp_all add: d)
    then show ?thesis unfolding g d by (simp add: bs)
  qed
qed

text \<open>Decoding what \<open>EncodeBase32\<close> writes gives the bytes back, and reports no error.\<close>

lemma DecodeBase32_EncodeBase32 [simp]: "DecodeBase32 (EncodeBase32 bs) = (bs, False)"
proof -
  obtain v mode left p where d: "base32_decode 0 0 (base32_encode 0 0 bs) = (v, mode, left, p)"
    by (metis prod_cases4)
  have "decode32_table (CHR 0x00) = None" by (simp add: decode32_table_def)
  then show ?thesis using base32_loops [of bs 0 0]
    by (auto simp: DecodeBase32_def EncodeBase32_def d padding_ok_def char_at_def list_all_iff)
qed

end
