(* ===== verification/NetAddr.thy ===== *)
theory NetAddr
  imports Serialize Keys Base32
begin

text \<open>
  Network addresses (\<open>CNetAddr\<close> and \<open>CService\<close>, src/netbase.h and src/netbase.cpp; \<open>CAddress\<close>,
  src/protocol.h). The classes derive from one another, and so do the records; an operation of
  a class takes every record that extends the one of the class. An address is its 16 bytes.
\<close>

record CNetAddr =
  ip :: "byte list"

record CService = CNetAddr +
  port :: u16

record CAddress = CService +
  nServices :: u64
  a_nTime :: u32
  nLastTry :: int

definition NET_UNROUTABLE :: nat where "NET_UNROUTABLE = 0"
definition NET_IPV4 :: nat where "NET_IPV4 = 1"
definition NET_IPV6 :: nat where "NET_IPV6 = 2"
definition NET_TOR :: nat where "NET_TOR = 3"
definition NET_I2P :: nat where "NET_I2P = 4"
definition NET_MAX :: nat where "NET_MAX = 5"

lemmas net_defs = NET_UNROUTABLE_def NET_IPV4_def NET_IPV6_def NET_TOR_def NET_I2P_def NET_MAX_def

definition pchIPv4 :: "byte list" where
  "pchIPv4 = [0, 0, 0, 0, 0, 0, 0, 0, 0, 0, 0xff, 0xff]"

definition pchOnionCat :: "byte list" where
  "pchOnionCat = [0xFD, 0x87, 0xD8, 0x7E, 0xEB, 0x43]"

definition pchGarliCat :: "byte list" where
  "pchGarliCat = [0xFD, 0x60, 0xDB, 0x4D, 0xDD, 0xB5]"

text \<open>\<open>memcmp(ip, p, sizeof(p)) == 0\<close>.\<close>

definition has_prefix :: "'a CNetAddr_scheme \<Rightarrow> byte list \<Rightarrow> bool" where
  "has_prefix a p \<longleftrightarrow> take (length p) (ip a) = p"

definition GetByte :: "'a CNetAddr_scheme \<Rightarrow> nat \<Rightarrow> byte" where
  "GetByte a n = ip a ! (15 - n)"

definition CNetAddr_Init :: CNetAddr where
  "CNetAddr_Init = \<lparr>ip = replicate 16 0\<rparr>"

section \<open>Kinds of addresses\<close>

definition IsIPv4 :: "'a CNetAddr_scheme \<Rightarrow> bool" where
  "IsIPv4 a \<longleftrightarrow> has_prefix a pchIPv4"

definition IsTor :: "'a CNetAddr_scheme \<Rightarrow> bool" where
  "IsTor a \<longleftrightarrow> has_prefix a pchOnionCat"

definition IsI2P :: "'a CNetAddr_scheme \<Rightarrow> bool" where
  "IsI2P a \<longleftrightarrow> has_prefix a pchGarliCat"

definition IsIPv6 :: "'a CNetAddr_scheme \<Rightarrow> bool" where
  "IsIPv6 a \<longleftrightarrow> \<not> IsIPv4 a \<and> \<not> IsTor a \<and> \<not> IsI2P a"

definition IsRFC1918 :: "'a CNetAddr_scheme \<Rightarrow> bool" where
  "IsRFC1918 a \<longleftrightarrow> IsIPv4 a \<and>
     (GetByte a 3 = 10 \<or> (GetByte a 3 = 192 \<and> GetByte a 2 = 168) \<or>
      (GetByte a 3 = 172 \<and> (GetByte a 2 \<ge> 16 \<and> GetByte a 2 \<le> 31)))"

definition IsRFC3927 :: "'a CNetAddr_scheme \<Rightarrow> bool" where
  "IsRFC3927 a \<longleftrightarrow> IsIPv4 a \<and> (GetByte a 3 = 169 \<and> GetByte a 2 = 254)"

definition IsRFC3849 :: "'a CNetAddr_scheme \<Rightarrow> bool" where
  "IsRFC3849 a \<longleftrightarrow>
     GetByte a 15 = 0x20 \<and> GetByte a 14 = 0x01 \<and> GetByte a 13 = 0x0D \<and> GetByte a 12 = 0xB8"

definition IsRFC3964 :: "'a CNetAddr_scheme \<Rightarrow> bool" where
  "IsRFC3964 a \<longleftrightarrow> GetByte a 15 = 0x20 \<and> GetByte a 14 = 0x02"

definition IsRFC6052 :: "'a CNetAddr_scheme \<Rightarrow> bool" where
  "IsRFC6052 a \<longleftrightarrow> has_prefix a [0, 0x64, 0xFF, 0x9B, 0, 0, 0, 0, 0, 0, 0, 0]"

definition IsRFC4380 :: "'a CNetAddr_scheme \<Rightarrow> bool" where
  "IsRFC4380 a \<longleftrightarrow> GetByte a 15 = 0x20 \<and> GetByte a 14 = 0x01 \<and> GetByte a 13 = 0 \<and> GetByte a 12 = 0"

definition IsRFC4862 :: "'a CNetAddr_scheme \<Rightarrow> bool" where
  "IsRFC4862 a \<longleftrightarrow> has_prefix a [0xFE, 0x80, 0, 0, 0, 0, 0, 0]"

definition IsRFC4193 :: "'a CNetAddr_scheme \<Rightarrow> bool" where
  "IsRFC4193 a \<longleftrightarrow> GetByte a 15 AND 0xFE = 0xFC"

definition IsRFC6145 :: "'a CNetAddr_scheme \<Rightarrow> bool" where
  "IsRFC6145 a \<longleftrightarrow> has_prefix a [0, 0, 0, 0, 0, 0, 0, 0, 0xFF, 0xFF, 0, 0]"

definition IsRFC4843 :: "'a CNetAddr_scheme \<Rightarrow> bool" where
  "IsRFC4843 a \<longleftrightarrow>
     GetByte a 15 = 0x20 \<and> GetByte a 14 = 0x01 \<and> GetByte a 13 = 0x00 \<and> GetByte a 12 AND 0xF0 = 0x10"

definition IsLocal :: "'a CNetAddr_scheme \<Rightarrow> bool" where
  "IsLocal a \<longleftrightarrow>
     IsIPv4 a \<and> (GetByte a 3 = 127 \<or> GetByte a 3 = 0) \<or>
     has_prefix a [0, 0, 0, 0, 0, 0, 0, 0, 0, 0, 0, 0, 0, 0, 0, 1]"

definition IsMulticast :: "'a CNetAddr_scheme \<Rightarrow> bool" where
  "IsMulticast a \<longleftrightarrow> IsIPv4 a \<and> GetByte a 3 AND 0xF0 = 0xE0 \<or> GetByte a 15 = 0xFF"

text \<open>\<open>INADDR_NONE\<close> is all ones.\<close>

definition IsValid :: "'a CNetAddr_scheme \<Rightarrow> bool" where
  "IsValid a \<longleftrightarrow>
     (if has_prefix a (drop 3 pchIPv4) then False
      else if has_prefix a (replicate 16 0) then False
      else if IsRFC3849 a then False
      else if IsIPv4 a then
        take 4 (drop 12 (ip a)) \<noteq> replicate 4 0xff \<and> take 4 (drop 12 (ip a)) \<noteq> replicate 4 0
      else True)"

definition IsRoutable :: "'a CNetAddr_scheme \<Rightarrow> bool" where
  "IsRoutable a \<longleftrightarrow> IsValid a \<and>
     \<not> (IsRFC1918 a \<or> IsRFC3927 a \<or> IsRFC4862 a \<or> (IsRFC4193 a \<and> \<not> IsTor a \<and> \<not> IsI2P a) \<or>
        IsRFC4843 a \<or> IsLocal a)"

definition GetNetwork :: "'a CNetAddr_scheme \<Rightarrow> nat" where
  "GetNetwork a =
     (if \<not> IsRoutable a then NET_UNROUTABLE
      else if IsIPv4 a then NET_IPV4
      else if IsTor a then NET_TOR
      else if IsI2P a then NET_I2P
      else NET_IPV6)"

section \<open>Groups\<close>

fun group_loop :: "'a CNetAddr_scheme \<Rightarrow> nat \<Rightarrow> nat \<Rightarrow> byte list" where
  "group_loop a nStartByte nBits =
     (if nBits \<ge> 8 then GetByte a (15 - nStartByte) # group_loop a (nStartByte + 1) (nBits - 8)
      else if nBits > 0 then [GetByte a (15 - nStartByte) OR of_nat (2 ^ nBits - 1)]
      else [])"

declare group_loop.simps [simp del]

definition group_of :: "'a CNetAddr_scheme \<Rightarrow> nat \<Rightarrow> nat \<Rightarrow> nat \<Rightarrow> byte list" where
  "group_of a nClass nStartByte nBits = of_nat nClass # group_loop a nStartByte nBits"

definition GetGroup :: "'a CNetAddr_scheme \<Rightarrow> byte list" where
  "GetGroup a =
     (let nClass = (if IsLocal a then 255 else NET_IPV6);
          nBits = (if IsLocal a then 0 else 16) in
      if \<not> IsRoutable a then group_of a NET_UNROUTABLE 0 0
      else if IsIPv4 a \<or> IsRFC6145 a \<or> IsRFC6052 a then group_of a NET_IPV4 12 nBits
      else if IsRFC3964 a then group_of a NET_IPV4 2 nBits
      else if IsRFC4380 a then
        [of_nat NET_IPV4, GetByte a 3 XOR 0xFF, GetByte a 2 XOR 0xFF]
      else if IsTor a then group_of a NET_TOR 6 4
      else if IsI2P a then group_of a NET_I2P 6 4
      else if GetByte a 15 = 0x20 \<and> GetByte a 14 = 0x11 \<and> GetByte a 13 = 0x04 \<and> GetByte a 12 = 0x70
      then group_of a nClass 0 36
      else group_of a nClass 0 32)"

definition CNetAddr_GetHash :: "external \<Rightarrow> 'a CNetAddr_scheme \<Rightarrow> u64" where
  "CNetAddr_GetHash E a = of_nat (le_val (take 8 (bytes_of_uint256 (Hash E (ip a)))))"

section \<open>Reachability\<close>

definition NET_UNKNOWN :: nat where "NET_UNKNOWN = NET_MAX + 0"
definition NET_TEREDO :: nat where "NET_TEREDO = NET_MAX + 1"

definition GetExtNetwork :: "'a CNetAddr_scheme option \<Rightarrow> nat" where
  "GetExtNetwork addr =
     (case addr of None \<Rightarrow> NET_UNKNOWN
      | Some a \<Rightarrow> if IsRFC4380 a then NET_TEREDO else GetNetwork a)"

datatype reachability = REACH_UNREACHABLE | REACH_DEFAULT | REACH_TEREDO | REACH_IPV6_WEAK
  | REACH_IPV4 | REACH_IPV6_STRONG | REACH_PRIVATE

definition GetReachabilityFrom ::
  "'a CNetAddr_scheme \<Rightarrow> 'b CNetAddr_scheme option \<Rightarrow> reachability" where
  "GetReachabilityFrom a paddrPartner =
     (if \<not> IsRoutable a then REACH_UNREACHABLE
      else
        let ourNet = GetExtNetwork (Some a);
            theirNet = GetExtNetwork paddrPartner;
            fTunnel = (IsRFC3964 a \<or> IsRFC6052 a \<or> IsRFC6145 a) in
        if theirNet = NET_IPV4 then
          (if ourNet = NET_IPV4 then REACH_IPV4 else REACH_DEFAULT)
        else if theirNet = NET_IPV6 then
          (if ourNet = NET_TEREDO then REACH_TEREDO
           else if ourNet = NET_IPV4 then REACH_IPV4
           else if ourNet = NET_IPV6 then (if fTunnel then REACH_IPV6_WEAK else REACH_IPV6_STRONG)
           else REACH_DEFAULT)
        else if theirNet = NET_TOR then
          (if ourNet = NET_IPV4 then REACH_IPV4
           else if ourNet = NET_TOR then REACH_PRIVATE else REACH_DEFAULT)
        else if theirNet = NET_I2P then
          (if ourNet = NET_I2P then REACH_PRIVATE else REACH_DEFAULT)
        else if theirNet = NET_TEREDO then
          (if ourNet = NET_TEREDO then REACH_TEREDO
           else if ourNet = NET_IPV6 then REACH_IPV6_WEAK
           else if ourNet = NET_IPV4 then REACH_IPV4 else REACH_DEFAULT)
        else
          (if ourNet = NET_TEREDO then REACH_TEREDO
           else if ourNet = NET_IPV6 then REACH_IPV6_WEAK
           else if ourNet = NET_IPV4 then REACH_IPV4
           else if ourNet = NET_I2P then REACH_PRIVATE
           else if ourNet = NET_TOR then REACH_PRIVATE else REACH_DEFAULT))"

section \<open>Names of hidden services\<close>

definition ends_with :: "string \<Rightarrow> string \<Rightarrow> bool" where
  "ends_with s suf \<longleftrightarrow> length s > length suf \<and> drop (length s - length suf) s = suf"

text \<open>The result and the address, which is left as it was where the result is \<open>false\<close>.\<close>

definition SetSpecial :: "'a CNetAddr_scheme \<Rightarrow> string \<Rightarrow> bool \<times> 'a CNetAddr_scheme" where
  "SetSpecial a strName =
     (if ends_with strName ''.onion'' then
        let vchAddr = fst (DecodeBase32 (take (length strName - 6) strName)) in
        if length vchAddr \<noteq> 16 - length pchOnionCat then (False, a)
        else (True, a\<lparr>ip := pchOnionCat @ vchAddr\<rparr>)
      else if ends_with strName ''.oc.b32.i2p'' then
        let vchAddr = fst (DecodeBase32 (take (length strName - 11) strName)) in
        if length vchAddr \<noteq> 16 - length pchGarliCat then (False, a)
        else (True, a\<lparr>ip := pchOnionCat @ vchAddr\<rparr>)
      else (False, a))"

text \<open>\<open>numeric\<close> stands for \<open>getnameinfo\<close> and the formatting of numbers.\<close>

definition ToStringIP :: "(byte list \<Rightarrow> string) \<Rightarrow> 'a CNetAddr_scheme \<Rightarrow> string" where
  "ToStringIP numeric a =
     (if IsTor a then EncodeBase32 (take 10 (drop 6 (ip a))) @ ''.onion''
      else if IsI2P a then EncodeBase32 (take 10 (drop 6 (ip a))) @ ''.oc.b32.i2p''
      else numeric (ip a))"

section \<open>Services\<close>

definition CService_eq :: "'a CService_scheme \<Rightarrow> 'b CService_scheme \<Rightarrow> bool" where
  "CService_eq a b \<longleftrightarrow> ip a = ip b \<and> port a = port b"

definition service_GetKey :: "'a CService_scheme \<Rightarrow> byte list" where
  "service_GetKey a = take 16 (ip a) @ [ucast (port a div 0x100), ucast (port a AND 0x0FF)]"

definition CAddress_Init :: "CService \<Rightarrow> CAddress" where
  "CAddress_Init s = \<lparr>ip = ip s, port = port s, nServices = 1, a_nTime = 100000000, nLastTry = 0\<rparr>"

text \<open>\<open>CAddress(ipIn, nServicesIn)\<close>.\<close>

definition CAddress_new :: "CService \<Rightarrow> u64 \<Rightarrow> CAddress" where
  "CAddress_new s services = (CAddress_Init s)\<lparr>nServices := services\<rparr>"

end
