(* ===== verification/AddrMan.thy ===== *)
theory AddrMan
  imports NetAddr OrdMap
begin

text \<open>
  The address manager (\<open>CAddrInfo\<close> and \<open>CAddrMan\<close>, src/addrman.h and src/addrman.cpp). \<open>None\<close> is a
  failed assertion. A pointer or reference to an entry is the number of the entry, and an access through
  it finds the entry in \<open>mapInfo\<close>. The operations whose name ends in an underscore have the prefix \<open>am\<close> here.
  The tables are functions from a bucket and a position; \<open>-1\<close> is an empty
  position. What the code reads from the clock and from \<open>RAND_bytes\<close> are arguments: \<open>nNow\<close> (read once
  in an operation) and the random numbers \<open>GetRand\<close> accepts.
\<close>

record CAddrInfo = CAddress +
  source :: "byte list"
  nLastSuccess :: int
  nAttempts :: int
  nRefCount :: int
  fInTried :: bool
  nRandomPos :: int

type_synonym table = "nat \<times> nat \<Rightarrow> int"

record CAddrMan =
  nKey :: uint256
  nIdCount :: int
  mapInfo :: "(int, CAddrInfo) omap"
  mapAddr :: "byte list \<Rightarrow> int option"
  vRandom :: "int list"
  nTried :: int
  vvTried :: table
  nNew :: int
  vvNew :: table

definition ADDRMAN_TRIED_BUCKET_COUNT :: nat where "ADDRMAN_TRIED_BUCKET_COUNT = 256"
definition ADDRMAN_NEW_BUCKET_COUNT :: nat where "ADDRMAN_NEW_BUCKET_COUNT = 1024"
definition ADDRMAN_BUCKET_SIZE :: nat where "ADDRMAN_BUCKET_SIZE = 64"
definition ADDRMAN_TRIED_BUCKETS_PER_GROUP :: nat where "ADDRMAN_TRIED_BUCKETS_PER_GROUP = 8"
definition ADDRMAN_NEW_BUCKETS_PER_SOURCE_GROUP :: nat where "ADDRMAN_NEW_BUCKETS_PER_SOURCE_GROUP = 64"
definition ADDRMAN_NEW_BUCKETS_PER_ADDRESS :: int where "ADDRMAN_NEW_BUCKETS_PER_ADDRESS = 8"
definition ADDRMAN_HORIZON_DAYS :: int where "ADDRMAN_HORIZON_DAYS = 30"
definition ADDRMAN_RETRIES :: int where "ADDRMAN_RETRIES = 3"
definition ADDRMAN_MAX_FAILURES :: int where "ADDRMAN_MAX_FAILURES = 10"
definition ADDRMAN_MIN_FAIL_DAYS :: int where "ADDRMAN_MIN_FAIL_DAYS = 7"
definition ADDRMAN_GETADDR_MAX_PCT :: nat where "ADDRMAN_GETADDR_MAX_PCT = 23"
definition ADDRMAN_GETADDR_MAX :: nat where "ADDRMAN_GETADDR_MAX = 2500"

section \<open>Random numbers\<close>

text \<open>\<open>nRand\<close> is the number with which the loop over \<open>RAND_bytes\<close> ends.\<close>

definition GetRand :: "nat \<Rightarrow> nat \<Rightarrow> nat" where
  "GetRand nRand nMax = (if nMax = 0 then 0 else nRand mod nMax)"

section \<open>Entries\<close>

text \<open>\<open>CAddrInfo(addrIn, addrSource)\<close>, and \<open>CAddrInfo()\<close>.\<close>

definition CAddrInfo_new :: "'a CAddress_scheme \<Rightarrow> byte list \<Rightarrow> CAddrInfo" where
  "CAddrInfo_new addr src =
     \<lparr>ip = ip addr, port = port addr, nServices = nServices addr, a_nTime = a_nTime addr, nLastTry = 0,
      source = src, nLastSuccess = 0, nAttempts = 0, nRefCount = 0, fInTried = False, nRandomPos = -1\<rparr>"

definition CAddrInfo_default :: CAddrInfo where
  "CAddrInfo_default = CAddrInfo_new (CAddress_Init \<lparr>ip = replicate 16 0, port = 0\<rparr>) (replicate 16 0)"

definition GetCheapHash :: "uint256 \<Rightarrow> u64" where
  "GetCheapHash h = ucast h"

definition GetTriedBucket :: "external \<Rightarrow> uint256 \<Rightarrow> 'a CService_scheme \<Rightarrow> nat" where
  "GetTriedBucket E key a =
     (let hash1 = GetCheapHash (Hash E (bytes_of_uint256 key @ ser_bytes (service_GetKey a)));
          hash2 = GetCheapHash (Hash E (bytes_of_uint256 key @ ser_bytes (GetGroup a) @
            bytes_of_u64 (hash1 mod of_nat ADDRMAN_TRIED_BUCKETS_PER_GROUP))) in
      unat hash2 mod ADDRMAN_TRIED_BUCKET_COUNT)"

definition GetNewBucket :: "external \<Rightarrow> uint256 \<Rightarrow> 'a CNetAddr_scheme \<Rightarrow> byte list \<Rightarrow> nat" where
  "GetNewBucket E key a src =
     (let vchSourceGroupKey = GetGroup \<lparr>ip = src\<rparr>;
          hash1 = GetCheapHash (Hash E (bytes_of_uint256 key @ ser_bytes (GetGroup a) @
            ser_bytes vchSourceGroupKey));
          hash2 = GetCheapHash (Hash E (bytes_of_uint256 key @ ser_bytes vchSourceGroupKey @
            bytes_of_u64 (hash1 mod of_nat ADDRMAN_NEW_BUCKETS_PER_SOURCE_GROUP))) in
      unat hash2 mod ADDRMAN_NEW_BUCKET_COUNT)"

text \<open>The characters \<open>N\<close> and \<open>K\<close> are the bytes 78 and 75.\<close>

definition GetBucketPosition :: "external \<Rightarrow> uint256 \<Rightarrow> bool \<Rightarrow> nat \<Rightarrow> 'a CService_scheme \<Rightarrow> nat" where
  "GetBucketPosition E key fNew nBucket a =
     (let hash1 = GetCheapHash (Hash E (bytes_of_uint256 key @ [if fNew then 78 else 75] @
            bytes_of_int32 (int nBucket) @ ser_bytes (service_GetKey a))) in
      unat hash1 mod ADDRMAN_BUCKET_SIZE)"

definition IsTerrible :: "int \<Rightarrow> CAddrInfo \<Rightarrow> bool" where
  "IsTerrible nNow i =
     (let nTime = int (unat (a_nTime i)) in
      if nLastTry i \<noteq> 0 \<and> nLastTry i \<ge> nNow - 60 then False
      else if nTime > nNow + 10 * 60 then True
      else if nTime = 0 \<or> nNow - nTime > ADDRMAN_HORIZON_DAYS * 24 * 60 * 60 then True
      else if nLastSuccess i = 0 \<and> nAttempts i \<ge> ADDRMAN_RETRIES then True
      else if nNow - nLastSuccess i > ADDRMAN_MIN_FAIL_DAYS * 24 * 60 * 60 \<and>
         nAttempts i \<ge> ADDRMAN_MAX_FAILURES then True
      else False)"

section \<open>Access to the entries\<close>

text \<open>\<open>mapInfo[nId]\<close>, which creates an entry where there is none.\<close>

definition info_at :: "CAddrMan \<Rightarrow> int \<Rightarrow> CAddrInfo" where
  "info_at m n = (case map_of (mapInfo m) n of None \<Rightarrow> CAddrInfo_default | Some i \<Rightarrow> i)"

definition upd_info :: "int \<Rightarrow> (CAddrInfo \<Rightarrow> CAddrInfo) \<Rightarrow> CAddrMan \<Rightarrow> CAddrMan" where
  "upd_info n f m = m\<lparr>mapInfo := oput n (f (info_at m n)) (mapInfo m)\<rparr>"

definition am_Find :: "CAddrMan \<Rightarrow> byte list \<Rightarrow> int option" where
  "am_Find m addr =
     (case mapAddr m addr of
        None \<Rightarrow> None
      | Some n \<Rightarrow> if map_of (mapInfo m) n \<noteq> None then Some n else None)"

text \<open>The number of the new entry is the old value of \<open>nIdCount\<close>.\<close>

definition Create :: "'a CAddress_scheme \<Rightarrow> byte list \<Rightarrow> CAddrMan \<Rightarrow> int \<times> CAddrMan" where
  "Create addr addrSource m =
     (let nId = nIdCount m;
          m = m\<lparr>nIdCount := nIdCount m + 1\<rparr>;
          m = m\<lparr>mapInfo := oput nId (CAddrInfo_new addr addrSource) (mapInfo m)\<rparr>;
          m = m\<lparr>mapAddr := (mapAddr m)(ip addr \<mapsto> nId)\<rparr>;
          m = upd_info nId (\<lambda>i. i\<lparr>nRandomPos := int (length (vRandom m))\<rparr>) m;
          m = m\<lparr>vRandom := vRandom m @ [nId]\<rparr> in
      (nId, m))"

section \<open>Removing entries\<close>

definition SwapRandom :: "nat \<Rightarrow> nat \<Rightarrow> CAddrMan \<Rightarrow> CAddrMan option" where
  "SwapRandom nRndPos1 nRndPos2 m =
     (if nRndPos1 = nRndPos2 then Some m
      else if \<not> (nRndPos1 < length (vRandom m) \<and> nRndPos2 < length (vRandom m)) then None
      else
        let nId1 = vRandom m ! nRndPos1; nId2 = vRandom m ! nRndPos2 in
        if map_of (mapInfo m) nId1 = None then None
        else if map_of (mapInfo m) nId2 = None then None
        else
          let m = upd_info nId1 (\<lambda>i. i\<lparr>nRandomPos := int nRndPos2\<rparr>) m;
              m = upd_info nId2 (\<lambda>i. i\<lparr>nRandomPos := int nRndPos1\<rparr>) m in
          Some (m\<lparr>vRandom := (vRandom m)[nRndPos1 := nId2, nRndPos2 := nId1]\<rparr>))"

text \<open>The positions are converted to \<open>unsigned int\<close>.\<close>

definition Delete :: "int \<Rightarrow> CAddrMan \<Rightarrow> CAddrMan option" where
  "Delete nId m =
     (case map_of (mapInfo m) nId of
        None \<Rightarrow> None
      | Some info \<Rightarrow>
          if fInTried info then None
          else if nRefCount info \<noteq> 0 then None
          else
            (case SwapRandom (nat (nRandomPos info mod 2 ^ 32)) (nat ((int (length (vRandom m)) - 1) mod 2 ^ 32)) m of
               None \<Rightarrow> None
             | Some m \<Rightarrow>
                 if vRandom m = [] then None
                 else Some (m\<lparr>vRandom := butlast (vRandom m), mapAddr := (mapAddr m)(ip info := None),
                   mapInfo := oerase nId (mapInfo m), nNew := nNew m - 1\<rparr>)))"

definition ClearNew :: "nat \<times> nat \<Rightarrow> CAddrMan \<Rightarrow> CAddrMan option" where
  "ClearNew x m =
     (if vvNew m x \<noteq> -1 then
        let nIdDelete = vvNew m x in
        if \<not> nRefCount (info_at m nIdDelete) > 0 then None
        else
          let m = upd_info nIdDelete (\<lambda>i. i\<lparr>nRefCount := nRefCount i - 1\<rparr>) m;
              m = m\<lparr>vvNew := (vvNew m)(x := -1)\<rparr> in
          if nRefCount (info_at m nIdDelete) = 0 then Delete nIdDelete m else Some m
      else Some m)"

section \<open>From the new table to the tried table\<close>

fun unlink_buckets :: "external \<Rightarrow> int \<Rightarrow> nat list \<Rightarrow> CAddrMan \<Rightarrow> CAddrMan" where
  "unlink_buckets E nId [] m = m"
| "unlink_buckets E nId (bucket # bs) m =
     (let pos = GetBucketPosition E (nKey m) True bucket (info_at m nId) in
      unlink_buckets E nId bs
        (if vvNew m (bucket, pos) = nId then
           upd_info nId (\<lambda>i. i\<lparr>nRefCount := nRefCount i - 1\<rparr>) (m\<lparr>vvNew := (vvNew m)((bucket, pos) := -1)\<rparr>)
         else m))"

text \<open>Making space in the tried table: the entry found there goes back to the new table.\<close>

definition evict :: "external \<Rightarrow> nat \<times> nat \<Rightarrow> CAddrMan \<Rightarrow> CAddrMan option" where
  "evict E k m =
     (if vvTried m k \<noteq> -1 then
        let nIdEvict = vvTried m k in
        if map_of (mapInfo m) nIdEvict = None then None
        else
          let m = upd_info nIdEvict (\<lambda>i. i\<lparr>fInTried := False\<rparr>) m;
              m = m\<lparr>vvTried := (vvTried m)(k := -1), nTried := nTried m - 1\<rparr>;
              infoOld = info_at m nIdEvict;
              nUBucket = GetNewBucket E (nKey m) infoOld (source infoOld);
              nUBucketPos = GetBucketPosition E (nKey m) True nUBucket infoOld in
          (case ClearNew (nUBucket, nUBucketPos) m of
             None \<Rightarrow> None
           | Some m \<Rightarrow>
               if vvNew m (nUBucket, nUBucketPos) \<noteq> -1 then None
               else
                 let m = upd_info nIdEvict (\<lambda>i. i\<lparr>nRefCount := 1\<rparr>) m in
                 Some (m\<lparr>vvNew := (vvNew m)((nUBucket, nUBucketPos) := nIdEvict), nNew := nNew m + 1\<rparr>))
      else Some m)"

definition MakeTried :: "external \<Rightarrow> int \<Rightarrow> CAddrMan \<Rightarrow> CAddrMan option" where
  "MakeTried E nId m =
     (let m = unlink_buckets E nId [0..<ADDRMAN_NEW_BUCKET_COUNT] m;
          m = m\<lparr>nNew := nNew m - 1\<rparr> in
      if nRefCount (info_at m nId) \<noteq> 0 then None
      else
        let info = info_at m nId;
            nKBucket = GetTriedBucket E (nKey m) info;
            nKBucketPos = GetBucketPosition E (nKey m) False nKBucket info in
        (case evict E (nKBucket, nKBucketPos) m of
           None \<Rightarrow> None
         | Some m \<Rightarrow>
             if vvTried m (nKBucket, nKBucketPos) \<noteq> -1 then None
             else
               let m = m\<lparr>vvTried := (vvTried m)((nKBucket, nKBucketPos) := nId), nTried := nTried m + 1\<rparr> in
               Some (upd_info nId (\<lambda>i. i\<lparr>fInTried := True\<rparr>) m)))"

definition am_Good :: "external \<Rightarrow> nat \<Rightarrow> 'a CService_scheme \<Rightarrow> int \<Rightarrow> CAddrMan \<Rightarrow> CAddrMan option" where
  "am_Good E nRand addr nTime m =
     (case am_Find m (ip addr) of
        None \<Rightarrow> Some m
      | Some nId \<Rightarrow>
          if \<not> CService_eq (info_at m nId) addr then Some m
          else
            let m = upd_info nId (\<lambda>i. i\<lparr>nLastSuccess := nTime, nLastTry := nTime, a_nTime := of_int nTime,
                  nAttempts := 0\<rparr>) m;
                info = info_at m nId in
            if fInTried info then Some m
            else
              let nRnd = GetRand nRand ADDRMAN_NEW_BUCKET_COUNT in
              (case find (\<lambda>nB. vvNew m (nB, GetBucketPosition E (nKey m) True nB info) = nId)
                  (map (\<lambda>n. (n + nRnd) mod ADDRMAN_NEW_BUCKET_COUNT) [0..<ADDRMAN_NEW_BUCKET_COUNT]) of
                 None \<Rightarrow> Some m
               | Some nUBucket \<Rightarrow> MakeTried E nId m))"

section \<open>Adding an address\<close>

text \<open>Entering \<open>nId\<close> into the new table, at the place that its address and \<open>source\<close> determine.\<close>

definition place_new :: "external \<Rightarrow> int \<Rightarrow> byte list \<Rightarrow> int \<Rightarrow> CAddrMan \<Rightarrow> CAddrMan option" where
  "place_new E nNow src nId m =
     (let nUBucket = GetNewBucket E (nKey m) (info_at m nId) src;
          nUBucketPos = GetBucketPosition E (nKey m) True nUBucket (info_at m nId);
          x = (nUBucket, nUBucketPos) in
      if vvNew m x \<noteq> nId then
        let fInsert = (vvNew m x = -1 \<or>
              (let infoExisting = info_at m (vvNew m x) in
               IsTerrible nNow infoExisting \<or> (nRefCount infoExisting > 1 \<and> nRefCount (info_at m nId) = 0))) in
        if fInsert then
          (case ClearNew x m of
             None \<Rightarrow> None
           | Some m \<Rightarrow>
               let m = upd_info nId (\<lambda>i. i\<lparr>nRefCount := nRefCount i + 1\<rparr>) m in
               Some (m\<lparr>vvNew := (vvNew m)(x := nId)\<rparr>))
        else if nRefCount (info_at m nId) = 0 then Delete nId m
        else Some m
      else Some m)"

text \<open>What a repeated announcement changes in an entry.\<close>

definition refresh :: "int \<Rightarrow> 'a CAddress_scheme \<Rightarrow> int \<Rightarrow> CAddrInfo \<Rightarrow> CAddrInfo" where
  "refresh nNow addr nTimePenalty i =
     (let nTime = int (unat (a_nTime addr));
          fCurrentlyOnline = (nNow - nTime < 24 * 60 * 60);
          nUpdateInterval = (if fCurrentlyOnline then 60 * 60 else 24 * 60 * 60);
          i = (if nTime \<noteq> 0 \<and> (a_nTime i = 0 \<or> int (unat (a_nTime i)) < nTime - nUpdateInterval - nTimePenalty)
               then i\<lparr>a_nTime := of_int (max 0 (nTime - nTimePenalty))\<rparr> else i) in
      i\<lparr>nServices := nServices i OR nServices addr\<rparr>)"

definition am_Add ::
  "external \<Rightarrow> int \<Rightarrow> nat \<Rightarrow> 'a CAddress_scheme \<Rightarrow> byte list \<Rightarrow> int \<Rightarrow> CAddrMan \<Rightarrow>
     (bool \<times> CAddrMan) option" where
  "am_Add E nNow nRand addr src nTimePenalty m =
     (if \<not> IsRoutable addr then Some (False, m)
      else
        (case am_Find m (ip addr) of
           Some nId \<Rightarrow>
             let m = upd_info nId (refresh nNow addr nTimePenalty) m;
                 info = info_at m nId in
             if a_nTime addr = 0 \<or> (a_nTime info \<noteq> 0 \<and> a_nTime addr \<le> a_nTime info) then Some (False, m)
             else if fInTried info then Some (False, m)
             else if nRefCount info = ADDRMAN_NEW_BUCKETS_PER_ADDRESS then Some (False, m)
             else
               let nFactor = 2 ^ nat (nRefCount info) in
               if nFactor > 1 \<and> GetRand nRand nFactor \<noteq> 0 then Some (False, m)
               else map_option (Pair False) (place_new E nNow src nId m)
         | None \<Rightarrow>
             let (nId, m) = Create addr src m;
                 m = upd_info nId (\<lambda>i. i\<lparr>a_nTime := of_int (max 0 (int (unat (a_nTime i)) - nTimePenalty))\<rparr>) m;
                 m = m\<lparr>nNew := nNew m + 1\<rparr> in
             map_option (Pair True) (place_new E nNow src nId m)))"

section \<open>Connections\<close>

definition am_Attempt :: "'a CService_scheme \<Rightarrow> int \<Rightarrow> CAddrMan \<Rightarrow> CAddrMan" where
  "am_Attempt addr nTime m =
     (case am_Find m (ip addr) of
        None \<Rightarrow> m
      | Some nId \<Rightarrow>
          if \<not> CService_eq (info_at m nId) addr then m
          else upd_info nId (\<lambda>i. i\<lparr>nLastTry := nTime, nAttempts := nAttempts i + 1\<rparr>) m)"

definition am_Connected :: "'a CService_scheme \<Rightarrow> int \<Rightarrow> CAddrMan \<Rightarrow> CAddrMan" where
  "am_Connected addr nTime m =
     (case am_Find m (ip addr) of
        None \<Rightarrow> m
      | Some nId \<Rightarrow>
          if \<not> CService_eq (info_at m nId) addr then m
          else
            let nUpdateInterval = 20 * 60 in
            if nTime - int (unat (a_nTime (info_at m nId))) > nUpdateInterval
            then upd_info nId (\<lambda>i. i\<lparr>a_nTime := of_int nTime\<rparr>) m
            else m)"

section \<open>Choosing addresses\<close>

text \<open>
  The results are copied to a \<open>CAddress\<close>, which forgets the statistics; here the entry itself is returned.
  The \<open>n\<close>-th round of the loop uses the random number \<open>rnd n\<close>; \<open>ns\<close> are the rounds left.
\<close>

fun GetAddr_loop ::
  "int \<Rightarrow> (nat \<Rightarrow> nat) \<Rightarrow> nat \<Rightarrow> nat list \<Rightarrow> CAddrInfo list \<Rightarrow> CAddrMan \<Rightarrow> (CAddrInfo list \<times> CAddrMan) option" where
  "GetAddr_loop nNow rnd nNodes [] vAddr m = Some (vAddr, m)"
| "GetAddr_loop nNow rnd nNodes (n # ns) vAddr m =
     (if length vAddr \<ge> nNodes then Some (vAddr, m)
      else
        let nRndPos = GetRand (rnd n) (length (vRandom m) - n) + n in
        (case SwapRandom n nRndPos m of
           None \<Rightarrow> None
         | Some m \<Rightarrow>
             (case map_of (mapInfo m) (vRandom m ! n) of
                None \<Rightarrow> None
              | Some ai \<Rightarrow>
                  GetAddr_loop nNow rnd nNodes ns (if \<not> IsTerrible nNow ai then vAddr @ [ai] else vAddr) m)))"

definition am_GetAddr :: "int \<Rightarrow> (nat \<Rightarrow> nat) \<Rightarrow> CAddrMan \<Rightarrow> (CAddrInfo list \<times> CAddrMan) option" where
  "am_GetAddr nNow rnd m =
     (let nNodes = ADDRMAN_GETADDR_MAX_PCT * length (vRandom m) div 100;
          nNodes = (if nNodes > ADDRMAN_GETADDR_MAX then ADDRMAN_GETADDR_MAX else nNodes) in
      GetAddr_loop nNow rnd nNodes [0..<length (vRandom m)] [] m)"

text \<open>
  \<open>Select_\<close> on a list of random draws; \<open>None\<close> when the draws are used up before it returns. \<open>lucky\<close> is the test
  against the chance of an entry, which is computed in floating point: the number of rounds before, the
  entry and the draw. A search goes on from a position by steps of \<open>insecure_rand\<close>.
\<close>

fun probe :: "table \<Rightarrow> nat \<Rightarrow> nat \<Rightarrow> nat \<Rightarrow> nat list \<Rightarrow> (int \<times> nat list) option" where
  "probe t buckets nB nP rs =
     (if t (nB, nP) \<noteq> -1 then Some (t (nB, nP), rs)
      else
        (case rs of
           r1 # r2 # rs \<Rightarrow> probe t buckets ((nB + r1) mod buckets) ((nP + r2) mod ADDRMAN_BUCKET_SIZE) rs
         | _ \<Rightarrow> None))"

declare probe.simps [simp del]

lemma probe_shorter: "probe t k nB nP rs = Some (n, rs') \<Longrightarrow> length rs' \<le> length rs"
proof (induction t k nB nP rs rule: probe.induct)
  case (1 t buckets nB nP rs)
  show ?case
  proof (cases "t (nB, nP) \<noteq> -1")
    case True
    then show ?thesis using 1(2) probe.simps [of t buckets nB nP rs] by simp
  next
    case False
    then obtain r1 r2 qs where rs: "rs = r1 # r2 # qs"
      and "probe t buckets ((nB + r1) mod buckets) ((nP + r2) mod ADDRMAN_BUCKET_SIZE) qs = Some (n, rs')"
      using 1(2) probe.simps [of t buckets nB nP rs] by (auto split: list.splits)
    then have "length rs' \<le> length qs" using 1(1) [OF _ rs refl] False by blast
    then show ?thesis using rs by simp
  qed
qed

function Select_loop ::
  "(nat \<Rightarrow> CAddrInfo \<Rightarrow> nat \<Rightarrow> bool) \<Rightarrow> CAddrMan \<Rightarrow> table \<Rightarrow> nat \<Rightarrow> nat \<Rightarrow> nat list \<Rightarrow> CAddrInfo option" where
  "Select_loop lucky m t buckets k rs =
     (case rs of
        r1 # r2 # rs \<Rightarrow>
          (case probe t buckets (GetRand r1 buckets) (GetRand r2 ADDRMAN_BUCKET_SIZE) rs of
             None \<Rightarrow> None
           | Some (nId, rs) \<Rightarrow>
               (case map_of (mapInfo m) nId of
                  None \<Rightarrow> None
                | Some info \<Rightarrow>
                    (case rs of
                       [] \<Rightarrow> None
                     | r # rs \<Rightarrow>
                         if lucky k info (GetRand r (2 ^ 30)) then Some info
                         else Select_loop lucky m t buckets (k + 1) rs)))
      | _ \<Rightarrow> None)"
  by pat_completeness auto
termination
  by (relation "measure (\<lambda>(lucky, m, t, b, k, rs). length rs)") (auto dest: probe_shorter)

declare Select_loop.simps [simp del]

definition am_Select ::
  "(nat \<Rightarrow> CAddrInfo \<Rightarrow> nat \<Rightarrow> bool) \<Rightarrow> CAddrMan \<Rightarrow> nat list \<Rightarrow> CAddrInfo option" where
  "am_Select lucky m rs =
     (if length (vRandom m) = 0 then Some CAddrInfo_default
      else
        let tried = Select_loop lucky m (vvTried m) ADDRMAN_TRIED_BUCKET_COUNT 0;
            fresh = Select_loop lucky m (vvNew m) ADDRMAN_NEW_BUCKET_COUNT 0 in
        if nTried m > 0 then
          if nNew m = 0 then tried rs
          else (case rs of [] \<Rightarrow> None | r # rs \<Rightarrow> if GetRand r 2 = 0 then tried rs else fresh rs)
        else fresh rs)"

section \<open>The consistency check\<close>

text \<open>
  \<open>Check_\<close>: zero, or the code of the first inconsistency (\<open>Inl\<close>). The loop over the entries collects the
  numbers of the tried ones and the reference counts of the others; the loops over the tables take
  them away again.
\<close>

fun check_entries ::
  "CAddrMan \<Rightarrow> (int \<times> CAddrInfo) list \<Rightarrow> int list \<Rightarrow> (int, int) omap \<Rightarrow> int + (int list \<times> (int, int) omap)" where
  "check_entries m [] setTried mapNew = Inr (setTried, mapNew)"
| "check_entries m ((n, info) # es) setTried mapNew =
     (let rest = (\<lambda>setTried mapNew.
        if (case mapAddr m (ip info) of None \<Rightarrow> 0 | Some k \<Rightarrow> k) \<noteq> n then Inl (-5)
        else if nRandomPos info < 0 \<or> nRandomPos info \<ge> int (length (vRandom m)) \<or>
          vRandom m ! nat (nRandomPos info) \<noteq> n then Inl (-14)
        else if nLastTry info < 0 then Inl (-6)
        else if nLastSuccess info < 0 then Inl (-8)
        else check_entries m es setTried mapNew) in
      if fInTried info then
        if nLastSuccess info = 0 then Inl (-1)
        else if nRefCount info \<noteq> 0 then Inl (-2)
        else rest (sput n setTried) mapNew
      else
        if nRefCount info < 0 \<or> nRefCount info > ADDRMAN_NEW_BUCKETS_PER_ADDRESS then Inl (-3)
        else if nRefCount info = 0 then Inl (-4)
        else rest setTried (oput n (nRefCount info) mapNew))"

definition cells :: "nat \<Rightarrow> (nat \<times> nat) list" where
  "cells buckets = List.product [0..<buckets] [0..<ADDRMAN_BUCKET_SIZE]"

fun check_tried :: "external \<Rightarrow> CAddrMan \<Rightarrow> (nat \<times> nat) list \<Rightarrow> int list \<Rightarrow> int + int list" where
  "check_tried E m [] setTried = Inr setTried"
| "check_tried E m (x # xs) setTried =
     (if vvTried m x \<noteq> -1 then
        if vvTried m x \<notin> set setTried then Inl (-11)
        else if GetTriedBucket E (nKey m) (info_at m (vvTried m x)) \<noteq> fst x then Inl (-17)
        else if GetBucketPosition E (nKey m) False (fst x) (info_at m (vvTried m x)) \<noteq> snd x then Inl (-18)
        else check_tried E m xs (remove1 (vvTried m x) setTried)
      else check_tried E m xs setTried)"

fun check_new :: "external \<Rightarrow> CAddrMan \<Rightarrow> (nat \<times> nat) list \<Rightarrow> (int, int) omap \<Rightarrow> int + (int, int) omap" where
  "check_new E m [] mapNew = Inr mapNew"
| "check_new E m (x # xs) mapNew =
     (if vvNew m x \<noteq> -1 then
        (case map_of mapNew (vvNew m x) of
           None \<Rightarrow> Inl (-12)
         | Some k \<Rightarrow>
             if GetBucketPosition E (nKey m) True (fst x) (info_at m (vvNew m x)) \<noteq> snd x then Inl (-19)
             else check_new E m xs
               (if k - 1 = 0 then oerase (vvNew m x) mapNew else oput (vvNew m x) (k - 1) mapNew))
      else check_new E m xs mapNew)"

definition am_Check :: "external \<Rightarrow> CAddrMan \<Rightarrow> int" where
  "am_Check E m =
     (if int (length (vRandom m)) \<noteq> nTried m + nNew m then -7
      else
        (case check_entries m (mapInfo m) [] [] of
           Inl e \<Rightarrow> e
         | Inr (setTried, mapNew) \<Rightarrow>
             if int (length setTried) \<noteq> nTried m then -9
             else if int (length mapNew) \<noteq> nNew m then -10
             else
               (case check_tried E m (cells ADDRMAN_TRIED_BUCKET_COUNT) setTried of
                  Inl e \<Rightarrow> e
                | Inr setTried \<Rightarrow>
                    (case check_new E m (cells ADDRMAN_NEW_BUCKET_COUNT) mapNew of
                       Inl e \<Rightarrow> e
                     | Inr mapNew \<Rightarrow>
                         if setTried \<noteq> [] then -13
                         else if mapNew \<noteq> [] then -15
                         else if nKey m = 0 then -16
                         else 0))))"

section \<open>A new manager\<close>

text \<open>
  \<open>Clear\<close>, with the key that \<open>GetRandHash\<close> returns. It leaves \<open>mapInfo\<close> and \<open>mapAddr\<close> as they are; the
  constructor calls it on empty maps.
\<close>

definition Clear :: "uint256 \<Rightarrow> CAddrMan \<Rightarrow> CAddrMan" where
  "Clear key m = m\<lparr>vRandom := [], nKey := key, vvNew := (\<lambda>_. -1), vvTried := (\<lambda>_. -1),
     nIdCount := 0, nTried := 0, nNew := 0\<rparr>"

definition CAddrMan_new :: "uint256 \<Rightarrow> CAddrMan" where
  "CAddrMan_new key = Clear key \<lparr>nKey = 0, nIdCount = 0, mapInfo = [], mapAddr = Map.empty, vRandom = [],
     nTried = 0, vvTried = (\<lambda>_. 0), nNew = 0, vvNew = (\<lambda>_. 0)\<rparr>"

end
