(* ===== verification/AddrManProps.thy ===== *)
theory AddrManProps
  imports AddrMan
begin

text \<open>
  The invariant of the address manager and its preservation. An invariant of each table is stated on a
  view of the entries that holds only what the table depends on, so that an operation has to be
  followed only through the views it changes: \<open>ips\<close> (the index by address), \<open>positions\<close> (the random
  order), \<open>tried_slots\<close> and \<open>new_slots\<close> (the two tables).
\<close>

section \<open>What the buckets depend on\<close>

lemma group_loop_cong: "ip a = ip b \<Longrightarrow> group_loop a i n = group_loop b i n"
proof (induction n arbitrary: i rule: less_induct)
  case (less n)
  show ?case
  proof (cases "n \<ge> 8")
    case True
    then show ?thesis using less.IH [of "n - 8" "i + 1"] less.prems
      by (simp add: group_loop.simps [of _ i n] GetByte_def)
  qed (simp add: group_loop.simps [of _ i n] GetByte_def less.prems)
qed

lemma GetGroup_cong:
  fixes a :: "'a CNetAddr_scheme" and b :: "'b CNetAddr_scheme"
  assumes "ip a = ip b"
  shows "GetGroup a = GetGroup b"
proof -
  have g: "GetByte a = GetByte b" by (simp add: GetByte_def fun_eq_iff assms)
  have p: "has_prefix a = has_prefix b" by (simp add: has_prefix_def fun_eq_iff assms)
  have l: "group_of a = group_of b" by (simp add: group_of_def fun_eq_iff group_loop_cong [OF assms])
  show ?thesis
    by (simp only: GetGroup_def IsLocal_def IsRoutable_def IsValid_def IsRFC1918_def IsRFC3927_def
        IsRFC4862_def IsRFC4193_def IsRFC4843_def IsRFC3849_def IsRFC6145_def IsRFC6052_def IsRFC3964_def
        IsRFC4380_def IsIPv4_def IsTor_def IsI2P_def g p l assms)
qed

lemma bucket_cong:
  assumes "ip i = ip j" "port i = port j"
  shows "GetTriedBucket E key i = GetTriedBucket E key j"
    and "GetBucketPosition E key f b i = GetBucketPosition E key f b j"
    and "GetNewBucket E key i src = GetNewBucket E key j src"
proof -
  have "service_GetKey i = service_GetKey j" by (simp add: service_GetKey_def assms)
  then show "GetTriedBucket E key i = GetTriedBucket E key j"
    and "GetBucketPosition E key f b i = GetBucketPosition E key f b j"
    and "GetNewBucket E key i src = GetNewBucket E key j src"
    by (simp_all only: GetTriedBucket_def GetBucketPosition_def GetNewBucket_def GetGroup_cong [OF assms(1)])
qed

lemma bucket_bounds [simp]:
  "GetTriedBucket E key i < 256" "GetBucketPosition E key f b i < 64" "GetNewBucket E key i src < 1024"
  by (simp_all add: GetTriedBucket_def GetBucketPosition_def GetNewBucket_def Let_def
      ADDRMAN_TRIED_BUCKET_COUNT_def ADDRMAN_BUCKET_SIZE_def ADDRMAN_NEW_BUCKET_COUNT_def)

section \<open>The views\<close>

abbreviation info_of :: "CAddrMan \<Rightarrow> int \<Rightarrow> CAddrInfo option" where
  "info_of m \<equiv> map_of (mapInfo m)"

definition tried_slot :: "external \<Rightarrow> uint256 \<Rightarrow> CAddrInfo \<Rightarrow> nat \<times> nat" where
  "tried_slot E key i =
     (GetTriedBucket E key i, GetBucketPosition E key False (GetTriedBucket E key i) i)"

definition ips :: "CAddrMan \<Rightarrow> int \<Rightarrow> byte list option" where
  "ips m n = map_option ip (info_of m n)"

definition positions :: "CAddrMan \<Rightarrow> int \<Rightarrow> int option" where
  "positions m n = map_option nRandomPos (info_of m n)"

definition tried_slots :: "external \<Rightarrow> CAddrMan \<Rightarrow> int \<Rightarrow> (nat \<times> nat) option" where
  "tried_slots E m n =
     (case info_of m n of None \<Rightarrow> None | Some i \<Rightarrow> if fInTried i then Some (tried_slot E (nKey m) i) else None)"

definition new_slots :: "external \<Rightarrow> CAddrMan \<Rightarrow> int \<Rightarrow> ((nat \<Rightarrow> nat) \<times> int) option" where
  "new_slots E m n =
     (case info_of m n of None \<Rightarrow> None
      | Some i \<Rightarrow> if fInTried i then None
          else Some (\<lambda>b. GetBucketPosition E (nKey m) True b i, nRefCount i))"

definition stats_of :: "CAddrInfo \<Rightarrow> bool" where
  "stats_of i \<longleftrightarrow> 0 \<le> nLastTry i \<and> 0 \<le> nLastSuccess i \<and>
     (fInTried i \<longrightarrow> nLastSuccess i \<noteq> 0 \<and> nRefCount i = 0)"

section \<open>The invariants of the structures\<close>

definition index_ok :: "(int \<Rightarrow> byte list option) \<Rightarrow> (byte list \<Rightarrow> int option) \<Rightarrow> int \<Rightarrow> bool" where
  "index_ok ps t c \<longleftrightarrow> 0 \<le> c \<and> c \<le> 2 ^ 31 - 1 \<and> (\<forall>n a. ps n = Some a \<longrightarrow> 0 \<le> n \<and> n < c) \<and>
     (\<forall>a n. t a = Some n \<longleftrightarrow> ps n = Some a)"

definition order_ok :: "(int \<Rightarrow> int option) \<Rightarrow> int list \<Rightarrow> bool" where
  "order_ok pos v \<longleftrightarrow>
     (\<forall>n p. pos n = Some p \<longrightarrow> 0 \<le> p \<and> nat p < length v \<and> v ! nat p = n) \<and>
     (\<forall>j < length v. pos (v ! j) = Some (int j))"

definition tried_ok :: "(int \<Rightarrow> (nat \<times> nat) option) \<Rightarrow> table \<Rightarrow> int \<Rightarrow> bool" where
  "tried_ok s t c \<longleftrightarrow> (\<forall>x. t x \<noteq> -1 \<longrightarrow> s (t x) = Some x) \<and> (\<forall>n x. s n = Some x \<longrightarrow> t x = n \<and> 0 \<le> n) \<and>
     c = int (card (dom s))"

definition refs :: "table \<Rightarrow> int \<Rightarrow> int" where
  "refs t n = int (card {x. t x = n})"

definition new_ok :: "int set \<Rightarrow> int \<Rightarrow> (int \<Rightarrow> ((nat \<Rightarrow> nat) \<times> int) option) \<Rightarrow> table \<Rightarrow> int \<Rightarrow> bool" where
  "new_ok D k s t c \<longleftrightarrow>
     (\<forall>x. t x \<noteq> -1 \<longrightarrow> fst x < 1024 \<and> (\<exists>p r. s (t x) = Some (p, r) \<and> snd x = p (fst x))) \<and>
     (\<forall>n p r. s n = Some (p, r) \<longrightarrow> 0 \<le> n \<and> r = refs t n \<and> r \<le> 8 \<and> (r = 0 \<longrightarrow> n \<in> D)) \<and>
     c + k = int (card (dom s))"

text \<open>
  In the middle of an operation the entries \<open>D\<close> may have no reference, and \<open>nNew\<close> may be \<open>k\<close>
  less than the number of entries outside the tried table.
\<close>

definition am_mid :: "external \<Rightarrow> int set \<Rightarrow> int \<Rightarrow> CAddrMan \<Rightarrow> bool" where
  "am_mid E D k m \<longleftrightarrow> nKey m \<noteq> 0 \<and> omap_ok (mapInfo m) \<and> index_ok (ips m) (mapAddr m) (nIdCount m) \<and>
     order_ok (positions m) (vRandom m) \<and> tried_ok (tried_slots E m) (vvTried m) (nTried m) \<and>
     new_ok D k (new_slots E m) (vvNew m) (nNew m) \<and> (\<forall>n i. info_of m n = Some i \<longrightarrow> stats_of i)"

definition am_ok :: "external \<Rightarrow> CAddrMan \<Rightarrow> bool" where
  "am_ok E m \<longleftrightarrow> am_mid E {} 0 m"

lemma am_midD:
  assumes "am_mid E D k m"
  shows "omap_ok (mapInfo m)" "index_ok (ips m) (mapAddr m) (nIdCount m)" "order_ok (positions m) (vRandom m)"
    "tried_ok (tried_slots E m) (vvTried m) (nTried m)" "new_ok D k (new_slots E m) (vvNew m) (nNew m)"
    "info_of m n = Some i \<Longrightarrow> stats_of i" "nKey m \<noteq> 0"
  using assms by (simp_all add: am_mid_def)

lemma am_midI:
  assumes "omap_ok (mapInfo m)" "index_ok (ips m) (mapAddr m) (nIdCount m)" "order_ok (positions m) (vRandom m)"
    "tried_ok (tried_slots E m) (vvTried m) (nTried m)" "new_ok D k (new_slots E m) (vvNew m) (nNew m)"
    "\<And>n i. info_of m n = Some i \<Longrightarrow> stats_of i" "nKey m \<noteq> 0"
  shows "am_mid E D k m"
  using assms by (auto simp: am_mid_def)

section \<open>Small steps on the structures\<close>

lemma order_swap:
  assumes o: "order_ok pos v" and ab: "a < length v" "b < length v" "a \<noteq> b"
  shows "order_ok (pos(v ! a \<mapsto> int b, v ! b \<mapsto> int a)) (v[a := v ! b, b := v ! a])"
proof -
  have inj: "v ! i = v ! j \<Longrightarrow> i = j" if "i < length v" "j < length v" for i j
    using o that unfolding order_ok_def by (metis of_nat_eq_iff option.inject)
  show ?thesis using o ab inj unfolding order_ok_def
    by (auto simp: nth_list_update)
qed

lemma order_butlast:
  assumes o: "order_ok pos v" and "v \<noteq> []"
  shows "order_ok (pos(last v := None)) (butlast v)"
proof -
  have l: "last v = v ! (length v - 1)" using assms(2) by (simp add: last_conv_nth)
  have inj: "v ! i = v ! j \<Longrightarrow> i = j" if "i < length v" "j < length v" for i j
    using o that unfolding order_ok_def by (metis of_nat_eq_iff option.inject)
  have "nat p < length v - 1" if "pos n = Some p" "n \<noteq> last v" for n p
    using o that l unfolding order_ok_def by (metis One_nat_def Suc_pred assms(2) length_greater_0_conv less_SucE)
  moreover have "v ! j \<noteq> last v" if "j < length v - 1" for j
    using inj [of j "length v - 1"] that l assms(2) by auto
  ultimately show ?thesis using o unfolding order_ok_def by (auto simp: nth_butlast)
qed

lemma order_append:
  assumes "order_ok pos v" "pos n = None"
  shows "order_ok (pos(n \<mapsto> int (length v))) (v @ [n])"
  using assms unfolding order_ok_def by (auto simp: nth_append less_Suc_eq)

lemma order_last:
  assumes "order_ok pos v" "pos n = Some (int (length v) - 1)"
  shows "v \<noteq> []" "last v = n"
proof -
  have p: "0 \<le> int (length v) - 1" "v ! nat (int (length v) - 1) = n"
    using assms unfolding order_ok_def by blast+
  then show "v \<noteq> []" by auto
  then show "last v = n" using p by (simp add: last_conv_nth nat_diff_distrib')
qed

section \<open>The tables\<close>

lemma card_dom_upd:
  assumes "finite (dom s)"
  shows "card (dom (s(n := None))) = card (dom s) - (if s n = None then 0 else 1)"
    "card (dom (s(n \<mapsto> x))) = (if s n = None then Suc (card (dom s)) else card (dom s))"
  using assms by (auto simp: card_insert_if card_Diff_singleton_if domIff)

lemma finite_slots:
  "finite (dom (tried_slots E m))" "finite (dom (new_slots E m))"
proof -
  have "finite (dom (info_of m))" by (rule finite_dom_map_of)
  moreover have "dom (tried_slots E m) \<subseteq> dom (info_of m)" "dom (new_slots E m) \<subseteq> dom (info_of m)"
    by (auto simp: tried_slots_def new_slots_def split: option.splits)
  ultimately show "finite (dom (tried_slots E m))" "finite (dom (new_slots E m))"
    by (blast intro: finite_subset)+
qed

lemma tried_erase:
  assumes "tried_ok s t c" "finite (dom s)" "s n = Some x"
  shows "tried_ok (s(n := None)) (t(x := -1)) (c - 1)"
proof -
  have "0 < card (dom s)" using assms(2,3) by (auto simp: card_gt_0_iff)
  then have "int (card (dom (s(n := None)))) = c - 1"
    using assms by (simp add: card_dom_upd tried_ok_def del: dom_fun_upd)
  then show ?thesis using assms unfolding tried_ok_def by (auto simp del: dom_fun_upd) (metis option.inject)+
qed

lemma tried_insert:
  assumes "tried_ok s t c" "finite (dom s)" "s n = None" "0 \<le> n" "t x = -1"
  shows "tried_ok (s(n \<mapsto> x)) (t(x := n)) (c + 1)"
proof -
  have "int (card (dom (s(n \<mapsto> x)))) = c + 1"
    using assms by (simp add: card_dom_upd tried_ok_def del: dom_fun_upd)
  moreover have "s (-1) = None" using assms(1) unfolding tried_ok_def by (cases "s (-1)") fastforce+
  ultimately show ?thesis using assms unfolding tried_ok_def by (auto simp del: dom_fun_upd)
qed

text \<open>The cells of the new table are finitely many, so that references can be counted.\<close>

lemma new_cells_finite:
  assumes "new_ok D k s t c" "n \<noteq> -1"
  shows "finite {x. t x = n}"
proof -
  have "{x. t x = n} \<subseteq> (case s n of None \<Rightarrow> {} | Some (p, r) \<Rightarrow> (\<lambda>b. (b, p b)) ` {..<1024})"
    using assms unfolding new_ok_def by (fastforce simp: image_iff)
  moreover have "finite (case s n of None \<Rightarrow> {} | Some (p, r) \<Rightarrow> (\<lambda>b. (b, p b :: nat)) ` {..<1024 :: nat})"
    by (auto split: option.splits)
  ultimately show ?thesis by (rule finite_subset)
qed

lemma refs_upd:
  assumes "finite {y. t y = n}"
  shows "refs (t(x := v)) n = refs t n +
    (if v = n then if t x = n then 0 else 1 else if t x = n then -1 else 0)"
proof -
  have "{y. (t(x := v)) y = n} = (if v = n then insert x {y. t y = n} else {y. t y = n} - {x})" by auto
  moreover have "t x = n \<Longrightarrow> 0 < card {y. t y = n}" using assms card_gt_0_iff [of "{y. t y = n}"] by blast
  ultimately show ?thesis using assms
    by (auto simp: refs_def card_insert_if card_Diff_singleton_if of_nat_diff Suc_leI)
qed

lemma refs_pos: "finite {y. t y = n} \<Longrightarrow> t x = n \<Longrightarrow> 0 < refs t n"
  unfolding refs_def using card_gt_0_iff [of "{y. t y = n}"] by fastforce

lemma new_okD:
  assumes "new_ok D k s t c" "s n = Some (p, r)"
  shows "0 \<le> n" "r = refs t n" "r \<le> 8" "r = 0 \<Longrightarrow> n \<in> D" "0 \<le> r"
proof -
  show r: "0 \<le> n" "r = refs t n" "r \<le> 8" "r = 0 \<Longrightarrow> n \<in> D" using assms unfolding new_ok_def by blast+
  show "0 \<le> r" by (simp add: r(2) refs_def)
qed

lemma new_cell:
  assumes "new_ok D k s t c" "t x \<noteq> -1"
  obtains p r where "s (t x) = Some (p, r)" "snd x = p (fst x)" "fst x < 1024" "0 < r" "0 \<le> t x"
proof -
  obtain p r where s: "s (t x) = Some (p, r)" "snd x = p (fst x)" "fst x < 1024"
    using assms unfolding new_ok_def by blast
  then show ?thesis
    using that new_okD [OF assms(1) s(1)] refs_pos [OF new_cells_finite [OF assms] refl] by simp
qed

lemma new_cell_range:
  assumes "new_ok D k s t c" "t x \<noteq> -1"
  shows "fst x < 1024 \<and> (\<exists>p r. s (t x) = Some (p, r) \<and> snd x = p (fst x))"
  using assms unfolding new_ok_def by blast

lemma new_unlink:
  assumes n: "new_ok D k s t c" and x: "t x = n" "n \<noteq> -1" "s n = Some (p, r)"
  shows "new_ok (insert n D) k (s(n \<mapsto> (p, r - 1))) (t(x := -1)) c"
proof -
  let ?s = "s(n \<mapsto> (p, r - 1))" and ?t = "t(x := -1)"
  have "fst y < 1024 \<and> (\<exists>p r. ?s (?t y) = Some (p, r) \<and> snd y = p (fst y))" if "?t y \<noteq> -1" for y
  proof -
    have "t y \<noteq> -1" "?t y = t y" using that by (auto split: if_splits)
    then show ?thesis using new_cell_range [OF n, of y] x(3) by (cases "t y = n") auto
  qed
  moreover have "0 \<le> m \<and> r' = refs ?t m \<and> r' \<le> 8 \<and> (r' = 0 \<longrightarrow> m \<in> insert n D)"
    if s: "?s m = Some (p', r')" for m p' r'
  proof -
    obtain r0 where r0: "s m = Some (p', r0)" "r' = (if m = n then r0 - 1 else r0)"
      using s x(3) by (auto split: if_splits)
    note d = new_okD [OF n r0(1)]
    have "finite {y. t y = m}" using new_cells_finite [OF n, of m] d(1) by simp
    then show ?thesis using refs_upd [of t m x "-1"] d r0(2) x(1) by auto
  qed
  moreover have "dom ?s = dom s" using x(3) by auto
  then have "c + k = int (card (dom ?s))" using n by (simp add: new_ok_def)
  ultimately show ?thesis unfolding new_ok_def by blast
qed

lemma new_link:
  assumes n: "new_ok D k s t c" and x: "t x = -1" "fst x < 1024" "snd x = p (fst x)" "s n = Some (p, r)" "r < 8"
  shows "new_ok (D - {n}) k (s(n \<mapsto> (p, r + 1))) (t(x := n)) c"
proof -
  let ?s = "s(n \<mapsto> (p, r + 1))" and ?t = "t(x := n)"
  have "fst y < 1024 \<and> (\<exists>p r. ?s (?t y) = Some (p, r) \<and> snd y = p (fst y))" if "?t y \<noteq> -1" for y
  proof (cases "y = x")
    case False
    then have "t y \<noteq> -1" "?t y = t y" using that by auto
    then show ?thesis using new_cell_range [OF n, of y] x(4) by (cases "t y = n") auto
  qed (use x in auto)
  moreover have "0 \<le> m \<and> r' = refs ?t m \<and> r' \<le> 8 \<and> (r' = 0 \<longrightarrow> m \<in> D - {n})"
    if s: "?s m = Some (p', r')" for m p' r'
  proof -
    obtain r0 where r0: "s m = Some (p', r0)" "r' = (if m = n then r0 + 1 else r0)"
      using s x(4) by (auto split: if_splits)
    note d = new_okD [OF n r0(1)]
    have "finite {y. t y = m}" using new_cells_finite [OF n, of m] d(1) by simp
    moreover have "r0 < 8" if "m = n" using that r0(1) x(4,5) by simp
    ultimately show ?thesis using refs_upd [of t m x n] d r0(2) x(1) by auto
  qed
  moreover have "dom ?s = dom s" using x(4) by auto
  then have "c + k = int (card (dom ?s))" using n by (simp add: new_ok_def)
  ultimately show ?thesis unfolding new_ok_def by blast
qed

text \<open>An entry without a reference may leave the view or enter it.\<close>

lemma new_drop:
  assumes n: "new_ok D k s t c" "finite (dom s)" and x: "s n = Some (p, 0)"
  shows "new_ok (D - {n}) k (s(n := None)) t (c - 1)"
proof -
  let ?s = "s(n := None)"
  have "t y \<noteq> n" for y
    using new_okD [OF n(1) x] new_cells_finite [OF n(1), of n] refs_pos [of t n y] by auto
  then have "fst y < 1024 \<and> (\<exists>p r. ?s (t y) = Some (p, r) \<and> snd y = p (fst y))" if "t y \<noteq> -1" for y
    using new_cell_range [OF n(1) that] by auto
  moreover have "0 \<le> m \<and> r' = refs t m \<and> r' \<le> 8 \<and> (r' = 0 \<longrightarrow> m \<in> D - {n})" if "?s m = Some (p', r')" for m p' r'
    using that new_okD [OF n(1), of m p' r'] by (auto split: if_splits)
  moreover have "0 < card (dom s)" using n(2) x card_gt_0_iff [of "dom s"] by blast
  then have "c - 1 + k = int (card (dom ?s))"
    using n x by (simp add: card_dom_upd new_ok_def del: dom_fun_upd)
  ultimately show ?thesis unfolding new_ok_def by blast
qed

lemma new_enter:
  assumes n: "new_ok D k s t c" "finite (dom s)" and x: "s n = None" "0 \<le> n"
  shows "new_ok (insert n D) (k + 1) (s(n \<mapsto> (p, 0))) t c"
proof -
  let ?s = "s(n \<mapsto> (p, 0))"
  have no: "t y \<noteq> n" for y
    using new_cell [OF n(1), of y] x by force
  then have "fst y < 1024 \<and> (\<exists>p r. ?s (t y) = Some (p, r) \<and> snd y = p (fst y))" if "t y \<noteq> -1" for y
    using new_cell_range [OF n(1) that] by auto
  moreover have "refs t n = 0" using no by (simp add: refs_def)
  then have "0 \<le> m \<and> r' = refs t m \<and> r' \<le> 8 \<and> (r' = 0 \<longrightarrow> m \<in> insert n D)" if "?s m = Some (p', r')" for m p' r'
    using that new_okD [OF n(1), of m p' r'] x(2) by (auto split: if_splits)
  moreover have "c + (k + 1) = int (card (dom ?s))"
    using n x by (simp add: card_dom_upd new_ok_def del: dom_fun_upd)
  ultimately show ?thesis unfolding new_ok_def by blast
qed

lemma new_ok_mono: "new_ok D k s t c \<Longrightarrow> D \<subseteq> D' \<Longrightarrow> new_ok D' k s t c"
  unfolding new_ok_def by blast

lemma new_ok_count: "new_ok D k s t c \<Longrightarrow> c + k = c' + k' \<Longrightarrow> new_ok D k' s t c'"
  unfolding new_ok_def by simp

section \<open>Updates and the views\<close>

lemma views_simps [simp]:
  "ips (vRandom_update f m) = ips m"
  "ips (mapAddr_update h m) = ips m"
  "ips (nNew_update g m) = ips m"
  "ips (vvNew_update t m) = ips m"
  "ips (vvTried_update t m) = ips m"
  "ips (nTried_update g m) = ips m"
  "ips (nIdCount_update g m) = ips m"
  "positions (vRandom_update f m) = positions m"
  "positions (mapAddr_update h m) = positions m"
  "positions (nNew_update g m) = positions m"
  "positions (vvNew_update t m) = positions m"
  "positions (vvTried_update t m) = positions m"
  "positions (nTried_update g m) = positions m"
  "positions (nIdCount_update g m) = positions m"
  "tried_slots E (vRandom_update f m) = tried_slots E m"
  "tried_slots E (mapAddr_update h m) = tried_slots E m"
  "tried_slots E (nNew_update g m) = tried_slots E m"
  "tried_slots E (vvNew_update t m) = tried_slots E m"
  "tried_slots E (vvTried_update t m) = tried_slots E m"
  "tried_slots E (nTried_update g m) = tried_slots E m"
  "tried_slots E (nIdCount_update g m) = tried_slots E m"
  "new_slots E (vRandom_update f m) = new_slots E m"
  "new_slots E (mapAddr_update h m) = new_slots E m"
  "new_slots E (nNew_update g m) = new_slots E m"
  "new_slots E (vvNew_update t m) = new_slots E m"
  "new_slots E (vvTried_update t m) = new_slots E m"
  "new_slots E (nTried_update g m) = new_slots E m"
  "new_slots E (nIdCount_update g m) = new_slots E m"
  by (simp_all add: fun_eq_iff ips_def positions_def tried_slots_def new_slots_def split: option.split)

lemma upd_info_simps [simp]:
  "nKey (upd_info n f m) = nKey m" "nIdCount (upd_info n f m) = nIdCount m"
  "mapAddr (upd_info n f m) = mapAddr m" "vRandom (upd_info n f m) = vRandom m"
  "nTried (upd_info n f m) = nTried m" "vvTried (upd_info n f m) = vvTried m"
  "nNew (upd_info n f m) = nNew m" "vvNew (upd_info n f m) = vvNew m"
  "omap_ok (mapInfo m) \<Longrightarrow> omap_ok (mapInfo (upd_info n f m))"
  by (simp_all add: upd_info_def)

lemma upd_info_vvNew: "upd_info n f (m\<lparr>vvNew := t\<rparr>) = (upd_info n f m)\<lparr>vvNew := t\<rparr>"
  by (cases m) (simp add: upd_info_def info_at_def)

lemma info_at_Some [simp]: "info_of m n = Some i \<Longrightarrow> info_at m n = i"
  by (simp add: info_at_def)

lemma info_of_upd:
  "omap_ok (mapInfo m) \<Longrightarrow> info_of m n = Some i \<Longrightarrow> info_of (upd_info n f m) = (info_of m)(n \<mapsto> f i)"
  by (simp add: upd_info_def)

definition new_slot :: "external \<Rightarrow> uint256 \<Rightarrow> CAddrInfo \<Rightarrow> (nat \<Rightarrow> nat) \<times> int" where
  "new_slot E key i = (\<lambda>b. GetBucketPosition E key True b i, nRefCount i)"

lemma views_at:
  assumes "info_of m n = Some i"
  shows "ips m n = Some (ip i)" "positions m n = Some (nRandomPos i)"
    "tried_slots E m n = (if fInTried i then Some (tried_slot E (nKey m) i) else None)"
    "new_slots E m n = (if fInTried i then None else Some (new_slot E (nKey m) i))"
  using assms by (simp_all add: ips_def positions_def tried_slots_def new_slots_def new_slot_def)

lemma views_none:
  assumes "info_of m n = None"
  shows "ips m n = None" "positions m n = None" "tried_slots E m n = None" "new_slots E m n = None"
  using assms by (simp_all add: ips_def positions_def tried_slots_def new_slots_def)

lemma views_upd:
  assumes "omap_ok (mapInfo m)" "info_of m n = Some i"
  shows "ips (upd_info n f m) = (ips m)(n \<mapsto> ip (f i))"
    "positions (upd_info n f m) = (positions m)(n \<mapsto> nRandomPos (f i))"
    "tried_slots E (upd_info n f m) =
       (tried_slots E m)(n := if fInTried (f i) then Some (tried_slot E (nKey m) (f i)) else None)"
    "new_slots E (upd_info n f m) =
       (new_slots E m)(n := if fInTried (f i) then None else Some (new_slot E (nKey m) (f i)))"
  using assms
  by (simp_all add: fun_eq_iff ips_def positions_def tried_slots_def new_slots_def new_slot_def info_of_upd
      split: option.split)

lemma slot_cong:
  assumes "ip i = ip j" "port i = port j"
  shows "tried_slot E key i = tried_slot E key j" "nRefCount i = nRefCount j \<Longrightarrow> new_slot E key i = new_slot E key j"
  using bucket_cong [OF assms] by (simp_all add: tried_slot_def new_slot_def)

lemma upd_same:
  assumes "s n = Some x"
  shows "s(n \<mapsto> x) = s"
  using assms by auto

text \<open>An operation that changes only the statistics of an entry.\<close>

lemma am_mid_stats:
  assumes m: "am_mid E D k m" and i: "info_of m n = Some i"
    and f: "ip (f i) = ip i" "port (f i) = port i" "fInTried (f i) = fInTried i" "nRefCount (f i) = nRefCount i"
      "nRandomPos (f i) = nRandomPos i" and st: "stats_of (f i)"
  shows "am_mid E D k (upd_info n f m)"
proof -
  note o = am_midD(1) [OF m]
  have v: "ips (upd_info n f m) = ips m" "positions (upd_info n f m) = positions m"
    "tried_slots E (upd_info n f m) = tried_slots E m" "new_slots E (upd_info n f m) = new_slots E m"
    using views_at [OF i] slot_cong [OF f(1,2)] f
    by (auto simp: views_upd [OF o i] fun_eq_iff)
  show ?thesis
    using m st by (intro am_midI) (auto simp: v am_mid_def info_of_upd [OF o i] split: if_splits)
qed

section \<open>The random order\<close>

lemma length_order:
  assumes "index_ok (ips m) (mapAddr m) (nIdCount m)" "order_ok (positions m) (vRandom m)"
  shows "length (vRandom m) < 2 ^ 31"
proof -
  let ?v = "vRandom m"
  have "distinct ?v" using assms(2) unfolding order_ok_def distinct_conv_nth
    by (metis of_nat_eq_iff option.inject)
  moreover have "set ?v \<subseteq> {0..<nIdCount m}"
  proof
    fix n assume "n \<in> set ?v"
    then have "positions m n \<noteq> None" using assms(2) unfolding order_ok_def by (auto simp: in_set_conv_nth)
    then have "ips m n \<noteq> None" by (simp add: positions_def ips_def)
    then show "n \<in> {0..<nIdCount m}" using assms(1) unfolding index_ok_def by auto
  qed
  ultimately have "length ?v \<le> nat (nIdCount m)"
    using card_mono [of "{0..<nIdCount m}" "set ?v"] by (simp add: distinct_card)
  moreover have "nIdCount m \<le> 2 ^ 31 - 1" using assms(1) by (simp add: index_ok_def)
  ultimately show "length ?v < 2 ^ 31" by simp
qed

text \<open>Entries are the same but for their place in the random order.\<close>

definition no_pos :: "CAddrInfo \<Rightarrow> CAddrInfo" where
  "no_pos i = i\<lparr>nRandomPos := 0\<rparr>"

lemma no_pos_fields:
  assumes "no_pos i = no_pos j"
  shows "ip i = ip j" "port i = port j" "fInTried i = fInTried j" "nRefCount i = nRefCount j"
    "source i = source j" "nLastTry i = nLastTry j" "nLastSuccess i = nLastSuccess j" "stats_of i = stats_of j"
  using assms by (cases i; cases j; simp add: no_pos_def stats_of_def)+

text \<open>\<open>X\<close> holds the entries an operation may change otherwise.\<close>

definition frame :: "int set \<Rightarrow> CAddrMan \<Rightarrow> CAddrMan \<Rightarrow> bool" where
  "frame X m m' \<longleftrightarrow> nKey m' = nKey m \<and> nIdCount m' = nIdCount m \<and> vvTried m' = vvTried m \<and>
     nTried m' = nTried m \<and> (\<forall>n. n \<notin> X \<longrightarrow> map_option no_pos (info_of m' n) = map_option no_pos (info_of m n))"

lemma frame_refl [simp]: "frame X m m"
  by (simp add: frame_def)

lemma frame_trans: "frame X m m' \<Longrightarrow> frame X m' m'' \<Longrightarrow> frame X m m''"
  by (simp add: frame_def)

lemma frame_mono: "frame X m m' \<Longrightarrow> X \<subseteq> Y \<Longrightarrow> frame Y m m'"
  by (auto simp: frame_def)

lemma frame_at:
  "frame X m m' \<Longrightarrow> n \<notin> X \<Longrightarrow> map_option no_pos (info_of m' n) = map_option no_pos (info_of m n)"
  by (simp add: frame_def)

lemma frame_Some:
  assumes "frame X m m'" "n \<notin> X" "info_of m n = Some i"
  obtains j where "info_of m' n = Some j" "no_pos j = no_pos i"
proof -
  have "map_option no_pos (info_of m' n) = Some (no_pos i)" using assms by (simp add: frame_def)
  then show ?thesis using that by auto
qed

lemma frame_views:
  assumes "frame X m m'" "n \<notin> X"
  shows "ips m' n = ips m n" "tried_slots E m' n = tried_slots E m n" "new_slots E m' n = new_slots E m n"
proof -
  have k: "nKey m' = nKey m" using assms(1) by (simp add: frame_def)
  show "ips m' n = ips m n" "tried_slots E m' n = tried_slots E m n" "new_slots E m' n = new_slots E m n"
  proof (atomize (full), cases "info_of m n")
    case None
    then have "info_of m' n = None" using frame_at [OF assms] by simp
    with None show "ips m' n = ips m n \<and> tried_slots E m' n = tried_slots E m n \<and> new_slots E m' n = new_slots E m n"
      by (simp add: views_none)
  next
    case (Some i)
    then obtain j where j: "info_of m' n = Some j" "no_pos j = no_pos i" using frame_Some [OF assms] by blast
    note f = no_pos_fields [OF j(2)]
    show "ips m' n = ips m n \<and> tried_slots E m' n = tried_slots E m n \<and> new_slots E m' n = new_slots E m n"
      using f slot_cong [OF f(1,2)] by (simp add: views_at [OF j(1)] views_at [OF Some] k)
  qed
qed

section \<open>SwapRandom and Delete\<close>

lemma SwapRandom_ok:
  assumes m: "am_mid E D k m" and ab: "a < length (vRandom m)" "b < length (vRandom m)"
  obtains m' where "SwapRandom a b m = Some m'" "am_mid E D k m'" "frame {} m m'" "vvNew m' = vvNew m"
    "nNew m' = nNew m" "mapAddr m' = mapAddr m" "a \<noteq> b \<or> vRandom m' = vRandom m"
    "vRandom m' = (vRandom m)[a := vRandom m ! b, b := vRandom m ! a]"
proof (cases "a = b")
  case True
  then show ?thesis using that [of m] m by (simp add: SwapRandom_def)
next
  case False
  let ?v = "vRandom m" and ?x = "vRandom m ! a" and ?y = "vRandom m ! b"
  note o = am_midD(1) [OF m] and ord = am_midD(3) [OF m]
  have pos: "positions m ?x = Some (int a)" "positions m ?y = Some (int b)"
    using ord ab unfolding order_ok_def by blast+
  then obtain i j where ij: "info_of m ?x = Some i" "info_of m ?y = Some j" by (auto simp: positions_def)
  have xy: "?x \<noteq> ?y" using pos False by auto
  define m1 where "m1 = upd_info ?x (\<lambda>i. i\<lparr>nRandomPos := int b\<rparr>) m"
  define m2 where "m2 = upd_info ?y (\<lambda>i. i\<lparr>nRandomPos := int a\<rparr>) m1"
  define m' where "m' = m2\<lparr>vRandom := ?v[a := ?y, b := ?x]\<rparr>"
  have o1: "omap_ok (mapInfo m1)" by (simp add: m1_def o)
  have i1: "info_of m1 = (info_of m)(?x \<mapsto> i\<lparr>nRandomPos := int b\<rparr>)"
    unfolding m1_def by (rule info_of_upd [OF o ij(1)])
  then have j1: "info_of m1 ?y = Some j" using ij(2) xy by simp
  have i2: "info_of m2 = (info_of m1)(?y \<mapsto> j\<lparr>nRandomPos := int a\<rparr>)"
    unfolding m2_def by (rule info_of_upd [OF o1 j1])
  have sw: "SwapRandom a b m = Some m'"
    using False ab ij by (simp add: SwapRandom_def m'_def m2_def m1_def Let_def)
  have info': "info_of m' = (info_of m)(?x \<mapsto> i\<lparr>nRandomPos := int b\<rparr>, ?y \<mapsto> j\<lparr>nRandomPos := int a\<rparr>)"
    by (simp add: m'_def i2 i1)
  have fr: "frame {} m m'"
    using ij by (simp add: frame_def info' no_pos_def) (simp add: m'_def m2_def m1_def)
  have st: "stats_of n" if "info_of m' q = Some n" for q n
  proof -
    have "map_option no_pos (info_of m q) = Some (no_pos n)" using frame_at [OF fr, of q] that by simp
    then obtain n' where n': "info_of m q = Some n'" "no_pos n' = no_pos n" by auto
    then show ?thesis using am_midD(6) [OF m n'(1)] no_pos_fields(8) [OF n'(2)] by simp
  qed
  have "positions m' = (positions m)(?x \<mapsto> int b, ?y \<mapsto> int a)"
    by (simp add: fun_eq_iff positions_def info')
  moreover have "ips m' = ips m" "tried_slots E m' = tried_slots E m" "new_slots E m' = new_slots E m"
    by (simp_all add: fun_eq_iff frame_views [OF fr])
  ultimately have "am_mid E D k m'"
    using m order_swap [OF ord ab False] o1 st
    by (intro am_midI) (simp_all add: am_mid_def, simp_all add: m'_def m2_def m1_def)
  then show ?thesis using that [OF sw _ fr] False by (simp add: m'_def m2_def m1_def)
qed

lemma Delete_ok:
  assumes m: "am_mid E D k m" and i: "info_of m n = Some i" "\<not> fInTried i" "nRefCount i = 0"
  obtains m' where "Delete n m = Some m'" "am_mid E (D - {n}) k m'" "frame {n} m m'" "vvNew m' = vvNew m"
    "info_of m' n = None" "nNew m' = nNew m - 1"
proof -
  let ?v = "vRandom m" and ?p = "nat (nRandomPos i)"
  note idx = am_midD(2) [OF m] and ord = am_midD(3) [OF m]
  have p: "0 \<le> nRandomPos i" "?p < length ?v" "?v ! ?p = n"
    using ord views_at(2) [OF i(1)] unfolding order_ok_def by blast+
  have len: "length ?v < 2 ^ 31" using length_order [OF idx ord] .
  have l1: "0 \<le> int (length ?v) - 1" "int (length ?v) - 1 < 2 ^ 32" "nRandomPos i < 2 ^ 32"
    using p(1,2) len by (auto simp: Suc_le_eq)
  have conv: "nat (nRandomPos i mod 2 ^ 32) = ?p" "nat ((int (length ?v) - 1) mod 2 ^ 32) = length ?v - 1"
    unfolding mod_pos_pos_trivial [OF p(1) l1(3)] mod_pos_pos_trivial [OF l1(1,2)] by linarith+
  have l: "length ?v - 1 < length ?v" using p(2) by linarith
  obtain m1 where m1: "SwapRandom ?p (length ?v - 1) m = Some m1" "am_mid E D k m1" "frame {} m m1"
      "vvNew m1 = vvNew m" "nNew m1 = nNew m" "mapAddr m1 = mapAddr m"
      "vRandom m1 = ?v[?p := ?v ! (length ?v - 1), length ?v - 1 := ?v ! ?p]"
    using SwapRandom_ok [OF m p(2) l] by blast
  have lst: "vRandom m1 \<noteq> []" "last (vRandom m1) = n"
  proof -
    have "length (vRandom m1) = length ?v" "vRandom m1 ! (length ?v - 1) = n"
      using p l by (simp_all add: m1(7) del: One_nat_def)
    moreover from this(1) show "vRandom m1 \<noteq> []" using l by auto
    ultimately show "last (vRandom m1) = n" by (simp add: last_conv_nth del: One_nat_def)
  qed
  define m' where "m' = m1\<lparr>vRandom := butlast (vRandom m1), mapAddr := (mapAddr m1)(ip i := None),
    mapInfo := oerase n (mapInfo m1), nNew := nNew m1 - 1\<rparr>"
  have del: "Delete n m = Some m'"
    using i(2,3) lst by (simp only: Delete_def i(1) option.case conv m1(1)) (simp add: m'_def)
  obtain j where j: "info_of m1 n = Some j" "no_pos j = no_pos i" using frame_Some [OF m1(3) _ i(1)] by blast
  note jf = no_pos_fields [OF j(2)]
  have fields: "vRandom m' = butlast (vRandom m1)" "vvTried m' = vvTried m1" "nTried m' = nTried m1"
    "vvNew m' = vvNew m1" "nNew m' = nNew m1 - 1" "nKey m' = nKey m1"
    by (simp_all add: m'_def)
  have info': "info_of m' = (info_of m1)(n := None)" by (simp add: m'_def)
  have views: "ips m' = (ips m1)(n := None)" "positions m' = (positions m1)(n := None)"
    "tried_slots E m' = (tried_slots E m1)(n := None)" "new_slots E m' = (new_slots E m1)(n := None)"
    by (auto simp: fun_eq_iff ips_def positions_def tried_slots_def new_slots_def info' fields split: option.split)
  have t: "tried_slots E m1 n = None" "new_slots E m1 n = Some (fst (new_slot E (nKey m1) j), 0)"
    using views_at [OF j(1)] i jf by (simp_all add: new_slot_def)
  have fr: "frame {n} m m'"
    using m1(3) by (simp add: frame_def info') (simp add: m'_def)
  have idx': "index_ok (ips m') (mapAddr m') (nIdCount m')"
    using am_midD(2) [OF m1(2)] views_at(1) [OF j(1)] jf(1) unfolding index_ok_def views
    by (auto simp: m'_def) (metis option.inject)+
  have "am_mid E (D - {n}) k m'"
  proof (rule am_midI)
    show "omap_ok (mapInfo m')" using am_midD(1) [OF m1(2)] by (simp add: m'_def)
    show "order_ok (positions m') (vRandom m')"
      using order_butlast [OF am_midD(3) [OF m1(2)] lst(1)] by (simp add: views lst(2) fields)
    show "tried_ok (tried_slots E m') (vvTried m') (nTried m')"
      using am_midD(4) [OF m1(2)] t(1) by (simp add: views fields fun_upd_idem)
    have "new_ok (D - {n}) k ((new_slots E m1)(n := None)) (vvNew m1) (nNew m1 - 1)"
      using new_drop [OF am_midD(5) [OF m1(2)] finite_slots(2) t(2)] .
    then show "new_ok (D - {n}) k (new_slots E m') (vvNew m') (nNew m')"
      by (simp add: views fields)
    show "stats_of q" if "info_of m' r = Some q" for r q
      using that am_midD(6) [OF m1(2), of r q] by (simp add: info' split: if_splits)
    show "nKey m' \<noteq> 0" using am_midD(7) [OF m1(2)] by (simp add: fields)
  qed (rule idx')
  then show ?thesis using that [OF del _ fr] m1(4,5) info' by (simp add: m'_def)
qed

section \<open>The new table\<close>

text \<open>Taking a reference away, and what follows when it was the last one.\<close>

lemma unlink_ok:
  assumes m: "am_mid E D k m" and x: "vvNew m x = n" "n \<noteq> -1"
  defines "m1 \<equiv> (upd_info n (\<lambda>i. i\<lparr>nRefCount := nRefCount i - 1\<rparr>) m)\<lparr>vvNew := (vvNew m)(x := -1)\<rparr>"
  shows "am_mid E (insert n D) k m1" "frame {n} m m1"
    "\<exists>i. info_of m n = Some i \<and> \<not> fInTried i \<and> 0 < nRefCount i \<and> snd x = GetBucketPosition E (nKey m) True (fst x) i \<and>
       info_of m1 = (info_of m)(n \<mapsto> i\<lparr>nRefCount := nRefCount i - 1\<rparr>)"
proof -
  note o = am_midD(1) [OF m]
  obtain p r where c: "new_slots E m n = Some (p, r)" "snd x = p (fst x)" "0 < r"
    using new_cell [OF am_midD(5) [OF m], of x] x by metis
  then obtain i where i: "info_of m n = Some i" "\<not> fInTried i" "p = (\<lambda>b. GetBucketPosition E (nKey m) True b i)"
      "r = nRefCount i"
    by (auto simp: new_slots_def split: option.splits if_splits)
  let ?j = "i\<lparr>nRefCount := nRefCount i - 1\<rparr>"
  have info: "info_of m1 = (info_of m)(n \<mapsto> ?j)" unfolding m1_def by (simp add: info_of_upd [OF o i(1)])
  note v = views_upd [OF o i(1), where f = "\<lambda>i. i\<lparr>nRefCount := nRefCount i - 1\<rparr>"] and at = views_at [OF i(1)]
  have pos: "new_slot E (nKey m) ?j = (p, r - 1)"
    using bucket_cong(2) [of ?j i] by (simp add: new_slot_def i)
  have views: "ips m1 = ips m" "positions m1 = positions m" "tried_slots E m1 = tried_slots E m"
    "new_slots E m1 = (new_slots E m)(n \<mapsto> (p, r - 1))"
    using at i(2) by (auto simp: m1_def v pos fun_eq_iff)
  have "stats_of ?j" using am_midD(6) [OF m i(1)] i(2) by (simp add: stats_of_def)
  then show "am_mid E (insert n D) k m1"
    using m new_unlink [OF am_midD(5) [OF m] x c(1)]
    by (intro am_midI) (auto simp: views am_mid_def info, auto simp: m1_def split: if_splits)
  show "frame {n} m m1" by (simp add: frame_def info) (simp add: m1_def)
  show "\<exists>i. info_of m n = Some i \<and> \<not> fInTried i \<and> 0 < nRefCount i \<and> snd x = GetBucketPosition E (nKey m) True (fst x) i \<and>
       info_of m1 = (info_of m)(n \<mapsto> i\<lparr>nRefCount := nRefCount i - 1\<rparr>)"
    using i c info by auto
qed

lemma new_ok_shrink:
  assumes "new_ok D k s t c" "\<And>p r. s n = Some (p, r) \<Longrightarrow> r \<noteq> 0"
  shows "new_ok (D - {n}) k s t c"
  using assms unfolding new_ok_def by blast

lemma am_mid_shrink:
  assumes "am_mid E D k m" "\<And>i. info_of m n = Some i \<Longrightarrow> \<not> fInTried i \<Longrightarrow> nRefCount i \<noteq> 0"
  shows "am_mid E (D - {n}) k m"
proof -
  have "r \<noteq> 0" if "new_slots E m n = Some (p, r)" for p r
    using that assms(2) by (auto simp: new_slots_def split: option.splits if_splits)
  then show ?thesis using assms(1) new_ok_shrink [of D k "new_slots E m" "vvNew m" "nNew m" n]
    by (simp add: am_mid_def)
qed

lemma am_mid_D_mono: "am_mid E D k m \<Longrightarrow> D \<subseteq> D' \<Longrightarrow> am_mid E D' k m"
  unfolding am_mid_def using new_ok_mono by blast

lemma ClearNew_ok:
  assumes m: "am_mid E D k m"
  obtains m' where "ClearNew x m = Some m'" "am_mid E D k m'" "frame {vvNew m x} m m'"
    "vvNew m' = (vvNew m)(x := -1)"
proof (cases "vvNew m x = -1")
  case True
  then show ?thesis using that [of m] m by (simp add: ClearNew_def fun_upd_idem)
next
  case False
  let ?n = "vvNew m x" and ?f = "\<lambda>i. i\<lparr>nRefCount := nRefCount i - 1\<rparr>"
  define m1 where "m1 = (upd_info ?n ?f m)\<lparr>vvNew := (vvNew m)(x := -1)\<rparr>"
  note u = unlink_ok [OF m refl False, folded m1_def]
  obtain i where i: "info_of m ?n = Some i" "\<not> fInTried i" "0 < nRefCount i"
      "info_of m1 = (info_of m)(?n \<mapsto> ?f i)"
    using u(3) by blast
  have i1: "info_of m1 ?n = Some (?f i)" by (simp add: i(4))
  have c: "ClearNew x m = (if nRefCount i - 1 = 0 then Delete ?n m1 else Some m1)"
    using False i(3) i1 by (simp add: ClearNew_def Let_def info_at_Some [OF i(1)] m1_def [symmetric])
  have w: "vvNew m1 = (vvNew m)(x := -1)" by (simp add: m1_def)
  show ?thesis
  proof (cases "nRefCount i - 1 = 0")
    case True
    obtain m' where d: "Delete ?n m1 = Some m'" "am_mid E (insert ?n D - {?n}) k m'" "frame {?n} m1 m'"
        "vvNew m' = vvNew m1"
      using Delete_ok [OF u(1) i1] i(2) True by auto
    have "am_mid E D k m'" using am_mid_D_mono [OF d(2)] by blast
    then show ?thesis using that [of m'] c d True w frame_trans [OF u(2) d(3)] by simp
  next
    case False
    have "am_mid E (insert ?n D - {?n}) k m1" using am_mid_shrink [OF u(1), of ?n] False i1 by simp
    then have "am_mid E D k m1" using am_mid_D_mono by blast
    then show ?thesis using that [of m1] c False u(2) w by simp
  qed
qed

text \<open>Giving a reference to an entry, in a free place.\<close>

lemma link_ok:
  assumes m: "am_mid E D k m" and i: "info_of m n = Some i" "\<not> fInTried i" "nRefCount i < 8"
    and x: "vvNew m x = -1" "fst x < 1024" "snd x = GetBucketPosition E (nKey m) True (fst x) i"
    and f: "f i = i\<lparr>nRefCount := nRefCount i + 1\<rparr>"
  defines "m1 \<equiv> (upd_info n f m)\<lparr>vvNew := (vvNew m)(x := n)\<rparr>"
  shows "am_mid E (D - {n}) k m1" "info_of m1 = (info_of m)(n \<mapsto> i\<lparr>nRefCount := nRefCount i + 1\<rparr>)"
proof -
  note o = am_midD(1) [OF m]
  let ?j = "i\<lparr>nRefCount := nRefCount i + 1\<rparr>" and ?p = "\<lambda>b. GetBucketPosition E (nKey m) True b i"
  show info: "info_of m1 = (info_of m)(n \<mapsto> ?j)" unfolding m1_def by (simp add: info_of_upd [OF o i(1)] f)
  have s: "new_slots E m n = Some (?p, nRefCount i)" using views_at(4) [OF i(1)] i(2) by (simp add: new_slot_def)
  have pos: "new_slot E (nKey m) ?j = (?p, nRefCount i + 1)"
    using bucket_cong(2) [of ?j i] by (simp add: new_slot_def)
  note v = views_upd [OF o i(1), where f = f] and at = views_at [OF i(1)]
  have views: "ips m1 = ips m" "positions m1 = positions m" "tried_slots E m1 = tried_slots E m"
    "new_slots E m1 = (new_slots E m)(n \<mapsto> (?p, nRefCount i + 1))"
    using at i(2) by (auto simp: m1_def v f pos fun_eq_iff)
  have "stats_of ?j" using am_midD(6) [OF m i(1)] i(2) by (simp add: stats_of_def)
  then show "am_mid E (D - {n}) k m1"
    using m new_link [OF am_midD(5) [OF m] x(1,2) _ s i(3)] x(3)
    by (intro am_midI) (auto simp: views am_mid_def info, auto simp: m1_def split: if_splits)
qed

lemma unreferenced:
  assumes "am_mid E D k m" "info_of m n = Some i" "\<not> fInTried i" "nRefCount i = 0"
  shows "vvNew m x \<noteq> n"
proof
  assume x: "vvNew m x = n"
  note s = views_at(4) [OF assms(2), of E]
  have "0 \<le> n" using new_okD(1) [OF am_midD(5) [OF assms(1)]] s assms(3) by (simp add: new_slot_def)
  then obtain p r where "new_slots E m n = Some (p, r)" "0 < r"
    using new_cell [OF am_midD(5) [OF assms(1)], of x] x by (metis neg_0_le_iff_le not_one_le_zero)
  then show False using s assms(3,4) by (simp add: new_slot_def)
qed

lemma tried_not_new:
  assumes "am_mid E D k m" "info_of m n = Some i" "fInTried i"
  shows "vvNew m x \<noteq> n"
proof
  assume x: "vvNew m x = n"
  have "0 \<le> n" using am_midD(2) [OF assms(1)] views_at(1) [OF assms(2)] unfolding index_ok_def by blast
  then have "new_slots E m n \<noteq> None" using new_cell_range [OF am_midD(5) [OF assms(1)], of x] x by auto
  then show False using views_at(4) [OF assms(2)] assms(3) by simp
qed

section \<open>Moving an entry to the tried table\<close>

lemma unlink_buckets_ok:
  assumes "am_mid E (insert n D) k m" "info_of m n = Some i" "\<not> fInTried i" "n \<noteq> -1"
  shows "am_mid E (insert n D) k (unlink_buckets E n bs m) \<and> frame {n} m (unlink_buckets E n bs m) \<and>
    (\<exists>r. info_of (unlink_buckets E n bs m) n = Some (i\<lparr>nRefCount := r\<rparr>)) \<and>
    (\<forall>x. vvNew (unlink_buckets E n bs m) x = n \<longrightarrow>
       vvNew m x = n \<and> \<not> (fst x \<in> set bs \<and> snd x = GetBucketPosition E (nKey m) True (fst x) i))"
  using assms(1-3)
proof (induction bs arbitrary: m i)
  case Nil
  then show ?case by (auto intro: exI [of _ "nRefCount i"])
next
  case (Cons b bs)
  let ?x = "(b, GetBucketPosition E (nKey m) True b i)" and ?f = "\<lambda>i. i\<lparr>nRefCount := nRefCount i - 1\<rparr>"
  show ?case
  proof (cases "vvNew m ?x = n")
    case False
    then have u: "unlink_buckets E n (b # bs) m = unlink_buckets E n bs m"
      by (simp add: info_at_Some [OF Cons.prems(2)])
    show ?thesis unfolding u using Cons.IH [OF Cons.prems] False by (metis insert_iff list.simps(15) prod.collapse)
  next
    case True
    define m1 where "m1 = (upd_info n ?f m)\<lparr>vvNew := (vvNew m)(?x := -1)\<rparr>"
    note l = unlink_ok [OF Cons.prems(1) True assms(4), folded m1_def]
    have u: "unlink_buckets E n (b # bs) m = unlink_buckets E n bs m1"
      using True by (simp add: info_at_Some [OF Cons.prems(2)] m1_def upd_info_vvNew)
    have i1: "info_of m1 n = Some (?f i)" using l(3) Cons.prems(2) by auto
    have k: "nKey m1 = nKey m" "vvNew m1 = (vvNew m)(?x := -1)" by (simp_all add: m1_def)
    have "am_mid E (insert n D) k m1" using l(1) by simp
    from Cons.IH [OF this i1] Cons.prems(3)
    have ih: "am_mid E (insert n D) k (unlink_buckets E n bs m1)" "frame {n} m1 (unlink_buckets E n bs m1)"
      "\<exists>r. info_of (unlink_buckets E n bs m1) n = Some (i\<lparr>nRefCount := r\<rparr>)"
      "\<forall>x. vvNew (unlink_buckets E n bs m1) x = n \<longrightarrow> vvNew m1 x = n \<and>
         \<not> (fst x \<in> set bs \<and> snd x = GetBucketPosition E (nKey m) True (fst x) i)"
      using bucket_cong(2) [of "?f i" i] by (simp_all add: k(1))
    have "vvNew m x = n \<and> \<not> (fst x \<in> set (b # bs) \<and> snd x = GetBucketPosition E (nKey m) True (fst x) i)"
      if "vvNew (unlink_buckets E n bs m1) x = n" for x
    proof -
      have x: "vvNew m1 x = n" "\<not> (fst x \<in> set bs \<and> snd x = GetBucketPosition E (nKey m) True (fst x) i)"
        using ih(4) that by blast+
      then have "x \<noteq> ?x" using assms(4) by (auto simp: k(2))
      then show ?thesis using x by (auto simp: k(2) prod_eq_iff)
    qed
    then show ?thesis unfolding u using ih(1,3) frame_trans [OF l(2) ih(2)] by blast
  qed
qed

lemma evict_ok:
  assumes m: "am_mid E D k m"
  obtains m' where "evict E x m = Some m'" "am_mid E D k m'" "vvTried m' x = -1" "nKey m' = nKey m"
    "\<And>n i. info_of m n = Some i \<Longrightarrow> \<not> fInTried i \<Longrightarrow> nRefCount i = 0 \<Longrightarrow>
       \<exists>j. info_of m' n = Some j \<and> no_pos j = no_pos i"
    "\<And>n i. info_of m n = Some i \<Longrightarrow> fInTried i \<Longrightarrow> \<exists>j. info_of m' n = Some j \<and> ip j = ip i \<and> port j = port i"
proof (cases "vvTried m x = -1")
  case True
  then show ?thesis using that [of m] m by (simp add: evict_def)
next
  case False
  let ?e = "vvTried m x" and ?f = "\<lambda>i. i\<lparr>fInTried := False\<rparr>"
  note o = am_midD(1) [OF m] and tr = am_midD(4) [OF m] and nw = am_midD(5) [OF m]
  have ts: "tried_slots E m ?e = Some x" using tr False unfolding tried_ok_def by blast
  then obtain i where i: "info_of m ?e = Some i" "fInTried i"
    by (auto simp: tried_slots_def split: option.splits if_splits)
  have e0: "0 \<le> ?e" using tr ts unfolding tried_ok_def by blast
  have st: "nRefCount i = 0" "stats_of i" using am_midD(6) [OF m i(1)] i(2) by (simp_all add: stats_of_def)
  define m1 where "m1 = (upd_info ?e ?f m)\<lparr>vvTried := (vvTried m)(x := -1), nTried := nTried m - 1\<rparr>"
  have info1: "info_of m1 = (info_of m)(?e \<mapsto> ?f i)" unfolding m1_def by (simp add: info_of_upd [OF o i(1)])
  have ns: "new_slots E m ?e = None" using views_at(4) [OF i(1)] i(2) by simp
  note v = views_upd [OF o i(1), where f = ?f] and at = views_at [OF i(1)]
  obtain p where p: "new_slot E (nKey m) (?f i) = (p, 0)" using st(1) by (simp add: new_slot_def)
  have views: "ips m1 = ips m" "positions m1 = positions m" "tried_slots E m1 = (tried_slots E m)(?e := None)"
    "new_slots E m1 = (new_slots E m)(?e \<mapsto> (p, 0))"
    using at by (auto simp: m1_def v p fun_eq_iff)
  have "stats_of (?f i)" using st(2) by (simp add: stats_of_def)
  then have m1: "am_mid E (insert ?e D) (k + 1) m1"
    using m tried_erase [OF tr finite_slots(1) ts] new_enter [OF nw finite_slots(2) ns e0, of p]
    by (intro am_midI) (auto simp: views am_mid_def info1, auto simp: m1_def split: if_splits)
  have i1: "info_of m1 ?e = Some (?f i)" by (simp add: info1)
  let ?nb = "GetNewBucket E (nKey m) (?f i) (source i)"
  let ?y = "(?nb, GetBucketPosition E (nKey m) True ?nb (?f i))"
  obtain m2 where m2: "ClearNew ?y m1 = Some m2" "am_mid E (insert ?e D) (k + 1) m2"
      "frame {vvNew m1 ?y} m1 m2" "vvNew m2 = (vvNew m1)(?y := -1)"
    using ClearNew_ok [OF m1] by blast
  have "vvNew m1 ?y \<noteq> ?e" by (rule unreferenced [OF m1 i1]) (simp_all add: st)
  then have ne: "?e \<notin> {vvNew m1 ?y}" by auto
  obtain j where j: "info_of m2 ?e = Some j" "no_pos j = no_pos (?f i)"
    using frame_Some [OF m2(3) ne i1] by blast
  note jf = no_pos_fields [OF j(2)]
  have j0: "\<not> fInTried j" "nRefCount j = 0" using jf st by simp_all
  have key: "nKey m2 = nKey m" "vvTried m2 = vvTried m1" using m2(3) by (simp_all add: frame_def m1_def)
  define g :: "CAddrInfo \<Rightarrow> CAddrInfo" where "g = nRefCount_update (\<lambda>_. 1)"
  have g: "g j = j\<lparr>nRefCount := nRefCount j + 1\<rparr>" by (simp add: g_def j0)
  define m3 where "m3 = (upd_info ?e g m2)\<lparr>vvNew := (vvNew m2)(?y := ?e)\<rparr>"
  have y: "snd ?y = GetBucketPosition E (nKey m2) True (fst ?y) j"
    using bucket_cong(2) [OF jf(1,2), of E "nKey m" True ?nb] by (simp add: key)
  have "nRefCount j < 8" "vvNew m2 ?y = -1" "fst ?y < 1024" using j0 by (simp_all add: m2(4))
  note l = link_ok [where f = g, OF m2(2) j(1) j0(1) this y g, folded m3_def]
  have l1: "am_mid E (insert ?e D - {?e}) (k + 1) m3" "info_of m3 = (info_of m2)(?e \<mapsto> j\<lparr>nRefCount := nRefCount j + 1\<rparr>)"
    using l by (simp_all add: m2(4))
  define m' where "m' = m3\<lparr>nNew := nNew m3 + 1\<rparr>"
  have "am_mid E D (k + 1) m3" using am_mid_D_mono [OF l1(1)] by blast
  then have m': "am_mid E D k m'"
    using new_ok_count [of D "k + 1" "new_slots E m3" "vvNew m3" "nNew m3" "nNew m3 + 1" k]
    by (simp add: am_mid_def m'_def)
  have ev: "evict E x m = Some m'"
    using False i(1) m2(1)
    by (simp add: evict_def Let_def m1_def [symmetric] info_at_Some [OF i1])
      (simp add: m1_def m2(4) m'_def m3_def g_def)
  have rest: "\<exists>q'. info_of m' q = Some q' \<and> no_pos q' = no_pos qi"
    if q: "info_of m q = Some qi" "\<not> fInTried qi" "nRefCount qi = 0" for q qi
  proof -
    have qe: "q \<noteq> ?e" using q i by auto
    then have q1: "info_of m1 q = Some qi" by (simp add: info1 q)
    have "q \<notin> {vvNew m1 ?y}" using unreferenced [OF m1 q1 q(2,3), of ?y] by blast
    then obtain q' where "info_of m2 q = Some q'" "no_pos q' = no_pos qi"
      using frame_Some [OF m2(3) _ q1] by blast
    then show ?thesis using qe by (simp add: m'_def l1(2))
  qed
  have keep: "\<exists>q'. info_of m' q = Some q' \<and> ip q' = ip qi \<and> port q' = port qi"
    if q: "info_of m q = Some qi" "fInTried qi" for q qi
  proof (cases "q = ?e")
    case True
    then show ?thesis using q i jf by (simp add: m'_def l1(2))
  next
    case False
    then have q1: "info_of m1 q = Some qi" by (simp add: info1 q)
    have "q \<notin> {vvNew m1 ?y}" using tried_not_new [OF m1 q1 q(2), of ?y] by blast
    then obtain q' where q': "info_of m2 q = Some q'" "no_pos q' = no_pos qi"
      using frame_Some [OF m2(3) _ q1] by blast
    then show ?thesis using False no_pos_fields(1,2) [OF q'(2)] by (simp add: m'_def l1(2))
  qed
  have f: "vvTried m' x = -1" "nKey m' = nKey m" using key by (simp_all add: m'_def m3_def m1_def)
  show ?thesis by (rule that [OF ev m' f]) (rule rest keep; assumption)+
qed

lemma MakeTried_eq:
  "MakeTried E nId m =
     (let m1 = unlink_buckets E nId [0..<ADDRMAN_NEW_BUCKET_COUNT] m;
          m2 = m1\<lparr>nNew := nNew m1 - 1\<rparr> in
      if nRefCount (info_at m2 nId) \<noteq> 0 then None
      else
        let x = tried_slot E (nKey m2) (info_at m2 nId) in
        (case evict E x m2 of
           None \<Rightarrow> None
         | Some m \<Rightarrow>
             if vvTried m x \<noteq> -1 then None
             else Some (upd_info nId (\<lambda>i. i\<lparr>fInTried := True\<rparr>)
               (m\<lparr>vvTried := (vvTried m)(x := nId), nTried := nTried m + 1\<rparr>))))"
  unfolding MakeTried_def Let_def tried_slot_def by (rule refl)

lemma MakeTried_ok:
  assumes m: "am_ok E m" and i: "info_of m n = Some i" "\<not> fInTried i" "nLastSuccess i \<noteq> 0"
  obtains m' j where "MakeTried E n m = Some m'" "am_ok E m'" "info_of m' n = Some j" "fInTried j" "ip j = ip i"
    "port j = port i" "nLastSuccess j = nLastSuccess i"
    "\<And>q qi. info_of m q = Some qi \<Longrightarrow> fInTried qi \<Longrightarrow> \<exists>j. info_of m' q = Some j \<and> ip j = ip qi \<and> port j = port qi"
proof -
  have n0: "0 \<le> n" using am_midD(2) [OF m [unfolded am_ok_def]] views_at(1) [OF i(1)] unfolding index_ok_def by blast
  define m1 where "m1 = unlink_buckets E n [0..<ADDRMAN_NEW_BUCKET_COUNT] m"
  have "am_mid E (insert n {}) 0 m" using am_mid_D_mono [OF m [unfolded am_ok_def]] by blast
  from unlink_buckets_ok [OF this i(1,2), of "[0..<ADDRMAN_NEW_BUCKET_COUNT]", folded m1_def] n0
  obtain r where u: "am_mid E {n} 0 m1" "frame {n} m m1" "info_of m1 n = Some (i\<lparr>nRefCount := r\<rparr>)"
      "\<forall>x. vvNew m1 x = n \<longrightarrow>
         \<not> (fst x \<in> set [0..<ADDRMAN_NEW_BUCKET_COUNT] \<and> snd x = GetBucketPosition E (nKey m) True (fst x) i)"
    by auto
  let ?i = "i\<lparr>nRefCount := r\<rparr>"
  have k1: "nKey m1 = nKey m" using u(2) by (simp add: frame_def)
  have s1: "new_slots E m1 n = Some (\<lambda>b. GetBucketPosition E (nKey m) True b i, r)"
    using views_at(4) [OF u(3)] i(2) bucket_cong(2) [of ?i i] by (simp add: new_slot_def k1)
  have "vvNew m1 x \<noteq> n" for x
  proof
    assume x: "vvNew m1 x = n"
    then have "fst x < 1024" "snd x = GetBucketPosition E (nKey m) True (fst x) i"
      using new_cell_range [OF am_midD(5) [OF u(1)], of x] s1 n0 by auto
    then show False using u(4) x by (simp add: ADDRMAN_NEW_BUCKET_COUNT_def)
  qed
  then have r0: "r = 0" using new_okD(2) [OF am_midD(5) [OF u(1)] s1] by (simp add: refs_def)
  define m2 where "m2 = m1\<lparr>nNew := nNew m1 - 1\<rparr>"
  have m2: "am_mid E {n} 1 m2"
    using u(1) new_ok_count [of "{n}" 0 "new_slots E m1" "vvNew m1" "nNew m1" "nNew m1 - 1" 1]
    by (simp add: am_mid_def m2_def)
  have i2: "info_of m2 n = Some ?i" and k2: "nKey m2 = nKey m" by (simp_all add: m2_def u(3) k1)
  let ?x = "tried_slot E (nKey m) i"
  have x2: "tried_slot E (nKey m) ?i = ?x" by (rule slot_cong) simp_all
  obtain m3 where m3: "evict E ?x m2 = Some m3" "am_mid E {n} 1 m3" "vvTried m3 ?x = -1" "nKey m3 = nKey m2"
      and "\<And>q qi. info_of m2 q = Some qi \<Longrightarrow> \<not> fInTried qi \<Longrightarrow> nRefCount qi = 0 \<Longrightarrow>
        \<exists>j. info_of m3 q = Some j \<and> no_pos j = no_pos qi"
      and tried3: "\<And>q qi. info_of m2 q = Some qi \<Longrightarrow> fInTried qi \<Longrightarrow>
        \<exists>j. info_of m3 q = Some j \<and> ip j = ip qi \<and> port j = port qi"
    by (rule evict_ok [OF m2, of ?x]) (rule that, assumption+)
  from this(5) [OF i2] obtain j where j: "info_of m3 n = Some j" "no_pos j = no_pos ?i"
    using i(2) r0 by auto
  note jf = no_pos_fields [OF j(2)] and o3 = am_midD(1) [OF m3(2)]
  have k3: "nKey m3 = nKey m" by (simp add: m3(4) m2_def k1)
  define m' where "m' = upd_info n (\<lambda>i. i\<lparr>fInTried := True\<rparr>)
    (m3\<lparr>vvTried := (vvTried m3)(?x := n), nTried := nTried m3 + 1\<rparr>)"
  have mt: "MakeTried E n m = Some m'"
    using m3(1,3)
    by (simp only: MakeTried_eq Let_def m1_def [symmetric] m2_def [symmetric] info_at_Some [OF i2] k2 x2)
      (simp add: m'_def r0)
  have o3': "omap_ok (mapInfo (m3\<lparr>vvTried := (vvTried m3)(?x := n), nTried := nTried m3 + 1\<rparr>))"
    and j': "info_of (m3\<lparr>vvTried := (vvTried m3)(?x := n), nTried := nTried m3 + 1\<rparr>) n = Some j"
    using o3 j by simp_all
  let ?j = "j\<lparr>fInTried := True\<rparr>"
  have js: "tried_slot E (nKey m3) ?j = ?x"
    unfolding k3 by (rule slot_cong) (simp_all add: jf)
  have info: "info_of m' = (info_of m3)(n \<mapsto> ?j)" unfolding m'_def by (simp add: info_of_upd [OF o3' j'])
  have views: "ips m' = ips m3" "positions m' = positions m3" "tried_slots E m' = (tried_slots E m3)(n \<mapsto> ?x)"
    "new_slots E m' = (new_slots E m3)(n := None)"
    using views_at [OF j(1)] unfolding m'_def by (auto simp: views_upd [OF o3' j'] js fun_eq_iff)
  have t3: "tried_slots E m3 n = None" "new_slots E m3 n = Some (fst (new_slot E (nKey m3) j), 0)"
    using views_at [OF j(1)] jf i(2) r0 by (simp_all add: new_slot_def)
  have "new_ok ({n} - {n}) 1 (new_slots E m') (vvNew m3) (nNew m3 - 1)"
    unfolding views by (rule new_drop [OF am_midD(5) [OF m3(2)] finite_slots(2) t3(2)])
  then have nw: "new_ok {} 0 (new_slots E m') (vvNew m3) (nNew m3)"
    using new_ok_count [of "{}" 1 _ _ "nNew m3 - 1" "nNew m3" 0] by simp
  have "stats_of ?j" using am_midD(6) [OF m3(2) j(1)] jf i(3) r0 by (simp add: stats_of_def)
  then have "am_ok E m'"
    unfolding am_ok_def using m3(2) nw tried_insert [OF am_midD(4) [OF m3(2)] finite_slots(1) t3(1) n0 m3(3)]
    by (intro am_midI) (auto simp: views am_mid_def info, auto simp: m'_def split: if_splits)
  moreover have "\<exists>j. info_of m' q = Some j \<and> ip j = ip qi \<and> port j = port qi"
    if q: "info_of m q = Some qi" "fInTried qi" for q qi
  proof -
    have qn: "q \<noteq> n" using q i by auto
    then obtain q1 where q1: "info_of m1 q = Some q1" "no_pos q1 = no_pos qi" using frame_Some [OF u(2) _ q(1)] by auto
    note f = no_pos_fields [OF q1(2)]
    have "info_of m2 q = Some q1" by (simp add: m2_def q1(1))
    from tried3 [OF this] show ?thesis using f q(2) qn by (simp add: info)
  qed
  ultimately show ?thesis
    using that [OF mt, of ?j] jf by (simp add: info)
qed

end
