(* ===== verification/AddrOps.thy ===== *)
theory AddrOps
  imports AddrManProps
begin

text \<open>
  Every operation of the address manager keeps its invariant, and none of their assertions
  fails; the consistency check of the code (\<open>Check_\<close>) accepts every manager in which the invariant holds.
\<close>

section \<open>Finding and creating\<close>

lemma am_Find_Some:
  assumes "am_mid E D k m" "am_Find m a = Some n"
  obtains i where "info_of m n = Some i" "ip i = a"
proof -
  obtain i where i: "mapAddr m a = Some n" "info_of m n = Some i"
    using assms(2) by (auto simp: am_Find_def split: option.splits if_splits)
  then have "ips m n = Some a" using am_midD(2) [OF assms(1)] unfolding index_ok_def by blast
  then show ?thesis using that i views_at(1) [OF i(2)] by simp
qed

lemma am_Find_None:
  assumes "am_mid E D k m" "am_Find m a = None"
  shows "mapAddr m a = None"
proof (rule ccontr)
  assume "mapAddr m a \<noteq> None"
  then obtain n where n: "mapAddr m a = Some n" by auto
  then have "ips m n = Some a" using am_midD(2) [OF assms(1)] unfolding index_ok_def by blast
  then show False using assms(2) n by (auto simp: am_Find_def ips_def)
qed

lemma Create_ok:
  assumes m: "am_mid E D k m" and a: "am_Find m (ip addr) = None" "nIdCount m < 2 ^ 31 - 1"
  obtains m' i where "Create addr src m = (nIdCount m, m')" "am_mid E (insert (nIdCount m) D) (k + 1) m'"
    "info_of m' (nIdCount m) = Some i" "\<not> fInTried i" "nRefCount i = 0" "nNew m' = nNew m" "nLastTry i = 0"
    "nLastSuccess i = 0" "ip i = ip addr" "port i = port addr" "source i = src"
    "info_of m' = (info_of m)(nIdCount m \<mapsto> i)" "info_of m (nIdCount m) = None"
proof -
  let ?n = "nIdCount m" and ?l = "int (length (vRandom m))"
  let ?i = "(CAddrInfo_new addr src)\<lparr>nRandomPos := ?l\<rparr>"
  note o = am_midD(1) [OF m] and idx = am_midD(2) [OF m]
  have c: "0 \<le> ?n" using idx by (simp add: index_ok_def)
  have fresh: "info_of m ?n = None"
    using idx unfolding index_ok_def ips_def by (metis less_irrefl map_option_is_None not_None_eq)
  define m' where "m' = snd (Create addr src m)"
  have cr: "Create addr src m = (?n, m')" by (simp add: Create_def m'_def Let_def)
  have fields: "nKey m' = nKey m" "nIdCount m' = ?n + 1" "mapAddr m' = (mapAddr m)(ip addr \<mapsto> ?n)"
    "vRandom m' = vRandom m @ [?n]" "nTried m' = nTried m" "vvTried m' = vvTried m" "nNew m' = nNew m"
    "vvNew m' = vvNew m" "omap_ok (mapInfo m')" "info_of m' = (info_of m)(?n \<mapsto> ?i)"
    using o by (simp_all add: m'_def Create_def Let_def upd_info_def info_at_def)
  have views: "ips m' = (ips m)(?n \<mapsto> ip addr)" "positions m' = (positions m)(?n \<mapsto> ?l)"
    "tried_slots E m' = tried_slots E m" "new_slots E m' = (new_slots E m)(?n \<mapsto> (fst (new_slot E (nKey m) ?i), 0))"
    using views_none [OF fresh]
    by (auto simp: fun_eq_iff ips_def positions_def tried_slots_def new_slots_def new_slot_def fields
        CAddrInfo_new_def split: option.split)
  have no: "mapAddr m (ip addr) = None" by (rule am_Find_None [OF m a(1)])
  have iff: "mapAddr m a = Some r \<longleftrightarrow> ips m r = Some a" for a r
    using idx unfolding index_ok_def by blast
  then have no2: "ips m r \<noteq> Some (ip addr)" for r using no by (metis option.distinct(1))
  have "index_ok (ips m') (mapAddr m') (nIdCount m')"
    unfolding index_ok_def views fields
  proof (intro conjI allI impI)
    show "0 \<le> ?n + 1" "?n + 1 \<le> 2 ^ 31 - 1" using c a(2) by simp_all
    fix r q
    show "0 \<le> r" "r < ?n + 1" if "((ips m)(?n \<mapsto> ip addr)) r = Some q"
      using that idx c unfolding index_ok_def by (cases "r = ?n"; force)+
    show "((mapAddr m)(ip addr \<mapsto> ?n)) q = Some r \<longleftrightarrow> ((ips m)(?n \<mapsto> ip addr)) r = Some q"
      using iff [of q r] no2 [of r] views_none(1) [OF fresh] by (cases "q = ip addr"; cases "r = ?n") auto
  qed
  moreover have "order_ok (positions m') (vRandom m')"
    unfolding views fields by (rule order_append [OF am_midD(3) [OF m] views_none(2) [OF fresh]])
  moreover have "new_ok (insert ?n D) (k + 1) (new_slots E m') (vvNew m') (nNew m')"
    unfolding views fields by (rule new_enter [OF am_midD(5) [OF m] finite_slots(2) views_none(4) [OF fresh] c])
  moreover have "stats_of q" if "info_of m' r = Some q" for r q
    using that am_midD(6) [OF m, of r q] by (auto simp: fields stats_of_def CAddrInfo_new_def split: if_splits)
  ultimately have "am_mid E (insert ?n D) (k + 1) m'"
    using am_midD(4,7) [OF m] by (intro am_midI) (simp_all add: fields views)
  then show ?thesis using that [OF cr, of ?i] fresh by (simp add: fields CAddrInfo_new_def)
qed

section \<open>Add\<close>

lemma am_mid_count:
  assumes "am_mid E D k m" "nNew m + k = c + k'"
  shows "am_mid E D k' (m\<lparr>nNew := c\<rparr>)"
  using assms new_ok_count [of D k "new_slots E m" "vvNew m" "nNew m" c k'] by (simp add: am_mid_def)

lemma place_new_ok:
  assumes m: "am_mid E D 0 m" and D: "D \<subseteq> {n}" and i: "info_of m n = Some i" "\<not> fInTried i" "nRefCount i < 8"
  obtains m' where "place_new E nNow src n m = Some m'" "am_ok E m'" "nIdCount m' = nIdCount m"
    "\<And>q qi. info_of m q = Some qi \<Longrightarrow> fInTried qi \<Longrightarrow> \<exists>j. info_of m' q = Some j \<and> no_pos j = no_pos qi"
proof -
  let ?b = "GetNewBucket E (nKey m) i src"
  let ?x = "(?b, GetBucketPosition E (nKey m) True ?b i)"
  let ?clear = "vvNew m ?x = -1 \<or> IsTerrible nNow (info_at m (vvNew m ?x)) \<or>
     (nRefCount (info_at m (vvNew m ?x)) > 1 \<and> nRefCount i = 0)"
  have fin: "am_ok E m2" if "am_mid E (D - {n}) 0 m2" for m2
    unfolding am_ok_def by (rule am_mid_D_mono [OF that]) (use D in auto)
  have n0: "0 \<le> n" using am_midD(2) [OF m] views_at(1) [OF i(1)] unfolding index_ok_def by blast
  have eq: "place_new E nNow src n m =
     (if vvNew m ?x \<noteq> n then
        (if ?clear then
           (case ClearNew ?x m of None \<Rightarrow> None
            | Some m \<Rightarrow> Some ((upd_info n (\<lambda>i. i\<lparr>nRefCount := nRefCount i + 1\<rparr>) m)\<lparr>
                vvNew := (vvNew (upd_info n (\<lambda>i. i\<lparr>nRefCount := nRefCount i + 1\<rparr>) m))(?x := n)\<rparr>))
         else if nRefCount i = 0 then Delete n m else Some m)
      else Some m)"
    by (simp only: place_new_def Let_def info_at_Some [OF i(1)])
  consider (same) "vvNew m ?x = n" | (clear) "vvNew m ?x \<noteq> n" ?clear | (drop) "vvNew m ?x \<noteq> n" "\<not> ?clear" "nRefCount i = 0"
    | (keep) "vvNew m ?x \<noteq> n" "\<not> ?clear" "nRefCount i \<noteq> 0"
    by blast
  then show ?thesis
  proof cases
    case same
    then have "nRefCount i \<noteq> 0" using unreferenced [OF m i(1,2)] by blast
    then have "am_mid E (D - {n}) 0 m" using am_mid_shrink [OF m, of n] i(1) by simp
    then show ?thesis using that [of m] fin same by (simp add: eq)
  next
    case clear
    obtain m1 where m1: "ClearNew ?x m = Some m1" "am_mid E D 0 m1" "frame {vvNew m ?x} m m1"
        "vvNew m1 = (vvNew m)(?x := -1)"
      using ClearNew_ok [OF m] by blast
    obtain j where j: "info_of m1 n = Some j" "no_pos j = no_pos i"
      using frame_Some [OF m1(3) _ i(1)] clear(1) by auto
    note jf = no_pos_fields [OF j(2)]
    have k: "nKey m1 = nKey m" "nIdCount m1 = nIdCount m" using m1(3) by (simp_all add: frame_def)
    have x: "vvNew m1 ?x = -1" "fst ?x < 1024" "snd ?x = GetBucketPosition E (nKey m1) True (fst ?x) j"
      using bucket_cong(2) [OF jf(1,2), of E "nKey m" True ?b] by (simp_all add: m1(4) k)
    have "\<not> fInTried j" "nRefCount j < 8" using jf i by simp_all
    note l = link_ok [where f = "\<lambda>i. i\<lparr>nRefCount := nRefCount i + 1\<rparr>", OF m1(2) j(1) this x refl]
    have keep: "\<exists>j. info_of ((upd_info n (\<lambda>i. i\<lparr>nRefCount := nRefCount i + 1\<rparr>) m1)\<lparr>vvNew := (vvNew m1)(?x := n)\<rparr>) q =
        Some j \<and> no_pos j = no_pos qi" if q: "info_of m q = Some qi" "fInTried qi" for q qi
    proof -
      have "q \<notin> {vvNew m ?x}" "q \<noteq> n" using tried_not_new [OF m q, of ?x] q i by auto
      then show ?thesis using frame_Some [OF m1(3) _ q(1)] unfolding l(2) by (metis fun_upd_other)
    qed
    show ?thesis
      by (rule that [OF _ fin [OF l(1)] _ keep]) (use clear in \<open>simp_all add: eq m1(1) k\<close>)
  next
    case drop
    obtain m' where d: "Delete n m = Some m'" "am_mid E (D - {n}) 0 m'" "frame {n} m m'"
      using Delete_ok [OF m i(1,2) drop(3)] by blast
    have keep: "\<exists>j. info_of m' q = Some j \<and> no_pos j = no_pos qi" if q: "info_of m q = Some qi" "fInTried qi" for q qi
    proof -
      have "q \<notin> {n}" using q i by auto
      then show ?thesis using frame_Some [OF d(3) _ q(1)] by blast
    qed
    show ?thesis
      by (rule that [OF _ fin [OF d(2)] _ keep]) (use drop d in \<open>simp_all add: eq frame_def\<close>)
  next
    case keep
    then have "am_mid E (D - {n}) 0 m" using am_mid_shrink [OF m, of n] i(1) by simp
    then show ?thesis using that [of m] fin keep by (simp add: eq)
  qed
qed

lemma am_ok_refs:
  assumes "am_ok E m" "info_of m n = Some i"
  shows "nRefCount i \<le> 8" "0 \<le> nRefCount i" "\<not> fInTried i \<Longrightarrow> nRefCount i \<noteq> 0"
proof -
  note m = assms(1) [unfolded am_ok_def]
  have "nRefCount i = 0" if "fInTried i" using am_midD(6) [OF m assms(2)] that by (simp add: stats_of_def)
  moreover have "nRefCount i \<le> 8 \<and> 0 \<le> nRefCount i \<and> nRefCount i \<noteq> 0" if "\<not> fInTried i"
    using new_okD [OF am_midD(5) [OF m], of n] views_at(4) [OF assms(2)] that by (fastforce simp: new_slot_def)
  ultimately show "nRefCount i \<le> 8" "0 \<le> nRefCount i" "\<not> fInTried i \<Longrightarrow> nRefCount i \<noteq> 0"
    by (cases "fInTried i"; simp)+
qed

lemma refresh_fields [simp]:
  "ip (refresh nNow addr pen i) = ip i" "port (refresh nNow addr pen i) = port i"
  "fInTried (refresh nNow addr pen i) = fInTried i" "nRefCount (refresh nNow addr pen i) = nRefCount i"
  "nRandomPos (refresh nNow addr pen i) = nRandomPos i" "nLastTry (refresh nNow addr pen i) = nLastTry i"
  "nLastSuccess (refresh nNow addr pen i) = nLastSuccess i" "source (refresh nNow addr pen i) = source i"
  by (simp_all add: refresh_def Let_def)

lemma am_Add_ok:
  assumes m: "am_ok E m" and c: "nIdCount m < 2 ^ 31 - 1"
  obtains b m' where "am_Add E nNow nRand addr src pen m = Some (b, m')" "am_ok E m'"
    "nIdCount m' \<le> nIdCount m + 1"
    "\<And>q qi. info_of m q = Some qi \<Longrightarrow> fInTried qi \<Longrightarrow>
       \<exists>j. info_of m' q = Some j \<and> fInTried j \<and> ip j = ip qi \<and> port j = port qi"
proof (cases "IsRoutable addr")
  case False
  then have st: "am_Add E nNow nRand addr src pen m = Some (False, m)" by (simp add: am_Add_def)
  show ?thesis by (rule that [OF st m]) simp_all
next
  case True
  note mid = m [unfolded am_ok_def]
  show ?thesis
  proof (cases "am_Find m (ip addr)")
    case (Some n)
    obtain i where i: "info_of m n = Some i" "ip i = ip addr" using am_Find_Some [OF mid Some] by blast
    let ?f = "refresh nNow addr pen" and ?m = "upd_info n (refresh nNow addr pen) m"
    have "stats_of (?f i)" using am_midD(6) [OF mid i(1)] by (simp add: stats_of_def)
    then have m1: "am_mid E {} 0 ?m" by (intro am_mid_stats [OF mid i(1)]) simp_all
    have info1: "info_of ?m = (info_of m)(n \<mapsto> ?f i)" by (rule info_of_upd [OF am_midD(1) [OF mid] i(1)])
    then have i1: "info_of ?m n = Some (?f i)" by simp
    have keep1: "\<exists>j. info_of ?m q = Some j \<and> fInTried j \<and> ip j = ip qi \<and> port j = port qi"
      if "info_of m q = Some qi" "fInTried qi" for q qi
      using that i(1) by (cases "q = n") (auto simp: info1)
    let ?stop = "a_nTime addr = 0 \<or> (a_nTime (?f i) \<noteq> 0 \<and> a_nTime addr \<le> a_nTime (?f i)) \<or> fInTried i \<or>
      nRefCount i = ADDRMAN_NEW_BUCKETS_PER_ADDRESS \<or>
      (2 ^ nat (nRefCount i) > (1 :: nat) \<and> GetRand nRand (2 ^ nat (nRefCount i)) \<noteq> 0)"
    have eq: "am_Add E nNow nRand addr src pen m =
        (if ?stop then Some (False, ?m) else map_option (Pair False) (place_new E nNow src n ?m))"
      by (simp only: am_Add_def Some option.case Let_def info_at_Some [OF i1] True refresh_fields) auto
    show ?thesis
    proof (cases ?stop)
      case True
      then have st: "am_Add E nNow nRand addr src pen m = Some (False, ?m)" by (simp only: eq if_True)
      show ?thesis by (rule that [OF st]) (use m1 keep1 in \<open>simp_all add: am_ok_def\<close>)
    next
      case False
      have "nRefCount i < 8" using am_ok_refs(1) [OF m i(1)] False
        by (simp add: ADDRMAN_NEW_BUCKETS_PER_ADDRESS_def)
      then have r8: "\<not> fInTried (?f i)" "nRefCount (?f i) < 8" using False by simp_all
      obtain m' where pl: "place_new E nNow src n ?m = Some m'" "am_ok E m'" "nIdCount m' = nIdCount ?m"
        and pk: "\<And>q qi. info_of ?m q = Some qi \<Longrightarrow> fInTried qi \<Longrightarrow> \<exists>j. info_of m' q = Some j \<and> no_pos j = no_pos qi"
        by (rule place_new_ok [OF m1 empty_subsetI i1 r8]) (rule that, assumption+)
      have keep: "\<exists>j. info_of m' q = Some j \<and> fInTried j \<and> ip j = ip qi \<and> port j = port qi"
        if q: "info_of m q = Some qi" "fInTried qi" for q qi
      proof -
        obtain q1 where q1: "info_of ?m q = Some q1" "fInTried q1" "ip q1 = ip qi" "port q1 = port qi"
          using keep1 [OF q] by blast
        obtain j where "info_of m' q = Some j" "no_pos j = no_pos q1" using pk [OF q1(1,2)] by blast
        then show ?thesis using no_pos_fields(1-3) [of j q1] q1 by simp
      qed
      have st: "am_Add E nNow nRand addr src pen m = Some (False, m')" unfolding eq if_not_P [OF False] pl(1) by simp
      show ?thesis by (rule that [OF st pl(2) _ keep]) (simp_all add: pl(3))
    qed
  next
    case None
    let ?n = "nIdCount m"
    obtain m1 i where cr: "Create addr src m = (?n, m1)" "am_mid E (insert ?n {}) (0 + 1) m1" "info_of m1 ?n = Some i"
        "\<not> fInTried i" "nRefCount i = 0" "nNew m1 = nNew m" "nLastTry i = 0" "nLastSuccess i = 0"
        "info_of m1 = (info_of m)(?n \<mapsto> i)" "info_of m ?n = None"
      by (rule Create_ok [OF mid None c, of src]) (rule that, assumption+)
    then have mid1: "am_mid E {?n} 1 m1" by simp
    let ?f = "\<lambda>i. i\<lparr>a_nTime := of_int (max 0 (int (unat (a_nTime i)) - pen))\<rparr>"
    define m2 where "m2 = upd_info ?n ?f m1"
    have st: "stats_of (?f i)" using cr by (simp add: stats_of_def)
    have m2: "am_mid E {?n} 1 m2" unfolding m2_def
      by (rule am_mid_stats [OF mid1 cr(3)]) (use st in simp_all)
    have m3: "am_mid E {?n} 0 (m2\<lparr>nNew := nNew m2 + 1\<rparr>)" by (rule am_mid_count [OF m2]) simp
    have i3: "info_of (m2\<lparr>nNew := nNew m2 + 1\<rparr>) ?n = Some (?f i)"
      by (simp add: m2_def info_of_upd [OF am_midD(1) [OF cr(2)] cr(3)])
    have cnt: "nIdCount m2 = ?n + 1"
      using cr(1) by (auto simp: m2_def Create_def Let_def)
    have nf: "\<not> fInTried (?f i)" "nRefCount (?f i) < 8" using cr(4,5) by simp_all
    obtain m' where pl: "place_new E nNow src ?n (m2\<lparr>nNew := nNew m2 + 1\<rparr>) = Some m'" "am_ok E m'"
        "nIdCount m' = nIdCount (m2\<lparr>nNew := nNew m2 + 1\<rparr>)"
      and pk: "\<And>q qi. info_of (m2\<lparr>nNew := nNew m2 + 1\<rparr>) q = Some qi \<Longrightarrow> fInTried qi \<Longrightarrow>
        \<exists>j. info_of m' q = Some j \<and> no_pos j = no_pos qi"
      by (rule place_new_ok [OF m3 subset_refl i3 nf]) (rule that, assumption+)
    have keep: "\<exists>j. info_of m' q = Some j \<and> fInTried j \<and> ip j = ip qi \<and> port j = port qi"
      if q: "info_of m q = Some qi" "fInTried qi" for q qi
    proof -
      have "q \<noteq> ?n" using q cr(10) by auto
      then have "info_of (m2\<lparr>nNew := nNew m2 + 1\<rparr>) q = Some qi"
        using q by (simp add: m2_def info_of_upd [OF am_midD(1) [OF cr(2)] cr(3)] cr(9))
      then obtain j where "info_of m' q = Some j" "no_pos j = no_pos qi" using pk q(2) by blast
      then show ?thesis using no_pos_fields(1-3) [of j qi] q(2) by simp
    qed
    have st: "am_Add E nNow nRand addr src pen m = Some (True, m')" using True pl(1)
      by (simp add: am_Add_def None Let_def cr(1) m2_def)
    show ?thesis by (rule that [OF st pl(2) _ keep]) (simp_all add: pl(3) cnt)
  qed
qed

section \<open>Good, Attempt and Connected\<close>

lemma refs_ex:
  assumes "refs t n \<noteq> 0"
  obtains x where "t x = n"
proof -
  have "\<exists>x. t x = n"
  proof (rule ccontr)
    assume "\<nexists>x. t x = n"
    then have "{x. t x = n} = {}" by blast
    then have "refs t n = 0" by (simp only: refs_def card.empty of_nat_0)
    then show False using assms by blast
  qed
  then show ?thesis using that by blast
qed

lemma GetRand_less: "0 < n \<Longrightarrow> GetRand r n < n"
  by (simp add: GetRand_def)

lemma am_Good_ok:
  assumes m: "am_ok E m" and t: "0 < nTime"
  obtains m' where "am_Good E nRand addr nTime m = Some m'" "am_ok E m'"
    "\<And>q qi. info_of m q = Some qi \<Longrightarrow> fInTried qi \<Longrightarrow> \<exists>j. info_of m' q = Some j \<and> ip j = ip qi \<and> port j = port qi"
    "\<And>q qi. info_of m q = Some qi \<Longrightarrow> CService_eq qi addr \<Longrightarrow>
       \<exists>j. info_of m' q = Some j \<and> fInTried j \<and> CService_eq j addr \<and> nLastSuccess j = nTime"
proof (cases "am_Find m (ip addr)")
  case None
  note mid = m [unfolded am_ok_def]
  have "mapAddr m (ip addr) = None" by (rule am_Find_None [OF mid None])
  then have "ips m q \<noteq> Some (ip addr)" for q using am_midD(2) [OF mid] unfolding index_ok_def by (metis option.distinct(1))
  then have no: "\<not> CService_eq qi addr" if "info_of m q = Some qi" for q qi
    using views_at(1) [OF that] by (auto simp: CService_eq_def)
  have st: "am_Good E nRand addr nTime m = Some m" by (simp add: am_Good_def None)
  show ?thesis by (rule that [OF st m]) (use no in auto)
next
  case (Some n)
  note mid = m [unfolded am_ok_def]
  obtain i where i: "info_of m n = Some i" "ip i = ip addr" using am_Find_Some [OF mid Some] by blast
  let ?f = "\<lambda>i. i\<lparr>nLastSuccess := nTime, nLastTry := nTime, a_nTime := of_int nTime, nAttempts := 0\<rparr>"
  let ?m = "upd_info n ?f m"
  have st: "stats_of (?f i)" using am_midD(6) [OF mid i(1)] t by (simp add: stats_of_def)
  have m1: "am_ok E ?m" unfolding am_ok_def by (rule am_mid_stats [OF mid i(1)]) (use st in simp_all)
  have i1: "info_of ?m n = Some (?f i)" by (rule info_of_upd [OF am_midD(1) [OF mid] i(1), THEN fun_cong, of ?f n, simplified])
  let ?found = "find (\<lambda>nB. vvNew ?m (nB, GetBucketPosition E (nKey ?m) True nB (?f i)) = n)
    (map (\<lambda>k. (k + GetRand nRand ADDRMAN_NEW_BUCKET_COUNT) mod ADDRMAN_NEW_BUCKET_COUNT) [0..<ADDRMAN_NEW_BUCKET_COUNT])"
  have eq: "am_Good E nRand addr nTime m =
      (if \<not> CService_eq i addr then Some m
       else if fInTried (?f i) then Some ?m
       else (case ?found of None \<Rightarrow> Some ?m | Some nUBucket \<Rightarrow> MakeTried E n ?m))"
    by (simp only: am_Good_def Some option.case Let_def info_at_Some [OF i(1)] info_at_Some [OF i1])
  have only: "q = n" if "info_of m q = Some qi" "CService_eq qi addr" for q qi
  proof -
    have "ips m q = Some (ip addr)" "ips m n = Some (ip addr)"
      using views_at(1) [OF that(1)] views_at(1) [OF i(1)] that(2) i(2) by (simp_all add: CService_eq_def)
    then show ?thesis using am_midD(2) [OF mid] unfolding index_ok_def by (metis option.inject)
  qed
  have info1: "info_of ?m = (info_of m)(n \<mapsto> ?f i)" by (rule info_of_upd [OF am_midD(1) [OF mid] i(1)])
  have keep1: "\<exists>j. info_of ?m q = Some j \<and> fInTried j \<and> ip j = ip qi \<and> port j = port qi"
    if "info_of m q = Some qi" "fInTried qi" for q qi
    using that i(1) by (cases "q = n") (auto simp: info1)
  show ?thesis
  proof (cases "CService_eq i addr \<and> \<not> fInTried i")
    case False
    show ?thesis
    proof (cases "CService_eq i addr")
      case True
      with False have st: "am_Good E nRand addr nTime m = Some ?m" by (simp add: eq)
      have good: "\<exists>j. info_of ?m q = Some j \<and> fInTried j \<and> CService_eq j addr \<and> nLastSuccess j = nTime"
        if q: "info_of m q = Some qi" "CService_eq qi addr" for q qi
        using only [OF q] True False by (simp add: info1 CService_eq_def)
      show ?thesis by (rule that [OF st m1]) (use keep1 good in blast)+
    next
      case False
      then have st: "am_Good E nRand addr nTime m = Some m" by (simp add: eq)
      have no: "\<not> CService_eq qi addr" if "info_of m q = Some qi" for q qi
        using only [OF that] that i(1) False by auto
      show ?thesis by (rule that [OF st m]) (use no in auto)
    qed
  next
    case True
    then have e: "CService_eq i addr" "\<not> fInTried i" by simp_all
    have found: "?found \<noteq> None"
    proof
      assume none: "?found = None"
      have n0: "n \<noteq> -1" using am_midD(2) [OF mid] views_at(1) [OF i(1)] unfolding index_ok_def by fastforce
      have "nRefCount (?f i) \<noteq> 0" using am_ok_refs(3) [OF m i(1)] e by simp
      moreover have "new_slots E ?m n = Some (new_slot E (nKey ?m) (?f i))" using views_at(4) [OF i1] e by simp
      ultimately have "refs (vvNew ?m) n \<noteq> 0"
        using new_okD(2) [OF am_midD(5) [OF m1 [unfolded am_ok_def]]] by (fastforce simp: new_slot_def)
      then obtain x where x: "vvNew ?m x = n" by (rule refs_ex)
      have "fst x < 1024" "snd x = GetBucketPosition E (nKey ?m) True (fst x) (?f i)"
        using new_cell_range [OF am_midD(5) [OF m1 [unfolded am_ok_def]], of x] x n0
          views_at(4) [OF i1, of E] e by (auto simp: new_slot_def)
      then have hit: "vvNew ?m (fst x, GetBucketPosition E (nKey ?m) True (fst x) (?f i)) = n" "fst x < 1024"
        using x by (metis prod.collapse)+
      define r where "r = GetRand nRand ADDRMAN_NEW_BUCKET_COUNT"
      have r: "r < 1024" unfolding r_def ADDRMAN_NEW_BUCKET_COUNT_def by (rule GetRand_less) simp
      have "\<exists>k < 1024. (k + r) mod 1024 = fst x"
      proof (cases "r \<le> fst x")
        case True
        then show ?thesis using hit(2) by (intro exI [of _ "fst x - r"]) auto
      next
        case False
        then show ?thesis using hit(2) r by (intro exI [of _ "fst x + 1024 - r"]) auto
      qed
      then obtain k where k: "k < 1024" "(k + r) mod 1024 = fst x" by blast
      then have "fst x \<in> set (map (\<lambda>k. (k + r) mod ADDRMAN_NEW_BUCKET_COUNT) [0..<ADDRMAN_NEW_BUCKET_COUNT])"
        unfolding ADDRMAN_NEW_BUCKET_COUNT_def by (simp add: image_iff) (rule bexI [of _ k], simp_all)
      then show False using none hit(1) unfolding find_None_iff r_def by blast
    qed
    have "\<not> fInTried (?f i)" "nLastSuccess (?f i) \<noteq> 0" using e t by simp_all
    then obtain m' j where mt: "MakeTried E n ?m = Some m'" "am_ok E m'" "info_of m' n = Some j" "fInTried j"
        "ip j = ip (?f i)" "port j = port (?f i)" "nLastSuccess j = nLastSuccess (?f i)"
      and mk: "\<And>q qi. info_of ?m q = Some qi \<Longrightarrow> fInTried qi \<Longrightarrow> \<exists>j. info_of m' q = Some j \<and> ip j = ip qi \<and> port j = port qi"
      by (rule MakeTried_ok [OF m1 i1]) (rule that, assumption+)
    have st: "am_Good E nRand addr nTime m = Some m'" using e found mt(1) unfolding eq by auto
    have keep: "\<exists>j. info_of m' q = Some j \<and> ip j = ip qi \<and> port j = port qi" if q: "info_of m q = Some qi" "fInTried qi" for q qi
      using keep1 [OF q] mk by metis
    have good: "\<exists>j. info_of m' q = Some j \<and> fInTried j \<and> CService_eq j addr \<and> nLastSuccess j = nTime"
      if q: "info_of m q = Some qi" "CService_eq qi addr" for q qi
      using only [OF q] mt(3-7) e(1) by (simp add: CService_eq_def)
    show ?thesis by (rule that [OF st mt(2)]) (use keep good in blast)+
  qed
qed

lemma am_Attempt_ok:
  assumes m: "am_ok E m" and t: "0 \<le> nTime"
  shows "am_ok E (am_Attempt addr nTime m)"
proof (cases "am_Find m (ip addr)")
  case (Some n)
  note mid = m [unfolded am_ok_def]
  obtain i where i: "info_of m n = Some i" using am_Find_Some [OF mid Some] by blast
  have "stats_of (i\<lparr>nLastTry := nTime, nAttempts := nAttempts i + 1\<rparr>)"
    using am_midD(6) [OF mid i] t by (simp add: stats_of_def)
  then have "am_mid E {} 0 (upd_info n (\<lambda>i. i\<lparr>nLastTry := nTime, nAttempts := nAttempts i + 1\<rparr>) m)"
    by (intro am_mid_stats [OF mid i]) simp_all
  then show ?thesis using m by (simp add: am_Attempt_def Some am_ok_def)
qed (simp add: am_Attempt_def m)

lemma am_Connected_ok:
  assumes m: "am_ok E m"
  shows "am_ok E (am_Connected addr nTime m)"
proof (cases "am_Find m (ip addr)")
  case (Some n)
  note mid = m [unfolded am_ok_def]
  obtain i where i: "info_of m n = Some i" using am_Find_Some [OF mid Some] by blast
  have "stats_of (i\<lparr>a_nTime := of_int nTime\<rparr>)" using am_midD(6) [OF mid i] by (simp add: stats_of_def)
  then have "am_mid E {} 0 (upd_info n (\<lambda>i. i\<lparr>a_nTime := of_int nTime\<rparr>) m)"
    by (intro am_mid_stats [OF mid i]) simp_all
  then show ?thesis using m by (simp add: am_Connected_def Some am_ok_def Let_def)
qed (simp add: am_Connected_def m)

section \<open>Choosing addresses\<close>

lemma order_entry:
  assumes "order_ok (positions m) (vRandom m)" "j < length (vRandom m)"
  obtains i where "info_of m (vRandom m ! j) = Some i" "nRandomPos i = int j"
proof -
  have "positions m (vRandom m ! j) = Some (int j)" using assms unfolding order_ok_def by blast
  then show ?thesis using that by (auto simp: positions_def)
qed

text \<open>
  What the loop returns are the good entries at the places it has passed, which it does not
  touch again: different entries, none of them terrible.
\<close>

lemma GetAddr_loop_ok:
  assumes "am_ok E m" "n \<le> length (vRandom m)"
    and "length vAddr \<le> nNodes" "distinct (map ip vAddr)"
    and "\<forall>ai \<in> set vAddr. \<not> IsTerrible nNow ai \<and> (\<exists>j < n. \<exists>i. info_of m (vRandom m ! j) = Some i \<and> no_pos i = no_pos ai)"
  shows "\<exists>v m'. GetAddr_loop nNow rnd nNodes [n..<length (vRandom m)] vAddr m = Some (v, m') \<and> am_ok E m' \<and>
    frame {} m m' \<and> vvNew m' = vvNew m \<and> mapAddr m' = mapAddr m \<and> length v \<le> nNodes \<and> distinct (map ip v) \<and>
    (\<forall>ai \<in> set v. \<not> IsTerrible nNow ai \<and> (\<exists>k i. info_of m k = Some i \<and> no_pos i = no_pos ai))"
  using assms
proof (induction "length (vRandom m) - n" arbitrary: n m vAddr)
  case 0
  then have "\<forall>ai \<in> set vAddr. \<not> IsTerrible nNow ai \<and> (\<exists>k i. info_of m k = Some i \<and> no_pos i = no_pos ai)" by blast
  then show ?case using 0 by simp
next
  case (Suc d)
  let ?l = "length (vRandom m)" and ?r = "GetRand (rnd n) (length (vRandom m) - n) + n"
  note mid = Suc.prems(1) [unfolded am_ok_def]
  have n: "n < ?l" using Suc.hyps(2) by simp
  then have r: "?r < ?l" "n \<le> ?r" using GetRand_less [of "?l - n" "rnd n"] by linarith+
  have u: "[n..<?l] = n # [Suc n..<?l]" using n by (rule upt_conv_Cons)
  show ?case
  proof (cases "length vAddr \<ge> nNodes")
    case True
    have "\<forall>ai \<in> set vAddr. \<not> IsTerrible nNow ai \<and> (\<exists>k i. info_of m k = Some i \<and> no_pos i = no_pos ai)"
      using Suc.prems(5) by blast
    then show ?thesis using Suc.prems(1-4) True unfolding u by simp
  next
    case False
    obtain m1 where m1: "SwapRandom n ?r m = Some m1" "am_mid E {} 0 m1" "frame {} m m1" "vvNew m1 = vvNew m"
        "mapAddr m1 = mapAddr m" "vRandom m1 = (vRandom m)[n := vRandom m ! ?r, ?r := vRandom m ! n]"
      using SwapRandom_ok [OF mid n r(1)] by blast
    have l1: "length (vRandom m1) = ?l" by (simp add: m1(6))
    have old: "vRandom m1 ! j = vRandom m ! j" if "j < n" for j using that r(2) by (simp add: m1(6))
    obtain ai where ai: "info_of m1 (vRandom m1 ! n) = Some ai" "nRandomPos ai = int n"
      using order_entry [OF am_midD(3) [OF m1(2)], of n] n l1 by auto
    define v1 where "v1 = (if \<not> IsTerrible nNow ai then vAddr @ [ai] else vAddr)"
    have step: "GetAddr_loop nNow rnd nNodes [n..<?l] vAddr m =
        GetAddr_loop nNow rnd nNodes [Suc n..<length (vRandom m1)] v1 m1"
      using False by (simp add: u m1(1) ai(1) v1_def l1)
    have earlier: "\<exists>j < n. \<exists>i. info_of m1 (vRandom m1 ! j) = Some i \<and> no_pos i = no_pos x" if x: "x \<in> set vAddr" for x
    proof -
      obtain j i where "j < n" "info_of m (vRandom m ! j) = Some i" "no_pos i = no_pos x" using Suc.prems(5) x by blast
      then show ?thesis using frame_Some [OF m1(3)] old by (metis empty_iff)
    qed
    have new: "ip ai \<noteq> ip x" if x: "x \<in> set vAddr" for x
    proof
      assume e: "ip ai = ip x"
      obtain j i where j: "j < n" "info_of m1 (vRandom m1 ! j) = Some i" "no_pos i = no_pos x" using earlier [OF x] by blast
      have "ips m1 (vRandom m1 ! j) = Some (ip ai)" "ips m1 (vRandom m1 ! n) = Some (ip ai)"
        using views_at(1) [OF j(2)] views_at(1) [OF ai(1)] no_pos_fields(1) [OF j(3)] e by simp_all
      then have "vRandom m1 ! j = vRandom m1 ! n" using am_midD(2) [OF m1(2)] unfolding index_ok_def
        by (metis option.inject)
      then have "i = ai" using j(2) ai(1) by simp
      moreover have "positions m1 (vRandom m1 ! j) = Some (int j)"
        using am_midD(3) [OF m1(2)] j(1) n l1 unfolding order_ok_def by simp
      ultimately show False using views_at(2) [OF j(2)] ai(2) j(1) by simp
    qed
    have v1: "length v1 \<le> nNodes" "distinct (map ip v1)"
      using Suc.prems(3,4) False new by (auto simp: v1_def)
    have v1x: "\<forall>x \<in> set v1. \<not> IsTerrible nNow x \<and> (\<exists>j < Suc n. \<exists>i. info_of m1 (vRandom m1 ! j) = Some i \<and> no_pos i = no_pos x)"
    proof
      fix x assume x: "x \<in> set v1"
      consider "x \<in> set vAddr" | "x = ai" "\<not> IsTerrible nNow ai" using x by (auto simp: v1_def split: if_splits)
      then show "\<not> IsTerrible nNow x \<and> (\<exists>j < Suc n. \<exists>i. info_of m1 (vRandom m1 ! j) = Some i \<and> no_pos i = no_pos x)"
      proof cases
        case 1
        then show ?thesis using earlier [OF 1] Suc.prems(5) less_SucI by blast
      next
        case 2
        then show ?thesis using ai(1) lessI by blast
      qed
    qed
    have "d = length (vRandom m1) - Suc n" "am_ok E m1" "Suc n \<le> length (vRandom m1)"
      using Suc.hyps(2) m1(2) n l1 by (simp_all add: am_ok_def)
    from Suc.hyps(1) [OF this v1 v1x] obtain v m' where ih: "GetAddr_loop nNow rnd nNodes [Suc n..<length (vRandom m1)] v1 m1 = Some (v, m')"
        "am_ok E m'" "frame {} m1 m'" "vvNew m' = vvNew m1" "mapAddr m' = mapAddr m1" "length v \<le> nNodes" "distinct (map ip v)"
        "\<forall>x \<in> set v. \<not> IsTerrible nNow x \<and> (\<exists>k i. info_of m1 k = Some i \<and> no_pos i = no_pos x)"
      by (elim exE conjE) (rule that, assumption+)
    have "\<exists>k i. info_of m k = Some i \<and> no_pos i = no_pos x" if x: "x \<in> set v" for x
    proof -
      obtain k i where "info_of m1 k = Some i" "no_pos i = no_pos x" using bspec [OF ih(8) x] by auto
      then have "map_option no_pos (info_of m k) = Some (no_pos x)" using frame_at [OF m1(3), of k] by simp
      then show ?thesis by auto
    qed
    then have all: "\<forall>x \<in> set v. \<not> IsTerrible nNow x \<and> (\<exists>k i. info_of m k = Some i \<and> no_pos i = no_pos x)"
      using ih(8) by simp
    have same: "vvNew m' = vvNew m" "mapAddr m' = mapAddr m" using ih(4,5) m1(4,5) by simp_all
    show ?thesis unfolding step
      by (rule exI [of _ v], rule exI [of _ m'])
        (intro conjI ih(1) ih(2) frame_trans [OF m1(3) ih(3)] same ih(6) ih(7) all)
  qed
qed

definition getaddr_max :: "CAddrMan \<Rightarrow> nat" where
  "getaddr_max m = min ADDRMAN_GETADDR_MAX (ADDRMAN_GETADDR_MAX_PCT * length (vRandom m) div 100)"

lemma am_GetAddr_ok:
  assumes "am_ok E m"
  obtains v m' where "am_GetAddr nNow rnd m = Some (v, m')" "am_ok E m'" "frame {} m m'" "vvNew m' = vvNew m"
    "mapAddr m' = mapAddr m" "length v \<le> getaddr_max m" "distinct (map ip v)"
    "\<And>ai. ai \<in> set v \<Longrightarrow> \<not> IsTerrible nNow ai" "\<And>ai. ai \<in> set v \<Longrightarrow> \<exists>k i. info_of m k = Some i \<and> no_pos i = no_pos ai"
proof -
  have "am_GetAddr nNow rnd m = GetAddr_loop nNow rnd (getaddr_max m) [0..<length (vRandom m)] [] m"
    by (simp add: am_GetAddr_def Let_def getaddr_max_def min_def)
  with GetAddr_loop_ok [OF assms, of 0 "[]" "getaddr_max m" nNow rnd]
  obtain v m' where "am_GetAddr nNow rnd m = Some (v, m')" "am_ok E m'" "frame {} m m'" "vvNew m' = vvNew m"
    "mapAddr m' = mapAddr m" "length v \<le> getaddr_max m" "distinct (map ip v)"
    "\<forall>ai \<in> set v. \<not> IsTerrible nNow ai \<and> (\<exists>k i. info_of m k = Some i \<and> no_pos i = no_pos ai)"
    by auto
  then show ?thesis using that by simp
qed

section \<open>A new manager\<close>

lemma am_new_ok:
  assumes "key \<noteq> 0"
  shows "am_ok E (CAddrMan_new key)"
proof -
  let ?m = "CAddrMan_new key"
  have v: "ips ?m = Map.empty" "positions ?m = Map.empty" "tried_slots E ?m = Map.empty" "new_slots E ?m = Map.empty"
    by (simp_all add: fun_eq_iff CAddrMan_new_def Clear_def ips_def positions_def tried_slots_def new_slots_def)
  show ?thesis unfolding am_ok_def am_mid_def v
    using assms by (simp add: CAddrMan_new_def Clear_def index_ok_def order_ok_def tried_ok_def new_ok_def)
qed

section \<open>Reachable managers\<close>

text \<open>
  The states of a manager whose operations succeed. The clock is past 1970, and no more than
  \<open>2 ^ 31 - 1\<close> entries are ever created (\<open>nIdCount\<close> is an \<open>int\<close>).
\<close>

inductive am_reach :: "external \<Rightarrow> CAddrMan \<Rightarrow> bool" for E where
  start: "key \<noteq> 0 \<Longrightarrow> am_reach E (CAddrMan_new key)"
| add: "am_reach E m \<Longrightarrow> nIdCount m < 2 ^ 31 - 1 \<Longrightarrow> am_Add E nNow nRand (addr :: CAddress) src pen m = Some (b, m') \<Longrightarrow>
    am_reach E m'"
| good: "am_reach E m \<Longrightarrow> 0 < nTime \<Longrightarrow> am_Good E nRand (addr :: CService) nTime m = Some m' \<Longrightarrow> am_reach E m'"
| attempt: "am_reach E m \<Longrightarrow> 0 \<le> nTime \<Longrightarrow> am_reach E (am_Attempt (addr :: CService) nTime m)"
| connected: "am_reach E m \<Longrightarrow> am_reach E (am_Connected (addr :: CService) nTime m)"
| getaddr: "am_reach E m \<Longrightarrow> am_GetAddr nNow rnd m = Some (v, m') \<Longrightarrow> am_reach E m'"

lemma am_reach_ok: "am_reach E m \<Longrightarrow> am_ok E m"
proof (induction rule: am_reach.induct)
  case (add m nNow nRand addr src pen b m')
  then show ?case using am_Add_ok [of E m] by (metis option.inject prod.inject)
next
  case (good m nTime nRand addr m')
  then show ?case using am_Good_ok [of E m nTime nRand addr] by (metis option.inject)
next
  case (getaddr m nNow rnd v m')
  then show ?case using am_GetAddr_ok [of E m nNow rnd] by (metis option.inject prod.inject)
qed (simp_all add: am_new_ok am_Attempt_ok am_Connected_ok)

section \<open>The consistency check\<close>

lemma position_bounds:
  assumes "order_ok (positions m) (vRandom m)" "info_of m n = Some i"
  shows "0 \<le> nRandomPos i" "nRandomPos i < int (length (vRandom m))" "vRandom m ! nat (nRandomPos i) = n"
proof -
  have "0 \<le> nRandomPos i \<and> nat (nRandomPos i) < length (vRandom m) \<and> vRandom m ! nat (nRandomPos i) = n"
    using assms(1) views_at(2) [OF assms(2)] unfolding order_ok_def by blast
  then show "0 \<le> nRandomPos i" "nRandomPos i < int (length (vRandom m))" "vRandom m ! nat (nRandomPos i) = n"
    by linarith+
qed

lemma check_entries_ok:
  assumes m: "am_ok E m" and es: "omap_ok es" "\<forall>(n, i) \<in> set es. info_of m n = Some i"
    and S: "sorted_wrt (<) S" and M: "omap_ok M"
  shows "\<exists>S' M'. check_entries m es S M = Inr (S', M') \<and> sorted_wrt (<) S' \<and> omap_ok M' \<and>
    set S' = set S \<union> {n. \<exists>i. (n, i) \<in> set es \<and> fInTried i} \<and>
    map_of M' = (\<lambda>n. case map_of es n of None \<Rightarrow> map_of M n
      | Some i \<Rightarrow> if fInTried i then map_of M n else Some (nRefCount i))"
  using es S M
proof (induction es arbitrary: S M)
  case Nil
  then show ?case by simp
next
  case (Cons e es)
  obtain n i where e: "e = (n, i)" by (cases e)
  note mid = m [unfolded am_ok_def]
  have i: "info_of m n = Some i" using Cons.prems(2) e by auto
  note st = am_midD(6) [OF mid i] and rf = am_ok_refs [OF m i] and pb = position_bounds [OF am_midD(3) [OF mid] i]
  have a: "mapAddr m (ip i) = Some n" using am_midD(2) [OF mid] views_at(1) [OF i] unfolding index_ok_def by blast
  have es: "omap_ok es" "\<forall>(n, i) \<in> set es. info_of m n = Some i" "n \<notin> fst ` set es"
    using Cons.prems(1,2) by (auto simp: e)
  then have no: "map_of es n = None" by (simp add: map_of_eq_None_iff)
  show ?case
  proof (cases "fInTried i")
    case True
    have c: "check_entries m (e # es) S M = check_entries m es (sput n S) M"
      using True st pb a by (simp add: e stats_of_def)
    obtain S' M' where ih: "check_entries m es (sput n S) M = Inr (S', M')" "sorted_wrt (<) S'" "omap_ok M'"
        "set S' = set (sput n S) \<union> {n. \<exists>i. (n, i) \<in> set es \<and> fInTried i}"
        "map_of M' = (\<lambda>n. case map_of es n of None \<Rightarrow> map_of M n
           | Some i \<Rightarrow> if fInTried i then map_of M n else Some (nRefCount i))"
      using Cons.IH [OF es(1,2) sput_sorted [OF Cons.prems(3)] Cons.prems(4)] by blast
    show ?thesis unfolding c ih(1)
      by (rule exI [of _ S'], rule exI [of _ M']) (use ih(2-5) True no in \<open>auto simp: e fun_eq_iff\<close>)
  next
    case False
    have c: "check_entries m (e # es) S M = check_entries m es S (oput n (nRefCount i) M)"
      using False st pb a rf by (simp add: e stats_of_def ADDRMAN_NEW_BUCKETS_PER_ADDRESS_def)
    obtain S' M' where ih: "check_entries m es S (oput n (nRefCount i) M) = Inr (S', M')" "sorted_wrt (<) S'" "omap_ok M'"
        "set S' = set S \<union> {n. \<exists>i. (n, i) \<in> set es \<and> fInTried i}"
        "map_of M' = (\<lambda>q. case map_of es q of None \<Rightarrow> map_of (oput n (nRefCount i) M) q
           | Some j \<Rightarrow> if fInTried j then map_of (oput n (nRefCount i) M) q else Some (nRefCount j))"
      using Cons.IH [OF es(1,2) Cons.prems(3) omap_ok_oput [OF Cons.prems(4)]] by blast
    show ?thesis unfolding c ih(1)
      by (rule exI [of _ S'], rule exI [of _ M'])
        (use ih(2-5) False no Cons.prems(4) in \<open>auto simp: e fun_eq_iff split: option.split\<close>)
  qed
qed

lemma check_tried_ok:
  assumes t: "tried_ok (tried_slots E m) (vvTried m) c" and xs: "distinct xs" and S: "distinct S"
    and ids: "\<forall>n. n \<in> set S \<longleftrightarrow> n \<noteq> -1 \<and> (\<exists>x \<in> set xs. vvTried m x = n)"
  shows "check_tried E m xs S = Inr []"
  using xs S ids
proof (induction xs arbitrary: S)
  case Nil
  then show ?case by (metis check_tried.simps(1) empty_iff list.set(1) set_empty subsetI subset_empty)
next
  case (Cons x xs)
  let ?n = "vvTried m x"
  show ?case
  proof (cases "?n = -1")
    case True
    then have "\<forall>n. n \<in> set S \<longleftrightarrow> n \<noteq> -1 \<and> (\<exists>x \<in> set xs. vvTried m x = n)" using Cons.prems(3) by auto
    then show ?thesis using Cons.IH [of S] Cons.prems(1,2) True by simp
  next
    case False
    have s: "tried_slots E m ?n = Some x" using t False unfolding tried_ok_def by blast
    then obtain i where i: "info_of m ?n = Some i" "tried_slot E (nKey m) i = x"
      by (auto simp: tried_slots_def split: option.splits if_splits)
    have uniq: "y = x" if "vvTried m y = ?n" for y
    proof -
      have "tried_slots E m ?n = Some y" using t False that unfolding tried_ok_def by metis
      then show ?thesis using s by simp
    qed
    have "\<forall>n. n \<in> set (remove1 ?n S) \<longleftrightarrow> n \<noteq> -1 \<and> (\<exists>x \<in> set xs. vvTried m x = n)"
      using Cons.prems uniq by (auto simp: set_remove1_eq)
    then have "check_tried E m xs (remove1 ?n S) = Inr []" using Cons.IH Cons.prems(1,2) by simp
    moreover have "?n \<in> set S" using Cons.prems(3) False by auto
    ultimately show ?thesis using False i by (auto simp: tried_slot_def)
  qed
qed

text \<open>How many of the cells hold \<open>n\<close>.\<close>

definition cell_count :: "table \<Rightarrow> (nat \<times> nat) list \<Rightarrow> int \<Rightarrow> int" where
  "cell_count t xs n = int (length (filter (\<lambda>x. t x = n) xs))"

lemma check_new_ok:
  assumes n: "new_ok D k (new_slots E m) (vvNew m) c" and M: "omap_ok M"
    and ids: "\<forall>q. map_of M q = (if q \<noteq> -1 \<and> 0 < cell_count (vvNew m) xs q then Some (cell_count (vvNew m) xs q) else None)"
  shows "check_new E m xs M = Inr []"
  using M ids
proof (induction xs arbitrary: M)
  case Nil
  then have "map_of M = Map.empty" by (simp add: fun_eq_iff cell_count_def)
  then have "M = []" using omap_eqI [OF Nil.prems(1), of "[]"] by simp
  then show ?case by simp
next
  case (Cons x xs)
  let ?n = "vvNew m x" and ?c = "cell_count (vvNew m)"
  have cc: "?c (x # xs) q = (if ?n = q then 1 else 0) + ?c xs q" "0 \<le> ?c xs q" for q
    by (simp_all add: cell_count_def)
  show ?case
  proof (cases "?n = -1")
    case True
    have "\<forall>q. map_of M q = (if q \<noteq> -1 \<and> 0 < ?c xs q then Some (?c xs q) else None)"
      using Cons.prems(2) cc(1) True by auto
    then show ?thesis using Cons.IH [OF Cons.prems(1)] True by simp
  next
    case False
    obtain p r where p: "new_slots E m ?n = Some (p, r)" "snd x = p (fst x)" using new_cell_range [OF n False] by blast
    then obtain i where i: "info_of m ?n = Some i" "p = (\<lambda>b. GetBucketPosition E (nKey m) True b i)"
      by (auto simp: new_slots_def split: option.splits if_splits)
    have here: "map_of M ?n = Some (1 + ?c xs ?n)" using Cons.prems(2) cc [of ?n] False by simp
    let ?M = "if ?c xs ?n = 0 then oerase ?n M else oput ?n (?c xs ?n) M"
    have "omap_ok ?M" using Cons.prems(1) by simp
    moreover have "map_of ?M q = (if q \<noteq> -1 \<and> 0 < ?c xs q then Some (?c xs q) else None)" for q
      using Cons.prems cc [of q] False by (auto simp: fun_upd_apply)
    ultimately have "check_new E m xs ?M = Inr []" using Cons.IH by blast
    then show ?thesis using False here i p(2) by (simp split: if_splits)
  qed
qed

lemma distinct_cells: "distinct (cells k)"
  by (simp add: cells_def distinct_product)

lemma set_cells: "x \<in> set (cells k) \<longleftrightarrow> fst x < k \<and> snd x < 64"
  by (cases x) (auto simp: cells_def ADDRMAN_BUCKET_SIZE_def)

lemma cell_count_refs:
  assumes n: "new_ok D k (new_slots E m) (vvNew m) c" "q \<noteq> -1"
  shows "cell_count (vvNew m) (cells ADDRMAN_NEW_BUCKET_COUNT) q = refs (vvNew m) q"
proof -
  have in_cells: "x \<in> set (cells ADDRMAN_NEW_BUCKET_COUNT)" if "vvNew m x = q" for x
  proof -
    have ne: "vvNew m x \<noteq> -1" using that n(2) by simp
    obtain p r where "new_slots E m (vvNew m x) = Some (p, r)" "snd x = p (fst x)" "fst x < 1024"
      using new_cell_range [OF n(1) ne] by blast
    then show ?thesis
      by (auto simp: set_cells ADDRMAN_NEW_BUCKET_COUNT_def new_slots_def split: option.splits if_splits)
  qed
  have "length (filter (\<lambda>x. vvNew m x = q) (cells ADDRMAN_NEW_BUCKET_COUNT)) =
      card (set (filter (\<lambda>x. vvNew m x = q) (cells ADDRMAN_NEW_BUCKET_COUNT)))"
    by (rule distinct_card [symmetric]) (simp add: distinct_cells)
  also have "set (filter (\<lambda>x. vvNew m x = q) (cells ADDRMAN_NEW_BUCKET_COUNT)) = {x. vvNew m x = q}"
    using in_cells by auto
  finally show ?thesis by (simp add: cell_count_def refs_def)
qed

lemma am_Check_ok:
  assumes m: "am_ok E m"
  shows "am_Check E m = 0"
proof -
  note mid = m [unfolded am_ok_def]
  note o = am_midD(1) [OF mid] and ord = am_midD(3) [OF mid] and tr = am_midD(4) [OF mid] and nw = am_midD(5) [OF mid]
  have es: "\<forall>(n, i) \<in> set (mapInfo m). info_of m n = Some i" using in_omap_iff [OF o] by auto
  obtain S M where c1: "check_entries m (mapInfo m) [] [] = Inr (S, M)" "sorted_wrt (<) S" "omap_ok M"
      "set S = set [] \<union> {n. \<exists>i. (n, i) \<in> set (mapInfo m) \<and> fInTried i}"
      "map_of M = (\<lambda>n. case info_of m n of None \<Rightarrow> map_of [] n
         | Some i \<Rightarrow> if fInTried i then map_of [] n else Some (nRefCount i))"
    using check_entries_ok [OF m o es sorted_wrt.simps(1) [THEN iffD2, OF TrueI] omap_ok_simps(1)]
    by (elim exE conjE) (rule that, assumption+)
  have dS: "distinct S" using c1(2) by (simp add: strict_sorted_iff)
  have S: "set S = dom (tried_slots E m)"
    using c1(4) in_omap_iff [OF o] by (force simp: tried_slots_def split: option.splits if_splits)
  have M: "map_of M n = map_option snd (new_slots E m n)" for n
    by (simp add: c1(5) new_slots_def split: option.splits)
  then have dM: "dom (map_of M) = dom (new_slots E m)" by (auto simp: dom_def)
  have "length M = card (fst ` set M)" using c1(3) by (metis omap_ok_def distinct_card length_map set_map)
  then have lM: "int (length M) = nNew m" using nw dM by (simp add: dom_map_of_conv_image_fst new_ok_def)
  have lS: "int (length S) = nTried m" using tr S dS by (simp add: tried_ok_def distinct_card [symmetric])
  have dom_info: "dom (info_of m) = dom (tried_slots E m) \<union> dom (new_slots E m)"
    "dom (tried_slots E m) \<inter> dom (new_slots E m) = {}"
    by (auto simp: tried_slots_def new_slots_def split: option.splits if_splits)
  have "distinct (vRandom m)" using ord unfolding order_ok_def distinct_conv_nth
    by (metis of_nat_eq_iff option.inject)
  moreover have "set (vRandom m) = dom (info_of m)"
  proof (rule set_eqI)
    fix n
    show "n \<in> set (vRandom m) \<longleftrightarrow> n \<in> dom (info_of m)"
    proof
      assume "n \<in> set (vRandom m)"
      then obtain j where "j < length (vRandom m)" "vRandom m ! j = n" by (auto simp: in_set_conv_nth)
      then show "n \<in> dom (info_of m)" using order_entry [OF ord] by blast
    next
      assume "n \<in> dom (info_of m)"
      then obtain i where "info_of m n = Some i" by blast
      from position_bounds [OF ord this] show "n \<in> set (vRandom m)" by (metis nat_less_iff nth_mem)
    qed
  qed
  ultimately have "length (vRandom m) = card (dom (tried_slots E m) \<union> dom (new_slots E m))"
    using dom_info(1) by (metis distinct_card)
  then have len: "int (length (vRandom m)) = nTried m + nNew m"
    using card_Un_disjoint [OF finite_slots(1) finite_slots(2) dom_info(2)] tr nw by (simp add: tried_ok_def new_ok_def)
  have c2: "check_tried E m (cells ADDRMAN_TRIED_BUCKET_COUNT) S = Inr []"
  proof (rule check_tried_ok [OF tr distinct_cells dS], intro allI)
    fix n
    have "n \<noteq> -1" "vvTried m x = n" "x \<in> set (cells ADDRMAN_TRIED_BUCKET_COUNT)" if "tried_slots E m n = Some x" for x
      using that tr unfolding tried_ok_def
      by (fastforce simp: tried_slots_def tried_slot_def set_cells ADDRMAN_TRIED_BUCKET_COUNT_def
          split: option.splits if_splits)+
    moreover have "tried_slots E m n = Some x" if "vvTried m x = n" "n \<noteq> -1" for x
      using that tr unfolding tried_ok_def by blast
    ultimately show "n \<in> set S \<longleftrightarrow> n \<noteq> -1 \<and> (\<exists>x \<in> set (cells ADDRMAN_TRIED_BUCKET_COUNT). vvTried m x = n)"
      unfolding S by blast
  qed
  have c3: "check_new E m (cells ADDRMAN_NEW_BUCKET_COUNT) M = Inr []"
  proof (rule check_new_ok [OF nw c1(3)], intro allI)
    fix q
    show "map_of M q = (if q \<noteq> -1 \<and> 0 < cell_count (vvNew m) (cells ADDRMAN_NEW_BUCKET_COUNT) q
        then Some (cell_count (vvNew m) (cells ADDRMAN_NEW_BUCKET_COUNT) q) else None)"
    proof (cases "new_slots E m q")
      case None
      have "refs (vvNew m) q = 0" if "q \<noteq> -1"
      proof -
        have "vvNew m x \<noteq> q" for x using new_cell_range [OF nw, of x] None that by auto
        then show ?thesis by (simp add: refs_def)
      qed
      then show ?thesis using None cell_count_refs [OF nw] M by auto
    next
      case (Some y)
      obtain p r where y: "y = (p, r)" by (cases y)
      note d = new_okD [OF nw Some [unfolded y]]
      have "r \<noteq> 0" using d(4) by auto
      then show ?thesis using Some y d cell_count_refs [OF nw, of q] M by simp
    qed
  qed
  show ?thesis using c1(1) c2 c3 len lS lM am_midD(7) [OF mid] by (simp add: am_Check_def)
qed

end
