(* ===== verification/NetSpec.thy ===== *)
theory NetSpec
  imports NetAddr
begin

text \<open>
  What the operations on network addresses promise: the groups the address manager spreads its entries over
  are those of an abstract classification, and the name of a hidden service is read back as the address it names.
\<close>

section \<open>Groups\<close>

text \<open>The IPv4 address that an address is, is translated from or tunnels.\<close>

definition embedded_ipv4 :: "'a CNetAddr_scheme \<Rightarrow> byte list option" where
  "embedded_ipv4 a =
     (if IsIPv4 a \<or> IsRFC6145 a \<or> IsRFC6052 a then Some (drop 12 (ip a))
      else if IsRFC3964 a then Some (take 4 (drop 2 (ip a)))
      else if IsRFC4380 a then Some (map (\<lambda>x. x XOR 0xFF) (drop 12 (ip a)))
      else None)"

datatype network_group =
  Unroutable
| Range_v4 byte byte  \<comment> \<open>the /16 range of an IPv4 address\<close>
| Tor_nibble byte
| I2P_nibble byte
| HeNet_36 byte  \<comment> \<open>the /36 range of a tunnel broker, by its last four bits\<close>
| Range_v6 "byte list"  \<comment> \<open>the /32 range of an IPv6 address\<close>

definition network_group :: "'a CNetAddr_scheme \<Rightarrow> network_group" where
  "network_group a =
     (if \<not> IsRoutable a then Unroutable
      else case embedded_ipv4 a of
        Some v \<Rightarrow> Range_v4 (v ! 0) (v ! 1)
      | None \<Rightarrow>
          if IsTor a then Tor_nibble (drop_bit 4 (ip a ! 6))
          else if IsI2P a then I2P_nibble (drop_bit 4 (ip a ! 6))
          else if take 4 (ip a) = [0x20, 0x11, 0x04, 0x70] then HeNet_36 (drop_bit 4 (ip a ! 4))
          else Range_v6 (take 4 (ip a)))"

fun group_bytes :: "network_group \<Rightarrow> byte list" where
  "group_bytes Unroutable = [0]"
| "group_bytes (Range_v4 x y) = [1, x, y]"
| "group_bytes (Tor_nibble x) = [3, push_bit 4 x OR 15]"
| "group_bytes (I2P_nibble x) = [4, push_bit 4 x OR 15]"
| "group_bytes (HeNet_36 x) = [2, 0x20, 0x11, 0x04, 0x70, push_bit 4 x OR 15]"
| "group_bytes (Range_v6 v) = 2 # v"

lemma local_not_routable: "IsLocal a \<Longrightarrow> \<not> IsRoutable a"
  by (simp add: IsRoutable_def)

lemma high_nibble: "push_bit 4 (drop_bit 4 x) OR 15 = x OR (15 :: byte)"
  by (rule byte_bits_eqI; simp add: bit_simps)

lemma high_nibble_inj: "push_bit 4 (drop_bit 4 x) OR 15 = push_bit 4 (drop_bit 4 y) OR (15 :: byte) \<longleftrightarrow>
    drop_bit 4 x = drop_bit 4 y"
proof
  assume "push_bit 4 (drop_bit 4 x) OR 15 = push_bit 4 (drop_bit 4 y) OR (15 :: byte)"
  then have "drop_bit 4 (x OR 15) = drop_bit 4 (y OR (15 :: byte))" by (simp only: high_nibble)
  moreover have "drop_bit 4 (z OR 15) = drop_bit 4 (z :: byte)" for z
    by (rule byte_bits_eqI; simp add: bit_simps)
  ultimately show "drop_bit 4 x = drop_bit 4 y" by simp
qed simp

lemma take_4_bytes:
  "length (ip a) = 16 \<Longrightarrow> take 4 (ip a) = [GetByte a 15, GetByte a 14, GetByte a 13, GetByte a 12]"
  by (auto simp: GetByte_def take_Suc_conv_app_nth numeral_eq_Suc)

lemma GetGroup_bytes:
  assumes "length (ip a) = 16"
  shows "GetGroup a = group_bytes (network_group a)"
proof -
  have b: "GetByte a (15 - k) = ip a ! k" if "k < 16" for k using that by (simp add: GetByte_def)
  have g: "group_loop a 12 16 = [ip a ! 12, ip a ! 13]" "group_loop a 2 16 = [ip a ! 2, ip a ! 3]"
    "group_loop a 6 4 = [ip a ! 6 OR 15]" "group_loop a 0 0 = []"
    "group_loop a 0 32 = take 4 (ip a)" "group_loop a 0 36 = take 4 (ip a) @ [ip a ! 4 OR 15]"
    by (simp_all add: group_loop.simps GetByte_def take_4_bytes [OF assms])
  show ?thesis
    using assms local_not_routable [of a]
    by (simp add: GetGroup_def network_group_def embedded_ipv4_def group_of_def net_defs g Let_def
        high_nibble take_4_bytes) (simp add: GetByte_def)
qed

lemma group_bytes_inj:
  assumes "length (ip a) = 16" "length (ip b) = 16"
    and "group_bytes (network_group a) = group_bytes (network_group b)"
  shows "network_group a = network_group b"
proof -
  have len: "length v = 4" if "network_group c = Range_v6 v" "length (ip c) = 16" for c :: "'c CNetAddr_scheme" and v
    using that by (auto simp: network_group_def split: if_splits option.splits)
  have nibble: "drop_bit 4 x = drop_bit 4 y"
    if "push_bit 4 (drop_bit 4 x) OR 15 = push_bit 4 (drop_bit 4 y) OR (15 :: byte)" for x y
    using that high_nibble_inj by blast
  have form: "(\<exists>x. network_group c = Tor_nibble (drop_bit 4 x)) \<or> (\<exists>x. network_group c = I2P_nibble (drop_bit 4 x)) \<or>
      (\<exists>x. network_group c = HeNet_36 (drop_bit 4 x)) \<or> (\<exists>v. network_group c = Range_v6 v \<and> length v = 4) \<or>
      (\<exists>x y. network_group c = Range_v4 x y) \<or> network_group c = Unroutable"
    if "length (ip c) = 16" for c :: "'c CNetAddr_scheme"
    using that by (auto simp: network_group_def split: option.splits)
  from form [OF assms(1)] form [OF assms(2)] assms(3) show ?thesis
    by (elim disjE exE conjE) (auto dest: nibble)
qed

text \<open>Two addresses belong to the same group exactly when they are in the same class: unroutable, the
  same /16 range of the IPv4 address that they are, are translated from or tunnel, the same four bits
  of a hidden service, the same /36 range of the tunnel broker or the same /32 range of IPv6.\<close>

theorem network_groups:
  assumes "length (ip a) = 16" and "length (ip b) = 16"
  shows "GetGroup a = GetGroup b \<longleftrightarrow> network_group a = network_group b"
  using group_bytes_inj [OF assms] by (auto simp: GetGroup_bytes assms)

definition addr_6to4 :: CNetAddr where
  "addr_6to4 = \<lparr>ip = [0x20, 0x02, 8, 8, 4, 4] @ replicate 10 0\<rparr>"

definition addr_v4 :: CNetAddr where
  "addr_v4 = \<lparr>ip = pchIPv4 @ [8, 8, 1, 2]\<rparr>"

theorem network_groups_witness: "GetGroup addr_6to4 = GetGroup addr_v4"
proof -
  have "network_group addr_6to4 = network_group addr_v4" by code_simp
  moreover have "length (ip addr_6to4) = 16" "length (ip addr_v4) = 16" by code_simp+
  ultimately show ?thesis using network_groups [of addr_6to4 addr_v4] by blast
qed

section \<open>Names of hidden services\<close>

lemma EncodeBase32_Cons: "EncodeBase32 (x # xs) \<noteq> []"
  by (simp add: EncodeBase32_def)

lemma ends_with_append [simp]: "xs \<noteq> [] \<Longrightarrow> ends_with (xs @ suf) suf"
  by (simp add: ends_with_def)

lemma ends_with_last: "ends_with s suf \<Longrightarrow> suf \<noteq> [] \<Longrightarrow> last s = last suf"
  by (metis ends_with_def append_take_drop_id last_appendR)

lemma garlic_not_onion: "IsI2P a \<Longrightarrow> \<not> IsTor a"
  by (auto simp: IsI2P_def IsTor_def has_prefix_def pchOnionCat_def pchGarliCat_def)

text \<open>The name written for a Tor address is read back as that address. The name written for an I2P
  address is read as an address too, but as the Tor address with the same ten bytes: \<open>SetSpecial\<close> copies the
  prefix of Tor in its branch for I2P.\<close>

theorem hidden_service_names:
  assumes "length (ip a) = 16"
  shows "(IsTor a \<longrightarrow> SetSpecial c (ToStringIP numeric a) = (True, c\<lparr>ip := ip a\<rparr>)) \<and>
    (IsI2P a \<longrightarrow> SetSpecial c (ToStringIP numeric a) = (True, c\<lparr>ip := pchOnionCat @ drop 6 (ip a)\<rparr>) \<and>
       IsTor (c\<lparr>ip := pchOnionCat @ drop 6 (ip a)\<rparr>) \<and> \<not> IsI2P (c\<lparr>ip := pchOnionCat @ drop 6 (ip a)\<rparr>))"
proof -
  let ?t = "EncodeBase32 (drop 6 (ip a))"
  have t: "take 10 (drop 6 (ip a)) = drop 6 (ip a)" "length pchOnionCat = 6" "length pchGarliCat = 6"
    using assms by (simp_all add: pchOnionCat_def pchGarliCat_def)
  have ne: "?t \<noteq> []" using EncodeBase32_Cons assms by (cases "drop 6 (ip a)") simp_all
  have "\<not> ends_with (?t @ ''.oc.b32.i2p'') ''.onion''"
    using ends_with_last [of "?t @ ''.oc.b32.i2p''" "''.onion''"] by auto
  moreover have "pchOnionCat @ drop 6 (ip a) = ip a" if "IsTor a"
    using that t(2) append_take_drop_id [of 6 "ip a"] by (simp add: IsTor_def has_prefix_def)
  moreover have "IsTor (c\<lparr>ip := pchOnionCat @ drop 6 (ip a)\<rparr>)" "\<not> IsI2P (c\<lparr>ip := pchOnionCat @ drop 6 (ip a)\<rparr>)"
    by (simp_all add: IsTor_def IsI2P_def has_prefix_def t pchOnionCat_def pchGarliCat_def)
  ultimately show ?thesis
    using ne garlic_not_onion [of a] assms by (auto simp: SetSpecial_def ToStringIP_def t Let_def)
qed

definition addr_garlic :: CNetAddr where
  "addr_garlic = \<lparr>ip = pchGarliCat @ [1, 2, 3, 4, 5, 6, 7, 8, 9, 10]\<rparr>"

theorem hidden_service_names_witness:
  "ToStringIP (\<lambda>_. []) addr_garlic = ''aebagbafaydqqcik.oc.b32.i2p'' \<and>
   SetSpecial CNetAddr_Init (ToStringIP (\<lambda>_. []) addr_garlic) =
     (True, \<lparr>ip = pchOnionCat @ [1, 2, 3, 4, 5, 6, 7, 8, 9, 10]\<rparr>)"
proof -
  have "length (ip addr_garlic) = 16" "IsI2P addr_garlic" "drop 6 (ip addr_garlic) = [1, 2, 3, 4, 5, 6, 7, 8, 9, 10]"
    by code_simp+
  then have "SetSpecial CNetAddr_Init (ToStringIP (\<lambda>_. []) addr_garlic) =
      (True, CNetAddr_Init\<lparr>ip := pchOnionCat @ [1, 2, 3, 4, 5, 6, 7, 8, 9, 10]\<rparr>)"
    using hidden_service_names [of addr_garlic CNetAddr_Init "\<lambda>_. []"] by simp
  moreover have "ToStringIP (\<lambda>_. []) addr_garlic = ''aebagbafaydqqcik.oc.b32.i2p''" by code_simp
  ultimately show ?thesis by (simp add: CNetAddr_Init_def)
qed

end
