(* ===== verification/AddrSpec.thy ===== *)
theory AddrSpec
  imports AddrOps NetSpec
begin

text \<open>
  What the address manager promises: its tables stay consistent and its assertions hold through every
  sequence of operations, an address that was connected to is not forgotten by adding or promoting
  others, and what it hands out are its own entries.
\<close>

section \<open>Concrete managers\<close>

text \<open>
  A hash function that sends every address to the same place: the worst case for the tables, and
  one that can be run.
\<close>

definition flat_hash :: external where
  "flat_hash = openssl_ref\<lparr>SSL_SHA256 := (\<lambda>_. replicate 32 0)\<rparr>"

definition peer1 :: CAddress where
  "peer1 = \<lparr>ip = pchIPv4 @ [8, 8, 1, 2], port = 8333, nServices = 1, a_nTime = 1000000, nLastTry = 0\<rparr>"

definition peer2 :: CAddress where
  "peer2 = \<lparr>ip = pchIPv4 @ [9, 9, 1, 2], port = 8333, nServices = 1, a_nTime = 1000000, nLastTry = 0\<rparr>"

lemma flat_buckets [simp]:
  "GetTriedBucket flat_hash key a = 0" "GetNewBucket flat_hash key a src = 0"
  "GetBucketPosition flat_hash key f b a = 0"
proof -
  have "le_val (replicate k 0) = 0" for k by (induction k) simp_all
  then have "Hash flat_hash bs = 0" for bs by (simp add: Hash_def flat_hash_def)
  then show "GetTriedBucket flat_hash key a = 0" "GetNewBucket flat_hash key a src = 0"
    "GetBucketPosition flat_hash key f b a = 0"
    by (simp_all add: GetTriedBucket_def GetNewBucket_def GetBucketPosition_def GetCheapHash_def Let_def)
qed

lemma peers_routable: "IsRoutable peer1" "IsRoutable peer2"
  by code_simp+

lemma peers: "ip peer1 \<noteq> ip peer2" "a_nTime peer1 = 1000000" "a_nTime peer2 = 1000000" "port peer1 = 8333"
    "port peer2 = 8333" "nServices peer1 = 1" "nServices peer2 = 1"
  by (simp_all add: peer1_def peer2_def pchIPv4_def)

lemmas manager_steps = am_Add_def am_Find_def Create_def CAddrInfo_new_def upd_info_def info_at_def place_new_def
  ClearNew_def Delete_def SwapRandom_def oerase_def IsTerrible_def ADDRMAN_HORIZON_DAYS_def ADDRMAN_RETRIES_def
  ADDRMAN_MAX_FAILURES_def ADDRMAN_MIN_FAIL_DAYS_def

definition manager1 :: CAddrMan where
  "manager1 = \<lparr>nKey = 1, nIdCount = 1,
     mapInfo = [(0, \<lparr>ip = ip peer1, port = 8333, nServices = 1, a_nTime = 1000000, nLastTry = 0,
        source = ip peer1, nLastSuccess = 0, nAttempts = 0, nRefCount = 1, fInTried = False, nRandomPos = 0\<rparr>)],
     mapAddr = [ip peer1 \<mapsto> 0], vRandom = [0], nTried = 0, vvTried = (\<lambda>_. -1), nNew = 1,
     vvNew = (\<lambda>_. -1)((0, 0) := 0)\<rparr>"

lemma manager1_eq: "am_Add flat_hash 1000000 0 peer1 (ip peer1) 0 (CAddrMan_new 1) = Some (True, manager1)"
  by (simp add: manager1_def CAddrMan_new_def Clear_def manager_steps peers peers_routable Let_def)

lemma manager1_reach: "am_reach flat_hash manager1"
proof (rule am_reach.add [OF am_reach.start _ manager1_eq])
  show "nIdCount (CAddrMan_new 1) < 2 ^ 31 - 1" by (simp add: CAddrMan_new_def Clear_def)
qed simp

section \<open>Consistency\<close>

text \<open>C11: The address manager stays consistent. After any sequence of additions, promotions, attempts,
  connections and samplings, \<open>Check_\<close>, the consistency check of the code, finds nothing wrong, and none
  of the assertions in the next operation fails.\<close>

theorem address_manager_consistent:
  fixes addr :: CAddress and svc :: CService
  assumes "am_reach E m"
  shows "am_Check E m = 0 \<and>
    (nIdCount m < 2 ^ 31 - 1 \<longrightarrow> am_Add E nNow nRand addr src pen m \<noteq> None) \<and>
    (0 < nTime \<longrightarrow> am_Good E nRand svc nTime m \<noteq> None) \<and>
    am_GetAddr nNow rnd m \<noteq> None"
proof (intro conjI impI)
  note m = am_reach_ok [OF assms]
  show "am_Check E m = 0" by (rule am_Check_ok [OF m])
  show "am_Add E nNow nRand addr src pen m \<noteq> None" if "nIdCount m < 2 ^ 31 - 1"
    by (rule am_Add_ok [OF m that, of nNow nRand addr src pen]) simp
  show "am_Good E nRand svc nTime m \<noteq> None" if "0 < nTime"
    by (rule am_Good_ok [OF m that, of nRand svc]) simp
  show "am_GetAddr nNow rnd m \<noteq> None"
    by (rule am_GetAddr_ok [OF m, of nNow rnd]) simp
qed

theorem address_manager_consistent_witness:
  "am_Check flat_hash manager1 = 0 \<and>
   am_Add flat_hash 1000000 0 peer2 (ip peer2) 0 manager1 \<noteq> None \<and>
   am_Good flat_hash 0 \<lparr>ip = ip peer1, port = 8333\<rparr> 1000000 manager1 \<noteq> None"
  using address_manager_consistent [OF manager1_reach, of 1000000 0 peer2 "ip peer2" 0 1000000
      "\<lparr>ip = ip peer1, port = 8333\<rparr>" "\<lambda>_. 0"]
  by (simp add: manager1_def)

section \<open>Tried addresses\<close>

definition known :: "CAddrMan \<Rightarrow> bool \<Rightarrow> 'a CService_scheme \<Rightarrow> bool" where
  "known m tried addr \<longleftrightarrow>
     (\<exists>n i. info_of m n = Some i \<and> CService_eq i addr \<and> (tried \<longrightarrow> fInTried i))"

text \<open>C20: What was connected to is not forgotten. Marking a known service as good puts it into the tried
  table, at the cost of no tried address: the one evicted goes back to the new
  table. Adding addresses leaves every tried address in the tried table.\<close>

theorem tried_addresses_survive:
  fixes addr :: CAddress and svc other :: CService
  assumes "am_reach E m"
  shows "(0 < nTime \<longrightarrow> am_Good E nRand svc nTime m = Some m1 \<longrightarrow>
      (known m False svc \<longrightarrow> known m1 True svc) \<and> (known m True other \<longrightarrow> known m1 False other)) \<and>
    (nIdCount m < 2 ^ 31 - 1 \<longrightarrow> am_Add E nNow nRand addr src pen m = Some (b, m2) \<longrightarrow>
      known m True other \<longrightarrow> known m2 True other)"
proof (intro conjI impI)
  note m = am_reach_ok [OF assms]
  {
    assume t: "0 < nTime" and g: "am_Good E nRand svc nTime m = Some m1"
    obtain m' where m': "am_Good E nRand svc nTime m = Some m'"
      and keep: "\<And>q qi. info_of m q = Some qi \<Longrightarrow> fInTried qi \<Longrightarrow>
        \<exists>j. info_of m' q = Some j \<and> ip j = ip qi \<and> port j = port qi"
      and good: "\<And>q qi. info_of m q = Some qi \<Longrightarrow> CService_eq qi svc \<Longrightarrow>
        \<exists>j. info_of m' q = Some j \<and> fInTried j \<and> CService_eq j svc \<and> nLastSuccess j = nTime"
      by (rule am_Good_ok [OF m t, of nRand svc]) (rule that, assumption+)
    have "m' = m1" using g m' by simp
    note keep = keep [unfolded this] and good = good [unfolded this]
    show "known m1 False other" if "known m True other"
      using that keep unfolding known_def CService_eq_def by metis
    show "known m1 True svc" if "known m False svc"
      using that good unfolding known_def by metis
  }
  assume c: "nIdCount m < 2 ^ 31 - 1" and a: "am_Add E nNow nRand addr src pen m = Some (b, m2)"
    and o: "known m True other"
  obtain b' m' where m': "am_Add E nNow nRand addr src pen m = Some (b', m')"
    and keep: "\<And>q qi. info_of m q = Some qi \<Longrightarrow> fInTried qi \<Longrightarrow>
      \<exists>j. info_of m' q = Some j \<and> fInTried j \<and> ip j = ip qi \<and> port j = port qi"
    by (rule am_Add_ok [OF m c, of nNow nRand addr src pen]) (rule that, assumption+)
  have "m' = m2" using a m' by simp
  note keep = keep [unfolded this]
  show "known m2 True other"
    using o keep unfolding known_def CService_eq_def by metis
qed

definition service1 :: CService where
  "service1 = \<lparr>ip = ip peer1, port = 8333\<rparr>"

theorem tried_addresses_survive_witness:
  "\<exists>m1. am_Good flat_hash 0 service1 1000000 manager1 = Some m1 \<and> known m1 True service1"
proof -
  obtain m1 where g: "am_Good flat_hash 0 service1 1000000 manager1 = Some m1"
    by (rule am_Good_ok [OF am_reach_ok [OF manager1_reach], of 1000000 0 service1]) simp_all
  have "known manager1 False service1" by (simp add: known_def manager1_def service1_def CService_eq_def)
  then have "known m1 True service1"
    using tried_addresses_survive [OF manager1_reach, of 1000000 0 service1 m1] g by simp
  then show ?thesis using g by blast
qed

text \<open>C30: \<open>Add\<close> may report that it added an address that it does not keep: when the place of a new address is
  taken by a good entry with no other reference, the new entry is deleted again, and still the result is
  \<open>true\<close>.\<close>

theorem add_reports_lost_address:
  "\<exists>E m addr m'. am_reach E m \<and>
     am_Add E 1000000 0 (addr :: CAddress) (ip addr) 0 m = Some (True, m') \<and> am_Find m' (ip addr) = None"
proof -
  have "\<exists>m'. am_Add flat_hash 1000000 0 peer2 (ip peer2) 0 manager1 = Some (True, m') \<and> am_Find m' (ip peer2) = None"
    using peers(1) peers(1) [symmetric] by (simp add: manager1_def manager_steps peers peers_routable Let_def)
  then show ?thesis using manager1_reach by blast
qed

section \<open>Handing out addresses\<close>

text \<open>A sample for another node is small and good. \<open>GetAddr\<close> returns at most 23 percent of the entries and at most
  2500, each of another address, known to the manager and not terrible; the entries stay as they are.\<close>

theorem getaddr_sample:
  assumes "am_reach E m" and "am_GetAddr nNow rnd m = Some (v, m')"
  shows "100 * length v \<le> 23 * length (vRandom m) \<and> length v \<le> 2500 \<and> distinct (map ip v) \<and>
    (\<forall>ai \<in> set v. \<not> IsTerrible nNow ai \<and> known m False ai) \<and> am_reach E m' \<and>
    vvNew m' = vvNew m \<and> vvTried m' = vvTried m"
proof -
  obtain v1 m1 where r: "am_GetAddr nNow rnd m = Some (v1, m1)" "frame {} m m1" "vvNew m1 = vvNew m"
      "length v1 \<le> getaddr_max m" "distinct (map ip v1)"
    and good: "\<And>ai. ai \<in> set v1 \<Longrightarrow> \<not> IsTerrible nNow ai"
      "\<And>ai. ai \<in> set v1 \<Longrightarrow> \<exists>k i. info_of m k = Some i \<and> no_pos i = no_pos ai"
    by (rule am_GetAddr_ok [OF am_reach_ok [OF assms(1)], of nNow rnd]) (rule that, assumption+)
  have same: "v1 = v" "m1 = m'" using assms(2) r(1) by simp_all
  have "known m False ai" if x: "ai \<in> set v" for ai
  proof -
    obtain k i where i: "info_of m k = Some i" "no_pos i = no_pos ai" using good(2) x same by blast
    then show ?thesis using no_pos_fields(1,2) [OF i(2)] unfolding known_def CService_eq_def by auto
  qed
  moreover have l: "length v \<le> 2500" "length v \<le> 23 * length (vRandom m) div 100"
    using r(4) same by (simp_all add: getaddr_max_def ADDRMAN_GETADDR_MAX_def ADDRMAN_GETADDR_MAX_PCT_def)
  moreover have "100 * length v \<le> 23 * length (vRandom m)" 
    using l(2) div_times_less_eq_dividend [of "23 * length (vRandom m)" 100] by linarith
  moreover have "am_reach E m'" by (rule am_reach.getaddr [OF assms])
  moreover have "vvTried m' = vvTried m" using r(2) same by (simp add: frame_def)
  ultimately show ?thesis using r(3,5) good(1) same by simp
qed

theorem getaddr_sample_witness:
  "\<exists>v m'. am_GetAddr 1000000 (\<lambda>_. 0) manager1 = Some (v, m') \<and> am_reach flat_hash m' \<and> length v \<le> 2500"
proof -
  obtain v m' where r: "am_GetAddr 1000000 (\<lambda>_. 0) manager1 = Some (v, m')"
    by (rule am_GetAddr_ok [OF am_reach_ok [OF manager1_reach], of 1000000 "\<lambda>_. 0"]) simp
  then show ?thesis using getaddr_sample [OF manager1_reach r] by blast
qed

lemma probe_finds:
  "probe t k nB nP rs = Some (n, rs') \<Longrightarrow> n \<noteq> -1 \<and> (\<exists>x. t x = n)"
proof (induction t k nB nP rs rule: probe.induct)
  case (1 t buckets nB nP rs)
  show ?case
  proof (cases "t (nB, nP) \<noteq> -1")
    case True
    then show ?thesis using 1(2) probe.simps [of t buckets nB nP rs] by auto
  next
    case False
    then obtain r1 r2 qs where rs: "rs = r1 # r2 # qs"
      and "probe t buckets ((nB + r1) mod buckets) ((nP + r2) mod ADDRMAN_BUCKET_SIZE) qs = Some (n, rs')"
      using 1(2) probe.simps [of t buckets nB nP rs] by (auto split: list.splits)
    then show ?thesis using 1(1) [OF _ rs refl] False by blast
  qed
qed

lemma Select_loop_entry:
  "Select_loop lucky m t buckets k rs = Some i \<Longrightarrow> \<exists>n. info_of m n = Some i"
proof (induction lucky m t buckets k rs rule: Select_loop.induct)
  case (1 lucky m t buckets k rs)
  obtain r1 r2 qs where rs: "rs = r1 # r2 # qs"
    using 1(2) Select_loop.simps [of lucky m t buckets k rs] by (auto split: list.splits)
  obtain n qs' where p: "probe t buckets (GetRand r1 buckets) (GetRand r2 ADDRMAN_BUCKET_SIZE) qs = Some (n, qs')"
    using 1(2) Select_loop.simps [of lucky m t buckets k rs] rs by (auto split: option.splits)
  obtain info r qs'' where q: "info_of m n = Some info" "qs' = r # qs''"
    using 1(2) Select_loop.simps [of lucky m t buckets k rs] rs p by (auto split: option.splits list.splits)
  show ?case
  proof (cases "lucky k info (GetRand r (2 ^ 30))")
    case True
    then show ?thesis using 1(2) Select_loop.simps [of lucky m t buckets k rs] rs p q by auto
  next
    case False
    then have "Select_loop lucky m t buckets (k + 1) qs'' = Some i"
      using 1(2) Select_loop.simps [of lucky m t buckets k rs] rs p q by simp
    then show ?thesis using 1(1) [OF rs refl p refl q False] by blast
  qed
qed

lemma Select_loop_hits:
  assumes "t (a, b) = n" "n \<noteq> -1" "a < buckets" "b < 64" "info_of m n = Some i" "lucky 0 i 0"
  shows "Select_loop lucky m t buckets 0 [a, b, 0] = Some i"
proof -
  have "GetRand a buckets = a" "GetRand b ADDRMAN_BUCKET_SIZE = b" "GetRand 0 k = 0" for k
    using assms(3,4) by (simp_all add: GetRand_def ADDRMAN_BUCKET_SIZE_def)
  moreover have "probe t buckets a b [0] = Some (n, [0])" using assms(1,2) by (simp add: probe.simps)
  ultimately show ?thesis using assms(5,6) by (simp add: Select_loop.simps)
qed

text \<open>C31: \<open>Select\<close> returns entries of the manager, and can return every one of them: whatever it returns from a
  manager that is not empty is one of its entries, and for every entry there are random numbers with which it is chosen, provided
  its chance is not zero (the draw 0 succeeds).\<close>

theorem select_reaches_every_entry:
  assumes "am_reach E m"
  shows "(am_Select lucky m rs = Some info \<longrightarrow> vRandom m \<noteq> [] \<longrightarrow> (\<exists>n. info_of m n = Some info)) \<and>
    (info_of m n = Some i \<longrightarrow> lucky 0 i 0 \<longrightarrow> (\<exists>rs. am_Select lucky m rs = Some i))"
proof (intro conjI impI)
  assume "am_Select lucky m rs = Some info" "vRandom m \<noteq> []"
  then show "\<exists>n. info_of m n = Some info"
    by (auto simp: am_Select_def Let_def split: if_splits list.splits dest: Select_loop_entry)
next
  assume i: "info_of m n = Some i" and l: "lucky 0 i 0"
  note mid = am_reach_ok [OF assms, unfolded am_ok_def]
  have n0: "n \<noteq> -1" using am_midD(2) [OF mid] views_at(1) [OF i] unfolding index_ok_def by fastforce
  have v: "vRandom m \<noteq> []" using position_bounds [OF am_midD(3) [OF mid] i] by auto
  show "\<exists>rs. am_Select lucky m rs = Some i"
  proof (cases "fInTried i")
    case True
    let ?a = "GetTriedBucket E (nKey m) i" and ?b = "GetBucketPosition E (nKey m) False (GetTriedBucket E (nKey m) i) i"
    have s: "tried_slots E m n = Some (?a, ?b)" using views_at(3) [OF i] True by (simp add: tried_slot_def)
    then have t: "vvTried m (?a, ?b) = n" using am_midD(4) [OF mid] unfolding tried_ok_def by blast
    have "card (dom (tried_slots E m)) > 0" using s finite_slots(1) card_gt_0_iff by blast
    then have c: "nTried m > 0" using am_midD(4) [OF mid] unfolding tried_ok_def by simp
    have h: "Select_loop lucky m (vvTried m) ADDRMAN_TRIED_BUCKET_COUNT 0 [?a, ?b, 0] = Some i"
      by (rule Select_loop_hits [where t = "vvTried m", OF t n0 _ _ i]) (simp_all add: ADDRMAN_TRIED_BUCKET_COUNT_def l)
    show ?thesis
      by (rule exI [of _ "if nNew m = 0 then [?a, ?b, 0] else [0, ?a, ?b, 0]"])
        (use v c h in \<open>simp add: am_Select_def Let_def GetRand_def\<close>)
  next
    case False
    have "nRefCount i \<noteq> 0" using am_ok_refs(3) [OF am_reach_ok [OF assms] i] False by simp
    moreover have s: "new_slots E m n = Some (new_slot E (nKey m) i)" using views_at(4) [OF i] False by simp
    ultimately have "refs (vvNew m) n \<noteq> 0"
      using new_okD(2) [OF am_midD(5) [OF mid]] by (fastforce simp: new_slot_def)
    then obtain x where x: "vvNew m x = n" by (rule refs_ex)
    then have b: "fst x < 1024" "snd x < 64"
      using new_cell_range [OF am_midD(5) [OF mid], of x] n0 s by (auto simp: new_slot_def)
    have "card (dom (new_slots E m)) > 0" using s finite_slots(2) card_gt_0_iff by blast
    then have c: "nNew m \<noteq> 0" using am_midD(5) [OF mid] unfolding new_ok_def by simp
    have h: "Select_loop lucky m (vvNew m) ADDRMAN_NEW_BUCKET_COUNT 0 [fst x, snd x, 0] = Some i"
      by (rule Select_loop_hits [where t = "vvNew m", OF _ n0 _ _ i]) (use x b l in \<open>simp_all add: ADDRMAN_NEW_BUCKET_COUNT_def\<close>)
    show ?thesis
      by (rule exI [of _ "if nTried m > 0 then [1, fst x, snd x, 0] else [fst x, snd x, 0]"])
        (use v c h in \<open>simp add: am_Select_def Let_def GetRand_def\<close>)
  qed
qed

theorem select_reaches_every_entry_witness:
  "\<exists>rs i. am_Select (\<lambda>k i r. r < 1000) manager1 rs = Some i \<and> ip i = ip peer1"
  using select_reaches_every_entry [OF manager1_reach, of "\<lambda>k i r. r < 1000" "[]" CAddrInfo_default 0]
  by (fastforce simp: manager1_def)

end
