(* ===== verification/StakeKernel.thy ===== *)
theory StakeKernel
  imports BlockConnect
begin

text \<open>
  The proof-of-stake kernel (src/kernel.cpp): the stake modifier that the blocks of a chain select
  together, and the test of a coinstake against its target. The index of blocks is the map from a hash
  to the block and its ancestors; blocks and transactions on disk come from the environment.
\<close>

section \<open>Parameters\<close>

definition nModifierInterval :: u32 where "nModifierInterval = 10 * 60"
definition MODIFIER_INTERVAL_RATIO :: u32 where "MODIFIER_INTERVAL_RATIO = 3"
definition STAKE_TIMESTAMP_MASK :: int where "STAKE_TIMESTAMP_MASK = 15"

definition GetWeight :: "u32 \<Rightarrow> int \<Rightarrow> int \<Rightarrow> int \<Rightarrow> int" where
  "GetWeight minAge maxAge nIntervalBeginning nIntervalEnd =
     min (s64 (nIntervalEnd - nIntervalBeginning - int (unat minAge))) maxAge"

section \<open>The stake modifier\<close>

text \<open>The nearest ancestor that generated a modifier, or the first block.\<close>

fun last_generated :: "chain \<Rightarrow> chain" where
  "last_generated [] = []"
| "last_generated [p] = [p]"
| "last_generated (p # q # ps) =
     (if GeneratedStakeModifier p then p # q # ps else last_generated (q # ps))"

definition GetLastStakeModifier :: "chain \<Rightarrow> (uint256 \<times> int) option" where
  "GetLastStakeModifier pindex =
     (if pindex = [] then None
      else let p = hd (last_generated pindex) in
        if \<not> GeneratedStakeModifier p then None else Some (nStakeModifier p, bi_GetBlockTime p))"

text \<open>The code asserts that \<open>nSection\<close> is below 64; both callers count from 0 to 63.\<close>

definition GetStakeModifierSelectionIntervalSection :: "nat \<Rightarrow> int" where
  "GetStakeModifierSelectionIntervalSection nSection =
     int (unat (nModifierInterval * 63 div
       (63 + (63 - of_nat nSection) * (MODIFIER_INTERVAL_RATIO - 1))))"

definition GetStakeModifierSelectionInterval :: int where
  "GetStakeModifierSelectionInterval = sum_list (map GetStakeModifierSelectionIntervalSection [0..<64])"

definition selection_hash :: "external \<Rightarrow> uint256 \<Rightarrow> CBlockIndex \<Rightarrow> uint256" where
  "selection_hash E nStakeModifierPrev p =
     (let hashSelection = Hash E (bytes_of_uint256 (hashProof p) @ bytes_of_uint256 nStakeModifierPrev) in
      if bi_IsProofOfStake p then drop_bit 32 hashSelection else hashSelection)"

text \<open>
  The loop carries the best hash with its block, \<open>None\<close> while \<open>fSelected\<close> is false. The outer \<open>None\<close> of the
  result is the error return for a candidate that is not indexed. The selected blocks are kept as the map
  from their hashes.
\<close>

fun select_loop ::
  "external \<Rightarrow> (uint256 \<Rightarrow> chain option) \<Rightarrow> (uint256 \<Rightarrow> chain option) \<Rightarrow> int \<Rightarrow> uint256 \<Rightarrow>
     (int \<times> uint256) list \<Rightarrow> (uint256 \<times> chain) option \<Rightarrow> (uint256 \<times> chain) option option" where
  "select_loop E mapBlockIndex selected stop prev [] best = Some best"
| "select_loop E mapBlockIndex selected stop prev (item # items) best =
     (case mapBlockIndex (snd item) of
        None \<Rightarrow> None
      | Some pindex \<Rightarrow>
          if best \<noteq> None \<and> bi_GetBlockTime (hd pindex) > stop then Some best
          else if selected (bi_hash (hd pindex)) \<noteq> None then
            select_loop E mapBlockIndex selected stop prev items best
          else
            let h = selection_hash E prev (hd pindex) in
            (case best of
               Some (hashBest, _) \<Rightarrow>
                 if h < hashBest then select_loop E mapBlockIndex selected stop prev items (Some (h, pindex))
                 else select_loop E mapBlockIndex selected stop prev items best
             | None \<Rightarrow> select_loop E mapBlockIndex selected stop prev items (Some (h, pindex))))"

definition SelectBlockFromCandidates ::
  "external \<Rightarrow> (uint256 \<Rightarrow> chain option) \<Rightarrow> (int \<times> uint256) list \<Rightarrow> (uint256 \<Rightarrow> chain option) \<Rightarrow> int \<Rightarrow>
     uint256 \<Rightarrow> chain option" where
  "SelectBlockFromCandidates E mapBlockIndex vSortedByTimestamp mapSelectedBlocks stop prev =
     (case select_loop E mapBlockIndex mapSelectedBlocks stop prev vSortedByTimestamp None of
        None \<Rightarrow> None
      | Some best \<Rightarrow> map_option snd best)"

definition stake_candidates :: "chain \<Rightarrow> int \<Rightarrow> (int \<times> uint256) list" where
  "stake_candidates pindexPrev start =
     sort (rev (map (\<lambda>p. (bi_GetBlockTime p, bi_hash p))
       (takeWhile (\<lambda>p. bi_GetBlockTime p \<ge> start) pindexPrev)))"

fun modifier_rounds ::
  "external \<Rightarrow> (uint256 \<Rightarrow> chain option) \<Rightarrow> (int \<times> uint256) list \<Rightarrow> uint256 \<Rightarrow> nat list \<Rightarrow> int \<Rightarrow>
     (uint256 \<Rightarrow> chain option) \<Rightarrow> uint256 \<Rightarrow> uint256 option" where
  "modifier_rounds E mapBlockIndex vSorted prev [] stop selected new = Some new"
| "modifier_rounds E mapBlockIndex vSorted prev (nRound # rounds) stop selected new =
     (let stop = stop + GetStakeModifierSelectionIntervalSection nRound in
      case SelectBlockFromCandidates E mapBlockIndex vSorted selected stop prev of
        None \<Rightarrow> None
      | Some pindex \<Rightarrow>
          modifier_rounds E mapBlockIndex vSorted prev rounds stop
            (selected(bi_hash (hd pindex) \<mapsto> pindex))
            (new OR push_bit nRound (ucast (GetStakeEntropyBit (hd pindex)))))"

text \<open>The modifier and whether it is a new one; times are not negative, so \<open>div\<close> is the division of C.\<close>

definition ComputeNextStakeModifier ::
  "external \<Rightarrow> (uint256 \<Rightarrow> chain option) \<Rightarrow> chain \<Rightarrow> (uint256 \<times> bool) option" where
  "ComputeNextStakeModifier E mapBlockIndex pindexPrev =
     (if pindexPrev = [] then Some (0, True)
      else (case GetLastStakeModifier pindexPrev of
          None \<Rightarrow> None
        | Some (prev, nModifierTime) \<Rightarrow>
            let interval = int (unat nModifierInterval); now = bi_GetBlockTime (hd pindexPrev) in
            if nModifierTime div interval \<ge> now div interval then Some (prev, False)
            else
              let start = now div interval * interval - GetStakeModifierSelectionInterval;
                  vSorted = stake_candidates pindexPrev start in
              (case modifier_rounds E mapBlockIndex vSorted prev [0..<min 64 (length vSorted)] start Map.empty 0 of
                 None \<Rightarrow> None
               | Some new \<Rightarrow> Some (new, True))))"

definition ComputeStakeModifierV2 :: "external \<Rightarrow> chain \<Rightarrow> uint256 \<Rightarrow> uint256" where
  "ComputeStakeModifierV2 E pindexPrev kern =
     (if pindexPrev = [] then 0
      else Hash E (bytes_of_uint256 kern @ bytes_of_uint256 (nStakeModifier (hd pindexPrev))))"

section \<open>The kernel hash\<close>

text \<open>On success the hash of the proof and the target, as 256-bit numbers. The sum of the times is one of
  unsigned 32-bit numbers.\<close>

definition CheckStakeKernelHashV2 ::
  "external \<Rightarrow> u32 \<Rightarrow> chain \<Rightarrow> u32 \<Rightarrow> u32 \<Rightarrow> CTransaction \<Rightarrow> COutPoint \<Rightarrow> u32 \<Rightarrow> (uint256 \<times> uint256) option" where
  "CheckStakeKernelHashV2 E minAge pindexPrev nBits nTimeBlockFrom txPrev out nTimeTx =
     (if nTimeTx < tx_nTime txPrev then None
      else if nTimeBlockFrom + minAge > nTimeTx then None
      else
        let nValueIn = nValue (vout txPrev ! unat (op_n out));
            bnTarget = bn_mul E (SetCompact E nBits) (bn_of_int E nValueIn);
            hashProofOfStake = Hash E (bytes_of_uint256 (nStakeModifier (hd pindexPrev)) @
              bytes_of_u32 (tx_nTime txPrev) @ bytes_of_uint256 (op_hash out) @ bytes_of_u32 (op_n out) @
              bytes_of_u32 nTimeTx) in
        if bn_lt E bnTarget (setuint256 E hashProofOfStake) then None
        else Some (hashProofOfStake, getuint256 E bnTarget))"

definition CheckStakeKernelHash ::
  "external \<Rightarrow> u32 \<Rightarrow> chain \<Rightarrow> u32 \<Rightarrow> CBlock \<Rightarrow> CTransaction \<Rightarrow> COutPoint \<Rightarrow> u32 \<Rightarrow> (uint256 \<times> uint256) option" where
  "CheckStakeKernelHash E minAge pindexPrev nBits blockFrom txPrev out nTimeTx =
     CheckStakeKernelHashV2 E minAge pindexPrev nBits (of_int (b_GetBlockTime blockFrom)) txPrev out nTimeTx"

text \<open>\<open>CTransaction::ReadFromDisk\<close> with the output to be there.\<close>

definition read_prev_tx :: "connect_env \<Rightarrow> txdb \<Rightarrow> COutPoint \<Rightarrow> (CTransaction \<times> CTxIndex) option" where
  "read_prev_tx env txdb out =
     (case txdb (op_hash out) of
        None \<Rightarrow> None
      | Some txindex \<Rightarrow>
          (case disk_tx env (ti_pos txindex) of
             None \<Rightarrow> None
           | Some txPrev \<Rightarrow>
               if unat (op_n out) \<ge> length (vout txPrev) then None else Some (txPrev, txindex)))"

definition CheckProofOfStake ::
  "external \<Rightarrow> connect_env \<Rightarrow> txdb \<Rightarrow> chain \<Rightarrow> CTransaction \<Rightarrow> u32 \<Rightarrow> sigcache \<Rightarrow>
     (uint256 \<times> uint256) verdict \<times> sigcache" where
  "CheckProofOfStake E env txdb pindexPrev tx nBits c =
     (if \<not> IsCoinStake tx then (Rejected 0, c)
      else let txin = vin tx ! 0 in
        (case read_prev_tx env txdb (prevout txin) of
           None \<Rightarrow> (Rejected 1, c)
         | Some (txPrev, txindex) \<Rightarrow>
             (case VerifySignature E txPrev tx 0 SCRIPT_VERIFY_NONE 0 c of
                (None, c) \<Rightarrow> (Raised, c)
              | (Some False, c) \<Rightarrow> (Rejected 100, c)
              | (Some True, c) \<Rightarrow>
                  (case disk_header env (tp_nFile (ti_pos txindex)) (tp_nBlockPos (ti_pos txindex)) of
                     None \<Rightarrow> (Rejected 0, c)
                   | Some block \<Rightarrow>
                       if IsConfirmedInNPrevBlocks txindex pindexPrev (nStakeMinConfirmations env - 1) \<noteq> None
                       then (Rejected 100, c)
                       else (case CheckStakeKernelHash E (nStakeMinAge env) pindexPrev nBits block txPrev
                           (prevout txin) (tx_nTime tx) of
                         None \<Rightarrow> (Rejected 1, c)
                       | Some proof \<Rightarrow> (Accepted proof, c))))))"

definition CheckCoinStakeTimestamp :: "int \<Rightarrow> int \<Rightarrow> bool" where
  "CheckCoinStakeTimestamp nTimeBlock nTimeTx \<longleftrightarrow>
     nTimeBlock = nTimeTx \<and> nTimeTx AND STAKE_TIMESTAMP_MASK = 0"

text \<open>The answer, and what is written to \<open>*pBlockTime\<close>.\<close>

definition CheckKernel ::
  "external \<Rightarrow> connect_env \<Rightarrow> txdb \<Rightarrow> chain \<Rightarrow> u32 \<Rightarrow> int \<Rightarrow> COutPoint \<Rightarrow> bool \<times> int option" where
  "CheckKernel E env txdb pindexPrev nBits nTime out =
     (case read_prev_tx env txdb out of
        None \<Rightarrow> (False, None)
      | Some (txPrev, txindex) \<Rightarrow>
          (case disk_header env (tp_nFile (ti_pos txindex)) (tp_nBlockPos (ti_pos txindex)) of
             None \<Rightarrow> (False, None)
           | Some block \<Rightarrow>
               if b_GetBlockTime block + int (unat (nStakeMinAge env)) > nTime then (False, None)
               else if IsConfirmedInNPrevBlocks txindex pindexPrev (nStakeMinConfirmations env - 1) \<noteq> None
               then (False, None)
               else (CheckStakeKernelHash E (nStakeMinAge env) pindexPrev nBits block txPrev out
                   (of_int nTime) \<noteq> None, Some (b_GetBlockTime block))))"

end
