(* ===== verification/Checkpoints.thy ===== *)
theory Checkpoints
  imports Blocks
begin

text \<open>
  The checkpoints (src/checkpoints.cpp): the fixed blocks of the main chain and the block that trails the
  best one. A \<open>CBlockIndex*\<close> is the list of the block and its ancestors.
\<close>

definition mapCheckpoints :: "(int \<times> uint256) list" where
  "mapCheckpoints = [(0, 0x00000198707c071cdb39cc8332eccfe889013ad88b65a63673672b0bda8177e7)]"

definition mapCheckpointsTestnet :: "(int \<times> uint256) list" where
  "mapCheckpointsTestnet = []"

definition checkpoints :: "bool \<Rightarrow> (int \<times> uint256) list" where
  "checkpoints TestNet = (if TestNet then mapCheckpointsTestnet else mapCheckpoints)"

definition CheckHardened :: "bool \<Rightarrow> int \<Rightarrow> uint256 \<Rightarrow> bool" where
  "CheckHardened TestNet height h =
     (case map_of (checkpoints TestNet) height of None \<Rightarrow> True | Some h' \<Rightarrow> h = h')"

definition GetTotalBlocksEstimate :: "bool \<Rightarrow> int" where
  "GetTotalBlocksEstimate TestNet =
     (if checkpoints TestNet = [] then 0 else fst (last (checkpoints TestNet)))"

fun last_checkpoint_loop :: "(int \<times> uint256) list \<Rightarrow> (uint256 \<Rightarrow> chain option) \<Rightarrow> chain" where
  "last_checkpoint_loop [] mapBlockIndex = []"
| "last_checkpoint_loop (i # is) mapBlockIndex =
     (case mapBlockIndex (snd i) of Some c \<Rightarrow> c | None \<Rightarrow> last_checkpoint_loop is mapBlockIndex)"

definition GetLastCheckpoint :: "bool \<Rightarrow> (uint256 \<Rightarrow> chain option) \<Rightarrow> chain" where
  "GetLastCheckpoint TestNet mapBlockIndex = last_checkpoint_loop (rev (checkpoints TestNet)) mapBlockIndex"

definition nCheckpointSpan :: int where "nCheckpointSpan = 500"

fun sync_loop :: "int \<Rightarrow> chain \<Rightarrow> chain" where
  "sync_loop best_height [] = []"
| "sync_loop best_height [p] = [p]"
| "sync_loop best_height (p # q # ps) =
     (if nHeight p + nCheckpointSpan > best_height then sync_loop best_height (q # ps) else p # q # ps)"

text \<open>\<open>None\<close>: there is no best block, and the null pointer is followed.\<close>

definition AutoSelectSyncCheckpoint :: "chain \<Rightarrow> CBlockIndex option" where
  "AutoSelectSyncCheckpoint pindexBest =
     (case pindexBest of [] \<Rightarrow> None | p # _ \<Rightarrow> Some (hd (sync_loop (nHeight p) pindexBest)))"

definition CheckSync :: "chain \<Rightarrow> int \<Rightarrow> bool option" where
  "CheckSync pindexBest height = map_option (\<lambda>p. \<not> height \<le> nHeight p) (AutoSelectSyncCheckpoint pindexBest)"

end
