(* ===== verification/BestChain.thy ===== *)
theory BestChain
  imports StakeKernel Checkpoints AcceptPool BlockDisconnect
begin

text \<open>
  The index of blocks and the best chain (src/main.cpp): \<open>Reorganize\<close>, \<open>SetBestChain\<close>, \<open>AddToBlockIndex\<close>
  and \<open>AcceptBlock\<close>. An index entry is the list of the block and its ancestors, so two pointers are equal
  exactly when the lists are; the fields of an entry that change later (\<open>pnext\<close>, \<open>nMint\<close>,
  \<open>nMoneySupply\<close>) are maps from the hash. A database transaction works on a copy of the transaction index
  that replaces it on commit and is dropped on abort. Writes to the database succeed; the records of the
  block index on disk, the wallets, the user interface and the relay of inventory are not modelled.
\<close>

section \<open>The state\<close>

text \<open>
  The environment: that of \<open>ConnectBlock\<close> (of which the memory pool and the two values that depend on the
  best block are those of the state), what the block files hold, and the chain parameters.
\<close>

record node_env =
  base_env :: connect_env
  disk_block :: "u32 \<Rightarrow> u32 \<Rightarrow> CBlock option"
  fTestNet :: bool
  hashGenesisBlock :: uint256
  nLastPOWBlock :: int
  proof_of_stake_limit :: int

record node =
  mapBlockIndex :: "uint256 \<Rightarrow> chain option"
  pnext :: "uint256 \<Rightarrow> uint256 option"
  nMint :: "uint256 \<Rightarrow> int"
  nMoneySupply :: "uint256 \<Rightarrow> u64"
  setStakeSeen :: "(COutPoint \<times> u32) set"
  pindexGenesisBlock :: chain
  pindexBest :: chain
  hashBestChain :: uint256
  nBestHeight :: int
  nBestChainTrust :: uint256
  nBestInvalidTrust :: uint256
  txindex :: txdb
  db_hashBestChain :: uint256
  mempool :: CTxMemPool
  signature_cache :: sigcache

definition node_start :: "sigcache \<Rightarrow> node" where
  "node_start c = \<lparr>mapBlockIndex = Map.empty, pnext = Map.empty, nMint = (\<lambda>_. 0), nMoneySupply = (\<lambda>_. 0),
     setStakeSeen = {}, pindexGenesisBlock = [], pindexBest = [], hashBestChain = 0, nBestHeight = - 1,
     nBestChainTrust = 0, nBestInvalidTrust = 0, txindex = Map.empty, db_hashBestChain = 0,
     mempool = pool_empty, signature_cache = c\<rparr>"

definition connect_env_of :: "node_env \<Rightarrow> node \<Rightarrow> connect_env" where
  "connect_env_of env s = (base_env env)\<lparr>memory_pool := mempool s,
     below_checkpoint := nBestHeight s < GetTotalBlocksEstimate (fTestNet env),
     best_height := nBestHeight s\<rparr>"

text \<open>\<open>CBlock::ReadFromDisk(const CBlockIndex*)\<close>.\<close>

definition read_block :: "external \<Rightarrow> node_env \<Rightarrow> chain \<Rightarrow> CBlock option" where
  "read_block E env pindex =
     (case disk_block env (bi_nFile (hd pindex)) (bi_nBlockPos (hd pindex)) of
        None \<Rightarrow> None
      | Some b \<Rightarrow>
          if \<not> b_IsProofOfStake b \<and> \<not> CheckProofOfWork E (proof_of_work_limit (base_env env))
            (GetPoWHash (scrypt_hash (base_env env)) b) (b_nBits b) then None
          else if b_GetHash E (scrypt_hash (base_env env)) b \<noteq> bi_hash (hd pindex) then None
          else Some b)"

section \<open>Reorganize\<close>

text \<open>The inner loop: \<open>plonger\<close> goes back while it is higher; the empty list when it falls off the end.\<close>

fun longer_loop :: "int \<Rightarrow> chain \<Rightarrow> chain" where
  "longer_loop height [] = []"
| "longer_loop height (p # ps) = (if nHeight p > height then longer_loop height ps else p # ps)"

text \<open>\<open>None\<close> when \<open>Reorganize\<close> gives up because a pointer became null.\<close>

fun find_fork :: "chain \<Rightarrow> chain \<Rightarrow> chain option" where
  "find_fork [] plonger = None"
| "find_fork (p # ps) plonger =
     (if p # ps = plonger then Some plonger
      else let plonger = longer_loop (nHeight p) plonger in
        if plonger = [] then None
        else if p # ps = plonger then Some plonger
        else find_fork ps plonger)"

text \<open>The entries from \<open>pindex\<close> back to the fork, without the fork.\<close>

fun blocks_above :: "chain \<Rightarrow> chain \<Rightarrow> chain list" where
  "blocks_above pfork [] = []"
| "blocks_above pfork (p # ps) = (if p # ps = pfork then [] else (p # ps) # blocks_above pfork ps)"

fun disconnect_blocks ::
  "external \<Rightarrow> node_env \<Rightarrow> chain list \<Rightarrow> txdb \<times> CTransaction list \<Rightarrow> (txdb \<times> CTransaction list) option" where
  "disconnect_blocks E env [] w = Some w"
| "disconnect_blocks E env (pindex # rest) (txdb, vResurrect) =
     (case read_block E env pindex of
        None \<Rightarrow> None
      | Some b \<Rightarrow>
          (case DisconnectBlock E b txdb of
             None \<Rightarrow> None
           | Some txdb \<Rightarrow>
               disconnect_blocks E env rest
                 (txdb, filter (\<lambda>tx. \<not> (IsCoinBase tx \<or> IsCoinStake tx) \<and>
                    nHeight (hd pindex) > GetTotalBlocksEstimate (fTestNet env)) (vtx b) @ vResurrect)))"

text \<open>What connecting changes: the copy of the transaction index, what the entries record in memory, the
  cache, and the transactions to delete from the pool.\<close>

record connect_work =
  w_txdb :: txdb
  w_nMint :: "uint256 \<Rightarrow> int"
  w_nMoneySupply :: "uint256 \<Rightarrow> u64"
  w_cache :: sigcache
  vDelete :: "CTransaction list"

definition prev_supply :: "(uint256 \<Rightarrow> u64) \<Rightarrow> chain \<Rightarrow> u64" where
  "prev_supply supply pindex = (case tl pindex of [] \<Rightarrow> 0 | p # _ \<Rightarrow> supply (bi_hash p))"

fun connect_blocks ::
  "external \<Rightarrow> node_env \<Rightarrow> connect_env \<Rightarrow> chain list \<Rightarrow> connect_work \<Rightarrow> unit verdict \<times> connect_work" where
  "connect_blocks E env cenv [] w = (Accepted (), w)"
| "connect_blocks E env cenv (pindex # rest) w =
     (case read_block E env pindex of
        None \<Rightarrow> (Rejected 0, w)
      | Some b \<Rightarrow>
          (case ConnectBlock E cenv (w_txdb w) pindex (prev_supply (w_nMoneySupply w) pindex) False b (w_cache w) of
             Raised \<Rightarrow> (Raised, w)
           | Rejected _ \<Rightarrow> (Rejected 0, w)
           | Accepted (txdb, mint, supply, cache) \<Rightarrow>
               connect_blocks E env cenv rest \<lparr>w_txdb = txdb,
                 w_nMint = (w_nMint w)(bi_hash (hd pindex) := mint),
                 w_nMoneySupply = (w_nMoneySupply w)(bi_hash (hd pindex) := supply),
                 w_cache = cache, vDelete = vDelete w @ vtx b\<rparr>))"

fun unlink_blocks :: "chain list \<Rightarrow> (uint256 \<Rightarrow> uint256 option) \<Rightarrow> uint256 \<Rightarrow> uint256 option" where
  "unlink_blocks [] nxt = nxt"
| "unlink_blocks (pindex # rest) nxt =
     unlink_blocks rest (case tl pindex of [] \<Rightarrow> nxt | p # _ \<Rightarrow> nxt(bi_hash p := None))"

fun link_blocks :: "chain list \<Rightarrow> (uint256 \<Rightarrow> uint256 option) \<Rightarrow> uint256 \<Rightarrow> uint256 option" where
  "link_blocks [] nxt = nxt"
| "link_blocks (pindex # rest) nxt =
     link_blocks rest (case tl pindex of [] \<Rightarrow> nxt | p # _ \<Rightarrow> nxt(bi_hash p \<mapsto> bi_hash (hd pindex)))"

text \<open>Whether an exception was thrown, the pool and the cache. The limiter of free transactions plays no
  part (\<open>AcceptPool\<close>).\<close>

fun resurrect ::
  "external \<Rightarrow> connect_env \<Rightarrow> bool \<Rightarrow> txdb \<Rightarrow> chain \<Rightarrow> CTransaction list \<Rightarrow> CTxMemPool \<Rightarrow> sigcache \<Rightarrow>
     bool \<times> CTxMemPool \<times> sigcache" where
  "resurrect E cenv TestNet txdb best [] pool c = (False, pool, c)"
| "resurrect E cenv TestNet txdb best (tx # txs) pool c =
     (case AcceptToMemoryPool E cenv TestNet False txdb best False tx pool c of
        Threw \<Rightarrow> (True, pool, c)
      | Refused _ _ \<Rightarrow> resurrect E cenv TestNet txdb best txs pool c
      | InPool pool c \<Rightarrow> resurrect E cenv TestNet txdb best txs pool c)"

text \<open>The recursion of \<open>removeConflicts\<close> goes through entries of the pool without repetition, so a fuel of
  their number is enough (\<open>delete_connected_total\<close>).\<close>

fun delete_connected :: "external \<Rightarrow> CTransaction list \<Rightarrow> CTxMemPool \<Rightarrow> CTxMemPool option" where
  "delete_connected E [] pool = Some pool"
| "delete_connected E (tx # txs) pool =
     (case pool_remove 1 E False tx pool of
        None \<Rightarrow> None
      | Some pool \<Rightarrow>
          (case removeConflicts (length (mapTx pool) + 1) E tx pool of
             None \<Rightarrow> None
           | Some pool \<Rightarrow> delete_connected E txs pool))"

definition Reorganize :: "external \<Rightarrow> node_env \<Rightarrow> node \<Rightarrow> chain \<Rightarrow> unit verdict \<times> node" where
  "Reorganize E env s pindexNew =
     (case find_fork (pindexBest s) pindexNew of
        None \<Rightarrow> (Rejected 0, s)
      | Some pfork \<Rightarrow>
          let vDisconnect = blocks_above pfork (pindexBest s);
              vConnect = rev (blocks_above pfork pindexNew);
              cenv = connect_env_of env s in
          (case disconnect_blocks E env vDisconnect (txindex s, []) of
             None \<Rightarrow> (Rejected 0, s)
           | Some (txdb, vResurrect) \<Rightarrow>
               (case connect_blocks E env cenv vConnect \<lparr>w_txdb = txdb, w_nMint = nMint s,
                   w_nMoneySupply = nMoneySupply s, w_cache = signature_cache s, vDelete = []\<rparr> of
                  (v, w) \<Rightarrow>
                    let s = s\<lparr>nMint := w_nMint w, nMoneySupply := w_nMoneySupply w, signature_cache := w_cache w\<rparr> in
                    if v \<noteq> Accepted () then (v, s)
                    else
                      let s = s\<lparr>txindex := w_txdb w, db_hashBestChain := bi_hash (hd pindexNew),
                            pnext := link_blocks vConnect (unlink_blocks vDisconnect (pnext s))\<rparr> in
                      (case resurrect E cenv (fTestNet env) (txindex s) (pindexBest s) vResurrect (mempool s)
                          (signature_cache s) of
                         (threw, pool, c) \<Rightarrow>
                           let s = s\<lparr>mempool := pool, signature_cache := c\<rparr> in
                           if threw then (Raised, s)
                           else (case delete_connected E (vDelete w) pool of
                               None \<Rightarrow> (Raised, s)
                             | Some pool \<Rightarrow> (Accepted (), s\<lparr>mempool := pool\<rparr>))))))"

section \<open>SetBestChain\<close>

definition InvalidChainFound :: "chain \<Rightarrow> node \<Rightarrow> node" where
  "InvalidChainFound pindexNew s =
     (if nChainTrust (hd pindexNew) > nBestInvalidTrust s
      then s\<lparr>nBestInvalidTrust := nChainTrust (hd pindexNew)\<rparr> else s)"

fun remove_connected :: "external \<Rightarrow> CTransaction list \<Rightarrow> CTxMemPool \<Rightarrow> CTxMemPool option" where
  "remove_connected E [] pool = Some pool"
| "remove_connected E (tx # txs) pool =
     (case pool_remove 1 E False tx pool of None \<Rightarrow> None | Some pool \<Rightarrow> remove_connected E txs pool)"

definition SetBestChainInner ::
  "external \<Rightarrow> node_env \<Rightarrow> CBlock \<Rightarrow> chain \<Rightarrow> node \<Rightarrow> unit verdict \<times> node" where
  "SetBestChainInner E env b pindexNew s =
     (case ConnectBlock E (connect_env_of env s) (txindex s) pindexNew (prev_supply (nMoneySupply s) pindexNew)
         False b (signature_cache s) of
        Raised \<Rightarrow> (Raised, s)
      | Rejected d \<Rightarrow> (Rejected d, InvalidChainFound pindexNew s)
      | Accepted (txdb, mint, supply, cache) \<Rightarrow>
          let s = s\<lparr>txindex := txdb, db_hashBestChain := b_GetHash E (scrypt_hash (base_env env)) b,
                nMint := (nMint s)(bi_hash (hd pindexNew) := mint),
                nMoneySupply := (nMoneySupply s)(bi_hash (hd pindexNew) := supply), signature_cache := cache,
                pnext := link_blocks [pindexNew] (pnext s)\<rparr> in
          (case remove_connected E (vtx b) (mempool s) of
             None \<Rightarrow> (Raised, s)
           | Some pool \<Rightarrow> (Accepted (), s\<lparr>mempool := pool\<rparr>)))"

text \<open>The entries above the first one that has more trust than the best chain, the newest first, and that
  entry: only up to it \<open>Reorganize\<close> works in one database transaction.\<close>

fun postponed :: "uint256 \<Rightarrow> chain \<Rightarrow> chain list \<times> chain" where
  "postponed trust (p # q # ps) =
     (if nChainTrust q > trust
      then (case postponed trust (q # ps) of (vSecondary, pindex) \<Rightarrow> ((p # q # ps) # vSecondary, pindex))
      else ([], p # q # ps))"
| "postponed trust pindex = ([], pindex)"

text \<open>Errors are not fatal here: the loop ends, and the call succeeds.\<close>

fun connect_rest :: "external \<Rightarrow> node_env \<Rightarrow> chain list \<Rightarrow> node \<Rightarrow> unit verdict \<times> node" where
  "connect_rest E env [] s = (Accepted (), s)"
| "connect_rest E env (pindex # rest) s =
     (case read_block E env pindex of
        None \<Rightarrow> (Accepted (), s)
      | Some b \<Rightarrow>
          (case SetBestChainInner E env b pindex s of
             (Raised, s) \<Rightarrow> (Raised, s)
           | (Rejected _, s) \<Rightarrow> (Accepted (), s)
           | (Accepted _, s) \<Rightarrow> connect_rest E env rest s))"

definition new_best :: "uint256 \<Rightarrow> chain \<Rightarrow> node \<Rightarrow> node" where
  "new_best h pindexNew s = s\<lparr>hashBestChain := h, pindexBest := pindexNew, nBestHeight := nHeight (hd pindexNew),
     nBestChainTrust := nChainTrust (hd pindexNew), mempool := AddTransactionsUpdated 1 (mempool s)\<rparr>"

text \<open>Without a best block the code follows a null pointer in the last case.\<close>

definition SetBestChain :: "external \<Rightarrow> node_env \<Rightarrow> CBlock \<Rightarrow> chain \<Rightarrow> node \<Rightarrow> unit verdict \<times> node" where
  "SetBestChain E env b pindexNew s =
     (let h = b_GetHash E (scrypt_hash (base_env env)) b in
      if pindexGenesisBlock s = [] \<and> h = hashGenesisBlock env then
        (Accepted (), new_best h pindexNew (s\<lparr>db_hashBestChain := h, pindexGenesisBlock := pindexNew\<rparr>))
      else if hashPrevBlock b = hashBestChain s then
        (case SetBestChainInner E env b pindexNew s of
           (Accepted _, s) \<Rightarrow> (Accepted (), new_best h pindexNew s)
         | r \<Rightarrow> r)
      else if pindexBest s = [] then (Raised, s)
      else (case postponed (nChainTrust (hd (pindexBest s))) pindexNew of
          (vSecondary, pindexIntermediate) \<Rightarrow>
            (case Reorganize E env s pindexIntermediate of
               (Raised, s) \<Rightarrow> (Raised, s)
             | (Rejected _, s) \<Rightarrow> (Rejected 0, InvalidChainFound pindexNew s)
             | (Accepted _, s) \<Rightarrow>
                 (case connect_rest E env (rev vSecondary) s of
                    (Accepted _, s) \<Rightarrow> (Accepted (), new_best h pindexNew s)
                  | r \<Rightarrow> r))))"

section \<open>AddToBlockIndex\<close>

text \<open>\<open>CBlockIndex(nFile, nBlockPos, block)\<close>.\<close>

definition CBlockIndex_new :: "uint256 \<Rightarrow> u32 \<Rightarrow> u32 \<Rightarrow> CBlock \<Rightarrow> CBlockIndex" where
  "CBlockIndex_new h nFile nBlockPos b = \<lparr>bi_hash = h, bi_nFile = nFile, bi_nBlockPos = nBlockPos,
     nChainTrust = 0, nHeight = 0, bi_nFlags = (if b_IsProofOfStake b then 1 else 0), nStakeModifier = 0,
     prevoutStake = (if b_IsProofOfStake b then prevout (vin (vtx b ! 1) ! 0) else COutPoint_null),
     nStakeTime = (if b_IsProofOfStake b then tx_nTime (vtx b ! 1) else 0), hashProof = 0,
     bi_nVersion = b_nVersion b, bi_hashMerkleRoot = hashMerkleRoot b, bi_nTime = b_nTime b,
     bi_nBits = b_nBits b, bi_nNonce = b_nNonce b\<rparr>"

definition block_entropy_bit :: "uint256 \<Rightarrow> u32" where
  "block_entropy_bit h = ucast (ucast h AND (1 :: u64))"

definition AddToBlockIndex ::
  "external \<Rightarrow> node_env \<Rightarrow> u32 \<Rightarrow> u32 \<Rightarrow> uint256 \<Rightarrow> CBlock \<Rightarrow> node \<Rightarrow> unit verdict \<times> node" where
  "AddToBlockIndex E env nFile nBlockPos proof b s =
     (let h = b_GetHash E (scrypt_hash (base_env env)) b;
          pprev = (case mapBlockIndex s (hashPrevBlock b) of None \<Rightarrow> [] | Some c \<Rightarrow> c);
          p = CBlockIndex_new h nFile nBlockPos b in
      if mapBlockIndex s h \<noteq> None then (Rejected 0, s)
      else case GetBlockTrust E p of
        None \<Rightarrow> (Raised, s)
      | Some trust \<Rightarrow>
          let p = p\<lparr>nHeight := (if pprev = [] then 0 else nHeight (hd pprev) + 1),
                nChainTrust := (if pprev = [] then 0 else nChainTrust (hd pprev)) + trust\<rparr> in
          (case SetStakeEntropyBit (block_entropy_bit h) p of
             (ok, p) \<Rightarrow>
               if \<not> ok then (Rejected 0, s)
               else let p = p\<lparr>hashProof := proof\<rparr> in
                 (case ComputeNextStakeModifier E (mapBlockIndex s) pprev of
                    None \<Rightarrow> (Rejected 0, s)
                  | Some (modifier, generated) \<Rightarrow>
                      let p = (SetStakeModifier modifier generated p)\<lparr>nStakeModifier :=
                            ComputeStakeModifierV2 E pprev
                              (if \<not> b_IsProofOfStake b then h else op_hash (prevout (vin (vtx b ! 1) ! 0)))\<rparr>;
                          s = s\<lparr>mapBlockIndex := (mapBlockIndex s)(h \<mapsto> p # pprev),
                            setStakeSeen := (if bi_IsProofOfStake p
                              then insert (prevoutStake p, nStakeTime p) (setStakeSeen s) else setStakeSeen s)\<rparr> in
                      if nChainTrust p > nBestChainTrust s then SetBestChain E env b (p # pprev) s
                      else (Accepted (), s))))"

section \<open>AcceptBlock\<close>

text \<open>\<open>stored\<close> is the position at which the block was written to disk, or \<open>None\<close> when that failed.\<close>

definition AcceptBlock ::
  "external \<Rightarrow> node_env \<Rightarrow> (u32 \<times> u32) option \<Rightarrow> CBlock \<Rightarrow> node \<Rightarrow> unit verdict \<times> node" where
  "AcceptBlock E env stored b s =
     (let cenv = connect_env_of env s; h = b_GetHash E (scrypt_hash cenv) b; pos = b_IsProofOfStake b in
      if b_nVersion b > 7 then (Rejected 100, s)
      else if mapBlockIndex s h \<noteq> None then (Rejected 0, s)
      else case mapBlockIndex s (hashPrevBlock b) of
        None \<Rightarrow> (Rejected 10, s)
      | Some pindexPrev \<Rightarrow>
          let height = nHeight (hd pindexPrev) + 1 in
          if b_nVersion b < 7 then (Rejected 100, s)
          else if \<not> pos \<and> height > nLastPOWBlock env then (Rejected 100, s)
          else if b_GetBlockTime b > FutureDrift (int (unat (tx_nTime (vtx b ! 0)))) then (Rejected 50, s)
          else if pos \<and> \<not> CheckCoinStakeTimestamp (b_GetBlockTime b) (int (unat (tx_nTime (vtx b ! 1))))
          then (Rejected 50, s)
          else (case GetNextTargetRequired E (proof_of_work_limit cenv) (proof_of_stake_limit env) pindexPrev pos of
              None \<Rightarrow> (Raised, s)
            | Some required \<Rightarrow>
                if b_nBits b \<noteq> required then (Rejected 100, s)
                else if b_GetBlockTime b \<le> bi_GetBlockTime (hd pindexPrev) \<or>
                  FutureDrift (b_GetBlockTime b) < bi_GetBlockTime (hd pindexPrev) then (Rejected 0, s)
                else if list_ex (\<lambda>tx. \<not> IsFinalTx (nBestHeight s) (adjusted_time cenv) tx height (b_GetBlockTime b)) (vtx b)
                then (Rejected 10, s)
                else if \<not> CheckHardened (fTestNet env) height h then (Rejected 100, s)
                else (case (if pos
                        then CheckProofOfStake E cenv (txindex s) pindexPrev (vtx b ! 1) (b_nBits b) (signature_cache s)
                        else (Accepted (GetPoWHash (scrypt_hash cenv) b, 0), signature_cache s)) of
                    (Raised, c) \<Rightarrow> (Raised, s\<lparr>signature_cache := c\<rparr>)
                  | (Rejected _, c) \<Rightarrow> (Rejected 0, s\<lparr>signature_cache := c\<rparr>)
                  | (Accepted (proof, _), c) \<Rightarrow>
                      let s = s\<lparr>signature_cache := c\<rparr>; expect = push_int64 E [] height in
                      (case CheckSync (pindexBest s) height of
                         None \<Rightarrow> (Raised, s)
                       | Some ok \<Rightarrow>
                           if \<not> ok then (Rejected 0, s)
                           else if take (length expect) (scriptSig (vin (vtx b ! 0) ! 0)) \<noteq> expect
                           then (Rejected 100, s)
                           else (case stored of
                               None \<Rightarrow> (Rejected 0, s)
                             | Some (nFile, nBlockPos) \<Rightarrow> AddToBlockIndex E env nFile nBlockPos proof b s)))))"

end
