(* ===== verification/ForkProps.thy ===== *)
theory ForkProps
  imports BestChain "HOL-Library.Sublist"
begin

text \<open>
  The search for the fork, and what disconnecting and connecting blocks does to the transaction index:
  the index is the one that connecting the blocks of the best chain builds.
\<close>

section \<open>The fork\<close>

text \<open>Heights count from 0 at the first block.\<close>

fun heights_ok :: "chain \<Rightarrow> bool" where
  "heights_ok [] = True"
| "heights_ok (p # ps) \<longleftrightarrow> nHeight p = int (length ps) \<and> heights_ok ps"

lemma suffix_hd: "suffix s (p # ps) \<Longrightarrow> s = p # ps \<or> suffix s ps"
  by (auto simp: suffix_Cons)

lemma longer_loop_props:
  assumes "heights_ok c"
  shows "suffix (longer_loop (int n) c) c" "length (longer_loop (int n) c) = min (length c) (Suc n)"
    "heights_ok (longer_loop (int n) c)"
  using assms by (induction c) (auto simp: suffix_Cons)

lemma find_fork_suffix: "find_fork a b = Some f \<Longrightarrow> suffix f a \<and> suffix f b \<and> f \<noteq> []"
proof (induction a b rule: find_fork.induct)
  case (2 p ps b)
  let ?b = "longer_loop (nHeight p) b"
  have suf: "suffix (longer_loop h c) c" for h c by (induction c) (auto simp: suffix_Cons)
  show ?case
  proof (cases "p # ps = b \<or> ?b = [] \<or> p # ps = ?b")
    case True
    then show ?thesis using 2(2) suf [of "nHeight p" b] by (auto simp: Let_def split: if_splits)
  next
    case False
    then have "suffix f ps \<and> suffix f ?b \<and> f \<noteq> []" using 2 by (auto simp: Let_def)
    then show ?thesis using suf [of "nHeight p" b] by (meson suffix_ConsI suffix_order.trans)
  qed
qed simp

lemma find_fork_longest:
  assumes "heights_ok a" "heights_ok b" "a \<noteq> []" "b \<noteq> []" "last a = last b"
  shows "\<exists>f. find_fork a b = Some f \<and> (\<forall>s. suffix s a \<longrightarrow> suffix s b \<longrightarrow> suffix s f)"
  using assms
proof (induction a arbitrary: b)
  case (Cons p ps)
  let ?b = "longer_loop (nHeight p) b"
  have h: "nHeight p = int (length ps)" using Cons.prems(1) by simp
  note b = longer_loop_props [OF Cons.prems(2), of "length ps", folded h]
  have ne: "?b \<noteq> []" using b(2) Cons.prems(4) by (cases b) auto
  have last: "last ?b = last b" using b(1) ne by (metis suffix_def last_appendR)
  have common: "suffix s ?b" if "suffix s (p # ps)" "suffix s b" for s
    using suffix_length_suffix [OF that(2) b(1)] suffix_length_le [OF that(1)] suffix_length_le [OF that(2)] b(2) by simp
  show ?case
  proof (cases "p # ps = b \<or> p # ps = ?b")
    case True
    then show ?thesis using common ne by (auto simp: Let_def)
  next
    case False
    have "ps \<noteq> []"
    proof
      assume "ps = []"
      then have "length ?b = 1" using b(2) Cons.prems(4) by (cases b) simp_all
      then obtain q where "?b = [q]" by (auto simp: length_Suc_conv)
      with last Cons.prems(5) False \<open>ps = []\<close> show False by simp
    qed
    then obtain f where f: "find_fork ps ?b = Some f" "\<forall>s. suffix s ps \<longrightarrow> suffix s ?b \<longrightarrow> suffix s f"
      using Cons.IH [of ?b] Cons.prems b(3) ne last by auto
    have "suffix s f" if s: "suffix s (p # ps)" "suffix s b" for s
    proof -
      have "s \<noteq> p # ps"
      proof
        assume "s = p # ps"
        then have "length ?b = length s" "suffix s ?b"
          using common [OF s] suffix_length_le [of s ?b] b(2) by auto
        then show False using False \<open>s = p # ps\<close> by (auto simp: suffix_def)
      qed
      then show ?thesis using f(2) common [OF s] suffix_hd [OF s(1)] by blast
    qed
    moreover have "find_fork (p # ps) b = Some f" using False ne f(1) by (simp add: Let_def)
    ultimately show ?thesis by blast
  qed
qed simp

text \<open>The blocks to disconnect and to connect are those of the chain that the fork does not have.\<close>

lemma suffix_induct [consumes 2, case_names base step]:
  assumes "suffix f c" "f \<noteq> []" "P f" "\<And>p ps. suffix f ps \<Longrightarrow> p # ps \<noteq> f \<Longrightarrow> P ps \<Longrightarrow> P (p # ps)"
  shows "P c"
  using assms(1)
proof (induction c)
  case Nil
  then show ?case using assms(2) by simp
next
  case (Cons p ps)
  then show ?case using assms(3,4) by (cases "p # ps = f") (auto dest: suffix_hd)
qed

lemma blocks_above_self [simp]: "blocks_above f f = []"
  by (cases f) auto

lemma blocks_above_concat: "suffix f c \<Longrightarrow> f \<noteq> [] \<Longrightarrow> map hd (blocks_above f c) @ f = c"
  by (induction c rule: suffix_induct) auto

section \<open>The index of a chain\<close>

lemma connect_loop_overlay:
  assumes "connect_loop E env txdb pindex False txs s = Accepted s'" "bi_nFile (hd pindex) \<noteq> - 1"
    and "entries_ok (txdb ++ mapQueuedChanges s)" "distinct (map (tx_GetHash E) txs)"
    and "\<forall>tx \<in> set txs. tx_GetHash E tx \<notin> dom (txdb ++ mapQueuedChanges s)"
  shows "entries_ok (txdb ++ mapQueuedChanges s') \<and>
    dom (txdb ++ mapQueuedChanges s') = tx_GetHash E ` set txs \<union> dom (txdb ++ mapQueuedChanges s)"
  using assms(1,3-5)
proof (induction txs arbitrary: s)
  case (Cons tx txs)
  obtain t where t: "connect_tx E env txdb pindex False tx s = Accepted t" "connect_loop E env txdb pindex False txs t = Accepted s'"
    using Cons.prems(1) by (auto split: verdict.splits)
  have "(txdb ++ mapQueuedChanges s) (tx_GetHash E tx) = None" using Cons.prems(4) by (simp add: domIff)
  note d = disconnect_tx [OF t(1) assms(2) Cons.prems(2) this]
  have "\<forall>u \<in> set txs. tx_GetHash E u \<notin> dom (txdb ++ mapQueuedChanges t)"
    unfolding d(3) using Cons.prems(3,4) by (auto simp: image_iff)
  then have "entries_ok (txdb ++ mapQueuedChanges s') \<and> dom (txdb ++ mapQueuedChanges s') =
      tx_GetHash E ` set txs \<union> dom (txdb ++ mapQueuedChanges t)"
    using Cons.IH [OF t(2) d(2)] Cons.prems(3) by simp
  then show ?case
    unfolding d(3) by (simp only: list.set image_insert Un_insert_left Un_insert_right simp_thms)
qed simp

lemma ConnectBlock_index:
  assumes "ConnectBlock E env txdb pindex supply False b cache = Accepted (txdb', mint, supply', cache')"
    and "bi_nFile (hd pindex) \<noteq> - 1" "entries_ok txdb" "\<forall>tx \<in> set (vtx b). txdb (tx_GetHash E tx) = None"
  shows "entries_ok txdb'" "dom txdb' = tx_GetHash E ` set (vtx b) \<union> dom txdb"
proof -
  obtain s where s: "CheckBlock E (scrypt_hash env) (max_data_carrier env) (proof_of_work_limit env) (adjusted_time env)
      (\<not> False) (\<not> False) False b = Inr ()"
    "connect_loop E env txdb pindex False (vtx b) (connect_start pindex False b cache) = Accepted s"
    "txdb' = (if False then txdb else txdb ++ mapQueuedChanges s)"
    by (rule ConnectBlock_split [OF assms(1)])
  have m: "mapQueuedChanges (connect_start pindex False b cache) = Map.empty" by (simp add: connect_start_def)
  have "distinct (map (tx_GetHash E) (vtx b))" using s(1) by (simp add: CheckBlock_iff)
  from connect_loop_overlay [OF s(2) assms(2) _ this] assms(3,4) s(3)
  show "entries_ok txdb'" "dom txdb' = tx_GetHash E ` set (vtx b) \<union> dom txdb" by (auto simp: m domIff)
qed

text \<open>
  The transaction indexes of a chain: empty for the first block, which is not connected, and after that
  the result of connecting each block, in whatever circumstances, to the index of its ancestors. \<open>rd\<close>
  reads a block; no transaction of a block is already indexed.
\<close>

inductive index_of :: "external \<Rightarrow> (chain \<Rightarrow> CBlock option) \<Rightarrow> chain \<Rightarrow> txdb \<Rightarrow> bool" for E rd where
  first: "index_of E rd [p] Map.empty"
| connect: "index_of E rd c txdb \<Longrightarrow> rd (p # c) = Some b \<Longrightarrow> bi_nFile p \<noteq> - 1 \<Longrightarrow>
    \<forall>tx \<in> set (vtx b). txdb (tx_GetHash E tx) = None \<Longrightarrow>
    ConnectBlock E env txdb (p # c) supply False b cache = Accepted (txdb', mint, supply', cache') \<Longrightarrow>
    index_of E rd (p # c) txdb'"

inductive_cases index_ofE: "index_of E rd (p # c) d"

lemma index_of_nonempty: "index_of E rd c d \<Longrightarrow> c \<noteq> []"
  by (induction rule: index_of.induct) simp_all

lemma index_of_entries: "index_of E rd c d \<Longrightarrow> entries_ok d"
proof (induction rule: index_of.induct)
  case (connect c txdb p b env sup cache txdb' mint sup' cache')
  then show ?case using ConnectBlock_index(1) [OF connect.hyps(5)] by simp
qed (simp add: entries_ok_def)

text \<open>The hashes of the transactions of a chain, without those of its first block.\<close>

fun chain_hashes :: "external \<Rightarrow> (chain \<Rightarrow> CBlock option) \<Rightarrow> chain \<Rightarrow> uint256 list" where
  "chain_hashes E rd [] = []"
| "chain_hashes E rd [p] = []"
| "chain_hashes E rd (p # q # ps) =
     (case rd (p # q # ps) of None \<Rightarrow> [] | Some b \<Rightarrow> map (tx_GetHash E) (vtx b)) @ chain_hashes E rd (q # ps)"

lemma chain_hashes_Cons:
  "c \<noteq> [] \<Longrightarrow> chain_hashes E rd (p # c) =
     (case rd (p # c) of None \<Rightarrow> [] | Some b \<Rightarrow> map (tx_GetHash E) (vtx b)) @ chain_hashes E rd c"
  by (cases c) simp_all

lemma index_of_dom: "index_of E rd c d \<Longrightarrow> dom d = set (chain_hashes E rd c)"
proof (induction rule: index_of.induct)
  case (connect c txdb p b env sup cache txdb' mint sup' cache')
  have "dom txdb' = tx_GetHash E ` set (vtx b) \<union> dom txdb"
    using ConnectBlock_index(2) [OF connect.hyps(5)] index_of_entries [OF connect.hyps(1)] connect.hyps by simp
  then show ?case using connect index_of_nonempty [OF connect.hyps(1)] by (simp add: chain_hashes_Cons)
qed simp

lemma chain_hashes_suffix: "suffix f c \<Longrightarrow> f \<noteq> [] \<Longrightarrow> distinct (chain_hashes E rd c) \<Longrightarrow> distinct (chain_hashes E rd f)"
  proof (induction c rule: suffix_induct)
  case (step p ps)
  then show ?case by (cases ps) (simp_all add: chain_hashes_Cons)
qed

section \<open>Disconnecting\<close>

lemma disconnect_one:
  assumes "index_of E (read_block E nenv) (p # c) d" "c \<noteq> []"
  obtains b d' where "read_block E nenv (p # c) = Some b" "DisconnectBlock E b d = Some d'"
    "index_of E (read_block E nenv) c d'"
  using assms(1)
proof (cases rule: index_of.cases)
  case first
  then show thesis using assms(2) by simp
next
  case (connect d' b env sup cache mint sup' cache')
  then have "DisconnectBlock E b d = Some d'"
    by (intro DisconnectBlock_ConnectBlock [OF connect(5)]) (simp_all add: index_of_entries)
  with connect that show thesis by blast
qed

lemma disconnect_blocks_index:
  assumes "suffix f c" "f \<noteq> []" "index_of E (read_block E nenv) c d"
  obtains d' txs where "disconnect_blocks E nenv (blocks_above f c) (d, v) = Some (d', txs)"
    "index_of E (read_block E nenv) f d'"
proof -
  have "\<exists>d' txs. disconnect_blocks E nenv (blocks_above f c) (d, v) = Some (d', txs) \<and>
      index_of E (read_block E nenv) f d'"
    using assms
  proof (induction c arbitrary: d v rule: suffix_induct)
    case (step p ps)
    have "ps \<noteq> []" using step(1) assms(2) by auto
    obtain b d1 where b: "read_block E nenv (p # ps) = Some b" "DisconnectBlock E b d = Some d1"
      "index_of E (read_block E nenv) ps d1"
      by (rule disconnect_one [OF step(4) \<open>ps \<noteq> []\<close>])
    with step(2) step(3) [OF b(3)] show ?case by simp
  qed auto
  with that show thesis by blast
qed

section \<open>Connecting\<close>

lemma blocks_above_snoc:
  "suffix f ps \<Longrightarrow> f \<noteq> [] \<Longrightarrow> p # ps \<noteq> f \<Longrightarrow> rev (blocks_above f (p # ps)) = rev (blocks_above f ps) @ [p # ps]"
  by simp

lemma connect_blocks_append:
  "connect_blocks E nenv cenv (xs @ ys) w =
     (case connect_blocks E nenv cenv xs w of
        (Accepted _, w) \<Rightarrow> connect_blocks E nenv cenv ys w | r \<Rightarrow> r)"
  by (induction xs arbitrary: w) (auto split: option.splits verdict.splits prod.splits)

lemma connect_blocks_index:
  assumes "suffix f c" "f \<noteq> []" "index_of E (read_block E nenv) f (w_txdb w)"
    and "distinct (chain_hashes E (read_block E nenv) c)" "list_all (\<lambda>p. bi_nFile p \<noteq> - 1) c"
    and "connect_blocks E nenv cenv (rev (blocks_above f c)) w = (Accepted (), w')"
  shows "index_of E (read_block E nenv) c (w_txdb w')"
  using assms(1,2,4-6)
proof (induction c arbitrary: w' rule: suffix_induct)
  case base
  then show ?case using assms(3) by simp
next
  case (step p ps)
  have ne: "ps \<noteq> []" using step(1) assms(2) by auto
  obtain w1 where w1: "connect_blocks E nenv cenv (rev (blocks_above f ps)) w = (Accepted (), w1)"
    "connect_blocks E nenv cenv [p # ps] w1 = (Accepted (), w')"
    using step(6) step(2) by (auto simp: connect_blocks_append split: prod.splits verdict.splits)
  have i: "index_of E (read_block E nenv) ps (w_txdb w1)"
    using step(3) [OF _ _ w1(1)] step(4,5) ne by (simp add: chain_hashes_Cons)
  obtain b d mint sup cache where b: "read_block E nenv (p # ps) = Some b"
    "ConnectBlock E cenv (w_txdb w1) (p # ps) (prev_supply (w_nMoneySupply w1) (p # ps)) False b (w_cache w1) =
      Accepted (d, mint, sup, cache)" "w_txdb w' = d"
    using w1(2) by (auto split: option.splits verdict.splits prod.splits)
  have "\<forall>tx \<in> set (vtx b). w_txdb w1 (tx_GetHash E tx) = None"
    using step(4) b(1) index_of_dom [OF i] ne by (auto simp: chain_hashes_Cons domIff)
  with index_of.connect [OF i b(1) _ _ b(2)] b(3) step(5) show ?case by simp
qed

end
