(* ===== verification/StakeProps.thy ===== *)
theory StakeProps
  imports StakeKernel
begin

text \<open>
  What the stake modifier is made of: every round finds a block that was not selected before, the one
  with the least selection hash among those up to the end of the round.
\<close>

section \<open>Chains of the index\<close>

text \<open>Every block of the chain stands in the index with its ancestors.\<close>

fun indexed :: "(uint256 \<Rightarrow> chain option) \<Rightarrow> chain \<Rightarrow> bool" where
  "indexed m [] = True"
| "indexed m (p # ps) \<longleftrightarrow> m (bi_hash p) = Some (p # ps) \<and> indexed m ps"

lemma indexed_in: "indexed m c \<Longrightarrow> p \<in> set c \<Longrightarrow> \<exists>s. m (bi_hash p) = Some (p # s) \<and> length s < length c"
  by (induction c) fastforce+

lemma indexed_distinct: "indexed m c \<Longrightarrow> distinct (map bi_hash c)"
proof (induction c)
  case (Cons p ps)
  have "bi_hash p \<noteq> bi_hash q" if q: "q \<in> set ps" for q
  proof
    assume "bi_hash p = bi_hash q"
    then have "m (bi_hash q) = Some (p # ps)" using Cons.prems by simp
    moreover obtain s where "m (bi_hash q) = Some (q # s)" "length s < length ps"
      using indexed_in [OF _ q, of m] Cons.prems by auto
    ultimately show False by simp
  qed
  with Cons show ?case by auto
qed simp

section \<open>One round\<close>

definition items_ok :: "(uint256 \<Rightarrow> chain option) \<Rightarrow> (int \<times> uint256) list \<Rightarrow> bool" where
  "items_ok m items \<longleftrightarrow> (\<forall>(t, h) \<in> set items. \<exists>p s. m h = Some (p # s) \<and> bi_hash p = h \<and> bi_GetBlockTime p = t)"

lemma items_ok_Cons:
  "items_ok m (item # items) \<longleftrightarrow> items_ok m items \<and>
     (\<exists>p s. m (snd item) = Some (p # s) \<and> bi_hash p = snd item \<and> bi_GetBlockTime p = fst item)"
  by (auto simp: items_ok_def)

text \<open>The blocks of a list of candidates that are not selected yet.\<close>

definition open_blocks ::
  "(uint256 \<Rightarrow> chain option) \<Rightarrow> (uint256 \<Rightarrow> chain option) \<Rightarrow> (int \<times> uint256) list \<Rightarrow> chain set" where
  "open_blocks m selected items = {c. \<exists>h \<in> snd ` set items. m h = Some c \<and> selected h = None}"

lemma open_blocks_Cons:
  "open_blocks m selected (item # items) =
     (case m (snd item) of None \<Rightarrow> {} | Some c \<Rightarrow> if selected (snd item) = None then {c} else {}) \<union>
     open_blocks m selected items"
  by (auto simp: open_blocks_def split: option.splits)

lemma open_blocks_time:
  assumes "items_ok m items" "c \<in> open_blocks m selected items" "\<forall>item \<in> set items. t \<le> fst item"
  shows "t \<le> bi_GetBlockTime (hd c)"
  using assms unfolding items_ok_def open_blocks_def by fastforce

lemma select_loop_Some:
  assumes "items_ok m items" "sorted (map fst items)" "hb = selection_hash E prev (hd cb)"
  obtains h c where "select_loop E m selected stop prev items (Some (hb, cb)) = Some (Some (h, c))"
    "h = selection_hash E prev (hd c)" "h \<le> hb"
    "c = cb \<or> c \<in> open_blocks m selected items \<and> bi_GetBlockTime (hd c) \<le> stop"
    "\<forall>c' \<in> open_blocks m selected items. bi_GetBlockTime (hd c') \<le> stop \<longrightarrow> h \<le> selection_hash E prev (hd c')"
proof -
  have "\<exists>h c. select_loop E m selected stop prev items (Some (hb, cb)) = Some (Some (h, c)) \<and>
    h = selection_hash E prev (hd c) \<and> h \<le> hb \<and>
    (c = cb \<or> c \<in> open_blocks m selected items \<and> bi_GetBlockTime (hd c) \<le> stop) \<and>
    (\<forall>c' \<in> open_blocks m selected items. bi_GetBlockTime (hd c') \<le> stop \<longrightarrow> h \<le> selection_hash E prev (hd c'))"
    using assms
  proof (induction items arbitrary: hb cb)
    case (Cons item items)
    obtain p s where m: "m (snd item) = Some (p # s)" "bi_hash p = snd item" "bi_GetBlockTime p = fst item"
      and ok: "items_ok m items" using Cons.prems(1) by (auto simp: items_ok_Cons)
    have sorted: "sorted (map fst items)" using Cons.prems(2) by simp
    show ?case
    proof (cases "bi_GetBlockTime p > stop")
      case True
      have "\<forall>i \<in> set (item # items). fst item \<le> fst i" using Cons.prems(2) by auto
      then have late: "bi_GetBlockTime (hd c') > stop" if "c' \<in> open_blocks m selected (item # items)" for c'
        using open_blocks_time [OF Cons.prems(1) that] True m(3) by fastforce
      then have "\<forall>c' \<in> open_blocks m selected (item # items). bi_GetBlockTime (hd c') \<le> stop \<longrightarrow>
          hb \<le> selection_hash E prev (hd c')" by fastforce
      moreover have "select_loop E m selected stop prev (item # items) (Some (hb, cb)) = Some (Some (hb, cb))"
        using m True by simp
      ultimately show ?thesis using Cons.prems(3) by blast
    next
      case False
      show ?thesis
      proof (cases "selected (snd item) = None \<and> selection_hash E prev p < hb")
        case True
        let ?hp = "selection_hash E prev p"
        obtain h c where r: "select_loop E m selected stop prev items (Some (?hp, p # s)) = Some (Some (h, c))"
          "h = selection_hash E prev (hd c)" "h \<le> ?hp"
          "c = p # s \<or> c \<in> open_blocks m selected items \<and> bi_GetBlockTime (hd c) \<le> stop"
          "\<forall>c' \<in> open_blocks m selected items. bi_GetBlockTime (hd c') \<le> stop \<longrightarrow> h \<le> selection_hash E prev (hd c')"
          using Cons.IH [OF ok sorted, of ?hp "p # s"] by auto
        have "select_loop E m selected stop prev (item # items) (Some (hb, cb)) = Some (Some (h, c))"
          using m True False r(1) by simp
        with r(2-5) True False m show ?thesis by (auto simp: open_blocks_Cons)
      next
        case not: False
        obtain h c where r: "select_loop E m selected stop prev items (Some (hb, cb)) = Some (Some (h, c))"
          "h = selection_hash E prev (hd c)" "h \<le> hb"
          "c = cb \<or> c \<in> open_blocks m selected items \<and> bi_GetBlockTime (hd c) \<le> stop"
          "\<forall>c' \<in> open_blocks m selected items. bi_GetBlockTime (hd c') \<le> stop \<longrightarrow> h \<le> selection_hash E prev (hd c')"
          using Cons.IH [OF ok sorted Cons.prems(3)] by auto
        have "select_loop E m selected stop prev (item # items) (Some (hb, cb)) = Some (Some (h, c))"
          using m not False r(1) by (auto simp: Let_def)
        with r(2-5) not m show ?thesis by (auto simp: open_blocks_Cons)
      qed
    qed
  qed (simp add: open_blocks_def)
  then show thesis using that by blast
qed

text \<open>The choice of a round: an open block exists, and the one chosen has the least hash of those in
  time; when none is in time, it is a later one.\<close>

lemma SelectBlock:
  assumes "items_ok m items" "sorted (map fst items)" "open_blocks m selected items \<noteq> {}"
  obtains c where "SelectBlockFromCandidates E m items selected stop prev = Some c"
    "c \<in> open_blocks m selected items"
    "\<forall>c' \<in> open_blocks m selected items. bi_GetBlockTime (hd c') \<le> stop \<longrightarrow>
       bi_GetBlockTime (hd c) \<le> stop \<and> selection_hash E prev (hd c) \<le> selection_hash E prev (hd c')"
proof -
  have "\<exists>h c. select_loop E m selected stop prev items None = Some (Some (h, c)) \<and>
    c \<in> open_blocks m selected items \<and>
    (\<forall>c' \<in> open_blocks m selected items. bi_GetBlockTime (hd c') \<le> stop \<longrightarrow>
       bi_GetBlockTime (hd c) \<le> stop \<and> selection_hash E prev (hd c) \<le> selection_hash E prev (hd c'))"
    using assms
  proof (induction items)
    case (Cons item items)
    obtain p s where m: "m (snd item) = Some (p # s)" "bi_hash p = snd item" "bi_GetBlockTime p = fst item"
      and ok: "items_ok m items" using Cons.prems(1) by (auto simp: items_ok_Cons)
    have sorted: "sorted (map fst items)" using Cons.prems(2) by simp
    show ?case
    proof (cases "selected (snd item) = None")
      case True
      let ?hp = "selection_hash E prev p"
      obtain h c where r: "select_loop E m selected stop prev items (Some (?hp, p # s)) = Some (Some (h, c))"
        "h = selection_hash E prev (hd c)" "h \<le> ?hp"
        "c = p # s \<or> c \<in> open_blocks m selected items \<and> bi_GetBlockTime (hd c) \<le> stop"
        "\<forall>c' \<in> open_blocks m selected items. bi_GetBlockTime (hd c') \<le> stop \<longrightarrow> h \<le> selection_hash E prev (hd c')"
        by (rule select_loop_Some [OF ok sorted, of ?hp E prev "p # s" selected stop]) auto
      have "\<forall>i \<in> set items. fst item \<le> fst i" using Cons.prems(2) by auto
      then have "bi_GetBlockTime p \<le> bi_GetBlockTime (hd c')" if "c' \<in> open_blocks m selected items" for c'
        using open_blocks_time [OF ok that, of "fst item"] m(3) by simp
      moreover have "select_loop E m selected stop prev (item # items) None = Some (Some (h, c))"
        using m True r(1) by simp
      ultimately show ?thesis using r(2-5) True m by (fastforce simp: open_blocks_Cons)
    next
      case False
      then have "open_blocks m selected (item # items) = open_blocks m selected items"
        using m by (auto simp: open_blocks_Cons)
      moreover from this Cons.IH [OF ok sorted] Cons.prems(3)
      obtain h c where "select_loop E m selected stop prev items None = Some (Some (h, c))"
        "c \<in> open_blocks m selected items" "\<forall>c' \<in> open_blocks m selected items. bi_GetBlockTime (hd c') \<le> stop \<longrightarrow>
         bi_GetBlockTime (hd c) \<le> stop \<and> selection_hash E prev (hd c) \<le> selection_hash E prev (hd c')"
        by auto
      ultimately show ?thesis using m False by auto
    qed
  qed (simp add: open_blocks_def)
  then show thesis using that by (auto simp: SelectBlockFromCandidates_def)
qed

section \<open>The bits\<close>

lemma entropy_bit_cases: "GetStakeEntropyBit p = 0 \<or> GetStakeEntropyBit p = 1"
proof -
  have "bit (GetStakeEntropyBit p) i \<Longrightarrow> i = 0" for i
    by (simp add: GetStakeEntropyBit_def bit_simps bit_numeral_rec split: nat.splits)
  then have "GetStakeEntropyBit p = of_bool (bit (GetStakeEntropyBit p) 0)"
    by (intro bit_word_eqI) (auto simp: bit_simps)
  then show ?thesis by (metis of_bool_eq)
qed

lemma entropy_push:
  "n < 256 \<Longrightarrow> bit (push_bit n (ucast (GetStakeEntropyBit p)) :: uint256) i \<longleftrightarrow> i = n \<and> GetStakeEntropyBit p = 1"
  using entropy_bit_cases [of p] by (auto simp: bit_simps bit_1_iff)

lemma open_blocks_nonempty:
  assumes "items_ok m items" "distinct (map snd items)" "finite (dom selected)" "card (dom selected) < length items"
  shows "open_blocks m selected items \<noteq> {}"
proof
  assume e: "open_blocks m selected items = {}"
  have "snd ` set items \<subseteq> dom selected"
  proof
    fix h assume h: "h \<in> snd ` set items"
    then obtain c where "m h = Some c" using assms(1) by (fastforce simp: items_ok_def)
    with h e show "h \<in> dom selected" by (auto simp: open_blocks_def)
  qed
  from card_mono [OF assms(3) this] distinct_card [OF assms(2)] assms(4) show False by simp
qed

lemma modifier_rounds_spec:
  assumes "items_ok m items" "sorted (map fst items)" "distinct (map snd items)"
    and "finite (dom selected)" "card (dom selected) + (k - j) \<le> length items" "j \<le> k" "k \<le> 256"
  shows "\<exists>cs new'. modifier_rounds E m items prev [j..<k] stop selected new = Some new' \<and>
    length cs = k - j \<and> distinct (map (\<lambda>c. bi_hash (hd c)) cs) \<and> set cs \<subseteq> open_blocks m selected items \<and>
    (\<forall>i. bit new' i \<longleftrightarrow> bit new i \<or> j \<le> i \<and> i < k \<and> GetStakeEntropyBit (hd (cs ! (i - j))) = 1)"
  using assms(4-6)
proof (induction "k - j" arbitrary: j stop selected new)
  case 0
  then show ?case by (intro exI [of _ "[]"] exI [of _ new]) auto
next
  case (Suc n)
  then have j: "j < k" "j < 256" using assms(7) by auto
  let ?stop = "stop + GetStakeModifierSelectionIntervalSection j"
  have "open_blocks m selected items \<noteq> {}"
    by (rule open_blocks_nonempty [OF assms(1,3) Suc.prems(1)]) (use Suc.prems(2) j in simp)
  then obtain c where c: "SelectBlockFromCandidates E m items selected ?stop prev = Some c"
    "c \<in> open_blocks m selected items"
    by (rule SelectBlock [OF assms(1,2)])
  let ?h = "bi_hash (hd c)" and ?new = "new OR push_bit j (ucast (GetStakeEntropyBit (hd c))) :: uint256"
  have h: "m ?h = Some c" "selected ?h = None"
    using c(2) assms(1) by (fastforce simp: open_blocks_def items_ok_def)+
  have "card (dom (selected(?h \<mapsto> c))) = card (dom selected) + 1"
    using h(2) Suc.prems(1) by (simp add: domIff)
  then have more: "n = k - Suc j" "finite (dom (selected(?h \<mapsto> c)))"
    "card (dom (selected(?h \<mapsto> c))) + (k - Suc j) \<le> length items" "Suc j \<le> k"
    using Suc.hyps(2) Suc.prems j by (auto simp del: fun_upd_apply)
  obtain cs new' where r: "modifier_rounds E m items prev [Suc j..<k] ?stop (selected(?h \<mapsto> c)) ?new = Some new'"
    "length cs = k - Suc j" "distinct (map (\<lambda>c. bi_hash (hd c)) cs)"
    "set cs \<subseteq> open_blocks m (selected(?h \<mapsto> c)) items"
    "\<forall>i. bit new' i \<longleftrightarrow> bit ?new i \<or> Suc j \<le> i \<and> i < k \<and> GetStakeEntropyBit (hd (cs ! (i - Suc j))) = 1"
    using Suc.hyps(1) [OF more, of ?stop ?new] by blast
  have other: "d \<in> open_blocks m selected items \<and> bi_hash (hd d) \<noteq> ?h" if d: "d \<in> set cs" for d
  proof -
    obtain g where g: "g \<in> snd ` set items" "m g = Some d" "g \<noteq> ?h" "selected g = None"
      using r(4) d by (auto simp: open_blocks_def split: if_splits)
    moreover from g(1,2) have "bi_hash (hd d) = g" using assms(1) by (fastforce simp: items_ok_def)
    ultimately show ?thesis unfolding open_blocks_def by (intro conjI CollectI bexI [of _ g]) simp_all
  qed
  have "modifier_rounds E m items prev [j..<k] stop selected new = Some new'"
    using r(1) c(1) j by (simp add: upt_conv_Cons)
  moreover have "length (c # cs) = k - j" using r(2) j by simp
  moreover have "?h \<notin> (\<lambda>c. bi_hash (hd c)) ` set cs" using other by fastforce
  then have "distinct (map (\<lambda>c. bi_hash (hd c)) (c # cs))" using r(3) by simp
  moreover have "set (c # cs) \<subseteq> open_blocks m selected items" using c(2) other by auto
  moreover have "\<forall>i. bit new' i \<longleftrightarrow> bit new i \<or> j \<le> i \<and> i < k \<and> GetStakeEntropyBit (hd ((c # cs) ! (i - j))) = 1"
  proof
    fix i
    have new: "bit ?new i \<longleftrightarrow> bit new i \<or> i = j \<and> GetStakeEntropyBit (hd c) = 1"
      by (simp only: bit_or_iff entropy_push [OF j(2)])
    have "(c # cs) ! (i - j) = cs ! (i - Suc j)" if "Suc j \<le> i"
      using that by (simp add: nth_Cons')
    with r(5) [rule_format, of i] new j(1)
    show "bit new' i \<longleftrightarrow> bit new i \<or> j \<le> i \<and> i < k \<and> GetStakeEntropyBit (hd ((c # cs) ! (i - j))) = 1"
      by (cases i j rule: linorder_cases) simp_all
  qed
  ultimately show ?case by (intro exI [of _ "c # cs"] exI [of _ new'] conjI)
qed

section \<open>The next modifier\<close>

lemma last_generated_last: "c \<noteq> [] \<Longrightarrow> GeneratedStakeModifier (last c) \<Longrightarrow> GeneratedStakeModifier (hd (last_generated c))"
  by (induction c rule: last_generated.induct) auto

lemma stake_candidates_props:
  assumes "indexed m c"
  shows "items_ok m (stake_candidates c start)" "sorted (map fst (stake_candidates c start))"
    "distinct (map snd (stake_candidates c start))"
    "d \<in> open_blocks m Map.empty (stake_candidates c start) \<Longrightarrow> hd d \<in> set c \<and> start \<le> bi_GetBlockTime (hd d)"
proof -
  let ?w = "takeWhile (\<lambda>p. bi_GetBlockTime p \<ge> start) c" and ?v = "stake_candidates c start"
  have w: "set ?w \<subseteq> set c" by (auto dest: set_takeWhileD)
  have set: "set ?v = (\<lambda>p. (bi_GetBlockTime p, bi_hash p)) ` set ?w"
    by (simp add: stake_candidates_def)
  show ok: "items_ok m ?v"
    using indexed_in [OF assms] w unfolding items_ok_def set by fastforce
  have "sorted_wrt (\<le>) ?v" by (simp add: stake_candidates_def)
  then show "sorted (map fst ?v)"
    unfolding sorted_map by (rule sorted_wrt_mono_rel [rotated]) (auto simp: less_eq_prod_def)
  have "distinct (map snd ?v) \<longleftrightarrow> distinct (map snd (rev (map (\<lambda>p. (bi_GetBlockTime p, bi_hash p)) ?w)))"
    by (simp only: distinct_map stake_candidates_def distinct_sort set_sort)
  also have "\<dots> \<longleftrightarrow> distinct (map bi_hash ?w)"
    by (simp add: rev_map [symmetric] o_def)
  finally have d: "distinct (map snd ?v) \<longleftrightarrow> distinct (map bi_hash ?w)" .
  from indexed_distinct [OF assms] show "distinct (map snd ?v)"
    unfolding d by (metis distinct_take take_map takeWhile_eq_take)
  assume "d \<in> open_blocks m Map.empty ?v"
  then obtain p where p: "p \<in> set ?w" "m (bi_hash p) = Some d" by (auto simp: open_blocks_def set)
  then obtain s where "m (bi_hash p) = Some (p # s)" using indexed_in [OF assms] w by blast
  with p w show "hd d \<in> set c \<and> start \<le> bi_GetBlockTime (hd d)" by (auto dest: set_takeWhileD)
qed

lemma ComputeNextStakeModifier_total:
  assumes "indexed m c" "c \<noteq> []" "GeneratedStakeModifier (last c)"
  obtains (kept) "ComputeNextStakeModifier E m c = Some (nStakeModifier (hd (last_generated c)), False)"
  | (new) new bs where "ComputeNextStakeModifier E m c = Some (new, True)" "set bs \<subseteq> set c" "distinct (map bi_hash bs)"
    "length bs \<le> 64" "\<forall>i. bit new i \<longleftrightarrow> i < length bs \<and> GetStakeEntropyBit (bs ! i) = 1"
proof -
  let ?l = "hd (last_generated c)" and ?I = "int (unat nModifierInterval)" and ?now = "bi_GetBlockTime (hd c)"
  have l: "GetLastStakeModifier c = Some (nStakeModifier ?l, bi_GetBlockTime ?l)"
    using assms(2) last_generated_last [OF assms(2,3)] by (simp add: GetLastStakeModifier_def Let_def)
  show thesis
  proof (cases "bi_GetBlockTime ?l div ?I \<ge> ?now div ?I")
    case True
    then show thesis using kept l assms(2) by (simp add: ComputeNextStakeModifier_def Let_def)
  next
    case False
    define start where "start = ?now div ?I * ?I - GetStakeModifierSelectionInterval"
    let ?v = "stake_candidates c start"
    note v = stake_candidates_props [OF assms(1), where start = start]
    let ?k = "min 64 (length ?v)"
    have k: "finite (dom (Map.empty :: uint256 \<Rightarrow> chain option))"
      "card (dom (Map.empty :: uint256 \<Rightarrow> chain option)) + (?k - 0) \<le> length ?v" "0 \<le> ?k" "?k \<le> 256" by simp_all
    obtain cs new' where r: "modifier_rounds E m ?v (nStakeModifier ?l) [0..<?k] start Map.empty 0 = Some new'"
      "length cs = ?k - 0" "distinct (map (\<lambda>c. bi_hash (hd c)) cs)" "set cs \<subseteq> open_blocks m Map.empty ?v"
      "\<forall>i. bit new' i \<longleftrightarrow> bit (0 :: uint256) i \<or> 0 \<le> i \<and> i < ?k \<and> GetStakeEntropyBit (hd (cs ! (i - 0))) = 1"
      using modifier_rounds_spec [OF v(1-3) k, of E "nStakeModifier ?l" start 0] by (elim exE conjE) (rule that)
    have "ComputeNextStakeModifier E m c = Some (new', True)"
      using False l r(1) assms(2) by (simp add: ComputeNextStakeModifier_def Let_def start_def)
    moreover have "set (map hd cs) \<subseteq> set c" using r(4) v(4) by auto
    moreover have "distinct (map bi_hash (map hd cs))" using r(3) by (simp add: o_def)
    moreover have "length (map hd cs) \<le> 64" using r(2) by simp
    moreover have "\<forall>i. bit new' i \<longleftrightarrow> i < length (map hd cs) \<and> GetStakeEntropyBit (map hd cs ! i) = 1"
    proof
      fix i
      show "bit new' i \<longleftrightarrow> i < length (map hd cs) \<and> GetStakeEntropyBit (map hd cs ! i) = 1"
        using r(2) r(5) [rule_format, of i] by (cases "i < length cs") auto
    qed
    ultimately show thesis by (rule new)
  qed
qed

end
