(* ===== verification/NodeProps.thy ===== *)
theory NodeProps
  imports ForkProps StakeProps
begin

text \<open>
  What the operations on the best chain change and what they leave alone: the index of blocks, the best
  chain, and what is stored (the transaction index, the links forward, the memory pool).
\<close>

section \<open>Views\<close>

definition index_view where
  "index_view s = (mapBlockIndex s, setStakeSeen s)"

definition best_view where
  "best_view s = (pindexGenesisBlock s, pindexBest s, hashBestChain s, nBestHeight s, nBestChainTrust s)"

definition stored_view where
  "stored_view s = (txindex s, db_hashBestChain s, pnext s, mempool s)"

named_theorems views
lemmas view_defs = index_view_def best_view_def stored_view_def

lemma InvalidChainFound_views [views]:
  "index_view (InvalidChainFound c s) = index_view s" "best_view (InvalidChainFound c s) = best_view s"
  "stored_view (InvalidChainFound c s) = stored_view s"
  by (simp_all add: InvalidChainFound_def view_defs)

lemma Reorganize_views:
  assumes "Reorganize E env s c = (v, s')"
  shows "index_view s' = index_view s" "best_view s' = best_view s"
    "v = Rejected d \<Longrightarrow> stored_view s' = stored_view s"
  using assms
  by (auto simp: Reorganize_def view_defs Let_def split: option.splits prod.splits if_splits)

lemma Reorganize_Accepted:
  assumes "Reorganize E env s c = (Accepted (), s')"
  obtains f d txs w where "find_fork (pindexBest s) c = Some f"
    "disconnect_blocks E env (blocks_above f (pindexBest s)) (txindex s, []) = Some (d, txs)"
    "connect_blocks E env (connect_env_of env s) (rev (blocks_above f c)) \<lparr>w_txdb = d, w_nMint = nMint s,
       w_nMoneySupply = nMoneySupply s, w_cache = signature_cache s, vDelete = []\<rparr> = (Accepted (), w)"
    "txindex s' = w_txdb w" "db_hashBestChain s' = bi_hash (hd c)"
    "pnext s' = link_blocks (rev (blocks_above f c)) (unlink_blocks (blocks_above f (pindexBest s)) (pnext s))"
  using assms
  by (auto simp: Reorganize_def Let_def split: option.splits prod.splits if_splits)

lemma SetBestChainInner_views:
  assumes "SetBestChainInner E env b c s = (v, s')"
  shows "index_view s' = index_view s" "best_view s' = best_view s"
    "v = Rejected d \<Longrightarrow> stored_view s' = stored_view s"
  using assms
  by (auto simp: SetBestChainInner_def view_defs Let_def InvalidChainFound_def
      split: verdict.splits prod.splits option.splits if_splits)

lemma SetBestChainInner_Accepted:
  assumes "SetBestChainInner E env b c s = (Accepted (), s')"
  obtains d mint sup cache where
    "ConnectBlock E (connect_env_of env s) (txindex s) c (prev_supply (nMoneySupply s) c) False b (signature_cache s) =
      Accepted (d, mint, sup, cache)" "txindex s' = d" "pnext s' = link_blocks [c] (pnext s)"
    "db_hashBestChain s' = b_GetHash E (scrypt_hash (base_env env)) b"
  using assms
  by (auto simp: SetBestChainInner_def Let_def split: verdict.splits prod.splits option.splits)

lemma connect_rest_views:
  "connect_rest E env cs s = (v, s') \<Longrightarrow> index_view s' = index_view s \<and> best_view s' = best_view s"
proof (induction cs arbitrary: s)
  case (Cons c cs)
  show ?case
  proof (cases "read_block E env c")
    case None
    then show ?thesis using Cons.prems by simp
  next
    case (Some b)
    obtain u t where t: "SetBestChainInner E env b c s = (u, t)" by fastforce
    note w = SetBestChainInner_views [OF t]
    show ?thesis
    proof (cases u)
      case (Accepted x)
      then have "connect_rest E env cs t = (v, s')" using Cons.prems Some t by simp
      from Cons.IH [OF this] w show ?thesis by simp
    qed (use Cons.prems Some t w in auto)
  qed
qed simp

lemma new_best_views [views]:
  "index_view (new_best h c s) = index_view s" "pindexGenesisBlock (new_best h c s) = pindexGenesisBlock s"
  "pindexBest (new_best h c s) = c" "hashBestChain (new_best h c s) = h" "txindex (new_best h c s) = txindex s"
  "nBestHeight (new_best h c s) = nHeight (hd c)" "nBestChainTrust (new_best h c s) = nChainTrust (hd c)"
  by (simp_all add: new_best_def view_defs)

lemma connect_rest_never_rejects: "connect_rest E env cs s \<noteq> (Rejected d, s')"
proof (induction cs arbitrary: s)
  case (Cons c cs)
  then show ?case by (auto split: option.splits prod.splits verdict.splits)
qed simp

text \<open>How the call of \<open>SetBestChain\<close> ends.\<close>

lemma SetBestChain_cases:
  assumes "SetBestChain E env b c s = (v, s')"
  obtains
    (genesis) "v = Accepted ()" "pindexGenesisBlock s = []" "b_GetHash E (scrypt_hash (base_env env)) b = hashGenesisBlock env"
      "s' = new_best (hashGenesisBlock env) c (s\<lparr>db_hashBestChain := hashGenesisBlock env, pindexGenesisBlock := c\<rparr>)"
  | (extend) t where "v = Accepted ()" "hashPrevBlock b = hashBestChain s" "SetBestChainInner E env b c s = (Accepted (), t)"
      "s' = new_best (b_GetHash E (scrypt_hash (base_env env)) b) c t"
  | (fork) u t vs i where "v = Accepted ()" "hashPrevBlock b \<noteq> hashBestChain s" "pindexBest s \<noteq> []"
      "postponed (nChainTrust (hd (pindexBest s))) c = (vs, i)"
      "Reorganize E env s i = (Accepted (), t)" "connect_rest E env (rev vs) t = (Accepted (), u)"
      "s' = new_best (b_GetHash E (scrypt_hash (base_env env)) b) c u"
  | (failed) d where "v = Rejected d" "index_view s' = index_view s" "best_view s' = best_view s"
      "stored_view s' = stored_view s"
  | (threw) "v = Raised" "index_view s' = index_view s" "best_view s' = best_view s"
proof -
  let ?h = "b_GetHash E (scrypt_hash (base_env env)) b"
  note d = assms [unfolded SetBestChain_def Let_def]
  show thesis
  proof (cases "pindexGenesisBlock s = [] \<and> ?h = hashGenesisBlock env")
    case True
    then show thesis using d genesis by simp
  next
    case not_genesis: False
    show thesis
    proof (cases "hashPrevBlock b = hashBestChain s")
      case True
      obtain u t where t: "SetBestChainInner E env b c s = (u, t)" by fastforce
      note w = SetBestChainInner_views [OF t]
      show thesis
      proof (cases u)
        case (Accepted x)
        then show thesis using extend [of t] d not_genesis True t by auto
      next
        case Raised
        then show thesis using threw d not_genesis True t w by auto
      next
        case (Rejected e)
        then show thesis using failed [of e] d not_genesis True t w by auto
      qed
    next
      case other: False
      show thesis
      proof (cases "pindexBest s = []")
        case True
        then show thesis using threw d not_genesis other by auto
      next
        case best: False
        obtain vs i where p: "postponed (nChainTrust (hd (pindexBest s))) c = (vs, i)" by fastforce
        obtain r t where r: "Reorganize E env s i = (r, t)" by fastforce
        note w = Reorganize_views [OF r]
        show thesis
        proof (cases r)
          case (Accepted x)
          obtain q u where q: "connect_rest E env (rev vs) t = (q, u)" by fastforce
          then have "(\<exists>d. q = Rejected d) = False" using connect_rest_never_rejects [of E env "rev vs" t] by auto
          then consider "q = Raised" | "q = Accepted ()" by (cases q) auto
          then show thesis
          proof cases
            case 1
            then show thesis using threw d not_genesis other best p r Accepted q w connect_rest_views [OF q] by auto
          next
            case 2
            then show thesis using fork [of vs i t u] d not_genesis other best p r Accepted q by auto
          qed
        next
          case Raised
          then show thesis using threw d not_genesis other best p r w by auto
        next
          case (Rejected e)
          then show thesis using failed [of 0] d not_genesis other best p r w by (auto simp: views)
        qed
      qed
    qed
  qed
qed

section \<open>New entries\<close>

text \<open>What the entry of a new block records of the block and of its parent.\<close>

definition entry_for :: "external \<Rightarrow> node_env \<Rightarrow> CBlock \<Rightarrow> u32 \<Rightarrow> u32 \<Rightarrow> chain \<Rightarrow> CBlockIndex \<Rightarrow> bool" where
  "entry_for E env b nFile nBlockPos pprev p \<longleftrightarrow>
     bi_hash p = b_GetHash E (scrypt_hash (base_env env)) b \<and> bi_nFile p = nFile \<and> bi_nBlockPos p = nBlockPos \<and>
     nHeight p = (if pprev = [] then 0 else nHeight (hd pprev) + 1) \<and>
     (\<exists>trust. GetBlockTrust E p = Some trust \<and>
        nChainTrust p = (if pprev = [] then 0 else nChainTrust (hd pprev)) + trust) \<and>
     (bi_IsProofOfStake p \<longleftrightarrow> b_IsProofOfStake b) \<and> bi_nBits p = b_nBits b \<and> bi_nTime p = b_nTime b \<and>
     bi_nVersion p = b_nVersion b \<and> bi_hashMerkleRoot p = hashMerkleRoot b \<and>
     (pprev = [] \<longrightarrow> GeneratedStakeModifier p)"

lemma flag_bits: "(x OR y) AND (1 :: u32) = (x AND 1) OR (y AND 1)" "(x OR y) AND (4 :: u32) = (x AND 4) OR (y AND 4)"
  by (intro bit_word_eqI; auto simp: bit_simps)+

lemma GetBlockTrust_bits: "bi_nBits p = bi_nBits q \<Longrightarrow> GetBlockTrust E p = GetBlockTrust E q"
  by (simp add: GetBlockTrust_def)

lemma entropy_bit_le: "block_entropy_bit h \<le> 1"
proof -
  have "ucast h AND (1 :: u64) = of_bool (odd (ucast h :: u64))" by (simp add: and_one_eq mod_2_eq_odd)
  then have "ucast h AND (1 :: u64) = 0 \<or> ucast h AND (1 :: u64) = 1" by (cases "odd (ucast h :: u64)") simp_all
  then show ?thesis unfolding block_entropy_bit_def by (elim disjE) simp_all
qed

lemma AddToBlockIndex_cases:
  fixes E b s env
  defines "pprev \<equiv> (case mapBlockIndex s (hashPrevBlock b) of None \<Rightarrow> [] | Some c \<Rightarrow> c)"
    and "h \<equiv> b_GetHash E (scrypt_hash (base_env env)) b"
  assumes "AddToBlockIndex E env nFile nBlockPos proof b s = (v, s')"
  obtains (refused) "s' = s" "v \<noteq> Accepted ()" "mapBlockIndex s h \<noteq> None \<or>
      GetBlockTrust E (CBlockIndex_new h nFile nBlockPos b) = None \<or> ComputeNextStakeModifier E (mapBlockIndex s) pprev = None"
  | (added) p t where "mapBlockIndex s h = None" "entry_for E env b nFile nBlockPos pprev p" "hashProof p = proof"
      "ComputeNextStakeModifier E (mapBlockIndex s) pprev \<noteq> None"
      "t = s\<lparr>mapBlockIndex := (mapBlockIndex s)(h \<mapsto> p # pprev), setStakeSeen := (if b_IsProofOfStake b
        then insert (b_GetProofOfStake b) (setStakeSeen s) else setStakeSeen s)\<rparr>"
      "if nChainTrust p > nBestChainTrust s then SetBestChain E env b (p # pprev) t = (v, s')
       else v = Accepted () \<and> s' = t"
proof -
  let ?p = "CBlockIndex_new h nFile nBlockPos b"
  note d = assms(3) [unfolded AddToBlockIndex_def Let_def, folded pprev_def h_def]
  show thesis
  proof (cases "mapBlockIndex s h \<noteq> None \<or> GetBlockTrust E ?p = None \<or> ComputeNextStakeModifier E (mapBlockIndex s) pprev = None")
    case True
    then show thesis using d refused by (auto split: if_splits option.splits prod.splits)
  next
    case False
    then obtain trust modifier gen where o: "mapBlockIndex s h = None" "GetBlockTrust E ?p = Some trust"
      "ComputeNextStakeModifier E (mapBlockIndex s) pprev = Some (modifier, gen)" by auto
    let ?p1 = "?p\<lparr>nHeight := (if pprev = [] then 0 else nHeight (hd pprev) + 1),
      nChainTrust := (if pprev = [] then 0 else nChainTrust (hd pprev)) + trust\<rparr>"
    obtain ok p2 where p2: "SetStakeEntropyBit (block_entropy_bit h) ?p1 = (ok, p2)" by fastforce
    define p where "p = (SetStakeModifier modifier gen (p2\<lparr>hashProof := proof\<rparr>))\<lparr>nStakeModifier :=
      ComputeStakeModifierV2 E pprev (if \<not> b_IsProofOfStake b then h else op_hash (prevout (vin (vtx b ! 1) ! 0)))\<rparr>"
    show thesis
    proof (cases ok)
      case False
      have "block_entropy_bit h \<le> 1" by (simp add: entropy_bit_le)
      then have "\<not> block_entropy_bit h > 1" by (simp only: not_less)
      then have "ok" using p2 by (simp only: SetStakeEntropyBit_def if_False prod.inject simp_thms)
      then show thesis using False by simp
    next
      case True
      then have p2': "p2 = ?p1\<lparr>bi_nFlags := bi_nFlags ?p1 OR (if block_entropy_bit h \<noteq> 0 then 2 else 0)\<rparr>"
        using p2 by (auto simp: SetStakeEntropyBit_def split: if_splits)
      have gen: "gen" if "pprev = []" using o(3) that by (simp add: ComputeNextStakeModifier_def)
      have pos: "bi_IsProofOfStake p \<longleftrightarrow> b_IsProofOfStake b"
        unfolding p_def p2' SetStakeModifier_def Let_def
        by (simp add: bi_IsProofOfStake_def CBlockIndex_new_def flag_bits)
      have entry: "entry_for E env b nFile nBlockPos pprev p"
        unfolding entry_for_def pos using o(2) gen GetBlockTrust_bits [of p ?p]
        by (auto simp: p_def p2' SetStakeModifier_def Let_def h_def CBlockIndex_new_def GeneratedStakeModifier_def flag_bits)
      have stake: "(prevoutStake p, nStakeTime p) = b_GetProofOfStake b" if "b_IsProofOfStake b"
        using that by (simp add: p_def p2' SetStakeModifier_def Let_def CBlockIndex_new_def b_GetProofOfStake_def)
      have "hashProof p = proof" by (simp add: p_def SetStakeModifier_def Let_def)
      moreover
      let ?t = "s\<lparr>mapBlockIndex := (mapBlockIndex s)(h \<mapsto> p # pprev), setStakeSeen := (if bi_IsProofOfStake p
        then insert (prevoutStake p, nStakeTime p) (setStakeSeen s) else setStakeSeen s)\<rparr>"
      have "(if nChainTrust p > nBestChainTrust s then SetBestChain E env b (p # pprev) ?t
          else (Accepted (), ?t)) = (v, s')"
        unfolding p_def using d o p2 True by simp
      moreover have "?t = s\<lparr>mapBlockIndex := (mapBlockIndex s)(h \<mapsto> p # pprev), setStakeSeen := (if b_IsProofOfStake b
        then insert (b_GetProofOfStake b) (setStakeSeen s) else setStakeSeen s)\<rparr>"
        using stake pos by simp
      ultimately show thesis using added [OF o(1) entry _ _ refl] o(3) by (auto split: if_splits)
    qed
  qed
qed

end
