(* ===== verification/IndexProps.thy ===== *)
theory IndexProps
  imports NodeProps
begin

text \<open>
  The invariant of the index of blocks: every entry obeys the rules \<open>AcceptBlock\<close> checked, stands on an
  entry of the index, and adds its trust to that of its parent; the best chain is one of the index.
\<close>

section \<open>What AcceptBlock checks\<close>

text \<open>A block that was taken, against the chain it stands on.\<close>

definition block_rules :: "external \<Rightarrow> node_env \<Rightarrow> node \<Rightarrow> CBlock \<Rightarrow> chain \<Rightarrow> uint256 \<Rightarrow> bool" where
  "block_rules E env s b pprev proof \<longleftrightarrow>
     (let cenv = connect_env_of env s; height = nHeight (hd pprev) + 1; pos = b_IsProofOfStake b in
      b_nVersion b = 7 \<and> (\<not> pos \<longrightarrow> height \<le> nLastPOWBlock env) \<and>
      b_GetBlockTime b \<le> FutureDrift (int (unat (tx_nTime (vtx b ! 0)))) \<and>
      (pos \<longrightarrow> CheckCoinStakeTimestamp (b_GetBlockTime b) (int (unat (tx_nTime (vtx b ! 1))))) \<and>
      GetNextTargetRequired E (proof_of_work_limit cenv) (proof_of_stake_limit env) pprev pos = Some (b_nBits b) \<and>
      bi_GetBlockTime (hd pprev) < b_GetBlockTime b \<and>
      list_all (\<lambda>tx. IsFinalTx (nBestHeight s) (adjusted_time cenv) tx height (b_GetBlockTime b)) (vtx b) \<and>
      CheckHardened (fTestNet env) height (b_GetHash E (scrypt_hash cenv) b) \<and>
      (if pos then \<exists>target c. CheckProofOfStake E cenv (txindex s) pprev (vtx b ! 1) (b_nBits b) (signature_cache s) =
           (Accepted (proof, target), c)
       else proof = GetPoWHash (scrypt_hash cenv) b) \<and>
      CheckSync (pindexBest s) height = Some True \<and>
      take (length (push_int64 E [] height)) (scriptSig (vin (vtx b ! 0) ! 0)) = push_int64 E [] height)"

lemma connect_env_of_simps [simp]:
  "scrypt_hash (connect_env_of env s) = scrypt_hash (base_env env)"
  "proof_of_work_limit (connect_env_of env s) = proof_of_work_limit (base_env env)"
  "adjusted_time (connect_env_of env s) = adjusted_time (base_env env)"
  "max_data_carrier (connect_env_of env s) = max_data_carrier (base_env env)"
  "disk_tx (connect_env_of env s) = disk_tx (base_env env)"
  "disk_header (connect_env_of env s) = disk_header (base_env env)"
  "nStakeMinAge (connect_env_of env s) = nStakeMinAge (base_env env)"
  "nStakeMinConfirmations (connect_env_of env s) = nStakeMinConfirmations (base_env env)"
  "nCoinbaseMaturity (connect_env_of env s) = nCoinbaseMaturity (base_env env)"
  "best_height (connect_env_of env s) = nBestHeight s"
  "memory_pool (connect_env_of env s) = mempool s"
  by (simp_all add: connect_env_of_def)

lemma AcceptBlock_cases:
  assumes "AcceptBlock E env stored b s = (v, s')"
  obtains (refused) c where "s' = s\<lparr>signature_cache := c\<rparr>" "v \<noteq> Accepted ()"
  | (added) pprev hp nFile nBlockPos c where "mapBlockIndex s (hashPrevBlock b) = Some pprev"
      "block_rules E env s b pprev hp" "stored = Some (nFile, nBlockPos)"
      "AddToBlockIndex E env nFile nBlockPos hp b (s\<lparr>signature_cache := c\<rparr>) = (v, s')"
proof -
  let ?cenv = "connect_env_of env s" and ?pos = "b_IsProofOfStake b"
  let ?h = "b_GetHash E (scrypt_hash ?cenv) b"
  note d = assms [unfolded AcceptBlock_def Let_def]
  show thesis
  proof (cases "mapBlockIndex s (hashPrevBlock b)")
    case None
    then show thesis using d refused [of "signature_cache s"] by (auto split: if_splits)
  next
    case (Some pprev)
    let ?height = "nHeight (hd pprev) + 1"
    let ?required = "GetNextTargetRequired E (proof_of_work_limit ?cenv) (proof_of_stake_limit env) pprev ?pos"
    show thesis
    proof (cases "b_nVersion b = 7 \<and> mapBlockIndex s ?h = None \<and> (\<not> ?pos \<longrightarrow> ?height \<le> nLastPOWBlock env) \<and>
      b_GetBlockTime b \<le> FutureDrift (int (unat (tx_nTime (vtx b ! 0)))) \<and>
      (?pos \<longrightarrow> CheckCoinStakeTimestamp (b_GetBlockTime b) (int (unat (tx_nTime (vtx b ! 1))))) \<and>
      ?required = Some (b_nBits b) \<and> bi_GetBlockTime (hd pprev) < b_GetBlockTime b \<and>
      list_all (\<lambda>tx. IsFinalTx (nBestHeight s) (adjusted_time ?cenv) tx ?height (b_GetBlockTime b)) (vtx b) \<and>
      CheckHardened (fTestNet env) ?height ?h")
      case False
      then show thesis using d Some refused [of "signature_cache s"]
        by (cases ?required) (auto simp: list_ex_iff list_all_iff not_less split: if_splits)
    next
      case True
      then have t: "b_nVersion b = 7" "mapBlockIndex s ?h = None" "\<not> (\<not> ?pos \<and> ?height > nLastPOWBlock env)"
        "\<not> b_GetBlockTime b > FutureDrift (int (unat (tx_nTime (vtx b ! 0))))"
        "\<not> (?pos \<and> \<not> CheckCoinStakeTimestamp (b_GetBlockTime b) (int (unat (tx_nTime (vtx b ! 1)))))"
        "?required = Some (b_nBits b)"
        "\<not> (b_GetBlockTime b \<le> bi_GetBlockTime (hd pprev) \<or> FutureDrift (b_GetBlockTime b) < bi_GetBlockTime (hd pprev))"
        "\<not> list_ex (\<lambda>tx. \<not> IsFinalTx (nBestHeight s) (adjusted_time ?cenv) tx ?height (b_GetBlockTime b)) (vtx b)"
        "CheckHardened (fTestNet env) ?height ?h"
        by (auto simp: FutureDrift_def list_ex_iff list_all_iff)
      obtain r c where r: "(if ?pos then CheckProofOfStake E ?cenv (txindex s) pprev (vtx b ! 1) (b_nBits b) (signature_cache s)
          else (Accepted (GetPoWHash (scrypt_hash ?cenv) b, 0), signature_cache s)) = (r, c)" by fastforce
      have best: "pindexBest (s\<lparr>signature_cache := c\<rparr>) = pindexBest s" by simp
      have d: "(case r of Raised \<Rightarrow> (Raised, s\<lparr>signature_cache := c\<rparr>) | Rejected _ \<Rightarrow> (Rejected 0, s\<lparr>signature_cache := c\<rparr>)
        | Accepted (proof, _) \<Rightarrow> (case CheckSync (pindexBest s) ?height of None \<Rightarrow> (Raised, s\<lparr>signature_cache := c\<rparr>)
          | Some ok \<Rightarrow> if \<not> ok then (Rejected 0, s\<lparr>signature_cache := c\<rparr>)
            else if take (length (push_int64 E [] ?height)) (scriptSig (vin (vtx b ! 0) ! 0)) \<noteq> push_int64 E [] ?height
            then (Rejected 100, s\<lparr>signature_cache := c\<rparr>)
            else (case stored of None \<Rightarrow> (Rejected 0, s\<lparr>signature_cache := c\<rparr>)
              | Some (nFile, nBlockPos) \<Rightarrow> AddToBlockIndex E env nFile nBlockPos proof b (s\<lparr>signature_cache := c\<rparr>)))) =
        (v, s')"
        using d by (cases r)
          (simp_all only: t Some r option.case if_False if_True simp_thms prod.case verdict.case less_irrefl
            node.ext_inject node.select_convs node.update_convs best)
      show thesis
      proof (cases "\<exists>proof target nFile nBlockPos. r = Accepted (proof, target) \<and> CheckSync (pindexBest s) ?height = Some True \<and>
          take (length (push_int64 E [] ?height)) (scriptSig (vin (vtx b ! 0) ! 0)) = push_int64 E [] ?height \<and>
          stored = Some (nFile, nBlockPos)")
        case False
        then show thesis using d refused [of c] by (auto split: verdict.splits option.splits if_splits)
      next
        case True
        then obtain hp target nFile nBlockPos where a: "r = Accepted (hp, target)"
          "CheckSync (pindexBest s) ?height = Some True" "stored = Some (nFile, nBlockPos)"
          "take (length (push_int64 E [] ?height)) (scriptSig (vin (vtx b ! 0) ! 0)) = push_int64 E [] ?height" by blast
        have "block_rules E env s b pprev hp"
          using t r a by (auto simp: block_rules_def Let_def list_ex_iff list_all_iff split: if_splits)
        then show thesis using added [OF Some _ a(3)] d a by simp
      qed
    qed
  qed
qed

section \<open>The invariant\<close>

definition entry_rules :: "external \<Rightarrow> node_env \<Rightarrow> chain \<Rightarrow> CBlockIndex \<Rightarrow> bool" where
  "entry_rules E env pprev p \<longleftrightarrow>
     bi_nVersion p = 7 \<and> (\<not> bi_IsProofOfStake p \<longrightarrow> nHeight p \<le> nLastPOWBlock env) \<and>
     GetNextTargetRequired E (proof_of_work_limit (base_env env)) (proof_of_stake_limit env) pprev
       (bi_IsProofOfStake p) = Some (bi_nBits p) \<and>
     bi_GetBlockTime (hd pprev) < bi_GetBlockTime p \<and> CheckHardened (fTestNet env) (nHeight p) (bi_hash p)"

fun chain_ok :: "external \<Rightarrow> node_env \<Rightarrow> chain \<Rightarrow> bool" where
  "chain_ok E env [] = False"
| "chain_ok E env [p] \<longleftrightarrow> nHeight p = 0 \<and> GeneratedStakeModifier p \<and> GetBlockTrust E p = Some (nChainTrust p)"
| "chain_ok E env (p # q # ps) \<longleftrightarrow> nHeight p = nHeight q + 1 \<and>
     (\<exists>trust. GetBlockTrust E p = Some trust \<and> nChainTrust p = nChainTrust q + trust) \<and>
     entry_rules E env (q # ps) p \<and> chain_ok E env (q # ps)"

definition block_index_ok :: "external \<Rightarrow> node_env \<Rightarrow> CBlockIndex \<Rightarrow> (uint256 \<Rightarrow> chain option) \<Rightarrow> bool" where
  "block_index_ok E env g m \<longleftrightarrow>
     (\<forall>h c. m h = Some c \<longrightarrow> chain_ok E env c \<and> bi_hash (hd c) = h \<and> indexed m c \<and> last c = g)"

definition node_ok :: "external \<Rightarrow> node_env \<Rightarrow> node \<Rightarrow> bool" where
  "node_ok E env s \<longleftrightarrow> (\<exists>g. pindexGenesisBlock s = [g] \<and> block_index_ok E env g (mapBlockIndex s)) \<and>
     mapBlockIndex s (hashBestChain s) = Some (pindexBest s) \<and> nBestHeight s = nHeight (hd (pindexBest s)) \<and>
     nBestChainTrust s = nChainTrust (hd (pindexBest s))"

lemma node_okI:
  assumes "pindexGenesisBlock s = [g]" "block_index_ok E env g (mapBlockIndex s)"
    and "mapBlockIndex s (hashBestChain s) = Some (pindexBest s)" "nBestHeight s = nHeight (hd (pindexBest s))"
    and "nBestChainTrust s = nChainTrust (hd (pindexBest s))"
  shows "node_ok E env s"
  using assms by (auto simp: node_ok_def)

lemma best_viewD:
  assumes "best_view s = best_view t"
  shows "pindexGenesisBlock s = pindexGenesisBlock t" "pindexBest s = pindexBest t"
    "hashBestChain s = hashBestChain t" "nBestHeight s = nBestHeight t" "nBestChainTrust s = nBestChainTrust t"
  using assms by (simp_all add: best_view_def)

lemma chain_ok_nonempty: "chain_ok E env c \<Longrightarrow> c \<noteq> []"
  by auto

lemma chain_ok_Cons:
  "ps \<noteq> [] \<Longrightarrow> chain_ok E env (p # ps) \<longleftrightarrow> nHeight p = nHeight (hd ps) + 1 \<and>
     (\<exists>trust. GetBlockTrust E p = Some trust \<and> nChainTrust p = nChainTrust (hd ps) + trust) \<and>
     entry_rules E env ps p \<and> chain_ok E env ps"
  by (cases ps) auto

lemma chain_ok_heights: "chain_ok E env c \<Longrightarrow> heights_ok c"
proof (induction c)
  case (Cons p ps)
  then show ?case by (cases ps) auto
qed simp

lemma chain_ok_generated: "chain_ok E env c \<Longrightarrow> GeneratedStakeModifier (last c)"
proof (induction c)
  case (Cons p ps)
  then show ?case by (cases ps) auto
qed simp

lemma indexed_mono: "indexed m c \<Longrightarrow> m h = None \<Longrightarrow> indexed (m(h \<mapsto> d)) c"
  by (induction c) auto

text \<open>The parameters of the chain, which no block changes.\<close>

definition same_chain :: "node_env \<Rightarrow> node_env \<Rightarrow> bool" where
  "same_chain env env0 \<longleftrightarrow> fTestNet env = fTestNet env0 \<and> nLastPOWBlock env = nLastPOWBlock env0 \<and>
     proof_of_stake_limit env = proof_of_stake_limit env0 \<and> hashGenesisBlock env = hashGenesisBlock env0 \<and>
     proof_of_work_limit (base_env env) = proof_of_work_limit (base_env env0) \<and>
     scrypt_hash (base_env env) = scrypt_hash (base_env env0)"

lemma entry_rules_same: "same_chain env env0 \<Longrightarrow> entry_rules E env ps p \<longleftrightarrow> entry_rules E env0 ps p"
  by (simp add: entry_rules_def same_chain_def)

lemma new_entry_rules:
  assumes "entry_for E env b nFile nBlockPos pprev p" "block_rules E env s b pprev hp" "pprev \<noteq> []"
  shows "entry_rules E env pprev p"
  using assms by (auto simp: entry_for_def block_rules_def entry_rules_def Let_def b_GetBlockTime_def bi_GetBlockTime_def)

lemma block_index_ok_add:
  assumes "block_index_ok E env0 g m" "same_chain env env0" "m h = None" "m (hashPrevBlock b) = Some pprev"
    and "entry_for E env b nFile nBlockPos pprev p" "entry_rules E env pprev p"
    and "h = b_GetHash E (scrypt_hash (base_env env)) b"
  shows "block_index_ok E env0 g (m(h \<mapsto> p # pprev))"
proof -
  have prev: "chain_ok E env0 pprev" "indexed m pprev" "last pprev = g"
    using assms(1,4) by (auto simp: block_index_ok_def)
  have ne: "pprev \<noteq> []" using prev(1) by auto
  have hash: "bi_hash p = h" using assms(5,7) by (simp add: entry_for_def)
  have "chain_ok E env0 (p # pprev)"
    using assms(5,6) prev(1) ne entry_rules_same [OF assms(2)] by (auto simp: chain_ok_Cons entry_for_def)
  moreover have "indexed (m(h \<mapsto> p # pprev)) (p # pprev)"
    using indexed_mono [OF prev(2) assms(3)] hash by simp
  moreover have "last (p # pprev) = g" using prev(3) ne by simp
  ultimately show ?thesis
    using assms(1) indexed_mono [where m = m and h = h, OF _ assms(3)] hash by (auto simp: block_index_ok_def)
qed

lemma SetBestChain_best:
  assumes "SetBestChain E env b c s = (v, s')" "pindexGenesisBlock s \<noteq> []"
  shows "index_view s' = index_view s \<and> pindexGenesisBlock s' = pindexGenesisBlock s \<and>
    (best_view s' = best_view s \<or> pindexBest s' = c \<and> hashBestChain s' = b_GetHash E (scrypt_hash (base_env env)) b \<and>
       nBestHeight s' = nHeight (hd c) \<and> nBestChainTrust s' = nChainTrust (hd c))"
  using assms(1)
proof (cases rule: SetBestChain_cases)
  case genesis
  then show ?thesis using assms(2) by simp
next
  case (extend t)
  then show ?thesis using SetBestChainInner_views(1,2) [OF extend(3)] by (simp add: views best_view_def)
next
  case (fork u t vs i)
  then show ?thesis using Reorganize_views(1,2) [OF fork(5)] connect_rest_views [OF fork(6)]
    by (simp add: views best_view_def)
qed (auto simp: best_view_def)

text \<open>Accepting a block: the invariant is kept, and the best chain is the old one or one with more trust.\<close>

lemma AcceptBlock_node_ok:
  assumes "AcceptBlock E env stored b s = (v, s')" "node_ok E env0 s" "same_chain env env0"
  shows "node_ok E env0 s' \<and> mapBlockIndex s \<subseteq>\<^sub>m mapBlockIndex s' \<and>
    (best_view s' = best_view s \<or> nBestChainTrust s < nBestChainTrust s')"
proof -
  obtain g where g: "pindexGenesisBlock s = [g]" "block_index_ok E env0 g (mapBlockIndex s)"
    and best: "mapBlockIndex s (hashBestChain s) = Some (pindexBest s)" "nBestHeight s = nHeight (hd (pindexBest s))"
      "nBestChainTrust s = nChainTrust (hd (pindexBest s))"
    using assms(2) by (auto simp: node_ok_def)
  show ?thesis
    using assms(1)
  proof (cases rule: AcceptBlock_cases)
    case (refused c)
    then show ?thesis using assms(2) by (simp add: node_ok_def best_view_def)
  next
    case (added pprev hp nFile nBlockPos c)
    let ?s = "s\<lparr>signature_cache := c\<rparr>" and ?h = "b_GetHash E (scrypt_hash (base_env env)) b"
    show ?thesis
      using added(4)
    proof (cases rule: AddToBlockIndex_cases)
      case refused
      then show ?thesis using assms(2) by (simp add: node_ok_def best_view_def)
    next
      case p: (added p t)
      have prev: "(case mapBlockIndex ?s (hashPrevBlock b) of None \<Rightarrow> [] | Some c \<Rightarrow> c) = pprev"
        using added(1) by simp
      note p = p [unfolded prev]
      have "pprev \<noteq> []" using g(2) added(1) by (auto simp: block_index_ok_def dest!: chain_ok_nonempty)
      have ok: "block_index_ok E env0 g ((mapBlockIndex s)(?h \<mapsto> p # pprev))"
        using block_index_ok_add [OF g(2) assms(3) _ added(1) p(2) new_entry_rules [OF p(2) added(2) \<open>pprev \<noteq> []\<close>]] p(1) by simp
      have map_le: "mapBlockIndex s \<subseteq>\<^sub>m (mapBlockIndex s)(?h \<mapsto> p # pprev)"
        using p(1) by (auto simp: map_le_def)
      have t: "mapBlockIndex t = (mapBlockIndex s)(?h \<mapsto> p # pprev)" "best_view t = best_view s"
        "pindexGenesisBlock t = [g]" using p(5) g(1) by (simp_all add: best_view_def)
      have still: "mapBlockIndex t (hashBestChain s) = Some (pindexBest s)"
        using best(1) p(1) t(1) by auto
      show ?thesis
      proof (cases "nChainTrust p > nBestChainTrust ?s")
        case False
        then have s': "s' = t" using p(6) by simp
        have "node_ok E env0 t"
          using ok still best(2,3) t(1,3) best_viewD [OF t(2)] by (intro node_okI [of _ g]) simp_all
        then show ?thesis using map_le t s' by simp
      next
        case True
        then have "SetBestChain E env b (p # pprev) t = (v, s')" using p(6) by simp
        from SetBestChain_best [OF this] t(3) have r: "index_view s' = index_view t" "pindexGenesisBlock s' = [g]"
          "best_view s' = best_view t \<or> pindexBest s' = p # pprev \<and> hashBestChain s' = ?h \<and>
            nBestHeight s' = nHeight p \<and> nBestChainTrust s' = nChainTrust p" by auto
        have m: "mapBlockIndex s' = (mapBlockIndex s)(?h \<mapsto> p # pprev)" using r(1) t(1) by (simp add: index_view_def)
        from r(3) show ?thesis
        proof
          assume "best_view s' = best_view t"
          with t(2) have b: "best_view s' = best_view s" by simp
          then have "node_ok E env0 s'"
            using ok still best(2,3) t(1) r(2) m best_viewD [OF b] by (intro node_okI [of _ g]) simp_all
          then show ?thesis using map_le m b by simp
        next
          assume "pindexBest s' = p # pprev \<and> hashBestChain s' = ?h \<and> nBestHeight s' = nHeight p \<and>
            nBestChainTrust s' = nChainTrust p"
          moreover from this have "node_ok E env0 s'" using ok r(2) m by (intro node_okI [of _ g]) simp_all
          ultimately show ?thesis using map_le m True by simp
        qed
      qed
    qed
  qed
qed

section \<open>Reachable states\<close>

text \<open>
  The program starts with the genesis block, which becomes the best chain; after that every block goes
  through \<open>AcceptBlock\<close>, in whatever circumstances and whatever the outcome, with the parameters of one chain.
\<close>

inductive node_reach :: "external \<Rightarrow> node_env \<Rightarrow> node \<Rightarrow> bool" for E env0 where
  genesis: "same_chain env env0 \<Longrightarrow> b_GetHash E (scrypt_hash (base_env env)) b = hashGenesisBlock env \<Longrightarrow>
    AddToBlockIndex E env nFile nBlockPos (hashGenesisBlock env) b (node_start c) = (Accepted (), s) \<Longrightarrow>
    pindexBest s \<noteq> [] \<Longrightarrow> node_reach E env0 s"
| accept: "node_reach E env0 s \<Longrightarrow> same_chain env env0 \<Longrightarrow> AcceptBlock E env stored b s = (v, s') \<Longrightarrow>
    node_reach E env0 s'"

lemma genesis_node_ok:
  assumes "same_chain env env0" "b_GetHash E (scrypt_hash (base_env env)) b = hashGenesisBlock env"
    and "AddToBlockIndex E env nFile nBlockPos hp b (node_start c) = (Accepted (), s)" "pindexBest s \<noteq> []"
  shows "node_ok E env0 s"
  using assms(3)
proof (cases rule: AddToBlockIndex_cases)
  case refused
  then show ?thesis by simp
next
  case p: (added p t)
  let ?h = "b_GetHash E (scrypt_hash (base_env env)) b"
  have prev: "(case mapBlockIndex (node_start c) (hashPrevBlock b) of None \<Rightarrow> [] | Some c \<Rightarrow> c) = []"
    by (simp add: node_start_def)
  note p = p [unfolded prev]
  have t: "mapBlockIndex t = [?h \<mapsto> [p]]" "pindexBest t = []" "pindexGenesisBlock t = []"
    using p(5) by (simp_all add: node_start_def)
  have "SetBestChain E env b [p] t = (Accepted (), s)" using p(6) t(2) assms(4) by (auto split: if_splits)
  moreover have "chain_ok E env0 [p]" "bi_hash p = ?h" using p(2) by (auto simp: entry_for_def)
  ultimately show ?thesis
    using t assms(2)
    by (auto simp: SetBestChain_def Let_def node_ok_def block_index_ok_def new_best_def)
qed

lemma node_reach_ok: "node_reach E env0 s \<Longrightarrow> node_ok E env0 s"
proof (induction rule: node_reach.induct)
  case (genesis env b nFile nBlockPos c s)
  then show ?case by (intro genesis_node_ok)
next
  case (accept s env stored b v s')
  then show ?case using AcceptBlock_node_ok by blast
qed

end
