(* ===== verification/ReorgProps.thy ===== *)
theory ReorgProps
  imports IndexProps
begin

text \<open>
  The transaction index follows the best chain: through \<open>Reorganize\<close>, the blocks connected after it,
  \<open>SetBestChain\<close> and \<open>AcceptBlock\<close>.
\<close>

section \<open>The postponed blocks\<close>

lemma postponed_props:
  "c \<noteq> [] \<Longrightarrow> postponed t c = (vs, i) \<Longrightarrow> suffix i c \<and> i \<noteq> [] \<and> vs = blocks_above i c"
proof (induction t c arbitrary: vs rule: postponed.induct)
  case (1 t p q ps)
  show ?case
  proof (cases "nChainTrust q > t")
    case True
    then obtain ws where w: "postponed t (q # ps) = (ws, i)" "vs = (p # q # ps) # ws"
      using 1(3) by (auto split: prod.splits)
    from 1(1) [OF True _ w(1)] have i: "suffix i (q # ps)" "i \<noteq> []" "ws = blocks_above i (q # ps)" by auto
    then have "p # q # ps \<noteq> i" by (auto dest: suffix_length_le)
    with i w(2) show ?thesis by (simp add: suffix_ConsI)
  next
    case False
    then show ?thesis using 1(3) by auto
  qed
qed auto

lemma postponed_none: "nChainTrust (hd ps) \<le> t \<Longrightarrow> postponed t (p # ps) = ([], p # ps)"
  by (cases ps) auto

text \<open>Lists of entries, each on the one before.\<close>

fun steps :: "chain \<Rightarrow> chain list \<Rightarrow> bool" where
  "steps f [] = True"
| "steps f (c # cs) \<longleftrightarrow> (\<exists>p. c = p # f) \<and> steps c cs"

lemma steps_append: "steps f (cs @ [c]) \<longleftrightarrow> steps f cs \<and> (\<exists>p. c = p # last (f # cs))"
  by (induction cs arbitrary: f) auto

lemma steps_blocks_above:
  "suffix f c \<Longrightarrow> f \<noteq> [] \<Longrightarrow> steps f (rev (blocks_above f c)) \<and> last (f # rev (blocks_above f c)) = c"
  by (induction c rule: suffix_induct) (auto simp: steps_append)

lemma blocks_above_suffix: "d \<in> set (blocks_above f c) \<Longrightarrow> suffix d c \<and> d \<noteq> []"
  by (induction c) (auto simp: suffix_Cons split: if_splits)

section \<open>Connecting one block after the other\<close>

definition fresh :: "external \<Rightarrow> (chain \<Rightarrow> CBlock option) \<Rightarrow> chain \<Rightarrow> bool" where
  "fresh E rd c \<longleftrightarrow> distinct (chain_hashes E rd c) \<and> list_all (\<lambda>p. bi_nFile p \<noteq> - 1) c"

lemma fresh_suffix: "fresh E rd c \<Longrightarrow> suffix d c \<Longrightarrow> d \<noteq> [] \<Longrightarrow> fresh E rd d"
  using chain_hashes_suffix by (fastforce simp: fresh_def suffix_def list_all_iff)

lemma SetBestChainInner_index:
  assumes "SetBestChainInner E env b (p # f) s = (Accepted (), s')" "index_of E rd f (txindex s)"
    and "rd (p # f) = Some b" "fresh E rd (p # f)"
  shows "index_of E rd (p # f) (txindex s')"
proof -
  obtain d mint sup cache where d:
    "ConnectBlock E (connect_env_of env s) (txindex s) (p # f) (prev_supply (nMoneySupply s) (p # f)) False b
      (signature_cache s) = Accepted (d, mint, sup, cache)" "txindex s' = d"
    by (rule SetBestChainInner_Accepted [OF assms(1)])
  have "f \<noteq> []" by (rule index_of_nonempty [OF assms(2)])
  then have "\<forall>tx \<in> set (vtx b). txindex s (tx_GetHash E tx) = None"
    using assms(3,4) index_of_dom [OF assms(2)] by (auto simp: fresh_def chain_hashes_Cons domIff)
  with index_of.connect [OF assms(2,3) _ _ d(1)] assms(4) d(2) show ?thesis by (simp add: fresh_def)
qed

lemma connect_rest_index:
  assumes "connect_rest E env cs s = (Accepted (), s')" "index_of E (read_block E env) f (txindex s)"
    and "steps f cs" "\<forall>c \<in> set cs. fresh E (read_block E env) c"
  shows "\<exists>g \<in> set (f # cs). index_of E (read_block E env) g (txindex s')"
  using assms
proof (induction cs arbitrary: s f)
  case (Cons c cs)
  obtain p where c: "c = p # f" using Cons.prems(3) by auto
  show ?case
  proof (cases "read_block E env c")
    case None
    then show ?thesis using Cons.prems by auto
  next
    case (Some b)
    obtain v t where t: "SetBestChainInner E env b c s = (v, t)" by fastforce
    show ?thesis
    proof (cases v)
      case (Accepted x)
      then have "index_of E (read_block E env) c (txindex t)"
        using SetBestChainInner_index [of E env b p f s t] t Some Cons.prems(2,4) c by simp
      moreover have "connect_rest E env cs t = (Accepted (), s')" using Cons.prems(1) Some t Accepted by simp
      ultimately show ?thesis using Cons.IH [of t c] Cons.prems(3,4) by auto
    next
      case (Rejected d)
      then have "s' = t" using Cons.prems(1) Some t by simp
      then have "txindex s' = txindex s" using SetBestChainInner_views(3) [OF t Rejected] by (simp add: stored_view_def)
      then show ?thesis using Cons.prems(2) by simp
    qed (use Cons.prems(1) Some t in simp)
  qed
qed simp

section \<open>Reorganize\<close>

lemma Reorganize_index:
  assumes "Reorganize E env s c = (Accepted (), s')"
    and "index_of E (read_block E env) (pindexBest s) (txindex s)" "fresh E (read_block E env) c"
  shows "index_of E (read_block E env) c (txindex s')"
proof -
  obtain f d txs w where f: "find_fork (pindexBest s) c = Some f"
    and d: "disconnect_blocks E env (blocks_above f (pindexBest s)) (txindex s, []) = Some (d, txs)"
    and w: "connect_blocks E env (connect_env_of env s) (rev (blocks_above f c)) \<lparr>w_txdb = d, w_nMint = nMint s,
       w_nMoneySupply = nMoneySupply s, w_cache = signature_cache s, vDelete = []\<rparr> = (Accepted (), w)"
    and s': "txindex s' = w_txdb w"
    by (rule Reorganize_Accepted [OF assms(1)])
  have suf: "suffix f (pindexBest s)" "suffix f c" "f \<noteq> []" using find_fork_suffix [OF f] by auto
  obtain d' txs' where "disconnect_blocks E env (blocks_above f (pindexBest s)) (txindex s, []) = Some (d', txs')"
    "index_of E (read_block E env) f d'"
    by (rule disconnect_blocks_index [OF suf(1,3) assms(2)])
  with d have "index_of E (read_block E env) f d" by simp
  with connect_blocks_index [OF suf(2,3) _ _ _ w] assms(3) s' show ?thesis by (simp add: fresh_def)
qed

section \<open>SetBestChain\<close>

lemma SetBestChain_index:
  assumes "SetBestChain E env b (p # pprev) s = (Accepted (), s')" "pindexGenesisBlock s \<noteq> []"
    and "index_of E (read_block E env) (pindexBest s) (txindex s)"
    and "mapBlockIndex s (hashBestChain s) = Some (pindexBest s)" "mapBlockIndex s (hashPrevBlock b) = Some pprev"
    and "read_block E env (p # pprev) = Some b" "fresh E (read_block E env) (p # pprev)"
  shows "\<exists>g. suffix g (p # pprev) \<and> index_of E (read_block E env) g (txindex s') \<and>
    (nChainTrust (hd pprev) \<le> nChainTrust (hd (pindexBest s)) \<longrightarrow> g = p # pprev)"
  using assms(1)
proof (cases rule: SetBestChain_cases)
  case genesis
  then show ?thesis using assms(2) by simp
next
  case (extend t)
  then have "pprev = pindexBest s" using assms(4,5) by simp
  with SetBestChainInner_index [OF extend(3) _ assms(6,7)] assms(3) extend(4) show ?thesis by (auto simp: views)
next
  case (fork u t vs i)
  have p: "suffix i (p # pprev)" "i \<noteq> []" "vs = blocks_above i (p # pprev)"
    using postponed_props [OF _ fork(4)] by auto
  have "index_of E (read_block E env) i (txindex t)"
    by (rule Reorganize_index [OF fork(5) assms(3) fresh_suffix [OF assms(7) p(1,2)]])
  moreover have "\<forall>c \<in> set (rev vs). fresh E (read_block E env) c"
    using fresh_suffix [OF assms(7)] blocks_above_suffix [of _ i "p # pprev"] p(3) by auto
  moreover have "steps i (rev vs)" using steps_blocks_above [OF p(1,2)] p(3) by simp
  ultimately obtain g where g: "g \<in> set (i # rev vs)" "index_of E (read_block E env) g (txindex u)"
    using connect_rest_index [OF fork(6), of i] by blast
  have "suffix g (p # pprev)" using g(1) p blocks_above_suffix [of g i "p # pprev"] by auto
  moreover have "g = p # pprev" if "nChainTrust (hd pprev) \<le> nChainTrust (hd (pindexBest s))"
    using g(1) fork(4) postponed_none [OF that, of p] by auto
  ultimately show ?thesis using g(2) fork(7) by (auto simp: views)
qed (use assms in auto)

section \<open>AcceptBlock\<close>

lemma AcceptBlock_index:
  assumes "AcceptBlock E env (Some (nFile, nBlockPos)) b s = (v, s')" "v \<noteq> Raised" "node_ok E env0 s" "same_chain env env0"
    and "index_of E (read_block E env) (pindexBest s) (txindex s)" "mapBlockIndex s (hashPrevBlock b) = Some pprev"
    and "nChainTrust (hd pprev) \<le> nBestChainTrust s" "fresh E (read_block E env) pprev"
    and "disk_block env nFile nBlockPos = Some b" "nFile \<noteq> - 1"
    and "b_IsProofOfStake b \<or> CheckProofOfWork E (proof_of_work_limit (base_env env))
      (GetPoWHash (scrypt_hash (base_env env)) b) (b_nBits b)"
    and "distinct (map (tx_GetHash E) (vtx b) @ chain_hashes E (read_block E env) pprev)"
  shows "index_of E (read_block E env) (pindexBest s') (txindex s')"
  using assms(1)
proof (cases rule: AcceptBlock_cases)
  case (refused c)
  then show ?thesis using assms(5) by simp
next
  case (added pprev' hp nFile' nBlockPos' c)
  let ?s = "s\<lparr>signature_cache := c\<rparr>" and ?h = "b_GetHash E (scrypt_hash (base_env env)) b"
  have a: "pprev' = pprev" "nFile' = nFile" "nBlockPos' = nBlockPos" using added(1,3) assms(6) by auto
  show ?thesis
    using added(4)
  proof (cases rule: AddToBlockIndex_cases)
    case refused
    then show ?thesis using assms(5) by simp
  next
    case p: (added p t)
    have prev: "(case mapBlockIndex ?s (hashPrevBlock b) of None \<Rightarrow> [] | Some c \<Rightarrow> c) = pprev"
      using assms(6) by simp
    note p = p [unfolded prev a]
    have t: "pindexBest t = pindexBest s" "txindex t = txindex s" "hashBestChain t = hashBestChain s"
      "pindexGenesisBlock t = pindexGenesisBlock s" "mapBlockIndex t = (mapBlockIndex s)(?h \<mapsto> p # pprev)"
      using p(5) by simp_all
    obtain g where g: "pindexGenesisBlock s = [g]" "mapBlockIndex s (hashBestChain s) = Some (pindexBest s)"
      "nBestChainTrust s = nChainTrust (hd (pindexBest s))" "block_index_ok E env0 g (mapBlockIndex s)"
      using assms(3) by (auto simp: node_ok_def)
    show ?thesis
    proof (cases "nChainTrust p > nBestChainTrust ?s")
      case False
      then show ?thesis using p(6) t assms(5) by simp
    next
      case True
      then have sb: "SetBestChain E env b (p # pprev) t = (v, s')" using p(6) by simp
      show ?thesis
      proof (cases v)
        case (Rejected d)
        from sb show ?thesis
          by (cases rule: SetBestChain_cases) (use Rejected t assms(5) in \<open>auto simp: best_view_def stored_view_def\<close>)
      next
        case (Accepted x)
        have ne: "pprev \<noteq> []" using g(4) assms(6) by (auto simp: block_index_ok_def dest!: chain_ok_nonempty)
        have rd: "read_block E env (p # pprev) = Some b"
          using p(2) assms(9,11) by (auto simp: read_block_def entry_for_def)
        have fresh: "fresh E (read_block E env) (p # pprev)"
          using rd ne assms(8,10,12) p(2) by (simp add: fresh_def chain_hashes_Cons entry_for_def)
        have still: "mapBlockIndex t (hashBestChain t) = Some (pindexBest t)" "mapBlockIndex t (hashPrevBlock b) = Some pprev"
          using g(2) assms(6) p(1) t by auto
        from sb Accepted have sb: "SetBestChain E env b (p # pprev) t = (Accepted (), s')" by simp
        have "pindexBest s' = p # pprev"
          using sb by (cases rule: SetBestChain_cases) (auto simp: views)
        with SetBestChain_index [OF sb _ _ still rd fresh] t g(1,3) assms(5,7) show ?thesis by auto
      qed (use assms(2) in simp)
    qed
  qed
qed

section \<open>The pool after a reorganisation\<close>

text \<open>A rank can be taken below the number of entries.\<close>

lemma ranked_compress:
  assumes "ranked rank B pool"
  shows "\<exists>r. ranked r (length (mapTx pool)) pool"
proof -
  let ?dom = "dom (map_of (mapTx pool))"
  let ?below = "\<lambda>k. {j \<in> ?dom. rank j < rank k}"
  let ?r = "\<lambda>k. if k \<in> ?dom then Suc (card (?below k)) else 0"
  have fin: "finite ?dom" by (simp add: finite_dom_map_of)
  have "card ?dom \<le> length (mapTx pool)"
    using card_length [of "map fst (mapTx pool)"] by (simp add: dom_map_of_conv_image_fst)
  moreover have "card (?below k) < card ?dom" if "k \<in> ?dom" for k
  proof (rule psubset_card_mono [OF fin])
    have "k \<notin> ?below k" by simp
    then show "?below k \<subset> ?dom" using that by blast
  qed
  ultimately have bound: "?r k \<le> length (mapTx pool)" if "k \<in> ?dom" for k using that by fastforce
  have less: "?r j < ?r k" if "k \<in> ?dom" "rank j < rank k" for j k
  proof (cases "j \<in> ?dom")
    case True
    have "j \<in> ?below k" "j \<notin> ?below j" using True that(2) by simp_all
    moreover have "?below j \<subseteq> ?below k" using that(2) by (blast intro: less_trans)
    ultimately have "?below j \<subset> ?below k" by blast
    then have "card (?below j) < card (?below k)" using fin by (intro psubset_card_mono) auto
    then show ?thesis using True that(1) by simp
  qed (use that in simp)
  have "ranked ?r (length (mapTx pool)) pool"
    unfolding ranked_def
  proof (intro allI impI conjI)
    fix h tx
    assume h: "map_of (mapTx pool) h = Some tx"
    then have "h \<in> ?dom" by blast
    then show "?r h \<le> length (mapTx pool)" by (rule bound)
    fix i
    assume "i < length (vin tx)"
    with rankedD(2) [OF assms h] have "rank (op_hash (prevout (vin tx ! i))) < rank h" by blast
    with \<open>h \<in> ?dom\<close> show "?r (op_hash (prevout (vin tx ! i))) < ?r h" by (intro less)
  qed
  then show ?thesis by blast
qed

lemma pool_remove_one:
  assumes "pool_ok E pool" "ranked rank B pool" "\<forall>t. map_of (mapTx pool) (tx_GetHash E tx) = Some t \<longrightarrow> t = tx"
  shows "\<exists>p. pool_remove 1 E False tx pool = Some p \<and> shrinks E rank 0 pool p"
proof (cases "map_of (mapTx pool) (tx_GetHash E tx)")
  case None
  then show ?thesis using assms(1) by (simp add: Let_def pool_exists_def shrinks_refl)
next
  case (Some t)
  then have t: "map_of (mapTx pool) (tx_GetHash E tx) = Some tx" using assms(3) by simp
  with shrinks_remove_one [OF assms(1) t] show ?thesis by (simp add: Let_def pool_exists_def)
qed

lemma delete_connected_total:
  assumes "pool_ok E pool" "ranked rank B pool"
    and "\<forall>tx \<in> set txs. \<forall>t. map_of (mapTx pool) (tx_GetHash E tx) = Some t \<longrightarrow> t = tx"
  shows "\<exists>p. delete_connected E txs pool = Some p \<and> pool_ok E p"
  using assms
proof (induction txs arbitrary: pool)
  case (Cons tx txs)
  obtain p where p: "pool_remove 1 E False tx pool = Some p" "shrinks E rank 0 pool p"
    using pool_remove_one [OF Cons.prems(1,2), of tx] Cons.prems(3) by auto
  have pr: "ranked rank B p" "pool_ok E p" using shrinks_ranked [OF p(2) Cons.prems(2)] p(2) by (simp_all add: shrinks_def)
  obtain r where "ranked r (length (mapTx p)) p" using ranked_compress [OF pr(1)] by blast
  then obtain q where q: "removeConflicts (length (mapTx p) + 1) E tx p = Some q" "shrinks E r 0 p q"
    using conflicts_loop_clears [OF pr(2), of r "length (mapTx p)" "length (mapTx p) + 1" tx "vin tx"]
    by (auto simp: removeConflicts_def)
  have sub: "map_of (mapTx pool) k = Some t" if "map_of (mapTx q) k = Some t" for k t
    using shrinksD(2) [OF p(2) shrinksD(2) [OF q(2) that]] .
  have "pool_ok E q" using q(2) by (simp add: shrinks_def)
  moreover have "ranked rank B q" using Cons.prems(2) sub unfolding ranked_def by blast
  moreover have "\<forall>tx \<in> set txs. \<forall>t. map_of (mapTx q) (tx_GetHash E tx) = Some t \<longrightarrow> t = tx"
    using Cons.prems(3) sub by auto
  ultimately show ?case using Cons.IH [of q] p(1) q(1) by simp
qed simp

text \<open>What a block takes out of the pool, alone or at the end of a reorganisation, are steps of the pool.\<close>

lemma remove_connected_reachable:
  assumes "pool_reachable E rank B pool"
    and "\<forall>tx \<in> set txs. \<forall>t. map_of (mapTx pool) (tx_GetHash E tx) = Some t \<longrightarrow> t = tx"
  shows "\<exists>p. remove_connected E txs pool = Some p \<and> pool_reachable E rank B p"
  using assms
proof (induction txs arbitrary: pool)
  case (Cons tx txs)
  obtain p where p: "pool_remove 1 E False tx pool = Some p" "shrinks E rank 0 pool p"
    using pool_remove_one [of E pool rank B tx] pool_reachable_ok [OF Cons.prems(1)] Cons.prems(2) by auto
  have "map_of (mapTx pool) (tx_GetHash E tx) \<in> {None, Some tx}" using Cons.prems(2) by (cases "map_of (mapTx pool) (tx_GetHash E tx)") auto
  then have "pool_reachable E rank B p" by (rule pool_reachable.remove [OF Cons.prems(1) _ p(1)])
  moreover have "\<forall>tx \<in> set txs. \<forall>t. map_of (mapTx p) (tx_GetHash E tx) = Some t \<longrightarrow> t = tx"
    using Cons.prems(2) by (auto dest: shrinksD(2) [OF p(2)])
  ultimately show ?case using Cons.IH [of p] p(1) by simp
qed auto

lemma delete_connected_reachable:
  assumes "pool_reachable E rank B pool" "delete_connected E txs pool = Some pool'"
    and "\<forall>tx \<in> set txs. \<forall>t. map_of (mapTx pool) (tx_GetHash E tx) = Some t \<longrightarrow> t = tx"
  shows "pool_reachable E rank B pool'"
  using assms
proof (induction txs arbitrary: pool)
  case (Cons tx txs)
  obtain p q where p: "pool_remove 1 E False tx pool = Some p"
    and q: "removeConflicts (length (mapTx p) + 1) E tx p = Some q" and r: "delete_connected E txs q = Some pool'"
    using Cons.prems(2) by (auto split: option.splits)
  have "map_of (mapTx pool) (tx_GetHash E tx) \<in> {None, Some tx}"
    using Cons.prems(3) by (cases "map_of (mapTx pool) (tx_GetHash E tx)") auto
  note s = pool_reachable.remove [OF Cons.prems(1) this p]
    pool_remove_shrinks [OF conjunct1 conjunct2 this p, OF pool_reachable_ok pool_reachable_ok, OF Cons.prems(1,1)]
  note t = pool_reachable.conflicts [OF s(1) q]
    removeConflicts_shrinks [OF conjunct1 conjunct2 q, OF pool_reachable_ok pool_reachable_ok, OF s(1,1)]
  have "map_of (mapTx pool) k = Some u" if "map_of (mapTx q) k = Some u" for k u
    using shrinksD(2) [OF s(2) shrinksD(2) [OF t(2) that]] .
  then have "\<forall>tx \<in> set txs. \<forall>u. map_of (mapTx q) (tx_GetHash E tx) = Some u \<longrightarrow> u = tx"
    using Cons.prems(3) by simp
  then show ?case using Cons.IH [OF t(1) r] by simp
qed simp

end
