(* ===== verification/OrphanBlocks.thy ===== *)
theory OrphanBlocks
  imports BestChain OrdMap
begin

text \<open>
  Blocks whose parent is not known yet and the entry point for blocks (src/main.cpp): the two maps of
  orphan blocks, \<open>GetOrphanRoot\<close>, \<open>WantedByOrphan\<close>, \<open>PruneOrphanBlocks\<close> and \<open>ProcessBlock\<close>. The multimap is
  the list in the order of its iteration, equal keys in the order of insertion; \<open>find\<close> gives the first
  entry of a key, as the libraries implement it. The random numbers are an argument.
\<close>

section \<open>The maps\<close>

record COrphanBlock =
  ob_hashBlock :: uint256
  ob_hashPrev :: uint256
  ob_stake :: "COutPoint \<times> u32"
  vchBlock :: "byte list"

record orphan_blocks =
  mapOrphanBlocks :: "(uint256, COrphanBlock) omap"
  mapOrphanBlocksByPrev :: "(uint256 \<times> COrphanBlock) list"
  setStakeSeenOrphan :: "(COutPoint \<times> u32) set"
  nOrphanBlocksSize :: u64

definition orphan_blocks_empty :: orphan_blocks where
  "orphan_blocks_empty = \<lparr>mapOrphanBlocks = [], mapOrphanBlocksByPrev = [], setStakeSeenOrphan = {},
     nOrphanBlocksSize = 0\<rparr>"

fun mm_insert :: "'k :: linorder \<Rightarrow> 'v \<Rightarrow> ('k \<times> 'v) list \<Rightarrow> ('k \<times> 'v) list" where
  "mm_insert k v [] = [(k, v)]"
| "mm_insert k v (e # m) = (if k < fst e then (k, v) # e # m else e # mm_insert k v m)"

text \<open>The position of the first entry of a key.\<close>

fun mm_find :: "'k \<Rightarrow> ('k \<times> 'v) list \<Rightarrow> nat option" where
  "mm_find k [] = None"
| "mm_find k (e # m) = (if fst e = k then Some 0 else map_option Suc (mm_find k m))"

section \<open>Walking along the orphans\<close>

text \<open>
  The walks end unless the orphans refer to each other in a circle; then they do not, and the fuel runs
  out: without a circle no walk is longer than the number of orphans.
\<close>

fun orphan_root_loop :: "nat \<Rightarrow> (uint256, COrphanBlock) omap \<Rightarrow> uint256 \<Rightarrow> COrphanBlock \<Rightarrow> uint256 option" where
  "orphan_root_loop 0 m h ob = None"
| "orphan_root_loop (Suc n) m h ob =
     (case map_of m (ob_hashPrev ob) of
        None \<Rightarrow> Some h
      | Some ob' \<Rightarrow> orphan_root_loop n m (ob_hashPrev ob) ob')"

definition GetOrphanRoot :: "orphan_blocks \<Rightarrow> uint256 \<Rightarrow> uint256 option" where
  "GetOrphanRoot st h =
     (case map_of (mapOrphanBlocks st) h of
        None \<Rightarrow> Some h
      | Some ob \<Rightarrow> orphan_root_loop (length (mapOrphanBlocks st)) (mapOrphanBlocks st) h ob)"

fun wanted_loop :: "nat \<Rightarrow> (uint256, COrphanBlock) omap \<Rightarrow> COrphanBlock \<Rightarrow> uint256 option" where
  "wanted_loop 0 m ob = None"
| "wanted_loop (Suc n) m ob =
     (case map_of m (ob_hashPrev ob) of
        None \<Rightarrow> Some (ob_hashPrev ob)
      | Some ob' \<Rightarrow> wanted_loop n m ob')"

definition WantedByOrphan :: "orphan_blocks \<Rightarrow> COrphanBlock \<Rightarrow> uint256 option" where
  "WantedByOrphan st ob = wanted_loop (Suc (length (mapOrphanBlocks st))) (mapOrphanBlocks st) ob"

text \<open>From a position to one on which no other orphan depends.\<close>

fun descend_loop :: "nat \<Rightarrow> (uint256 \<times> COrphanBlock) list \<Rightarrow> nat \<Rightarrow> nat option" where
  "descend_loop 0 m it = None"
| "descend_loop (Suc n) m it =
     (case mm_find (ob_hashBlock (snd (m ! it))) m of
        None \<Rightarrow> Some it
      | Some it2 \<Rightarrow> descend_loop n m it2)"

definition mm_erase_at :: "nat \<Rightarrow> 'a list \<Rightarrow> 'a list" where
  "mm_erase_at it m = take it m @ drop (Suc it) m"

definition erase_orphan_at :: "nat \<Rightarrow> orphan_blocks \<Rightarrow> orphan_blocks" where
  "erase_orphan_at it st =
     (let ob = snd (mapOrphanBlocksByPrev st ! it) in
      \<lparr>mapOrphanBlocks = oerase (ob_hashBlock ob) (mapOrphanBlocks st),
       mapOrphanBlocksByPrev = mm_erase_at it (mapOrphanBlocksByPrev st),
       setStakeSeenOrphan = setStakeSeenOrphan st - {ob_stake ob},
       nOrphanBlocksSize = nOrphanBlocksSize st - of_nat (length (vchBlock ob))\<rparr>)"

lemma mm_find_less: "mm_find k m = Some i \<Longrightarrow> i < length m"
  by (induction m arbitrary: i) (auto split: if_splits)

lemma descend_loop_less: "descend_loop n m it = Some i \<Longrightarrow> it < length m \<Longrightarrow> i < length m"
  by (induction n arbitrary: it) (auto split: option.splits dest: mm_find_less)

text \<open>\<open>None\<close>: a division by zero, when the size is above the limit and there is no orphan, or a walk that
  does not end.\<close>

function prune_loop :: "(nat \<Rightarrow> u32) \<Rightarrow> nat \<Rightarrow> u64 \<Rightarrow> orphan_blocks \<Rightarrow> orphan_blocks option" where
  "prune_loop rand k nMax st =
     (if nOrphanBlocksSize st > nMax then
        if mapOrphanBlocksByPrev st = [] then None
        else (case descend_loop (Suc (length (mapOrphanBlocksByPrev st))) (mapOrphanBlocksByPrev st)
            (unat (rand k) mod length (mapOrphanBlocksByPrev st)) of
          None \<Rightarrow> None
        | Some it \<Rightarrow> prune_loop rand (k + 1) nMax (erase_orphan_at it st))
      else Some st)"
  by auto
termination
proof (relation "measure (\<lambda>(rand, k, nMax, st). length (mapOrphanBlocksByPrev st))", goal_cases)
  case (2 rand k nMax st it)
  then have "it < length (mapOrphanBlocksByPrev st)"
    using descend_loop_less by fastforce
  then show ?case by (simp add: erase_orphan_at_def mm_erase_at_def Let_def)
qed simp

declare prune_loop.simps [simp del]

definition PruneOrphanBlocks :: "(nat \<Rightarrow> u32) \<Rightarrow> u64 \<Rightarrow> orphan_blocks \<Rightarrow> orphan_blocks option" where
  "PruneOrphanBlocks rand maxorphanblocksmib st = prune_loop rand 0 (maxorphanblocksmib * (1048576 :: u64)) st"

definition DEFAULT_MAX_ORPHAN_BLOCKS :: u64 where "DEFAULT_MAX_ORPHAN_BLOCKS = 40"

section \<open>ProcessBlock\<close>

text \<open>
  The state, and what the code asks of or does to the peer. The arguments of \<open>ProcessBlock\<close> besides the
  block: where a block is stored on disk when it is accepted (\<open>None\<close> when that fails), the version of the
  peer the block came from, whether blocks are being imported or reindexed, and the answer of
  \<open>IsInitialBlockDownload\<close>, which depends on the clock.
\<close>

record block_state =
  st_node :: node
  st_orphans :: orphan_blocks

datatype peer_action = Misbehaving int | PushGetBlocks chain uint256 | AskFor uint256

definition CANONICAL_BLOCK_SIG_VERSION :: int where "CANONICAL_BLOCK_SIG_VERSION = 60016"
definition CANONICAL_BLOCK_SIG_LOW_S_VERSION :: int where "CANONICAL_BLOCK_SIG_LOW_S_VERSION = 60018"

definition COrphanBlock_new :: "uint256 \<Rightarrow> CBlock \<Rightarrow> COrphanBlock" where
  "COrphanBlock_new h b = \<lparr>ob_hashBlock = h, ob_hashPrev = hashPrevBlock b, ob_stake = b_GetProofOfStake b,
     vchBlock = ser_block b\<rparr>"

definition add_orphan :: "CBlock \<Rightarrow> COrphanBlock \<Rightarrow> orphan_blocks \<Rightarrow> orphan_blocks" where
  "add_orphan b ob st =
     \<lparr>mapOrphanBlocks = oins (ob_hashBlock ob) ob (mapOrphanBlocks st),
      mapOrphanBlocksByPrev = mm_insert (ob_hashPrev ob) ob (mapOrphanBlocksByPrev st),
      setStakeSeenOrphan = (if b_IsProofOfStake b then insert (b_GetProofOfStake b) (setStakeSeenOrphan st)
        else setStakeSeenOrphan st),
      nOrphanBlocksSize = nOrphanBlocksSize st + of_nat (length (vchBlock ob))\<rparr>"

text \<open>One pass over the orphans of a block: whether an exception was thrown, the hashes of those accepted,
  and the state.\<close>

fun process_children ::
  "external \<Rightarrow> node_env \<Rightarrow> (uint256 \<Rightarrow> (u32 \<times> u32) option) \<Rightarrow> COrphanBlock list \<Rightarrow> block_state \<Rightarrow>
     bool \<times> uint256 list \<times> block_state" where
  "process_children E env stores [] st = (False, [], st)"
| "process_children E env stores (ob # obs) st =
     (case unser_block (vchBlock ob) of
        None \<Rightarrow> (True, [], st)
      | Some (b, _) \<Rightarrow>
          (case AcceptBlock E env (stores (b_GetHash E (scrypt_hash (base_env env)) b)) b (st_node st) of
             (Raised, n) \<Rightarrow> (True, [], st\<lparr>st_node := n\<rparr>)
           | (v, n) \<Rightarrow>
               let o' = st_orphans st;
                   st = \<lparr>st_node = n, st_orphans = o'\<lparr>
                     mapOrphanBlocks := oerase (ob_hashBlock ob) (mapOrphanBlocks o'),
                     setStakeSeenOrphan := setStakeSeenOrphan o' - {b_GetProofOfStake b},
                     nOrphanBlocksSize := nOrphanBlocksSize o' - of_nat (length (vchBlock ob))\<rparr>\<rparr> in
               (case process_children E env stores obs st of
                  (threw, hs, st) \<Rightarrow> (threw, (if v = Accepted () then [ob_hashBlock ob] else []) @ hs, st))))"

definition orphans_of :: "uint256 \<Rightarrow> orphan_blocks \<Rightarrow> COrphanBlock list" where
  "orphans_of h st = map snd (filter (\<lambda>e. fst e = h) (mapOrphanBlocksByPrev st))"

definition erase_prev :: "uint256 \<Rightarrow> block_state \<Rightarrow> block_state" where
  "erase_prev h st = st\<lparr>st_orphans := (st_orphans st)\<lparr>mapOrphanBlocksByPrev :=
     filter (\<lambda>e. fst e \<noteq> h) (mapOrphanBlocksByPrev (st_orphans st))\<rparr>\<rparr>"

lemma process_children_frame:
  "process_children E env stores obs st = (threw, hs, st') \<Longrightarrow>
     mapOrphanBlocksByPrev (st_orphans st') = mapOrphanBlocksByPrev (st_orphans st) \<and> length hs \<le> length obs"
proof (induction obs arbitrary: st threw hs st')
  case (Cons ob obs)
  show ?case
  proof (cases "unser_block (vchBlock ob)")
    case None
    then show ?thesis using Cons.prems by auto
  next
    case (Some x)
    obtain b r where x: "x = (b, r)" by fastforce
    obtain v n where v: "AcceptBlock E env (stores (b_GetHash E (scrypt_hash (base_env env)) b)) b (st_node st) = (v, n)"
      by fastforce
    let ?st = "\<lparr>st_node = n, st_orphans = (st_orphans st)\<lparr>
      mapOrphanBlocks := oerase (ob_hashBlock ob) (mapOrphanBlocks (st_orphans st)),
      setStakeSeenOrphan := setStakeSeenOrphan (st_orphans st) - {b_GetProofOfStake b},
      nOrphanBlocksSize := nOrphanBlocksSize (st_orphans st) - of_nat (length (vchBlock ob))\<rparr>\<rparr>"
    obtain t gs u where u: "process_children E env stores obs ?st = (t, gs, u)" by (metis prod_cases3)
    from Cons.IH [OF u] Cons.prems Some x v u show ?thesis
      by (cases v) (auto simp: Let_def split: if_splits)
  qed
qed simp

function process_queue ::
  "external \<Rightarrow> node_env \<Rightarrow> (uint256 \<Rightarrow> (u32 \<times> u32) option) \<Rightarrow> uint256 list \<Rightarrow> block_state \<Rightarrow> bool \<times> block_state" where
  "process_queue E env stores [] st = (False, st)"
| "process_queue E env stores (hashPrev # queue) st =
     (case process_children E env stores (orphans_of hashPrev (st_orphans st)) st of
        (threw, hs, st) \<Rightarrow>
          if threw then (True, st) else process_queue E env stores (queue @ hs) (erase_prev hashPrev st))"
  by pat_completeness auto
termination
proof (relation "measures [\<lambda>(E, env, stores, queue, st). length (mapOrphanBlocksByPrev (st_orphans st)),
    \<lambda>(E, env, stores, queue, st). length queue]", goal_cases)
  case (2 E env stores h queue st threw y hs st')
  then have f: "mapOrphanBlocksByPrev (st_orphans st') = mapOrphanBlocksByPrev (st_orphans st)"
    "length hs \<le> length (orphans_of h (st_orphans st))"
    using process_children_frame by metis+
  let ?m = "mapOrphanBlocksByPrev (st_orphans st)"
  have n: "length (filter (\<lambda>e. fst e \<noteq> h) ?m) + length (filter (\<lambda>e. fst e = h) ?m) = length ?m"
    using sum_length_filter_compl [of "\<lambda>e. fst e \<noteq> h" ?m] by simp
  show ?case
  proof (cases hs)
    case Nil
    then show ?thesis using n f by (auto simp: erase_prev_def)
  next
    case (Cons g gs)
    then have "length (filter (\<lambda>e. fst e = h) ?m) > 0" using f(2) by (auto simp: orphans_of_def simp del: length_greater_0_conv)
    then have "length (filter (\<lambda>e. fst e \<noteq> h) ?m) < length ?m" using n by linarith
    then show ?thesis using f by (simp add: erase_prev_def)
  qed
qed simp

definition by_prev_has :: "uint256 \<Rightarrow> orphan_blocks \<Rightarrow> bool" where
  "by_prev_has h st \<longleftrightarrow> list_ex (\<lambda>e. fst e = h) (mapOrphanBlocksByPrev st)"

text \<open>The branch for a block without a parent.\<close>

definition keep_orphan ::
  "(nat \<Rightarrow> u32) \<Rightarrow> u64 \<Rightarrow> bool \<Rightarrow> uint256 \<Rightarrow> CBlock \<Rightarrow> block_state \<Rightarrow>
     unit verdict \<times> peer_action list \<times> block_state" where
  "keep_orphan rand maxmib initial h b st =
     (if b_IsProofOfStake b \<and> b_GetProofOfStake b \<in> setStakeSeenOrphan (st_orphans st) \<and>
        \<not> by_prev_has h (st_orphans st) then (Rejected 0, [], st)
      else case PruneOrphanBlocks rand maxmib (st_orphans st) of
        None \<Rightarrow> (Raised, [], st)
      | Some o' \<Rightarrow>
          let ob = COrphanBlock_new h b; o' = add_orphan b ob o'; st = st\<lparr>st_orphans := o'\<rparr> in
          (case (GetOrphanRoot o' h, WantedByOrphan o' ob) of
             (Some root, Some wanted) \<Rightarrow>
               (Accepted (), [PushGetBlocks (pindexBest (st_node st)) root] @
                  (if \<not> initial then [AskFor wanted] else []), st)
           | _ \<Rightarrow> (Raised, [], st)))"

definition ProcessBlock ::
  "external \<Rightarrow> node_env \<Rightarrow> (uint256 \<Rightarrow> (u32 \<times> u32) option) \<Rightarrow> (nat \<Rightarrow> u32) \<Rightarrow> u64 \<Rightarrow> bool \<Rightarrow> bool \<Rightarrow> int option \<Rightarrow>
     CBlock \<Rightarrow> block_state \<Rightarrow> unit verdict \<times> peer_action list \<times> block_state" where
  "ProcessBlock E env stores rand maxmib importing initial pfrom b st =
     (let h = b_GetHash E (scrypt_hash (base_env env)) b; n = st_node st; o' = st_orphans st in
      if mapBlockIndex n h \<noteq> None then (Rejected 0, [], st)
      else if map_of (mapOrphanBlocks o') h \<noteq> None then (Rejected 0, [], st)
      else if \<not> importing \<and> b_IsProofOfStake b \<and> b_GetProofOfStake b \<in> setStakeSeen n \<and> \<not> by_prev_has h o'
      then (Rejected 0, [], st)
      else case (if hashPrevBlock b \<noteq> hashBestChain n
            then map_option (\<lambda>p. b_GetBlockTime b - bi_GetBlockTime p < 0) (AutoSelectSyncCheckpoint (pindexBest n))
            else Some False) of
        None \<Rightarrow> (Raised, [], st)
      | Some too_early \<Rightarrow>
          if too_early then (Rejected 0, (if pfrom \<noteq> None then [Misbehaving 1] else []), st)
          else if \<not> IsCanonicalBlockSignature b False then
            (Rejected 0, (case pfrom of None \<Rightarrow> []
               | Some v \<Rightarrow> if v \<ge> CANONICAL_BLOCK_SIG_VERSION then [Misbehaving 100] else []), st)
          else if \<not> IsCanonicalBlockSignature b True \<and>
            (case pfrom of None \<Rightarrow> False | Some v \<Rightarrow> v \<ge> CANONICAL_BLOCK_SIG_LOW_S_VERSION)
          then (Rejected 0, [Misbehaving 100], st)
          else (case (if IsCanonicalBlockSignature b True then Some (vchBlockSig b) else EnsureLowS E (vchBlockSig b)) of
              None \<Rightarrow> (Rejected 0, [], st)
            | Some sig \<Rightarrow>
                let b = b\<lparr>vchBlockSig := sig\<rparr> in
                (case CheckBlock E (scrypt_hash (base_env env)) (max_data_carrier (base_env env))
                    (proof_of_work_limit (base_env env)) (adjusted_time (base_env env)) True True True b of
                   Inl d \<Rightarrow> (Rejected d, [], st)
                 | Inr _ \<Rightarrow>
                     if mapBlockIndex n (hashPrevBlock b) = None then
                       (if pfrom = None then (Accepted (), [], st) else keep_orphan rand maxmib initial h b st)
                     else (case AcceptBlock E env (stores h) b n of
                         (Raised, n) \<Rightarrow> (Raised, [], st\<lparr>st_node := n\<rparr>)
                       | (Rejected d, n) \<Rightarrow> (Rejected d, [], st\<lparr>st_node := n\<rparr>)
                       | (Accepted _, n) \<Rightarrow>
                           (case process_queue E env stores [h] (st\<lparr>st_node := n\<rparr>) of
                              (threw, st) \<Rightarrow> (if threw then Raised else Accepted (), [], st))))))"

end
