(* ===== verification/OrphanProps.thy ===== *)
theory OrphanProps
  imports OrphanBlocks IndexProps "HOL-Library.Multiset"
begin

text \<open>
  The orphan blocks are kept consistently: the two maps hold the same orphans, the size is that of the
  bytes held, and the stakes marked as seen are stakes of orphans. Pruning takes only orphans on which no
  other depends; a block that is accepted leaves no orphan that waits for it.
\<close>

section \<open>The invariant\<close>

definition orphan_entry :: "external \<Rightarrow> (byte list \<Rightarrow> uint256) \<Rightarrow> uint256 \<times> COrphanBlock \<Rightarrow> bool" where
  "orphan_entry E scrypt e \<longleftrightarrow>
     (\<exists>b. block_ok b \<and> snd e = COrphanBlock_new (b_GetHash E scrypt b) b \<and> fst e = b_GetHash E scrypt b)"

definition prev_entry :: "COrphanBlock \<Rightarrow> uint256 \<times> COrphanBlock" where
  "prev_entry ob = (ob_hashPrev ob, ob)"

text \<open>With the entries \<open>bp\<close> by the parent.\<close>

definition orphans_with ::
  "external \<Rightarrow> (byte list \<Rightarrow> uint256) \<Rightarrow> orphan_blocks \<Rightarrow> (uint256 \<times> COrphanBlock) list \<Rightarrow> bool" where
  "orphans_with E scrypt o' bp \<longleftrightarrow>
     omap_ok (mapOrphanBlocks o') \<and> list_all (orphan_entry E scrypt) (mapOrphanBlocks o') \<and>
     mset bp = image_mset (prev_entry \<circ> snd) (mset (mapOrphanBlocks o')) \<and>
     setStakeSeenOrphan o' \<subseteq> (ob_stake \<circ> snd) ` set (mapOrphanBlocks o') \<and>
     nOrphanBlocksSize o' = of_nat (\<Sum>e\<in>#mset (mapOrphanBlocks o'). length (vchBlock (snd e)))"

definition orphan_blocks_ok :: "external \<Rightarrow> (byte list \<Rightarrow> uint256) \<Rightarrow> orphan_blocks \<Rightarrow> bool" where
  "orphan_blocks_ok E scrypt o' \<longleftrightarrow>
     sorted (map fst (mapOrphanBlocksByPrev o')) \<and> orphans_with E scrypt o' (mapOrphanBlocksByPrev o')"

lemma orphan_blocks_ok_empty: "orphan_blocks_ok E scrypt orphan_blocks_empty"
  by (simp add: orphan_blocks_ok_def orphans_with_def orphan_blocks_empty_def)

lemma mset_mm_insert [simp]: "mset (mm_insert k v m) = add_mset (k, v) (mset m)"
  by (induction m) auto

lemma sorted_mm_insert [simp]: "sorted (map fst m) \<Longrightarrow> sorted (map fst (mm_insert k v m))"
proof (induction m)
  case (Cons e m)
  have "fst ` set (mm_insert k v m) = insert k (fst ` set m)"
    by (simp flip: set_mset_mset)
  then show ?case using Cons by (auto dest: order.strict_trans2)
qed simp

lemma mset_oput_new: "map_of m k = None \<Longrightarrow> mset (oput k v m) = add_mset (k, v) (mset m)"
  by (induction k v m rule: oput.induct) (auto split: if_splits)

lemma mset_mm_erase_at: "i < length m \<Longrightarrow> mset m = add_mset (m ! i) (mset (mm_erase_at i m))"
  using id_take_nth_drop [of i m] by (simp add: mm_erase_at_def) (metis mset_append mset.simps(2) union_mset_add_mset_right)

lemma sorted_mm_erase_at: "sorted (map fst m) \<Longrightarrow> sorted (map fst (mm_erase_at i m))"
proof -
  assume s: "sorted (map fst m)"
  then have "sorted (map fst (take i m) @ map fst (drop i m))" by (simp flip: map_append)
  then have a: "sorted (map fst (take i m))" "sorted (map fst (drop i m))"
    "\<forall>x\<in>set (take i m). \<forall>y\<in>set (drop i m). fst x \<le> fst y" by (auto simp: sorted_append)
  have "set (drop (Suc i) m) \<subseteq> set (drop i m)" by (simp add: set_drop_subset_set_drop)
  moreover have "sorted (map fst (drop (Suc i) m))" using s by (simp add: drop_map [symmetric] sorted_wrt_drop)
  ultimately show ?thesis using a by (auto simp: mm_erase_at_def sorted_append)
qed

lemma mset_oerase:
  assumes "omap_ok m" "(k, v) \<in> set m"
  shows "mset m = add_mset (k, v) (mset (oerase k m))"
proof -
  obtain xs ys where m: "m = xs @ (k, v) # ys" using split_list [OF assms(2)] by auto
  have "k \<notin> fst ` set xs" "k \<notin> fst ` set ys" using assms(1) by (auto simp: m omap_ok_def)
  then have "filter (\<lambda>e. fst e \<noteq> k) xs = xs" "filter (\<lambda>e. fst e \<noteq> k) ys = ys"
    by (intro filter_True; force)+
  then have "oerase k m = xs @ ys" by (simp add: m oerase_def)
  then show ?thesis by (simp add: m)
qed

section \<open>One orphan more or less\<close>

lemma orphan_entry_of:
  "orphan_entry E scrypt (k, ob) \<longleftrightarrow> (\<exists>b. block_ok b \<and> k = b_GetHash E scrypt b \<and> ob = COrphanBlock_new k b)"
  by (auto simp: orphan_entry_def)

lemma COrphanBlock_new_simps [simp]:
  "ob_hashBlock (COrphanBlock_new h b) = h" "ob_hashPrev (COrphanBlock_new h b) = hashPrevBlock b"
  "ob_stake (COrphanBlock_new h b) = b_GetProofOfStake b" "vchBlock (COrphanBlock_new h b) = ser_block b"
  by (simp_all add: COrphanBlock_new_def)

lemma orphans_with_entry:
  assumes "orphans_with E scrypt o' bp" "e \<in> set bp"
  shows "fst e = ob_hashPrev (snd e)" "(ob_hashBlock (snd e), snd e) \<in> set (mapOrphanBlocks o')"
    "orphan_entry E scrypt (ob_hashBlock (snd e), snd e)"
proof -
  have "e \<in># image_mset (prev_entry \<circ> snd) (mset (mapOrphanBlocks o'))"
    using assms by (metis orphans_with_def set_mset_mset)
  then obtain k ob where e: "(k, ob) \<in> set (mapOrphanBlocks o')" "e = prev_entry ob" by auto
  then have o: "orphan_entry E scrypt (k, ob)" using assms(1) by (auto simp: orphans_with_def list_all_iff)
  then have "k = ob_hashBlock ob" by (auto simp: orphan_entry_of)
  then show "fst e = ob_hashPrev (snd e)" "(ob_hashBlock (snd e), snd e) \<in> set (mapOrphanBlocks o')"
    "orphan_entry E scrypt (ob_hashBlock (snd e), snd e)"
    using e o by (simp_all add: prev_entry_def)
qed

lemma orphan_blocks_ok_entry:
  "orphan_blocks_ok E scrypt o' \<Longrightarrow> (k, ob) \<in> set (mapOrphanBlocks o') \<Longrightarrow> orphan_entry E scrypt (k, ob)"
  by (auto simp: orphan_blocks_ok_def orphans_with_def list_all_iff)

lemma orphan_blocks_ok_key: "orphan_blocks_ok E scrypt o' \<Longrightarrow> (k, ob) \<in> set (mapOrphanBlocks o') \<Longrightarrow> k = ob_hashBlock ob"
  by (drule (1) orphan_blocks_ok_entry) (auto simp: orphan_entry_of)

lemma orphans_with_erase:
  assumes "orphans_with E scrypt o' bp" "mset bp = add_mset (k, ob) (mset bp')"
  shows "orphans_with E scrypt
    \<lparr>mapOrphanBlocks = oerase (ob_hashBlock ob) (mapOrphanBlocks o'), mapOrphanBlocksByPrev = bp2,
      setStakeSeenOrphan = setStakeSeenOrphan o' - {ob_stake ob},
      nOrphanBlocksSize = nOrphanBlocksSize o' - of_nat (length (vchBlock ob))\<rparr> bp'"
proof -
  let ?m = "mapOrphanBlocks o'" and ?n = "oerase (ob_hashBlock ob) (mapOrphanBlocks o')"
  have "(k, ob) \<in> set bp" using assms(2) by (metis set_mset_mset union_single_eq_member)
  from orphans_with_entry [OF assms(1) this] have k: "k = ob_hashPrev ob" "(ob_hashBlock ob, ob) \<in> set ?m" by simp_all
  have ok: "omap_ok ?m" "list_all (orphan_entry E scrypt) ?m"
    "mset bp = image_mset (prev_entry \<circ> snd) (mset ?m)" "setStakeSeenOrphan o' \<subseteq> (ob_stake \<circ> snd) ` set ?m"
    "nOrphanBlocksSize o' = of_nat (\<Sum>e\<in>#mset ?m. length (vchBlock (snd e)))"
    using assms(1) by (auto simp: orphans_with_def)
  note m = mset_oerase [OF ok(1) k(2)]
  have set_m: "set ?m = insert (ob_hashBlock ob, ob) (set ?n)" using m by (metis set_mset_add_mset_insert set_mset_mset)
  have "mset bp' = image_mset (prev_entry \<circ> snd) (mset ?n)"
    using ok(3) assms(2) k(1) by (simp add: m prev_entry_def)
  moreover have "list_all (orphan_entry E scrypt) ?n" using ok(2) set_m by (simp add: list_all_iff)
  moreover have "setStakeSeenOrphan o' - {ob_stake ob} \<subseteq> (ob_stake \<circ> snd) ` set ?n" using ok(4) set_m by auto
  ultimately show ?thesis using ok(1,5) by (simp add: orphans_with_def m)
qed

lemma add_orphan_ok:
  assumes "orphan_blocks_ok E scrypt o'" "block_ok b" "map_of (mapOrphanBlocks o') (b_GetHash E scrypt b) = None"
  shows "orphan_blocks_ok E scrypt (add_orphan b (COrphanBlock_new (b_GetHash E scrypt b) b) o')"
proof -
  let ?m = "mapOrphanBlocks o'" and ?h = "b_GetHash E scrypt b"
  let ?ob = "COrphanBlock_new ?h b" and ?n = "oput ?h (COrphanBlock_new ?h b) ?m"
  note m = mset_oput_new [OF assms(3), of ?ob]
  have set_n: "set ?n = insert (?h, ?ob) (set ?m)" using m by (metis set_mset_add_mset_insert set_mset_mset)
  have "orphan_entry E scrypt (?h, ?ob)" using assms(2) by (auto simp: orphan_entry_of)
  then have "list_all (orphan_entry E scrypt) ?n"
    using assms(1) set_n by (simp add: orphan_blocks_ok_def orphans_with_def list_all_iff)
  then show ?thesis
    using assms(1,3) set_n by (auto simp: orphan_blocks_ok_def orphans_with_def add_orphan_def oins_def m prev_entry_def)
qed

lemma erase_orphan_at_ok:
  assumes "orphan_blocks_ok E scrypt o'" "it < length (mapOrphanBlocksByPrev o')"
  shows "orphan_blocks_ok E scrypt (erase_orphan_at it o')"
proof -
  let ?bp = "mapOrphanBlocksByPrev o'"
  have "mset ?bp = add_mset (fst (?bp ! it), snd (?bp ! it)) (mset (mm_erase_at it ?bp))"
    using mset_mm_erase_at [OF assms(2)] by simp
  from orphans_with_erase [OF _ this] assms(1) show ?thesis
    by (simp add: orphan_blocks_ok_def erase_orphan_at_def Let_def sorted_mm_erase_at)
qed

section \<open>Pruning\<close>

text \<open>The orphans do not refer to each other in a circle.\<close>

definition orphans_ranked :: "(uint256 \<Rightarrow> nat) \<Rightarrow> orphan_blocks \<Rightarrow> bool" where
  "orphans_ranked r o' \<longleftrightarrow>
     list_all (\<lambda>e. r (ob_hashPrev (snd e)) < r (ob_hashBlock (snd e))) (mapOrphanBlocks o')"

lemma mm_find_key: "mm_find k m = Some i \<Longrightarrow> i < length m \<and> fst (m ! i) = k"
  by (induction m arbitrary: i) (auto split: if_splits)

lemma mm_find_None: "mm_find k m = None \<longleftrightarrow> k \<notin> fst ` set m"
  by (induction m) auto

lemma descend_loop_leaf: "descend_loop n m it = Some i \<Longrightarrow> ob_hashBlock (snd (m ! i)) \<notin> fst ` set m"
  by (induction n arbitrary: it) (auto split: option.splits simp: mm_find_None)

lemma descend_loop_ends:
  fixes r :: "uint256 \<Rightarrow> nat"
  assumes "\<forall>e \<in> set m. fst e = ob_hashPrev (snd e) \<and> r (ob_hashPrev (snd e)) < r (ob_hashBlock (snd e))"
    and "it < length m"
    and "card {e \<in> set m. r (ob_hashBlock (snd (m ! it))) < r (ob_hashBlock (snd e))} < n"
  shows "\<exists>i. descend_loop n m it = Some i"
  using assms(2,3)
proof (induction n arbitrary: it)
  case (Suc n)
  let ?above = "\<lambda>it. {e \<in> set m. r (ob_hashBlock (snd (m ! it))) < r (ob_hashBlock (snd e))}"
  show ?case
  proof (cases "mm_find (ob_hashBlock (snd (m ! it))) m")
    case (Some j)
    then have j: "j < length m" "fst (m ! j) = ob_hashBlock (snd (m ! it))" by (auto dest: mm_find_key)
    then have less: "r (ob_hashBlock (snd (m ! it))) < r (ob_hashBlock (snd (m ! j)))"
      using assms(1) by (metis nth_mem)
    have "m ! j \<in> ?above it" "m ! j \<notin> ?above j" using less j(1) by simp_all
    moreover have "?above j \<subseteq> ?above it" using less by (blast intro: less_trans)
    ultimately have "?above j \<subset> ?above it" by blast
    then have "card (?above j) < card (?above it)" by (intro psubset_card_mono) auto
    then show ?thesis using Suc j(1) Some by simp
  qed simp
qed simp

lemma prune_loop_props:
  assumes "prune_loop rand k nMax o' = Some p" "orphan_blocks_ok E scrypt o'"
  shows "orphan_blocks_ok E scrypt p \<and> nOrphanBlocksSize p \<le> nMax \<and> set (mapOrphanBlocks p) \<subseteq> set (mapOrphanBlocks o') \<and>
    (\<forall>(h, ob) \<in> set (mapOrphanBlocks p). map_of (mapOrphanBlocks o') (ob_hashPrev ob) = map_of (mapOrphanBlocks p) (ob_hashPrev ob))"
  using assms
proof (induction rand k nMax o' rule: prune_loop.induct)
  case (1 rand k nMax o')
  let ?bp = "mapOrphanBlocksByPrev o'"
  show ?case
  proof (cases "nOrphanBlocksSize o' > nMax")
    case True
    then obtain it where ne: "?bp \<noteq> []"
      and it: "descend_loop (Suc (length ?bp)) ?bp (unat (rand k) mod length ?bp) = Some it"
      and p: "prune_loop rand (k + 1) nMax (erase_orphan_at it o') = Some p"
      using 1(2) by (subst (asm) prune_loop.simps) (auto split: if_splits option.splits)
    have lt: "it < length ?bp" using descend_loop_less [OF it] ne by simp
    let ?q = "erase_orphan_at it o'" and ?gone = "ob_hashBlock (snd (?bp ! it))"
    have q: "orphan_blocks_ok E scrypt ?q" by (rule erase_orphan_at_ok [OF 1(3) lt])
    have m: "mapOrphanBlocks ?q = oerase ?gone (mapOrphanBlocks o')" by (simp add: erase_orphan_at_def Let_def)
    from 1(1) [OF True ne it p q]
    have IH: "orphan_blocks_ok E scrypt p" "nOrphanBlocksSize p \<le> nMax" "set (mapOrphanBlocks p) \<subseteq> set (mapOrphanBlocks ?q)"
      "\<And>h ob. (h, ob) \<in> set (mapOrphanBlocks p) \<Longrightarrow>
        map_of (mapOrphanBlocks ?q) (ob_hashPrev ob) = map_of (mapOrphanBlocks p) (ob_hashPrev ob)" by auto
    have sub: "set (mapOrphanBlocks ?q) \<subseteq> set (mapOrphanBlocks o')" by (auto simp: m oerase_def)
    have "ob_hashPrev ob \<noteq> ?gone" if "(h, ob) \<in> set (mapOrphanBlocks o')" for h ob
    proof -
      have "mset ?bp = image_mset (prev_entry \<circ> snd) (mset (mapOrphanBlocks o'))"
        using 1(3) by (simp add: orphan_blocks_ok_def orphans_with_def)
      then have "set ?bp = (prev_entry \<circ> snd) ` set (mapOrphanBlocks o')" by (metis set_image_mset set_mset_mset)
      then have "prev_entry ob \<in> set ?bp" using that by force
      then show ?thesis using descend_loop_leaf [OF it] by (force simp: prev_entry_def)
    qed
    then have "map_of (mapOrphanBlocks o') (ob_hashPrev ob) = map_of (mapOrphanBlocks p) (ob_hashPrev ob)"
      if "(h, ob) \<in> set (mapOrphanBlocks p)" for h ob
      using IH(4) [OF that] subsetD [OF sub subsetD [OF IH(3) that]] by (simp add: m)
    then show ?thesis using IH sub by auto
  next
    case False
    then show ?thesis using 1(2,3) by (subst (asm) prune_loop.simps) auto
  qed
qed

lemma prune_loop_total:
  assumes "orphan_blocks_ok E scrypt o'" "orphans_ranked r o'"
  shows "\<exists>p. prune_loop rand k nMax o' = Some p"
  using assms
proof (induction rand k nMax o' rule: prune_loop.induct)
  case (1 rand k nMax o')
  let ?bp = "mapOrphanBlocksByPrev o'"
  show ?case
  proof (cases "nOrphanBlocksSize o' > nMax")
    case True
    have ok: "orphans_with E scrypt o' ?bp" using 1(2) by (simp add: orphan_blocks_ok_def)
    then have "mapOrphanBlocks o' \<noteq> []" using True by (auto simp: orphans_with_def)
    then have ne: "?bp \<noteq> []" using ok by (auto simp: orphans_with_def)
    let ?start = "unat (rand k) mod length ?bp"
    have "\<forall>e \<in> set ?bp. fst e = ob_hashPrev (snd e) \<and> r (ob_hashPrev (snd e)) < r (ob_hashBlock (snd e))"
      using orphans_with_entry(1,2) [OF ok] 1(3) by (fastforce simp: orphans_ranked_def list_all_iff)
    moreover have "card {e \<in> set ?bp. r (ob_hashBlock (snd (?bp ! ?start))) < r (ob_hashBlock (snd e))} \<le> length ?bp"
      by (rule order_trans [OF card_mono card_length]) auto
    ultimately obtain it where it: "descend_loop (Suc (length ?bp)) ?bp ?start = Some it"
      using descend_loop_ends [of ?bp r ?start "Suc (length ?bp)"] ne by auto
    have lt: "it < length ?bp" using descend_loop_less [OF it] ne by simp
    have "orphans_ranked r (erase_orphan_at it o')"
      using 1(3) by (auto simp: orphans_ranked_def erase_orphan_at_def Let_def list_all_iff oerase_def)
    from 1(1) [OF True ne it erase_orphan_at_ok [OF 1(2) lt] this] show ?thesis
      using True ne it by (subst prune_loop.simps) simp
  qed (subst prune_loop.simps, simp)
qed

section \<open>What an orphan waits for\<close>

definition waits_for :: "orphan_blocks \<Rightarrow> (uint256 \<times> uint256) set" where
  "waits_for o' = (\<lambda>e. (fst e, ob_hashPrev (snd e))) ` set (mapOrphanBlocks o')"

lemma orphan_walks:
  fixes r :: "uint256 \<Rightarrow> nat"
  assumes "\<forall>(h, ob) \<in> set m. r (ob_hashPrev ob) < r h" "(h, ob) \<in> set m"
    and "card {e \<in> set m. r (fst e) < r h} < n"
  shows "\<exists>root w. orphan_root_loop n m h ob = Some root \<and> wanted_loop n m ob = Some w \<and>
    (h, root) \<in> ((\<lambda>e. (fst e, ob_hashPrev (snd e))) ` set m)\<^sup>* \<and>
    (root, w) \<in> (\<lambda>e. (fst e, ob_hashPrev (snd e))) ` set m \<and> map_of m w = None"
  using assms(2,3)
proof (induction n arbitrary: h ob)
  case (Suc n)
  let ?w = "(\<lambda>e. (fst e, ob_hashPrev (snd e))) ` set m"
  have step: "(h, ob_hashPrev ob) \<in> ?w" using Suc.prems(1) by force
  show ?case
  proof (cases "map_of m (ob_hashPrev ob)")
    case None
    then show ?thesis using step by auto
  next
    case (Some ob')
    then have next_in: "(ob_hashPrev ob, ob') \<in> set m" by (rule map_of_SomeD)
    have less: "r (ob_hashPrev ob) < r h" using assms(1) Suc.prems(1) by auto
    have "(ob_hashPrev ob, ob') \<in> {e \<in> set m. r (fst e) < r h}"
      "(ob_hashPrev ob, ob') \<notin> {e \<in> set m. r (fst e) < r (ob_hashPrev ob)}" using less next_in by simp_all
    moreover have "{e \<in> set m. r (fst e) < r (ob_hashPrev ob)} \<subseteq> {e \<in> set m. r (fst e) < r h}"
      using less by (blast intro: less_trans)
    ultimately have "{e \<in> set m. r (fst e) < r (ob_hashPrev ob)} \<subset> {e \<in> set m. r (fst e) < r h}" by blast
    then have "card {e \<in> set m. r (fst e) < r (ob_hashPrev ob)} < card {e \<in> set m. r (fst e) < r h}"
      by (intro psubset_card_mono) auto
    then have "card {e \<in> set m. r (fst e) < r (ob_hashPrev ob)} < n" using Suc.prems(2) by linarith
    from Suc.IH [OF next_in this] show ?thesis
      using Some step by (auto intro: converse_rtrancl_into_rtrancl)
  qed
qed simp

lemma orphan_root_wanted:
  assumes "orphan_blocks_ok E scrypt o'" "orphans_ranked r o'" "map_of (mapOrphanBlocks o') h = Some ob"
  shows "\<exists>root w. GetOrphanRoot o' h = Some root \<and> WantedByOrphan o' ob = Some w \<and>
    (h, root) \<in> (waits_for o')\<^sup>* \<and> (root, w) \<in> waits_for o' \<and> map_of (mapOrphanBlocks o') w = None"
proof -
  let ?m = "mapOrphanBlocks o'"
  have rank: "\<forall>(h, ob) \<in> set ?m. r (ob_hashPrev ob) < r h"
    using assms(2) orphan_blocks_ok_key [OF assms(1)] by (fastforce simp: orphans_ranked_def list_all_iff)
  have mem: "(h, ob) \<in> set ?m" using assms(3) by (rule map_of_SomeD)
  have "(h, ob) \<notin> {e \<in> set ?m. r (fst e) < r h}" by simp
  then have "{e \<in> set ?m. r (fst e) < r h} \<subset> set ?m" using mem by blast
  then have "card {e \<in> set ?m. r (fst e) < r h} < card (set ?m)" by (intro psubset_card_mono) auto
  then have c: "card {e \<in> set ?m. r (fst e) < r h} < length ?m" using card_length [of ?m] by linarith
  from orphan_walks [OF rank mem c] obtain root where root: "orphan_root_loop (length ?m) ?m h ob = Some root" by blast
  have "card {e \<in> set ?m. r (fst e) < r h} < Suc (length ?m)" using c by simp
  from orphan_walks [OF rank mem this] obtain root' w where w: "orphan_root_loop (Suc (length ?m)) ?m h ob = Some root'"
    "wanted_loop (Suc (length ?m)) ?m ob = Some w" "(h, root') \<in> (waits_for o')\<^sup>*"
    "(root', w) \<in> waits_for o'" "map_of ?m w = None" by (auto simp: waits_for_def)
  have "orphan_root_loop (Suc n) m h ob = Some root" if "orphan_root_loop n m h ob = Some root" for n m h ob
    using that by (induction n m h ob rule: orphan_root_loop.induct) (auto split: option.splits)
  from this [OF root] w(1) have "root = root'" by simp
  then show ?thesis using root w assms(3) by (auto simp: GetOrphanRoot_def WantedByOrphan_def)
qed

section \<open>Blocks that were waited for\<close>

text \<open>An accepted block has its entry.\<close>

lemma AcceptBlock_indexed:
  assumes "AcceptBlock E env stored b s = (Accepted (), s')" "node_ok E env0 s"
  shows "mapBlockIndex s' (b_GetHash E (scrypt_hash (base_env env)) b) \<noteq> None"
  using assms(1)
proof (cases rule: AcceptBlock_cases)
  case (added pprev hp nFile nBlockPos c)
  have g: "pindexGenesisBlock s \<noteq> []" using assms(2) by (auto simp: node_ok_def)
  show ?thesis
    using added(4)
  proof (cases rule: AddToBlockIndex_cases)
    case p: (added p t)
    show ?thesis
    proof (cases "nChainTrust p > nBestChainTrust (s\<lparr>signature_cache := c\<rparr>)")
      case True
      then have "SetBestChain E env b (p # pprev) t = (Accepted (), s')" using p(6) added(1) by simp
      from SetBestChain_best [OF this] p(5) g have "index_view s' = index_view t" by auto
      then show ?thesis using p(5) by (simp add: index_view_def)
    next
      case False
      then show ?thesis using p(5,6) by simp
    qed
  qed simp
qed simp

lemma process_children_ok:
  assumes "process_children E env stores obs st = (False, hs, st')"
    and "orphans_with E (scrypt_hash (base_env env)) (st_orphans st) bp"
    and "mset bp = image_mset prev_entry (mset obs) + mset rest"
    and "node_ok E env0 (st_node st)" "same_chain env env0"
  shows "orphans_with E (scrypt_hash (base_env env)) (st_orphans st') rest \<and> node_ok E env0 (st_node st') \<and>
    mapBlockIndex (st_node st) \<subseteq>\<^sub>m mapBlockIndex (st_node st') \<and>
    nBestChainTrust (st_node st) \<le> nBestChainTrust (st_node st')"
  using assms(1-4)
proof (induction obs arbitrary: st hs bp st')
  case Nil
  then show ?case by (auto simp: orphans_with_def)
next
  case (Cons ob obs)
  let ?scrypt = "scrypt_hash (base_env env)"
  have "prev_entry ob \<in># mset bp" using Cons.prems(3) by simp
  then have "prev_entry ob \<in> set bp" by simp
  from orphans_with_entry(3) [OF Cons.prems(2) this] obtain b where b: "block_ok b"
    "ob = COrphanBlock_new (b_GetHash E ?scrypt b) b" by (auto simp: orphan_entry_of prev_entry_def)
  have dec: "unser_block (vchBlock ob) = Some (b, [])" using block.dec_enc [OF b(1), of "[]"] b(2) by simp
  obtain v n where v: "AcceptBlock E env (stores (b_GetHash E ?scrypt b)) b (st_node st) = (v, n)" by fastforce
  note n = AcceptBlock_node_ok [OF v Cons.prems(4) assms(5)]
  let ?st = "\<lparr>st_node = n, st_orphans = (st_orphans st)\<lparr>
    mapOrphanBlocks := oerase (ob_hashBlock ob) (mapOrphanBlocks (st_orphans st)),
    setStakeSeenOrphan := setStakeSeenOrphan (st_orphans st) - {b_GetProofOfStake b},
    nOrphanBlocksSize := nOrphanBlocksSize (st_orphans st) - of_nat (length (vchBlock ob))\<rparr>\<rparr>"
  obtain t gs u where u: "process_children E env stores obs ?st = (t, gs, u)" by (metis prod_cases3)
  have nr: "v \<noteq> Raised" using Cons.prems(1) dec v by auto
  then have r: "t = False" "st' = u" "hs = (if v = Accepted () then [ob_hashBlock ob] else []) @ gs"
    using Cons.prems(1) dec v u by (cases v; simp add: Let_def)+
  let ?bp = "map prev_entry obs @ rest"
  have "mset bp = add_mset (ob_hashPrev ob, ob) (mset ?bp)" using Cons.prems(3) by (simp add: prev_entry_def [of ob])
  from orphans_with_erase [OF Cons.prems(2) this, of "mapOrphanBlocksByPrev (st_orphans st)"]
  have "orphans_with E ?scrypt (st_orphans ?st) ?bp" using b(2) by (simp add: orphans_with_def)
  from Cons.IH [OF u [unfolded r(1)] this _] n have IH:
    "orphans_with E ?scrypt (st_orphans u) rest" "node_ok E env0 (st_node u)"
    "mapBlockIndex n \<subseteq>\<^sub>m mapBlockIndex (st_node u)" "nBestChainTrust n \<le> nBestChainTrust (st_node u)" by simp_all
  have "nBestChainTrust (st_node st) \<le> nBestChainTrust n"
    using n best_viewD(5) [of n "st_node st"] by auto
  then show ?case
    using IH n r by (auto intro: map_le_trans)
qed

lemma orphans_of_split:
  assumes "orphan_blocks_ok E scrypt o'"
  shows "mset (mapOrphanBlocksByPrev o') =
    image_mset prev_entry (mset (orphans_of h o')) + mset (filter (\<lambda>e. fst e \<noteq> h) (mapOrphanBlocksByPrev o'))"
proof -
  let ?bp = "mapOrphanBlocksByPrev o'"
  have "prev_entry (snd e) = e" if "e \<in> set ?bp" for e
    using orphans_with_entry(1) [of E scrypt o' ?bp e] assms that by (cases e) (simp add: orphan_blocks_ok_def prev_entry_def)
  then have "map prev_entry (orphans_of h o') = filter (\<lambda>e. fst e = h) ?bp"
    by (simp add: orphans_of_def) (rule map_idI, simp)
  then have "image_mset prev_entry (mset (orphans_of h o')) = filter_mset (\<lambda>e. fst e = h) (mset ?bp)"
    by (metis mset_filter mset_map)
  then show ?thesis using multiset_partition [of "mset ?bp" "\<lambda>e. fst e = h"] by simp
qed

lemma process_queue_ok:
  assumes "process_queue E env stores queue st = (False, st')"
    and "orphan_blocks_ok E (scrypt_hash (base_env env)) (st_orphans st)" "node_ok E env0 (st_node st)" "same_chain env env0"
  shows "orphan_blocks_ok E (scrypt_hash (base_env env)) (st_orphans st') \<and> node_ok E env0 (st_node st') \<and>
    mapBlockIndex (st_node st) \<subseteq>\<^sub>m mapBlockIndex (st_node st') \<and>
    nBestChainTrust (st_node st) \<le> nBestChainTrust (st_node st')"
  using assms
proof (induction E env stores queue st rule: process_queue.induct)
  case (2 E env stores h queue st)
  let ?scrypt = "scrypt_hash (base_env env)" and ?bp = "mapOrphanBlocksByPrev (st_orphans st)"
  obtain t hs u where u: "process_children E env stores (orphans_of h (st_orphans st)) st = (t, hs, u)"
    by (metis prod_cases3)
  have t: "\<not> t" "t = False" and rest: "process_queue E env stores (queue @ hs) (erase_prev h u) = (False, st')"
    using 2(2) u by (auto split: if_splits)
  have "orphans_with E ?scrypt (st_orphans st) ?bp" using 2(3) by (simp add: orphan_blocks_ok_def)
  note c = process_children_ok [OF u [unfolded t(2)] this orphans_of_split [OF 2(3)] 2(4,5)]
  have bp: "mapOrphanBlocksByPrev (st_orphans u) = ?bp" using process_children_frame [OF u] by simp
  have e: "orphan_blocks_ok E ?scrypt (st_orphans (erase_prev h u))" "st_node (erase_prev h u) = st_node u"
    using c 2(3) bp by (simp_all add: erase_prev_def orphan_blocks_ok_def orphans_with_def sorted_filter)
  note q = 2(1) [OF u [symmetric] refl t(1) rest e(1) _ 2(5), unfolded e(2)]
  then show ?case using c by (auto intro: map_le_trans)
qed simp

section \<open>What the work queue does\<close>

text \<open>
  The specification of the work queue: orphans are given to \<open>AcceptBlock\<close> one after the other, each one after
  its parent was accepted; \<open>H\<close> is the set of the hashes accepted so far.
\<close>

inductive accept_run ::
  "external \<Rightarrow> node_env \<Rightarrow> (uint256 \<Rightarrow> (u32 \<times> u32) option) \<Rightarrow> uint256 set \<Rightarrow> node \<Rightarrow> COrphanBlock list \<Rightarrow>
     uint256 set \<Rightarrow> node \<Rightarrow> bool" for E env stores where
  no_orphan: "accept_run E env stores H n [] H n"
| accepted: "ob_hashPrev ob \<in> H \<Longrightarrow> unser_block (vchBlock ob) = Some (b, r) \<Longrightarrow>
    AcceptBlock E env (stores (b_GetHash E (scrypt_hash (base_env env)) b)) b n = (Accepted (), n1) \<Longrightarrow>
    accept_run E env stores (insert (ob_hashBlock ob) H) n1 obs H' n' \<Longrightarrow> accept_run E env stores H n (ob # obs) H' n'"
| rejected: "ob_hashPrev ob \<in> H \<Longrightarrow> unser_block (vchBlock ob) = Some (b, r) \<Longrightarrow>
    AcceptBlock E env (stores (b_GetHash E (scrypt_hash (base_env env)) b)) b n = (Rejected d, n1) \<Longrightarrow>
    accept_run E env stores H n1 obs H' n' \<Longrightarrow> accept_run E env stores H n (ob # obs) H' n'"

inductive_cases accept_run_NilE: "accept_run E env stores H n [] H' n'"
inductive_cases accept_run_ConsE: "accept_run E env stores H n (ob # obs) H' n'"

lemma accept_run_mono: "accept_run E env stores H n obs H' n' \<Longrightarrow> H \<subseteq> H'"
  by (induction rule: accept_run.induct) auto

lemma accept_run_append:
  "accept_run E env stores H n obs H1 n1 \<Longrightarrow> accept_run E env stores H1 n1 obs' H' n' \<Longrightarrow>
     accept_run E env stores H n (obs @ obs') H' n'"
  by (induction rule: accept_run.induct) (auto intro: accept_run.intros)

text \<open>What is accepted is in the index.\<close>

lemma accept_run_indexed:
  assumes "accept_run E env stores H n obs H' n'" "node_ok E env0 n" "same_chain env env0"
    and "\<forall>ob \<in> set obs. orphan_entry E (scrypt_hash (base_env env)) (ob_hashBlock ob, ob)"
    and "H \<subseteq> dom (mapBlockIndex n)"
  shows "H' \<subseteq> dom (mapBlockIndex n')"
  using assms(1,2,4,5)
proof (induction rule: accept_run.induct)
  case (accepted ob H b r n n1 obs H' n')
  note n1 = AcceptBlock_node_ok [OF accepted(3) accepted(6) assms(3)]
  obtain b' where b': "block_ok b'" "ob = COrphanBlock_new (b_GetHash E (scrypt_hash (base_env env)) b') b'"
    using accepted(7) by (auto simp: orphan_entry_of)
  then have "b' = b" using accepted(2) block.dec_enc [OF b'(1), where s = "[]"] by simp
  then have "ob_hashBlock ob \<in> dom (mapBlockIndex n1)"
    using AcceptBlock_indexed [OF accepted(3) accepted(6)] b'(2) by auto
  moreover have "H \<subseteq> dom (mapBlockIndex n1)" using accepted(8) n1 by (auto simp: map_le_def dom_def)
  ultimately show ?case using accepted n1 by simp
next
  case (rejected ob H b r n d n1 obs H' n')
  note n1 = AcceptBlock_node_ok [OF rejected(3) rejected(6) assms(3)]
  moreover have "H \<subseteq> dom (mapBlockIndex n1)" using rejected(8) n1 by (auto simp: map_le_def dom_def)
  ultimately show ?case using rejected by simp
qed

lemma process_children_run:
  assumes "process_children E env stores obs st = (False, hs, st')" "\<forall>ob \<in> set obs. ob_hashPrev ob \<in> H"
  shows "accept_run E env stores H (st_node st) obs (H \<union> set hs) (st_node st')"
  using assms
proof (induction obs arbitrary: st hs st' H)
  case Nil
  then show ?case by (auto intro: no_orphan)
next
  case (Cons ob obs)
  obtain b r where b: "unser_block (vchBlock ob) = Some (b, r)" using Cons.prems(1) by (auto split: option.splits)
  obtain v n where v: "AcceptBlock E env (stores (b_GetHash E (scrypt_hash (base_env env)) b)) b (st_node st) = (v, n)"
    by fastforce
  let ?st = "\<lparr>st_node = n, st_orphans = (st_orphans st)\<lparr>
    mapOrphanBlocks := oerase (ob_hashBlock ob) (mapOrphanBlocks (st_orphans st)),
    setStakeSeenOrphan := setStakeSeenOrphan (st_orphans st) - {b_GetProofOfStake b},
    nOrphanBlocksSize := nOrphanBlocksSize (st_orphans st) - of_nat (length (vchBlock ob))\<rparr>\<rparr>"
  obtain t gs u where u: "process_children E env stores obs ?st = (t, gs, u)" by (metis prod_cases3)
  have p: "ob_hashPrev ob \<in> H" "\<forall>ob \<in> set obs. ob_hashPrev ob \<in> H" using Cons.prems(2) by simp_all
  show ?case
  proof (cases v)
    case (Accepted x)
    then have r: "t = False" "st' = u" "hs = ob_hashBlock ob # gs" using Cons.prems(1) b v u by (simp_all add: Let_def)
    have "accept_run E env stores (insert (ob_hashBlock ob) H) n obs (insert (ob_hashBlock ob) H \<union> set gs) (st_node u)"
      using Cons.IH [OF u [unfolded r(1)], of "insert (ob_hashBlock ob) H"] p(2) by simp
    then show ?thesis using accept_run.accepted [OF p(1) b] v r Accepted by simp
  next
    case (Rejected d)
    then have r: "t = False" "st' = u" "hs = gs" using Cons.prems(1) b v u by (simp_all add: Let_def)
    have "accept_run E env stores H n obs (H \<union> set gs) (st_node u)" using Cons.IH [OF u [unfolded r(1)] p(2)] by simp
    then show ?thesis using accept_run.rejected [OF p(1) b] v r Rejected by simp
  next
    case Raised
    then show ?thesis using Cons.prems(1) b v by simp
  qed
qed

lemma process_queue_run:
  assumes "process_queue E env stores queue st = (False, st')" "set queue \<subseteq> H"
    and "\<forall>e \<in> set (mapOrphanBlocksByPrev (st_orphans st)). fst e = ob_hashPrev (snd e) \<and> (fst e \<in> H \<longrightarrow> fst e \<in> set queue)"
  shows "\<exists>obs H'. accept_run E env stores H (st_node st) obs H' (st_node st') \<and>
    mset obs = mset (map snd (filter (\<lambda>e. fst e \<in> H') (mapOrphanBlocksByPrev (st_orphans st)))) \<and>
    mapOrphanBlocksByPrev (st_orphans st') = filter (\<lambda>e. fst e \<notin> H') (mapOrphanBlocksByPrev (st_orphans st))"
  using assms
proof (induction E env stores queue st arbitrary: H rule: process_queue.induct)
  case (1 E env stores st)
  let ?bp = "mapOrphanBlocksByPrev (st_orphans st)"
  have "filter (\<lambda>e. fst e \<in> H) ?bp = []" "filter (\<lambda>e. fst e \<notin> H) ?bp = ?bp" using 1(3) by (auto simp: filter_empty_conv filter_id_conv)
  then show ?case using 1(1) no_orphan by (intro exI [of _ "[]"] exI [of _ H]) auto
next
  case (2 E env stores h queue st)
  let ?bp = "mapOrphanBlocksByPrev (st_orphans st)" and ?ch = "orphans_of h (st_orphans st)"
  obtain t hs u where u: "process_children E env stores ?ch st = (t, hs, u)" by (metis prod_cases3)
  have t: "\<not> t" "t = False" and rest: "process_queue E env stores (queue @ hs) (erase_prev h u) = (False, st')"
    using 2(2) u by (auto split: if_splits)
  have h: "h \<in> H" using 2(3) by simp
  have "\<forall>ob \<in> set ?ch. ob_hashPrev ob \<in> H" using 2(4) h by (auto simp: orphans_of_def)
  note ch = process_children_run [OF u [unfolded t(2)] this]
  have e: "st_node (erase_prev h u) = st_node u"
    "mapOrphanBlocksByPrev (st_orphans (erase_prev h u)) = filter (\<lambda>e. fst e \<noteq> h) ?bp"
    using process_children_frame [OF u] by (simp_all add: erase_prev_def)
  have "set (queue @ hs) \<subseteq> H \<union> set hs" using 2(3) by auto
  moreover have "\<forall>e \<in> set (filter (\<lambda>e. fst e \<noteq> h) ?bp). fst e = ob_hashPrev (snd e) \<and>
      (fst e \<in> H \<union> set hs \<longrightarrow> fst e \<in> set (queue @ hs))" using 2(4) by auto
  ultimately obtain obs H' where q: "accept_run E env stores (H \<union> set hs) (st_node u) obs H' (st_node st')"
    "mset obs = mset (map snd (filter (\<lambda>e. fst e \<in> H') (filter (\<lambda>e. fst e \<noteq> h) ?bp)))"
    "mapOrphanBlocksByPrev (st_orphans st') = filter (\<lambda>e. fst e \<notin> H') (filter (\<lambda>e. fst e \<noteq> h) ?bp)"
    using 2(1) [OF u [symmetric] refl t(1) rest, of "H \<union> set hs", unfolded e] by blast
  have split: "h \<in> H' \<Longrightarrow> mset (filter (\<lambda>e. fst e \<in> H') bp) =
      mset (filter (\<lambda>e. fst e = h) bp) + mset (filter (\<lambda>e. fst e \<in> H') (filter (\<lambda>e. fst e \<noteq> h) bp))"
    for bp :: "(uint256 \<times> COrphanBlock) list" by (induction bp) (simp_all del: mset_filter)
  have hH: "h \<in> H'" using accept_run_mono [OF q(1)] h by blast
  have "filter (\<lambda>e. fst e \<notin> H') (filter (\<lambda>e. fst e \<noteq> h) ?bp) = filter (\<lambda>e. fst e \<notin> H') ?bp"
    using hH by (auto intro: filter_cong)
  moreover have parts: "mset (filter (\<lambda>e. fst e \<in> H') ?bp) =
      mset (filter (\<lambda>e. fst e = h) ?bp) + mset (filter (\<lambda>e. fst e \<in> H') (filter (\<lambda>e. fst e \<noteq> h) ?bp))"
    using hH by (rule split)
  moreover have "mset (?ch @ obs) = mset (map snd (filter (\<lambda>e. fst e \<in> H') ?bp))"
    using parts by (simp add: q(2) orphans_of_def del: mset_filter)
  ultimately show ?case
    using accept_run_append [OF ch q(1)] q(3) by (intro exI [of _ "?ch @ obs"] exI [of _ H'] conjI) simp_all
qed

section \<open>ProcessBlock\<close>

definition block_state_ok :: "external \<Rightarrow> node_env \<Rightarrow> block_state \<Rightarrow> bool" where
  "block_state_ok E env0 st \<longleftrightarrow>
     node_ok E env0 (st_node st) \<and> orphan_blocks_ok E (scrypt_hash (base_env env0)) (st_orphans st)"

lemma GetHash_sig [simp]:
  "b_GetHash E scrypt (b\<lparr>vchBlockSig := sig\<rparr>) = b_GetHash E scrypt b" "hashPrevBlock (b\<lparr>vchBlockSig := sig\<rparr>) = hashPrevBlock b"
  by (simp_all add: b_GetHash_def ser_header_def GetPoWHash_def)

lemma block_ok_sig:
  "block_ok b \<Longrightarrow> length (ser_block (b\<lparr>vchBlockSig := sig\<rparr>)) \<le> MAX_BLOCK_SIZE \<Longrightarrow> block_ok (b\<lparr>vchBlockSig := sig\<rparr>)"
  by (simp add: block_ok_def ser_block_def ser_bytes_def MAX_BLOCK_SIZE_def MAX_SIZE_def)

lemma keep_orphan_ok:
  assumes "keep_orphan rand maxmib initial h b st = (v, acts, st')" "v \<noteq> Raised"
    and "orphan_blocks_ok E scrypt (st_orphans st)" "block_ok b" "h = b_GetHash E scrypt b"
    and "map_of (mapOrphanBlocks (st_orphans st)) h = None"
  shows "orphan_blocks_ok E scrypt (st_orphans st') \<and> st_node st' = st_node st"
proof (cases "b_IsProofOfStake b \<and> b_GetProofOfStake b \<in> setStakeSeenOrphan (st_orphans st) \<and> \<not> by_prev_has h (st_orphans st)")
  case True
  then show ?thesis using assms(1,3) by (simp add: keep_orphan_def)
next
  case False
  note d = assms(1) [unfolded keep_orphan_def if_not_P [OF False] Let_def]
  then obtain p where p: "PruneOrphanBlocks rand maxmib (st_orphans st) = Some p"
    using assms(2) by (auto split: option.splits)
  then have "st' = st\<lparr>st_orphans := add_orphan b (COrphanBlock_new h b) p\<rparr>"
    using d assms(2) by (auto split: option.splits)
  moreover have ok: "orphan_blocks_ok E scrypt p" "set (mapOrphanBlocks p) \<subseteq> set (mapOrphanBlocks (st_orphans st))"
    using prune_loop_props [OF p [unfolded PruneOrphanBlocks_def] assms(3)] by simp_all
  moreover have "map_of (mapOrphanBlocks p) h = None" using ok(2) assms(6) by (force simp: map_of_eq_None_iff)
  ultimately show ?thesis using add_orphan_ok [of E scrypt p b] assms(4,5) by simp
qed

lemma ProcessBlock_cases:
  assumes "ProcessBlock E env stores rand maxmib importing initial pfrom b st = (v, acts, st')"
  obtains (unchanged) "st' = st" "v \<noteq> Accepted () \<or> mapBlockIndex (st_node st) (hashPrevBlock b) = None"
  | (orphan) sig where "length (ser_block (b\<lparr>vchBlockSig := sig\<rparr>)) \<le> MAX_BLOCK_SIZE"
      "map_of (mapOrphanBlocks (st_orphans st)) (b_GetHash E (scrypt_hash (base_env env)) b) = None"
      "mapBlockIndex (st_node st) (hashPrevBlock b) = None"
      "keep_orphan rand maxmib initial (b_GetHash E (scrypt_hash (base_env env)) b) (b\<lparr>vchBlockSig := sig\<rparr>) st = (v, acts, st')"
  | (refused) sig where "AcceptBlock E env (stores (b_GetHash E (scrypt_hash (base_env env)) b)) (b\<lparr>vchBlockSig := sig\<rparr>) (st_node st) =
      (v, st_node st')" "v \<noteq> Accepted ()" "st_orphans st' = st_orphans st"
  | (accepted) sig n threw where "sig = vchBlockSig b \<or> EnsureLowS E (vchBlockSig b) = Some sig"
      "AcceptBlock E env (stores (b_GetHash E (scrypt_hash (base_env env)) b)) (b\<lparr>vchBlockSig := sig\<rparr>) (st_node st) =
      (Accepted (), n)" "mapBlockIndex (st_node st) (hashPrevBlock b) \<noteq> None"
      "process_queue E env stores [b_GetHash E (scrypt_hash (base_env env)) b] (st\<lparr>st_node := n\<rparr>) = (threw, st')"
      "v = (if threw then Raised else Accepted ())"
proof -
  let ?h = "b_GetHash E (scrypt_hash (base_env env)) b"
  let ?check = "\<lambda>sig. CheckBlock E (scrypt_hash (base_env env)) (max_data_carrier (base_env env))
    (proof_of_work_limit (base_env env)) (adjusted_time (base_env env)) True True True (b\<lparr>vchBlockSig := sig\<rparr>)"
  define new_sig where "new_sig =
    (if IsCanonicalBlockSignature b True then Some (vchBlockSig b) else EnsureLowS E (vchBlockSig b))"
  note d = assms [unfolded ProcessBlock_def Let_def GetHash_sig, folded new_sig_def]
  show thesis
  proof (cases "st' = st \<and> (v \<noteq> Accepted () \<or> mapBlockIndex (st_node st) (hashPrevBlock b) = None)")
    case True
    then show thesis using unchanged by blast
  next
    case False
    obtain sig where new: "new_sig = Some sig" and sig: "?check sig = Inr ()" "map_of (mapOrphanBlocks (st_orphans st)) ?h = None"
      "(if mapBlockIndex (st_node st) (hashPrevBlock b) = None
        then (if pfrom = None then (Accepted (), [], st) else keep_orphan rand maxmib initial ?h (b\<lparr>vchBlockSig := sig\<rparr>) st)
        else (case AcceptBlock E env (stores ?h) (b\<lparr>vchBlockSig := sig\<rparr>) (st_node st) of
            (Raised, n) \<Rightarrow> (Raised, [], st\<lparr>st_node := n\<rparr>)
          | (Rejected d, n) \<Rightarrow> (Rejected d, [], st\<lparr>st_node := n\<rparr>)
          | (Accepted _, n) \<Rightarrow> (case process_queue E env stores [?h] (st\<lparr>st_node := n\<rparr>) of
              (threw, st) \<Rightarrow> (if threw then Raised else Accepted (), [], st)))) = (v, acts, st')"
      using d False by (auto split: if_splits option.splits sum.splits)
    have low: "sig = vchBlockSig b \<or> EnsureLowS E (vchBlockSig b) = Some sig"
      using new by (auto simp: new_sig_def split: if_splits)
    show thesis
    proof (cases "mapBlockIndex (st_node st) (hashPrevBlock b) = None")
      case True
      moreover have "length (ser_block (b\<lparr>vchBlockSig := sig\<rparr>)) \<le> MAX_BLOCK_SIZE" using sig(1) by (simp add: CheckBlock_iff)
      ultimately show thesis using sig(2,3) False orphan [of sig] by (auto split: if_splits)
    next
      case known: False
      obtain w n where a: "AcceptBlock E env (stores ?h) (b\<lparr>vchBlockSig := sig\<rparr>) (st_node st) = (w, n)" by fastforce
      show thesis
      proof (cases w)
        case (Accepted x)
        obtain threw s2 where q: "process_queue E env stores [?h] (st\<lparr>st_node := n\<rparr>) = (threw, s2)" by fastforce
        show thesis using sig(3) a Accepted known q low accepted [of sig n threw] by auto
      next
        case (Rejected x)
        then show thesis using sig(3) a known refused [of sig] by auto
      next
        case Raised
        then show thesis using sig(3) a known refused [of sig] by auto
      qed
    qed
  qed
qed

lemma ProcessBlock_ok:
  assumes "ProcessBlock E env stores rand maxmib importing initial pfrom b st = (v, acts, st')" "v \<noteq> Raised"
    and "block_state_ok E env0 st" "same_chain env env0" "block_ok b"
  shows "block_state_ok E env0 st' \<and> mapBlockIndex (st_node st) \<subseteq>\<^sub>m mapBlockIndex (st_node st') \<and>
    nBestChainTrust (st_node st) \<le> nBestChainTrust (st_node st')"
proof -
  have scrypt: "scrypt_hash (base_env env) = scrypt_hash (base_env env0)" using assms(4) by (simp add: same_chain_def)
  have ok: "node_ok E env0 (st_node st)" "orphan_blocks_ok E (scrypt_hash (base_env env)) (st_orphans st)"
    using assms(3) scrypt by (simp_all add: block_state_ok_def)
  show ?thesis
    using assms(1)
  proof (cases rule: ProcessBlock_cases)
    case unchanged
    then show ?thesis using assms(3) by simp
  next
    case (orphan sig)
    then show ?thesis
      using keep_orphan_ok [OF orphan(4) assms(2) ok(2) block_ok_sig [OF assms(5) orphan(1)]] ok scrypt
      by (simp add: block_state_ok_def)
  next
    case (refused sig)
    from AcceptBlock_node_ok [OF refused(1) ok(1) assms(4)] show ?thesis
      using refused(3) ok scrypt best_viewD(5) [of "st_node st'" "st_node st"] by (auto simp: block_state_ok_def)
  next
    case (accepted sig n threw)
    note n = AcceptBlock_node_ok [OF accepted(2) ok(1) assms(4)] AcceptBlock_indexed [OF accepted(2) ok(1), unfolded GetHash_sig]
    have "\<not> threw" using accepted(5) assms(2) by auto
    then have "process_queue E env stores [b_GetHash E (scrypt_hash (base_env env)) b] (st\<lparr>st_node := n\<rparr>) = (False, st')"
      using accepted(4) by simp
    note q = process_queue_ok [OF this _ _ assms(4)]
    with n(1) ok have q: "block_state_ok E env0 st'" "mapBlockIndex n \<subseteq>\<^sub>m mapBlockIndex (st_node st')"
      "nBestChainTrust n \<le> nBestChainTrust (st_node st')" using scrypt by (auto simp: block_state_ok_def)
    moreover have "nBestChainTrust (st_node st) \<le> nBestChainTrust n" using n(1) best_viewD(5) [of n "st_node st"] by auto
    ultimately show ?thesis using n(1) by (auto intro: map_le_trans)
  qed
qed

text \<open>Once a block has been accepted, the orphans that waited for it, or for one of them that was accepted, have
  been given to \<open>AcceptBlock\<close>; the others stay.\<close>

lemma ProcessBlock_children:
  assumes "ProcessBlock E env stores rand maxmib importing initial pfrom b st = (Accepted (), acts, st')"
    and "mapBlockIndex (st_node st) (hashPrevBlock b) \<noteq> None"
    and "block_state_ok E env0 st" "same_chain env env0"
  shows "\<exists>sig n obs H. (sig = vchBlockSig b \<or> EnsureLowS E (vchBlockSig b) = Some sig) \<and>
    AcceptBlock E env (stores (b_GetHash E (scrypt_hash (base_env env)) b)) (b\<lparr>vchBlockSig := sig\<rparr>)
      (st_node st) = (Accepted (), n) \<and>
    accept_run E env stores {b_GetHash E (scrypt_hash (base_env env)) b} n obs H (st_node st') \<and>
    mset obs = mset (map snd (filter (\<lambda>e. fst e \<in> H) (mapOrphanBlocksByPrev (st_orphans st)))) \<and>
    mapOrphanBlocksByPrev (st_orphans st') = filter (\<lambda>e. fst e \<notin> H) (mapOrphanBlocksByPrev (st_orphans st)) \<and>
    H \<subseteq> dom (mapBlockIndex (st_node st'))"
proof -
  let ?scrypt = "scrypt_hash (base_env env)" and ?h = "b_GetHash E (scrypt_hash (base_env env)) b"
    and ?bp = "mapOrphanBlocksByPrev (st_orphans st)"
  have ok: "node_ok E env0 (st_node st)" "orphans_with E ?scrypt (st_orphans st) ?bp"
    using assms(3,4) by (simp_all add: block_state_ok_def same_chain_def orphan_blocks_ok_def)
  show ?thesis
    using assms(1)
  proof (cases rule: ProcessBlock_cases)
    case (accepted sig n threw)
    note n = AcceptBlock_node_ok [OF accepted(2) ok(1) assms(4)] AcceptBlock_indexed [OF accepted(2) ok(1), unfolded GetHash_sig]
    have q: "process_queue E env stores [?h] (st\<lparr>st_node := n\<rparr>) = (False, st')" using accepted(4,5) by (auto split: if_splits)
    have "\<forall>e \<in> set ?bp. fst e = ob_hashPrev (snd e) \<and> (fst e \<in> {?h} \<longrightarrow> fst e \<in> set [?h])"
      using orphans_with_entry(1) [OF ok(2)] by simp
    with process_queue_run [OF q, of "{?h}"] obtain obs H where r: "accept_run E env stores {?h} n obs H (st_node st')"
      "mset obs = mset (map snd (filter (\<lambda>e. fst e \<in> H) ?bp))"
      "mapOrphanBlocksByPrev (st_orphans st') = filter (\<lambda>e. fst e \<notin> H) ?bp" by auto
    have "set obs = snd ` set (filter (\<lambda>e. fst e \<in> H) ?bp)" using r(2) by (metis set_map set_mset_mset)
    then have "\<forall>ob \<in> set obs. orphan_entry E ?scrypt (ob_hashBlock ob, ob)"
      using orphans_with_entry(3) [OF ok(2)] by auto
    then have "H \<subseteq> dom (mapBlockIndex (st_node st'))"
      using accept_run_indexed [OF r(1) _ assms(4)] n by auto
    with r accepted(1,2) show ?thesis by blast
  next
    case (orphan sig)
    then show ?thesis using assms(2) by simp
  next
    case unchanged
    then show ?thesis using assms(2) by simp
  next
    case (refused sig)
    then show ?thesis by simp
  qed
qed

section \<open>Reachable states\<close>

text \<open>The states after any blocks went through \<open>ProcessBlock\<close> without an exception, from whatever peer and in
  whatever circumstances.\<close>

inductive block_state_reach :: "external \<Rightarrow> node_env \<Rightarrow> block_state \<Rightarrow> bool" for E env0 where
  start: "node_reach E env0 s \<Longrightarrow> block_state_reach E env0 \<lparr>st_node = s, st_orphans = orphan_blocks_empty\<rparr>"
| process: "block_state_reach E env0 st \<Longrightarrow> same_chain env env0 \<Longrightarrow> block_ok b \<Longrightarrow>
    ProcessBlock E env stores rand maxmib importing initial pfrom b st = (v, acts, st') \<Longrightarrow> v \<noteq> Raised \<Longrightarrow>
    block_state_reach E env0 st'"

lemma block_state_reach_ok: "block_state_reach E env0 st \<Longrightarrow> block_state_ok E env0 st"
proof (induction rule: block_state_reach.induct)
  case (start s)
  then show ?case using node_reach_ok orphan_blocks_ok_empty by (simp add: block_state_ok_def)
next
  case (process st env b stores rand maxmib importing initial pfrom v acts st')
  then show ?case using ProcessBlock_ok by blast
qed

end
