(* ===== verification/NodeRun.thy ===== *)
theory NodeRun
  imports ReorgProps OrphanProps ChainSpec
begin

text \<open>
  A run of the model that the witnesses use: a test chain with a genesis block, a block on it, and a branch
  of two blocks that replaces it. The hash of a block or of a transaction is the low byte of its time.
\<close>

section \<open>The blocks\<close>

definition run_digest :: "byte list \<Rightarrow> byte list" where
  "run_digest bs = (if length bs = 32 then bs else bs ! (if length bs = 80 then 68 else 4) # replicate 31 0)"

definition run_hash :: external where
  "run_hash = openssl_ref\<lparr>SSL_SHA256 := run_digest\<rparr>"

definition run_coinbase :: "byte \<Rightarrow> u32 \<Rightarrow> CTransaction" where
  "run_coinbase op t = \<lparr>tx_nVersion = 1, tx_nTime = t,
     vin = [\<lparr>prevout = COutPoint_null, scriptSig = [op, 0], nSequence = 0\<rparr>],
     vout = [\<lparr>nValue = 5, scriptPubKey = [0x51, 0x51]\<rparr>], nLockTime = 0\<rparr>"

definition run_block :: "uint256 \<Rightarrow> byte \<Rightarrow> u32 \<Rightarrow> CBlock" where
  "run_block prev op t = CBlock_null\<lparr>hashPrevBlock := prev,
     hashMerkleRoot := fst (BuildMerkleTree run_hash [run_coinbase op t]), b_nTime := t,
     b_nBits := GetCompact run_hash 1000, vtx := [run_coinbase op t]\<rparr>"

lemma run_bn_ok: "bn_ok run_hash"
  using openssl_ref_bn_ok by (simp add: bn_ok_def run_hash_def)

lemma run_u32_byte: "bytes_of_u32 t ! 0 = of_nat (unat t mod 256)"
  using le_bytes.simps(2) [of 3 "unat t"] by (simp only: bytes_of_u32_def) simp

lemma run_zeros [simp]: "le_val (replicate n 0) = 0"
  by (induction n) auto

lemma run_header: "length (ser_header b) = 80" "ser_header b ! 68 = of_nat (unat (b_nTime b) mod 256)"
  by (simp_all add: ser_header_def nth_append run_u32_byte)

lemma run_block_hash [simp]:
  "b_GetHash run_hash scrypt (run_block prev op t) = of_nat (unat t mod 256)"
  using run_header [of "run_block prev op t"]
  by (simp add: b_GetHash_def Hash_def run_hash_def run_digest_def unat_of_nat)
    (simp add: run_block_def CBlock_null_def)

lemma run_tx_hash [simp]: "tx_GetHash run_hash (run_coinbase op t) = of_nat (unat t mod 256)"
proof -
  have "length (ser_tx (run_coinbase op t)) = 68"
    by (simp add: run_coinbase_def ser_tx_def ser_vector_def ser_txin_def ser_txout_def ser_bytes_def
      ser_outpoint_def WriteCompactSize_def)
  moreover have "ser_tx (run_coinbase op t) ! 4 = of_nat (unat t mod 256)"
    by (simp add: run_coinbase_def ser_tx_def nth_append run_u32_byte)
  ultimately show ?thesis
    by (simp add: tx_GetHash_def Hash_def run_hash_def run_digest_def unat_of_nat)
qed

lemma run_coinbase_kind: "IsCoinBase (run_coinbase op t)" "\<not> IsCoinStake (run_coinbase op t)"
  by (simp_all add: IsCoinBase_def IsCoinStake_def run_coinbase_def op_IsNull_def COutPoint_null_def)

lemma run_not_stake [simp]: "\<not> b_IsProofOfStake (run_block prev op t)"
  by (simp add: b_IsProofOfStake_def run_block_def)

lemma run_block_simps [simp]:
  "vtx (run_block prev op t) = [run_coinbase op t]" "hashPrevBlock (run_block prev op t) = prev"
  "b_nVersion (run_block prev op t) = 7" "b_nTime (run_block prev op t) = t"
  "b_nBits (run_block prev op t) = GetCompact run_hash 1000"
  by (simp_all add: run_block_def CBlock_null_def)

lemma run_pow: "CheckProofOfWork run_hash 1000 0 (GetCompact run_hash 1000)"
  using compact_round [OF run_bn_ok, of 1000] run_bn_ok by (simp add: CheckProofOfWork_def Let_def)

lemma run_value: "GetValueOut (run_coinbase op t) = Some 5"
  by (simp add: GetValueOut_iff run_coinbase_def out_sum_def MoneyRange_def MAX_MONEY_def COIN_def)

lemma run_sigops: "op \<in> {0x50, 0x51, 0x52} \<Longrightarrow> GetLegacySigOpCount (run_coinbase op t) = 0"
proof -
  assume "op \<in> {0x50, 0x51, 0x52}"
  then have "GetSigOpCount False [op, 0] = 0" "GetSigOpCount False [0x51, 0x51] = 0"
    by (auto simp: GetSigOpCount_def sigops_loop.simps GetOp2_def)
  then show ?thesis by (simp add: GetLegacySigOpCount_def run_coinbase_def)
qed

lemma run_block_checked:
  assumes "op \<in> {0x50, 0x51, 0x52}" "t \<le> 20"
  shows "CheckBlock run_hash (\<lambda>_. 0) 40 1000 100 True True fSig (run_block prev op t) = Inr ()"
proof -
  have len: "length (ser_tx (run_coinbase op t)) = 68"
    by (simp add: run_coinbase_def ser_tx_def ser_vector_def ser_txin_def ser_txout_def ser_bytes_def
      ser_outpoint_def WriteCompactSize_def)
  have "unat t \<le> unat (20 :: u32)" using assms(2) by (rule word_le_nat_alt [THEN iffD1])
  then have "unat t \<le> 20" by simp
  then have "int (unat t) \<le> 20" by linarith
  then have t: "uint t \<le> 20" by simp
  have size: "length (ser_block (run_block prev op t)) \<le> MAX_BLOCK_SIZE"
    by (simp add: ser_block_def run_block_def CBlock_null_def ser_vector_def ser_bytes_def len MAX_BLOCK_SIZE_def
        GetSizeOfCompactSize_def)
  have tx: "CheckTransaction (run_coinbase op t) = Inr ()"
    unfolding CheckTransaction_iff len using run_coinbase_kind
    by (simp_all add: run_coinbase_def out_sum_def MoneyRange_def MAX_MONEY_def COIN_def MAX_BLOCK_SIZE_def
        txout_IsEmpty_def op_IsNull_def)
  have sig: "CheckBlockSignature run_hash (\<lambda>_. 0) 40 (run_block prev op t)"
    by (simp add: CheckBlockSignature_def) (simp add: run_block_def CBlock_null_def)
  have pow: "GetPoWHash (\<lambda>_. 0) (run_block prev op t) = 0" by (simp add: GetPoWHash_def)
  have root: "hashMerkleRoot (run_block prev op t) = fst (BuildMerkleTree run_hash [run_coinbase op t])"
    by (simp add: run_block_def)
  show ?thesis
    unfolding CheckBlock_iff using size tx sig t run_pow
    by (simp add: MAX_BLOCK_SIZE_def b_GetBlockTime_def FutureDrift_def run_coinbase_kind pow root
        block_sigops_def run_sigops [OF assms(1)]) (simp add: run_coinbase_def)
qed

section \<open>The environment\<close>

definition run_disk :: "u32 \<Rightarrow> u32 \<Rightarrow> CBlock option" where
  "run_disk nFile nBlockPos = map_of [((1, 0), run_block 0 0x50 1), ((1, 1000), run_block 1 0x51 2),
     ((1, 2000), run_block 1 0x51 3), ((1, 3000), run_block 3 0x52 4)] (nFile, nBlockPos)"

definition run_env :: node_env where
  "run_env = \<lparr>base_env = env1, disk_block = run_disk, fTestNet = True, hashGenesisBlock = 1,
     nLastPOWBlock = 100, proof_of_stake_limit = 1000\<rparr>"

lemma run_env_simps [simp]:
  "scrypt_hash (base_env run_env) = (\<lambda>_. 0)" "proof_of_work_limit (base_env run_env) = 1000"
  "max_data_carrier (base_env run_env) = 40" "adjusted_time (base_env run_env) = 100"
  "disk_block run_env = run_disk" "fTestNet run_env" "hashGenesisBlock run_env = 1" "nLastPOWBlock run_env = 100"
  "proof_of_stake_limit run_env = 1000"
  by (simp_all add: run_env_def env1_def)

lemma run_connects:
  assumes "op \<in> {0x50, 0x51, 0x52}" "t \<le> 20" "0 \<le> nBestHeight s" "nBestHeight s < 9"
    and "txdb (of_nat (unat t mod 256)) = None"
  shows "\<exists>txdb' supply'. ConnectBlock run_hash (connect_env_of run_env s) txdb pindex supply False (run_block prev op t) c =
    Accepted (txdb', 5, supply', c)"
proof -
  let ?env = "connect_env_of run_env s" and ?b = "run_block prev op t"
  obtain u where u: "connect_loop run_hash ?env txdb pindex False [run_coinbase op t]
      (connect_start pindex False ?b c) = Accepted u"
    "cs_nValueOut u = 5" "cs_nValueIn u = 0" "cs_nFees u = 0" "cs_cache u = c"
    using assms(5) by (simp add: connect_tx_def Let_def run_coinbase_kind run_value run_sigops [OF assms(1)] connect_start_def)
  have r: "check_reward run_hash ?env txdb pindex ?b u = Accepted ()"
    using assms(3,4) by (simp add: check_reward_def run_value u GetProofOfWorkReward_def COIN_def s64_def Let_def)
  have k: "CheckBlock run_hash (scrypt_hash ?env) (max_data_carrier ?env) (proof_of_work_limit ?env)
      (adjusted_time ?env) (\<not> False) (\<not> False) False ?b = Inr ()"
    using run_block_checked [OF assms(1,2)] by simp
  show ?thesis unfolding ConnectBlock_def k run_block_simps u(1) sum.case verdict.case r by (simp add: u(2-5))
qed

lemma run_read:
  assumes "run_disk (bi_nFile p) (bi_nBlockPos p) = Some (run_block prev op t)" "bi_hash p = of_nat (unat t mod 256)"
  shows "read_block run_hash run_env (p # c) = Some (run_block prev op t)"
  using assms run_pow by (simp add: read_block_def GetPoWHash_def)

section \<open>Adding a block\<close>

definition run_trust :: uint256 where "run_trust = of_int (2 ^ 256 div 1001)"

lemma run_block_trust: "bi_nBits p = GetCompact run_hash 1000 \<Longrightarrow> GetBlockTrust run_hash p = Some run_trust"
proof -
  assume p: "bi_nBits p = GetCompact run_hash 1000"
  have "length (mpi_bytes 1000) \<le> 3" by (rule length_mpi_bytes [of _ 2, simplified]) simp
  then have "SetCompact run_hash (GetCompact run_hash 1000) = 1000"
    using SetCompact_GetCompact [OF run_bn_ok, of 1000] by simp
  then show ?thesis using run_bn_ok
    by (simp add: GetBlockTrust_def p Let_def run_trust_def getuint256_eq bn_div_eq)
qed

lemma run_accept:
  assumes "mapBlockIndex s (of_nat (unat t mod 256)) = None" "mapBlockIndex s prev = Some (q # qs)"
    and "push_int64 run_hash [] (nHeight q + 1) = [op]" "nHeight q < 9" "bi_GetBlockTime q < int (unat t)" "unat t \<le> 20"
    and "GetNextTargetRequired run_hash 1000 1000 (q # qs) False = Some (GetCompact run_hash 1000)"
    and "CheckSync (pindexBest s) (nHeight q + 1) = Some True"
  shows "AcceptBlock run_hash run_env (Some (f, pos)) (run_block prev op t) s =
    AddToBlockIndex run_hash run_env f pos 0 (run_block prev op t) s"
proof -
  have "bi_GetBlockTime q \<ge> 0" by (simp add: bi_GetBlockTime_def)
  moreover have "scriptSig (vin (run_coinbase op t) ! 0) = [op, 0]" "tx_nTime (run_coinbase op t) = t"
    "IsFinalTx h now (run_coinbase op t) height time" for h now height time
    by (simp_all add: run_coinbase_def IsFinalTx_def)
  ultimately show ?thesis
    using assms
    by (simp add: AcceptBlock_def Let_def b_GetBlockTime_def FutureDrift_def CheckHardened_def checkpoints_def
        mapCheckpointsTestnet_def GetPoWHash_def)
qed

text \<open>Adding a block of the run to a state that has its parent: the entry, and what follows.\<close>

lemma run_add:
  assumes "mapBlockIndex s (of_nat (unat t mod 256)) = None"
    and "(case mapBlockIndex s prev of None \<Rightarrow> [] | Some c \<Rightarrow> c) = pprev"
    and "ComputeNextStakeModifier run_hash (mapBlockIndex s) pprev \<noteq> None"
  obtains p where "entry_for run_hash run_env (run_block prev op t) f pos pprev p"
    "AddToBlockIndex run_hash run_env f pos hp (run_block prev op t) s =
      (if nChainTrust p > nBestChainTrust s
       then SetBestChain run_hash run_env (run_block prev op t) (p # pprev)
         (s\<lparr>mapBlockIndex := (mapBlockIndex s)(of_nat (unat t mod 256) \<mapsto> p # pprev)\<rparr>)
       else (Accepted (), s\<lparr>mapBlockIndex := (mapBlockIndex s)(of_nat (unat t mod 256) \<mapsto> p # pprev)\<rparr>))"
proof -
  obtain v s' where r: "AddToBlockIndex run_hash run_env f pos hp (run_block prev op t) s = (v, s')" by fastforce
  then show thesis
  proof (cases rule: AddToBlockIndex_cases)
    case refused
    then show thesis using assms(1,3) run_block_trust
      by (simp only: run_block_simps run_block_hash assms(2)) (simp add: CBlockIndex_new_def)
  next
    case (added p t')
    note q = added [unfolded run_block_simps run_block_hash assms(2)]
    have "t' = s\<lparr>mapBlockIndex := (mapBlockIndex s)(of_nat (unat t mod 256) \<mapsto> p # pprev)\<rparr>" using q(5) by simp
    then show thesis using that [OF q(2)] r q(6) by auto
  qed
qed

lemma run_entry:
  assumes "entry_for run_hash run_env (run_block prev op t) f pos pprev p"
  shows "bi_hash p = of_nat (unat t mod 256)" "bi_nFile p = f" "bi_nBlockPos p = pos"
    "nHeight p = (if pprev = [] then 0 else nHeight (hd pprev) + 1)"
    "nChainTrust p = (if pprev = [] then 0 else nChainTrust (hd pprev)) + run_trust"
    "\<not> bi_IsProofOfStake p" "bi_nTime p = t" "pprev = [] \<Longrightarrow> GeneratedStakeModifier p"
  using assms run_block_trust by (auto simp: entry_for_def)

section \<open>The states\<close>

definition run1 :: node where
  "run1 = snd (AddToBlockIndex run_hash run_env 1 0 1 (run_block 0 0x50 1) (node_start cache0))"

definition run2 :: node where
  "run2 = snd (AcceptBlock run_hash run_env (Some (1, 1000)) (run_block 1 0x51 2) run1)"

definition run3 :: node where
  "run3 = snd (AcceptBlock run_hash run_env (Some (1, 2000)) (run_block 1 0x51 3) run2)"

definition run4 :: node where
  "run4 = snd (AcceptBlock run_hash run_env (Some (1, 3000)) (run_block 3 0x52 4) run3)"

definition run_genesis :: CBlockIndex where
  "run_genesis = hd (the (mapBlockIndex run1 1))"

lemma run1_facts:
  "AddToBlockIndex run_hash run_env 1 0 1 (run_block 0 0x50 1) (node_start cache0) = (Accepted (), run1)"
  "entry_for run_hash run_env (run_block 0 0x50 1) 1 0 [] run_genesis"
  "run1 = new_best 1 [run_genesis] ((node_start cache0)\<lparr>mapBlockIndex := [1 \<mapsto> [run_genesis]], db_hashBestChain := 1,
     pindexGenesisBlock := [run_genesis]\<rparr>)"
proof -
  let ?s = "node_start cache0"
  have s: "mapBlockIndex ?s = Map.empty" "nBestChainTrust ?s = 0" "pindexGenesisBlock ?s = []"
    by (simp_all add: node_start_def)
  have m: "mapBlockIndex ?s (of_nat (unat (1 :: u32) mod 256)) = None"
    "(case mapBlockIndex ?s 0 of None \<Rightarrow> [] | Some c \<Rightarrow> c) = []"
    "ComputeNextStakeModifier run_hash (mapBlockIndex ?s) [] \<noteq> None"
    by (simp_all add: s ComputeNextStakeModifier_def)
  obtain p where p: "entry_for run_hash run_env (run_block 0 0x50 1) 1 0 [] p"
    and a: "AddToBlockIndex run_hash run_env 1 0 1 (run_block 0 0x50 1) ?s =
      (if nChainTrust p > nBestChainTrust ?s
       then SetBestChain run_hash run_env (run_block 0 0x50 1) [p]
         (?s\<lparr>mapBlockIndex := (mapBlockIndex ?s)(of_nat (unat (1 :: u32) mod 256) \<mapsto> [p])\<rparr>)
       else (Accepted (), ?s\<lparr>mapBlockIndex := (mapBlockIndex ?s)(of_nat (unat (1 :: u32) mod 256) \<mapsto> [p])\<rparr>))"
    by (rule run_add [OF m])
  have trust: "nChainTrust p > 0" using run_entry(5) [OF p] by (simp add: run_trust_def)
  have r: "AddToBlockIndex run_hash run_env 1 0 1 (run_block 0 0x50 1) ?s = (Accepted (),
    new_best 1 [p] (?s\<lparr>mapBlockIndex := [1 \<mapsto> [p]], db_hashBestChain := 1, pindexGenesisBlock := [p]\<rparr>))"
    unfolding a using trust s by (simp add: SetBestChain_def Let_def)
  then have run1: "run1 = new_best 1 [p] (?s\<lparr>mapBlockIndex := [1 \<mapsto> [p]], db_hashBestChain := 1, pindexGenesisBlock := [p]\<rparr>)"
    by (simp add: run1_def)
  moreover have "run_genesis = p" unfolding run_genesis_def run1 by (simp add: new_best_def)
  ultimately show "AddToBlockIndex run_hash run_env 1 0 1 (run_block 0 0x50 1) ?s = (Accepted (), run1)"
    "entry_for run_hash run_env (run_block 0 0x50 1) 1 0 [] run_genesis"
    "run1 = new_best 1 [run_genesis] (?s\<lparr>mapBlockIndex := [1 \<mapsto> [run_genesis]], db_hashBestChain := 1,
     pindexGenesisBlock := [run_genesis]\<rparr>)" using r p by simp_all
qed

lemmas run_genesis_facts = run_entry [OF run1_facts(2)]

lemma run1_state:
  "mapBlockIndex run1 = [1 \<mapsto> [run_genesis]]" "pindexBest run1 = [run_genesis]" "hashBestChain run1 = 1"
  "pindexGenesisBlock run1 = [run_genesis]" "nBestHeight run1 = 0" "nBestChainTrust run1 = run_trust"
  "txindex run1 = Map.empty" "mapTx (mempool run1) = []" "mapNextTx (mempool run1) = Map.empty"
  using run_genesis_facts
  by (simp_all add: run1_facts(3) new_best_def node_start_def AddTransactionsUpdated_def pool_empty_def)

lemma run1_reach: "node_reach run_hash run_env run1"
  by (rule node_reach.genesis [where env = run_env and b = "run_block 0 0x50 1" and c = cache0 and nFile = 1 and nBlockPos = 0])
    (simp_all add: same_chain_def run1_facts(1) run1_state)

lemma run_modifier: "bi_GetBlockTime q < 600 \<Longrightarrow> bi_GetBlockTime (hd (last_generated (q # qs))) < 600 \<Longrightarrow>
    GeneratedStakeModifier (hd (last_generated (q # qs))) \<Longrightarrow> ComputeNextStakeModifier E m (q # qs) \<noteq> None"
  by (simp add: ComputeNextStakeModifier_def GetLastStakeModifier_def Let_def nModifierInterval_def bi_GetBlockTime_def)

lemma run_trusts: "run_trust < 2 * run_trust" "2 * run_trust < 3 * run_trust" "0 < run_trust"
  by (simp_all add: run_trust_def)

text \<open>The rules for a block on the genesis block.\<close>

lemma run_on_genesis:
  assumes "mapBlockIndex s (of_nat (unat t mod 256)) = None" "mapBlockIndex s 1 = Some [run_genesis]"
    and "pindexBest s = qs @ [run_genesis]" "heights_ok (pindexBest s)" "length qs < 2" "2 \<le> unat t" "unat t \<le> 20"
  obtains p where "entry_for run_hash run_env (run_block 1 0x51 t) 1 pos [run_genesis] p"
    "AcceptBlock run_hash run_env (Some (1, pos)) (run_block 1 0x51 t) s =
      (if nChainTrust p > nBestChainTrust s
       then SetBestChain run_hash run_env (run_block 1 0x51 t) [p, run_genesis]
         (s\<lparr>mapBlockIndex := (mapBlockIndex s)(of_nat (unat t mod 256) \<mapsto> [p, run_genesis])\<rparr>)
       else (Accepted (), s\<lparr>mapBlockIndex := (mapBlockIndex s)(of_nat (unat t mod 256) \<mapsto> [p, run_genesis])\<rparr>))"
proof -
  have g: "nHeight run_genesis = 0" "bi_GetBlockTime run_genesis = 1" "GeneratedStakeModifier run_genesis"
    using run_genesis_facts by (simp_all add: bi_GetBlockTime_def)
  have "CheckSync (pindexBest s) 1 = Some True"
    using assms(3-5) g(1) by (cases qs) (auto simp: CheckSync_def AutoSelectSyncCheckpoint_def nCheckpointSpan_def)
  moreover have "push_int64 run_hash [] 1 = [0x51]" by (simp add: push_int64_def)
  moreover have "GetNextTargetRequired run_hash 1000 1000 [run_genesis] False = Some (GetCompact run_hash 1000)"
    by (simp add: GetNextTargetRequired_def)
  moreover have "1 < int (unat t)" using assms(6) by linarith
  ultimately have acc: "AcceptBlock run_hash run_env (Some (1, pos)) (run_block 1 0x51 t) s =
      AddToBlockIndex run_hash run_env 1 pos 0 (run_block 1 0x51 t) s"
    using assms g by (intro run_accept [of s t 1 run_genesis "[]"]) simp_all
  have m: "ComputeNextStakeModifier run_hash (mapBlockIndex s) [run_genesis] \<noteq> None"
    using g by (intro run_modifier) simp_all
  have prev: "(case mapBlockIndex s 1 of None \<Rightarrow> [] | Some c \<Rightarrow> c) = [run_genesis]" using assms(2) by simp
  obtain p where p: "entry_for run_hash run_env (run_block 1 0x51 t) 1 pos [run_genesis] p"
    and r: "AddToBlockIndex run_hash run_env 1 pos 0 (run_block 1 0x51 t) s =
      (if nChainTrust p > nBestChainTrust s
       then SetBestChain run_hash run_env (run_block 1 0x51 t) [p, run_genesis]
         (s\<lparr>mapBlockIndex := (mapBlockIndex s)(of_nat (unat t mod 256) \<mapsto> [p, run_genesis])\<rparr>)
       else (Accepted (), s\<lparr>mapBlockIndex := (mapBlockIndex s)(of_nat (unat t mod 256) \<mapsto> [p, run_genesis])\<rparr>))"
    by (rule run_add [OF assms(1) prev m])
  show thesis by (rule that [OF p acc [unfolded r]])
qed

text \<open>The first block on the genesis block extends the best chain.\<close>

lemma run2_facts:
  obtains a where "entry_for run_hash run_env (run_block 1 0x51 2) 1 1000 [run_genesis] a"
    "AcceptBlock run_hash run_env (Some (1, 1000)) (run_block 1 0x51 2) run1 = (Accepted (), run2)"
    "mapBlockIndex run2 = [1 \<mapsto> [run_genesis], 2 \<mapsto> [a, run_genesis]]" "pindexBest run2 = [a, run_genesis]"
    "hashBestChain run2 = 2" "nBestHeight run2 = 1" "nBestChainTrust run2 = 2 * run_trust"
    "pindexGenesisBlock run2 = [run_genesis]" "mapTx (mempool run2) = []" "mapNextTx (mempool run2) = Map.empty"
    "index_of run_hash (read_block run_hash run_env) [a, run_genesis] (txindex run2)"
proof -
  let ?b = "run_block 1 0x51 2"
  note g = run1_state
  have pre: "mapBlockIndex run1 (of_nat (unat (2 :: u32) mod 256)) = None" "mapBlockIndex run1 1 = Some [run_genesis]"
    "pindexBest run1 = [] @ [run_genesis]" "heights_ok (pindexBest run1)" "length ([] :: chain) < 2" "2 \<le> unat (2 :: u32)"
    "unat (2 :: u32) \<le> 20" using run_genesis_facts by (simp_all add: g)
  obtain a where a: "entry_for run_hash run_env ?b 1 1000 [run_genesis] a"
    and acc: "AcceptBlock run_hash run_env (Some (1, 1000)) ?b run1 =
      (if nChainTrust a > nBestChainTrust run1
       then SetBestChain run_hash run_env ?b [a, run_genesis]
         (run1\<lparr>mapBlockIndex := (mapBlockIndex run1)(of_nat (unat (2 :: u32) mod 256) \<mapsto> [a, run_genesis])\<rparr>)
       else (Accepted (), run1\<lparr>mapBlockIndex := (mapBlockIndex run1)(of_nat (unat (2 :: u32) mod 256) \<mapsto> [a, run_genesis])\<rparr>))"
    by (rule run_on_genesis [OF pre])
  note e = run_entry [OF a]
  have at: "nChainTrust a = 2 * run_trust" using e(5) run_genesis_facts(5) by simp
  let ?s = "run1\<lparr>mapBlockIndex := [1 \<mapsto> [run_genesis], 2 \<mapsto> [a, run_genesis]]\<rparr>"
  obtain d sup where d: "ConnectBlock run_hash (connect_env_of run_env ?s) (txindex ?s) [a, run_genesis]
      (prev_supply (nMoneySupply ?s) [a, run_genesis]) False ?b (signature_cache ?s) = Accepted (d, 5, sup, signature_cache ?s)"
    using run_connects [where op = "0x51" and t = "2" and s = ?s and txdb = "txindex ?s" and prev = "1"]
    by (fastforce simp: g)
  have inner: "SetBestChain run_hash run_env ?b [a, run_genesis] ?s = (Accepted (), new_best 2 [a, run_genesis]
      (?s\<lparr>txindex := d, db_hashBestChain := 2, nMint := (nMint ?s)(2 := 5), nMoneySupply := (nMoneySupply ?s)(2 := sup),
        signature_cache := signature_cache ?s, pnext := link_blocks [[a, run_genesis]] (pnext ?s),
        mempool := mempool ?s\<rparr>))"
    using d e(1) by (simp add: SetBestChain_def SetBestChainInner_def g Let_def pool_exists_def)
  have "AcceptBlock run_hash run_env (Some (1, 1000)) ?b run1 = SetBestChain run_hash run_env ?b [a, run_genesis] ?s"
    unfolding acc using at run_trusts(1) by (simp add: g)
  with inner have r: "AcceptBlock run_hash run_env (Some (1, 1000)) ?b run1 = (Accepted (), run2)"
    and r2: "run2 = new_best 2 [a, run_genesis]
      (?s\<lparr>txindex := d, db_hashBestChain := 2, nMint := (nMint ?s)(2 := 5), nMoneySupply := (nMoneySupply ?s)(2 := sup),
        signature_cache := signature_cache ?s, pnext := link_blocks [[a, run_genesis]] (pnext ?s),
        mempool := mempool ?s\<rparr>)" by (simp_all add: run2_def)
  have rd: "read_block run_hash run_env [a, run_genesis] = Some ?b"
    using e(1-3) by (intro run_read) (simp_all add: run_disk_def)
  have "index_of run_hash (read_block run_hash run_env) [run_genesis] (txindex ?s)"
    using index_of.first by (simp add: g)
  from index_of.connect [OF this rd _ _ d]
  have "index_of run_hash (read_block run_hash run_env) [a, run_genesis] d" by (simp add: e g)
  then show thesis
    using that [OF a r] e run_genesis_facts at by (simp add: r2 new_best_def g AddTransactionsUpdated_def pool_empty_def)
qed

text \<open>A second block on the genesis block is kept in the index and changes nothing else.\<close>

lemma run3_facts:
  obtains a b where "entry_for run_hash run_env (run_block 1 0x51 2) 1 1000 [run_genesis] a"
    "entry_for run_hash run_env (run_block 1 0x51 3) 1 2000 [run_genesis] b"
    "AcceptBlock run_hash run_env (Some (1, 2000)) (run_block 1 0x51 3) run2 = (Accepted (), run3)"
    "mapBlockIndex run3 = [1 \<mapsto> [run_genesis], 2 \<mapsto> [a, run_genesis], 3 \<mapsto> [b, run_genesis]]"
    "pindexBest run3 = [a, run_genesis]" "hashBestChain run3 = 2" "nBestHeight run3 = 1"
    "nBestChainTrust run3 = 2 * run_trust" "pindexGenesisBlock run3 = [run_genesis]"
    "mapTx (mempool run3) = []" "mapNextTx (mempool run3) = Map.empty"
    "index_of run_hash (read_block run_hash run_env) [a, run_genesis] (txindex run3)"
proof -
  let ?b = "run_block 1 0x51 3"
  obtain a where a: "entry_for run_hash run_env (run_block 1 0x51 2) 1 1000 [run_genesis] a"
    and m: "mapBlockIndex run2 = [1 \<mapsto> [run_genesis], 2 \<mapsto> [a, run_genesis]]" and best: "pindexBest run2 = [a, run_genesis]"
    and g: "hashBestChain run2 = 2" "nBestHeight run2 = 1" "nBestChainTrust run2 = 2 * run_trust"
      "pindexGenesisBlock run2 = [run_genesis]" "mapTx (mempool run2) = []" "mapNextTx (mempool run2) = Map.empty"
      "index_of run_hash (read_block run_hash run_env) [a, run_genesis] (txindex run2)"
    by (rule run2_facts)
  have pre: "mapBlockIndex run2 (of_nat (unat (3 :: u32) mod 256)) = None" "mapBlockIndex run2 1 = Some [run_genesis]"
    "pindexBest run2 = [a] @ [run_genesis]" "heights_ok (pindexBest run2)" "length [a] < 2" "2 \<le> unat (3 :: u32)"
    "unat (3 :: u32) \<le> 20" using run_genesis_facts run_entry [OF a] by (simp_all add: m best)
  obtain b where b: "entry_for run_hash run_env ?b 1 2000 [run_genesis] b"
    and acc: "AcceptBlock run_hash run_env (Some (1, 2000)) ?b run2 =
      (if nChainTrust b > nBestChainTrust run2
       then SetBestChain run_hash run_env ?b [b, run_genesis]
         (run2\<lparr>mapBlockIndex := (mapBlockIndex run2)(of_nat (unat (3 :: u32) mod 256) \<mapsto> [b, run_genesis])\<rparr>)
       else (Accepted (), run2\<lparr>mapBlockIndex := (mapBlockIndex run2)(of_nat (unat (3 :: u32) mod 256) \<mapsto> [b, run_genesis])\<rparr>))"
    by (rule run_on_genesis [OF pre])
  have "nChainTrust b = 2 * run_trust" using run_entry(5) [OF b] run_genesis_facts(5) by simp
  then have r: "AcceptBlock run_hash run_env (Some (1, 2000)) ?b run2 =
      (Accepted (), run2\<lparr>mapBlockIndex := (mapBlockIndex run2)(3 \<mapsto> [b, run_genesis])\<rparr>)"
    unfolding acc by (simp add: g)
  then have r3: "run3 = run2\<lparr>mapBlockIndex := (mapBlockIndex run2)(3 \<mapsto> [b, run_genesis])\<rparr>" by (simp add: run3_def)
  show thesis
    by (rule that [OF a b r [folded r3]]) (simp_all add: r3 m best g)
qed

lemma run_same: "same_chain run_env run_env"
  by (simp add: same_chain_def)

lemma run3_reach: "node_reach run_hash run_env run3"
proof -
  have 2: "AcceptBlock run_hash run_env (Some (1, 1000)) (run_block 1 0x51 2) run1 = (Accepted (), run2)"
    by (rule run2_facts)
  have 3: "AcceptBlock run_hash run_env (Some (1, 2000)) (run_block 1 0x51 3) run2 = (Accepted (), run3)"
    by (rule run3_facts)
  show ?thesis by (rule node_reach.accept [OF node_reach.accept [OF run1_reach run_same 2] run_same 3])
qed

text \<open>The block on it makes its branch the best chain.\<close>

lemma run_reorganize:
  assumes "entry_for run_hash run_env (run_block 1 0x51 2) 1 1000 [run_genesis] a"
    and "entry_for run_hash run_env (run_block 1 0x51 3) 1 2000 [run_genesis] b"
    and "entry_for run_hash run_env (run_block 3 0x52 4) 1 3000 [b, run_genesis] c"
    and "index_of run_hash (read_block run_hash run_env) [a, run_genesis] (txindex s)"
    and "pindexBest s = [a, run_genesis]" "nBestHeight s = 1" "mapTx (mempool s) = []" "mapNextTx (mempool s) = Map.empty"
  shows "\<exists>s'. Reorganize run_hash run_env s [c, b, run_genesis] = (Accepted (), s')"
proof -
  note e = run_entry [OF assms(1)] run_entry [OF assms(2)] run_entry [OF assms(3)]
  let ?rd = "read_block run_hash run_env"
  have ne: "a \<noteq> b" using e(1,9) by auto
  have f: "find_fork (pindexBest s) [c, b, run_genesis] = Some [run_genesis]"
    using e run_genesis_facts ne by (simp add: assms(5) Let_def)
  have v: "blocks_above [run_genesis] (pindexBest s) = [[a, run_genesis]]"
    "rev (blocks_above [run_genesis] [c, b, run_genesis]) = [[b, run_genesis], [c, b, run_genesis]]"
    by (simp_all add: assms(5))
  have rd: "?rd [b, run_genesis] = Some (run_block 1 0x51 3)" "?rd [c, b, run_genesis] = Some (run_block 3 0x52 4)"
    "?rd [a, run_genesis] = Some (run_block 1 0x51 2)"
    using e by (auto intro!: run_read simp: run_disk_def)
  have i: "index_of run_hash ?rd (pindexBest s) (txindex s)" using assms(4,5) by simp
  have suf: "suffix [run_genesis] (pindexBest s)" by (simp add: assms(5) suffix_Cons)
  obtain d txs where d: "disconnect_blocks run_hash run_env (blocks_above [run_genesis] (pindexBest s)) (txindex s, []) = Some (d, txs)"
    "index_of run_hash ?rd [run_genesis] d"
    by (rule disconnect_blocks_index [OF suf _ i]) simp_all
  have "txs = []" using d(1) v(1) rd(3) by (auto simp: run_coinbase_kind split: option.splits)
  have "dom d = {}" using index_of_dom [OF d(2)] by simp
  then have d0: "d = Map.empty" by simp
  let ?cenv = "connect_env_of run_env s"
  let ?w = "\<lparr>w_txdb = d, w_nMint = nMint s, w_nMoneySupply = nMoneySupply s, w_cache = signature_cache s, vDelete = []\<rparr>"
  obtain d1 sup1 where d1: "ConnectBlock run_hash ?cenv d [b, run_genesis] (prev_supply (nMoneySupply s) [b, run_genesis])
      False (run_block 1 0x51 3) (signature_cache s) = Accepted (d1, 5, sup1, signature_cache s)"
    using run_connects [where op = "0x51" and t = "3" and s = s and txdb = d and prev = "1"] assms(6) by (fastforce simp: d0)
  have "dom d1 = {3}"
    using ConnectBlock_index(2) [OF d1] e by (simp add: d0 entries_ok_def)
  then have "4 \<notin> dom d1" by simp
  then have "d1 (of_nat (unat (4 :: u32) mod 256)) = None" by (simp add: domIff)
  then obtain d2 sup2 where d2: "ConnectBlock run_hash ?cenv d1 [c, b, run_genesis]
      (prev_supply ((nMoneySupply s)(bi_hash b := sup1)) [c, b, run_genesis]) False (run_block 3 0x52 4) (signature_cache s) =
      Accepted (d2, 5, sup2, signature_cache s)"
    using run_connects [where op = "0x52" and t = "4" and s = s and txdb = d1 and prev = "3"] assms(6) by fastforce
  obtain w where w: "connect_blocks run_hash run_env ?cenv [[b, run_genesis], [c, b, run_genesis]] ?w = (Accepted (), w)"
    using rd d1 d2 by simp
  have "pool_remove 1 run_hash False tx (mempool s) = Some (mempool s)" for tx
    using assms(7) by (simp add: Let_def pool_exists_def)
  moreover have "removeConflicts n run_hash tx (mempool s) = Some (mempool s)" for n tx
  proof -
    have "conflicts_loop n run_hash tx xs (mempool s) = Some (mempool s)" for xs
      using assms(8) by (induction xs) simp_all
    then show ?thesis by (simp add: removeConflicts_def)
  qed
  ultimately have "delete_connected run_hash txs' (mempool s) = Some (mempool s)" for txs'
    by (induction txs') simp_all
  then show ?thesis
    using f d(1) w \<open>txs = []\<close> by (simp add: Reorganize_def v Let_def)
qed

lemma run4_facts:
  obtains b c where "AcceptBlock run_hash run_env (Some (1, 3000)) (run_block 3 0x52 4) run3 = (Accepted (), run4)"
    "pindexBest run4 = [c, b, run_genesis]" "nBestChainTrust run4 = 3 * run_trust" "hashBestChain run4 = 4"
    "entry_for run_hash run_env (run_block 1 0x51 3) 1 2000 [run_genesis] b"
    "entry_for run_hash run_env (run_block 3 0x52 4) 1 3000 [b, run_genesis] c"
proof -
  let ?b = "run_block 3 0x52 4"
  obtain a b where a: "entry_for run_hash run_env (run_block 1 0x51 2) 1 1000 [run_genesis] a"
    and b: "entry_for run_hash run_env (run_block 1 0x51 3) 1 2000 [run_genesis] b"
    and m: "mapBlockIndex run3 = [1 \<mapsto> [run_genesis], 2 \<mapsto> [a, run_genesis], 3 \<mapsto> [b, run_genesis]]"
    and g: "pindexBest run3 = [a, run_genesis]" "hashBestChain run3 = 2" "nBestHeight run3 = 1"
    "nBestChainTrust run3 = 2 * run_trust" "pindexGenesisBlock run3 = [run_genesis]"
    "mapTx (mempool run3) = []" "mapNextTx (mempool run3) = Map.empty"
    "index_of run_hash (read_block run_hash run_env) [a, run_genesis] (txindex run3)"
    by (rule run3_facts)
  note e = run_entry [OF b] run_entry [OF a] run_genesis_facts
  have t: "bi_GetBlockTime b = 3" "bi_GetBlockTime run_genesis = 1" using e by (simp_all add: bi_GetBlockTime_def)
  have h: "nHeight b = 1" "nHeight run_genesis = 0" "nHeight a = 1" using e by simp_all
  have none: "mapBlockIndex run3 (of_nat (unat (4 :: u32) mod 256)) = None" by (simp add: m)
  have mb: "mapBlockIndex run3 3 = Some [b, run_genesis]" by (simp add: m)
  have "CheckSync (pindexBest run3) 2 = Some True"
    by (simp add: g h CheckSync_def AutoSelectSyncCheckpoint_def nCheckpointSpan_def)
  moreover have "push_int64 run_hash [] 2 = [0x52]" by (simp add: push_int64_def)
  moreover have "GetNextTargetRequired run_hash 1000 1000 [b, run_genesis] False = Some (GetCompact run_hash 1000)"
    using e by (simp add: GetNextTargetRequired_def Let_def)
  ultimately have acc: "AcceptBlock run_hash run_env (Some (1, 3000)) ?b run3 = AddToBlockIndex run_hash run_env 1 3000 0 ?b run3"
    using none mb t h by (intro run_accept [of run3 4 3 b "[run_genesis]"]) simp_all
  have gen: "bi_GetBlockTime (hd (last_generated [b, run_genesis])) < 600" "GeneratedStakeModifier (hd (last_generated [b, run_genesis]))"
    using t e by simp_all
  have mod: "ComputeNextStakeModifier run_hash (mapBlockIndex run3) [b, run_genesis] \<noteq> None"
    using t by (intro run_modifier gen) simp
  have prev: "(case mapBlockIndex run3 3 of None \<Rightarrow> [] | Some c \<Rightarrow> c) = [b, run_genesis]" using mb by simp
  obtain c where c: "entry_for run_hash run_env ?b 1 3000 [b, run_genesis] c"
    and r: "AddToBlockIndex run_hash run_env 1 3000 0 ?b run3 =
      (if nChainTrust c > nBestChainTrust run3
       then SetBestChain run_hash run_env ?b [c, b, run_genesis]
         (run3\<lparr>mapBlockIndex := (mapBlockIndex run3)(of_nat (unat (4 :: u32) mod 256) \<mapsto> [c, b, run_genesis])\<rparr>)
       else (Accepted (), run3\<lparr>mapBlockIndex := (mapBlockIndex run3)(of_nat (unat (4 :: u32) mod 256) \<mapsto> [c, b, run_genesis])\<rparr>))"
    by (rule run_add [OF none prev mod])
  have tr: "nChainTrust a = 2 * run_trust" "nChainTrust b = 2 * run_trust" "nChainTrust c = 3 * run_trust"
    using e run_entry(5) [OF c] by simp_all
  let ?s = "run3\<lparr>mapBlockIndex := (mapBlockIndex run3)(4 \<mapsto> [c, b, run_genesis])\<rparr>"
  obtain s' where s': "Reorganize run_hash run_env ?s [c, b, run_genesis] = (Accepted (), s')"
    using run_reorganize [OF a b c, of ?s] g by auto
  have "postponed (nChainTrust (hd (pindexBest ?s))) [c, b, run_genesis] = ([], [c, b, run_genesis])"
    by (simp add: g tr)
  then have "SetBestChain run_hash run_env ?b [c, b, run_genesis] ?s = (Accepted (), new_best 4 [c, b, run_genesis] s')"
    using s' by (simp add: SetBestChain_def g Let_def)
  moreover have "AddToBlockIndex run_hash run_env 1 3000 0 ?b run3 = SetBestChain run_hash run_env ?b [c, b, run_genesis] ?s"
    unfolding r using run_trusts(2) by (simp add: g tr)
  ultimately have "AcceptBlock run_hash run_env (Some (1, 3000)) ?b run3 = (Accepted (), new_best 4 [c, b, run_genesis] s')"
    using acc by simp
  then show thesis using that [OF _ _ _ _ b c] tr by (simp add: run4_def new_best_def)
qed

end
