(* ===== verification/BlockSpec.thy ===== *)
theory BlockSpec
  imports NodeRun
begin

text \<open>
  The properties of block acceptance: the index of blocks and the best chain (\<open>BestChain\<close>), the
  proof-of-stake kernel (\<open>StakeKernel\<close>) and the orphan blocks (\<open>OrphanBlocks\<close>). The witnesses are steps of
  the run of \<open>NodeRun\<close>, in which a branch of two blocks replaces a block.
\<close>

section \<open>The index and the best chain\<close>

text \<open>C2: The index of blocks is a tree of valid headers, and the best chain is in it. In every state reached
  from the genesis block by \<open>AcceptBlock\<close>, whatever the blocks, the circumstances and the verdicts: an entry
  stands under its hash with its whole ancestry in the index, down to the one genesis block; heights count up
  by one, the trust is the sum of the trusts of the blocks, and every entry obeys the rules of version, proof
  of work, target, time and checkpoint; hash, height and trust of the best chain are those of its entry.\<close>

theorem block_index_consistent:
  assumes "node_reach E env s" "mapBlockIndex s h = Some c"
  shows "chain_ok E env c \<and> bi_hash (hd c) = h \<and> indexed (mapBlockIndex s) c \<and> pindexGenesisBlock s = [last c] \<and>
    mapBlockIndex s (hashBestChain s) = Some (pindexBest s) \<and> nBestHeight s = nHeight (hd (pindexBest s)) \<and>
    nBestChainTrust s = nChainTrust (hd (pindexBest s))"
  using node_reach_ok [OF assms(1)] assms(2) by (auto simp: node_ok_def block_index_ok_def)

lemma block_index_consistent_witness:
  "\<exists>c. mapBlockIndex run3 3 = Some c \<and> chain_ok run_hash run_env c \<and> pindexGenesisBlock run3 = [last c] \<and>
     nBestHeight run3 = 1"
proof -
  obtain a b where m: "mapBlockIndex run3 = [1 \<mapsto> [run_genesis], 2 \<mapsto> [a, run_genesis], 3 \<mapsto> [b, run_genesis]]"
    and best: "pindexBest run3 = [a, run_genesis]" "nBestHeight run3 = 1" by (rule run3_facts)
  have "mapBlockIndex run3 3 = Some [b, run_genesis]" by (simp add: m)
  with block_index_consistent [OF run3_reach this] best show ?thesis by auto
qed

text \<open>C3: The best chain gives way only to more trust. \<open>AcceptBlock\<close> never removes or changes an entry of the
  index, and after it the best chain is the one before or one with strictly more trust.\<close>

theorem best_chain_gains_trust:
  assumes "node_reach E env0 s" "same_chain env env0" "AcceptBlock E env stored b s = (v, s')"
  shows "mapBlockIndex s \<subseteq>\<^sub>m mapBlockIndex s' \<and>
    (pindexBest s' = pindexBest s \<and> hashBestChain s' = hashBestChain s \<and> nBestHeight s' = nBestHeight s \<and>
       nBestChainTrust s' = nBestChainTrust s \<or>
     nBestChainTrust s < nBestChainTrust s' \<and> nBestChainTrust s' = nChainTrust (hd (pindexBest s')))"
  using AcceptBlock_node_ok [OF assms(3) node_reach_ok [OF assms(1)] assms(2)]
  by (auto simp: best_view_def node_ok_def)

lemma best_chain_gains_trust_witness:
  "mapBlockIndex run3 \<subseteq>\<^sub>m mapBlockIndex run4 \<and> nBestChainTrust run3 < nBestChainTrust run4 \<and>
     hashBestChain run3 = 2 \<and> hashBestChain run4 = 4"
proof -
  have a: "AcceptBlock run_hash run_env (Some (1, 3000)) (run_block 3 0x52 4) run3 = (Accepted (), run4)" by (rule run4_facts)
  have h: "hashBestChain run4 = 4" by (rule run4_facts)
  have g: "hashBestChain run3 = 2" by (rule run3_facts)
  then have "hashBestChain run4 \<noteq> hashBestChain run3" using h by simp
  with best_chain_gains_trust [OF run3_reach run_same a] g h show ?thesis by metis
qed

text \<open>C8: \<open>Reorganize\<close> finds the fork. From the best chain and any other chain of the index the loop of
  \<open>Reorganize\<close> ends at a common ancestor, neither pointer running off the end, and it is the last common one:
  no block that both chains have is disconnected.\<close>

theorem fork_found:
  assumes "node_reach E env s" "mapBlockIndex s h = Some c"
  shows "\<exists>fork. find_fork (pindexBest s) c = Some fork \<and> fork \<noteq> [] \<and>
    map hd (blocks_above fork (pindexBest s)) @ fork = pindexBest s \<and> map hd (blocks_above fork c) @ fork = c \<and>
    (\<forall>d. suffix d (pindexBest s) \<longrightarrow> suffix d c \<longrightarrow> suffix d fork)"
proof -
  let ?best = "pindexBest s"
  obtain g where g: "block_index_ok E env g (mapBlockIndex s)" "mapBlockIndex s (hashBestChain s) = Some ?best"
    using node_reach_ok [OF assms(1)] by (auto simp: node_ok_def)
  have ok: "chain_ok E env ?best" "chain_ok E env c" "last ?best = g" "last c = g"
    using g assms(2) by (auto simp: block_index_ok_def)
  obtain f where f: "find_fork ?best c = Some f" "\<forall>d. suffix d ?best \<longrightarrow> suffix d c \<longrightarrow> suffix d f"
    using find_fork_longest [OF chain_ok_heights [OF ok(1)] chain_ok_heights [OF ok(2)]]
      chain_ok_nonempty [OF ok(1)] chain_ok_nonempty [OF ok(2)] ok(3,4) by auto
  with find_fork_suffix [OF f(1)] show ?thesis by (simp add: blocks_above_concat)
qed

lemma fork_found_witness:
  "\<exists>c fork. mapBlockIndex run3 3 = Some c \<and> find_fork (pindexBest run3) c = Some fork \<and> suffix [run_genesis] fork"
proof -
  obtain a b where m: "mapBlockIndex run3 = [1 \<mapsto> [run_genesis], 2 \<mapsto> [a, run_genesis], 3 \<mapsto> [b, run_genesis]]"
    and best: "pindexBest run3 = [a, run_genesis]" by (rule run3_facts)
  have c: "mapBlockIndex run3 3 = Some [b, run_genesis]" by (simp add: m)
  from fork_found [OF run3_reach c] obtain fork where f: "find_fork (pindexBest run3) [b, run_genesis] = Some fork"
    "\<forall>d. suffix d (pindexBest run3) \<longrightarrow> suffix d [b, run_genesis] \<longrightarrow> suffix d fork" by blast
  have "suffix [run_genesis] (pindexBest run3)" "suffix [run_genesis] [b, run_genesis]"
    by (simp_all add: best suffix_Cons)
  with f c show ?thesis by blast
qed

text \<open>C5: A block that is refused leaves the node as it was. When \<open>AcceptBlock\<close> answers \<open>false\<close>, even after a
  reorganisation that failed half way, the best chain, the transaction index with the best hash stored beside it,
  the links forward and the memory pool are unchanged; at most the block has got its entry.\<close>

theorem refused_block_changes_nothing:
  assumes "AcceptBlock E env stored b s = (Rejected d, s')"
  shows "pindexBest s' = pindexBest s \<and> hashBestChain s' = hashBestChain s \<and> nBestHeight s' = nBestHeight s \<and>
    nBestChainTrust s' = nBestChainTrust s \<and> pindexGenesisBlock s' = pindexGenesisBlock s \<and>
    txindex s' = txindex s \<and> db_hashBestChain s' = db_hashBestChain s \<and> pnext s' = pnext s \<and> mempool s' = mempool s \<and>
    (\<forall>h. h \<noteq> b_GetHash E (scrypt_hash (base_env env)) b \<longrightarrow> mapBlockIndex s' h = mapBlockIndex s h)"
  using assms
proof (cases rule: AcceptBlock_cases)
  case (refused c)
  then show ?thesis by simp
next
  case (added pprev hp nFile nBlockPos c)
  from added(4) show ?thesis
  proof (cases rule: AddToBlockIndex_cases)
    case refused
    then show ?thesis by simp
  next
    case p: (added p t)
    then have "SetBestChain E env b (p # (case mapBlockIndex (s\<lparr>signature_cache := c\<rparr>) (hashPrevBlock b) of
        None \<Rightarrow> [] | Some c \<Rightarrow> c)) t = (Rejected d, s')" by (auto split: if_splits)
    then show ?thesis
      by (cases rule: SetBestChain_cases) (use p(5) in \<open>auto simp: view_defs\<close>)
  qed
qed

lemma refused_block_changes_nothing_witness:
  "\<exists>s'. AcceptBlock run_hash run_env None (run_block 9 0x51 5) run3 = (Rejected 10, s') \<and> pindexBest s' = pindexBest run3 \<and>
     txindex s' = txindex run3 \<and> mempool s' = mempool run3"
proof -
  obtain a b where m: "mapBlockIndex run3 = [1 \<mapsto> [run_genesis], 2 \<mapsto> [a, run_genesis], 3 \<mapsto> [b, run_genesis]]"
    by (rule run3_facts)
  have "AcceptBlock run_hash run_env None (run_block 9 0x51 5) run3 = (Rejected 10, run3)"
    by (simp add: AcceptBlock_def m Let_def)
  with refused_block_changes_nothing [OF this] show ?thesis by blast
qed

text \<open>C6: The transaction index follows the best chain. When a block of more trust than the best chain is accepted,
  by extending the best chain or by a reorganisation, or is refused, the transaction index is afterwards what
  connecting the blocks of the best chain one after the other gives, if it was before. (The parent has no more
  trust than the best chain, the blocks are on disk where the index says, and no transaction is in the chain twice.)\<close>

theorem transaction_index_follows:
  assumes "AcceptBlock E env (Some (nFile, nBlockPos)) b s = (v, s')" "v \<noteq> Raised" "node_reach E env0 s" "same_chain env env0"
    and "index_of E (read_block E env) (pindexBest s) (txindex s)" "mapBlockIndex s (hashPrevBlock b) = Some pprev"
    and "nChainTrust (hd pprev) \<le> nBestChainTrust s" "fresh E (read_block E env) pprev"
    and "disk_block env nFile nBlockPos = Some b" "nFile \<noteq> - 1"
    and "b_IsProofOfStake b \<or> CheckProofOfWork E (proof_of_work_limit (base_env env))
      (GetPoWHash (scrypt_hash (base_env env)) b) (b_nBits b)"
    and "distinct (map (tx_GetHash E) (vtx b) @ chain_hashes E (read_block E env) pprev)"
  shows "index_of E (read_block E env) (pindexBest s') (txindex s') \<and>
    dom (txindex s') = set (chain_hashes E (read_block E env) (pindexBest s'))"
  using AcceptBlock_index [OF assms(1,2) node_reach_ok [OF assms(3)] assms(4-)] index_of_dom by blast

lemma transaction_index_follows_witness:
  "index_of run_hash (read_block run_hash run_env) (pindexBest run4) (txindex run4) \<and> dom (txindex run4) = {4, 3}"
proof -
  obtain a b where b: "entry_for run_hash run_env (run_block 1 0x51 3) 1 2000 [run_genesis] b"
    and m: "mapBlockIndex run3 = [1 \<mapsto> [run_genesis], 2 \<mapsto> [a, run_genesis], 3 \<mapsto> [b, run_genesis]]"
    and g: "pindexBest run3 = [a, run_genesis]" "nBestChainTrust run3 = 2 * run_trust"
    "index_of run_hash (read_block run_hash run_env) [a, run_genesis] (txindex run3)"
    by (rule run3_facts)
  obtain b' c where r: "AcceptBlock run_hash run_env (Some (1, 3000)) (run_block 3 0x52 4) run3 = (Accepted (), run4)"
    "pindexBest run4 = [c, b', run_genesis]"
    "entry_for run_hash run_env (run_block 1 0x51 3) 1 2000 [run_genesis] b'"
    "entry_for run_hash run_env (run_block 3 0x52 4) 1 3000 [b', run_genesis] c"
    by (rule run4_facts)
  note e = run_entry [OF b] run_entry [OF r(3)] run_entry [OF r(4)] run_genesis_facts
  have rd: "read_block run_hash run_env [b, run_genesis] = Some (run_block 1 0x51 3)"
    "read_block run_hash run_env [b', run_genesis] = Some (run_block 1 0x51 3)"
    "read_block run_hash run_env [c, b', run_genesis] = Some (run_block 3 0x52 4)"
    using e by (auto intro!: run_read simp: run_disk_def)
  have "mapBlockIndex run3 (hashPrevBlock (run_block 3 0x52 4)) = Some [b, run_genesis]" by (simp add: m)
  moreover have "fresh run_hash (read_block run_hash run_env) [b, run_genesis]" using rd e by (simp add: fresh_def)
  moreover have "disk_block run_env 1 3000 = Some (run_block 3 0x52 4)" by (simp add: run_disk_def)
  moreover have "nChainTrust (hd [b, run_genesis]) \<le> nBestChainTrust run3" using e by (simp add: g)
  moreover have "CheckProofOfWork run_hash (proof_of_work_limit (base_env run_env))
      (GetPoWHash (scrypt_hash (base_env run_env)) (run_block 3 0x52 4)) (b_nBits (run_block 3 0x52 4))"
    using run_pow by (simp add: GetPoWHash_def)
  ultimately show ?thesis
    using transaction_index_follows [OF r(1) _ run3_reach run_same _ _ , of "[b, run_genesis]"] g rd r(2) by simp
qed

text \<open>C23: A best chain may be recorded that is not connected. When a block on a stored branch of more trust becomes
  the best, \<open>SetBestChain\<close> reorganises only up to the first block of more trust and connects the others after that;
  if the first of them cannot be connected, the call still succeeds and makes the new block the best chain,
  although the transaction index and the best hash on disk stay those of the shorter chain.\<close>

theorem unconnected_best_chain:
  assumes "pindexGenesisBlock s \<noteq> []" "pindexBest s \<noteq> []" "hashPrevBlock b \<noteq> hashBestChain s"
    and "postponed (nChainTrust (hd (pindexBest s))) c = (vs, i)" "Reorganize E env s i = (Accepted (), t)"
    and "vs \<noteq> []" "read_block E env (last vs) = None"
  shows "\<exists>s'. SetBestChain E env b c s = (Accepted (), s') \<and> pindexBest s' = c \<and>
    hashBestChain s' = b_GetHash E (scrypt_hash (base_env env)) b \<and>
    txindex s' = txindex t \<and> db_hashBestChain s' = bi_hash (hd i) \<and> length i < length c"
proof -
  have c: "c \<noteq> []" using assms(4,6) by auto
  then have p: "suffix i c" "i \<noteq> []" "vs = blocks_above i c" using postponed_props [OF _ assms(4)] by auto
  then have "map hd vs @ i = c" by (simp add: blocks_above_concat)
  then have len: "length i < length c" using assms(6) by (auto dest: arg_cong [of _ _ length])
  obtain us where "vs = us @ [last vs]" using assms(6) append_butlast_last_id by metis
  then have rv: "rev vs = last vs # rev us" by (metis rev_append rev_singleton_conv append_Cons append_Nil)
  have "connect_rest E env (rev vs) t = (Accepted (), t)" unfolding rv using assms(7) by simp
  then have "SetBestChain E env b c s = (Accepted (), new_best (b_GetHash E (scrypt_hash (base_env env)) b) c t)"
    using assms(1-5) by (simp add: SetBestChain_def Let_def)
  moreover have "db_hashBestChain t = bi_hash (hd i)" by (rule Reorganize_Accepted [OF assms(5)])
  ultimately show ?thesis using len by (simp add: new_best_def)
qed

lemma unconnected_best_chain_witness:
  "\<exists>c s'. SetBestChain run_hash run_env (run_block 4 0x51 5) c run3 = (Accepted (), s') \<and> pindexBest s' = c \<and>
     hashBestChain s' = 5 \<and> db_hashBestChain s' = 4 \<and> length c = 4"
proof -
  obtain a b where a: "entry_for run_hash run_env (run_block 1 0x51 2) 1 1000 [run_genesis] a"
    and b: "entry_for run_hash run_env (run_block 1 0x51 3) 1 2000 [run_genesis] b"
    and g: "pindexBest run3 = [a, run_genesis]" "hashBestChain run3 = 2" "nBestHeight run3 = 1"
    "pindexGenesisBlock run3 = [run_genesis]" "mapTx (mempool run3) = []" "mapNextTx (mempool run3) = Map.empty"
    "index_of run_hash (read_block run_hash run_env) [a, run_genesis] (txindex run3)"
    by (rule run3_facts)
  obtain b' c' where c': "entry_for run_hash run_env (run_block 3 0x52 4) 1 3000 [b', run_genesis] c'"
    "entry_for run_hash run_env (run_block 1 0x51 3) 1 2000 [run_genesis] b'" by (rule run4_facts)
  have "nHeight b' = nHeight b" "nChainTrust b' = nChainTrust b" using run_entry(4,5) [OF b] run_entry(4,5) [OF c'(2)] by simp_all
  then have c: "entry_for run_hash run_env (run_block 3 0x52 4) 1 3000 [b, run_genesis] c'"
    using c'(1) by (simp add: entry_for_def)
  note e = run_entry [OF a] run_entry [OF b] run_entry [OF c] run_genesis_facts
  let ?top = "c'\<lparr>bi_hash := 5, bi_nBlockPos := 9\<rparr>"
  obtain t where t: "Reorganize run_hash run_env run3 [c', b, run_genesis] = (Accepted (), t)"
    using run_reorganize [OF a b c g(7,1,3,5,6)] by blast
  have tr: "nChainTrust a = 2 * run_trust" "nChainTrust b = 2 * run_trust" "nChainTrust c' = 3 * run_trust"
    using e by simp_all
  have p: "postponed (nChainTrust (hd (pindexBest run3))) [?top, c', b, run_genesis] =
      ([[?top, c', b, run_genesis]], [c', b, run_genesis])"
    using run_trusts(2) by (simp add: g tr)
  have rd: "read_block run_hash run_env (last [[?top, c', b, run_genesis]]) = None"
    using e by (simp add: read_block_def run_disk_def)
  have "\<exists>s'. SetBestChain run_hash run_env (run_block 4 0x51 5) [?top, c', b, run_genesis] run3 = (Accepted (), s') \<and>
      pindexBest s' = [?top, c', b, run_genesis] \<and> hashBestChain s' = 5 \<and> db_hashBestChain s' = 4"
    using unconnected_best_chain [OF _ _ _ p t _ rd, of "run_block 4 0x51 5"] e by (simp add: g) blast
  then show ?thesis by (intro exI [of _ "[?top, c', b, run_genesis]"]) auto
qed

section \<open>Proof of stake\<close>

text \<open>C19: The next stake modifier is always computed. For every chain of the index \<open>ComputeNextStakeModifier\<close>
  succeeds: it keeps the modifier of the last block that generated one, or makes a new one of at most 64
  bits, each the entropy bit of a different block of the chain.\<close>

theorem stake_modifier_computed:
  assumes "node_reach E env s" "mapBlockIndex s h = Some c"
  shows "ComputeNextStakeModifier E (mapBlockIndex s) c = Some (nStakeModifier (hd (last_generated c)), False) \<or>
    (\<exists>new bs. ComputeNextStakeModifier E (mapBlockIndex s) c = Some (new, True) \<and> set bs \<subseteq> set c \<and>
       distinct (map bi_hash bs) \<and> length bs \<le> 64 \<and>
       (\<forall>i. bit new i \<longleftrightarrow> i < length bs \<and> GetStakeEntropyBit (bs ! i) = 1))"
proof -
  have c: "chain_ok E env c" "indexed (mapBlockIndex s) c"
    using node_reach_ok [OF assms(1)] assms(2) by (auto simp: node_ok_def block_index_ok_def)
  show ?thesis
    by (rule ComputeNextStakeModifier_total [OF c(2) chain_ok_nonempty [OF c(1)] chain_ok_generated [OF c(1)]]) blast+
qed

lemma stake_modifier_computed_witness:
  "\<exists>c. mapBlockIndex run3 3 = Some c \<and> ComputeNextStakeModifier run_hash (mapBlockIndex run3) c \<noteq> None"
proof -
  obtain a b where m: "mapBlockIndex run3 = [1 \<mapsto> [run_genesis], 2 \<mapsto> [a, run_genesis], 3 \<mapsto> [b, run_genesis]]"
    by (rule run3_facts)
  have "mapBlockIndex run3 3 = Some [b, run_genesis]" by (simp add: m)
  with stake_modifier_computed [OF run3_reach this] show ?thesis by auto
qed

text \<open>The search for the position goes back as many blocks as the depth says.\<close>

lemma confirmed_loop_None:
  assumes "confirmed_loop ti h d c = None" "heights_ok c" "c = [] \<or> h = nHeight (hd c) + int k"
  shows "list_all (\<lambda>p. \<not> (bi_nBlockPos p = tp_nBlockPos (ti_pos ti) \<and> bi_nFile p = tp_nFile (ti_pos ti)))
    (take (nat (d - int k)) c)"
  using assms
proof (induction c arbitrary: k)
  case (Cons p ps)
  show ?case
  proof (cases "int k < d")
    case True
    then have "nat (d - int k) = Suc (nat (d - int (Suc k)))" by linarith
    moreover have "ps = [] \<or> h = nHeight (hd ps) + int (Suc k)" using Cons.prems(2,3) by (cases ps) auto
    ultimately show ?thesis using Cons.IH [of "Suc k"] Cons.prems True by (auto split: if_splits)
  qed simp
qed simp

text \<open>C9: What a checked proof of stake proves. When \<open>CheckProofOfStake\<close> accepts a coinstake, its first input
  spends an existing output of an indexed transaction and its signature verified; that transaction is not in
  any of the last \<open>nStakeMinConfirmations\<close> - 1 blocks, is not younger than the coinstake, and its block is older by
  the minimal age; and the hash of the kernel, over the modifier of the previous block, is at most the target
  times the value of the output.\<close>

theorem proof_of_stake_checked:
  fixes E tx
  defines "out \<equiv> prevout (vin tx ! 0)"
  assumes "bn_ok E" "heights_ok pindexPrev" "pindexPrev \<noteq> []"
    and "\<forall>p t. disk_tx env p = Some t \<longrightarrow> list_all (\<lambda>x. is_int64 (nValue x)) (vout t)"
    and "CheckProofOfStake E env txdb pindexPrev tx nBits c = (Accepted (proof_hash, target), c')"
  shows "IsCoinStake tx \<and> (\<exists>ti txPrev block_from. txdb (op_hash out) = Some ti \<and>
    disk_tx env (ti_pos ti) = Some txPrev \<and> unat (op_n out) < length (vout txPrev) \<and>
    VerifySignature E txPrev tx 0 SCRIPT_VERIFY_NONE 0 c = (Some True, c') \<and>
    disk_header env (tp_nFile (ti_pos ti)) (tp_nBlockPos (ti_pos ti)) = Some block_from \<and>
    list_all (\<lambda>p. \<not> (bi_nBlockPos p = tp_nBlockPos (ti_pos ti) \<and> bi_nFile p = tp_nFile (ti_pos ti)))
      (take (nat (nStakeMinConfirmations env - 1)) pindexPrev) \<and>
    tx_nTime txPrev \<le> tx_nTime tx \<and> b_nTime block_from + nStakeMinAge env \<le> tx_nTime tx \<and>
    proof_hash = Hash E (bytes_of_uint256 (nStakeModifier (hd pindexPrev)) @ bytes_of_u32 (tx_nTime txPrev) @
      bytes_of_uint256 (op_hash out) @ bytes_of_u32 (op_n out) @ bytes_of_u32 (tx_nTime tx)) \<and>
    uint proof_hash \<le> SetCompact E nBits * nValue (vout txPrev ! unat (op_n out)))"
proof -
  note d = assms(6) [unfolded CheckProofOfStake_def Let_def, folded out_def]
  obtain txPrev ti where r: "IsCoinStake tx" "read_prev_tx env txdb out = Some (txPrev, ti)"
    using d by (auto split: if_splits option.splits)
  have v: "VerifySignature E txPrev tx 0 SCRIPT_VERIFY_NONE 0 c = (Some True, c')"
    using d r by (auto split: if_splits option.splits bool.splits prod.splits)
  obtain b where b: "disk_header env (tp_nFile (ti_pos ti)) (tp_nBlockPos (ti_pos ti)) = Some b"
    "IsConfirmedInNPrevBlocks ti pindexPrev (nStakeMinConfirmations env - 1) = None"
    "CheckStakeKernelHash E (nStakeMinAge env) pindexPrev nBits b txPrev out (tx_nTime tx) = Some (proof_hash, target)"
    using d r v by (auto split: if_splits option.splits)
  have "is_int64 (nValue (vout txPrev ! unat (op_n out)))"
    using r(2) assms(5) by (auto simp: read_prev_tx_def list_all_length split: option.splits if_splits)
  then have w: "bn_of_int E (nValue (vout txPrev ! unat (op_n out))) = nValue (vout txPrev ! unat (op_n out))"
    using assms(2) by (simp add: is_int64_def)
  have "of_int (b_GetBlockTime b) = b_nTime b" by (simp add: b_GetBlockTime_def)
  then have k: "tx_nTime txPrev \<le> tx_nTime tx" "b_nTime b + nStakeMinAge env \<le> tx_nTime tx"
    "proof_hash = Hash E (bytes_of_uint256 (nStakeModifier (hd pindexPrev)) @ bytes_of_u32 (tx_nTime txPrev) @
      bytes_of_uint256 (op_hash out) @ bytes_of_u32 (op_n out) @ bytes_of_u32 (tx_nTime tx))"
    "uint proof_hash \<le> SetCompact E nBits * nValue (vout txPrev ! unat (op_n out))"
    using b(3) assms(2) w by (auto simp: CheckStakeKernelHash_def CheckStakeKernelHashV2_def Let_def not_less split: if_splits)
  have "list_all (\<lambda>p. \<not> (bi_nBlockPos p = tp_nBlockPos (ti_pos ti) \<and> bi_nFile p = tp_nFile (ti_pos ti)))
      (take (nat (nStakeMinConfirmations env - 1)) pindexPrev)"
    using confirmed_loop_None [of ti _ _ pindexPrev 0] b(2) assms(3,4)
    by (auto simp: IsConfirmedInNPrevBlocks_def split: list.splits)
  with r v b(1) k show ?thesis by (auto simp: read_prev_tx_def split: option.splits if_splits)
qed

definition stake_env :: connect_env where
  "stake_env = env1\<lparr>disk_tx := (\<lambda>_. Some child), disk_header := (\<lambda>_ _. Some CBlock_null), nStakeMinAge := 5\<rparr>"

definition stake_index :: txdb where
  "stake_index = [2 \<mapsto> \<lparr>ti_pos = \<lparr>tp_nFile = 1, tp_nBlockPos = 7, tp_nTxPos = 81\<rparr>, vSpent = [CDiskTxPos_null]\<rparr>]"

definition stake_entry :: CBlockIndex where
  "stake_entry = index_entry1\<lparr>nHeight := 0\<rparr>"

lemma stake_accepted:
  "\<exists>target. CheckProofOfStake time_hash stake_env stake_index [stake_entry] stake (GetCompact time_hash 1000) c =
     (Accepted (0, target), c)"
proof -
  let ?out = "\<lparr>op_hash = 2, op_n = 0\<rparr> :: COutPoint"
  have "le_bytes n 0 = replicate n 0" for n by (induction n) simp_all
  then have z: "bytes_of_uint256 0 ! 4 = 0" by (simp add: bytes_of_uint256_def)
  then have "Hash time_hash (bytes_of_uint256 0 @ bytes_of_u32 t @ r) = 0" for t r
    by (simp add: Hash_def time_hash_def time_digest_def nth_append)
  moreover have "0 < SetCompact time_hash (GetCompact time_hash 1000)"
    using compact_round [OF time_hash_bn_ok, of 1000] by simp
  ultimately have k: "CheckStakeKernelHash time_hash 5 [stake_entry] (GetCompact time_hash 1000) CBlock_null child ?out 5 =
      Some (0, getuint256 time_hash (SetCompact time_hash (GetCompact time_hash 1000) * 50000))"
    using time_hash_bn_ok
    by (simp add: CheckStakeKernelHash_def CheckStakeKernelHashV2_def Let_def child_vin b_GetBlockTime_def
        CBlock_null_def stake_entry_def index_entry1_def)
  show ?thesis
    using k by (simp add: CheckProofOfStake_def stake_kind stake_vin Let_def read_prev_tx_def stake_index_def stake_env_def
        child_vin stake_verified IsConfirmedInNPrevBlocks_def stake_entry_def index_entry1_def env1_def)
qed

lemma proof_of_stake_checked_witness:
  "list_all (\<lambda>p. bi_nBlockPos p \<noteq> 7) (take 9 [stake_entry]) \<and> IsCoinStake stake"
proof -
  obtain target where "CheckProofOfStake time_hash stake_env stake_index [stake_entry] stake (GetCompact time_hash 1000) cache0 =
     (Accepted (0, target), cache0)" using stake_accepted by blast
  from proof_of_stake_checked [OF time_hash_bn_ok _ _ _ this] show ?thesis
    by (simp add: stake_entry_def index_entry1_def stake_env_def env1_def stake_vin stake_index_def child_vin is_int64_def)
qed

end
