(* ===== verification/OrphanSpec.thy ===== *)
theory OrphanSpec
  imports NodeRun
begin

text \<open>
  The properties of the orphan blocks and of \<open>ProcessBlock\<close> (\<open>OrphanBlocks\<close>). The witnesses process the blocks of
  the run of \<open>NodeRun\<close> in another order: the second block of the branch arrives before the first.
\<close>

section \<open>The run\<close>

definition run_stores :: "uint256 \<Rightarrow> (u32 \<times> u32) option" where
  "run_stores h = map_of [(3, (1, 2000)), (4, (1, 3000))] h"

definition run_process :: "CBlock \<Rightarrow> block_state \<Rightarrow> unit verdict \<times> peer_action list \<times> block_state" where
  "run_process b st = ProcessBlock run_hash run_env run_stores (\<lambda>_. 0) DEFAULT_MAX_ORPHAN_BLOCKS False False (Some 70000) b st"

definition run_orphan :: COrphanBlock where
  "run_orphan = COrphanBlock_new 4 (run_block 3 0x52 4)"

definition run_waiting :: block_state where
  "run_waiting = \<lparr>st_node = run2, st_orphans = \<lparr>mapOrphanBlocks = [(4, run_orphan)],
     mapOrphanBlocksByPrev = [(3, run_orphan)], setStakeSeenOrphan = {},
     nOrphanBlocksSize = of_nat (length (vchBlock run_orphan))\<rparr>\<rparr>"

lemma run_canonical: "IsCanonicalBlockSignature (run_block prev op t) low"
  by (simp add: IsCanonicalBlockSignature_def) (simp add: run_block_def CBlock_null_def)

lemma run_block_ok: "block_ok (run_block prev op t)"
  by (simp add: block_ok_def run_block_def CBlock_null_def run_coinbase_def tx_ok_def txin_ok_def txout_ok_def
      is_int32_def is_int64_def MAX_SIZE_def)

text \<open>A block of the run whose parent is not the best block, up to the last test.\<close>

lemma run_process_checked:
  assumes "op \<in> {0x50, 0x51, 0x52}" "t \<le> 20" "mapBlockIndex (st_node st) (of_nat (unat t mod 256)) = None"
    and "map_of (mapOrphanBlocks (st_orphans st)) (of_nat (unat t mod 256)) = None" "prev \<noteq> hashBestChain (st_node st)"
    and "AutoSelectSyncCheckpoint (pindexBest (st_node st)) = Some p" "bi_GetBlockTime p \<le> int (unat t)"
  shows "run_process (run_block prev op t) st =
    (if mapBlockIndex (st_node st) prev = None
     then keep_orphan (\<lambda>_. 0) DEFAULT_MAX_ORPHAN_BLOCKS False (of_nat (unat t mod 256)) (run_block prev op t) st
     else case AcceptBlock run_hash run_env (run_stores (of_nat (unat t mod 256))) (run_block prev op t) (st_node st) of
         (Raised, n) \<Rightarrow> (Raised, [], st\<lparr>st_node := n\<rparr>)
       | (Rejected d, n) \<Rightarrow> (Rejected d, [], st\<lparr>st_node := n\<rparr>)
       | (Accepted _, n) \<Rightarrow>
           (case process_queue run_hash run_env run_stores [of_nat (unat t mod 256)] (st\<lparr>st_node := n\<rparr>) of
              (threw, st) \<Rightarrow> (if threw then Raised else Accepted (), [], st)))"
  using assms(3-7) run_block_checked [OF assms(1,2)]
  by (simp add: run_process_def ProcessBlock_def Let_def run_canonical b_GetBlockTime_def)

lemma run_orphan_kept:
  "run_process (run_block 3 0x52 4) \<lparr>st_node = run2, st_orphans = orphan_blocks_empty\<rparr> =
     (Accepted (), [PushGetBlocks (pindexBest run2) 4, AskFor 3], run_waiting)"
proof -
  obtain a where a: "entry_for run_hash run_env (run_block 1 0x51 2) 1 1000 [run_genesis] a"
    and m: "mapBlockIndex run2 = [1 \<mapsto> [run_genesis], 2 \<mapsto> [a, run_genesis]]" and best: "pindexBest run2 = [a, run_genesis]"
    and h: "hashBestChain run2 = 2" by (rule run2_facts)
  have sync: "AutoSelectSyncCheckpoint (pindexBest run2) = Some run_genesis"
    using run_entry [OF a] run_genesis_facts by (simp add: best AutoSelectSyncCheckpoint_def nCheckpointSpan_def)
  have "bi_GetBlockTime run_genesis \<le> 4" using run_genesis_facts by (simp add: bi_GetBlockTime_def)
  then have "run_process (run_block 3 0x52 4) \<lparr>st_node = run2, st_orphans = orphan_blocks_empty\<rparr> =
      keep_orphan (\<lambda>_. 0) DEFAULT_MAX_ORPHAN_BLOCKS False 4 (run_block 3 0x52 4) \<lparr>st_node = run2, st_orphans = orphan_blocks_empty\<rparr>"
    using run_process_checked [where op = "0x52" and t = "4" and prev = "3" and p = run_genesis
      and st = "\<lparr>st_node = run2, st_orphans = orphan_blocks_empty\<rparr>"] sync
    by (simp add: m h orphan_blocks_empty_def)
  also have "\<dots> = (Accepted (), [PushGetBlocks (pindexBest run2) 4, AskFor 3], run_waiting)"
    by (simp add: keep_orphan_def orphan_blocks_empty_def PruneOrphanBlocks_def prune_loop.simps add_orphan_def Let_def
        oins_def run_waiting_def run_orphan_def GetOrphanRoot_def WantedByOrphan_def)
  finally show ?thesis .
qed

lemma run_orphan_accepted:
  "run_process (run_block 1 0x51 3) run_waiting = (Accepted (), [], \<lparr>st_node = run4, st_orphans = orphan_blocks_empty\<rparr>)"
proof -
  obtain a where a: "entry_for run_hash run_env (run_block 1 0x51 2) 1 1000 [run_genesis] a"
    and m: "mapBlockIndex run2 = [1 \<mapsto> [run_genesis], 2 \<mapsto> [a, run_genesis]]" and best: "pindexBest run2 = [a, run_genesis]"
    and h: "hashBestChain run2 = 2" by (rule run2_facts)
  have sync: "AutoSelectSyncCheckpoint (pindexBest run2) = Some run_genesis"
    using run_entry [OF a] run_genesis_facts by (simp add: best AutoSelectSyncCheckpoint_def nCheckpointSpan_def)
  have 3: "AcceptBlock run_hash run_env (run_stores 3) (run_block 1 0x51 3) run2 = (Accepted (), run3)"
    by (simp add: run_stores_def) (rule run3_facts)
  have 4: "AcceptBlock run_hash run_env (run_stores 4) (run_block 3 0x52 4) run3 = (Accepted (), run4)"
    by (simp add: run_stores_def) (rule run4_facts)
  have dec: "unser_block (vchBlock run_orphan) = Some (run_block 3 0x52 4, [])"
    using block.dec_enc [OF run_block_ok, where s = "[]"] by (simp add: run_orphan_def)
  have ob: "ob_hashBlock run_orphan = 4" by (simp add: run_orphan_def)
  have "process_queue run_hash run_env run_stores [3] (run_waiting\<lparr>st_node := run3\<rparr>) =
      (False, \<lparr>st_node = run4, st_orphans = orphan_blocks_empty\<rparr>)"
    using 4 by (simp add: run_waiting_def orphans_of_def dec ob Let_def oerase_def erase_prev_def orphan_blocks_empty_def)
  moreover have "bi_GetBlockTime run_genesis \<le> 3" using run_genesis_facts by (simp add: bi_GetBlockTime_def)
  ultimately show ?thesis
    using run_process_checked [where op = "0x51" and t = "3" and prev = "1" and p = run_genesis and st = run_waiting] sync 3
    by (simp add: run_waiting_def m h)
qed

lemma run2_reach: "node_reach run_hash run_env run2"
proof -
  have 2: "AcceptBlock run_hash run_env (Some (1, 1000)) (run_block 1 0x51 2) run1 = (Accepted (), run2)"
    by (rule run2_facts)
  show ?thesis by (rule node_reach.accept [OF run1_reach run_same 2])
qed

lemma run_waiting_reach: "block_state_reach run_hash run_env run_waiting"
  by (rule block_state_reach.process [OF block_state_reach.start [OF run2_reach] run_same run_block_ok
    run_orphan_kept [unfolded run_process_def]]) simp

section \<open>Orphan blocks\<close>

text \<open>C13: The orphan blocks are kept consistently. After any blocks have gone through \<open>ProcessBlock\<close>, every orphan
  stands under the hash of the block its bytes are read back as, the multimap by parents has exactly the same
  orphans, the total size is that of the bytes held, and a stake marked as seen is the stake of an orphan.\<close>

theorem orphan_blocks_consistent:
  assumes "block_state_reach E env st"
  shows "(\<forall>(h, ob) \<in> set (mapOrphanBlocks (st_orphans st)). \<exists>b. unser_block (vchBlock ob) = Some (b, []) \<and>
      h = b_GetHash E (scrypt_hash (base_env env)) b \<and> ob = COrphanBlock_new h b) \<and>
    distinct (map fst (mapOrphanBlocks (st_orphans st))) \<and>
    mset (mapOrphanBlocksByPrev (st_orphans st)) =
      image_mset (\<lambda>e. (ob_hashPrev (snd e), snd e)) (mset (mapOrphanBlocks (st_orphans st))) \<and>
    sorted (map fst (mapOrphanBlocksByPrev (st_orphans st))) \<and>
    nOrphanBlocksSize (st_orphans st) = of_nat (\<Sum>e \<leftarrow> mapOrphanBlocks (st_orphans st). length (vchBlock (snd e))) \<and>
    setStakeSeenOrphan (st_orphans st) \<subseteq> ob_stake ` snd ` set (mapOrphanBlocks (st_orphans st))"
proof -
  let ?o = "st_orphans st" and ?scrypt = "scrypt_hash (base_env env)"
  have ok: "orphan_blocks_ok E ?scrypt ?o" using block_state_reach_ok [OF assms] by (simp add: block_state_ok_def)
  have entry: "\<exists>b. unser_block (vchBlock ob) = Some (b, []) \<and> h = b_GetHash E ?scrypt b \<and> ob = COrphanBlock_new h b"
    if e: "(h, ob) \<in> set (mapOrphanBlocks ?o)" for h ob
  proof -
    obtain b where b: "block_ok b" "h = b_GetHash E ?scrypt b" "ob = COrphanBlock_new h b"
      using orphan_blocks_ok_entry [OF ok e] by (auto simp: orphan_entry_of)
    then show ?thesis using block.dec_enc [OF b(1), where s = "[]"] by (intro exI [of _ b]) simp
  qed
  have sum: "(\<Sum>e\<in>#mset m. length (vchBlock (snd e))) = (\<Sum>e \<leftarrow> m. length (vchBlock (snd e)))"
    for m :: "(uint256 \<times> COrphanBlock) list" by (induction m) simp_all
  have entries: "\<forall>(h, ob) \<in> set (mapOrphanBlocks ?o). \<exists>b. unser_block (vchBlock ob) = Some (b, []) \<and>
      h = b_GetHash E ?scrypt b \<and> ob = COrphanBlock_new h b"
    using entry by blast
  have fields: "distinct (map fst (mapOrphanBlocks ?o))" "sorted (map fst (mapOrphanBlocksByPrev ?o))"
    "mset (mapOrphanBlocksByPrev ?o) = image_mset (\<lambda>e. (ob_hashPrev (snd e), snd e)) (mset (mapOrphanBlocks ?o))"
    "setStakeSeenOrphan ?o \<subseteq> ob_stake ` snd ` set (mapOrphanBlocks ?o)"
    "nOrphanBlocksSize ?o = of_nat (\<Sum>e\<in>#mset (mapOrphanBlocks ?o). length (vchBlock (snd e)))"
    using ok by (simp_all add: orphan_blocks_ok_def orphans_with_def omap_ok_def prev_entry_def comp_def image_image
        strict_sorted_iff)
  show ?thesis by (intro conjI; (rule entries fields fields(5) [unfolded sum])?)
qed

lemma orphan_blocks_consistent_witness:
  "nOrphanBlocksSize (st_orphans run_waiting) = of_nat (length (ser_block (run_block 3 0x52 4))) \<and>
     mapOrphanBlocksByPrev (st_orphans run_waiting) = [(3, run_orphan)]"
  using orphan_blocks_consistent [OF run_waiting_reach] by (simp add: run_waiting_def run_orphan_def)

text \<open>C14: No orphan waits for a block that was accepted. When \<open>ProcessBlock\<close> accepts a block whose parent it has,
  orphans are given to \<open>AcceptBlock\<close> one after the other (\<open>accept_run\<close>), each of them once and after its parent was
  accepted; \<open>H\<close> is the block itself and exactly the orphans \<open>AcceptBlock\<close> accepted. The orphans given to it are
  all those whose parent is in \<open>H\<close>, children of accepted orphans included: they are gone from the multimap, and
  the others are untouched. All of \<open>H\<close> is in the index.\<close>

theorem orphans_processed:
  assumes "block_state_reach E env0 st" "same_chain env env0" "mapBlockIndex (st_node st) (hashPrevBlock b) \<noteq> None"
    and "ProcessBlock E env stores rand maxmib importing initial pfrom b st = (Accepted (), acts, st')"
  shows "\<exists>sig n obs H. (sig = vchBlockSig b \<or> EnsureLowS E (vchBlockSig b) = Some sig) \<and>
    AcceptBlock E env (stores (b_GetHash E (scrypt_hash (base_env env)) b)) (b\<lparr>vchBlockSig := sig\<rparr>)
      (st_node st) = (Accepted (), n) \<and>
    accept_run E env stores {b_GetHash E (scrypt_hash (base_env env)) b} n obs H (st_node st') \<and>
    mset obs = mset (map snd (filter (\<lambda>e. fst e \<in> H) (mapOrphanBlocksByPrev (st_orphans st)))) \<and>
    mapOrphanBlocksByPrev (st_orphans st') = filter (\<lambda>e. fst e \<notin> H) (mapOrphanBlocksByPrev (st_orphans st)) \<and>
    H \<subseteq> dom (mapBlockIndex (st_node st'))"
  by (rule ProcessBlock_children [OF assms(4,3) block_state_reach_ok [OF assms(1)] assms(2)])

lemma orphans_processed_witness:
  "\<exists>n H. accept_run run_hash run_env run_stores {3} n [run_orphan] H run4 \<and> H \<subseteq> dom (mapBlockIndex run4)"
proof -
  obtain a where m: "mapBlockIndex run2 = [1 \<mapsto> [run_genesis], 2 \<mapsto> [a, run_genesis]]" by (rule run2_facts)
  have "mapBlockIndex (st_node run_waiting) (hashPrevBlock (run_block 1 0x51 3)) \<noteq> None"
    by (simp add: run_waiting_def m)
  from orphans_processed [OF run_waiting_reach run_same this run_orphan_accepted [unfolded run_process_def]]
  obtain n obs H where r: "accept_run run_hash run_env run_stores {3} n obs H run4"
    "mset obs = mset (map snd (filter (\<lambda>e. fst e \<in> H) [(3, run_orphan)]))" "H \<subseteq> dom (mapBlockIndex run4)"
    by (auto simp: run_waiting_def)
  then have "obs = [run_orphan]" using accept_run_mono [OF r(1)] by simp
  with r show ?thesis by blast
qed

text \<open>C17: Pruning ends, within the limit, and breaks no chain. When the orphans do not refer to each other in a
  circle, \<open>PruneOrphanBlocks\<close> returns whatever the random numbers are: the size is then at most the limit, the
  orphans left are orphans from before, and one that had its parent among the orphans still has it. For every
  orphan left the walks of \<open>GetOrphanRoot\<close> and \<open>WantedByOrphan\<close> end at its oldest ancestor among the orphans
  and at the unknown parent of that.\<close>

theorem pruning_ends:
  assumes "block_state_reach E env st" "orphans_ranked r (st_orphans st)"
  shows "\<exists>p. PruneOrphanBlocks rand maxmib (st_orphans st) = Some p \<and> nOrphanBlocksSize p \<le> maxmib * 1048576 \<and>
    set (mapOrphanBlocks p) \<subseteq> set (mapOrphanBlocks (st_orphans st)) \<and>
    (\<forall>(h, ob) \<in> set (mapOrphanBlocks p).
       map_of (mapOrphanBlocks p) (ob_hashPrev ob) = map_of (mapOrphanBlocks (st_orphans st)) (ob_hashPrev ob) \<and>
       (\<exists>root wanted. GetOrphanRoot p h = Some root \<and> WantedByOrphan p ob = Some wanted \<and>
          (h, root) \<in> (waits_for p)\<^sup>* \<and> (root, wanted) \<in> waits_for p \<and> map_of (mapOrphanBlocks p) wanted = None))"
proof -
  let ?o = "st_orphans st" and ?scrypt = "scrypt_hash (base_env env)"
  have ok: "orphan_blocks_ok E ?scrypt ?o" using block_state_reach_ok [OF assms(1)] by (simp add: block_state_ok_def)
  obtain p where p: "PruneOrphanBlocks rand maxmib ?o = Some p"
    unfolding PruneOrphanBlocks_def using prune_loop_total [OF ok assms(2), of rand 0 "maxmib * 1048576"] by blast
  note q = prune_loop_props [OF p [unfolded PruneOrphanBlocks_def] ok]
  then have pok: "orphan_blocks_ok E ?scrypt p" and sub: "set (mapOrphanBlocks p) \<subseteq> set (mapOrphanBlocks ?o)" by simp_all
  have rank: "orphans_ranked r p" using assms(2) sub by (auto simp: orphans_ranked_def list_all_iff)
  have "map_of (mapOrphanBlocks p) h = Some ob" if "(h, ob) \<in> set (mapOrphanBlocks p)" for h ob
    using that pok by (simp add: orphan_blocks_ok_def orphans_with_def in_omap_iff)
  from orphan_root_wanted [OF pok rank this] p q show ?thesis by fastforce
qed

lemma pruning_ends_witness:
  "\<exists>p. PruneOrphanBlocks (\<lambda>_. 7) 0 (st_orphans run_waiting) = Some p \<and> nOrphanBlocksSize p = 0"
proof -
  have "orphans_ranked unat (st_orphans run_waiting)"
    by (simp add: orphans_ranked_def run_waiting_def run_orphan_def)
  from pruning_ends [OF run_waiting_reach this, where rand = "\<lambda>_. 7" and maxmib = 0] show ?thesis by auto
qed

end
