(* ===== verification/Spec2Isabelle.thy ===== *)
theory Spec2Isabelle
  imports ScriptSpec DataSpec StandardSpec FaSpec PoolSpec NodeSpec AddrSpec BlockSpec OrphanSpec
begin

text \<open>
  Verification library of the node in src/src: a proof-of-work and proof-of-stake coin derived from
  Bitcoin, written in C++, with a Qt interface and its translations. The model is a shallow embedding:
  pure functions of HOL for the functions of the code, records for its classes, \<open>option\<close>, sums and
  small result types for its exceptions and early returns, words of the width of the code's unsigned
  integers, \<open>int\<close> with \<open>s32\<close> and \<open>s64\<close> where a signed integer may wrap around.

  \<^bold>\<open>Foundations.\<close> \<open>Prelude\<close>: bytes, little-endian numbers, wrapping, the result type of a step of the
  interpreter. \<open>External\<close>: what the code calls and the repository does not hold, as one record of
  functions: the big numbers, hash functions and elliptic curve of OpenSSL. The laws proofs rely on
  (\<open>bn_ok\<close>, \<open>hash_ok\<close>, \<open>ec_ok\<close>, \<open>ecdsa_ok\<close>, \<open>cipher_ok\<close>) state their documentation and are hypotheses of
  the theorems that need them; \<open>openssl_ref\<close> is a concrete instance on which the witnesses run.
  \<open>OrdMap\<close>: \<open>std::map\<close> and \<open>std::set\<close> as ordered lists.

  \<^bold>\<open>Data.\<close> \<open>BigNum\<close> (bignum.h): conversions and the compact form of targets. \<open>Serialize\<close> (serialize.h):
  readers and writers; the locale \<open>codec\<close> is the contract of a pair of them and is interpreted on
  every pair. \<open>Keys\<close> (key.h, key.cpp, hash.h), \<open>Core\<close> (core.h, and \<open>CTransaction\<close> of main.h). Their
  properties are in \<open>DataSpec\<close>: a transaction and its bytes determine one another, compact targets round to three
  bytes, the sum of the outputs is exact or an exception.

  \<^bold>\<open>Scripts.\<close> \<open>ScriptOps\<close> (the operations on \<open>CScript\<close>, script.h and script.cpp), \<open>ScriptLemmas\<close>, \<open>Sig\<close>
  (encoding checks, the hash that is signed, the cache of verified signatures; the locale
  \<open>sig_checker\<close> is what the interpreter expects of a checker, and is interpreted on the cached and on the direct
  check), \<open>Interp\<close> (\<open>EvalScript\<close>, \<open>VerifyScript\<close> and \<open>VerifySignature\<close> with every opcode), \<open>InterpProps\<close> (the limits as
  an invariant of the step relation \<open>run\<close>, which the loop refines), \<open>Conditionals\<close> (a semantics of scripts as nested
  blocks, which the interpreter with its stack of flags computes). \<open>ScriptSpec\<close>: a
  pay-to-public-key-hash spend verifies exactly when the key hashes to the address and the signature
  is valid; the cache cannot be observed; verification always gives an answer; stacks and
  operations stay within their limits; conditionals are block structured.

  \<^bold>\<open>Standard scripts and keys.\<close> \<open>KeyStore\<close> (keystore.cpp, crypter.cpp: the plain and the encrypted store),
  \<open>Standard\<close> (script.cpp: templates, ownership, destinations, signing, combining signatures),
  \<open>StandardProps\<close>; \<open>StandardSpec\<close>: signing succeeds, what is signed verifies and signing leaves the other inputs valid, combined signatures are
  valid ones, encrypting the wallet loses no key. \<open>Base58\<close> (base58.h): the locale \<open>text_form\<close> is interpreted on base-58, on
  base-58 with a checksum, on addresses and on secret keys.

  \<^bold>\<open>Unconfirmed transactions.\<close> \<open>MemPool\<close> (txmempool.cpp), \<open>Orphans\<close> (main.cpp), \<open>TxRules\<close> (the checks without
  context, main.cpp), \<open>AcceptPool\<close> (\<open>AcceptToMemoryPool\<close>). \<open>PoolSpec\<close> and \<open>NodeSpec\<close>: no output is spent twice
  in the pool, whichever way transactions are removed (\<open>ReorgProps\<close> shows that what a block takes out are such
  steps), and \<open>AcceptToMemoryPool\<close> keeps it so; \<open>CheckTransaction\<close> is characterised; recursive removal ends and leaves no descendant;
  the orphans stay bounded and their two maps consistent.

  \<^bold>\<open>Blocks and the chain.\<close> \<open>Merkle\<close>, \<open>Blocks\<close> (main.h and the rules along the chain of main.cpp),
  \<open>TxConnect\<close> (fetching, connecting and disconnecting inputs), \<open>BlockRules\<close> (\<open>CheckBlock\<close>),
  \<open>BlockConnect\<close> and \<open>BlockConnectProps\<close> (\<open>ConnectBlock\<close>), \<open>BlockDisconnect\<close>. \<open>ChainSpec\<close> and \<open>NodeSpec\<close>: an
  accepted transaction pays for what it takes; a block without a coinstake mints no more than the
  reward; the index finds the transactions of a block; disconnecting a block restores the
  index; Merkle branches verify; a repeated transaction is rejected; the next target is the specified
  one. One theorem shows a rule that is missing: a coinstake after the second place of a proof-of-work block is not bounded.

  \<^bold>\<open>Proof of stake.\<close> \<open>StakeKernel\<close> (kernel.h, kernel.cpp: the stake modifier, the kernel hash, \<open>CheckProofOfStake\<close>;
  an index entry is the list of the block and its ancestors), \<open>StakeProps\<close> (the candidates and the rounds of the
  selection), \<open>Checkpoints\<close> (checkpoints.cpp). \<open>BlockSpec\<close>: the next modifier is always computed and is made of
  entropy bits of different blocks; what an accepted coinstake proves.

  \<^bold>\<open>Block acceptance.\<close> \<open>BestChain\<close> (main.cpp: the record \<open>node\<close> of the block index, the best chain, the transaction
  index and the pool; \<open>AcceptBlock\<close>, \<open>AddToBlockIndex\<close>, \<open>SetBestChain\<close>, \<open>Reorganize\<close>, with the verdicts accepted,
  rejected with a score, and an exception) and \<open>OrphanBlocks\<close> (\<open>ProcessBlock\<close> and the blocks whose parent is missing).
  \<open>ForkProps\<close>: the fork is the last common ancestor. \<open>NodeProps\<close>: what each operation does to the fields of the
  node, case by case. \<open>IndexProps\<close>: the invariant \<open>node_ok\<close>, that \<open>AcceptBlock\<close> keeps it, and the reachable states
  \<open>node_reach\<close>. \<open>ReorgProps\<close>: the transaction index is a function of the best chain (\<open>index_of\<close>), the abstract
  specification that connecting, disconnecting and reorganising implement. \<open>OrphanProps\<close>: the invariant of the
  orphans, the specification \<open>accept_run\<close> of the work queue, pruning, and the states \<open>block_state_reach\<close> of \<open>ProcessBlock\<close>. \<open>NodeRun\<close>: a concrete run of
  four blocks in which a branch of two replaces a block, on which the witnesses rest. \<open>BlockSpec\<close> and \<open>OrphanSpec\<close>:
  the index is a tree of valid headers; the best chain changes only for more trust; a refused block leaves the
  node as it was; the transaction index follows the best chain; orphans are kept consistently, processed when
  their parent is accepted, and pruned within the limit. One theorem shows a best chain that is not connected.

  \<^bold>\<open>Addresses of peers.\<close> \<open>Base32\<close> (util.cpp), \<open>NetAddr\<close> (netbase.h, netbase.cpp, protocol.h: the classes as records that
  extend one another), \<open>AddrMan\<close> (addrman.h, addrman.cpp: the entries, the random order and the two tables, with the
  assertions as \<open>None\<close>), \<open>AddrManProps\<close> (the invariant, one predicate per structure on a view of the entries, and the
  steps on the tables), \<open>AddrOps\<close> (every operation keeps it, and \<open>Check_\<close> accepts it). \<open>NetSpec\<close> and \<open>AddrSpec\<close>: no
  assertion fails in any sequence of operations; a tried address is not forgotten; samples are small, known and
  good; every entry can be selected; addresses are grouped by the network they belong to.

  \<^bold>\<open>Translations.\<close> \<open>Messages\<close>, \<open>FaMessages1\<close> and \<open>FaMessages2\<close> (the Persian catalogue,
  qt/locale/bitcoin_fa.ts, context by context), \<open>FaSpec\<close>: what the lookup of the interface returns,
  and which translations keep the conversions of their source text.

  \<^bold>\<open>Termination and fuel.\<close> Loops are total functions with a measure where the code bounds them. Where fuel is
  used, the fuel given is proved to be enough: the encoder of base 58 divides at most twice as often as there are
  bytes; the recursion of \<open>CTxMemPool::remove\<close> is at most one level deeper than the highest rank of an entry, and so
  not deeper than their number in \<open>delete_connected\<close> (\<open>delete_connected_total\<close>); the walks along the orphan blocks are
  not longer than the number of orphans when these do not refer to each other in a circle (\<open>pruning_ends\<close>).
  \<open>IsMine\<close>, which may recurse without end, is a partial function, and is proved to
  return when no script of the key store is itself a pay-to-script-hash script.

  \<^bold>\<open>Assumptions that are not laws of a library.\<close> \<open>ranked\<close> and the rank of \<open>accepted_transaction\<close>: the
  transactions of the pool do not spend one another in a circle, which would be a circle of hashes.
  \<open>orphans_ranked\<close>: the orphan blocks do not either. \<open>fresh\<close> and the premises of \<open>transaction_index_follows\<close>: no
  transaction is in a chain twice, and a block is read back from where it was written.
  \<open>entries_ok\<close>: a position in the index that is null has the one form \<open>SetNull\<close> writes.

  \<^bold>\<open>Not modelled.\<close> What surrounds block acceptance: the dispatch of messages (\<open>ProcessMessage\<close>), the block files
  and the records of the databases (what is on disk is an argument, writes succeed), relaying, and the start of the
  node. \<open>GetKernelStakeModifier\<close>, which nothing calls. The wallet, mining and the remote procedure calls: they use the operations
  modelled here over state of their own, much of it on disk. Sockets, threads, scrypt (an argument), the graphical
  interface, the other translations and third-party code (LevelDB, JSON Spirit) are outside the model.
  Locks and the log are left out everywhere.
\<close>

end
